(* ===== verification/Base.thy ===== *)
theory Base
  imports Main "HOL-Library.Word"
begin

text \<open>
  What every component shares: machine integers, the errors of the code, and the
  state-and-error functions that model \<open>fn (&mut self, ..) -> io::Result<T>\<close>.

  A Rust function that mutates a state \<open>'s\<close> and returns \<open>Result<'a, 'e>\<close> is a function
  \<open>'s \<Rightarrow> ('e + 'a) \<times> 's\<close> (of type \<open>('s, 'a) io\<close> for an \<open>io::Result\<close>): the result, and the state it leaves behind also when it
  fails. \<open>bnd\<close> is the \<open>?\<close> operator, \<open>ret\<close> is \<open>Ok\<close>, \<open>fail\<close> is an early return
  with an error. A panic (an overflow of checked arithmetic, an \<open>unwrap\<close> of \<open>None\<close>,
  a slice index out of range) is the value \<open>Panic\<close> of the error type, so that
  \<open>the code does not panic\<close> is a statement about the result.
\<close>

unbundle bit_operations_syntax

named_theorems run_simps
  \<comment> \<open>equations that execute one call of the state-and-error functions\<close>

subsection \<open>Machine integers\<close>

type_synonym u8 = "8 word"
type_synonym u16 = "16 word"
type_synonym u32 = "32 word"
type_synonym u64 = "64 word"

text \<open>An \<open>i64\<close> is an \<open>int\<close> in this range; arithmetic on it checks the range.\<close>

definition in_i64 :: "int \<Rightarrow> bool" where
  "in_i64 i \<longleftrightarrow> - (2 ^ 63) \<le> i \<and> i < 2 ^ 63"

subsection \<open>Errors\<close>

text \<open>\<open>io::Error::new(kind, message)\<close>; of a formatted message only the fixed part is kept.\<close>

datatype io_kind = UnexpectedEof | ConnectionAborted | ConnectionReset | InvalidData | WriteZero | OtherKind

datatype err = IoErr io_kind string | Panic string

type_synonym ('s, 'e, 'a) act = "'s \<Rightarrow> ('e + 'a) \<times> 's"

type_synonym ('s, 'a) io = "('s, err, 'a) act"

definition ret :: "'a \<Rightarrow> ('s, 'e, 'a) act" where
  "ret a s = (Inr a, s)"

definition fail :: "'e \<Rightarrow> ('s, 'e, 'a) act" where
  "fail e s = (Inl e, s)"

definition bnd :: "('s, 'e, 'a) act \<Rightarrow> ('a \<Rightarrow> ('s, 'e, 'b) act) \<Rightarrow> ('s, 'e, 'b) act" where
  "bnd m f s = (case m s of (Inl e, s') \<Rightarrow> (Inl e, s') | (Inr a, s') \<Rightarrow> f a s')"

definition lift_res :: "'e + 'a \<Rightarrow> ('s, 'e, 'a) act" where
  "lift_res r s = (r, s)"

text \<open>A condition the code checks before an early return.\<close>

definition guard :: "bool \<Rightarrow> 'e \<Rightarrow> ('s, 'e, unit) act" where
  "guard b e = (if b then ret () else fail e)"

lemma ret_run [run_simps]: "ret a s = (Inr a, s)"
  by (simp add: ret_def)

lemma fail_run [run_simps]: "fail e s = (Inl e, s)"
  by (simp add: fail_def)

lemma lift_res_run [run_simps]: "lift_res r s = (r, s)"
  by (simp add: lift_res_def)

lemma guard_run [run_simps]: "guard b e s = (if b then Inr () else Inl e, s)"
  by (simp add: guard_def ret_run fail_run)

lemma bnd_Inr [simp, run_simps]: "m s = (Inr a, s') \<Longrightarrow> bnd m f s = f a s'"
  by (simp add: bnd_def)

lemma bnd_Inl [simp, run_simps]: "m s = (Inl e, s') \<Longrightarrow> bnd m f s = (Inl e, s')"
  by (simp add: bnd_def)

lemma bnd_ret [simp]: "bnd (ret a) f = f a"
  by (rule ext) (simp add: bnd_def run_simps)

lemma bnd_fail [simp]: "bnd (fail e) f = fail e"
  by (rule ext) (simp add: bnd_def run_simps)

lemma bnd_lift [simp]: "bnd (lift_res (Inr a)) f = f a" "bnd (lift_res (Inl e)) f = fail e"
  by (rule ext, simp add: bnd_def lift_res_def fail_def)+

lemma bnd_guard: "bnd (guard b e) f = (if b then f () else fail e)"
  by (rule ext) (simp add: bnd_def run_simps)

lemma bnd_assoc: "bnd (bnd m f) g = bnd m (\<lambda>a. bnd (f a) g)"
  by (rule ext) (simp add: bnd_def split: prod.splits sum.splits)

text \<open>A sequence that succeeds is a success of each part.\<close>

lemma bnd_InrE:
  assumes "bnd m f s = (Inr b, s')"
  obtains a t where "m s = (Inr a, t)" and "f a t = (Inr b, s')"
  using assms by (auto simp: bnd_def split: prod.splits sum.splits)

lemma bnd_InlE:
  assumes "bnd m f s = (Inl e, s')"
  obtains "m s = (Inl e, s')" | a t where "m s = (Inr a, t)" and "f a t = (Inl e, s')"
  using assms by (auto simp: bnd_def split: prod.splits sum.splits)

lemma guard_InrE:
  assumes "guard b e s = (Inr x, s')"
  obtains "b" and "s' = s"
  using assms by (auto simp: run_simps split: if_splits)

text \<open>\<open>for _ in 0..n \<open>push(m?)\<close>\<close>: the results of \<open>n\<close> calls, in order.\<close>

fun times_io :: "nat \<Rightarrow> ('s, 'e, 'a) act \<Rightarrow> ('s, 'e, 'a list) act" where
  "times_io 0 m = ret []"
| "times_io (Suc n) m = bnd m (\<lambda>a. bnd (times_io n m) (\<lambda>as. ret (a # as)))"

text \<open>\<open>for x in xs \<open>f(x)?\<close>\<close>.\<close>

fun each_io :: "('a \<Rightarrow> ('s, 'e, unit) act) \<Rightarrow> 'a list \<Rightarrow> ('s, 'e, unit) act" where
  "each_io f [] = ret ()"
| "each_io f (x # xs) = bnd (f x) (\<lambda>_. each_io f xs)"

lemma each_io_cong [fundef_cong]:
  "xs = ys \<Longrightarrow> (\<And>x. x \<in> set ys \<Longrightarrow> f x = g x) \<Longrightarrow> each_io f xs = each_io g ys"
  by (induction xs arbitrary: ys) auto

text \<open>\<open>if let Some(x) = o \<open>f(x)?\<close>\<close>, and \<open>if c \<open>Some(m?)\<close> else None\<close>.\<close>

definition opt_io :: "('a \<Rightarrow> ('s, unit) io) \<Rightarrow> 'a option \<Rightarrow> ('s, unit) io" where
  "opt_io f v = (case v of None \<Rightarrow> ret () | Some x \<Rightarrow> f x)"

definition when_io :: "bool \<Rightarrow> ('s, 'a) io \<Rightarrow> ('s, 'a option) io" where
  "when_io c m = (if c then bnd m (\<lambda>a. ret (Some a)) else ret None)"

lemma opt_io_simps [simp]: "opt_io f None = ret ()" "opt_io f (Some x) = f x"
  by (simp_all add: opt_io_def)

lemma when_io_simps [simp]: "when_io False m = ret None"
    "when_io True m = bnd m (\<lambda>a. ret (Some a))"
  by (simp_all add: when_io_def)

lemma times_io_length: "times_io n m s = (Inr as, s') \<Longrightarrow> length as = n"
  by (induction n arbitrary: as s) (auto simp: run_simps elim!: bnd_InrE)

text \<open>The macro \<open>range_check!(n, lower, upper)?\<close> (both bounds inclusive).\<close>

definition range_check :: "'n::linorder \<Rightarrow> 'n \<Rightarrow> 'n \<Rightarrow> string \<Rightarrow> ('s, unit) io" where
  "range_check n lo hi what = (if n < lo \<or> n > hi then fail (IoErr InvalidData what) else ret ())"

lemma range_check_run [run_simps]:
  "range_check n lo hi w s = (if lo \<le> n \<and> n \<le> hi then Inr () else Inl (IoErr InvalidData w), s)"
  by (auto simp: range_check_def not_less run_simps)

lemma bnd_range_check:
  "bnd (range_check n lo hi w) f =
     (if lo \<le> n \<and> n \<le> hi then f () else fail (IoErr InvalidData w))"
  by (auto simp: range_check_def not_less)

text \<open>\<open>map_err\<close>, and the \<open>From\<close> conversion of a \<open>?\<close>.\<close>

definition map_err :: "('e \<Rightarrow> 'f) \<Rightarrow> ('s, 'e, 'a) act \<Rightarrow> ('s, 'f, 'a) act" where
  "map_err f m s = (case m s of (Inl e, s') \<Rightarrow> (Inl (f e), s') | (Inr a, s') \<Rightarrow> (Inr a, s'))"

text \<open>The bytes of a literal.\<close>

definition utf8_of :: "string \<Rightarrow> u8 list" where
  "utf8_of s = map (of_nat \<circ> of_char) s"

lemma utf8_of_inject [simp]: "utf8_of s = utf8_of t \<longleftrightarrow> s = t"
proof -
  have "inj (of_nat \<circ> of_char :: char \<Rightarrow> u8)"
  proof (rule injI)
    fix c d :: char
    assume "(of_nat \<circ> of_char) c = ((of_nat \<circ> of_char) d :: u8)"
    moreover have "of_char c < (2 :: nat) ^ 8" "of_char d < (2 :: nat) ^ 8" using nat_of_char_less_256 by simp_all
    ultimately have "(of_char c :: nat) = of_char d"
      by (simp add: word_of_nat_eq_iff take_bit_nat_eq_self)
    then show "c = d" by simp
  qed
  then show ?thesis unfolding utf8_of_def by simp
qed

subsection \<open>Checked arithmetic\<close>

text \<open>
  Rust's \<open>+\<close>, \<open>-\<close> and \<open>*\<close> on unsigned integers with overflow checks (the
  \<open>dev\<close> and \<open>test\<close> profiles panic on overflow; without the checks the result
  wraps). A result \<open>Inr\<close> is the result of both kinds of build.
\<close>

definition checked_add :: "'n::len word \<Rightarrow> 'n word \<Rightarrow> err + 'n word" where
  "checked_add a b = (if unat a + unat b < 2 ^ LENGTH('n) then Inr (a + b)
                      else Inl (Panic ''add overflow''))"

definition checked_sub :: "'n::len word \<Rightarrow> 'n word \<Rightarrow> err + 'n word" where
  "checked_sub a b = (if b \<le> a then Inr (a - b) else Inl (Panic ''sub overflow''))"

definition checked_mul :: "'n::len word \<Rightarrow> 'n word \<Rightarrow> err + 'n word" where
  "checked_mul a b = (if unat a * unat b < 2 ^ LENGTH('n) then Inr (a * b)
                      else Inl (Panic ''mul overflow''))"

definition checked_i64 :: "int \<Rightarrow> err + int" where
  "checked_i64 i = (if in_i64 i then Inr i else Inl (Panic ''i64 overflow''))"

text \<open>Chaining results that carry no state, and sums of sizes.\<close>

definition rbind :: "'e + 'a \<Rightarrow> ('a \<Rightarrow> 'e + 'b) \<Rightarrow> 'e + 'b" where
  "rbind r f = (case r of Inl e \<Rightarrow> Inl e | Inr a \<Rightarrow> f a)"

lemma rbind_simps [simp]: "rbind (Inl e) f = Inl e" "rbind (Inr a) f = f a"
  by (simp_all add: rbind_def)

fun sum_res :: "(err + nat) list \<Rightarrow> err + nat" where
  "sum_res [] = Inr 0"
| "sum_res (r # rs) = rbind r (\<lambda>a. rbind (sum_res rs) (\<lambda>b. Inr (a + b)))"

lemma sum_res_Inr [simp]: "sum_res (map (\<lambda>x. Inr (f x)) xs) = Inr (sum_list (map f xs))"
  by (induction xs) simp_all

lemma sum_res_append:
  "sum_res (rs @ qs) = rbind (sum_res rs) (\<lambda>a. rbind (sum_res qs) (\<lambda>b. Inr (a + b)))"
proof (induction rs)
  case Nil
  show ?case by (cases "sum_res qs") simp_all
next
  case (Cons r rs)
  then show ?case
    by (cases r; cases "sum_res rs"; cases "sum_res qs") simp_all
qed

lemma checked_add_Inr:
  "checked_add a b = Inr c \<Longrightarrow> unat c = unat a + unat b"
  by (auto simp: checked_add_def unat_word_ariths split: if_splits)

lemma checked_add_eqI: "unat a + unat b = unat c \<Longrightarrow> checked_add a b = Inr c"
proof -
  assume c: "unat a + unat b = unat c"
  moreover have "unat (a + b) = (unat a + unat b) mod 2 ^ LENGTH('a)"
    by (simp add: unat_word_ariths)
  ultimately have "a + b = c" by (simp add: word_unat_eq_iff)
  with c show ?thesis by (simp add: checked_add_def)
qed

lemma checked_mul_Inr:
  "checked_mul a b = Inr c \<Longrightarrow> unat c = unat a * unat b"
  by (auto simp: checked_mul_def unat_word_ariths split: if_splits)

lemma checked_sub_Inr:
  "checked_sub a b = Inr c \<Longrightarrow> unat c = unat a - unat b"
  by (auto simp: checked_sub_def unat_sub split: if_splits)

definition div_ceil :: "nat \<Rightarrow> nat \<Rightarrow> nat" where
  "div_ceil a b = (a + b - 1) div b"

subsection \<open>Results against their mathematical values\<close>

lemma rbind_assoc: "rbind (rbind r f) g = rbind r (\<lambda>x. rbind (f x) g)"
  by (cases r) simp_all

definition panics :: "err + 'a \<Rightarrow> bool" where
  "panics r \<longleftrightarrow> (case r of Inl (Panic _) \<Rightarrow> True | _ \<Rightarrow> False)"

lemma panics_simps [simp]: "panics (Inl (Panic m))" "\<not> panics (Inr a)"
  by (simp_all add: panics_def)

definition returns :: "err + u64 \<Rightarrow> nat \<Rightarrow> bool" where
  "returns r n \<longleftrightarrow> (case r of Inl _ \<Rightarrow> False | Inr v \<Rightarrow> unat v = n)"

lemma returns_Inr [simp]: "returns (Inr v) n \<longleftrightarrow> unat v = n"
  by (simp add: returns_def)

lemma panics_rbind: "panics r \<Longrightarrow> panics (rbind r f)"
  by (cases r) (simp_all add: panics_def)

lemma returnsE:
  assumes "returns r n"
  obtains v where "r = Inr v" and "unat v = n"
  using assms by (cases r) (auto simp: returns_def)

text \<open>A computation of \<open>n\<close> that panics when \<open>n\<close> does not fit.\<close>

definition gives :: "err + u64 \<Rightarrow> nat \<Rightarrow> bool" where
  "gives r n \<longleftrightarrow> (if n < 2 ^ 64 then returns r n else panics r)"

lemma gives_word: "gives (Inr v) (unat v)"
  using unsigned_less [of v] by (simp add: gives_def)

lemma gives_checked_add: "gives (checked_add a b) (unat a + unat b)"
  by (auto simp: gives_def checked_add_def unat_word_ariths)

lemma gives_checked_mul: "gives (checked_mul a b) (unat a * unat b)"
  by (auto simp: gives_def checked_mul_def unat_word_ariths)

lemma gives_rbind:
  assumes "gives r n" and "\<And>v. unat v = n \<Longrightarrow> gives (f v) m" and "n \<le> m"
  shows "gives (rbind r f) m"
proof (cases "n < 2 ^ 64")
  case True
  with assms(1) obtain v where "r = Inr v" "unat v = n" by (auto simp: gives_def elim: returnsE)
  with assms(2) show ?thesis by simp
next
  case False
  with assms(1,3) show ?thesis by (simp add: gives_def panics_rbind)
qed

end
