(* ===== verification/Bits.thy ===== *)
theory Bits
  imports Base
begin

text \<open>
  Bit strings: the bits of a word, most significant first, and back. A bit stream is a
  \<open>bool list\<close>; the readers and writers of the later theories are related to it.
\<close>

definition bits_of :: "nat \<Rightarrow> 'a::len word \<Rightarrow> bool list" where
  "bits_of n w = map (bit w) (rev [0..<n])"

text \<open>The loop \<open>bits <<= 1; bits |= bit\<close>.\<close>

definition shift_in :: "'a::len word \<Rightarrow> bool \<Rightarrow> 'a word" where
  "shift_in w b = push_bit 1 w OR (if b then 1 else 0)"

definition of_bits :: "bool list \<Rightarrow> 'a::len word" where
  "of_bits bs = foldl shift_in 0 bs"

definition byte_bits :: "u8 list \<Rightarrow> bool list" where
  "byte_bits bs = concat (map (bits_of 8) bs)"

lemma length_bits_of [simp]: "length (bits_of n w) = n"
  by (simp add: bits_of_def)

lemma bits_of_eq_Nil [simp]: "bits_of n w = [] \<longleftrightarrow> n = 0" "[] = bits_of n w \<longleftrightarrow> n = 0"
  by (metis length_bits_of length_0_conv bits_of_def list.simps(8) upt_0 rev.simps(1))+

lemma bits_of_0 [simp]: "bits_of 0 w = []"
  by (simp add: bits_of_def)

lemma bits_of_Suc: "bits_of (Suc n) w = bit w n # bits_of n w"
  by (simp add: bits_of_def)

lemma nth_bits_of: "i < n \<Longrightarrow> bits_of n w ! i = bit w (n - 1 - i)"
  by (simp add: bits_of_def rev_nth)

lemma of_bits_Nil [simp]: "of_bits [] = 0"
  by (simp add: of_bits_def)

lemma of_bits_snoc: "of_bits (bs @ [b]) = shift_in (of_bits bs) b"
  by (simp add: of_bits_def)

lemma bit_shift_in:
  "bit (shift_in (w::'a::len word) b) i \<longleftrightarrow>
     i < LENGTH('a) \<and> (case i of 0 \<Rightarrow> b | Suc j \<Rightarrow> bit w j)"
proof (cases i)
  case 0
  then show ?thesis by (simp add: shift_in_def bit_0 even_or_iff)
next
  case (Suc j)
  then show ?thesis
    unfolding shift_in_def bit_or_iff bit_push_bit_iff by (auto simp: bit_1_iff)
qed

lemma bit_of_bits:
  "bit (of_bits bs :: 'a::len word) i \<longleftrightarrow>
     i < LENGTH('a) \<and> i < length bs \<and> bs ! (length bs - 1 - i)"
proof (induction bs arbitrary: i rule: rev_induct)
  case Nil
  then show ?case by simp
next
  case (snoc b bs)
  show ?case
    by (cases i) (auto simp: of_bits_snoc bit_shift_in snoc.IH nth_append Suc_diff_Suc
        less_imp_diff_less)
qed

lemma of_bits_bits_of [simp]:
  "(of_bits (bits_of n (w :: 'b::len word)) :: 'a::len word) = take_bit n (ucast w)"
  by (rule bit_word_eqI) (auto simp: bit_of_bits bit_take_bit_iff nth_bits_of bit_ucast_iff)

lemma bits_of_of_bits [simp]:
  "length bs = n \<Longrightarrow> n \<le> LENGTH('a::len) \<Longrightarrow> bits_of n (of_bits bs :: 'a word) = bs"
  by (rule nth_equalityI) (auto simp: nth_bits_of bit_of_bits)

lemma bits_of_ucast:
  "n \<le> LENGTH('a::len) \<Longrightarrow> n \<le> LENGTH('b::len) \<Longrightarrow>
     bits_of n (ucast (w :: 'b word) :: 'a word) = bits_of n w"
  by (rule nth_equalityI) (auto simp: nth_bits_of bit_ucast_iff)

lemma bits_of_ucast_up:
  "LENGTH('b::len) \<le> LENGTH('a::len) \<Longrightarrow> bits_of n (ucast (w :: 'b word) :: 'a word) = bits_of n w"
  by (rule nth_equalityI)
    (auto simp: nth_bits_of bit_ucast_iff dest: bit_imp_le_length)

lemma unat_less_up: "LENGTH('b::len) \<le> n \<Longrightarrow> unat (w :: 'b word) < 2 ^ n"
  by (rule less_le_trans [OF unsigned_less]) (simp add: power_increasing)

lemma unat_byte [simp]: "unat (w :: u8) < 256"
  using unsigned_less [of w] by simp

lemma unat_u64_less: "unat (w :: u64) < 18446744073709551616"
  using unsigned_less [of w] by simp

lemma uint_u64_less: "uint (w :: u64) < 18446744073709551616"
  using uint_lt2p [of w] by simp

lemma unat_ucast_up:
  "LENGTH('b::len) \<le> LENGTH('a::len) \<Longrightarrow> unat (ucast (w :: 'b word) :: 'a word) = unat w"
  by (simp add: unsigned_ucast_eq take_bit_nat_eq_self unat_less_up)

lemma of_bits_bound: "length bs \<le> n \<Longrightarrow> unat (of_bits bs :: 'a::len word) < 2 ^ n"
proof -
  assume "length bs \<le> n"
  then have "take_bit n (of_bits bs :: 'a word) = of_bits bs"
    by (intro bit_word_eqI) (auto simp: bit_take_bit_iff bit_of_bits)
  then have "unat (of_bits bs :: 'a word) = take_bit n (unat (of_bits bs :: 'a word))"
    by (metis unsigned_take_bit_eq)
  then show ?thesis
    by (metis take_bit_nat_less_exp)
qed

lemma take_bit_ucast_id:
  "unat (w :: 'b::len word) < 2 ^ n \<Longrightarrow> LENGTH('b) \<le> LENGTH('a::len) \<Longrightarrow>
     take_bit n (ucast w :: 'a word) = ucast w"
proof -
  assume "unat w < 2 ^ n"
  then have "take_bit n (unat w) = unat w" by (simp add: take_bit_nat_eq_self)
  then have "take_bit n (take_bit LENGTH('a) (unat w)) = take_bit LENGTH('a) (unat w)"
    by (metis min.commute take_bit_take_bit)
  then show ?thesis
    by (simp add: word_unat_eq_iff unsigned_take_bit_eq unsigned_ucast_eq)
qed

lemma of_bits_bits_of_small:
  "unat (w :: 'b::len word) < 2 ^ n \<Longrightarrow> LENGTH('b) \<le> LENGTH('a::len) \<Longrightarrow>
     (of_bits (bits_of n w) :: 'a word) = ucast w"
  by (simp add: take_bit_ucast_id)

lemma foldl_shift_in:
  "foldl shift_in (of_bits as) bs = of_bits (as @ bs)"
  by (simp add: of_bits_def)

subsection \<open>Bytes and bits\<close>

lemma byte_bits_Nil [simp]: "byte_bits [] = []"
  by (simp add: byte_bits_def)

lemma byte_bits_Cons [simp]: "byte_bits (b # bs) = bits_of 8 b @ byte_bits bs"
  by (simp add: byte_bits_def)

lemma byte_bits_append [simp]: "byte_bits (as @ bs) = byte_bits as @ byte_bits bs"
  by (simp add: byte_bits_def)

lemma length_byte_bits [simp]: "length (byte_bits bs) = 8 * length bs"
  by (induction bs) simp_all

lemma byte_bits_eq_Nil [simp]: "byte_bits bs = [] \<longleftrightarrow> bs = []"
  by (cases bs) simp_all

lemma Nil_eq_byte_bits [simp]: "[] = byte_bits bs \<longleftrightarrow> bs = []"
  by (cases bs) simp_all

text \<open>Bits packed into bytes; the last byte is filled up with zero bits.\<close>

fun pack_bits :: "bool list \<Rightarrow> u8 list" where
  "pack_bits [] = []"
| "pack_bits (b # bs) =
     of_bits (take 8 ((b # bs) @ replicate 7 False)) # pack_bits (drop 7 bs)"

definition pad_len :: "nat \<Rightarrow> nat" where
  "pad_len n = (if n mod 8 = 0 then 0 else 8 - n mod 8)"

lemma pack_bits_append8:
  assumes "length as = 8"
  shows "pack_bits (as @ bs) = of_bits as # pack_bits bs"
  using assms by (cases as) auto

lemma bits_of_8_of_bits [simp]: "length bs = 8 \<Longrightarrow> bits_of 8 (of_bits bs :: u8) = bs"
  by (rule bits_of_of_bits) simp_all

lemma of_bits_8_bits_of [simp]: "(of_bits (bits_of 8 (w :: u8)) :: u8) = w"
  by (simp del: of_bits_bits_of add: of_bits_bits_of take_bit_word_eq_self)

lemma pack_bits_byte_bits: "pack_bits (byte_bits bs @ cs) = bs @ pack_bits cs"
  by (induction bs) (simp_all add: pack_bits_append8 del: of_bits_bits_of)

lemma pack_bits_short:
  assumes "bs \<noteq> []" and "length bs \<le> 8"
  shows "pack_bits bs = [of_bits (bs @ replicate (8 - length bs) False)]"
proof -
  obtain b cs where bs: "bs = b # cs" using assms(1) by (cases bs) auto
  have "min (7 - length cs) 7 = 7 - length cs" by simp
  with assms(2) show ?thesis
    by (simp add: bs take_replicate)
qed

lemma byte_bits_pack: "byte_bits (pack_bits bs) = bs @ replicate (pad_len (length bs)) False"
proof (induction bs rule: length_induct)
  case (1 bs)
  consider "bs = []" | "bs \<noteq> []" "length bs < 8" | "8 \<le> length bs"
    by fastforce
  then show ?case
  proof cases
    case 1
    then show ?thesis by (simp add: pad_len_def)
  next
    case 2
    then show ?thesis
      by (simp add: pack_bits_short pad_len_def del: pack_bits.simps)
  next
    case 3
    then obtain as cs where bs: "bs = as @ cs" and as: "length as = 8"
      by (metis append_take_drop_id length_take min.absorb2)
    have "length cs < length bs" by (simp add: bs as)
    with 1 have "byte_bits (pack_bits cs) = cs @ replicate (pad_len (length cs)) False"
      by blast
    moreover have "pad_len (8 + length cs) = pad_len (length cs)"
      by (simp add: pad_len_def)
    ultimately show ?thesis
      by (simp add: bs as pack_bits_append8 del: pack_bits.simps)
  qed
qed

lemma length_pack_bits: "8 * length (pack_bits bs) = length bs + pad_len (length bs)"
  using arg_cong [OF byte_bits_pack, of length bs] by simp

lemma length_pack_bits_div: "length (pack_bits bs) = (length bs + 7) div 8"
  using length_pack_bits [of bs] by (auto simp: pad_len_def split: if_splits)

lemma byte_bits_prefix:
  "byte_bits us = byte_bits bs @ rest \<Longrightarrow> \<exists>vs. us = bs @ vs \<and> rest = byte_bits vs"
proof (induction bs arbitrary: us)
  case Nil
  then show ?case by simp
next
  case (Cons b bs)
  then obtain u us' where us: "us = u # us'" by (cases us) auto
  with Cons.prems have "bits_of 8 u @ byte_bits us' = bits_of 8 b @ (byte_bits bs @ rest)" by simp
  then have "bits_of 8 u = bits_of 8 b" and rest: "byte_bits us' = byte_bits bs @ rest"
    by simp_all
  then have "u = b" by (metis of_bits_8_bits_of)
  with Cons.IH [OF rest] us show ?case by auto
qed

lemma byte_bits_inject [simp]: "byte_bits as = byte_bits bs \<longleftrightarrow> as = bs"
  using byte_bits_prefix [of as bs "[]"] by auto

lemma byte_bits_pack_whole: "8 dvd length bs \<Longrightarrow> byte_bits (pack_bits bs) = bs"
  by (simp add: byte_bits_pack pad_len_def dvd_imp_mod_0)

lemma length_pack_whole: "length bs = 8 * n \<Longrightarrow> length (pack_bits bs) = n"
  using length_pack_bits [of bs] by (simp add: pad_len_def)

lemma drop_byte_bits:
  "i < length bs \<Longrightarrow> p \<le> 8 \<Longrightarrow>
     drop (8 * i + p) (byte_bits bs) = drop p (bits_of 8 (bs ! i)) @ byte_bits (drop (Suc i) bs)"
proof (induction bs arbitrary: i)
  case Nil
  then show ?case by simp
next
  case (Cons b bs)
  then show ?case by (cases i) simp_all
qed

lemma drop_byte_bits_whole: "drop (8 * i) (byte_bits bs) = byte_bits (drop i bs)"
proof (induction bs arbitrary: i)
  case Nil
  then show ?case by simp
next
  case (Cons b bs)
  then show ?case by (cases i) simp_all
qed

end
