(* ===== verification/Io.thy ===== *)
theory Io
  imports Bits
begin

text \<open>
  The parts of \<open>std::io\<close> the crates use: \<open>Read\<close>, \<open>Write\<close> and \<open>Seek\<close> as functions on
  the state of the reader or writer, \<open>Cursor\<close> over bytes and \<open>Vec<u8>\<close> as their
  concrete instances. Code that is generic over \<open>R: io::Read\<close> takes the function
  \<open>read\<close> of its reader as a parameter; the locale \<open>byte_source\<close> states what such a
  reader promises, \<open>byte_sink\<close> the same for a writer.
\<close>

subsection \<open>io::Read\<close>

text \<open>\<open>read rd n s\<close>: fill a buffer of \<open>n\<close> bytes; the result is the part that was filled.\<close>

type_synonym 's read_fn = "nat \<Rightarrow> ('s, u8 list) io"

definition eof_error :: err where
  "eof_error = IoErr UnexpectedEof ''failed to fill whole buffer''"

text \<open>The default method \<open>Read::read_exact\<close>: read until the buffer is full.\<close>

function read_exact :: "'s read_fn \<Rightarrow> nat \<Rightarrow> ('s, u8 list) io" where
  "read_exact rd n s =
     (if n = 0 then (Inr [], s)
      else case rd n s of
        (Inl e, s') \<Rightarrow> (Inl e, s')
      | (Inr bs, s') \<Rightarrow>
          (if bs = [] then (Inl eof_error, s')
           else if n < length bs then (Inl (Panic ''range start index out of range''), s')
           else (case read_exact rd (n - length bs) s' of
                   (Inl e, s'') \<Rightarrow> (Inl e, s'')
                 | (Inr cs, s'') \<Rightarrow> (Inr (bs @ cs), s''))))"
  by pat_completeness auto
termination
  by (relation "measure (\<lambda>(rd, n, s). n)") auto

declare read_exact.simps [simp del]

lemma read_exact_0 [simp]: "read_exact rd 0 s = (Inr [], s)"
  by (simp add: read_exact.simps)

lemma read_exact_InrE:
  assumes "read_exact rd n s = (Inr bs, s')" and "n \<noteq> 0"
  obtains as t cs where "rd n s = (Inr as, t)" "as \<noteq> []" "length as \<le> n"
    "read_exact rd (n - length as) t = (Inr cs, s')" "bs = as @ cs"
  using assms
  by (subst (asm) read_exact.simps) (auto split: prod.splits sum.splits if_splits)

lemma read_exact_length: "read_exact rd n s = (Inr bs, s') \<Longrightarrow> length bs = n"
proof (induction n arbitrary: s bs rule: less_induct)
  case (less n)
  show ?case
  proof (cases "n = 0")
    case True
    with less.prems show ?thesis by simp
  next
    case False
    from read_exact_InrE [OF less.prems this] obtain as t cs where as: "as \<noteq> []" "length as \<le> n"
      and cs: "read_exact rd (n - length as) t = (Inr cs, s')" and bs: "bs = as @ cs"
      by blast
    have "n - length as < n" using as False by (cases as) auto
    with cs have "length cs = n - length as" by (rule less.IH [rotated])
    with as bs show ?thesis by simp
  qed
qed

locale byte_source =
  fixes rd :: "nat \<Rightarrow> ('s, u8 list) io"
    and unread :: "'s \<Rightarrow> u8 list"
    and ok :: "'s \<Rightarrow> bool"
  assumes read_some: "ok s \<Longrightarrow> \<exists>k s'. rd n s = (Inr (take k (unread s)), s') \<and>
      k \<le> n \<and> k \<le> length (unread s) \<and> (0 < n \<and> unread s \<noteq> [] \<longrightarrow> 0 < k) \<and>
      unread s' = drop k (unread s) \<and> ok s'"
begin

lemma read_exact_ok:
  "ok s \<Longrightarrow> n \<le> length (unread s) \<Longrightarrow>
     \<exists>s'. read_exact rd n s = (Inr (take n (unread s)), s') \<and>
       unread s' = drop n (unread s) \<and> ok s'"
proof (induction n arbitrary: s rule: less_induct)
  case (less n)
  show ?case
  proof (cases "n = 0")
    case True
    with less.prems show ?thesis by simp
  next
    case False
    then obtain k t where rd: "rd n s = (Inr (take k (unread s)), t)" and k: "0 < k" "k \<le> n"
      and t: "unread t = drop k (unread s)" "ok t"
      using read_some [OF less.prems(1), of n] less.prems(2) by auto
    have "n - k < n" "n - k \<le> length (unread t)"
      using k less.prems(2) by (auto simp: t)
    from less.IH [OF this(1) t(2) this(2)] obtain u
      where u: "read_exact rd (n - k) t = (Inr (take (n - k) (unread t)), u)"
        "unread u = drop (n - k) (unread t)" "ok u"
      by blast
    have "take n (unread s) = take k (unread s) @ take (n - k) (drop k (unread s))"
      using k by (metis le_add_diff_inverse take_add)
    moreover have "length (take k (unread s)) = k" "take k (unread s) \<noteq> []"
      using k less.prems(2) False by auto
    ultimately show ?thesis
      using k u False by (simp add: read_exact.simps [of rd n s] rd t)
  qed
qed

lemma read_exact_eof:
  "ok s \<Longrightarrow> length (unread s) < n \<Longrightarrow>
     \<exists>s'. read_exact rd n s = (Inl eof_error, s') \<and> unread s' = [] \<and> ok s'"
proof (induction n arbitrary: s rule: less_induct)
  case (less n)
  obtain k t where rd: "rd n s = (Inr (take k (unread s)), t)"
    and k: "unread s \<noteq> [] \<longrightarrow> 0 < k" "k \<le> n" "k \<le> length (unread s)"
    and t: "unread t = drop k (unread s)" "ok t"
    using read_some [OF less.prems(1), of n] less.prems(2) by auto
  show ?case
  proof (cases "unread s = []")
    case True
    with less.prems rd t show ?thesis by (simp add: read_exact.simps [of rd n s])
  next
    case False
    then have pos: "0 < k" "take k (unread s) \<noteq> []" "length (take k (unread s)) = k"
      using k by auto
    have "n - k < n" "length (unread t) < n - k"
      using pos k less.prems(2) by (auto simp: t)
    from less.IH [OF this(1) t(2) this(2)] obtain u
      where "read_exact rd (n - k) t = (Inl eof_error, u)" "unread u = []" "ok u"
      by blast
    with pos k show ?thesis
      by (auto simp: read_exact.simps [of rd n s] rd)
  qed
qed

lemma read_exact_cases:
  assumes "ok s"
  obtains s' where "n \<le> length (unread s)" "read_exact rd n s = (Inr (take n (unread s)), s')"
      "unread s' = drop n (unread s)" "ok s'"
  | s' where "length (unread s) < n" "read_exact rd n s = (Inl eof_error, s')"
      "unread s' = []" "ok s'"
  using read_exact_ok [OF assms, of n] read_exact_eof [OF assms, of n]
  by (cases "n \<le> length (unread s)") (blast, fastforce)

end

subsection \<open>io::Cursor\<close>

record cursor =
  cur_data :: "u8 list"
  cur_pos :: nat

definition cursor_new :: "u8 list \<Rightarrow> cursor" where
  "cursor_new bs = \<lparr>cur_data = bs, cur_pos = 0\<rparr>"

definition cursor_rest :: "cursor \<Rightarrow> u8 list" where
  "cursor_rest c = drop (cur_pos c) (cur_data c)"

definition cursor_read :: "nat \<Rightarrow> (cursor, u8 list) io" where
  "cursor_read n c =
     (let bs = take n (drop (cur_pos c) (cur_data c))
      in (Inr bs, c\<lparr>cur_pos := cur_pos c + length bs\<rparr>))"

text \<open>\<open>Seek::seek\<close> on a cursor: a position before the start is an error.\<close>

datatype seek_from = SeekStart nat | SeekEnd int | SeekCurrent int

fun cursor_seek :: "seek_from \<Rightarrow> (cursor, nat) io" where
  "cursor_seek (SeekStart n) c = (Inr n, c\<lparr>cur_pos := n\<rparr>)"
| "cursor_seek (SeekEnd i) c =
     (let p = int (length (cur_data c)) + i in
      if 0 \<le> p \<and> p < 2 ^ 64 then (Inr (nat p), c\<lparr>cur_pos := nat p\<rparr>)
      else (Inl (IoErr OtherKind ''invalid seek''), c))"
| "cursor_seek (SeekCurrent i) c =
     (let p = int (cur_pos c) + i in
      if 0 \<le> p \<and> p < 2 ^ 64 then (Inr (nat p), c\<lparr>cur_pos := nat p\<rparr>)
      else (Inl (IoErr OtherKind ''invalid seek''), c))"

lemma cursor_rest_new [simp]: "cursor_rest (cursor_new bs) = bs"
  by (simp add: cursor_rest_def cursor_new_def)

interpretation cur: byte_source cursor_read cursor_rest "\<lambda>_. True"
proof
  fix s n
  show "\<exists>k s'. cursor_read n s = (Inr (take k (cursor_rest s)), s') \<and> k \<le> n \<and>
      k \<le> length (cursor_rest s) \<and> (0 < n \<and> cursor_rest s \<noteq> [] \<longrightarrow> 0 < k) \<and>
      cursor_rest s' = drop k (cursor_rest s) \<and> True"
    by (rule exI [of _ "min n (length (cursor_rest s))"])
      (auto simp: cursor_read_def cursor_rest_def Let_def min_def add.commute)
qed

subsection \<open>io::Write\<close>

text \<open>\<open>write bs w\<close>: how many bytes of the buffer were written.\<close>

type_synonym 's write_fn = "u8 list \<Rightarrow> ('s, nat) io"

text \<open>The default method \<open>Write::write_all\<close>.\<close>

function write_all :: "'s write_fn \<Rightarrow> u8 list \<Rightarrow> ('s, unit) io" where
  "write_all wr bs s =
     (if bs = [] then (Inr (), s)
      else case wr bs s of
        (Inl e, s') \<Rightarrow> (Inl e, s')
      | (Inr n, s') \<Rightarrow>
          (if n = 0 then (Inl (IoErr WriteZero ''failed to write whole buffer''), s')
           else if length bs < n then (Inl (Panic ''range start index out of range''), s')
           else write_all wr (drop n bs) s'))"
  by pat_completeness auto
termination
  by (relation "measure (\<lambda>(wr, bs, s). length bs)") auto

declare write_all.simps [simp del]

definition vec_write :: "u8 list \<Rightarrow> (u8 list, nat) io" where
  "vec_write bs v = (Inr (length bs), v @ bs)"

text \<open>A writer that takes whole buffers: writing acts on its state as appending does.\<close>

locale byte_sink =
  fixes wr :: "u8 list \<Rightarrow> ('w, nat) io"
    and app :: "'w \<Rightarrow> u8 list \<Rightarrow> 'w"
    and ok :: "'w \<Rightarrow> bool"
  assumes write_ok: "ok w \<Longrightarrow> wr bs w = (Inr (length bs), app w bs)"
    and app_Nil: "ok w \<Longrightarrow> app w [] = w"
    and app_app: "ok w \<Longrightarrow> app (app w as) bs = app w (as @ bs)"
    and ok_app: "ok w \<Longrightarrow> ok (app w bs)"
begin

lemma write_all_ok: "ok w \<Longrightarrow> write_all wr bs w = (Inr (), app w bs)"
  by (simp add: write_all.simps [of wr bs w] write_ok app_Nil write_all.simps [of wr "[]"])

end

interpretation vec: byte_sink vec_write "(@)" "\<lambda>_. True"
  by unfold_locales (simp_all add: vec_write_def)

subsection \<open>Third-party byte order extensions\<close>

text \<open>
  The crate \<open>byteorder\<close> extends every \<open>io::Read\<close> with reads of integers, and every
  \<open>io::Write\<close> with writes of them. It is not part of the repository: its methods are
  parameters of the code that calls them. \<open>byteorder_reads\<close> is their documented
  behaviour, a \<open>read_exact\<close> of the integer's bytes read as a big-endian or little-endian
  number; \<open>byteorder_writes\<close> the same for a \<open>write_all\<close> of the bytes. What \<open>write_u24\<close>
  and \<open>write_u48\<close> do with a number of more bits than they write is left open.
\<close>

record 's byteorder =
  bo_u8 :: "('s, u8) io"
  bo_u16 :: "('s, u16) io"
  bo_u24 :: "('s, u32) io"
  bo_u32 :: "('s, u32) io"
  bo_u32_le :: "('s, u32) io"
  bo_u48 :: "('s, u64) io"
  bo_u64 :: "('s, u64) io"

definition be_read :: "'s read_fn \<Rightarrow> nat \<Rightarrow> ('s, 'n::len word) io" where
  "be_read rd n = bnd (read_exact rd n) (\<lambda>bs. ret (of_bits (byte_bits bs)))"

definition le_read :: "'s read_fn \<Rightarrow> nat \<Rightarrow> ('s, 'n::len word) io" where
  "le_read rd n = bnd (read_exact rd n) (\<lambda>bs. ret (of_bits (byte_bits (rev bs))))"

definition byteorder_reads :: "'s read_fn \<Rightarrow> 's byteorder \<Rightarrow> bool" where
  "byteorder_reads rd bo \<longleftrightarrow> bo_u8 bo = be_read rd 1 \<and> bo_u16 bo = be_read rd 2 \<and>
     bo_u24 bo = be_read rd 3 \<and> bo_u32 bo = be_read rd 4 \<and> bo_u32_le bo = le_read rd 4 \<and>
     bo_u48 bo = be_read rd 6 \<and> bo_u64 bo = be_read rd 8"

record 'w byteorder_w =
  bw_u8 :: "u8 \<Rightarrow> ('w, unit) io"
  bw_u16 :: "u16 \<Rightarrow> ('w, unit) io"
  bw_u24 :: "u32 \<Rightarrow> ('w, unit) io"
  bw_u32 :: "u32 \<Rightarrow> ('w, unit) io"
  bw_u32_le :: "u32 \<Rightarrow> ('w, unit) io"
  bw_u48 :: "u64 \<Rightarrow> ('w, unit) io"
  bw_u64 :: "u64 \<Rightarrow> ('w, unit) io"

definition be_bytes :: "nat \<Rightarrow> 'n::len word \<Rightarrow> u8 list" where
  "be_bytes n w = pack_bits (bits_of (8 * n) w)"

lemma length_be_bytes [simp]: "length (be_bytes n w) = n"
  by (simp add: be_bytes_def length_pack_whole)

definition byteorder_writes :: "'w write_fn \<Rightarrow> 'w byteorder_w \<Rightarrow> bool" where
  "byteorder_writes wr bw \<longleftrightarrow> bw_u8 bw = (\<lambda>w. write_all wr [w]) \<and>
     bw_u16 bw = (\<lambda>w. write_all wr (be_bytes 2 w)) \<and>
     (\<forall>w. unat w < 2 ^ 24 \<longrightarrow> bw_u24 bw w = write_all wr (be_bytes 3 w)) \<and>
     bw_u32 bw = (\<lambda>w. write_all wr (be_bytes 4 w)) \<and>
     bw_u32_le bw = (\<lambda>w. write_all wr (rev (be_bytes 4 w))) \<and>
     (\<forall>w. unat w < 2 ^ 48 \<longrightarrow> bw_u48 bw w = write_all wr (be_bytes 6 w)) \<and>
     bw_u64 bw = (\<lambda>w. write_all wr (be_bytes 8 w))"

text \<open>Instances, for concrete runs.\<close>

definition be_reads :: "'s read_fn \<Rightarrow> 's byteorder" where
  "be_reads rd = \<lparr>bo_u8 = be_read rd 1, bo_u16 = be_read rd 2, bo_u24 = be_read rd 3,
     bo_u32 = be_read rd 4, bo_u32_le = le_read rd 4, bo_u48 = be_read rd 6,
     bo_u64 = be_read rd 8\<rparr>"

definition be_writes :: "'w write_fn \<Rightarrow> 'w byteorder_w" where
  "be_writes wr = \<lparr>bw_u8 = (\<lambda>w. write_all wr [w]), bw_u16 = (\<lambda>w. write_all wr (be_bytes 2 w)),
     bw_u24 = (\<lambda>w. write_all wr (be_bytes 3 w)), bw_u32 = (\<lambda>w. write_all wr (be_bytes 4 w)),
     bw_u32_le = (\<lambda>w. write_all wr (rev (be_bytes 4 w))),
     bw_u48 = (\<lambda>w. write_all wr (be_bytes 6 w)), bw_u64 = (\<lambda>w. write_all wr (be_bytes 8 w))\<rparr>"

lemma byteorder_reads_be_reads [simp]: "byteorder_reads rd (be_reads rd)"
  by (simp add: byteorder_reads_def be_reads_def)

lemma byteorder_writes_be_writes: "byteorder_writes wr (be_writes wr)"
  by (simp add: byteorder_writes_def be_writes_def)

subsection \<open>Writers of whole bytes\<close>

text \<open>\<open>puts\<close> says that an operation appends exactly these bytes.\<close>

definition puts :: "('w \<Rightarrow> u8 list \<Rightarrow> 'w) \<Rightarrow> ('w \<Rightarrow> bool) \<Rightarrow> ('w, unit) io \<Rightarrow> u8 list \<Rightarrow> bool" where
  "puts app ok m bs \<longleftrightarrow> (\<forall>w. ok w \<longrightarrow> m w = (Inr (), app w bs))"

context byte_sink
begin

lemma puts_write_all: "puts app ok (write_all wr bs) bs"
  by (simp add: puts_def write_all_ok)

lemma puts_ret: "puts app ok (ret ()) []"
  by (simp add: puts_def run_simps app_Nil)

lemma puts_bnd: "puts app ok m as \<Longrightarrow> puts app ok (f ()) bs \<Longrightarrow> puts app ok (bnd m f) (as @ bs)"
  by (simp add: puts_def app_app ok_app)

lemma puts_bnd_Cons: "puts app ok m [a] \<Longrightarrow> puts app ok (f ()) bs \<Longrightarrow> puts app ok (bnd m f) (a # bs)"
  using puts_bnd [of m "[a]"] by simp

lemma puts_bo:
  assumes "byteorder_writes wr bw"
  shows "puts app ok (bw_u8 bw b) [b]"
    and "puts app ok (bw_u16 bw v) (be_bytes 2 v)"
    and "unat u < 2 ^ 24 \<Longrightarrow> puts app ok (bw_u24 bw u) (be_bytes 3 u)"
    and "puts app ok (bw_u32 bw w) (be_bytes 4 w)"
    and "puts app ok (bw_u32_le bw w) (rev (be_bytes 4 w))"
    and "puts app ok (bw_u64 bw x) (be_bytes 8 x)"
    and "unat y < 2 ^ 48 \<Longrightarrow> puts app ok (bw_u48 bw y) (be_bytes 6 y)"
  using assms by (simp_all add: byteorder_writes_def puts_write_all)

end

end
