(* ===== verification/Bit_Reader.thy ===== *)
theory Bit_Reader
  imports Io
begin

text \<open>
  \<open>BitReader<T>\<close> of \<open>scuffle-bytes-util\<close> (\<open>crates/bytes-util/src/bit_read.rs\<close>): a reader
  of single bits over any \<open>io::Read\<close>, itself an \<open>io::Read\<close> and an \<open>io::Seek\<close>.
  \<open>rest_bits\<close> relates its state to the bits it has still to deliver; \<open>decodes\<close> is the
  calculus in which the parsers of the codec crates are proved against bit strings.
\<close>

subsection \<open>The reader\<close>

record 's bit_reader =
  data :: 's
  bit_pos :: nat
  current_byte :: u8

definition bit_reader_new :: "'s \<Rightarrow> 's bit_reader" where
  "bit_reader_new s = \<lparr>data = s, bit_pos = 0, current_byte = 0\<rparr>"

definition bit_reader_new_from_slice :: "u8 list \<Rightarrow> cursor bit_reader" where
  "bit_reader_new_from_slice bs = bit_reader_new (cursor_new bs)"

definition is_aligned :: "'s bit_reader \<Rightarrow> bool" where
  "is_aligned r \<longleftrightarrow> bit_pos r = 0"

text \<open>Run an operation of the inner reader.\<close>

definition inner :: "('s, 'a) io \<Rightarrow> ('s bit_reader, 'a) io" where
  "inner m r = (case m (data r) of (x, d) \<Rightarrow> (x, r\<lparr>data := d\<rparr>))"

definition update_byte :: "'s read_fn \<Rightarrow> ('s bit_reader, unit) io" where
  "update_byte rd =
     bnd (inner (read_exact rd 1)) (\<lambda>buf r. (Inr (), r\<lparr>current_byte := hd buf\<rparr>))"

definition read_bit :: "'s read_fn \<Rightarrow> ('s bit_reader, bool) io" where
  "read_bit rd r =
     bnd (if is_aligned r then update_byte rd else ret ())
       (\<lambda>_ r. let bit = drop_bit (7 - bit_pos r) (current_byte r) AND 1
         in (Inr (bit = 1), r\<lparr>bit_pos := (bit_pos r + 1) mod 8\<rparr>)) r"

text \<open>The loop \<open>for _ in 0..n \<open>bits <<= 1; bits |= bit\<close>\<close> of both reads below.\<close>

fun shift_in_loop :: "'s read_fn \<Rightarrow> nat \<Rightarrow> 'n::len word \<Rightarrow> ('s bit_reader, 'n word) io" where
  "shift_in_loop rd 0 bits = ret bits"
| "shift_in_loop rd (Suc n) bits =
     bnd (read_bit rd) (\<lambda>bit. shift_in_loop rd n (shift_in bits bit))"

definition read_bits :: "'s read_fn \<Rightarrow> nat \<Rightarrow> ('s bit_reader, u64) io" where
  "read_bits rd count = shift_in_loop rd (min count 64) 0"

definition align_reader :: "('s bit_reader, unit) io" where
  "align_reader r = (Inr (), r\<lparr>bit_pos := 0\<rparr>)"

text \<open>\<open>io::Read for BitReader\<close>\<close>

definition bit_reader_read :: "'s read_fn \<Rightarrow> 's bit_reader read_fn" where
  "bit_reader_read rd n r =
     (if is_aligned r then inner (rd n) r
      else times_io n (shift_in_loop rd 8 0) r)"

subsection \<open>Seeking\<close>

text \<open>
  \<open>sk\<close> is \<open>Seek::seek\<close> of the inner reader; \<open>stream_position\<close> is its default, a
  seek by 0. Rust's \<open>/\<close> and \<open>%\<close> on \<open>i64\<close> truncate towards zero.
\<close>

type_synonym 's seek_fn = "seek_from \<Rightarrow> ('s, nat) io"

definition trunc_div :: "int \<Rightarrow> int \<Rightarrow> int" where
  "trunc_div a b = (if a < 0 then - ((- a) div b) else a div b)"

definition trunc_mod :: "int \<Rightarrow> int \<Rightarrow> int" where
  "trunc_mod a b = (if a < 0 then - ((- a) mod b) else a mod b)"

definition checked_u64_nat :: "nat \<Rightarrow> err + nat" where
  "checked_u64_nat n = (if n < 2 ^ 64 then Inr n else Inl (Panic ''u64 overflow''))"

definition bit_stream_position :: "'s seek_fn \<Rightarrow> ('s bit_reader, nat) io" where
  "bit_stream_position sk =
     bnd (inner (sk (SeekCurrent 0))) (\<lambda>pos r.
     bnd (lift_res (checked_u64_nat (pos * 8 + (if is_aligned r then 8 else bit_pos r))))
       (\<lambda>p. if p < 8 then fail (Panic ''sub overflow'') else ret (p - 8)) r)"

definition seek_bits :: "'s read_fn \<Rightarrow> 's seek_fn \<Rightarrow> int \<Rightarrow> ('s bit_reader, nat) io" where
  "seek_bits rd sk count r =
     (if count = 0 then bit_stream_position sk r
      else bnd (lift_res (checked_i64 (int (bit_pos r) + count))) (\<lambda>count.
        let bit_move = trunc_mod count 8;
            byte_move = trunc_div count 8
                      - (if is_aligned r then 0 else 1) - (if bit_move < 0 then 1 else 0)
        in bnd (inner (sk (SeekCurrent byte_move))) (\<lambda>p.
           bnd (lift_res (checked_u64_nat (p * 8))) (\<lambda>pos r.
           let r = r\<lparr>bit_pos := nat (trunc_mod (8 + bit_move) 8)\<rparr>
           in if is_aligned r then (Inr pos, r)
              else bnd (update_byte rd) (\<lambda>_. lift_res (checked_u64_nat (pos + bit_pos r))) r))) r)"

text \<open>\<open>io::Seek for BitReader\<close>: a relative seek off a byte boundary counts bits.\<close>

definition bit_reader_seek :: "'s read_fn \<Rightarrow> 's seek_fn \<Rightarrow> 's bit_reader seek_fn" where
  "bit_reader_seek rd sk pos r =
     (case (pos, is_aligned r) of
        (SeekCurrent offset, False) \<Rightarrow>
          bnd (lift_res (checked_i64 (offset * 8))) (\<lambda>o8.
          bnd (seek_bits rd sk o8) (\<lambda>p. ret (div_ceil p 8))) r
      | _ \<Rightarrow> inner (sk pos) (r\<lparr>bit_pos := 0\<rparr>))"

subsection \<open>The bits still to come\<close>

definition rest_bits :: "('s \<Rightarrow> u8 list) \<Rightarrow> 's bit_reader \<Rightarrow> bool list" where
  "rest_bits unread r =
     (if bit_pos r = 0 then [] else drop (bit_pos r) (bits_of 8 (current_byte r)))
     @ byte_bits (unread (data r))"

definition reader_ok :: "('s \<Rightarrow> bool) \<Rightarrow> 's bit_reader \<Rightarrow> bool" where
  "reader_ok ok r \<longleftrightarrow> ok (data r) \<and> bit_pos r < 8"

lemma rest_bits_new [simp]: "rest_bits unread (bit_reader_new s) = byte_bits (unread s)"
  by (simp add: rest_bits_def bit_reader_new_def)

lemma reader_ok_new [simp]: "reader_ok ok (bit_reader_new s) = ok s"
  by (simp add: reader_ok_def bit_reader_new_def)

text \<open>
  \<open>decodes bits ok m bs x\<close>: on every good state whose next bits are \<open>bs\<close>, the
  operation \<open>m\<close> returns \<open>x\<close> and consumes exactly \<open>bs\<close>.
\<close>

definition decodes :: "('s \<Rightarrow> bool list) \<Rightarrow> ('s \<Rightarrow> bool) \<Rightarrow> ('s, 'e, 'a) act \<Rightarrow> bool list \<Rightarrow> 'a \<Rightarrow> bool"
  where "decodes bits ok m bs x \<longleftrightarrow> (\<forall>s rest. ok s \<longrightarrow> bits s = bs @ rest \<longrightarrow>
     (\<exists>s'. m s = (Inr x, s') \<and> bits s' = rest \<and> ok s'))"

lemma decodesI:
  "(\<And>s rest. ok s \<Longrightarrow> bits s = bs @ rest \<Longrightarrow>
     \<exists>s'. m s = (Inr x, s') \<and> bits s' = rest \<and> ok s') \<Longrightarrow> decodes bits ok m bs x"
  by (simp add: decodes_def)

lemma decodesE:
  assumes "decodes bits ok m bs x" and "ok s" and "bits s = bs @ rest"
  obtains s' where "m s = (Inr x, s')" "bits s' = rest" "ok s'"
  using assms by (auto simp: decodes_def)

lemma decodes_ret: "decodes bits ok (ret x) [] x"
  by (simp add: decodes_def run_simps)

lemma decodes_bnd:
  assumes "decodes bits ok m as x" and "decodes bits ok (f x) bs y"
  shows "decodes bits ok (bnd m f) (as @ bs) y"
proof (rule decodesI)
  fix s rest
  assume "ok s" and "bits s = (as @ bs) @ rest"
  then have "bits s = as @ (bs @ rest)" by simp
  from decodesE [OF assms(1) \<open>ok s\<close> this] obtain t
    where t: "m s = (Inr x, t)" "bits t = bs @ rest" "ok t" .
  from decodesE [OF assms(2) t(3,2)] obtain u
    where "f x t = (Inr y, u)" "bits u = rest" "ok u" .
  with t show "\<exists>s'. bnd m f s = (Inr y, s') \<and> bits s' = rest \<and> ok s'"
    by simp
qed

lemma decodes_bnd_Nil:
  "decodes bits ok m [] x \<Longrightarrow> decodes bits ok (f x) bs y \<Longrightarrow> decodes bits ok (bnd m f) bs y"
  using decodes_bnd [of bits ok m "[]"] by simp

lemma decodes_last:
  "decodes bits ok m as x \<Longrightarrow> decodes bits ok (f x) [] y \<Longrightarrow> decodes bits ok (bnd m f) as y"
  using decodes_bnd [of bits ok m as x f "[]"] by simp

lemma decodes_times:
  assumes "\<And>x. x \<in> set xs \<Longrightarrow> decodes bits ok m (enc x) x"
  shows "decodes bits ok (times_io (length xs) m) (concat (map enc xs)) xs"
  using assms
proof (induction xs)
  case Nil
  show ?case by (simp add: decodes_ret)
next
  case (Cons x xs)
  then have x: "decodes bits ok m (enc x) x"
    and xs: "decodes bits ok (times_io (length xs) m) (concat (map enc xs)) xs" by auto
  show ?case
    using decodes_bnd [OF x decodes_last [OF xs decodes_ret]] by simp
qed

text \<open>A bound on what an operation can return, whatever it reads.\<close>

definition yields :: "('s, 'a) io \<Rightarrow> ('a \<Rightarrow> bool) \<Rightarrow> bool" where
  "yields m P \<longleftrightarrow> (\<forall>s x s'. m s = (Inr x, s') \<longrightarrow> P x)"

lemma yieldsD: "yields m P \<Longrightarrow> m s = (Inr x, s') \<Longrightarrow> P x"
  by (auto simp: yields_def)

lemma yields_bnd:
  "yields m P \<Longrightarrow> (\<And>x. P x \<Longrightarrow> yields (f x) Q) \<Longrightarrow> yields (bnd m f) Q"
  by (fastforce simp: yields_def elim: bnd_InrE)

lemma yields_any: "yields m (\<lambda>_. True)"
  by (simp add: yields_def)

lemma yields_ret: "P x \<Longrightarrow> yields (ret x) P"
  by (simp add: yields_def run_simps)

lemma yields_mono: "yields m P \<Longrightarrow> (\<And>x. P x \<Longrightarrow> Q x) \<Longrightarrow> yields m Q"
  by (auto simp: yields_def)

lemma yields_times: "yields m P \<Longrightarrow> yields (times_io n m) (\<lambda>xs. length xs = n \<and> list_all P xs)"
proof (induction n)
  case 0
  show ?case by (simp add: yields_ret)
next
  case (Suc n)
  show ?case
    unfolding times_io.simps
    by (rule yields_bnd [OF Suc.prems], rule yields_bnd [OF Suc.IH [OF Suc.prems]])
      (auto intro: yields_ret)
qed

subsection \<open>Reading from a byte source\<close>

lemma drop_bits_of_8:
  "p < 8 \<Longrightarrow> drop p (bits_of 8 (w :: u8)) = bit w (7 - p) # drop (Suc p) (bits_of 8 w)"
  by (subst Cons_nth_drop_Suc [symmetric]) (simp_all add: nth_bits_of)

lemma and_1_eq_1: "(drop_bit n w AND 1 = (1 :: u8)) \<longleftrightarrow> bit w n"
  by (simp add: and_one_eq bit_iff_odd_drop_bit odd_iff_mod_2_eq_one)

context byte_source
begin

lemma update_byte_ok:
  assumes "reader_ok ok r" and "unread (data r) = b # bs"
  shows "\<exists>d. update_byte rd r = (Inr (), r\<lparr>data := d, current_byte := b\<rparr>) \<and> unread d = bs \<and> ok d"
proof -
  from assms have "ok (data r)" and "1 \<le> length (unread (data r))"
    by (simp_all add: reader_ok_def)
  from read_exact_ok [OF this] assms(2) show ?thesis
    by (auto simp: update_byte_def inner_def bnd_def)
qed

lemma update_byte_eof:
  assumes "reader_ok ok r" and "unread (data r) = []"
  shows "\<exists>d. update_byte rd r = (Inl eof_error, r\<lparr>data := d\<rparr>) \<and> unread d = [] \<and> ok d"
  using read_exact_eof [of "data r" 1] assms
  by (auto simp: update_byte_def inner_def bnd_def reader_ok_def)

lemma read_bit_Cons:
  assumes r: "reader_ok ok r" and bits: "rest_bits unread r = b # bs"
  shows "\<exists>r'. read_bit rd r = (Inr b, r') \<and> rest_bits unread r' = bs \<and> reader_ok ok r'"
proof (cases "bit_pos r = 0")
  case True
  with bits have "byte_bits (unread (data r)) = b # bs" by (simp add: rest_bits_def)
  then obtain c cs where cs: "unread (data r) = c # cs"
    by (cases "unread (data r)") auto
  then have "bits_of 8 c @ byte_bits cs = b # bs" using \<open>byte_bits _ = _\<close> by simp
  moreover have "bits_of 8 c = bit c 7 # drop 1 (bits_of 8 c)"
    using drop_bits_of_8 [of 0 c] by simp
  ultimately have b: "b = bit c 7" and bs: "bs = drop 1 (bits_of 8 c) @ byte_bits cs"
    by (metis append_Cons list.inject)+
  from update_byte_ok [OF r cs] obtain d
    where "update_byte rd r = (Inr (), r\<lparr>data := d, current_byte := c\<rparr>)" "unread d = cs" "ok d"
    by blast
  then show ?thesis
    by (simp add: read_bit_def is_aligned_def True b bs rest_bits_def reader_ok_def and_1_eq_1)
next
  case False
  have p: "bit_pos r < 8" and ok: "ok (data r)" using r by (simp_all add: reader_ok_def)
  from bits False have b: "b = bit (current_byte r) (7 - bit_pos r)"
    and bs: "bs = drop (Suc (bit_pos r)) (bits_of 8 (current_byte r)) @ byte_bits (unread (data r))"
    by (auto simp: rest_bits_def drop_bits_of_8 [OF p])
  show ?thesis
  proof (cases "bit_pos r = 7")
    case True
    then show ?thesis
      by (simp add: read_bit_def is_aligned_def b bs rest_bits_def reader_ok_def and_1_eq_1 ok)
  next
    case False
    with p \<open>bit_pos r \<noteq> 0\<close> show ?thesis
      by (simp add: read_bit_def is_aligned_def b bs rest_bits_def reader_ok_def and_1_eq_1 ok)
  qed
qed

lemma read_bit_Nil:
  assumes r: "reader_ok ok r" and bits: "rest_bits unread r = []"
  shows "\<exists>r'. read_bit rd r = (Inl eof_error, r') \<and> rest_bits unread r' = [] \<and> reader_ok ok r'"
proof -
  have p: "bit_pos r < 8" using r by (simp add: reader_ok_def)
  from bits have u: "unread (data r) = []" and a: "bit_pos r = 0"
    using p by (auto simp: rest_bits_def split: if_splits)
  from update_byte_eof [OF r u] show ?thesis
    by (auto simp: read_bit_def is_aligned_def a rest_bits_def reader_ok_def)
qed

abbreviation dec :: "('s bit_reader, 'a) io \<Rightarrow> bool list \<Rightarrow> 'a \<Rightarrow> bool" where
  "dec \<equiv> decodes (rest_bits unread) (reader_ok ok)"

lemma dec_read_bit: "dec (read_bit rd) [b] b"
  using read_bit_Cons by (auto intro!: decodesI)

lemma dec_shift_in_loop:
  "dec (shift_in_loop rd (length bs) (of_bits as :: 'n::len word)) bs (of_bits (as @ bs))"
proof (induction bs arbitrary: as)
  case Nil
  show ?case by (simp add: decodes_ret)
next
  case (Cons b bs)
  have "dec (shift_in_loop rd (length bs) (shift_in (of_bits as :: 'n::len word) b)) bs
      (of_bits ((as @ [b]) @ bs))"
    using Cons.IH [of "as @ [b]"] by (simp add: of_bits_snoc)
  with decodes_bnd [OF dec_read_bit,
      of "\<lambda>b. shift_in_loop rd (length bs) (shift_in (of_bits as :: 'n word) b)"]
  show ?case by fastforce
qed

lemma dec_read_bits: "length bs = n \<Longrightarrow> n \<le> 64 \<Longrightarrow> dec (read_bits rd n) bs (of_bits bs)"
  using dec_shift_in_loop [of bs "[]"] by (simp add: read_bits_def)

lemma shift_in_loop_eof:
  "reader_ok ok r \<Longrightarrow> length (rest_bits unread r) < n \<Longrightarrow>
     \<exists>r'. shift_in_loop rd n w r = (Inl eof_error, r') \<and> reader_ok ok r'"
proof (induction n arbitrary: w r)
  case 0
  then show ?case by simp
next
  case (Suc n)
  show ?case
  proof (cases "rest_bits unread r")
    case Nil
    with read_bit_Nil [OF Suc.prems(1)] show ?thesis by auto
  next
    case (Cons b bs)
    from read_bit_Cons [OF Suc.prems(1) this] obtain t
      where t: "read_bit rd r = (Inr b, t)" "rest_bits unread t = bs" "reader_ok ok t" by blast
    have "length (rest_bits unread t) < n" using Suc.prems(2) by (simp add: t Cons)
    from Suc.IH [OF t(3) this] t(1) show ?thesis by simp
  qed
qed

text \<open>Reading bytes through a bit reader delivers the next eight bits of the stream each.\<close>

lemma dec_read_byte: "dec (shift_in_loop rd 8 0) (bits_of 8 b) (b :: u8)"
proof -
  have "dec (shift_in_loop rd (length (bits_of 8 b)) (of_bits [] :: u8)) (bits_of 8 b)
      (of_bits ([] @ bits_of 8 b))"
    by (rule dec_shift_in_loop)
  then show ?thesis by (simp del: of_bits_bits_of)
qed

text \<open>On a byte boundary the bit reader reads its inner reader directly.\<close>

lemma aligned_source:
  "byte_source (bit_reader_read rd) (\<lambda>r. unread (data r)) (\<lambda>r. ok (data r) \<and> bit_pos r = 0)"
proof
  fix r :: "'s bit_reader" and n
  assume r: "ok (data r) \<and> bit_pos r = 0"
  with read_some [of "data r" n] obtain k d where "rd n (data r) = (Inr (take k (unread (data r))), d)"
    and "k \<le> n" "k \<le> length (unread (data r))"
    and "0 < n \<and> unread (data r) \<noteq> [] \<longrightarrow> 0 < k" "unread d = drop k (unread (data r))" "ok d"
    by blast
  with r show "\<exists>k r'. bit_reader_read rd n r = (Inr (take k (unread (data r))), r') \<and> k \<le> n \<and>
      k \<le> length (unread (data r)) \<and> (0 < n \<and> unread (data r) \<noteq> [] \<longrightarrow> 0 < k) \<and>
      unread (data r') = drop k (unread (data r)) \<and> ok (data r') \<and> bit_pos r' = 0"
    by (intro exI [of _ k] exI [of _ "r\<lparr>data := d\<rparr>"])
      (simp add: bit_reader_read_def is_aligned_def inner_def)
qed

lemma unaligned_read_exact:
  assumes "bit_pos r \<noteq> 0" and "times_io n (shift_in_loop rd 8 0) r = (Inr bs, r')"
  shows "read_exact (bit_reader_read rd) n r = (Inr bs, r')"
proof (cases "n = 0")
  case True
  with assms(2) show ?thesis by (simp add: run_simps)
next
  case False
  with times_io_length [OF assms(2)] have "bs \<noteq> []" "length bs = n" by auto
  with assms False show ?thesis
    by (simp add: read_exact.simps [of _ n r] bit_reader_read_def is_aligned_def)
qed

lemma dec_read_exact: "length bs = n \<Longrightarrow> dec (read_exact (bit_reader_read rd) n) (byte_bits bs) bs"
proof (rule decodesI)
  fix r rest
  assume n: "length bs = n" and r: "reader_ok ok r" and bits: "rest_bits unread r = byte_bits bs @ rest"
  let ?goal = "\<exists>r'. read_exact (bit_reader_read rd) n r = (Inr bs, r') \<and>
    rest_bits unread r' = rest \<and> reader_ok ok r'"
  show ?goal
  proof (cases "bit_pos r = 0")
    case True
    with bits have "byte_bits (unread (data r)) = byte_bits bs @ rest" by (simp add: rest_bits_def)
    then obtain vs where u: "unread (data r) = bs @ vs" and vs: "rest = byte_bits vs"
      using byte_bits_prefix by blast
    have "ok (data r) \<and> bit_pos r = 0" "n \<le> length (unread (data r))"
      using r True n u by (auto simp: reader_ok_def)
    from byte_source.read_exact_ok [OF aligned_source this] show ?goal
      by (auto simp: u vs n rest_bits_def reader_ok_def)
  next
    case False
    have "dec (times_io (length bs) (shift_in_loop rd 8 0)) (concat (map (bits_of 8) bs)) bs"
      by (rule decodes_times) (rule dec_read_byte)
    from decodesE [OF this r] bits obtain r'
      where "times_io n (shift_in_loop rd 8 0) r = (Inr bs, r')"
        "rest_bits unread r' = rest" "reader_ok ok r'"
      by (auto simp: byte_bits_def n)
    with unaligned_read_exact [OF False] show ?goal by blast
  qed
qed

lemma dec_be_read:
  assumes "length bs = 8 * n"
  shows "dec (be_read (bit_reader_read rd) n) bs (of_bits bs)"
proof -
  have b: "byte_bits (pack_bits bs) = bs"
    using assms by (simp add: byte_bits_pack_whole)
  have "dec (read_exact (bit_reader_read rd) n) (byte_bits (pack_bits bs)) (pack_bits bs)"
    by (rule dec_read_exact) (simp add: assms length_pack_whole)
  then show ?thesis
    unfolding be_read_def b by (rule decodes_last) (simp add: b decodes_ret)
qed

end

subsection \<open>Seeking on a cursor\<close>

text \<open>
  Off a byte boundary the byte before the cursor is the one being read; the position in
  the stream is counted in bits.
\<close>

definition cursor_reader_ok :: "cursor bit_reader \<Rightarrow> bool" where
  "cursor_reader_ok r \<longleftrightarrow> bit_pos r < 8 \<and>
     (bit_pos r \<noteq> 0 \<longrightarrow> 0 < cur_pos (data r) \<and> cur_pos (data r) \<le> length (cur_data (data r)) \<and>
        current_byte r = cur_data (data r) ! (cur_pos (data r) - 1))"

definition stream_bit :: "cursor bit_reader \<Rightarrow> int" where
  "stream_bit r = 8 * int (cur_pos (data r)) +
     (if bit_pos r = 0 then 0 else int (bit_pos r) - 8)"

lemma rest_bits_stream_bit:
  assumes "cursor_reader_ok r"
  shows "rest_bits cursor_rest r = drop (nat (stream_bit r)) (byte_bits (cur_data (data r)))"
proof (cases "bit_pos r = 0")
  case True
  then show ?thesis
    by (simp add: rest_bits_def stream_bit_def cursor_rest_def nat_mult_distrib drop_byte_bits_whole)
next
  case False
  with assms obtain i where i: "cur_pos (data r) = Suc i" "i < length (cur_data (data r))"
    by (cases "cur_pos (data r)") (auto simp: cursor_reader_ok_def)
  have "nat (stream_bit r) = 8 * i + bit_pos r"
    using False by (simp add: stream_bit_def i)
  with assms False i show ?thesis
    by (simp add: rest_bits_def cursor_rest_def drop_byte_bits cursor_reader_ok_def)
qed

lemma bit_stream_position_cursor:
  assumes "cursor_reader_ok r" and "cur_pos (data r) < 2 ^ 60"
  shows "bit_stream_position cursor_seek r = (Inr (nat (stream_bit r)), r)"
proof -
  have "8 \<le> cur_pos (data r) * 8 + (if bit_pos r = 0 then 8 else bit_pos r)"
    and "cur_pos (data r) * 8 + (if bit_pos r = 0 then 8 else bit_pos r) < 2 ^ 64"
    and "nat (stream_bit r) = cur_pos (data r) * 8 + (if bit_pos r = 0 then 8 else bit_pos r) - 8"
    using assms by (auto simp: cursor_reader_ok_def stream_bit_def)
  then show ?thesis
    using assms(2)
    by (simp add: bit_stream_position_def inner_def bnd_def run_simps is_aligned_def
        checked_u64_nat_def)
qed

lemma trunc_floor:
  "trunc_div t 8 - (if trunc_mod t 8 < 0 then 1 else 0) = t div 8"
  "trunc_mod (8 + trunc_mod t 8) 8 = t mod 8"
proof -
  have d: "t div 8 = (if - t mod 8 = 0 then - (- t div 8) else - (- t div 8) - 1)"
    and m: "t mod 8 = (if - t mod 8 = 0 then 0 else 8 - - t mod 8)"
    using zdiv_zminus1_eq_if [of 8 "- t"] zmod_zminus1_eq_if [of "- t" 8] by simp_all
  have b: "0 \<le> - t mod 8" "- t mod 8 < 8" "0 \<le> t mod 8" by simp_all
  show "trunc_div t 8 - (if trunc_mod t 8 < 0 then 1 else 0) = t div 8"
  proof (cases "t < 0")
    case True
    show ?thesis
      unfolding d using True b by (auto simp: trunc_div_def trunc_mod_def)
  next
    case False
    then show ?thesis using b by (simp add: trunc_div_def trunc_mod_def)
  qed
  show "trunc_mod (8 + trunc_mod t 8) 8 = t mod 8"
  proof (cases "t < 0")
    case True
    have "(8 - - t mod 8) mod 8 = 8 - - t mod 8" if "- t mod 8 \<noteq> 0"
      by (rule mod_pos_pos_trivial) (use b that in auto)
    with True show ?thesis
      unfolding m using b by (simp add: trunc_mod_def)
  next
    case False
    then show ?thesis using b by (simp add: trunc_mod_def)
  qed
qed

lemma cursor_update_byte:
  assumes "cur_pos (data r) < length (cur_data (data r))"
  shows "update_byte cursor_read r = (Inr (), r\<lparr>data := (data r)\<lparr>cur_pos := Suc (cur_pos (data r))\<rparr>,
     current_byte := cur_data (data r) ! cur_pos (data r)\<rparr>)"
proof -
  have "take 1 (drop (cur_pos (data r)) (cur_data (data r))) = [cur_data (data r) ! cur_pos (data r)]"
    using assms by (simp add: take_Suc_conv_app_nth hd_drop_conv_nth take_Suc)
  then show ?thesis
    by (simp add: update_byte_def inner_def bnd_def read_exact.simps cursor_read_def)
qed

lemma seek_bits_cursor:
  fixes r :: "cursor bit_reader"
  assumes ok: "cursor_reader_ok r"
    and small: "length (cur_data (data r)) < 2 ^ 60" "cur_pos (data r) \<le> length (cur_data (data r))"
    and target: "0 \<le> stream_bit r + count"
      "stream_bit r + count \<le> 8 * int (length (cur_data (data r)))"
  shows "\<exists>r'. seek_bits cursor_read cursor_seek count r = (Inr (nat (stream_bit r + count)), r') \<and>
    cursor_reader_ok r' \<and> stream_bit r' = stream_bit r + count \<and>
    cur_data (data r') = cur_data (data r) \<and> cur_pos (data r') \<le> length (cur_data (data r)) \<and>
    rest_bits cursor_rest r' =
      drop (nat (stream_bit r + count)) (byte_bits (cur_data (data r)))"
proof (cases "count = 0")
  case True
  with bit_stream_position_cursor [OF ok] small rest_bits_stream_bit [OF ok] ok show ?thesis
    by (simp add: seek_bits_def)
next
  case False
  define t where "t = int (bit_pos r) + count"
  define bk :: int where "bk = (if is_aligned r then 0 else 1)"
  define p where "p = int (cur_pos (data r)) - bk + t div 8"
  define b where "b = t mod 8"
  have tgt: "stream_bit r + count = 8 * p + b" and b: "0 \<le> b" "b < 8"
    by (simp_all add: stream_bit_def t_def bk_def p_def b_def is_aligned_def algebra_simps)
  with target have p: "0 \<le> p" "p \<le> int (length (cur_data (data r)))" by linarith+
  have i64: "in_i64 t"
    using target small tgt ok
    by (auto simp: in_i64_def t_def stream_bit_def cursor_reader_ok_def split: if_splits)
  let ?d = "(data r)\<lparr>cur_pos := nat p\<rparr>"
  let ?r = "r\<lparr>data := ?d, bit_pos := nat b\<rparr>"
  have move: "int (cur_pos (data r)) + (trunc_div t 8 - bk - (if trunc_mod t 8 < 0 then 1 else 0)) = p"
    using trunc_floor(1) [of t] by (simp add: p_def algebra_simps split: if_splits)
  have run: "seek_bits cursor_read cursor_seek count r =
      (if nat b = 0 then (Inr (nat p * 8), ?r)
       else bnd (update_byte cursor_read) (\<lambda>_. lift_res (checked_u64_nat (nat p * 8 + nat b))) ?r)"
  proof -
    have seek: "cursor_seek (SeekCurrent
        (trunc_div t 8 - bk - (if trunc_mod t 8 < 0 then 1 else 0))) (data r) = (Inr (nat p), ?d)"
      using p small by (simp only: cursor_seek.simps move Let_def) simp
    have chk: "checked_u64_nat (nat p * 8) = Inr (nat p * 8)"
      using p small by (simp add: checked_u64_nat_def)
    have nb: "trunc_mod (8 + trunc_mod t 8) 8 = b"
      by (simp only: trunc_floor b_def)
    show ?thesis
      unfolding seek_bits_def t_def [symmetric] bk_def [symmetric]
      using False i64 b
      by (simp add: bnd_def inner_def run_simps checked_i64_def is_aligned_def
          Let_def seek chk nb del: cursor_seek.simps split: prod.splits sum.splits)
  qed
  show ?thesis
  proof (cases "b = 0")
    case True
    have ok': "cursor_reader_ok ?r" and pos: "stream_bit ?r = 8 * p + b"
      using p True by (simp_all add: cursor_reader_ok_def stream_bit_def)
    from run True p have "seek_bits cursor_read cursor_seek count r = (Inr (nat (8 * p + b)), ?r)"
      by (simp add: nat_mult_distrib mult.commute)
    with ok' pos rest_bits_stream_bit [OF ok'] p show ?thesis
      unfolding tgt by (intro exI [of _ ?r]) (simp add: nat_le_iff)
  next
    case False
    let ?s = "?r\<lparr>data := ?d\<lparr>cur_pos := Suc (nat p)\<rparr>, current_byte := cur_data (data r) ! nat p\<rparr>"
    have lt: "nat p < length (cur_data (data r))"
      using target b False by (auto simp: tgt)
    have ok': "cursor_reader_ok ?s" and pos: "stream_bit ?s = 8 * p + b"
      using p b lt False by (simp_all add: cursor_reader_ok_def stream_bit_def)
    have "checked_u64_nat (nat p * 8 + nat b) = Inr (nat (8 * p + b))"
      using p b lt small by (simp add: checked_u64_nat_def nat_add_distrib nat_mult_distrib)
    with run cursor_update_byte [of ?r] lt b False
    have "seek_bits cursor_read cursor_seek count r = (Inr (nat (8 * p + b)), ?s)"
      by (simp add: bnd_def run_simps)
    with ok' pos rest_bits_stream_bit [OF ok'] lt show ?thesis
      unfolding tgt by (intro exI [of _ ?s]) simp
  qed
qed

text \<open>
  \<open>seek_bits(count)\<close> moves the position of the stream by exactly \<open>count\<close> bits, forward
  or backward, across byte boundaries, from an aligned or an unaligned position, and
  returns the new position in bits; the reader then delivers the bits from there.
\<close>

theorem seek_bits_moves:
  assumes "cursor_reader_ok r" and "length (cur_data (data r)) < 2 ^ 60"
    and "cur_pos (data r) \<le> length (cur_data (data r))"
    and "0 \<le> stream_bit r + count" and "stream_bit r + count \<le> 8 * int (length (cur_data (data r)))"
  shows "\<exists>r'. seek_bits cursor_read cursor_seek count r = (Inr (nat (stream_bit r + count)), r') \<and>
    stream_bit r' = stream_bit r + count \<and>
    rest_bits cursor_rest r' =
      drop (nat (stream_bit r + count)) (byte_bits (cur_data (data r)))"
  using seek_bits_cursor [OF assms] by blast

theorem seek_bits_moves_witness:
  "\<exists>r'. seek_bits cursor_read cursor_seek (- 5)
      \<lparr>data = \<lparr>cur_data = [1, 2, 3], cur_pos = 2\<rparr>, bit_pos = 3, current_byte = 2\<rparr> = (Inr 6, r') \<and>
    stream_bit r' = 6 \<and> rest_bits cursor_rest r' = drop 6 (byte_bits [1, 2, 3])"
  using seek_bits_moves [of "\<lparr>data = \<lparr>cur_data = [1, 2, 3], cur_pos = 2\<rparr>, bit_pos = 3, current_byte = 2\<rparr>" "- 5"]
  by (simp add: cursor_reader_ok_def stream_bit_def)

end
