(* ===== verification/Bit_Writer.thy ===== *)
theory Bit_Writer
  imports Bit_Reader
begin

text \<open>
  \<open>BitWriter<W>\<close> of \<open>scuffle-bytes-util\<close> (\<open>crates/bytes-util/src/bit_write.rs\<close>): a writer
  of single bits over any \<open>io::Write\<close>, itself an \<open>io::Write\<close>. \<open>put_bits\<close> is what writing
  a bit string does to its state; \<open>emits\<close> says that an operation succeeds and writes
  exactly a given bit string. Together with \<open>decodes\<close> of the reader it carries the round
  trips of the codec crates.
\<close>

subsection \<open>The writer\<close>

record 'w bit_writer =
  w_bit_pos :: nat
  w_current_byte :: u8
  writer :: 'w

definition bit_writer_new :: "'w \<Rightarrow> 'w bit_writer" where
  "bit_writer_new w = \<lparr>w_bit_pos = 0, w_current_byte = 0, writer = w\<rparr>"

definition w_is_aligned :: "'w bit_writer \<Rightarrow> bool" where
  "w_is_aligned b \<longleftrightarrow> w_bit_pos b mod 8 = 0"

definition w_inner :: "('w, 'a) io \<Rightarrow> ('w bit_writer, 'a) io" where
  "w_inner m b = (case m (writer b) of (x, w) \<Rightarrow> (x, b\<lparr>writer := w\<rparr>))"

definition set_bit_at :: "nat \<Rightarrow> bool \<Rightarrow> u8 \<Rightarrow> u8" where
  "set_bit_at p v c = (if v then c OR push_bit (7 - p) 1 else c AND NOT (push_bit (7 - p) 1))"

definition write_bit :: "'w write_fn \<Rightarrow> bool \<Rightarrow> ('w bit_writer, unit) io" where
  "write_bit wr v b =
     (if w_bit_pos b > 7 then (Inl (Panic ''sub overflow''), b)
      else let b = b\<lparr>w_current_byte := set_bit_at (w_bit_pos b) v (w_current_byte b),
                     w_bit_pos := w_bit_pos b + 1\<rparr>
           in if w_bit_pos b = 8
              then bnd (w_inner (write_all wr [w_current_byte b]))
                     (\<lambda>_ b. (Inr (), b\<lparr>w_current_byte := 0, w_bit_pos := 0\<rparr>)) b
              else (Inr (), b))"

text \<open>The loop over \<open>i\<close> in \<open>0..count\<close>, most significant bit first.\<close>

definition write_bits :: "'w write_fn \<Rightarrow> u64 \<Rightarrow> nat \<Rightarrow> ('w bit_writer, unit) io" where
  "write_bits wr bits count =
     (let count = min count 64 in
      if count \<noteq> 64 \<and> bits > push_bit count 1 - 1
      then fail (IoErr InvalidData ''bits too large to write'')
      else each_io (\<lambda>i. write_bit wr (drop_bit (count - i - 1) bits AND 1 = 1)) [0..<count])"

definition align_writer :: "'w write_fn \<Rightarrow> ('w bit_writer, unit) io" where
  "align_writer wr b =
     (if \<not> w_is_aligned b then write_bits wr 0 (8 - w_bit_pos b mod 8) b else ret () b)"

text \<open>\<open>finish(self)\<close> gives the inner writer back.\<close>

definition finish :: "'w write_fn \<Rightarrow> ('w bit_writer, 'w) io" where
  "finish wr = bnd (align_writer wr) (\<lambda>_ b. (Inr (writer b), b))"

text \<open>\<open>io::Write for BitWriter\<close>\<close>

definition bit_writer_write :: "'w write_fn \<Rightarrow> 'w bit_writer write_fn" where
  "bit_writer_write wr buf b =
     (if w_is_aligned b then w_inner (wr buf) b
      else bnd (each_io (\<lambda>byte. write_bits wr (ucast byte) 8) buf) (\<lambda>_. ret (length buf)) b)"

subsection \<open>What writing does to the state\<close>

definition put_bit :: "('w \<Rightarrow> u8 list \<Rightarrow> 'w) \<Rightarrow> 'w bit_writer \<Rightarrow> bool \<Rightarrow> 'w bit_writer" where
  "put_bit app b v =
     (let c = set_bit_at (w_bit_pos b) v (w_current_byte b) in
      if w_bit_pos b = 7 then b\<lparr>w_bit_pos := 0, w_current_byte := 0, writer := app (writer b) [c]\<rparr>
      else b\<lparr>w_bit_pos := w_bit_pos b + 1, w_current_byte := c\<rparr>)"

definition put_bits :: "('w \<Rightarrow> u8 list \<Rightarrow> 'w) \<Rightarrow> 'w bit_writer \<Rightarrow> bool list \<Rightarrow> 'w bit_writer" where
  "put_bits app = foldl (put_bit app)"

definition writer_ok :: "('w \<Rightarrow> bool) \<Rightarrow> 'w bit_writer \<Rightarrow> bool" where
  "writer_ok ok b \<longleftrightarrow> ok (writer b) \<and> w_bit_pos b < 8 \<and>
     (w_bit_pos b = 0 \<longrightarrow> w_current_byte b = 0)"

definition emits :: "('w \<Rightarrow> u8 list \<Rightarrow> 'w) \<Rightarrow> ('w \<Rightarrow> bool) \<Rightarrow> ('w bit_writer, unit) io \<Rightarrow> bool list \<Rightarrow> bool"
  where "emits app ok m bs \<longleftrightarrow>
    (\<forall>b. writer_ok ok b \<longrightarrow> m b = (Inr (), put_bits app b bs) \<and> writer_ok ok (put_bits app b bs))"

lemma put_bits_Nil [simp]: "put_bits app b [] = b"
  by (simp add: put_bits_def)

lemma put_bits_append [simp]: "put_bits app b (as @ bs) = put_bits app (put_bits app b as) bs"
  by (simp add: put_bits_def)

lemma put_bits_Cons: "put_bits app b (v # bs) = put_bits app (put_bit app b v) bs"
  by (simp add: put_bits_def)

lemma emitsI:
  "(\<And>b. writer_ok ok b \<Longrightarrow> m b = (Inr (), put_bits app b bs) \<and> writer_ok ok (put_bits app b bs)) \<Longrightarrow>
     emits app ok m bs"
  by (simp add: emits_def)

lemma emitsD:
  assumes "emits app ok m bs" and "writer_ok ok b"
  shows "m b = (Inr (), put_bits app b bs)" and "writer_ok ok (put_bits app b bs)"
  using assms by (simp_all add: emits_def)

lemma emits_ret: "emits app ok (ret ()) []"
  by (simp add: emits_def run_simps)

lemma emits_bnd:
  "emits app ok m as \<Longrightarrow> emits app ok (f ()) bs \<Longrightarrow> emits app ok (bnd m f) (as @ bs)"
  by (simp add: emits_def)

lemma emits_last: "emits app ok m as \<Longrightarrow> emits app ok (f ()) [] \<Longrightarrow> emits app ok (bnd m f) as"
  using emits_bnd [of app ok m as f "[]"] by simp

lemma emits_each:
  "(\<And>x. x \<in> set xs \<Longrightarrow> emits app ok (f x) (enc x)) \<Longrightarrow>
     emits app ok (each_io f xs) (concat (map enc xs))"
  by (induction xs) (auto simp: emits_ret intro!: emits_bnd)

lemma emits_opt:
  "(\<And>x. v = Some x \<Longrightarrow> emits app ok (f x) (enc x)) \<Longrightarrow>
     emits app ok (opt_io f v) (case v of None \<Rightarrow> [] | Some x \<Rightarrow> enc x)"
  by (cases v) (simp_all add: emits_ret)

lemma emits_cong: "emits app ok m as \<Longrightarrow> as = bs \<Longrightarrow> emits app ok m bs"
  by simp

subsection \<open>Writing to a byte sink\<close>

lemma write_bits_loop_bits:
  "map (\<lambda>i. drop_bit (n - i - 1) (w :: 'a::len word) AND 1 = 1) [0..<n] = bits_of n w"
  by (rule nth_equalityI)
    (simp_all add: nth_bits_of and_one_eq bit_iff_odd_drop_bit odd_iff_mod_2_eq_one)

lemma not_too_large:
  fixes w :: u64
  assumes "unat w < 2 ^ n" and "n < 64"
  shows "\<not> w > push_bit n 1 - 1"
proof -
  have "unat (push_bit n (1 :: u64)) = 2 ^ n"
    using assms(2)
    by (simp only: unsigned_push_bit_eq)
      (simp add: push_bit_eq_mult take_bit_nat_eq_self power_strict_increasing)
  moreover have "1 \<le> push_bit n (1 :: u64)"
    unfolding word_le_nat_alt calculation by simp
  ultimately have "unat (push_bit n 1 - 1 :: u64) = 2 ^ n - 1"
    by (simp add: unat_sub)
  with assms(1) show ?thesis
    by (simp add: word_less_nat_alt not_less)
qed

context byte_sink
begin

lemma emits_write_bit: "emits app ok (write_bit wr v) [v]"
proof (rule emitsI)
  fix b :: "'w bit_writer"
  assume b: "writer_ok ok b"
  then have p: "w_bit_pos b < 8" and w: "ok (writer b)" by (simp_all add: writer_ok_def)
  show "write_bit wr v b = (Inr (), put_bits app b [v]) \<and> writer_ok ok (put_bits app b [v])"
  proof (cases "w_bit_pos b = 7")
    case True
    with w show ?thesis
      by (simp add: write_bit_def put_bits_Cons put_bit_def w_inner_def bnd_def write_all_ok
          writer_ok_def ok_app Let_def)
  next
    case False
    with p w show ?thesis
      by (simp add: write_bit_def put_bits_Cons put_bit_def writer_ok_def Let_def)
  qed
qed

lemma emits_bit_loop: "emits app ok (each_io (\<lambda>i. write_bit wr (f i)) is) (map f is)"
  using emits_each [of "is" app ok "\<lambda>i. write_bit wr (f i)" "\<lambda>i. [f i]"]
  by (simp add: emits_write_bit concat_map_singleton)

lemma emits_write_bits:
  assumes "n \<le> 64" and "unat w < 2 ^ n"
  shows "emits app ok (write_bits wr w n) (bits_of n w)"
proof -
  have "\<not> (n \<noteq> 64 \<and> w > push_bit n 1 - 1)"
    using not_too_large [OF assms(2)] assms(1) by auto
  then have "write_bits wr w n =
      each_io (\<lambda>i. write_bit wr (drop_bit (n - i - 1) w AND 1 = 1)) [0..<n]"
    using assms(1) by (auto simp: write_bits_def min_def)
  then show ?thesis
    using emits_bit_loop [of "\<lambda>i. drop_bit (n - i - 1) w AND 1 = 1" "[0..<n]"]
    by (simp only: write_bits_loop_bits)
qed

text \<open>The form in which a field narrower than 64 bits is written.\<close>

lemma emits_write_field:
  assumes "n \<le> 64" and "unat (w :: 'b::len word) < 2 ^ n" and "LENGTH('b) \<le> 64"
  shows "emits app ok (write_bits wr (ucast w) n) (bits_of n w)"
  using emits_write_bits [of n "ucast w"] assms
  by (simp add: unat_ucast_up bits_of_ucast_up)

text \<open>Aligning and finishing fill the last byte up with zero bits.\<close>

lemma emits_align:
  assumes "writer_ok ok b"
  shows "align_writer wr b = (Inr (), put_bits app b (replicate (pad_len (w_bit_pos b)) False))"
proof (cases "w_bit_pos b = 0")
  case True
  then show ?thesis
    by (simp add: align_writer_def w_is_aligned_def pad_len_def run_simps)
next
  case False
  with assms have p: "w_bit_pos b mod 8 \<noteq> 0" "w_bit_pos b mod 8 = w_bit_pos b"
    by (simp_all add: writer_ok_def)
  have "bits_of (8 - w_bit_pos b) (0 :: u64) = replicate (8 - w_bit_pos b) False"
    by (rule nth_equalityI) (simp_all add: nth_bits_of)
  with emitsD(1) [OF emits_write_bits [of "8 - w_bit_pos b" 0] assms] p show ?thesis
    by (simp add: align_writer_def w_is_aligned_def pad_len_def)
qed

end

subsection \<open>The bytes a bit string becomes\<close>

text \<open>
  A writer that started aligned and was given the bits \<open>bs\<close> has written the whole bytes
  of \<open>bs\<close> and holds the rest; finishing it writes \<open>pack_bits bs\<close>.
\<close>

lemma bit_set_bit_at:
  assumes "p < 8" and "n < 8"
  shows "bit (set_bit_at p v c) n \<longleftrightarrow> (if n = 7 - p then v else bit c n)"
  using assms
  unfolding set_bit_at_def
  by (cases v) (auto simp: bit_or_iff bit_and_iff bit_not_iff push_bit_eq_mult bit_exp_iff)

lemma put_bits_partial:
  assumes "w_bit_pos b = 0" and "length bs < 8"
  shows "\<exists>c. put_bits app b bs = b\<lparr>w_bit_pos := length bs, w_current_byte := c\<rparr> \<and>
    (\<forall>i < length bs. bit c (7 - i) = bs ! i)"
  using assms(2)
proof (induction bs rule: rev_induct)
  case Nil
  have "put_bits app b [] = b\<lparr>w_bit_pos := length [], w_current_byte := w_current_byte b\<rparr>"
    using assms(1) by simp
  then show ?case by (intro exI conjI) (assumption, simp)
next
  case (snoc v bs)
  then obtain c where c: "put_bits app b bs = b\<lparr>w_bit_pos := length bs, w_current_byte := c\<rparr>"
    "\<forall>i < length bs. bit c (7 - i) = bs ! i" by auto
  let ?c = "set_bit_at (length bs) v c"
  have "bit ?c (7 - i) = (bs @ [v]) ! i" if "i < length (bs @ [v])" for i
    using that c(2) snoc.prems
    by (cases "i = length bs") (auto simp: bit_set_bit_at nth_append)
  with c(1) snoc.prems show ?case
    by (intro exI [of _ ?c]) (simp add: put_bits_Cons put_bit_def)
qed

lemma put_bits_byte:
  assumes "w_bit_pos b = 0" and "length bs = 8"
  shows "put_bits app b bs =
    b\<lparr>w_bit_pos := 0, w_current_byte := 0, writer := app (writer b) [of_bits bs]\<rparr>"
proof -
  from assms(2) obtain as v where bs: "bs = as @ [v]" and as: "length as = 7"
    by (cases bs rule: rev_cases) auto
  with put_bits_partial [OF assms(1), of as app] obtain c
    where c: "put_bits app b as = b\<lparr>w_bit_pos := 7, w_current_byte := c\<rparr>"
      "\<forall>i < 7. bit c (7 - i) = as ! i" by auto
  have "set_bit_at 7 v c = of_bits bs"
  proof (rule bit_word_eqI)
    fix n assume n: "n < LENGTH(8)"
    then show "bit (set_bit_at 7 v c) n = bit (of_bits bs :: u8) n"
      using c(2) [rule_format, of "7 - n"]
      by (auto simp: bit_set_bit_at bit_of_bits bs as nth_append)
  qed
  with c(1) show ?thesis
    by (simp add: bs put_bits_Cons put_bit_def)
qed

lemma w_bit_pos_put_bits: "w_bit_pos b < 8 \<Longrightarrow>
    w_bit_pos (put_bits app b bs) = (w_bit_pos b + length bs) mod 8"
proof (induction bs arbitrary: b)
  case Nil
  then show ?case by simp
next
  case (Cons v bs)
  have "w_bit_pos (put_bit app b v) < 8" "w_bit_pos (put_bit app b v) = (w_bit_pos b + 1) mod 8"
    using Cons.prems by (auto simp: put_bit_def Let_def)
  with Cons.IH [OF this(1)] show ?case
    by (simp add: put_bits_Cons mod_Suc_eq mod_simps)
qed

context byte_sink
begin

lemma put_bits_bytes:
  assumes "w_bit_pos b = 0" and "ok (writer b)" and "w_current_byte b = 0"
  shows "put_bits app b (byte_bits bs) = b\<lparr>writer := app (writer b) bs\<rparr>"
  using assms
proof (induction bs arbitrary: b)
  case Nil
  then show ?case by (simp add: app_Nil)
next
  case (Cons c bs)
  have "put_bits app b (bits_of 8 c) = b\<lparr>writer := app (writer b) [c]\<rparr>"
    using put_bits_byte [of b "bits_of 8 c" app] Cons.prems by (simp del: of_bits_bits_of)
  moreover have "put_bits app (b\<lparr>writer := app (writer b) [c]\<rparr>) (byte_bits bs) =
      b\<lparr>writer := app (app (writer b) [c]) bs\<rparr>"
    using Cons.IH [of "b\<lparr>writer := app (writer b) [c]\<rparr>"] Cons.prems ok_app by simp
  ultimately show ?case
    using Cons.prems by (simp add: app_app)
qed

lemma finish_put_bits:
  assumes "ok w" and "writer_ok ok (put_bits app (bit_writer_new w) bs)"
  shows "\<exists>b. finish wr (put_bits app (bit_writer_new w) bs) = (Inr (app w (pack_bits bs)), b) \<and>
    writer b = app w (pack_bits bs)"
proof -
  let ?b = "put_bits app (bit_writer_new w) bs"
  let ?pad = "replicate (pad_len (length bs)) False"
  have "pad_len (w_bit_pos ?b) = pad_len (length bs)"
    by (simp add: w_bit_pos_put_bits bit_writer_new_def pad_len_def)
  then have "align_writer wr ?b = (Inr (), put_bits app (bit_writer_new w) (bs @ ?pad))"
    using emits_align [OF assms(2)] by simp
  also have "put_bits app (bit_writer_new w) (bs @ ?pad) =
      (bit_writer_new w)\<lparr>writer := app w (pack_bits bs)\<rparr>"
    using put_bits_bytes [of "bit_writer_new w" "pack_bits bs"] assms(1)
    by (simp only: byte_bits_pack) (simp add: bit_writer_new_def)
  finally show ?thesis
    by (simp add: finish_def)
qed

text \<open>\<open>write_all\<close> through the bit writer: the eight bits of every byte, aligned or not.\<close>

lemma emits_write_all: "emits app ok (write_all (bit_writer_write wr) buf) (byte_bits buf)"
proof (rule emitsI)
  fix b :: "'w bit_writer"
  assume b: "writer_ok ok b"
  let ?goal = "write_all (bit_writer_write wr) buf b = (Inr (), put_bits app b (byte_bits buf)) \<and>
    writer_ok ok (put_bits app b (byte_bits buf))"
  have wrt: "bit_writer_write wr buf b = (Inr (length buf), put_bits app b (byte_bits buf)) \<and>
    writer_ok ok (put_bits app b (byte_bits buf))"
  proof (cases "w_bit_pos b = 0")
    case True
    with b have "put_bits app b (byte_bits buf) = b\<lparr>writer := app (writer b) buf\<rparr>"
      by (intro put_bits_bytes) (simp_all add: writer_ok_def)
    with b True show ?thesis
      by (simp add: bit_writer_write_def w_is_aligned_def w_inner_def write_ok writer_ok_def ok_app)
  next
    case False
    have "emits app ok (each_io (\<lambda>byte. write_bits wr (ucast byte) 8) buf) (concat (map (bits_of 8) buf))"
      by (rule emits_each, rule emits_write_field) simp_all
    from emitsD [OF this b] False b show ?thesis
      by (simp add: bit_writer_write_def w_is_aligned_def writer_ok_def run_simps byte_bits_def)
  qed
  then show ?goal
    by (simp add: write_all.simps [of _ buf] write_all.simps [of _ "[]"])
qed

end

subsection \<open>Whole messages\<close>

text \<open>
  Code that wraps the reader or writer it is given, \<open>BitReader::new(reader)\<close> or
  \<open>BitWriter::new(writer)\<close>, works on the wrapped state and leaves the inner one behind.
\<close>

definition with_bit_reader :: "('s bit_reader, 'a) io \<Rightarrow> ('s, 'a) io" where
  "with_bit_reader m s = (case m (bit_reader_new s) of (x, r) \<Rightarrow> (x, data r))"

definition with_bit_writer :: "('w bit_writer, 'a) io \<Rightarrow> ('w, 'a) io" where
  "with_bit_writer m w = (case m (bit_writer_new w) of (x, b) \<Rightarrow> (x, writer b))"

lemma writer_ok_new [simp]: "writer_ok ok (bit_writer_new w) = ok w"
  by (simp add: writer_ok_def bit_writer_new_def)

context byte_source
begin

lemma with_bit_reader_dec:
  assumes "dec m bs x" and "ok s" and "byte_bits (unread s) = bs @ rest"
  shows "\<exists>s'. with_bit_reader m s = (Inr x, s') \<and> ok s'"
proof -
  obtain r where "m (bit_reader_new s) = (Inr x, r)" "reader_ok ok r"
    using assms(1) by (rule decodesE [where s = "bit_reader_new s" and rest = rest])
      (simp_all add: assms(2,3))
  then show ?thesis by (simp add: with_bit_reader_def reader_ok_def)
qed

end

context byte_sink
begin

lemma with_bit_writer_emits:
  assumes "emits app ok m bs" and "ok w"
  shows "with_bit_writer (bnd m (\<lambda>_. bnd (finish wr) (\<lambda>_. ret ()))) w = (Inr (), app w (pack_bits bs))"
proof -
  have "writer_ok ok (bit_writer_new w)" using assms(2) by simp
  from emitsD [OF assms(1) this] finish_put_bits [OF assms(2)] obtain b
    where "m (bit_writer_new w) = (Inr (), put_bits app (bit_writer_new w) bs)"
      "finish wr (put_bits app (bit_writer_new w) bs) = (Inr (app w (pack_bits bs)), b)"
      "writer b = app w (pack_bits bs)"
    by blast
  then show ?thesis
    by (simp add: with_bit_writer_def run_simps)
qed

end

text \<open>A message written to a \<open>Vec<u8>\<close> and read back from a \<open>Cursor\<close> over it.\<close>

lemma vec_cursor_roundtrip:
  assumes "emits (@) (\<lambda>_. True) m bs"
    and "decodes (rest_bits cursor_rest) (reader_ok (\<lambda>_. True)) p bs x"
  shows "\<exists>c. with_bit_writer (bnd m (\<lambda>_. bnd (finish vec_write) (\<lambda>_. ret ()))) [] =
      (Inr (), pack_bits bs) \<and>
    with_bit_reader p (cursor_new (pack_bits bs)) = (Inr x, c)"
  using vec.with_bit_writer_emits [OF assms(1), of "[]"]
    cur.with_bit_reader_dec [OF assms(2), of "cursor_new (pack_bits bs)"]
  by (auto simp: byte_bits_pack)

end
