(* ===== verification/Exp_Golomb.thy ===== *)
theory Exp_Golomb
  imports Bit_Writer
begin

text \<open>
  Exponential-Golomb codes, \<open>crates/expgolomb/src/lib.rs\<close>: the extension traits of the bit
  reader and the bit writer and the size functions. \<open>eg_bits\<close> is the code word of a
  number; the writer emits it, the reader decodes it, the size functions give its length.
\<close>

subsection \<open>Reading\<close>

text \<open>
  The loop that counts zero bits. Its counter is an \<open>i32\<close>, so on an endless run of zeros
  the loop ends with an overflow.
\<close>

function leading_zeros_loop :: "'s read_fn \<Rightarrow> nat \<Rightarrow> ('s bit_reader, nat) io" where
  "leading_zeros_loop rd leading_zeros r =
     (case read_bit rd r of
        (Inl e, r') \<Rightarrow> (Inl e, r')
      | (Inr b, r') \<Rightarrow>
          (if b then (Inr leading_zeros, r')
           else if leading_zeros + 1 < 2 ^ 31 then leading_zeros_loop rd (leading_zeros + 1) r'
           else (Inl (Panic ''add overflow''), r')))"
  by pat_completeness auto
termination
  by (relation "measure (\<lambda>(rd, n, r). 2 ^ 31 - n)") auto

declare leading_zeros_loop.simps [simp del]

definition read_exp_golomb :: "'s read_fn \<Rightarrow> ('s bit_reader, u64) io" where
  "read_exp_golomb rd =
     bnd (leading_zeros_loop rd 0) (\<lambda>leading_zeros.
     bnd (shift_in_loop rd leading_zeros 1) (\<lambda>result.
     lift_res (checked_sub result 1)))"

definition read_signed_exp_golomb :: "'s read_fn \<Rightarrow> ('s bit_reader, int) io" where
  "read_signed_exp_golomb rd =
     bnd (read_exp_golomb rd) (\<lambda>exp_glob.
       if exp_glob mod 2 = 0 then lift_res (checked_i64 (- sint (exp_glob div 2)))
       else lift_res (checked_i64 (sint (exp_glob div 2) + 1)))"

subsection \<open>Writing\<close>

text \<open>The loop \<open>while number > 1 \<open>number >>= 1; leading_zeros += 1\<close>\<close>.\<close>

function log2_loop :: "u64 \<Rightarrow> nat \<Rightarrow> nat" where
  "log2_loop number leading_zeros =
     (if number > 1 then log2_loop (drop_bit 1 number) (leading_zeros + 1) else leading_zeros)"
  by pat_completeness auto
termination
proof (relation "measure (\<lambda>(number, n). unat number)", simp, clarsimp)
  fix number :: u64
  assume "1 < number"
  then have "0 < unat number" by (simp add: word_less_nat_alt)
  then show "unat (drop_bit (Suc 0) number) < unat number"
    by (simp add: unat_div drop_bit_Suc)
qed

declare log2_loop.simps [simp del]

definition write_exp_golomb :: "'w write_fn \<Rightarrow> u64 \<Rightarrow> ('w bit_writer, unit) io" where
  "write_exp_golomb wr input =
     bnd (lift_res (checked_add input 1)) (\<lambda>number.
       let leading_zeros = log2_loop number 0 in
       bnd (each_io (\<lambda>_. write_bit wr False) [0..<leading_zeros]) (\<lambda>_.
       write_bits wr number (leading_zeros + 1)))"

definition signed_to_unsigned :: "int \<Rightarrow> err + u64" where
  "signed_to_unsigned number =
     (if number \<le> 0
      then rbind (checked_i64 (- number)) (\<lambda>n. checked_mul (word_of_int n) 2)
      else rbind (checked_mul (word_of_int number) 2) (\<lambda>n. checked_sub n 1))"

definition write_signed_exp_golomb :: "'w write_fn \<Rightarrow> int \<Rightarrow> ('w bit_writer, unit) io" where
  "write_signed_exp_golomb wr number =
     bnd (lift_res (signed_to_unsigned number)) (write_exp_golomb wr)"

definition size_of_exp_golomb :: "u64 \<Rightarrow> err + nat" where
  "size_of_exp_golomb number =
     rbind (checked_add number 1) (\<lambda>number. Inr (log2_loop number 0 * 2 + 1))"

definition size_of_signed_exp_golomb :: "int \<Rightarrow> err + nat" where
  "size_of_signed_exp_golomb number = rbind (signed_to_unsigned number) size_of_exp_golomb"

subsection \<open>The code words\<close>

definition eg_bits :: "u64 \<Rightarrow> bool list" where
  "eg_bits n = replicate (log2_loop (n + 1) 0) False @ bits_of (log2_loop (n + 1) 0 + 1) (n + 1)"

text \<open>Zigzag: 0, 1, -1, 2, -2, ... as 0, 1, 2, 3, 4, ...\<close>

definition zigzag :: "int \<Rightarrow> u64" where
  "zigzag i = word_of_int (if i \<le> 0 then - i * 2 else i * 2 - 1)"

definition eg_signed_bits :: "int \<Rightarrow> bool list" where
  "eg_signed_bits i = eg_bits (zigzag i)"

definition eg_ok :: "u64 \<Rightarrow> bool" where
  "eg_ok n \<longleftrightarrow> n \<noteq> - 1"

definition eg_signed_ok :: "int \<Rightarrow> bool" where
  "eg_signed_ok i \<longleftrightarrow> - (2 ^ 63) < i \<and> i < 2 ^ 63"

lemma log2_loop_bounds:
  "0 < unat n \<Longrightarrow> \<exists>k. log2_loop n m = m + k \<and> 2 ^ k \<le> unat n \<and> unat n < 2 ^ (k + 1)"
proof (induction n m rule: log2_loop.induct)
  case (1 n m)
  show ?case
  proof (cases "1 < n")
    case True
    let ?h = "drop_bit 1 n"
    have h: "unat ?h = unat n div 2"
      by (simp add: unat_div drop_bit_Suc)
    have "2 \<le> unat n" using True by (simp add: word_less_nat_alt)
    then have "0 < unat ?h" unfolding h by simp
    from "1.IH" [OF True this] obtain k where k: "log2_loop ?h (m + 1) = m + 1 + k"
      "2 ^ k \<le> unat ?h" "unat ?h < 2 ^ (k + 1)" by blast
    note k' = k(1) k(2,3) [unfolded h]
    then have "log2_loop n m = m + (k + 1)" "2 ^ (k + 1) \<le> unat n" "unat n < 2 ^ (k + 1 + 1)"
      using True by (simp_all add: log2_loop.simps [of n])
    then show ?thesis by blast
  next
    case False
    with "1.prems" have "unat n = 1" by (simp add: word_less_nat_alt)
    with False show ?thesis by (intro exI [of _ 0]) (simp add: log2_loop.simps [of n])
  qed
qed

lemma eg_ok_unat: "eg_ok n \<longleftrightarrow> unat n + 1 < 2 ^ 64"
proof -
  have "unat n < 2 ^ 64" using unsigned_less [of n] by simp
  moreover have "eg_ok n \<longleftrightarrow> unat n \<noteq> 2 ^ 64 - 1"
    by (simp add: eg_ok_def word_unat_eq_iff [of n "- 1"] unsigned_minus_1_eq_mask mask_eq_exp_minus_1)
  ultimately show ?thesis by auto
qed

lemma eg_ok_plus: "eg_ok n \<Longrightarrow> checked_add n 1 = Inr (n + 1) \<and> unat (n + 1) = unat n + 1"
  by (simp add: eg_ok_unat checked_add_def unat_word_ariths)

lemma eg_log:
  assumes "eg_ok n"
  defines "k \<equiv> log2_loop (n + 1) 0"
  shows "2 ^ k \<le> unat n + 1" and "unat n + 1 < 2 ^ (k + 1)" and "k \<le> 63"
proof -
  have u: "unat (n + 1) = unat n + 1" using eg_ok_plus [OF assms(1)] by simp
  with log2_loop_bounds [of "n + 1" 0] show a: "2 ^ k \<le> unat n + 1" and "unat n + 1 < 2 ^ (k + 1)"
    by (simp_all add: k_def)
  from a assms(1) have "(2 :: nat) ^ k < 2 ^ 64"
    unfolding eg_ok_unat by (rule le_less_trans)
  then have "k < 64" by (rule power_less_imp_less_exp [rotated]) simp
  then show "k \<le> 63" by simp
qed

lemma eg_bits_split:
  assumes "eg_ok n"
  shows "eg_bits n = replicate (log2_loop (n + 1) 0) False @ True # bits_of (log2_loop (n + 1) 0) (n + 1)"
proof -
  let ?k = "log2_loop (n + 1) 0"
  have "unat (n + 1) = unat n + 1" using eg_ok_plus [OF assms] by simp
  with eg_log [OF assms] have "unat (n + 1) div 2 ^ ?k = 1"
    by (simp add: div_nat_eqI)
  then have "bit (n + 1) ?k"
    by (metis bit_iff_odd odd_one bit_unsigned_iff bit_imp_le_length)
  then show ?thesis by (simp add: eg_bits_def bits_of_Suc)
qed

lemma length_eg_bits: "length (eg_bits n) = log2_loop (n + 1) 0 * 2 + 1"
  by (simp add: eg_bits_def)

lemma size_of_exp_golomb_eq: "eg_ok n \<Longrightarrow> size_of_exp_golomb n = Inr (length (eg_bits n))"
  using eg_ok_plus [of n] by (simp add: size_of_exp_golomb_def length_eg_bits)


lemma eg_signed_uint:
  assumes "eg_signed_ok i"
  shows "uint (zigzag i) = (if i \<le> 0 then - i * 2 else i * 2 - 1)" and "eg_ok (zigzag i)"
proof -
  have b: "0 \<le> (if i \<le> 0 then - i * 2 else i * 2 - 1)"
    "(if i \<le> 0 then - i * 2 else i * 2 - 1) < 2 ^ 64 - 1"
    using assms by (auto simp: eg_signed_ok_def)
  then show u: "uint (zigzag i) = (if i \<le> 0 then - i * 2 else i * 2 - 1)"
    unfolding zigzag_def uint_word_of_int by (intro mod_pos_pos_trivial) simp_all
  have "int (unat (zigzag i)) < 2 ^ 64 - 1" using b(2) by (simp only: of_nat_unat u)
  then show "eg_ok (zigzag i)" 
    unfolding eg_ok_unat by (subst of_nat_less_iff [where 'a = int, symmetric]) simp
qed

lemma signed_to_unsigned_eq:
  assumes "eg_signed_ok i"
  shows "signed_to_unsigned i = Inr (zigzag i)"
proof (cases "i \<le> 0")
  case True
  with assms have "unat (word_of_int (- i) :: u64) = nat (- i)"
    by (simp add: unat_eq_nat_uint uint_word_of_int eg_signed_ok_def del: of_int_minus)
  moreover have "(word_of_int (- i) :: u64) * 2 = word_of_int (- i * 2)"
    by simp
  ultimately show ?thesis
    using assms True
    by (simp add: signed_to_unsigned_def checked_i64_def in_i64_def eg_signed_ok_def
        checked_mul_def zigzag_def del: of_int_minus)
next
  case False
  with assms have "unat (word_of_int i :: u64) = nat i"
    by (simp add: unat_eq_nat_uint uint_word_of_int eg_signed_ok_def)
  moreover have "uint (word_of_int i * 2 :: u64) = i * 2"
    using assms False by (simp add: uint_word_ariths uint_word_of_int eg_signed_ok_def)
  ultimately show ?thesis
    using assms False
    by (simp add: signed_to_unsigned_def eg_signed_ok_def checked_mul_def checked_sub_def
        zigzag_def word_le_def)
qed

text \<open>What the readers can return can be written again.\<close>

lemma yields_read_exp_golomb: "yields (read_exp_golomb rd) eg_ok"
proof -
  have "eg_ok c" if "checked_sub a 1 = Inr c" for a c :: u64
    using checked_sub_Inr [OF that] that unat_u64_less [of a]
    by (auto simp: eg_ok_unat checked_sub_def word_le_nat_alt split: if_splits)
  then show ?thesis
    by (auto simp: yields_def read_exp_golomb_def run_simps elim!: bnd_InrE)
qed

lemma sint_half: "sint (u div 2 :: u64) = uint u div 2" "0 \<le> uint u div 2" "uint u div 2 < 2 ^ 63"
proof -
  show b: "0 \<le> uint u div 2" "uint u div 2 < 2 ^ 63" using uint_u64_less [of u] by auto
  have "signed_take_bit 63 (uint u div 2) = uint u div 2"
    by (rule signed_take_bit_int_eq_self [OF order_trans [OF _ b(1)] b(2)]) simp
  then show "sint (u div 2) = uint u div 2"
    by (simp add: sint_uint uint_div)
qed

lemma sint_half_bounds: "0 \<le> sint (u div 2 :: u64)" "sint (u div 2 :: u64) < 2 ^ 63"
  unfolding sint_half(1) by (rule sint_half)+

lemma yields_read_signed_exp_golomb: "yields (read_signed_exp_golomb rd) eg_signed_ok"
  unfolding read_signed_exp_golomb_def
proof (rule yields_bnd [OF yields_any])
  fix u :: u64
  have "yields (lift_res (checked_i64 (- sint (u div 2)))) eg_signed_ok"
    using sint_half_bounds [of u]
    by (auto simp: yields_def run_simps checked_i64_def eg_signed_ok_def split: if_splits)
  moreover have "yields (lift_res (checked_i64 (sint (u div 2) + 1))) eg_signed_ok"
    using sint_half_bounds [of u]
    by (auto simp: yields_def run_simps checked_i64_def in_i64_def eg_signed_ok_def split: if_splits)
  ultimately show "yields (if u mod 2 = 0 then lift_res (checked_i64 (- sint (u div 2)))
      else lift_res (checked_i64 (sint (u div 2) + 1))) eg_signed_ok"
    by (cases "u mod 2 = 0") (simp_all only: if_True if_False simp_thms)
qed

subsection \<open>Coding\<close>

context byte_source
begin

lemma dec_leading_zeros:
  "m + k < 2 ^ 31 \<Longrightarrow> dec (leading_zeros_loop rd m) (replicate k False @ [True]) (m + k)"
proof (induction k arbitrary: m)
  case 0
  show ?case
    by (rule decodesI)
      (auto simp: leading_zeros_loop.simps [of rd m] elim: decodesE [OF dec_read_bit [of True]])
next
  case (Suc k)
  then have IH: "dec (leading_zeros_loop rd (m + 1)) (replicate k False @ [True]) (m + 1 + k)"
    by (intro Suc.IH) simp
  show ?case
  proof (rule decodesI)
    fix r rest
    assume r: "reader_ok ok r"
      and "rest_bits unread r = (replicate (Suc k) False @ [True]) @ rest"
    then have "rest_bits unread r = [False] @ ((replicate k False @ [True]) @ rest)" by simp
    from decodesE [OF dec_read_bit r this] obtain t where t: "read_bit rd r = (Inr False, t)"
      "rest_bits unread t = (replicate k False @ [True]) @ rest" "reader_ok ok t" .
    from decodesE [OF IH t(3,2)] obtain u where "leading_zeros_loop rd (m + 1) t = (Inr (m + 1 + k), u)"
      "rest_bits unread u = rest" "reader_ok ok u" .
    with t Suc.prems show "\<exists>u. leading_zeros_loop rd m r = (Inr (m + Suc k), u) \<and>
        rest_bits unread u = rest \<and> reader_ok ok u"
      by (simp add: leading_zeros_loop.simps [of rd m])
  qed
qed

lemma dec_read_exp_golomb:
  assumes "eg_ok n"
  shows "dec (read_exp_golomb rd) (eg_bits n) n"
proof -
  let ?k = "log2_loop (n + 1) 0"
  have k: "?k \<le> 63" "unat (n + 1) < 2 ^ (?k + 1)"
    using eg_log [OF assms] eg_ok_plus [OF assms] by simp_all
  have "dec (leading_zeros_loop rd 0) (replicate ?k False @ [True]) (0 + ?k)"
    by (rule dec_leading_zeros) (use k in simp)
  then have zeros: "dec (leading_zeros_loop rd 0) (replicate ?k False @ [True]) ?k" by simp
  have "(of_bits ([True] @ bits_of ?k (n + 1)) :: u64) = of_bits (bits_of (?k + 1) (n + 1))"
    using eg_bits_split [OF assms] by (simp add: eg_bits_def)
  also have "\<dots> = n + 1"
    using of_bits_bits_of_small [OF k(2), where 'a = 64] by simp
  finally have val: "dec (shift_in_loop rd ?k 1) (bits_of ?k (n + 1)) (n + 1)"
    using dec_shift_in_loop [of "bits_of ?k (n + 1)" "[True]", where 'n = 64]
    by (simp add: of_bits_def shift_in_def)
  have "checked_sub (n + 1) 1 = Inr n"
    using eg_ok_plus [OF assms] by (simp add: checked_sub_def word_le_nat_alt)
  then have "dec (bnd (shift_in_loop rd ?k 1) (\<lambda>result. lift_res (checked_sub result 1)))
      (bits_of ?k (n + 1)) n"
    by (intro decodes_last [OF val]) (simp add: decodes_def run_simps)
  from decodes_bnd [OF zeros, of "\<lambda>z. bnd (shift_in_loop rd z 1)
      (\<lambda>result. lift_res (checked_sub result 1))", OF this] show ?thesis
    by (simp add: read_exp_golomb_def eg_bits_split [OF assms])
qed

lemma dec_read_signed_exp_golomb:
  assumes "eg_signed_ok i"
  shows "dec (read_signed_exp_golomb rd) (eg_signed_bits i) i"
  unfolding read_signed_exp_golomb_def eg_signed_bits_def
proof (rule decodes_last [OF dec_read_exp_golomb])
  note u = eg_signed_uint [OF assms]
  show "eg_ok (zigzag i)" by (rule u)
  have "zigzag i mod 2 = 0 \<longleftrightarrow> i \<le> 0"
    by (simp add: word_uint_eq_iff uint_mod u) presburger
  moreover have "- (uint (zigzag i) div 2) = i" if "i \<le> 0" using that by (simp add: u)
  moreover have "uint (zigzag i) div 2 + 1 = i" if "\<not> i \<le> 0" using that by (simp add: u)
  moreover have "checked_i64 i = Inr i" using assms by (simp add: checked_i64_def in_i64_def eg_signed_ok_def)
  ultimately show "dec (if zigzag i mod 2 = 0 then lift_res (checked_i64 (- sint (zigzag i div 2)))
      else lift_res (checked_i64 (sint (zigzag i div 2) + 1))) [] i"
    by (simp add: sint_half decodes_def run_simps)
qed

end

context byte_sink
begin

lemma emits_write_exp_golomb:
  assumes "eg_ok n"
  shows "emits app ok (write_exp_golomb wr n) (eg_bits n)"
proof -
  let ?k = "log2_loop (n + 1) 0"
  have k: "?k + 1 \<le> 64" "unat (n + 1) < 2 ^ (?k + 1)"
    using eg_log [OF assms] eg_ok_plus [OF assms] by simp_all
  have "map (\<lambda>_. False) [0..<?k] = replicate ?k False"
    by (rule nth_equalityI) simp_all
  then have "emits app ok (each_io (\<lambda>_. write_bit wr False) [0..<?k]) (replicate ?k False)"
    using emits_bit_loop [of "\<lambda>_. False" "[0..<?k]"] by simp
  from emits_bnd [OF this, of "\<lambda>_. write_bits wr (n + 1) (?k + 1)", OF emits_write_bits [OF k]]
  show ?thesis
    using eg_ok_plus [OF assms] by (simp add: write_exp_golomb_def eg_bits_def Let_def)
qed

lemma emits_write_signed_exp_golomb:
  "eg_signed_ok i \<Longrightarrow> emits app ok (write_signed_exp_golomb wr i) (eg_signed_bits i)"
  by (simp add: write_signed_exp_golomb_def signed_to_unsigned_eq eg_signed_bits_def
      emits_write_exp_golomb eg_signed_uint(2))

end

lemma size_of_signed_exp_golomb_eq:
  "eg_signed_ok i \<Longrightarrow> size_of_signed_exp_golomb i = Inr (length (eg_signed_bits i))"
  by (simp add: size_of_signed_exp_golomb_def signed_to_unsigned_eq size_of_exp_golomb_eq
      eg_signed_uint(2) eg_signed_bits_def)

subsection \<open>Damaged input\<close>

context byte_source
begin

lemma leading_zeros_eof:
  "m + k < 2 ^ 31 \<Longrightarrow> reader_ok ok r \<Longrightarrow> rest_bits unread r = replicate k False \<Longrightarrow>
     \<exists>r'. leading_zeros_loop rd m r = (Inl eof_error, r')"
proof (induction k arbitrary: m r)
  case 0
  then obtain r' where "read_bit rd r = (Inl eof_error, r')"
    using read_bit_Nil [of r] by auto
  then show ?case by (simp add: leading_zeros_loop.simps [of rd m])
next
  case (Suc k)
  from read_bit_Cons [OF Suc.prems(2), of False] Suc.prems(3) obtain t
    where t: "read_bit rd r = (Inr False, t)" "rest_bits unread t = replicate k False" "reader_ok ok t"
    by auto
  have "m + 1 + k < 2 ^ 31" using Suc.prems(1) by simp
  from Suc.IH [OF this t(3,2)] t(1) Suc.prems(1) show ?case
    by (simp add: leading_zeros_loop.simps [of rd m])
qed

lemma read_exp_golomb_eof:
  assumes n: "eg_ok n" and j: "j < length (eg_bits n)"
    and r: "reader_ok ok r" and bits: "rest_bits unread r = take j (eg_bits n)"
  shows "\<exists>r'. read_exp_golomb rd r = (Inl eof_error, r')"
proof -
  let ?k = "log2_loop (n + 1) 0"
  have k: "?k \<le> 63" using eg_log [OF n] by simp
  show ?thesis
  proof (cases "j \<le> ?k")
    case True
    then have "rest_bits unread r = replicate j False"
      using bits by (simp add: eg_bits_def)
    from leading_zeros_eof [OF _ r this, of 0] True k obtain r'
      where "leading_zeros_loop rd 0 r = (Inl eof_error, r')" by auto
    then show ?thesis by (auto simp: read_exp_golomb_def)
  next
    case False
    then obtain i where i: "j = Suc (?k + i)" using less_iff_Suc_add by (metis not_le)
    have "rest_bits unread r = (replicate ?k False @ [True]) @ take i (bits_of ?k (n + 1))"
      unfolding bits eg_bits_split [OF n] i by simp
    with dec_leading_zeros [of 0 ?k] r k obtain t
      where t: "leading_zeros_loop rd 0 r = (Inr ?k, t)" "reader_ok ok t"
        "rest_bits unread t = take i (bits_of ?k (n + 1))"
      by (auto elim: decodesE)
    have "i < ?k" using j by (simp add: length_eg_bits i)
    with t(3) have "length (rest_bits unread t) < ?k" by simp
    from shift_in_loop_eof [OF t(2) this, of "1 :: u64"] t(1) show ?thesis
      by (auto simp: read_exp_golomb_def)
  qed
qed

lemma read_exp_golomb_panics:
  assumes k: "64 \<le> k" "k < 2 ^ 31" and r: "reader_ok ok r"
    and bits: "rest_bits unread r = replicate k False @ True # replicate k False @ rest"
  shows "\<exists>r'. read_exp_golomb rd r = (Inl (Panic ''sub overflow''), r')"
proof -
  from bits have "rest_bits unread r = (replicate k False @ [True]) @ (replicate k False @ rest)" by simp
  with dec_leading_zeros [of 0 k] k r obtain t where t: "leading_zeros_loop rd 0 r = (Inr k, t)"
    "rest_bits unread t = replicate k False @ rest" "reader_ok ok t"
    by (auto elim: decodesE)
  have "(of_bits ([True] @ replicate k False) :: u64) = 0"
    by (rule bit_word_eqI) (use k in \<open>auto simp: bit_of_bits nth_Cons split: nat.splits\<close>)
  then have "dec (shift_in_loop rd k (1 :: u64)) (replicate k False) 0"
    using dec_shift_in_loop [of "replicate k False" "[True]", where 'n = 64]
    by (simp add: of_bits_def shift_in_def)
  from decodesE [OF this t(3,2)] obtain u where "shift_in_loop rd k (1 :: u64) t = (Inr 0, u)" .
  with t(1) show ?thesis
    by (auto simp: read_exp_golomb_def checked_sub_def run_simps)
qed

end

subsection \<open>The properties of the code\<close>

text \<open>
  C38. Any numbers below \<open>u64::MAX\<close>, written one after the other with \<open>write_exp_golomb\<close> and
  finished, are read back in order by \<open>read_exp_golomb\<close>.
\<close>

theorem exp_golomb_roundtrip:
  assumes "list_all eg_ok ns"
  shows "\<exists>v c. with_bit_writer (bnd (each_io (write_exp_golomb vec_write) ns)
      (\<lambda>_. bnd (finish vec_write) (\<lambda>_. ret ()))) [] = (Inr (), v) \<and>
    with_bit_reader (times_io (length ns) (read_exp_golomb cursor_read)) (cursor_new v) = (Inr ns, c)"
proof -
  have e: "emits (@) (\<lambda>_. True) (each_io (write_exp_golomb vec_write) ns) (concat (map eg_bits ns))"
    using assms by (intro emits_each vec.emits_write_exp_golomb) (simp add: list_all_iff)
  have d: "cur.dec (times_io (length ns) (read_exp_golomb cursor_read)) (concat (map eg_bits ns)) ns"
    using assms by (intro decodes_times cur.dec_read_exp_golomb) (simp add: list_all_iff)
  from vec_cursor_roundtrip [OF e d] show ?thesis by (rule exI)
qed

theorem exp_golomb_roundtrip_witness:
  "\<exists>v c. with_bit_writer (bnd (each_io (write_exp_golomb vec_write) [0, 5, 18446744073709551614])
      (\<lambda>_. bnd (finish vec_write) (\<lambda>_. ret ()))) [] = (Inr (), v) \<and>
    with_bit_reader (times_io 3 (read_exp_golomb cursor_read)) (cursor_new v) =
      (Inr [0, 5, 18446744073709551614], c)"
proof -
  have ok: "list_all eg_ok [0, 5, 18446744073709551614]" by (simp add: eg_ok_def)
  have len: "length [0, 5, 18446744073709551614 :: u64] = 3" by simp
  from exp_golomb_roundtrip [OF ok] show ?thesis unfolding len .
qed

text \<open>
  Any \<open>i64\<close> values but \<open>i64::MIN\<close>, written with \<open>write_signed_exp_golomb\<close> and finished,
  are read back in order by \<open>read_signed_exp_golomb\<close>.
\<close>

theorem signed_exp_golomb_roundtrip:
  assumes "list_all eg_signed_ok is"
  shows "\<exists>v c. with_bit_writer (bnd (each_io (write_signed_exp_golomb vec_write) is)
      (\<lambda>_. bnd (finish vec_write) (\<lambda>_. ret ()))) [] = (Inr (), v) \<and>
    with_bit_reader (times_io (length is) (read_signed_exp_golomb cursor_read)) (cursor_new v) =
      (Inr is, c)"
proof -
  have e: "emits (@) (\<lambda>_. True) (each_io (write_signed_exp_golomb vec_write) is)
      (concat (map eg_signed_bits is))"
    using assms by (intro emits_each vec.emits_write_signed_exp_golomb) (simp add: list_all_iff)
  have d: "cur.dec (times_io (length is) (read_signed_exp_golomb cursor_read))
      (concat (map eg_signed_bits is)) is"
    using assms by (intro decodes_times cur.dec_read_signed_exp_golomb) (simp add: list_all_iff)
  from vec_cursor_roundtrip [OF e d] show ?thesis by (rule exI)
qed

theorem signed_exp_golomb_roundtrip_witness:
  "\<exists>v c. with_bit_writer (bnd (each_io (write_signed_exp_golomb vec_write) [0, -3, 9223372036854775807])
      (\<lambda>_. bnd (finish vec_write) (\<lambda>_. ret ()))) [] = (Inr (), v) \<and>
    with_bit_reader (times_io 3 (read_signed_exp_golomb cursor_read)) (cursor_new v) =
      (Inr [0, -3, 9223372036854775807], c)"
proof -
  have ok: "list_all eg_signed_ok [0, -3, 9223372036854775807]" by (simp add: eg_signed_ok_def)
  have len: "length [0, -3, 9223372036854775807 :: int] = 3" by simp
  from signed_exp_golomb_roundtrip [OF ok] show ?thesis unfolding len .
qed

text \<open>
  Input that ends inside a code word is an \<open>UnexpectedEof\<close> error: the read neither loops
  nor returns a number.
\<close>

theorem read_exp_golomb_truncated:
  assumes "eg_ok n" and "j < length (eg_bits n)"
    and "reader_ok (\<lambda>_. True) r" and "rest_bits cursor_rest r = take j (eg_bits n)"
  shows "\<exists>r'. read_exp_golomb cursor_read r = (Inl eof_error, r')"
  by (rule cur.read_exp_golomb_eof [OF assms])

theorem read_exp_golomb_truncated_witness:
  "\<exists>r'. read_exp_golomb cursor_read (bit_reader_new (cursor_new [])) = (Inl eof_error, r')"
  by (rule read_exp_golomb_truncated [of 0 0]) (simp_all add: eg_ok_def eg_bits_def)

text \<open>
  Damaged input can make the read panic: 64 or more leading zeros, a one and as many
  zeros shift the leading one out of the 64-bit result, and \<open>result - 1\<close> underflows.
\<close>

theorem read_exp_golomb_underflow:
  assumes "64 \<le> k" and "k < 2 ^ 31" and "reader_ok (\<lambda>_. True) r"
    and "rest_bits cursor_rest r = replicate k False @ True # replicate k False @ rest"
  shows "\<exists>r'. read_exp_golomb cursor_read r = (Inl (Panic ''sub overflow''), r')"
  by (rule cur.read_exp_golomb_panics [OF assms])

theorem read_exp_golomb_underflow_witness:
  "\<exists>r'. read_exp_golomb cursor_read (bit_reader_new (cursor_new
     (replicate 8 0 @ 128 # replicate 8 0))) = (Inl (Panic ''sub overflow''), r')"
proof (rule read_exp_golomb_underflow [of 64 _ "replicate 7 False"])
  have "bits_of 8 (0 :: u8) = replicate 8 False" "bits_of 8 (128 :: u8) = True # replicate 7 False"
    by code_simp+
  then show "rest_bits cursor_rest (bit_reader_new (cursor_new (replicate 8 0 @ 128 # replicate 8 0))) =
      replicate 64 False @ True # replicate 64 False @ replicate 7 False"
    by (simp add: numeral_eq_Suc)
qed simp_all

end
