(* ===== verification/Nal_Emulation.thy ===== *)
theory Nal_Emulation
  imports Bit_Writer "HOL-Library.Sublist"
begin

text \<open>
  \<open>EmulationPreventionIo\<close> (\<open>crates/bytes-util/src/nal_emulation_prevention.rs\<close>): a reader
  that removes, and a writer that inserts, the emulation prevention bytes \<open>03\<close> of a NAL
  unit. \<open>escape\<close> and \<open>unescape\<close> are the byte-string functions it computes; the wrapper of a
  byte source is again a byte source, that of a byte sink again a byte sink.
\<close>

subsection \<open>The wrapper\<close>

record 'i ep_io =
  ep_inner :: 'i
  zero_count :: u8

definition ep_new :: "'i \<Rightarrow> 'i ep_io" where
  "ep_new i = \<lparr>ep_inner = i, zero_count = 0\<rparr>"

definition ep_run :: "('i, 'a) io \<Rightarrow> ('i ep_io, 'a) io" where
  "ep_run m s = (case m (ep_inner s) of (x, i) \<Rightarrow> (x, s\<lparr>ep_inner := i\<rparr>))"

definition set_zero_count :: "u8 \<Rightarrow> ('i ep_io, unit) io" where
  "set_zero_count n s = (Inr (), s\<lparr>zero_count := n\<rparr>)"

definition get_zero_count :: "('i ep_io, u8) io" where
  "get_zero_count s = (Inr (zero_count s), s)"

text \<open>\<open>self.zero_count += 1\<close> on a \<open>u8\<close>\<close>

definition count_zero :: "('i ep_io, unit) io" where
  "count_zero = bnd get_zero_count (\<lambda>z. bnd (lift_res (checked_add z 1)) set_zero_count)"

definition ep_write_byte :: "'i write_fn \<Rightarrow> u8 \<Rightarrow> ('i ep_io, unit) io" where
  "ep_write_byte wr byte =
     bnd get_zero_count (\<lambda>z.
     bnd (if z \<ge> 2 \<and> byte \<le> 3
          then bnd (ep_run (write_all wr [3])) (\<lambda>_. set_zero_count 0) else ret ()) (\<lambda>_.
     bnd (ep_run (write_all wr [byte])) (\<lambda>_.
     if byte = 0 then count_zero else set_zero_count 0)))"

definition ep_write :: "'i write_fn \<Rightarrow> 'i ep_io write_fn" where
  "ep_write wr buf = bnd (each_io (ep_write_byte wr) buf) (\<lambda>_. ret (length buf))"

text \<open>
  The loop of \<open>read\<close>, for a buffer with room for \<open>n\<close> more bytes. A dropped byte makes no
  room smaller, but resets the zero count, so that the next byte is not dropped.
\<close>

function ep_read :: "'i read_fn \<Rightarrow> 'i ep_io read_fn" where
  "ep_read rd n s =
     (if n = 0 then (Inr [], s)
      else case ep_run (rd 1) s of
        (Inl e, s) \<Rightarrow> (Inl e, s)
      | (Inr [], s) \<Rightarrow> (Inr [], s)
      | (Inr (byte # _), t) \<Rightarrow>
          (if byte = 3 \<and> zero_count t \<ge> 2 then ep_read rd n (t\<lparr>zero_count := 0\<rparr>)
           else case (if byte = 0 then count_zero else set_zero_count 0) t of
               (Inl e, u) \<Rightarrow> (Inl e, u)
             | (Inr _, u) \<Rightarrow>
                 (case ep_read rd (n - 1) u of
                    (Inl e, u) \<Rightarrow> (Inl e, u)
                  | (Inr bs, u) \<Rightarrow> (Inr (byte # bs), u))))"
  by pat_completeness auto
termination
  by (relation "measures [\<lambda>(rd, n, s). n, \<lambda>(rd, n, s). if zero_count s \<ge> 2 then 1 else 0]")
    (auto simp: ep_run_def split: prod.splits)

declare ep_read.simps [simp del]

lemma ep_read_keep:
  assumes "n \<noteq> 0" and "rd 1 (ep_inner s) = (Inr (b # bs), i)"
    and "\<not> (b = 3 \<and> 2 \<le> zero_count s)"
    and "(if b = 0 then count_zero else set_zero_count 0) (s\<lparr>ep_inner := i\<rparr>) = (Inr (), u)"
    and "ep_read rd (n - 1) u = (Inr cs, v)"
  shows "ep_read rd n s = (Inr (b # cs), v)"
  using assms by (cases "b = 0") (auto simp add: ep_read.simps [of rd n s] ep_run_def)

subsection \<open>The byte strings\<close>

fun escape :: "nat \<Rightarrow> u8 list \<Rightarrow> u8 list" where
  "escape z [] = []"
| "escape z (b # bs) =
     (if 2 \<le> z \<and> b \<le> 3 then 3 # b # escape (if b = 0 then 1 else 0) bs
      else b # escape (if b = 0 then z + 1 else 0) bs)"

fun zeros_after :: "nat \<Rightarrow> u8 list \<Rightarrow> nat" where
  "zeros_after z [] = z"
| "zeros_after z (b # bs) =
     zeros_after (if b = 0 then (if 2 \<le> z then 1 else z + 1) else 0) bs"

fun unescape :: "nat \<Rightarrow> u8 list \<Rightarrow> u8 list" where
  "unescape z [] = []"
| "unescape z (b # bs) =
     (if b = 3 \<and> 2 \<le> z then unescape 0 bs
      else b # unescape (if b = 0 then z + 1 else 0) bs)"

text \<open>No run of zeros overflows the zero count of the reader.\<close>

fun zero_runs_ok :: "nat \<Rightarrow> u8 list \<Rightarrow> bool" where
  "zero_runs_ok z [] = True"
| "zero_runs_ok z (b # bs) =
     (if b = 3 \<and> 2 \<le> z then zero_runs_ok 0 bs
      else if b = 0 then z + 1 < 256 \<and> zero_runs_ok (z + 1) bs
      else zero_runs_ok 0 bs)"

lemma unescape_escape: "unescape z (escape z bs) = bs"
  by (induction z bs rule: escape.induct) auto

lemma escape_append: "escape z (as @ bs) = escape z as @ escape (zeros_after z as) bs"
  by (induction z as rule: escape.induct) (auto simp: word_le_nat_alt)

lemma zeros_after_append: "zeros_after z (as @ bs) = zeros_after (zeros_after z as) bs"
  by (induction z as rule: zeros_after.induct) auto

lemma zeros_after_le: "z \<le> 2 \<Longrightarrow> zeros_after z bs \<le> 2"
  by (induction z bs rule: zeros_after.induct) auto

lemma zero_runs_ok_escape: "z \<le> 2 \<Longrightarrow> zero_runs_ok z (escape z bs)"
  by (induction z bs rule: escape.induct) auto

text \<open>A start code cannot appear in escaped data, nor at a border to zeros before it.\<close>

fun no_start_code :: "nat \<Rightarrow> u8 list \<Rightarrow> bool" where
  "no_start_code z [] = True"
| "no_start_code z (b # bs) =
     ((2 \<le> z \<longrightarrow> 3 \<le> b) \<and> no_start_code (if b = 0 then z + 1 else 0) bs)"

lemma no_start_code_escape: "z \<le> 2 \<Longrightarrow> no_start_code z (escape z bs)"
  by (induction z bs rule: escape.induct) auto

lemma no_start_code_mono: "no_start_code z bs \<Longrightarrow> z' \<le> z \<Longrightarrow> no_start_code z' bs"
  by (induction z bs arbitrary: z' rule: no_start_code.induct) (auto split: if_splits)

lemma no_start_code_append:
  "no_start_code z (as @ bs) \<Longrightarrow> no_start_code 0 bs"
  by (induction z as rule: no_start_code.induct) (auto intro: no_start_code_mono)

lemma no_start_code_sublist: "no_start_code 0 bs \<Longrightarrow> x < 3 \<Longrightarrow> \<not> sublist [0, 0, x] bs"
  by (auto simp: sublist_def dest!: no_start_code_append split: if_splits)

subsection \<open>The reader delivers the unescaped bytes\<close>

definition ep_unread :: "('i \<Rightarrow> u8 list) \<Rightarrow> 'i ep_io \<Rightarrow> u8 list" where
  "ep_unread unread s = unescape (unat (zero_count s)) (unread (ep_inner s))"

definition ep_source_ok :: "('i \<Rightarrow> u8 list) \<Rightarrow> ('i \<Rightarrow> bool) \<Rightarrow> 'i ep_io \<Rightarrow> bool" where
  "ep_source_ok unread ok s \<longleftrightarrow>
     ok (ep_inner s) \<and> zero_runs_ok (unat (zero_count s)) (unread (ep_inner s))"

lemma count_zero_run:
  "unat (zero_count s) + 1 < 256 \<Longrightarrow>
     count_zero s = (Inr (), s\<lparr>zero_count := zero_count s + 1\<rparr>) \<and>
     unat (zero_count s + 1) = unat (zero_count s) + 1"
  by (simp add: count_zero_def get_zero_count_def bnd_def run_simps checked_add_def
      set_zero_count_def unat_word_ariths)

context byte_source
begin

lemma read_one:
  assumes "ok s"
  shows "\<exists>s'. rd 1 s = (Inr (take 1 (unread s)), s') \<and> unread s' = drop 1 (unread s) \<and> ok s'"
proof -
  from read_some [OF assms, of 1] obtain k s' where "rd 1 s = (Inr (take k (unread s)), s')"
    "k \<le> 1" "unread s \<noteq> [] \<longrightarrow> 0 < k" "unread s' = drop k (unread s)" "ok s'" by auto
  then show ?thesis by (cases "unread s = []") (auto simp: le_Suc_eq)
qed

lemma ep_read_ok:
  assumes "ep_source_ok unread ok s"
  shows "\<exists>s'. ep_read rd n s = (Inr (take n (ep_unread unread s)), s') \<and>
    ep_unread unread s' = drop n (ep_unread unread s) \<and> ep_source_ok unread ok s'"
  using assms
proof (induction "unread (ep_inner s)" arbitrary: s n)
  case Nil
  then have u: "unread (ep_inner s) = []" by simp
  with Nil.prems read_one [of "ep_inner s"] obtain i
    where "rd 1 (ep_inner s) = (Inr [], i)" "unread i = []" "ok i"
    by (auto simp: ep_source_ok_def)
  then show ?case
    using Nil.prems u
    by (auto simp: ep_read.simps [of rd n] ep_run_def ep_unread_def ep_source_ok_def)
next
  case (Cons b bs)
  then have u: "unread (ep_inner s) = b # bs" by simp
  with Cons.prems read_one [of "ep_inner s"] obtain i
    where i: "rd 1 (ep_inner s) = (Inr [b], i)" "unread i = bs" "ok i"
    by (auto simp: ep_source_ok_def)
  let ?z = "unat (zero_count s)"
  show ?case
  proof (cases "n = 0")
    case True
    with Cons.prems show ?thesis by (intro exI [of _ s]) (simp add: ep_read.simps [of rd 0])
  next
    case n: False
    show ?thesis
    proof (cases "b = 3 \<and> 2 \<le> zero_count s")
      case True
      then have "2 \<le> ?z" by (simp add: word_le_nat_alt)
      let ?t = "s\<lparr>ep_inner := i, zero_count := 0\<rparr>"
      have "ep_source_ok unread ok ?t" "ep_unread unread ?t = ep_unread unread s"
        using Cons.prems u i True \<open>2 \<le> ?z\<close> by (simp_all add: ep_source_ok_def ep_unread_def)
      with Cons.hyps(1) [of ?t n] i n True show ?thesis
        by (auto simp: ep_read.simps [of rd n s] ep_run_def)
    next
      case False
      let ?z' = "if b = 0 then zero_count s + 1 else 0"
      let ?t = "s\<lparr>ep_inner := i, zero_count := ?z'\<rparr>"
      have nz: "\<not> (b = 3 \<and> 2 \<le> ?z)" using False by (simp add: word_le_nat_alt)
      have z': "unat ?z' = (if b = 0 then ?z + 1 else 0)"
        using Cons.prems u nz count_zero_run [of s] by (auto simp: ep_source_ok_def)
      have step: "(if b = 0 then count_zero else set_zero_count 0) (s\<lparr>ep_inner := i\<rparr>) = (Inr (), ?t)"
        using Cons.prems u nz count_zero_run [of "s\<lparr>ep_inner := i\<rparr>"]
        by (auto simp: ep_source_ok_def set_zero_count_def)
      have t: "ep_source_ok unread ok ?t" "ep_unread unread s = b # ep_unread unread ?t"
        using Cons.prems u i nz z' by (auto simp: ep_source_ok_def ep_unread_def)
      from Cons.hyps(1) [of ?t "n - 1"] i t(1) obtain v
        where v: "ep_read rd (n - 1) ?t = (Inr (take (n - 1) (ep_unread unread ?t)), v)"
          "ep_unread unread v = drop (n - 1) (ep_unread unread ?t)" "ep_source_ok unread ok v"
        by auto
      have "ep_read rd n s = (Inr (b # take (n - 1) (ep_unread unread ?t)), v)"
        using n i False step v(1)
        by (intro ep_read_keep) simp_all
      with v n show ?thesis
        unfolding t(2) by (cases n) auto
    qed
  qed
qed

lemma ep_source: "byte_source (ep_read rd) (ep_unread unread) (ep_source_ok unread ok)"
proof
  fix s n
  assume "ep_source_ok unread ok s"
  from ep_read_ok [OF this, of n]
  show "\<exists>k s'. ep_read rd n s = (Inr (take k (ep_unread unread s)), s') \<and> k \<le> n \<and>
      k \<le> length (ep_unread unread s) \<and> (0 < n \<and> ep_unread unread s \<noteq> [] \<longrightarrow> 0 < k) \<and>
      ep_unread unread s' = drop k (ep_unread unread s) \<and> ep_source_ok unread ok s'"
    by (intro exI [of _ "min n (length (ep_unread unread s))"]) (auto simp: min_def)
qed

end

interpretation ep_cur: byte_source "ep_read cursor_read" "ep_unread cursor_rest"
    "ep_source_ok cursor_rest (\<lambda>_. True)"
  by (rule cur.ep_source)

subsection \<open>The writer writes the escaped bytes\<close>

definition ep_app :: "('i \<Rightarrow> u8 list \<Rightarrow> 'i) \<Rightarrow> 'i ep_io \<Rightarrow> u8 list \<Rightarrow> 'i ep_io" where
  "ep_app app s bs = s\<lparr>ep_inner := app (ep_inner s) (escape (unat (zero_count s)) bs),
     zero_count := of_nat (zeros_after (unat (zero_count s)) bs)\<rparr>"

definition ep_sink_ok :: "('i \<Rightarrow> bool) \<Rightarrow> 'i ep_io \<Rightarrow> bool" where
  "ep_sink_ok ok s \<longleftrightarrow> ok (ep_inner s) \<and> zero_count s \<le> 2"

lemma unat_zeros_after:
  "(z :: u8) \<le> 2 \<Longrightarrow> unat (of_nat (zeros_after (unat z) bs) :: u8) = zeros_after (unat z) bs"
  using zeros_after_le [of "unat z" bs]
  by (simp add: word_le_nat_alt unat_of_nat)

context byte_sink
begin

lemma ep_app_Nil: "ep_sink_ok ok s \<Longrightarrow> ep_app app s [] = s"
  by (simp add: ep_app_def ep_sink_ok_def app_Nil)

lemma ep_app_app: "ep_sink_ok ok s \<Longrightarrow> ep_app app (ep_app app s as) bs = ep_app app s (as @ bs)"
  by (simp add: ep_app_def ep_sink_ok_def app_app escape_append zeros_after_append unat_zeros_after)

lemma ep_sink_ok_app: "ep_sink_ok ok s \<Longrightarrow> ep_sink_ok ok (ep_app app s bs)"
  using zeros_after_le [of "unat (zero_count s)" bs]
  by (auto simp: ep_app_def ep_sink_ok_def ok_app word_le_nat_alt unat_of_nat)

lemma ep_write_byte_ok:
  assumes "ep_sink_ok ok s"
  shows "ep_write_byte wr b s = (Inr (), ep_app app s [b])"
proof -
  have ok: "ok (ep_inner s)" and z: "unat (zero_count s) \<le> 2"
    using assms by (simp_all add: ep_sink_ok_def word_le_nat_alt)
  show ?thesis
  proof (cases "2 \<le> zero_count s \<and> b \<le> 3")
    case True
    then have "2 \<le> unat (zero_count s)" by (simp add: word_le_nat_alt)
    with True ok show ?thesis
      by (simp add: ep_write_byte_def get_zero_count_def set_zero_count_def ep_run_def bnd_def
          write_all_ok ok_app app_app count_zero_run ep_app_def run_simps)
  next
    case False
    then have "\<not> (2 \<le> unat (zero_count s) \<and> b \<le> 3)" by (simp add: word_le_nat_alt)
    moreover have "b = 0 \<Longrightarrow> \<not> 2 \<le> unat (zero_count s)"
      using False by (auto simp: word_le_nat_alt)
    moreover have "unat (zero_count s) + 1 < 256" using z by simp
    ultimately show ?thesis
      using False ok
      by (auto simp: ep_write_byte_def get_zero_count_def set_zero_count_def ep_run_def bnd_def
          write_all_ok ok_app count_zero_run ep_app_def run_simps word_unat_eq_iff unat_of_nat
          add.commute)
  qed
qed

lemma ep_write_ok: "ep_sink_ok ok s \<Longrightarrow> ep_write wr bs s = (Inr (length bs), ep_app app s bs)"
proof -
  have "ep_sink_ok ok s \<Longrightarrow> each_io (ep_write_byte wr) bs s = (Inr (), ep_app app s bs)"
  proof (induction bs arbitrary: s)
    case Nil
    then show ?case by (simp add: ep_app_Nil run_simps)
  next
    case (Cons b bs)
    from Cons.IH [OF ep_sink_ok_app [OF Cons.prems]] show ?case
      by (simp add: ep_write_byte_ok [OF Cons.prems] ep_app_app [OF Cons.prems])
  qed
  then show "ep_sink_ok ok s \<Longrightarrow> ep_write wr bs s = (Inr (length bs), ep_app app s bs)"
    by (simp add: ep_write_def run_simps)
qed

lemma ep_sink: "byte_sink (ep_write wr) (ep_app app) (ep_sink_ok ok)"
  by unfold_locales (simp_all add: ep_write_ok ep_app_Nil ep_app_app ep_sink_ok_app)

end

interpretation ep_vec: byte_sink "ep_write vec_write" "ep_app (@)" "ep_sink_ok (\<lambda>_. True)"
  by (rule vec.ep_sink)

subsection \<open>The properties of the code\<close>

text \<open>
  C5. Any bytes written through an \<open>EmulationPreventionIo\<close> over a \<open>Vec<u8>\<close> come back
  unchanged when the written data is read through an \<open>EmulationPreventionIo\<close>: the bytes
  inserted by the writer, and only they, are removed by the reader.
\<close>

theorem emulation_prevention_roundtrip:
  "\<exists>s s'. write_all (ep_write vec_write) bs (ep_new []) = (Inr (), s) \<and>
     read_exact (ep_read cursor_read) (length bs) (ep_new (cursor_new (ep_inner s))) = (Inr bs, s') \<and>
     ep_unread cursor_rest s' = []"
proof -
  let ?w = "ep_app (@) (ep_new []) bs"
  let ?r = "ep_new (cursor_new (ep_inner ?w))"
  have "ep_sink_ok (\<lambda>_. True) (ep_new [])" by (simp add: ep_sink_ok_def ep_new_def)
  then have w: "write_all (ep_write vec_write) bs (ep_new []) = (Inr (), ?w)"
    by (rule ep_vec.write_all_ok)
  have "ep_inner ?w = escape 0 bs" by (simp add: ep_app_def ep_new_def)
  then have ok: "ep_source_ok cursor_rest (\<lambda>_. True) ?r"
    and r: "ep_unread cursor_rest ?r = bs"
    by (simp_all add: ep_source_ok_def ep_unread_def ep_new_def zero_runs_ok_escape unescape_escape)
  from ep_cur.read_exact_ok [OF ok, of "length bs"] r w show ?thesis
    by auto
qed

text \<open>
  C39. What the writer puts into the underlying buffer never contains a NAL start code
  prefix or one of the other forbidden three-byte patterns: no \<open>00 00\<close> is followed by a
  byte below \<open>03\<close>.
\<close>

theorem emulation_prevention_no_start_code:
  assumes "write_all (ep_write vec_write) bs (ep_new []) = (x, s)" and "b < 3"
  shows "\<not> sublist [0, 0, b] (ep_inner s)"
proof -
  have "ep_sink_ok (\<lambda>_. True) (ep_new [])" by (simp add: ep_sink_ok_def ep_new_def)
  from ep_vec.write_all_ok [OF this, of bs] assms(1) have "ep_inner s = escape 0 bs"
    by (auto simp: ep_app_def ep_new_def)
  with no_start_code_sublist [OF no_start_code_escape assms(2)] show ?thesis
    by simp
qed

theorem emulation_prevention_no_start_code_witness:
  "\<exists>s. write_all (ep_write vec_write) [0, 0, 1] (ep_new []) = (Inr (), s) \<and> ep_inner s = [0, 0, 3, 1] \<and>
    \<not> sublist [0, 0, 1] (ep_inner s)"
proof -
  let ?s = "ep_app (@) (ep_new []) [0, 0, 1]"
  have "ep_sink_ok (\<lambda>_. True) (ep_new [])" by (simp add: ep_sink_ok_def ep_new_def)
  then have w: "write_all (ep_write vec_write) [0, 0, 1] (ep_new []) = (Inr (), ?s)"
    by (rule ep_vec.write_all_ok)
  from emulation_prevention_no_start_code [OF this, of 1] show ?thesis
    unfolding w by (simp add: ep_app_def ep_new_def)
qed

text \<open>
  The reader counts zeros in a \<open>u8\<close> that it never caps: 256 zero bytes in a row, which
  no NAL unit contains but damaged input may, overflow the counter.
\<close>

theorem emulation_prevention_zero_run_panics:
  assumes "256 \<le> n"
  shows "\<exists>s'. ep_read cursor_read n (ep_new (cursor_new (replicate 256 0))) =
    (Inl (Panic ''add overflow''), s')"
proof -
  have "\<exists>s'. ep_read cursor_read n s = (Inl (Panic ''add overflow''), s')"
    if "k + unat (zero_count s) = 255" "cursor_rest (ep_inner s) = replicate (Suc k) 0" "k < n"
    for k n s
    using that
  proof (induction k arbitrary: n s)
    case 0
    then obtain i where i: "cursor_read 1 (ep_inner s) = (Inr [0], i)"
      using cur.read_one [of "ep_inner s"] by auto
    with 0 show ?case
      by (simp add: ep_read.simps [of _ n s] ep_run_def count_zero_def get_zero_count_def bnd_def
          run_simps checked_add_def)
  next
    case (Suc k)
    then obtain i where i: "cursor_read 1 (ep_inner s) = (Inr [0], i)"
      "cursor_rest i = replicate (Suc k) 0"
      using cur.read_one [of "ep_inner s"] by auto
    let ?t = "s\<lparr>ep_inner := i, zero_count := zero_count s + 1\<rparr>"
    have c: "count_zero (s\<lparr>ep_inner := i\<rparr>) = (Inr (), ?t)" "unat (zero_count s + 1) = unat (zero_count s) + 1"
      using count_zero_run [of "s\<lparr>ep_inner := i\<rparr>"] Suc.prems(1) by simp_all
    have "k < n - 1" using Suc.prems(3) by simp
    with c Suc.IH [of ?t "n - 1"] Suc.prems i obtain s'
      where "ep_read cursor_read (n - 1) ?t = (Inl (Panic ''add overflow''), s')" by auto
    with i c Suc.prems show ?case
      by (simp add: ep_read.simps [of _ n s] ep_run_def)
  qed
  from this [of 255 "ep_new (cursor_new (replicate 256 0))" n] assms show ?thesis
    by (simp add: ep_new_def)
qed

theorem emulation_prevention_zero_run_panics_witness:
  "\<exists>s'. ep_read cursor_read 256 (ep_new (cursor_new (replicate 256 0))) =
    (Inl (Panic ''add overflow''), s')"
  by (rule emulation_prevention_zero_run_panics) simp

end
