(* ===== verification/Coding.thy ===== *)
theory Coding
  imports Exp_Golomb Nal_Emulation
begin

text \<open>
  The automation of the codec theories. A parser is a chain of \<open>bnd\<close>s over the reads of
  the bit reader, and the bit string of a value is a chain of appends in the same order;
  the \<open>coding\<close> rules below, as conditional rewrite rules, let the simplifier walk down both
  chains at once and leave the equality of the parsed value with the original. The rules
  for writers do the same for \<open>emits\<close>.
\<close>

named_theorems yielding
  \<comment> \<open>rules that step over one read when bounding what a parser can return\<close>

named_theorems coding
  \<comment> \<open>rules that decode or emit one syntax element\<close>

subsection \<open>Casts\<close>

lemma ucast_ucast_id [simp]:
  "LENGTH('b::len) \<le> LENGTH('a::len) \<Longrightarrow> ucast (ucast (w :: 'b word) :: 'a word) = w"
  by (rule bit_word_eqI) (auto simp: bit_ucast_iff)

text \<open>A narrower integer, widened by \<open>as u64\<close> and compared.\<close>

lemma ucast_u64_le [simp]:
  "LENGTH('b::len) \<le> 64 \<Longrightarrow> (ucast (w :: 'b word) :: u64) \<le> x \<longleftrightarrow> unat w \<le> unat x"
  by (simp add: word_le_nat_alt unat_ucast_up)

lemma eg_ok_ucast [simp]: "LENGTH('b::len) < 64 \<Longrightarrow> eg_ok (ucast (w :: 'b word))"
proof -
  assume a: "LENGTH('b) < 64"
  then have "unat (ucast w :: u64) = unat w" by (simp add: unat_ucast_up)
  moreover have "unat w < 2 ^ 63" using a by (intro unat_less_up) simp
  ultimately show ?thesis by (simp add: eg_ok_unat)
qed

lemma unat_u16 [simp]: "unat (w :: u16) < 65536"
  using unsigned_less [of w] by simp

lemma unat_u32 [simp]: "unat (w :: u32) < 4294967296"
  using unsigned_less [of w] by simp

subsection \<open>Decoding\<close>

text \<open>
  The steps of a decoder, for any reader: \<open>decodes_end\<close> closes the chain, the others
  peel off one element.
\<close>

lemma decodes_end [coding]: "x = y \<Longrightarrow> decodes bits ok (ret x) [] y"
  by (simp add: decodes_ret)

text \<open>A decoder whose result is taken apart.\<close>

lemma decodes_bnd_pair:
  "decodes bits ok m as (x, y) \<Longrightarrow> decodes bits ok (f x y) bs z \<Longrightarrow>
     decodes bits ok (bnd m (\<lambda>(a, b). f a b)) (as @ bs) z"
  using decodes_bnd [of bits ok m as "(x, y)" "\<lambda>(a, b). f a b"] by simp

lemma decodes_bnd_triple:
  "decodes bits ok m as (x, y, w) \<Longrightarrow> decodes bits ok (f x y w) bs z \<Longrightarrow>
     decodes bits ok (bnd m (\<lambda>(a, b, c). f a b c)) (as @ bs) z"
  using decodes_bnd [of bits ok m as "(x, y, w)" "\<lambda>(a, b, c). f a b c"] by simp

lemma decodes_guard [coding]:
  "b \<Longrightarrow> decodes bits ok (f ()) bs y \<Longrightarrow> decodes bits ok (bnd (guard b e) f) bs y"
  by (simp add: bnd_guard)

lemma decodes_range_check [coding]:
  "lo \<le> n \<Longrightarrow> n \<le> hi \<Longrightarrow> decodes bits ok (f ()) bs y \<Longrightarrow>
     decodes bits ok (bnd (range_check n lo hi w) f) bs y"
  by (simp add: bnd_range_check)

lemma decodes_lift [coding]:
  "decodes bits ok (f a) bs y \<Longrightarrow> decodes bits ok (bnd (lift_res (Inr a)) f) bs y"
  by simp

lemma decodes_assoc [coding]:
  "decodes bits ok (bnd m (\<lambda>a. bnd (f a) g)) bs y \<Longrightarrow> decodes bits ok (bnd (bnd m f) g) bs y"
  by (simp add: bnd_assoc)

context byte_source
begin

text \<open>A reader that is on a byte boundary has whole bytes left, and conversely.\<close>

lemma aligned_iff: "reader_ok ok r \<Longrightarrow> is_aligned r \<longleftrightarrow> 8 dvd length (rest_bits unread r)"
  by (auto simp: is_aligned_def reader_ok_def rest_bits_def) presburger

lemma with_bit_reader_whole:
  assumes "dec m bs x" and "ok s" and "8 dvd length bs" and "unread s = pack_bits bs @ rest"
  shows "\<exists>r. m (bit_reader_new s) = (Inr x, r) \<and> is_aligned r \<and> unread (data r) = rest \<and> ok (data r)"
proof -
  have "byte_bits (unread s) = bs @ byte_bits rest"
    using assms(3,4) by (simp add: byte_bits_pack_whole)
  then obtain r where r: "m (bit_reader_new s) = (Inr x, r)" "rest_bits unread r = byte_bits rest"
      "reader_ok ok r"
    using assms(1,2) by (auto elim: decodesE [where s = "bit_reader_new s"])
  then have al: "is_aligned r" by (simp add: aligned_iff)
  with r(2) have "unread (data r) = rest" by (simp add: rest_bits_def is_aligned_def)
  with r al show ?thesis by (auto simp: reader_ok_def)
qed

lemma dec_field:
  "n \<le> 64 \<Longrightarrow> LENGTH('b) \<le> 64 \<Longrightarrow> unat (w :: 'b::len word) < 2 ^ n \<Longrightarrow>
     dec (read_bits rd n) (bits_of n w) (ucast w)"
  using dec_read_bits [of "bits_of n w" n] by (simp add: take_bit_ucast_id)

lemma dec_bit_step [coding]: "dec (f b) bs y \<Longrightarrow> dec (bnd (read_bit rd) f) (b # bs) y"
  using decodes_bnd [OF dec_read_bit, where f = f] by fastforce

lemma dec_bit_last [coding]: "dec (f b) [] y \<Longrightarrow> dec (bnd (read_bit rd) f) [b] y"
  by (rule dec_bit_step)

lemmas dec_field_step [coding] = decodes_bnd [OF dec_field] decodes_last [OF dec_field]
lemmas dec_eg_step [coding] = decodes_bnd [OF dec_read_exp_golomb] decodes_last [OF dec_read_exp_golomb]
lemmas dec_signed_eg_step [coding] = decodes_bnd [OF dec_read_signed_exp_golomb] decodes_last [OF dec_read_signed_exp_golomb]

lemma dec_bo_u8:
  assumes "byteorder_reads (bit_reader_read rd) bo"
  shows "dec (bo_u8 bo) (bits_of 8 w) w"
  using assms dec_be_read [of "bits_of 8 w" 1, where 'a = 8]
  by (simp add: byteorder_reads_def take_bit_word_eq_self)

lemma dec_bo_u16:
  assumes "byteorder_reads (bit_reader_read rd) bo"
  shows "dec (bo_u16 bo) (bits_of 16 w) w"
  using assms dec_be_read [of "bits_of 16 w" 2, where 'a = 16]
  by (simp add: byteorder_reads_def take_bit_word_eq_self)

lemma dec_bo_u32:
  assumes "byteorder_reads (bit_reader_read rd) bo"
  shows "dec (bo_u32 bo) (bits_of 32 w) w"
  using assms dec_be_read [of "bits_of 32 w" 4, where 'a = 32]
  by (simp add: byteorder_reads_def take_bit_word_eq_self)

lemma dec_bo_u48:
  assumes "byteorder_reads (bit_reader_read rd) bo" and "unat w < 2 ^ 48"
  shows "dec (bo_u48 bo) (bits_of 48 w) w"
  using assms dec_be_read [of "bits_of 48 w" 6, where 'a = 64]
  take_bit_ucast_id [of w 48, where 'a = 64]
  by (simp add: byteorder_reads_def)

lemmas dec_bo_step [coding] =
  decodes_bnd [OF dec_bo_u8] decodes_bnd [OF dec_bo_u16] decodes_bnd [OF dec_bo_u32] decodes_bnd [OF dec_bo_u48]
  decodes_last [OF dec_bo_u8] decodes_last [OF dec_bo_u16] decodes_last [OF dec_bo_u32] decodes_last [OF dec_bo_u48]

end

lemma decodes_map_err: "decodes bits ok m bs x \<Longrightarrow> decodes bits ok (map_err f m) bs x"
  by (fastforce simp: decodes_def map_err_def)

subsection \<open>Decoding bytes\<close>

text \<open>
  The same calculus for code that reads whole bytes from a source: the bits to come are
  those of the unread bytes.
\<close>

context byte_source
begin

abbreviation sdec :: "('s, 'e, 'a) act \<Rightarrow> u8 list \<Rightarrow> 'a \<Rightarrow> bool" where
  "sdec m bs x \<equiv> decodes (\<lambda>s. byte_bits (unread s)) ok m (byte_bits bs) x"

lemma sdec_bnd: "sdec m as x \<Longrightarrow> sdec (f x) bs y \<Longrightarrow> sdec (bnd m f) (as @ bs) y"
  using decodes_bnd [of "\<lambda>s. byte_bits (unread s)" ok m "byte_bits as" x f "byte_bits bs" y] by simp

lemma sdec_ret: "sdec (ret x) [] x"
  by (simp add: decodes_ret)

lemma sdec_last: "sdec m as x \<Longrightarrow> sdec (f x) [] y \<Longrightarrow> sdec (bnd m f) as y"
  using sdec_bnd [of m as x f "[]"] by simp

lemma sdec_Cons: "sdec m [b] x \<Longrightarrow> sdec (f x) bs y \<Longrightarrow> sdec (bnd m f) (b # bs) y"
  using sdec_bnd [of m "[b]" x f bs] by simp

lemma sdecI:
  assumes "\<And>s rest. ok s \<Longrightarrow> unread s = bs @ rest \<Longrightarrow> \<exists>s'. m s = (Inr x, s') \<and> unread s' = rest \<and> ok s'"
  shows "sdec m bs x"
proof (rule decodesI)
  fix s rest
  assume ok: "ok s" and "byte_bits (unread s) = byte_bits bs @ rest"
  then obtain vs where "unread s = bs @ vs" "rest = byte_bits vs" using byte_bits_prefix by blast
  with assms [OF ok] show "\<exists>s'. m s = (Inr x, s') \<and> byte_bits (unread s') = rest \<and> ok s'" by auto
qed

lemma sdecE:
  assumes "sdec m bs x" and "ok s" and "unread s = bs @ rest"
  obtains s' where "m s = (Inr x, s')" "unread s' = rest" "ok s'"
  using decodesE [OF assms(1,2), of "byte_bits rest"] assms(3) by auto

lemma sdec_read_exact: "length bs = n \<Longrightarrow> sdec (read_exact rd n) bs bs"
proof (rule sdecI)
  fix s rest
  assume "length bs = n" "ok s" "unread s = bs @ rest"
  with read_exact_ok [of s n] show "\<exists>s'. read_exact rd n s = (Inr bs, s') \<and> unread s' = rest \<and> ok s'"
    by auto
qed

lemma sdec_be_read: "length bs = n \<Longrightarrow> sdec (be_read rd n) bs (of_bits (byte_bits bs))"
  unfolding be_read_def by (rule sdec_last [OF sdec_read_exact]) (simp_all add: decodes_ret)

lemma sdec_bo:
  assumes "byteorder_reads rd bo"
  shows "sdec (bo_u8 bo) [b] b"
    and "sdec (bo_u16 bo) (pack_bits (bits_of 16 v)) v"
    and "sdec (bo_u24 bo) (pack_bits (bits_of 24 u)) (take_bit 24 u)"
    and "sdec (bo_u32 bo) (pack_bits (bits_of 32 w)) w"
  using assms sdec_be_read [of "[b]" 1, where 'a = 8]
    sdec_be_read [of "pack_bits (bits_of 16 v)" 2, where 'a = 16]
    sdec_be_read [of "pack_bits (bits_of 24 u)" 3, where 'a = 32]
    sdec_be_read [of "pack_bits (bits_of 32 w)" 4, where 'a = 32]
  by (simp_all add: byteorder_reads_def byte_bits_pack_whole length_pack_whole take_bit_word_eq_self)

lemma sdec_times:
  assumes "\<And>x. x \<in> set xs \<Longrightarrow> sdec m (enc x) x"
  shows "sdec (times_io (length xs) m) (concat (map enc xs)) xs"
proof -
  have "byte_bits (concat (map enc xs)) = concat (map (\<lambda>x. byte_bits (enc x)) xs)"
    by (induction xs) simp_all
  with decodes_times [of xs "\<lambda>s. byte_bits (unread s)" ok m "\<lambda>x. byte_bits (enc x)"] assms
  show ?thesis by simp
qed

text \<open>A decoder that is given exactly its input.\<close>

definition decodes_all :: "('s, 'a) io \<Rightarrow> u8 list \<Rightarrow> 'a \<Rightarrow> bool" where
  "decodes_all m bs x \<longleftrightarrow> (\<forall>s. ok s \<longrightarrow> unread s = bs \<longrightarrow>
     (\<exists>s'. m s = (Inr x, s') \<and> unread s' = [] \<and> ok s'))"

lemma decodes_all_bnd: "sdec m as x \<Longrightarrow> decodes_all (f x) bs y \<Longrightarrow> decodes_all (bnd m f) (as @ bs) y"
proof -
  assume m: "sdec m as x" and f: "decodes_all (f x) bs y"
  show ?thesis unfolding decodes_all_def
  proof (intro allI impI)
    fix s
    assume "ok s" "unread s = as @ bs"
    from sdecE [OF m this] obtain t where "m s = (Inr x, t)" "unread t = bs" "ok t" .
    with f show "\<exists>s'. bnd m f s = (Inr y, s') \<and> unread s' = [] \<and> ok s'"
      by (simp add: decodes_all_def)
  qed
qed

lemma decodes_all_Cons: "sdec m [b] x \<Longrightarrow> decodes_all (f x) bs y \<Longrightarrow> decodes_all (bnd m f) (b # bs) y"
  using decodes_all_bnd [of m "[b]" x f bs] by simp

end

subsection \<open>Decoders that seek\<close>

text \<open>
  A decoder that also calls \<open>seek_bits\<close> runs on a cursor and needs its byte before the
  position: the invariant is \<open>cursor_reader_ok\<close>, which the reads keep.
\<close>

definition seekable :: "cursor bit_reader \<Rightarrow> bool" where
  "seekable r \<longleftrightarrow> cursor_reader_ok r \<and> cur_pos (data r) \<le> length (cur_data (data r)) \<and>
     length (cur_data (data r)) < 2 ^ 60"

abbreviation cdec :: "(cursor bit_reader, 'a) io \<Rightarrow> bool list \<Rightarrow> 'a \<Rightarrow> bool" where
  "cdec \<equiv> decodes (rest_bits cursor_rest) seekable"

lemma decodes_strengthen:
  assumes "decodes bits ok m bs x" and "\<And>s. ok' s \<Longrightarrow> ok s"
    and "\<And>s s'. ok' s \<Longrightarrow> m s = (Inr x, s') \<Longrightarrow> ok' s'"
  shows "decodes bits ok' m bs x"
  using assms unfolding decodes_def by metis

lemma seekable_read_bit:
  assumes "seekable r" and "read_bit cursor_read r = (Inr b, r')"
  shows "seekable r'"
proof (cases "bit_pos r = 0")
  case True
  have "rest_bits cursor_rest r \<noteq> []"
  proof
    assume "rest_bits cursor_rest r = []"
    with cur.read_bit_Nil [of r] assms show False
      by (auto simp: seekable_def reader_ok_def cursor_reader_ok_def)
  qed
  then have "cur_pos (data r) < length (cur_data (data r))"
    using True by (auto simp: rest_bits_def cursor_rest_def)
  with assms True show ?thesis
    by (auto simp: seekable_def read_bit_def is_aligned_def cursor_update_byte cursor_reader_ok_def)
next
  case False
  with assms show ?thesis
    by (auto simp: seekable_def read_bit_def is_aligned_def run_simps cursor_reader_ok_def)
qed

lemma seekable_shift_in_loop:
  "seekable r \<Longrightarrow> shift_in_loop cursor_read n w r = (Inr v, r') \<Longrightarrow> seekable r'"
  by (induction n arbitrary: w r)
    (auto simp: run_simps elim!: bnd_InrE dest: seekable_read_bit)

lemma seekable_reader_ok: "seekable r \<Longrightarrow> reader_ok (\<lambda>_. True) r"
  by (simp add: seekable_def cursor_reader_ok_def reader_ok_def)

lemma seekable_new: "length bs < 2 ^ 60 \<Longrightarrow> seekable (bit_reader_new (cursor_new bs))"
  by (simp add: seekable_def cursor_reader_ok_def bit_reader_new_def cursor_new_def)

lemma cdec_read_bit: "cdec (read_bit cursor_read) [b] b"
  by (rule decodes_strengthen [OF cur.dec_read_bit seekable_reader_ok seekable_read_bit])

lemma cdec_field:
  assumes "n \<le> 64" and "LENGTH('b) \<le> 64" and "unat (w :: 'b::len word) < 2 ^ n"
  shows "cdec (read_bits cursor_read n) (bits_of n w) (ucast w)"
  by (rule decodes_strengthen [OF cur.dec_field [OF assms] seekable_reader_ok])
    (auto simp: read_bits_def dest: seekable_shift_in_loop)

lemma cdec_bit_step [coding]: "cdec (f b) bs y \<Longrightarrow> cdec (bnd (read_bit cursor_read) f) (b # bs) y"
  using decodes_bnd [OF cdec_read_bit, where f = f] by fastforce

lemmas cdec_field_step [coding] = decodes_bnd [OF cdec_field] decodes_last [OF cdec_field]

text \<open>Skipping \<open>n\<close> bits: the position returned is dropped by the decoders.\<close>

lemma seek_bits_skip:
  assumes r: "seekable r" and bits: "rest_bits cursor_rest r = as @ rest"
  shows "\<exists>p r'. seek_bits cursor_read cursor_seek (int (length as)) r = (Inr p, r') \<and>
    rest_bits cursor_rest r' = rest \<and> seekable r'"
proof -
  let ?t = "stream_bit r + int (length as)"
  note ok = r [unfolded seekable_def]
  have rest: "rest_bits cursor_rest r = drop (nat (stream_bit r)) (byte_bits (cur_data (data r)))"
    using ok by (intro rest_bits_stream_bit) simp
  have "0 \<le> stream_bit r" and pos: "stream_bit r \<le> 8 * int (length (cur_data (data r)))"
    using ok by (auto simp: stream_bit_def cursor_reader_ok_def)
  moreover have "length (as @ rest) = length (byte_bits (cur_data (data r))) - nat (stream_bit r)"
    unfolding bits [symmetric] rest by simp
  ultimately have t: "0 \<le> ?t" "?t \<le> 8 * int (length (cur_data (data r)))"
    and n: "nat ?t = length as + nat (stream_bit r)" by auto
  have "drop (nat ?t) (byte_bits (cur_data (data r))) = drop (length as) (as @ rest)"
    by (simp only: n rest [symmetric] bits [symmetric] drop_drop [symmetric])
  with seek_bits_cursor [of r "int (length as)"] t ok show ?thesis
    unfolding seekable_def by fastforce
qed

lemma cdec_skip:
  assumes "length as = n" and "cdec f bs y"
  shows "cdec (bnd (seek_bits cursor_read cursor_seek (int n)) (\<lambda>_. f)) (as @ bs) y"
proof (rule decodesI)
  fix r rest
  assume "seekable r" and "rest_bits cursor_rest r = (as @ bs) @ rest"
  then obtain p t where t: "seek_bits cursor_read cursor_seek (int n) r = (Inr p, t)"
    "rest_bits cursor_rest t = bs @ rest" "seekable t"
    using seek_bits_skip [of r as "bs @ rest"] assms(1) by auto
  from decodesE [OF assms(2) t(3,2)] t(1)
  show "\<exists>s'. bnd (seek_bits cursor_read cursor_seek (int n)) (\<lambda>_. f) r = (Inr y, s') \<and>
      rest_bits cursor_rest s' = rest \<and> seekable s'"
    by auto
qed

lemma cdec_skip_1 [coding]:
  "cdec f bs y \<Longrightarrow> cdec (bnd (seek_bits cursor_read cursor_seek 1) (\<lambda>_. f)) (b # bs) y"
  using cdec_skip [of "[b]" 1 f bs y] by simp

lemma cdec_skip_numeral [coding]:
  "length as = numeral n \<Longrightarrow> cdec f bs y \<Longrightarrow>
     cdec (bnd (seek_bits cursor_read cursor_seek (numeral n)) (\<lambda>_. f)) (as @ bs) y"
  "length as = numeral n \<Longrightarrow> cdec f [] y \<Longrightarrow>
     cdec (bnd (seek_bits cursor_read cursor_seek (numeral n)) (\<lambda>_. f)) as y"
  using cdec_skip [of as "numeral n" f bs y] cdec_skip [of as "numeral n" f "[]" y] by simp_all

subsection \<open>Emitting\<close>

lemma emits_end [coding]: "emits app ok (ret ()) []"
  by (rule emits_ret)

lemma emits_assoc [coding]:
  "emits app ok (bnd m (\<lambda>a. bnd (f a) g)) bs \<Longrightarrow> emits app ok (bnd (bnd m f) g) bs"
  by (simp add: bnd_assoc)

context byte_sink
begin

lemma emits_bit_step [coding]: "emits app ok (f ()) bs \<Longrightarrow> emits app ok (bnd (write_bit wr b) f) (b # bs)"
  using emits_bnd [OF emits_write_bit, where f = f] by fastforce

lemma emits_const_field:
  "n \<le> 64 \<Longrightarrow> unat w < 2 ^ n \<Longrightarrow> bits_of n w = as \<Longrightarrow> emits app ok (f ()) bs \<Longrightarrow>
     emits app ok (bnd (write_bits wr w n) f) (as @ bs)"
  using emits_bnd [OF emits_write_bits] by blast

lemma emits_write_field':
  "n \<le> 64 \<Longrightarrow> LENGTH('b) \<le> 64 \<Longrightarrow> unat (w :: 'b::len word) < 2 ^ n \<Longrightarrow>
     emits app ok (write_bits wr (ucast w) n) (bits_of n w)"
  by (rule emits_write_field)

text \<open>Whole integers, at any bit position.\<close>

lemma emits_bw:
  assumes "byteorder_writes (bit_writer_write wr) bw"
  shows "emits app ok (bw_u8 bw a) (bits_of 8 a)" and "emits app ok (bw_u16 bw b) (bits_of 16 b)"
    and "emits app ok (bw_u32 bw c) (bits_of 32 c)"
    and "unat d < 2 ^ 48 \<Longrightarrow> emits app ok (bw_u48 bw d) (bits_of 48 d)"
  using assms emits_write_all [of "[a]"] emits_write_all [of "be_bytes 2 b"]
    emits_write_all [of "be_bytes 4 c"] emits_write_all [of "be_bytes 6 d"]
  by (simp_all add: byteorder_writes_def be_bytes_def byte_bits_pack_whole)

lemmas emits_bw_step [coding] = emits_bw emits_bnd [OF emits_bw(1)] emits_bnd [OF emits_bw(2)]
  emits_bnd [OF emits_bw(3)] emits_bnd [OF emits_bw(4)]

lemmas emits_leaf [coding] =
  emits_write_bit emits_write_field' emits_write_bits emits_write_exp_golomb
  emits_write_signed_exp_golomb
lemmas emits_step [coding] =
  emits_bnd [OF emits_write_field'] emits_last [OF emits_write_field']
  emits_bnd [OF emits_write_bits] emits_last [OF emits_write_bits]
  emits_bnd [OF emits_write_exp_golomb] emits_last [OF emits_write_exp_golomb]
  emits_bnd [OF emits_write_signed_exp_golomb] emits_last [OF emits_write_signed_exp_golomb]

end

subsection \<open>What a parser can return\<close>

lemma unat_ucast_le: "unat (ucast (w :: 'a::len word) :: 'b::len word) \<le> unat w"
  by (simp add: unsigned_ucast_eq take_bit_eq_mod)

lemma unat_ucast_less: "unat w < m \<Longrightarrow> unat (ucast (w :: 'a::len word) :: 'b::len word) < m"
  using unat_ucast_le [of w] by (rule le_less_trans)

lemma unat_ucast_bound: "(v :: u64) \<le> b \<Longrightarrow> unat b \<le> n \<Longrightarrow> unat (ucast v :: 'n::len word) \<le> n"
  using unat_ucast_le [of v, where 'b = 'n] by (simp add: word_le_nat_alt)

lemma shift_in_loop_of_bits:
  "shift_in_loop rd n (of_bits as :: 'n::len word) r = (Inr v, r') \<Longrightarrow>
     \<exists>bs. length bs = n \<and> v = of_bits (as @ bs)"
proof (induction n arbitrary: as r)
  case 0
  then show ?case by (simp add: run_simps)
next
  case (Suc n)
  then obtain b t where "shift_in_loop rd n (of_bits (as @ [b])) t = (Inr v, r')"
    by (auto simp: of_bits_snoc elim!: bnd_InrE)
  from Suc.IH [OF this] obtain bs where "length bs = n" "v = of_bits (as @ b # bs)" by auto
  then show ?case by (intro exI [of _ "b # bs"]) simp
qed

lemma yields_read_bits: "yields (read_bits rd n) (\<lambda>v. unat v < 2 ^ n)"
proof -
  have "unat v < 2 ^ n" if "read_bits rd n r = (Inr v, r')" for v :: u64 and r r'
  proof -
    from that obtain bs where "length bs = min n 64" "v = of_bits bs"
      using shift_in_loop_of_bits [of rd "min n 64" "[]" r v r'] by (auto simp: read_bits_def)
    then show ?thesis by (auto intro: of_bits_bound)
  qed
  then show ?thesis by (auto simp: yields_def)
qed

lemma yields_bit_step [yielding]: "(\<And>b. yields (f b) Q) \<Longrightarrow> yields (bnd (read_bit rd) f) Q"
  by (rule yields_bnd [OF yields_any])

lemma yields_bits_step [yielding]:
  "(\<And>v. unat v < 2 ^ n \<Longrightarrow> yields (f v) Q) \<Longrightarrow> yields (bnd (read_bits rd n) f) Q"
  by (rule yields_bnd [OF yields_read_bits])

lemma yields_eg_step [yielding]:
  "(\<And>v. eg_ok v \<Longrightarrow> yields (f v) Q) \<Longrightarrow> yields (bnd (read_exp_golomb rd) f) Q"
  by (rule yields_bnd [OF yields_read_exp_golomb])

lemma yields_signed_eg_step [yielding]:
  "(\<And>v. eg_signed_ok v \<Longrightarrow> yields (f v) Q) \<Longrightarrow> yields (bnd (read_signed_exp_golomb rd) f) Q"
  by (rule yields_bnd [OF yields_read_signed_exp_golomb])

lemma yields_lift_step [yielding]:
  "(\<And>a. r = Inr a \<Longrightarrow> yields (f a) Q) \<Longrightarrow> yields (bnd (lift_res r) f) Q"
  by (cases r) (simp_all add: yields_def run_simps)

lemma yields_range_check_step [yielding]:
  "(lo \<le> n \<Longrightarrow> n \<le> hi \<Longrightarrow> yields (f ()) Q) \<Longrightarrow> yields (bnd (range_check n lo hi w) f) Q"
  by (simp add: bnd_range_check yields_def run_simps)

lemma yields_guard_step [yielding]: "(b \<Longrightarrow> yields (f ()) Q) \<Longrightarrow> yields (bnd (guard b e) f) Q"
  by (simp add: bnd_guard yields_def run_simps)

lemma yields_fail [yielding]: "yields (fail e) Q"
  by (simp add: yields_def run_simps)

lemma yields_assoc [yielding]: "yields (bnd m (\<lambda>a. bnd (f a) g)) Q \<Longrightarrow> yields (bnd (bnd m f) g) Q"
  by (simp add: bnd_assoc)

lemma yields_when_step [yielding]:
  "yields m P \<Longrightarrow> (\<And>v. (v = None) = (\<not> c) \<Longrightarrow> (\<And>a. v = Some a \<Longrightarrow> P a) \<Longrightarrow> yields (f v) Q) \<Longrightarrow>
     yields (bnd (when_io c m) f) Q"
  by (cases c) (auto simp: bnd_assoc intro: yields_bnd)

lemma yields_bo_step [yielding]:
  "(\<And>x. yields (f x) Q) \<Longrightarrow> yields (bnd (bo_u8 bo) f) Q"
  "(\<And>x. yields (g x) Q) \<Longrightarrow> yields (bnd (bo_u16 bo) g) Q"
  "(\<And>x. yields (h x) Q) \<Longrightarrow> yields (bnd (bo_u32 bo) h) Q"
  by (rule yields_bnd [OF yields_any], simp)+

lemma yields_if_step [yielding]:
  "(c \<Longrightarrow> yields (bnd m f) Q) \<Longrightarrow> (\<not> c \<Longrightarrow> yields (bnd m' f) Q) \<Longrightarrow>
     yields (bnd (if c then m else m') f) Q"
  by simp

lemma yields_if [yielding]:
  "(c \<Longrightarrow> yields m Q) \<Longrightarrow> (\<not> c \<Longrightarrow> yields m' Q) \<Longrightarrow> yields (if c then m else m') Q"
  by simp

lemma yields_case_step [yielding]:
  "(v = None \<Longrightarrow> yields (bnd m f) Q) \<Longrightarrow> (\<And>x. v = Some x \<Longrightarrow> yields (bnd (m' x) f) Q) \<Longrightarrow>
     yields (bnd (case v of None \<Rightarrow> m | Some x \<Rightarrow> m' x) f) Q"
  by (cases v) simp_all

lemma yields_ret_step [yielding]: "yields (f x) Q \<Longrightarrow> yields (bnd (ret x) f) Q"
  by simp

lemma yields_bnd_pair:
  "yields m P \<Longrightarrow> (\<And>x y. P (x, y) \<Longrightarrow> yields (f x y) Q) \<Longrightarrow> yields (bnd m (\<lambda>(a, b). f a b)) Q"
  by (rule yields_bnd [where P = P]) auto

lemma yields_bnd_triple:
  "yields m P \<Longrightarrow> (\<And>x y z. P (x, y, z) \<Longrightarrow> yields (f x y z) Q) \<Longrightarrow>
     yields (bnd m (\<lambda>(a, b, c). f a b c)) Q"
  by (rule yields_bnd [where P = P]) auto

lemma yields_lift: "(\<And>a. r = Inr a \<Longrightarrow> P a) \<Longrightarrow> yields (lift_res r) P"
  by (simp add: yields_def run_simps)

lemmas [yielding] = yields_ret yields_lift

subsection \<open>Optional parts\<close>

text \<open>A part that is there or not, without and with a flag that says so.\<close>

definition opt_bits :: "('a \<Rightarrow> bool list) \<Rightarrow> 'a option \<Rightarrow> bool list" where
  "opt_bits f v = (case v of None \<Rightarrow> [] | Some x \<Rightarrow> f x)"

definition flag_bits :: "('a \<Rightarrow> bool list) \<Rightarrow> 'a option \<Rightarrow> bool list" where
  "flag_bits f v = (v \<noteq> None) # opt_bits f v"

definition opt_ok :: "('a \<Rightarrow> bool) \<Rightarrow> 'a option \<Rightarrow> bool" where
  "opt_ok P v \<longleftrightarrow> (case v of None \<Rightarrow> True | Some x \<Rightarrow> P x)"

context byte_source
begin

lemma dec_when:
  "(\<And>x. v = Some x \<Longrightarrow> dec m (f x) x) \<Longrightarrow> c = (v \<noteq> None) \<Longrightarrow> dec (when_io c m) (opt_bits f v) v"
  by (cases v) (auto simp: opt_bits_def decodes_ret intro: decodes_last)

lemma dec_flag_when:
  "(\<And>x. v = Some x \<Longrightarrow> dec m (f x) x) \<Longrightarrow>
     dec (bnd (read_bit rd) (\<lambda>b. when_io b m)) (flag_bits f v) v"
  unfolding flag_bits_def by (intro dec_bit_step dec_when) simp_all

end

lemma yields_flag_when:
  "yields m P \<Longrightarrow> yields (bnd (read_bit rd) (\<lambda>b. when_io b m)) (opt_ok P)"
  unfolding when_io_def by (intro yielding yields_bnd [of m P]) (simp_all add: opt_ok_def)

lemma yields_when: "yields m P \<Longrightarrow> yields (when_io c m) (\<lambda>v. (v \<noteq> None) = c \<and> opt_ok P v)"
  unfolding when_io_def by (intro yields_if yields_ret yields_bnd [of m P]) (simp_all add: opt_ok_def)

subsection \<open>How an operation can fail\<close>

text \<open>A bound on the errors of an operation, whatever it reads: \<open>P\<close> holds of each of them.\<close>

definition fails :: "('s, 'a) io \<Rightarrow> (err \<Rightarrow> bool) \<Rightarrow> bool" where
  "fails m P \<longleftrightarrow> (\<forall>s e s'. m s = (Inl e, s') \<longrightarrow> P e)"

named_theorems failing
  \<comment> \<open>rules that step over one operation when bounding the errors\<close>

lemma failsD: "fails m P \<Longrightarrow> m s = (Inl e, s') \<Longrightarrow> P e"
  by (auto simp: fails_def)

lemma fails_bnd_yields:
  assumes m: "fails m P" and Q: "yields m Q" and f: "\<And>a. Q a \<Longrightarrow> fails (f a) P"
  shows "fails (bnd m f) P"
  unfolding fails_def
proof (intro allI impI)
  fix s e s'
  assume "bnd m f s = (Inl e, s')"
  then show "P e"
  proof (rule bnd_InlE)
    assume "m s = (Inl e, s')"
    with m show "P e" by (rule failsD)
  next
    fix a t
    assume "m s = (Inr a, t)" and fa: "f a t = (Inl e, s')"
    with yieldsD [OF Q] have "Q a" by blast
    from failsD [OF f [OF this] fa] show "P e" .
  qed
qed

lemma fails_bnd: "fails m P \<Longrightarrow> (\<And>a. fails (f a) P) \<Longrightarrow> fails (bnd m f) P"
  by (rule fails_bnd_yields [OF _ yields_any])

lemma fails_ret [failing]: "fails (ret a) P"
  by (simp add: fails_def run_simps)

lemma fails_fail [failing]: "P e \<Longrightarrow> fails (fail e) P"
  by (simp add: fails_def run_simps)

lemma fails_lift [failing]: "(\<And>e. r = Inl e \<Longrightarrow> P e) \<Longrightarrow> fails (lift_res r) P"
  by (simp add: fails_def run_simps)

lemma fails_lift_step [failing]:
  "(\<And>e. r = Inl e \<Longrightarrow> P e) \<Longrightarrow> (\<And>a. r = Inr a \<Longrightarrow> fails (f a) P) \<Longrightarrow> fails (bnd (lift_res r) f) P"
  by (cases r) (simp_all add: fails_fail)

lemma fails_range_check_step [failing]:
  "P (IoErr InvalidData w) \<Longrightarrow> (lo \<le> n \<Longrightarrow> n \<le> hi \<Longrightarrow> fails (f ()) P) \<Longrightarrow> fails (bnd (range_check n lo hi w) f) P"
  by (auto simp: bnd_range_check fails_fail)

lemma fails_guard_step [failing]:
  "(\<not> b \<Longrightarrow> P e) \<Longrightarrow> (b \<Longrightarrow> fails (f ()) P) \<Longrightarrow> fails (bnd (guard b e) f) P"
  by (auto simp: bnd_guard fails_fail)

lemma fails_if [failing]: "(c \<Longrightarrow> fails m P) \<Longrightarrow> (\<not> c \<Longrightarrow> fails m' P) \<Longrightarrow> fails (if c then m else m') P"
  by simp

lemma fails_times: "fails m P \<Longrightarrow> fails (times_io n m) P"
  by (induction n) (auto intro!: failing fails_bnd)

lemma fails_inner: "fails m P \<Longrightarrow> fails (inner m) P"
  by (auto simp: fails_def inner_def split: prod.splits)

text \<open>The bit reader fails as its source does, and with the overflows of its own counters.\<close>

definition source_fails :: "'s read_fn \<Rightarrow> (err \<Rightarrow> bool) \<Rightarrow> bool" where
  "source_fails rd P \<longleftrightarrow> fails (read_exact rd 1) P \<and> P (Panic ''add overflow'') \<and> P (Panic ''sub overflow'')"

lemma fails_read_bit: "source_fails rd P \<Longrightarrow> fails (read_bit rd) P"
proof -
  assume rd: "source_fails rd P"
  have "fails (update_byte rd) P"
    unfolding update_byte_def using rd
    by (intro fails_bnd fails_inner) (simp_all add: source_fails_def, simp add: fails_def)
  then show ?thesis
    unfolding fails_def read_bit_def
    by (auto simp: Let_def run_simps elim!: bnd_InlE dest: spec split: if_splits)
qed

lemma fails_shift_in_loop: "source_fails rd P \<Longrightarrow> fails (shift_in_loop rd n w) P"
  by (induction n arbitrary: w) (auto intro!: failing fails_bnd fails_read_bit)

lemma leading_zeros_error:
  "source_fails rd P \<Longrightarrow> leading_zeros_loop rd n r = (Inl e, r') \<Longrightarrow> P e"
proof (induction rd n r rule: leading_zeros_loop.induct)
  case (1 rd n r)
  show ?case
  proof (cases "read_bit rd r")
    case (Pair x t)
    with "1.prems" "1.IH" [OF Pair [symmetric]] failsD [OF fails_read_bit [OF "1.prems"(1)], of r] show ?thesis
      by (subst (asm) leading_zeros_loop.simps) (auto simp: source_fails_def split: sum.splits if_splits)
  qed
qed

lemma fails_leading_zeros: "source_fails rd P \<Longrightarrow> fails (leading_zeros_loop rd n) P"
  using leading_zeros_error by (simp add: fails_def) blast

lemma fails_read_exp_golomb: "source_fails rd P \<Longrightarrow> fails (read_exp_golomb rd) P"
  unfolding read_exp_golomb_def
  by (intro fails_bnd fails_leading_zeros fails_shift_in_loop fails_lift)
    (auto simp: checked_sub_def source_fails_def split: if_splits)

lemmas fails_steps [failing] = fails_bnd [OF fails_read_bit] fails_bnd_yields [OF fails_read_exp_golomb yields_read_exp_golomb]

lemma source_fails_cursor:
  "P eof_error \<Longrightarrow> P (Panic ''add overflow'') \<Longrightarrow> P (Panic ''sub overflow'') \<Longrightarrow> source_fails cursor_read P"
proof -
  assume P: "P eof_error" "P (Panic ''add overflow'')" "P (Panic ''sub overflow'')"
  have "read_exact cursor_read 1 c = (Inl e, c') \<Longrightarrow> P e" for c e c'
    by (rule cur.read_exact_cases [OF TrueI, of 1 c]) (use P in auto)
  with P show ?thesis by (simp add: source_fails_def fails_def)
qed

end
