(* ===== verification/Aac.thy ===== *)
theory Aac
  imports Coding
begin

text \<open>
  \<open>scuffle-aac\<close> (\<open>crates/aac/src/lib.rs\<close>): the head of an AAC \<open>AudioSpecificConfig\<close>.
  \<open>asc_bits\<close> is the standard's encoding of a configuration; the parser is its inverse.
\<close>

datatype audio_object_type = AacMain | AacLowComplexity | Unknown u16

fun as_u16 :: "audio_object_type \<Rightarrow> u16" where
  "as_u16 AacMain = 1"
| "as_u16 AacLowComplexity = 2"
| "as_u16 (Unknown value) = value"

definition from_u16 :: "u16 \<Rightarrow> audio_object_type" where
  "from_u16 value =
     (if value = 1 then AacMain else if value = 2 then AacLowComplexity else Unknown value)"

datatype sample_frequency_index =
    Freq96000 | Freq88200 | Freq64000 | Freq48000 | Freq44100 | Freq32000 | Freq24000
  | Freq22050 | Freq16000 | Freq12000 | Freq11025 | Freq8000 | Freq7350
  | FreqReserved | FreqReserved2 | FreqEscape

text \<open>The discriminants of the enum.\<close>

fun freq_index_value :: "sample_frequency_index \<Rightarrow> u8" where
  "freq_index_value Freq96000 = 0"
| "freq_index_value Freq88200 = 1"
| "freq_index_value Freq64000 = 2"
| "freq_index_value Freq48000 = 3"
| "freq_index_value Freq44100 = 4"
| "freq_index_value Freq32000 = 5"
| "freq_index_value Freq24000 = 6"
| "freq_index_value Freq22050 = 7"
| "freq_index_value Freq16000 = 8"
| "freq_index_value Freq12000 = 9"
| "freq_index_value Freq11025 = 10"
| "freq_index_value Freq8000 = 11"
| "freq_index_value Freq7350 = 12"
| "freq_index_value FreqReserved = 13"
| "freq_index_value FreqReserved2 = 14"
| "freq_index_value FreqEscape = 15"

fun to_freq :: "sample_frequency_index \<Rightarrow> u32 option" where
  "to_freq Freq96000 = Some 96000"
| "to_freq Freq88200 = Some 88200"
| "to_freq Freq64000 = Some 64000"
| "to_freq Freq48000 = Some 48000"
| "to_freq Freq44100 = Some 44100"
| "to_freq Freq32000 = Some 32000"
| "to_freq Freq24000 = Some 24000"
| "to_freq Freq22050 = Some 22050"
| "to_freq Freq16000 = Some 16000"
| "to_freq Freq12000 = Some 12000"
| "to_freq Freq11025 = Some 11025"
| "to_freq Freq8000 = Some 8000"
| "to_freq Freq7350 = Some 7350"
| "to_freq FreqReserved = None"
| "to_freq FreqReserved2 = None"
| "to_freq FreqEscape = None"

record partial_audio_specific_config =
  audio_object_type :: audio_object_type
  sampling_frequency :: u32
  channel_configuration :: u8

definition invalid_freq :: err where
  "invalid_freq = IoErr InvalidData ''Invalid sampling frequency index''"

definition ok_or :: "'a option \<Rightarrow> err \<Rightarrow> ('s, 'a) io" where
  "ok_or v e = (case v of None \<Rightarrow> fail e | Some a \<Rightarrow> ret a)"

text \<open>
  \<open>from_u8\<close> is the conversion that \<open>num_derive\<close> generates for the enum; its documented
  behaviour is \<open>from_primitive\<close>.
\<close>

definition from_primitive :: "(u8 \<Rightarrow> sample_frequency_index option) \<Rightarrow> bool" where
  "from_primitive from_u8 \<longleftrightarrow> (\<forall>v i. from_u8 v = Some i \<longleftrightarrow> freq_index_value i = v)"

definition asc_read :: "(u8 \<Rightarrow> sample_frequency_index option) \<Rightarrow>
    (cursor bit_reader, partial_audio_specific_config) io" where
  "asc_read from_u8 =
     bnd (read_bits cursor_read 5) (\<lambda>audio_object_type.
     bnd (if (ucast audio_object_type :: u16) = 31
          then bnd (read_bits cursor_read 6) (\<lambda>b. lift_res (checked_add 32 (ucast b)))
          else ret (ucast audio_object_type)) (\<lambda>audio_object_type :: u16.
     bnd (read_bits cursor_read 4) (\<lambda>index.
     bnd (ok_or (from_u8 (ucast index)) invalid_freq) (\<lambda>index.
     bnd (if index = FreqEscape then bnd (read_bits cursor_read 24) (\<lambda>f. ret (ucast f))
          else ok_or (to_freq index) invalid_freq) (\<lambda>sampling_frequency.
     bnd (read_bits cursor_read 4) (\<lambda>channel_configuration.
     ret \<lparr>audio_object_type = from_u16 audio_object_type,
          sampling_frequency = sampling_frequency,
          channel_configuration = ucast channel_configuration\<rparr>))))))"

definition asc_parse :: "(u8 \<Rightarrow> sample_frequency_index option) \<Rightarrow> u8 list \<Rightarrow>
    err + partial_audio_specific_config" where
  "asc_parse from_u8 bytes = fst (with_bit_reader (asc_read from_u8) (cursor_new bytes))"

subsection \<open>The encoding of the standard\<close>

definition aot_bits :: "u16 \<Rightarrow> bool list" where
  "aot_bits t = (if unat t < 31 then bits_of 5 t else bits_of 5 (31 :: u16) @ bits_of 6 (t - 32))"

text \<open>A frequency is coded by its index or, with the escape index, by its 24 bits.\<close>

definition freq_bits :: "sample_frequency_index \<Rightarrow> u32 \<Rightarrow> bool list" where
  "freq_bits i f = bits_of 4 (freq_index_value i) @ (if i = FreqEscape then bits_of 24 f else [])"

definition freq_coded :: "sample_frequency_index \<Rightarrow> u32 \<Rightarrow> bool" where
  "freq_coded i f \<longleftrightarrow> (if i = FreqEscape then unat f < 2 ^ 24 else to_freq i = Some f)"

definition asc_bits :: "sample_frequency_index \<Rightarrow> partial_audio_specific_config \<Rightarrow> bool list" where
  "asc_bits i c = aot_bits (as_u16 (audio_object_type c)) @
     freq_bits i (sampling_frequency c) @ bits_of 4 (channel_configuration c)"

definition asc_ok :: "partial_audio_specific_config \<Rightarrow> bool" where
  "asc_ok c \<longleftrightarrow> unat (as_u16 (audio_object_type c)) < 96 \<and> as_u16 (audio_object_type c) \<noteq> 31 \<and>
     audio_object_type c \<noteq> Unknown 1 \<and> audio_object_type c \<noteq> Unknown 2 \<and>
     unat (channel_configuration c) < 16"

lemma from_u16_as_u16: "t \<noteq> Unknown 1 \<Longrightarrow> t \<noteq> Unknown 2 \<Longrightarrow> from_u16 (as_u16 t) = t"
  by (cases t) (auto simp: from_u16_def)

lemma as_u16_from_u16: "as_u16 (from_u16 v) = v"
  by (simp add: from_u16_def)

lemma freq_index_value_less: "unat (freq_index_value i) < 16"
  by (cases i) simp_all

lemma decodes_ok_or [coding]:
  "v = Some a \<Longrightarrow> decodes bits ok (f a) bs y \<Longrightarrow> decodes bits ok (bnd (ok_or v e) f) bs y"
  by (simp add: ok_or_def)

lemma dec_asc_read:
  assumes "from_primitive from_u8" and "asc_ok c" and "freq_coded i (sampling_frequency c)"
  shows "cur.dec (asc_read from_u8) (asc_bits i c) c"
proof -
  let ?t = "as_u16 (audio_object_type c)"
  have idx: "from_u8 (freq_index_value i) = Some i"
    using assms(1) by (simp add: from_primitive_def)
  have ext: "checked_add 32 (?t - 32) = Inr ?t" "unat (?t - 32) < 64" if "\<not> unat ?t < 31"
  proof -
    have "unat ?t \<noteq> 31" using assms(2) by (auto simp: asc_ok_def word_unat_eq_iff)
    with that have "32 \<le> ?t" by (simp add: word_le_nat_alt)
    then have "unat (?t - 32) = unat ?t - 32" by (simp add: unat_sub)
    moreover have "unat ?t < 96" using assms(2) by (simp add: asc_ok_def)
    ultimately show "checked_add 32 (?t - 32) = Inr ?t" "unat (?t - 32) < 64"
      using that \<open>unat ?t \<noteq> 31\<close> by (auto simp: checked_add_def)
  qed
  have small: "?t \<noteq> 31" using assms(2) by (simp add: asc_ok_def)
  have tail: "cur.dec (bnd (read_bits cursor_read 4) (\<lambda>channel_configuration.
      ret \<lparr>audio_object_type = from_u16 ?t, sampling_frequency = sampling_frequency c,
           channel_configuration = ucast channel_configuration\<rparr>))
    (bits_of 4 (channel_configuration c)) c"
    using assms(2) by (simp add: coding asc_ok_def from_u16_as_u16)
  show ?thesis
    using assms(2,3) freq_index_value_less [of i] ext small tail idx
    by (cases "unat ?t < 31"; cases "i = FreqEscape")
      (simp_all add: asc_read_def asc_bits_def aot_bits_def freq_bits_def freq_coded_def coding
        decodes_assoc)
qed

text \<open>
  \<open>parse\<close> inverts the encoding of the standard: whatever object type, coded or escaped
  frequency and channel configuration is packed into the data (with anything after it),
  it is read back.
\<close>

theorem asc_parse_encoded:
  assumes "from_primitive from_u8" and "asc_ok c" and "freq_coded i (sampling_frequency c)"
  shows "asc_parse from_u8 (pack_bits (asc_bits i c @ rest)) = Inr c"
  using cur.with_bit_reader_dec [OF dec_asc_read [OF assms], of "cursor_new (pack_bits (asc_bits i c @ rest))"]
  by (auto simp: asc_parse_def byte_bits_pack)

text \<open>The conversion that \<open>num_derive\<close> generates, for concrete runs.\<close>

definition freq_from_u8 :: "u8 \<Rightarrow> sample_frequency_index option" where
  "freq_from_u8 v = find (\<lambda>i. freq_index_value i = v)
     [Freq96000, Freq88200, Freq64000, Freq48000, Freq44100, Freq32000, Freq24000, Freq22050,
      Freq16000, Freq12000, Freq11025, Freq8000, Freq7350, FreqReserved, FreqReserved2, FreqEscape]"

lemma from_primitive_freq: "from_primitive freq_from_u8"
proof -
  have "freq_from_u8 (freq_index_value i) = Some i" for i
    by (cases i) (simp_all add: freq_from_u8_def)
  moreover have "freq_index_value i = v" if "freq_from_u8 v = Some i" for v i
    using that unfolding freq_from_u8_def find_Some_iff by blast
  ultimately show ?thesis by (auto simp: from_primitive_def)
qed

theorem asc_parse_encoded_witness:
  "asc_parse freq_from_u8 (pack_bits (asc_bits Freq44100
     \<lparr>audio_object_type = AacLowComplexity, sampling_frequency = 44100, channel_configuration = 2\<rparr> @ [])) =
   Inr \<lparr>audio_object_type = AacLowComplexity, sampling_frequency = 44100, channel_configuration = 2\<rparr>"
  by (rule asc_parse_encoded [OF from_primitive_freq])
    (simp_all add: asc_ok_def freq_coded_def)

text \<open>
  A reserved frequency index is refused: whatever the object type and the rest of the
  data, indices 13 and 14 give the \<open>InvalidData\<close> error.
\<close>

theorem asc_parse_reserved:
  assumes "from_primitive from_u8" and "unat t < 31" and "v = 13 \<or> v = 14"
  shows "asc_parse from_u8 (pack_bits (bits_of 5 (t :: u16) @ bits_of 4 (v :: u8) @ rest)) = Inl invalid_freq"
proof -
  let ?c = "bit_reader_new (cursor_new (pack_bits (bits_of 5 t @ bits_of 4 v @ rest)))"
  let ?pad = "replicate (pad_len (length (bits_of 5 t @ bits_of 4 v @ rest))) False"
  obtain i where i: "from_u8 v = Some i" "i = FreqReserved \<or> i = FreqReserved2"
    using assms(1,3) by (metis from_primitive_def freq_index_value.simps(14,15))
  have "cur.dec (read_bits cursor_read 5) (bits_of 5 t) (ucast t)"
    using assms(2) by (intro cur.dec_field) simp_all
  then obtain r where r: "read_bits cursor_read 5 ?c = (Inr (ucast t), r)"
      "rest_bits cursor_rest r = bits_of 4 v @ rest @ ?pad" "reader_ok (\<lambda>_. True) r"
    by (rule decodesE [where s = ?c and rest = "bits_of 4 v @ rest @ ?pad"])
      (simp_all add: byte_bits_pack)
  have "cur.dec (read_bits cursor_read 4) (bits_of 4 v) (ucast v)"
    using assms(3) by (intro cur.dec_field) auto
  from decodesE [OF this r(3,2)] obtain u where u: "read_bits cursor_read 4 r = (Inr (ucast v), u)" .
  have "t \<noteq> 31" using assms(2) by auto
  then show ?thesis
    using r u i by (auto simp: asc_parse_def with_bit_reader_def asc_read_def ok_or_def run_simps)
qed

theorem asc_parse_reserved_witness:
  "asc_parse freq_from_u8 (pack_bits (bits_of 5 (2 :: u16) @ bits_of 4 (13 :: u8) @ [])) = Inl invalid_freq"
  by (rule asc_parse_reserved [OF from_primitive_freq]) simp_all

end
