(* ===== verification/Bytes_Cursor.thy ===== *)
theory Bytes_Cursor
  imports Coding
begin

text \<open>
  \<open>crates/bytes-util/src/bytes_cursor.rs\<close>: taking slices from an \<open>io::Cursor<Bytes>\<close>.
  A \<open>Bytes\<close> is modelled by its contents; that slices share the memory is not.
\<close>

definition remaining :: "cursor \<Rightarrow> nat" where
  "remaining c = length (cur_data c) - cur_pos c"

text \<open>\<open>Bytes::slice\<close> panics on a range that is not inside the buffer.\<close>

definition bytes_slice :: "u8 list \<Rightarrow> nat \<Rightarrow> nat \<Rightarrow> err + u8 list" where
  "bytes_slice bs lo hi =
     (if lo \<le> hi \<and> hi \<le> length bs then Inr (take (hi - lo) (drop lo bs))
      else Inl (Panic ''range out of bounds''))"

definition not_enough_bytes :: err where
  "not_enough_bytes = IoErr UnexpectedEof ''not enough bytes''"

definition extract_bytes :: "nat \<Rightarrow> (cursor, u8 list) io" where
  "extract_bytes sz c =
     (if sz = 0 then (Inr [], c)
      else if sz > remaining c then (Inl not_enough_bytes, c)
      else case bytes_slice (cur_data c) (cur_pos c) (cur_pos c + sz) of
             Inl e \<Rightarrow> (Inl e, c)
           | Inr bs \<Rightarrow> (Inr bs, c\<lparr>cur_pos := cur_pos c + sz\<rparr>))"

text \<open>\<open>unwrap_or_default\<close> turns an error into the empty slice; a panic is not an error.\<close>

definition extract_remaining :: "(cursor, u8 list) io" where
  "extract_remaining c =
     (case extract_bytes (remaining c) c of
        (Inl (IoErr k m), c') \<Rightarrow> (Inr [], c')
      | r \<Rightarrow> r)"

lemma length_cursor_rest [simp]: "length (cursor_rest c) = remaining c"
  by (simp add: cursor_rest_def remaining_def)

lemma extract_bytes_run:
  "extract_bytes n c =
     (if n \<le> remaining c then (Inr (take n (cursor_rest c)), c\<lparr>cur_pos := cur_pos c + n\<rparr>)
      else (Inl not_enough_bytes, c))"
proof (cases "n = 0 \<or> n > remaining c")
  case True
  then show ?thesis by (auto simp: extract_bytes_def)
next
  case False
  then have "cur_pos c + n \<le> length (cur_data c)" by (auto simp: remaining_def)
  with False show ?thesis
    by (simp add: extract_bytes_def bytes_slice_def cursor_rest_def)
qed

lemma extract_remaining_run:
  "extract_remaining c = (Inr (cursor_rest c), c\<lparr>cur_pos := cur_pos c + remaining c\<rparr>)"
  by (simp add: extract_remaining_def extract_bytes_run)

lemma cursor_rest_advance: "cursor_rest (c\<lparr>cur_pos := cur_pos c + n\<rparr>) = drop n (cursor_rest c)"
  by (simp add: cursor_rest_def add.commute)

lemma read_exact_cursor_ok:
  assumes "n \<le> remaining c"
  shows "read_exact cursor_read n c = (Inr (take n (cursor_rest c)), c\<lparr>cur_pos := cur_pos c + n\<rparr>)"
proof (cases "n = 0")
  case False
  then have "length (take n (cursor_rest c)) = n" "take n (cursor_rest c) \<noteq> []"
    using assms by (auto simp: min_def simp flip: length_0_conv)
  moreover have "cursor_read n c = (Inr (take n (cursor_rest c)), c\<lparr>cur_pos := cur_pos c + n\<rparr>)"
    using calculation(1) by (simp add: cursor_read_def cursor_rest_def Let_def)
  ultimately show ?thesis
    using False by (simp add: read_exact.simps [of cursor_read n c])
qed simp

text \<open>
  \<open>extract_bytes\<close> is a \<open>read_exact\<close> that copies nothing: when enough bytes are left it
  returns the same bytes and leaves the cursor at the same place; otherwise both fail with
  \<open>UnexpectedEof\<close>, and \<open>extract_bytes\<close> leaves the cursor where it was. It never panics.
\<close>

theorem extract_bytes_is_read_exact:
  "if n \<le> remaining c
   then extract_bytes n c = read_exact cursor_read n c
   else extract_bytes n c = (Inl not_enough_bytes, c) \<and>
     fst (read_exact cursor_read n c) = Inl eof_error"
  using cur.read_exact_eof [of c n] by (auto simp: extract_bytes_run read_exact_cursor_ok)

end
