(* ===== verification/Av1_Config.thy ===== *)
theory Av1_Config
  imports Bytes_Cursor
begin

text \<open>
  \<open>crates/av1/src/config.rs\<close>: the AV1 codec configuration record and the MPEG-2 TS video
  descriptor around it. The demuxer skips reserved bits with \<open>seek_bits\<close>.
\<close>

subsection \<open>The record\<close>

record av1_codec_configuration_record =
  seq_profile :: u8
  seq_level_idx_0 :: u8
  seq_tier_0 :: bool
  high_bitdepth :: bool
  twelve_bit :: bool
  monochrome :: bool
  chroma_subsampling_x :: bool
  chroma_subsampling_y :: bool
  chroma_sample_position :: u8
  hdr_wcg_idc :: u8
  initial_presentation_delay_minus_one :: "u8 option"
  config_obu :: "u8 list"

record av1_video_descriptor =
  tag :: u8
  desc_length :: u8
  codec_configuration_record :: av1_codec_configuration_record

text \<open>The part read through the bit reader; the OBUs follow it.\<close>

definition av1_config_fields_read :: "(cursor bit_reader, u8 list \<Rightarrow> av1_codec_configuration_record) io" where
  "av1_config_fields_read =
     bnd (read_bit cursor_read) (\<lambda>marker.
     bnd (guard marker (IoErr InvalidData ''marker is not set'')) (\<lambda>_.
     bnd (read_bits cursor_read 7) (\<lambda>version.
     bnd (guard ((ucast version :: u8) = 1) (IoErr InvalidData ''version is not 1'')) (\<lambda>_.
     bnd (read_bits cursor_read 3) (\<lambda>seq_profile.
     bnd (read_bits cursor_read 5) (\<lambda>seq_level_idx_0.
     bnd (read_bit cursor_read) (\<lambda>seq_tier_0.
     bnd (read_bit cursor_read) (\<lambda>high_bitdepth.
     bnd (read_bit cursor_read) (\<lambda>twelve_bit.
     bnd (read_bit cursor_read) (\<lambda>monochrome.
     bnd (read_bit cursor_read) (\<lambda>chroma_subsampling_x.
     bnd (read_bit cursor_read) (\<lambda>chroma_subsampling_y.
     bnd (read_bits cursor_read 2) (\<lambda>chroma_sample_position.
     bnd (read_bits cursor_read 2) (\<lambda>hdr_wcg_idc.
     bnd (seek_bits cursor_read cursor_seek 1) (\<lambda>_.
     bnd (read_bit cursor_read) (\<lambda>present.
     bnd (if present then bnd (read_bits cursor_read 4) (\<lambda>d. ret (Some (ucast d)))
          else bnd (seek_bits cursor_read cursor_seek 4) (\<lambda>_. ret None)) (\<lambda>delay.
     ret (\<lambda>config_obu. \<lparr>seq_profile = ucast seq_profile, seq_level_idx_0 = ucast seq_level_idx_0,
       seq_tier_0 = seq_tier_0, high_bitdepth = high_bitdepth, twelve_bit = twelve_bit,
       monochrome = monochrome, chroma_subsampling_x = chroma_subsampling_x,
       chroma_subsampling_y = chroma_subsampling_y,
       chroma_sample_position = ucast chroma_sample_position, hdr_wcg_idc = ucast hdr_wcg_idc,
       initial_presentation_delay_minus_one = delay, config_obu = config_obu\<rparr>))))))))))))))))))"

definition av1_config_demux :: "(cursor, av1_codec_configuration_record) io" where
  "av1_config_demux =
     bnd (with_bit_reader (bnd av1_config_fields_read (\<lambda>config r.
            if is_aligned r then ret config r
            else fail (IoErr InvalidData ''Bit reader is not aligned'') r))) (\<lambda>config.
     bnd extract_remaining (\<lambda>config_obu.
     ret (config config_obu)))"

definition av1_config_size :: "av1_codec_configuration_record \<Rightarrow> nat" where
  "av1_config_size c = 1 + 1 + 1 + 1 + length (config_obu c)"

definition av1_config_fields_write :: "'w write_fn \<Rightarrow> av1_codec_configuration_record \<Rightarrow> ('w bit_writer, unit) io" where
  "av1_config_fields_write wr c =
     bnd (write_bit wr True) (\<lambda>_.
     bnd (write_bits wr 1 7) (\<lambda>_.
     bnd (write_bits wr (ucast (seq_profile c)) 3) (\<lambda>_.
     bnd (write_bits wr (ucast (seq_level_idx_0 c)) 5) (\<lambda>_.
     bnd (write_bit wr (seq_tier_0 c)) (\<lambda>_.
     bnd (write_bit wr (high_bitdepth c)) (\<lambda>_.
     bnd (write_bit wr (twelve_bit c)) (\<lambda>_.
     bnd (write_bit wr (monochrome c)) (\<lambda>_.
     bnd (write_bit wr (chroma_subsampling_x c)) (\<lambda>_.
     bnd (write_bit wr (chroma_subsampling_y c)) (\<lambda>_.
     bnd (write_bits wr (ucast (chroma_sample_position c)) 2) (\<lambda>_.
     bnd (write_bits wr 0 3) (\<lambda>_.
     (case initial_presentation_delay_minus_one c of
        Some d \<Rightarrow> bnd (write_bit wr True) (\<lambda>_. write_bits wr (ucast d) 4)
      | None \<Rightarrow> bnd (write_bit wr False) (\<lambda>_. write_bits wr 0 4))))))))))))))"

text \<open>\<open>bit_writer.finish()?.write_all(&self.config_obu)\<close>\<close>

definition av1_config_mux :: "'w write_fn \<Rightarrow> av1_codec_configuration_record \<Rightarrow> ('w, unit) io" where
  "av1_config_mux wr c =
     bnd (with_bit_writer (bnd (av1_config_fields_write wr c) (\<lambda>_. bnd (finish wr) (\<lambda>_. ret ())))) (\<lambda>_.
     write_all wr (config_obu c))"

text \<open>The descriptor; \<open>read_u8\<close> is \<open>byteorder\<close>'s.\<close>

definition av1_descriptor_demux :: "cursor byteorder \<Rightarrow> (cursor, av1_video_descriptor) io" where
  "av1_descriptor_demux bo =
     bnd (bo_u8 bo) (\<lambda>tag.
     bnd (guard (tag = 128) (IoErr InvalidData ''Invalid AV1 video descriptor tag'')) (\<lambda>_.
     bnd (bo_u8 bo) (\<lambda>length.
     bnd (guard (length = 4) (IoErr InvalidData ''Invalid AV1 video descriptor length'')) (\<lambda>_.
     bnd av1_config_demux (\<lambda>c.
     ret \<lparr>tag = tag, desc_length = length, codec_configuration_record = c\<rparr>)))))"

subsection \<open>The encoding of the standard\<close>

definition av1_config_bits :: "av1_codec_configuration_record \<Rightarrow> bool list" where
  "av1_config_bits c = True # bits_of 7 (1 :: u64) @ bits_of 3 (seq_profile c) @
     bits_of 5 (seq_level_idx_0 c) @
     seq_tier_0 c # high_bitdepth c # twelve_bit c # monochrome c #
     chroma_subsampling_x c # chroma_subsampling_y c # bits_of 2 (chroma_sample_position c) @
     bits_of 2 (hdr_wcg_idc c) @ [False] @
     (case initial_presentation_delay_minus_one c of
        Some d \<Rightarrow> True # bits_of 4 d
      | None \<Rightarrow> False # bits_of 4 (0 :: u64))"

definition av1_config_ok :: "av1_codec_configuration_record \<Rightarrow> bool" where
  "av1_config_ok c \<longleftrightarrow> unat (seq_profile c) < 8 \<and> unat (seq_level_idx_0 c) < 32 \<and>
     unat (chroma_sample_position c) < 4 \<and> unat (hdr_wcg_idc c) < 4 \<and>
     (case initial_presentation_delay_minus_one c of None \<Rightarrow> True | Some d \<Rightarrow> unat d < 16)"

lemma length_av1_config_bits [simp]: "length (av1_config_bits c) = 32"
  by (simp add: av1_config_bits_def split: option.splits)

lemma cdec_av1_config_fields:
  assumes "av1_config_ok c"
  shows "cdec av1_config_fields_read (av1_config_bits c) (\<lambda>obu. c\<lparr>config_obu := obu\<rparr>)"
proof (cases c; cases "initial_presentation_delay_minus_one c")
qed (use assms in \<open>simp_all add: av1_config_ok_def av1_config_fields_read_def av1_config_bits_def
      coding decodes_assoc\<close>)

text \<open>A cursor inside its data, which is not larger than memory.\<close>

definition cursor_ok :: "cursor \<Rightarrow> bool" where
  "cursor_ok c \<longleftrightarrow> cur_pos c \<le> length (cur_data c) \<and> length (cur_data c) < 2 ^ 60"

lemma cursor_ok_new: "cursor_ok (cursor_new v) \<longleftrightarrow> length v < 2 ^ 60"
  by (simp add: cursor_ok_def cursor_new_def)

lemma seekable_bit_reader_new: "cursor_ok s \<Longrightarrow> seekable (bit_reader_new s)"
  by (simp add: seekable_def cursor_reader_ok_def bit_reader_new_def cursor_ok_def)

lemma cdec_whole:
  assumes "cdec m bs x" and "cursor_ok s" and "8 dvd length bs"
    and "cursor_rest s = pack_bits bs @ rest"
  shows "\<exists>r. m (bit_reader_new s) = (Inr x, r) \<and> is_aligned r \<and> cursor_rest (data r) = rest"
proof -
  have "byte_bits (cursor_rest s) = bs @ byte_bits rest"
    using assms(3,4) by (simp add: byte_bits_pack_whole)
  then obtain r where r: "m (bit_reader_new s) = (Inr x, r)"
      "rest_bits cursor_rest r = byte_bits rest" "seekable r"
    using assms(1) seekable_bit_reader_new [OF assms(2)]
    by (auto elim: decodesE [where s = "bit_reader_new s"])
  then have "is_aligned r" by (simp add: cur.aligned_iff [OF seekable_reader_ok])
  with r show ?thesis by (auto simp: rest_bits_def is_aligned_def)
qed

lemma av1_config_demux_run:
  assumes "av1_config_ok c" and "cursor_ok s"
    and "cursor_rest s = pack_bits (av1_config_bits c) @ config_obu c"
  shows "\<exists>s'. av1_config_demux s = (Inr c, s') \<and> cursor_rest s' = []"
proof -
  from cdec_whole [OF cdec_av1_config_fields [OF assms(1)] assms(2) _ assms(3)] obtain r
    where r: "av1_config_fields_read (bit_reader_new s) = (Inr (\<lambda>obu. c\<lparr>config_obu := obu\<rparr>), r)"
      "is_aligned r" "cursor_rest (data r) = config_obu c"
    by auto
  moreover have "drop (remaining (data r)) (cursor_rest (data r)) = []"
    by (simp flip: length_cursor_rest)
  ultimately show ?thesis
    by (simp add: av1_config_demux_def with_bit_reader_def extract_remaining_run run_simps
        cursor_rest_advance)
qed

lemma reserved_bits: "bits_of 3 (0 :: u64) @ bs = bits_of 2 (0 :: u8) @ False # bs"
proof -
  have "bits_of 3 (0 :: u64) = bits_of 2 (0 :: u8) @ [False]" by code_simp
  then show ?thesis by simp
qed

lemma emits_av1_config_fields:
  assumes "av1_config_ok c"
  shows "emits (@) (\<lambda>_. True) (av1_config_fields_write vec_write c)
     (av1_config_bits (c\<lparr>hdr_wcg_idc := 0\<rparr>))"
proof (cases "initial_presentation_delay_minus_one c")
qed (use assms in \<open>simp_all add: av1_config_ok_def av1_config_fields_write_def av1_config_bits_def
      vec.emits_bit_step vec.emits_step vec.emits_leaf reserved_bits [symmetric] emits_assoc\<close>)

lemma av1_config_mux_run:
  assumes "av1_config_ok c"
  shows "av1_config_mux vec_write c v =
    (Inr (), v @ pack_bits (av1_config_bits (c\<lparr>hdr_wcg_idc := 0\<rparr>)) @ config_obu c)"
  using vec.with_bit_writer_emits [OF emits_av1_config_fields [OF assms], of v] vec.write_all_ok
  by (simp add: av1_config_mux_def)

text \<open>A record for concrete runs.\<close>

definition av1_config_sample :: av1_codec_configuration_record where
  "av1_config_sample = \<lparr>seq_profile = 0, seq_level_idx_0 = 13, seq_tier_0 = False,
     high_bitdepth = True, twelve_bit = False, monochrome = False, chroma_subsampling_x = True,
     chroma_subsampling_y = True, chroma_sample_position = 1, hdr_wcg_idc = 2,
     initial_presentation_delay_minus_one = Some 3, config_obu = [10, 11]\<rparr>"

lemma av1_config_sample_facts: "av1_config_ok av1_config_sample" "config_obu av1_config_sample = [10, 11]"
    "av1_config_size av1_config_sample = 6"
  by (simp_all add: av1_config_sample_def av1_config_ok_def av1_config_size_def)

text \<open>
  A record encoded as the standard says, with all its fields and the OBUs after them, is
  read back whole, and nothing is left in the reader.
\<close>

theorem av1_config_demux_encoded:
  assumes "av1_config_ok c" and "length (config_obu c) < 2 ^ 59"
  shows "\<exists>s. av1_config_demux (cursor_new (pack_bits (av1_config_bits c) @ config_obu c)) = (Inr c, s) \<and>
    cursor_rest s = []"
  by (rule av1_config_demux_run [OF assms(1)]) (use assms(2) in \<open>simp_all add: length_pack_whole cursor_ok_new\<close>)

theorem av1_config_demux_encoded_witness:
  "\<exists>s. av1_config_demux (cursor_new (pack_bits (av1_config_bits av1_config_sample) @ [10, 11])) =
      (Inr av1_config_sample, s) \<and> cursor_rest s = []"
  using av1_config_demux_encoded [of av1_config_sample] by (simp add: av1_config_sample_facts)

text \<open>
  C40. What \<open>mux\<close> writes, \<open>demux\<close> reads back with every field but one: \<open>mux\<close> writes three
  reserved zero bits where \<open>demux\<close> reads \<open>hdr_wcg_idc\<close>, so the HDR/WCG indication is lost.
  The bytes written are as many as \<open>size\<close> says.
\<close>

theorem av1_config_roundtrip:
  assumes "av1_config_ok c" and "length (config_obu c) < 2 ^ 59"
  shows "\<exists>v s. av1_config_mux vec_write c [] = (Inr (), v) \<and> length v = av1_config_size c \<and>
    av1_config_demux (cursor_new v) = (Inr (c\<lparr>hdr_wcg_idc := 0\<rparr>), s) \<and> cursor_rest s = []"
proof -
  let ?c = "c\<lparr>hdr_wcg_idc := 0\<rparr>"
  let ?v = "pack_bits (av1_config_bits ?c) @ config_obu ?c"
  have "av1_config_ok ?c" using assms(1) by (simp add: av1_config_ok_def)
  moreover have "cursor_ok (cursor_new ?v)"
    using assms(2) by (simp add: length_pack_whole cursor_ok_new)
  ultimately obtain s where "av1_config_demux (cursor_new ?v) = (Inr ?c, s)" "cursor_rest s = []"
    using av1_config_demux_run [of ?c "cursor_new ?v"] by auto
  with av1_config_mux_run [OF assms(1), of "[]"] show ?thesis
    by (simp add: av1_config_size_def length_pack_whole)
qed

theorem av1_config_roundtrip_witness:
  "\<exists>v s. av1_config_mux vec_write av1_config_sample [] = (Inr (), v) \<and> length v = 6 \<and>
    av1_config_demux (cursor_new v) = (Inr (av1_config_sample\<lparr>hdr_wcg_idc := 0\<rparr>), s) \<and>
    cursor_rest s = [] \<and> av1_config_sample\<lparr>hdr_wcg_idc := 0\<rparr> \<noteq> av1_config_sample"
proof -
  have "av1_config_sample\<lparr>hdr_wcg_idc := 0\<rparr> \<noteq> av1_config_sample"
    by (simp add: av1_config_sample_def)
  with av1_config_roundtrip [of av1_config_sample] show ?thesis
    by (simp add: av1_config_sample_facts)
qed

lemma be_read_1_cursor:
  assumes "cursor_rest s = b # bs"
  shows "be_read cursor_read 1 s = (Inr (b :: u8), s\<lparr>cur_pos := Suc (cur_pos s)\<rparr>)"
  using assms by (simp add: be_read_def bnd_def read_exact.simps cursor_read_def cursor_rest_def run_simps
      take_bit_word_eq_self)

text \<open>
  The MPEG-2 TS descriptor is read exactly when its tag is 0x80 and its length is 4; then
  the record after them is returned, and otherwise the \<open>InvalidData\<close> error of the field at fault.
\<close>

theorem av1_descriptor_demux_spec:
  assumes "byteorder_reads cursor_read bo" and "av1_config_ok c" and "length (config_obu c) < 2 ^ 59"
  shows "fst (av1_descriptor_demux bo
      (cursor_new (t # l # pack_bits (av1_config_bits c) @ config_obu c))) =
    (if t \<noteq> 128 then Inl (IoErr InvalidData ''Invalid AV1 video descriptor tag'')
     else if l \<noteq> 4 then Inl (IoErr InvalidData ''Invalid AV1 video descriptor length'')
     else Inr \<lparr>tag = 128, desc_length = 4, codec_configuration_record = c\<rparr>)"
proof -
  let ?v = "t # l # pack_bits (av1_config_bits c) @ config_obu c"
  let ?s1 = "\<lparr>cur_data = ?v, cur_pos = 1\<rparr>" and ?s2 = "\<lparr>cur_data = ?v, cur_pos = 2\<rparr>"
  have r1: "be_read cursor_read 1 (cursor_new ?v) = (Inr t, ?s1)"
    using be_read_1_cursor [of "cursor_new ?v" t] by (simp add: cursor_new_def cursor_rest_def)
  have r2: "be_read cursor_read 1 ?s1 = (Inr l, ?s2)"
    using be_read_1_cursor [of ?s1 l] by (simp add: cursor_rest_def)
  have "cursor_ok ?s2" "cursor_rest ?s2 = pack_bits (av1_config_bits c) @ config_obu c"
    using assms(3) by (simp_all add: cursor_ok_def cursor_rest_def length_pack_whole)
  from av1_config_demux_run [OF assms(2) this] obtain s where "av1_config_demux ?s2 = (Inr c, s)" by blast
  with r1 r2 assms(1) show ?thesis
    by (cases "t = 128"; cases "l = 4") (simp_all add: av1_descriptor_demux_def byteorder_reads_def run_simps bnd_guard)
qed

theorem av1_descriptor_demux_spec_witness:
  "fst (av1_descriptor_demux (be_reads cursor_read)
      (cursor_new (128 # 4 # pack_bits (av1_config_bits av1_config_sample) @ [10, 11]))) =
   Inr \<lparr>tag = 128, desc_length = 4, codec_configuration_record = av1_config_sample\<rparr>"
  using av1_descriptor_demux_spec [of "be_reads cursor_read" av1_config_sample 128 4]
  by (simp add: av1_config_sample_facts)

end
