(* ===== verification/Av1_Obu.thy ===== *)
theory Av1_Obu
  imports Coding
begin

text \<open>
  \<open>scuffle-av1\<close>, \<open>crates/av1/src/obu/mod.rs\<close> and \<open>utils.rs\<close>: the header of an open
  bitstream unit and the two variable-length integers of AV1. \<open>leb128\<close> is little-endian
  base 128, \<open>uvlc\<close> is the Exp-Golomb code with its own rule for 32 or more zeros.
\<close>

subsection \<open>leb128\<close>

function leb128_loop :: "'s read_fn \<Rightarrow> nat \<Rightarrow> u64 \<Rightarrow> ('s bit_reader, u64) io" where
  "leb128_loop rd i result =
     (if i < 8 then
        bnd (read_bits rd 8) (\<lambda>byte.
          let result = result OR push_bit (i * 7) (byte AND 127) in
          if byte AND 128 = 0 then ret result else leb128_loop rd (i + 1) result)
      else ret result)"
  by pat_completeness auto
termination
  by (relation "measure (\<lambda>(rd, i, result). 8 - i)") auto

declare leb128_loop.simps [simp del]

definition read_leb128 :: "'s read_fn \<Rightarrow> ('s bit_reader, u64) io" where
  "read_leb128 rd = leb128_loop rd 0 0"

subsection \<open>uvlc\<close>

text \<open>The counter is a \<open>u8\<close>: it is the argument of \<open>read_bits\<close>.\<close>

function uvlc_zeros_loop :: "'s read_fn \<Rightarrow> nat \<Rightarrow> ('s bit_reader, nat) io" where
  "uvlc_zeros_loop rd leading_zeros r =
     (case read_bit rd r of
        (Inl e, r') \<Rightarrow> (Inl e, r')
      | (Inr b, r') \<Rightarrow>
          (if b then (Inr leading_zeros, r')
           else if leading_zeros + 1 < 256 then uvlc_zeros_loop rd (leading_zeros + 1) r'
           else (Inl (Panic ''add overflow''), r')))"
  by pat_completeness auto
termination
  by (relation "measure (\<lambda>(rd, n, r). 256 - n)") auto

declare uvlc_zeros_loop.simps [simp del]

definition read_uvlc :: "'s read_fn \<Rightarrow> ('s bit_reader, u64) io" where
  "read_uvlc rd =
     bnd (uvlc_zeros_loop rd 0) (\<lambda>leading_zeros.
     if leading_zeros \<ge> 32 then ret (push_bit 32 1 - 1)
     else bnd (read_bits rd leading_zeros) (\<lambda>value.
          bnd (lift_res (checked_add value (push_bit leading_zeros 1))) (\<lambda>sum.
          lift_res (checked_sub sum 1))))"

subsection \<open>The OBU header\<close>

datatype obu_type = SequenceHeader | TemporalDelimiter | FrameHeader | TileGroup | Metadata
  | Frame | RedundantFrameHeader | TileList | Padding | Reserved u8

definition obu_type_from :: "u8 \<Rightarrow> obu_type" where
  "obu_type_from value =
     (if value = 1 then SequenceHeader
      else if value = 2 then TemporalDelimiter
      else if value = 3 then FrameHeader
      else if value = 4 then TileGroup
      else if value = 5 then Metadata
      else if value = 6 then Frame
      else if value = 7 then RedundantFrameHeader
      else if value = 8 then TileList
      else if value = 15 then Padding
      else Reserved value)"

fun u8_from_obu_type :: "obu_type \<Rightarrow> u8" where
  "u8_from_obu_type SequenceHeader = 1"
| "u8_from_obu_type TemporalDelimiter = 2"
| "u8_from_obu_type FrameHeader = 3"
| "u8_from_obu_type TileGroup = 4"
| "u8_from_obu_type Metadata = 5"
| "u8_from_obu_type Frame = 6"
| "u8_from_obu_type RedundantFrameHeader = 7"
| "u8_from_obu_type TileList = 8"
| "u8_from_obu_type Padding = 15"
| "u8_from_obu_type (Reserved value) = value"

record obu_extension_header =
  temporal_id :: u8
  spatial_id :: u8

record obu_header =
  obu_type :: obu_type
  obu_size :: "u64 option"
  extension_header :: "obu_extension_header option"

definition obu_extension_read :: "'s read_fn \<Rightarrow> ('s bit_reader, obu_extension_header) io" where
  "obu_extension_read rd =
     bnd (read_bits rd 3) (\<lambda>temporal_id.
     bnd (read_bits rd 2) (\<lambda>spatial_id.
     bnd (read_bits rd 3) (\<lambda>_.
     ret \<lparr>temporal_id = ucast temporal_id, spatial_id = ucast spatial_id\<rparr>)))"

definition check_aligned :: "err \<Rightarrow> ('s bit_reader, unit) io" where
  "check_aligned e r = guard (is_aligned r) e r"

definition obu_fields_read :: "'s read_fn \<Rightarrow> ('s bit_reader, obu_header) io" where
  "obu_fields_read rd =
     bnd (read_bit rd) (\<lambda>forbidden_bit.
     bnd (guard (\<not> forbidden_bit) (IoErr InvalidData ''obu_forbidden_bit is not 0'')) (\<lambda>_.
     bnd (read_bits rd 4) (\<lambda>obu_type.
     bnd (read_bit rd) (\<lambda>extension_flag.
     bnd (read_bit rd) (\<lambda>has_size_field.
     bnd (read_bit rd) (\<lambda>_.
     bnd (when_io extension_flag (obu_extension_read rd)) (\<lambda>extension_header.
     bnd (when_io has_size_field (read_leb128 rd)) (\<lambda>size.
     ret \<lparr>obu_type = obu_type_from (ucast obu_type), obu_size = size,
          extension_header = extension_header\<rparr>))))))))"

definition obu_header_read :: "'s read_fn \<Rightarrow> ('s bit_reader, obu_header) io" where
  "obu_header_read rd =
     bnd (obu_fields_read rd) (\<lambda>header.
     bnd (check_aligned (IoErr InvalidData ''bit reader is not aligned'')) (\<lambda>_.
     ret header))"

definition obu_header_parse :: "'s read_fn \<Rightarrow> ('s, obu_header) io" where
  "obu_header_parse rd = with_bit_reader (obu_header_read rd)"

lemma obu_type_roundtrip: "obu_type_from (u8_from_obu_type t) = t \<longleftrightarrow>
    (\<forall>v. t = Reserved v \<longrightarrow> v \<notin> {1, 2, 3, 4, 5, 6, 7, 8, 15})"
  by (cases t) (auto simp: obu_type_from_def)

subsection \<open>The encodings\<close>

function leb128_bytes :: "u64 \<Rightarrow> u8 list" where
  "leb128_bytes v =
     (if v < 128 then [ucast v] else (ucast v OR 128) # leb128_bytes (drop_bit 7 v))"
  by pat_completeness auto
termination
proof (relation "measure unat", simp)
  fix v :: u64
  assume "\<not> v < 128"
  then have "128 \<le> unat v" by (simp add: word_less_nat_alt)
  moreover have "unat (drop_bit 7 v) = unat v div 128"
    unfolding unsigned_drop_bit_eq by (simp add: drop_bit_eq_div take_bit_nat_eq_self unat_u64_less)
  ultimately show "(drop_bit 7 v, v) \<in> measure unat" by simp
qed

declare leb128_bytes.simps [simp del]

lemma unat_drop_bit: "unat (drop_bit n (v :: 'a::len word)) = unat v div 2 ^ n"
  unfolding unsigned_drop_bit_eq by (simp add: drop_bit_eq_div take_bit_nat_eq_self)

lemma and_127: "x AND 127 = take_bit 7 (x :: u64)"
  by (simp add: take_bit_eq_mask mask_numeral)

lemma and_128: "x AND 128 = (0 :: u64) \<longleftrightarrow> \<not> bit x 7"
  using and_exp_eq_0_iff_not_bit [of x 7] by simp

lemma bit_128: "bit (128 :: u8) n \<longleftrightarrow> n = 7"
proof -
  have "bit ((2 :: u8) ^ 7) n \<longleftrightarrow> n = 7"
    unfolding bit_exp_iff by (auto simp: possible_bit_def)
  then show ?thesis by simp
qed

lemma take_bit_7_less: "v < 128 \<Longrightarrow> take_bit 7 (v :: u64) = v"
  by (simp add: word_unat_eq_iff unsigned_take_bit_eq take_bit_nat_eq_self word_less_nat_alt)

lemma leb128_split:
  "push_bit m (take_bit 7 v) OR push_bit (7 + m) (drop_bit 7 v) = push_bit m (v :: u64)"
proof (rule bit_word_eqI)
  fix n
  have "7 + (n - (7 + m)) = n - m" if "7 + m \<le> n" using that by simp
  then show "bit (push_bit m (take_bit 7 v) OR push_bit (7 + m) (drop_bit 7 v)) n = bit (push_bit m v) n"
    by (cases "7 + m \<le> n") (auto simp: bit_or_iff bit_push_bit_iff bit_take_bit_iff bit_drop_bit_eq)
qed

lemma leb128_last_byte:
  fixes v :: u64
  assumes "v < 128"
  shows "ucast (ucast v :: u8) AND 127 = v" and "ucast (ucast v :: u8) AND (128 :: u64) = 0"
proof -
  have "take_bit 7 (ucast (ucast v :: u8) :: u64) = take_bit 7 v"
    by (rule bit_word_eqI) (auto simp: bit_take_bit_iff bit_ucast_iff)
  then show "ucast (ucast v :: u8) AND 127 = v"
    using take_bit_7_less [OF assms] by (simp add: and_127)
  have "\<not> bit v 7"
    using take_bit_7_less [OF assms] by (metis bit_take_bit_iff less_irrefl)
  then show "ucast (ucast v :: u8) AND (128 :: u64) = 0"
    by (simp add: and_128 bit_ucast_iff)
qed

lemma leb128_next_byte:
  fixes v :: u64
  shows "ucast (ucast v OR 128 :: u8) AND 127 = take_bit 7 v"
    and "ucast (ucast v OR 128 :: u8) AND (128 :: u64) \<noteq> 0"
proof -
  show "ucast (ucast v OR 128 :: u8) AND 127 = take_bit 7 v"
    unfolding and_127
    by (rule bit_word_eqI)
      (auto simp: bit_take_bit_iff bit_ucast_iff bit_or_iff bit_128 simp del: bit_numeral_word_iff)
  show "ucast (ucast v OR 128 :: u8) AND (128 :: u64) \<noteq> 0"
    by (simp add: and_128 bit_ucast_iff bit_or_iff bit_128)
qed

definition uvlc_bits :: "u64 \<Rightarrow> bool list" where
  "uvlc_bits v = (if unat v < 2 ^ 32 - 1 then eg_bits v else replicate 32 False @ [True])"

context byte_source
begin

lemma dec_leb128_byte:
  "dec (read_bits rd 8) (bits_of 8 (b :: u8)) (ucast b)"
  by (rule dec_field) simp_all

lemma dec_leb128_loop:
  "i < 8 \<Longrightarrow> unat v < 2 ^ (7 * (8 - i)) \<Longrightarrow>
     dec (leb128_loop rd i result) (byte_bits (leb128_bytes v)) (result OR push_bit (7 * i) v)"
proof (induction "8 - i" arbitrary: i v result)
  case 0
  then show ?case by simp
next
  case (Suc k)
  show ?case
  proof (cases "v < 128")
    case True
    have "dec (leb128_loop rd i result) (bits_of 8 (ucast v :: u8)) (result OR push_bit (7 * i) v)"
      unfolding leb128_loop.simps [of rd i] if_P [OF Suc.prems(1)]
      by (rule decodes_last [OF dec_leb128_byte])
        (simp only: Let_def leb128_last_byte [OF True] if_True simp_thms decodes_end mult.commute)
    with True show ?thesis by (simp add: leb128_bytes.simps [of v])
  next
    case False
    let ?b = "ucast v OR 128 :: u8"
    let ?r = "result OR push_bit (7 * i) (take_bit 7 v)"
    have i: "i < 7"
    proof (rule ccontr)
      assume "\<not> i < 7"
      with Suc.prems(1) have "i = 7" by simp
      with Suc.prems(2) False show False by (simp add: word_less_nat_alt)
    qed
    have "unat (drop_bit 7 v) < 2 ^ (7 * (8 - (i + 1)))"
    proof -
      have "7 * (8 - i) = 7 * (8 - (i + 1)) + 7" using i by simp
      with Suc.prems(2) have "unat v < 2 ^ (7 * (8 - (i + 1))) * 2 ^ 7"
        by (simp only: power_add)
      then show ?thesis by (simp add: unat_drop_bit less_mult_imp_div_less)
    qed
    moreover have "k = 8 - (i + 1)" "i + 1 < 8" using Suc.hyps(2) i by auto
    ultimately have "dec (leb128_loop rd (i + 1) ?r) (byte_bits (leb128_bytes (drop_bit 7 v)))
        (?r OR push_bit (7 * (i + 1)) (drop_bit 7 v))"
      by (intro Suc.hyps(1))
    moreover have "?r OR push_bit (7 * (i + 1)) (drop_bit 7 v) = result OR push_bit (7 * i) v"
      using leb128_split [of "7 * i" v] by (simp add: or.assoc)
    ultimately have IH: "dec (leb128_loop rd (i + 1) ?r) (byte_bits (leb128_bytes (drop_bit 7 v)))
        (result OR push_bit (7 * i) v)" by simp
    have "dec (leb128_loop rd i result) (bits_of 8 ?b @ byte_bits (leb128_bytes (drop_bit 7 v)))
        (result OR push_bit (7 * i) v)"
      unfolding leb128_loop.simps [of rd i] if_P [OF Suc.prems(1)]
      by (rule decodes_bnd [OF dec_leb128_byte])
        (use IH in \<open>simp only: Let_def leb128_next_byte if_False mult.commute\<close>)
    with False show ?thesis by (simp add: leb128_bytes.simps [of v])
  qed
qed

lemma dec_read_leb128: "unat v < 2 ^ 56 \<Longrightarrow> dec (read_leb128 rd) (byte_bits (leb128_bytes v)) v"
  using dec_leb128_loop [of 0 v 0] by (simp add: read_leb128_def)

lemmas dec_leb128_step [coding] = decodes_bnd [OF dec_read_leb128] decodes_last [OF dec_read_leb128]

lemma dec_uvlc_zeros:
  "m + k < 256 \<Longrightarrow> dec (uvlc_zeros_loop rd m) (replicate k False @ [True]) (m + k)"
proof (induction k arbitrary: m)
  case 0
  show ?case
    by (rule decodesI)
      (auto simp: uvlc_zeros_loop.simps [of rd m] elim: decodesE [OF dec_read_bit [of True]])
next
  case (Suc k)
  then have IH: "dec (uvlc_zeros_loop rd (m + 1)) (replicate k False @ [True]) (m + 1 + k)"
    by (intro Suc.IH) simp
  show ?case
  proof (rule decodesI)
    fix r rest
    assume r: "reader_ok ok r"
      and "rest_bits unread r = (replicate (Suc k) False @ [True]) @ rest"
    then have "rest_bits unread r = [False] @ ((replicate k False @ [True]) @ rest)" by simp
    from decodesE [OF dec_read_bit r this] obtain t where t: "read_bit rd r = (Inr False, t)"
      "rest_bits unread t = (replicate k False @ [True]) @ rest" "reader_ok ok t" .
    from decodesE [OF IH t(3,2)] obtain u where "uvlc_zeros_loop rd (m + 1) t = (Inr (m + 1 + k), u)"
      "rest_bits unread u = rest" "reader_ok ok u" .
    with t Suc.prems show "\<exists>u. uvlc_zeros_loop rd m r = (Inr (m + Suc k), u) \<and>
        rest_bits unread u = rest \<and> reader_ok ok u"
      by (simp add: uvlc_zeros_loop.simps [of rd m])
  qed
qed

lemma dec_read_uvlc:
  assumes "unat v < 2 ^ 32 - 1"
  shows "dec (read_uvlc rd) (eg_bits v) v"
proof -
  let ?k = "log2_loop (v + 1) 0"
  have ok: "eg_ok v" using assms by (simp add: eg_ok_unat)
  note log = eg_log [OF ok] eg_ok_plus [OF ok]
  have "(2 :: nat) ^ ?k < 2 ^ 32" using log(1) assms by simp
  then have k: "?k < 32" by (rule power_less_imp_less_exp [rotated]) simp
  have zeros: "dec (uvlc_zeros_loop rd 0) (replicate ?k False @ [True]) ?k"
    using dec_uvlc_zeros [of 0 ?k] k by simp
  have val: "dec (read_bits rd ?k) (bits_of ?k (v + 1)) (take_bit ?k (v + 1))"
    using dec_read_bits [of "bits_of ?k (v + 1)" ?k] k by simp
  have t: "unat (take_bit ?k (v + 1)) = unat v + 1 - 2 ^ ?k"
  proof -
    have "unat (take_bit ?k (v + 1)) = (unat v + 1) mod 2 ^ ?k"
      unfolding unsigned_take_bit_eq using log by (simp add: take_bit_eq_mod)
    also have "\<dots> = unat v + 1 - 2 ^ ?k"
      using log by (intro mod_nat_eqI) auto
    finally show ?thesis .
  qed
  have p: "unat (push_bit ?k (1 :: u64)) = 2 ^ ?k"
    using k by (simp only: unsigned_push_bit_eq)
      (simp add: push_bit_eq_mult take_bit_nat_eq_self power_strict_increasing)
  have "checked_add (take_bit ?k (v + 1)) (push_bit ?k 1) = Inr (v + 1)"
    using t p log by (intro checked_add_eqI) simp
  moreover have "checked_sub (v + 1) 1 = Inr v"
    using log by (simp add: checked_sub_def word_le_nat_alt)
  ultimately have tail: "dec (if ?k \<ge> 32 then ret (push_bit 32 1 - 1)
     else bnd (read_bits rd ?k) (\<lambda>value.
          bnd (lift_res (checked_add value (push_bit ?k 1))) (\<lambda>sum.
          lift_res (checked_sub sum 1)))) (bits_of ?k (v + 1)) v"
    using k decodes_last [OF val, of "\<lambda>value.
          bnd (lift_res (checked_add value (push_bit ?k 1))) (\<lambda>sum.
          lift_res (checked_sub sum 1))" v]
    by (simp add: decodes_def run_simps)
  show ?thesis
    unfolding read_uvlc_def eg_bits_split [OF ok]
    using decodes_bnd [OF zeros, of "\<lambda>k. if k \<ge> 32 then ret (push_bit 32 1 - 1)
     else bnd (read_bits rd k) (\<lambda>value.
          bnd (lift_res (checked_add value (push_bit k 1))) (\<lambda>sum.
          lift_res (checked_sub sum 1)))", OF tail]
    by simp
qed

text \<open>The escape: 32 zeros and a one are the largest value, with no bits after the one.\<close>

lemma dec_read_uvlc_bits:
  assumes "unat v < 2 ^ 32"
  shows "dec (read_uvlc rd) (uvlc_bits v) v"
proof (cases "unat v < 2 ^ 32 - 1")
  case True
  then show ?thesis using dec_read_uvlc by (simp add: uvlc_bits_def)
next
  case False
  with assms have "unat v = 4294967295" by simp
  then have v: "v = 4294967295" by (simp add: word_unat_eq_iff)
  have "dec (uvlc_zeros_loop rd 0) (replicate 32 False @ [True]) 32"
    using dec_uvlc_zeros [of 0 32] by simp
  then have "dec (read_uvlc rd) (replicate 32 False @ [True]) 4294967295"
    unfolding read_uvlc_def by (rule decodes_last) (simp add: decodes_ret push_bit_eq_mult)
  with v show ?thesis by (simp add: uvlc_bits_def)
qed

lemmas dec_uvlc_step [coding] = decodes_bnd [OF dec_read_uvlc_bits] decodes_last [OF dec_read_uvlc_bits]

end

lemma yields_read_uvlc: "yields (read_uvlc rd) (\<lambda>v. unat v < 2 ^ 32)"
  unfolding read_uvlc_def
proof (rule yields_bnd [OF yields_any])
  fix k
  show "yields (if k \<ge> 32 then ret (push_bit 32 1 - 1)
     else bnd (read_bits rd k) (\<lambda>value.
          bnd (lift_res (checked_add value (push_bit k 1))) (\<lambda>sum.
          lift_res (checked_sub sum 1)))) (\<lambda>v. unat v < 2 ^ 32)"
  proof (cases "k \<ge> 32")
    case True
    then show ?thesis by (simp add: yields_ret push_bit_eq_mult)
  next
    case False
    have "unat b < 2 ^ 32" if v: "unat v < 2 ^ k" and a: "checked_add v (push_bit k 1) = Inr a"
      and b: "checked_sub a 1 = Inr b" for v a b :: u64
    proof -
      have "unat (push_bit k (1 :: u64)) = 2 ^ k"
        using False by (simp only: unsigned_push_bit_eq)
          (simp add: push_bit_eq_mult take_bit_nat_eq_self power_strict_increasing)
      with v a have "unat a < 2 ^ Suc k" by (simp add: checked_add_Inr)
      also have "(2 :: nat) ^ Suc k \<le> 2 ^ 32" using False by (intro power_increasing) auto
      finally show ?thesis using checked_sub_Inr [OF b] by simp
    qed
    with False show ?thesis
      by (auto intro!: yielding simp: yields_def run_simps elim!: bnd_InrE dest: yieldsD [OF yields_read_bits])
  qed
qed

subsection \<open>The properties of the code\<close>

text \<open>A header as the standard encodes it.\<close>

definition obu_extension_bits :: "obu_extension_header \<Rightarrow> bool list" where
  "obu_extension_bits e = bits_of 3 (temporal_id e) @ bits_of 2 (spatial_id e) @ bits_of 3 (0 :: u8)"

definition obu_header_bits :: "obu_header \<Rightarrow> bool list" where
  "obu_header_bits h = False # bits_of 4 (u8_from_obu_type (obu_type h)) @
     (extension_header h \<noteq> None) # (obu_size h \<noteq> None) # False #
     (case extension_header h of None \<Rightarrow> [] | Some e \<Rightarrow> obu_extension_bits e) @
     (case obu_size h of None \<Rightarrow> [] | Some n \<Rightarrow> byte_bits (leb128_bytes n))"

definition obu_header_ok :: "obu_header \<Rightarrow> bool" where
  "obu_header_ok h \<longleftrightarrow> unat (u8_from_obu_type (obu_type h)) < 16 \<and>
     obu_type_from (u8_from_obu_type (obu_type h)) = obu_type h \<and>
     (case extension_header h of None \<Rightarrow> True
        | Some e \<Rightarrow> unat (temporal_id e) < 8 \<and> unat (spatial_id e) < 4) \<and>
     (case obu_size h of None \<Rightarrow> True | Some n \<Rightarrow> unat n < 2 ^ 56)"

lemma length_obu_header_bits: "8 dvd length (obu_header_bits h)"
  by (auto simp: obu_header_bits_def obu_extension_bits_def split: option.splits)

context byte_source
begin

lemma dec_obu_fields:
  assumes "obu_header_ok h"
  shows "dec (obu_fields_read rd) (obu_header_bits h) h"
proof (cases "extension_header h"; cases "obu_size h")
qed (use assms in \<open>simp_all add: obu_header_ok_def obu_fields_read_def obu_header_bits_def
      obu_extension_read_def obu_extension_bits_def coding decodes_assoc\<close>)

end

text \<open>
  Parsing the encoding of an OBU header gives the header back, and the reader is left
  exactly at the payload: no byte too many is consumed, with or without the extension and
  whatever the length of the \<open>leb128\<close> size.
\<close>

theorem obu_header_parse_encoded:
  assumes "obu_header_ok h"
  shows "\<exists>c. obu_header_parse cursor_read (cursor_new (pack_bits (obu_header_bits h) @ payload)) = (Inr h, c) \<and>
    cursor_rest c = payload"
  using cur.with_bit_reader_whole [OF cur.dec_obu_fields [OF assms], of "cursor_new (pack_bits (obu_header_bits h) @ payload)"]
  by (auto simp: length_obu_header_bits obu_header_parse_def with_bit_reader_def obu_header_read_def
      check_aligned_def run_simps)

theorem obu_header_parse_encoded_witness:
  "\<exists>c. obu_header_parse cursor_read (cursor_new (pack_bits (obu_header_bits
      \<lparr>obu_type = SequenceHeader, obu_size = Some 300,
        extension_header = Some \<lparr>temporal_id = 1, spatial_id = 2\<rparr>\<rparr>) @ [7])) =
    (Inr \<lparr>obu_type = SequenceHeader, obu_size = Some 300,
        extension_header = Some \<lparr>temporal_id = 1, spatial_id = 2\<rparr>\<rparr>, c) \<and> cursor_rest c = [7]"
  by (rule obu_header_parse_encoded) (simp add: obu_header_ok_def obu_type_from_def)

text \<open>
  Any value below 2^56 in its shortest \<open>leb128\<close> form is read back by \<open>read_leb128\<close>,
  on any bit position of the reader.
\<close>

theorem read_leb128_encoded:
  assumes "unat v < 2 ^ 56" and "reader_ok (\<lambda>_. True) r"
    and "rest_bits cursor_rest r = byte_bits (leb128_bytes v) @ rest"
  shows "\<exists>r'. read_leb128 cursor_read r = (Inr v, r') \<and> rest_bits cursor_rest r' = rest"
  using cur.dec_read_leb128 [OF assms(1)] assms(2,3) by (auto elim: decodesE)

theorem read_leb128_encoded_witness:
  "\<exists>r'. read_leb128 cursor_read (bit_reader_new (cursor_new [213, 42])) = (Inr 5461, r') \<and>
    rest_bits cursor_rest r' = []"
proof (rule read_leb128_encoded)
  have "leb128_bytes 5461 = [213, 42]"
    by (simp add: leb128_bytes.simps [of 5461] leb128_bytes.simps [of 42])
  then show "rest_bits cursor_rest (bit_reader_new (cursor_new [213, 42])) =
      byte_bits (leb128_bytes 5461) @ []"
    by simp
qed simp_all

text \<open>
  On every value below 2^32 - 1, \<open>read_uvlc\<close> and the Exp-Golomb reader of
  \<open>scuffle-expgolomb\<close> agree: both return the value and stop at the same bit.
\<close>

theorem read_uvlc_is_exp_golomb:
  assumes "unat v < 2 ^ 32 - 1" and "reader_ok (\<lambda>_. True) r"
    and "rest_bits cursor_rest r = eg_bits v @ rest"
  shows "\<exists>r1 r2. read_uvlc cursor_read r = (Inr v, r1) \<and> read_exp_golomb cursor_read r = (Inr v, r2) \<and>
    rest_bits cursor_rest r1 = rest \<and> rest_bits cursor_rest r2 = rest"
proof -
  have "eg_ok v" using assms(1) by (simp add: eg_ok_unat)
  from decodesE [OF cur.dec_read_uvlc [OF assms(1)] assms(2,3)]
    decodesE [OF cur.dec_read_exp_golomb [OF this] assms(2,3)]
  show ?thesis by metis
qed

theorem read_uvlc_is_exp_golomb_witness:
  "\<exists>r1 r2. read_uvlc cursor_read (bit_reader_new (cursor_new (pack_bits (eg_bits 254)))) = (Inr 254, r1) \<and>
    read_exp_golomb cursor_read (bit_reader_new (cursor_new (pack_bits (eg_bits 254)))) = (Inr 254, r2) \<and>
    rest_bits cursor_rest r1 = replicate (pad_len (length (eg_bits 254))) False \<and>
    rest_bits cursor_rest r2 = replicate (pad_len (length (eg_bits 254))) False"
  by (rule read_uvlc_is_exp_golomb) (simp_all add: byte_bits_pack)

end
