(* ===== verification/Av1_Seq.thy ===== *)
theory Av1_Seq
  imports Av1_Obu
begin

text \<open>
  \<open>crates/av1/src/obu/seq.rs\<close>: the sequence header of AV1, with its timing info, decoder
  model info, operating points, frame ids and colour configuration. The parser is proved
  against the bit string of the standard, and everything it returns is well-formed, so that
  a parsed header can always be written again.
\<close>

subsection \<open>Data\<close>

record frame_ids =
  delta_frame_id_length :: u8
  additional_frame_id_length :: u8

record timing_info =
  num_units_in_display_tick :: u32
  time_scale :: u32
  num_ticks_per_picture :: "u64 option"

record decoder_model_info =
  buffer_delay_length :: u8
  num_units_in_decoding_tick :: u32
  buffer_removal_time_length :: u8
  frame_presentation_time_length :: u8

record operating_parameters_info =
  decoder_buffer_delay :: u64
  encoder_buffer_delay :: u64
  low_delay_mode_flag :: bool

record operating_point =
  idc :: u16
  seq_level_idx :: u8
  seq_tier :: bool
  operating_parameters :: "operating_parameters_info option"
  initial_display_delay :: "u8 option"

record color_config =
  bit_depth :: nat
  mono_chrome :: bool
  num_planes :: u8
  color_primaries :: u8
  transfer_characteristics :: u8
  matrix_coefficients :: u8
  full_color_range :: bool
  subsampling_x :: bool
  subsampling_y :: bool
  csample_position :: u8
  separate_uv_delta_q :: bool

text \<open>The enabled coding tools are a group of fields of \<open>SequenceHeaderObu\<close>.\<close>

record seq_tools =
  enable_interintra_compound :: bool
  enable_masked_compound :: bool
  enable_warped_motion :: bool
  enable_dual_filter :: bool
  enable_order_hint :: bool
  enable_jnt_comp :: bool
  enable_ref_frame_mvs :: bool
  seq_force_screen_content_tools :: u8
  seq_force_integer_mv :: u8
  order_hint_bits :: u8

record sequence_header_obu =
  header :: obu_header
  sh_profile :: u8
  still_picture :: bool
  reduced_still_picture_header :: bool
  sh_timing_info :: "timing_info option"
  sh_decoder_model_info :: "decoder_model_info option"
  operating_points :: "operating_point list"
  max_frame_width :: u64
  max_frame_height :: u64
  sh_frame_ids :: "frame_ids option"
  use_128x128_superblock :: bool
  enable_filter_intra :: bool
  enable_intra_edge_filter :: bool
  sh_tools :: seq_tools
  enable_superres :: bool
  enable_cdef :: bool
  enable_restoration :: bool
  sh_color_config :: color_config
  film_grain_params_present :: bool

subsection \<open>The parsers\<close>

text \<open>\<open>bit_reader.read_bits(n)? as u8 + k\<close>\<close>

definition read_u8_plus :: "'s read_fn \<Rightarrow> nat \<Rightarrow> u8 \<Rightarrow> ('s bit_reader, u8) io" where
  "read_u8_plus rd n k = bnd (read_bits rd n) (\<lambda>v. lift_res (checked_add (ucast v) k))"

definition timing_info_parse :: "'s read_fn \<Rightarrow> 's bit_reader byteorder \<Rightarrow> ('s bit_reader, timing_info) io" where
  "timing_info_parse rd bo =
     bnd (bo_u32 bo) (\<lambda>num_units_in_display_tick.
     bnd (bo_u32 bo) (\<lambda>time_scale.
     bnd (read_bit rd) (\<lambda>equal.
     bnd (when_io equal (bnd (read_uvlc rd) (\<lambda>v. lift_res (checked_add v 1)))) (\<lambda>num_ticks_per_picture.
     ret \<lparr>num_units_in_display_tick = num_units_in_display_tick, time_scale = time_scale,
          num_ticks_per_picture = num_ticks_per_picture\<rparr>))))"

definition decoder_model_info_parse :: "'s read_fn \<Rightarrow> 's bit_reader byteorder \<Rightarrow> ('s bit_reader, decoder_model_info) io" where
  "decoder_model_info_parse rd bo =
     bnd (read_u8_plus rd 5 1) (\<lambda>buffer_delay_length.
     bnd (bo_u32 bo) (\<lambda>num_units_in_decoding_tick.
     bnd (read_u8_plus rd 5 1) (\<lambda>buffer_removal_time_length.
     bnd (read_u8_plus rd 5 1) (\<lambda>frame_presentation_time_length.
     ret \<lparr>buffer_delay_length = buffer_delay_length,
          num_units_in_decoding_tick = num_units_in_decoding_tick,
          buffer_removal_time_length = buffer_removal_time_length,
          frame_presentation_time_length = frame_presentation_time_length\<rparr>))))"

definition operating_parameters_info_parse :: "'s read_fn \<Rightarrow> u8 \<Rightarrow> ('s bit_reader, operating_parameters_info) io" where
  "operating_parameters_info_parse rd delay_bit_length =
     bnd (read_bits rd (unat delay_bit_length)) (\<lambda>decoder_buffer_delay.
     bnd (read_bits rd (unat delay_bit_length)) (\<lambda>encoder_buffer_delay.
     bnd (read_bit rd) (\<lambda>low_delay_mode_flag.
     ret \<lparr>decoder_buffer_delay = decoder_buffer_delay, encoder_buffer_delay = encoder_buffer_delay,
          low_delay_mode_flag = low_delay_mode_flag\<rparr>)))"

text \<open>The result is \<open>(color_range, subsampling_x, subsampling_y)\<close>.\<close>

definition color_range_parse :: "'s read_fn \<Rightarrow> u8 \<Rightarrow> u8 \<Rightarrow> u8 \<Rightarrow> u8 \<Rightarrow> nat \<Rightarrow> ('s bit_reader, bool \<times> bool \<times> bool) io" where
  "color_range_parse rd seq_profile cp tc mc depth =
     (if cp = 1 \<and> tc = 13 \<and> mc = 0 then ret (True, False, False)
      else bnd (read_bit rd) (\<lambda>color_range.
        if seq_profile = 0 then ret (color_range, True, True)
        else if seq_profile = 1 then ret (color_range, False, False)
        else if depth = 12 then
          bnd (read_bit rd) (\<lambda>subx.
          if subx then bnd (read_bit rd) (\<lambda>suby. ret (color_range, subx, suby))
          else ret (color_range, subx, False))
        else ret (color_range, True, False)))"

definition bit_depth_parse :: "'s read_fn \<Rightarrow> u8 \<Rightarrow> ('s bit_reader, nat) io" where
  "bit_depth_parse rd seq_profile =
     bnd (read_bit rd) (\<lambda>high_bitdepth.
     if seq_profile = 2 \<and> high_bitdepth
     then bnd (read_bit rd) (\<lambda>b. ret (if b then 12 else 10))
     else ret (if high_bitdepth then 10 else 8))"

text \<open>The three coefficients, unspecified when the flag is not set.\<close>

definition color_description_parse :: "'s read_fn \<Rightarrow> ('s bit_reader, u8 \<times> u8 \<times> u8) io" where
  "color_description_parse rd =
     bnd (read_bit rd) (\<lambda>color_description_present_flag.
     if color_description_present_flag then
       bnd (read_bits rd 8) (\<lambda>color_primaries.
       bnd (read_bits rd 8) (\<lambda>transfer_characteristics.
       bnd (read_bits rd 8) (\<lambda>matrix_coefficients.
       ret (ucast color_primaries, ucast transfer_characteristics, ucast matrix_coefficients))))
     else ret (2, 2, 2))"

definition color_config_parse :: "'s read_fn \<Rightarrow> u8 \<Rightarrow> ('s bit_reader, color_config) io" where
  "color_config_parse rd seq_profile =
     bnd (bit_depth_parse rd seq_profile) (\<lambda>bit_depth.
     bnd (if seq_profile = 1 then ret False else read_bit rd) (\<lambda>mono_chrome.
     bnd (color_description_parse rd) (\<lambda>(cp, tc, mc).
     if mono_chrome then
       bnd (read_bit rd) (\<lambda>full_color_range.
       ret \<lparr>bit_depth = bit_depth, mono_chrome = mono_chrome, num_planes = 1, color_primaries = cp,
            transfer_characteristics = tc, matrix_coefficients = mc,
            full_color_range = full_color_range, subsampling_x = True, subsampling_y = True,
            csample_position = 0, separate_uv_delta_q = False\<rparr>)
     else
       bnd (color_range_parse rd seq_profile cp tc mc bit_depth) (\<lambda>(color_range, subx, suby).
       bnd (if subx \<and> suby then bnd (read_bits rd 2) (\<lambda>v. ret (ucast v)) else ret 0) (\<lambda>chroma_sample_position.
       bnd (read_bit rd) (\<lambda>separate_uv_delta_q.
       ret \<lparr>bit_depth = bit_depth, mono_chrome = mono_chrome, num_planes = 3, color_primaries = cp,
            transfer_characteristics = tc, matrix_coefficients = mc,
            full_color_range = color_range, subsampling_x = subx, subsampling_y = suby,
            csample_position = chroma_sample_position, separate_uv_delta_q = separate_uv_delta_q\<rparr>))))))"

text \<open>One turn of the loop over the operating points.\<close>

definition operating_point_parse :: "'s read_fn \<Rightarrow> decoder_model_info option \<Rightarrow> bool \<Rightarrow> ('s bit_reader, operating_point) io" where
  "operating_point_parse rd model initial_display_delay_present_flag =
     bnd (read_bits rd 12) (\<lambda>idc.
     bnd (read_bits rd 5) (\<lambda>seq_level_idx.
     bnd (if (ucast seq_level_idx :: u8) > 7 then read_bit rd else ret False) (\<lambda>seq_tier.
     bnd (case model of
            Some m \<Rightarrow> bnd (read_bit rd) (\<lambda>b. ret (if b then Some (buffer_delay_length m) else None))
          | None \<Rightarrow> ret None) (\<lambda>delay_bit_length.
     bnd (case delay_bit_length of
            Some n \<Rightarrow> bnd (operating_parameters_info_parse rd n) (\<lambda>p. ret (Some p))
          | None \<Rightarrow> ret None) (\<lambda>params.
     bnd (if initial_display_delay_present_flag then
            bnd (read_bit rd) (\<lambda>b. when_io b (read_u8_plus rd 4 1))
          else ret None) (\<lambda>initial_display_delay.
     ret \<lparr>idc = ucast idc, seq_level_idx = ucast seq_level_idx, seq_tier = seq_tier,
          operating_parameters = params, initial_display_delay = initial_display_delay\<rparr>))))))"

text \<open>The timing info, the decoder model and the operating points of a full header.\<close>

definition operating_points_parse :: "'s read_fn \<Rightarrow> 's bit_reader byteorder \<Rightarrow>
    ('s bit_reader, timing_info option \<times> decoder_model_info option \<times> operating_point list) io" where
  "operating_points_parse rd bo =
     bnd (read_bit rd) (\<lambda>timing_info_present_flag.
     bnd (if timing_info_present_flag then
            bnd (timing_info_parse rd bo) (\<lambda>t.
            bnd (read_bit rd) (\<lambda>decoder_model_info_present_flag.
            bnd (when_io decoder_model_info_present_flag (decoder_model_info_parse rd bo)) (\<lambda>m.
            ret (Some t, m))))
          else ret (None, None)) (\<lambda>(timing_info, decoder_model_info).
     bnd (read_bit rd) (\<lambda>initial_display_delay_present_flag.
     bnd (read_u8_plus rd 5 1) (\<lambda>count.
     bnd (times_io (unat count)
            (operating_point_parse rd decoder_model_info initial_display_delay_present_flag)) (\<lambda>ps.
     ret (timing_info, decoder_model_info, ps))))))"

definition frame_size_parse :: "'s read_fn \<Rightarrow> ('s bit_reader, u64 \<times> u64) io" where
  "frame_size_parse rd =
     bnd (read_u8_plus rd 4 1) (\<lambda>frame_width_bits.
     bnd (read_u8_plus rd 4 1) (\<lambda>frame_height_bits.
     bnd (bnd (read_bits rd (unat frame_width_bits)) (\<lambda>v. lift_res (checked_add v 1))) (\<lambda>max_frame_width.
     bnd (bnd (read_bits rd (unat frame_height_bits)) (\<lambda>v. lift_res (checked_add v 1))) (\<lambda>max_frame_height.
     ret (max_frame_width, max_frame_height)))))"

definition frame_ids_parse :: "'s read_fn \<Rightarrow> bool \<Rightarrow> ('s bit_reader, frame_ids option) io" where
  "frame_ids_parse rd reduced =
     bnd (if reduced then ret False else read_bit rd) (\<lambda>frame_id_numbers_present_flag.
     when_io frame_id_numbers_present_flag
       (bnd (read_u8_plus rd 4 2) (\<lambda>delta.
        bnd (read_u8_plus rd 3 1) (\<lambda>additional.
        ret \<lparr>delta_frame_id_length = delta, additional_frame_id_length = additional\<rparr>))))"

definition seq_tools_reduced :: seq_tools where
  "seq_tools_reduced = \<lparr>enable_interintra_compound = False, enable_masked_compound = False,
     enable_warped_motion = False, enable_dual_filter = False, enable_order_hint = False,
     enable_jnt_comp = False, enable_ref_frame_mvs = False, seq_force_screen_content_tools = 2,
     seq_force_integer_mv = 2, order_hint_bits = 0\<rparr>"

definition seq_tools_parse :: "'s read_fn \<Rightarrow> bool \<Rightarrow> ('s bit_reader, seq_tools) io" where
  "seq_tools_parse rd reduced =
     (if \<not> reduced then
        bnd (read_bit rd) (\<lambda>interintra.
        bnd (read_bit rd) (\<lambda>masked.
        bnd (read_bit rd) (\<lambda>warped.
        bnd (read_bit rd) (\<lambda>dual.
        bnd (read_bit rd) (\<lambda>order_hint.
        bnd (if order_hint then read_bit rd else ret False) (\<lambda>jnt_comp.
        bnd (if order_hint then read_bit rd else ret False) (\<lambda>ref_frame_mvs.
        bnd (read_bit rd) (\<lambda>choose_screen.
        bnd (if choose_screen then ret 2 else bnd (read_bits rd 1) (\<lambda>v. ret (ucast v))) (\<lambda>screen.
        bnd (if screen = 0 then ret True else read_bit rd) (\<lambda>choose_integer_mv.
        bnd (if choose_integer_mv then ret 2 else bnd (read_bits rd 1) (\<lambda>v. ret (ucast v))) (\<lambda>integer_mv.
        bnd (if order_hint then read_u8_plus rd 3 1 else ret 0) (\<lambda>hint_bits.
        ret \<lparr>enable_interintra_compound = interintra, enable_masked_compound = masked,
          enable_warped_motion = warped, enable_dual_filter = dual, enable_order_hint = order_hint,
          enable_jnt_comp = jnt_comp, enable_ref_frame_mvs = ref_frame_mvs,
          seq_force_screen_content_tools = screen, seq_force_integer_mv = integer_mv,
          order_hint_bits = hint_bits\<rparr>))))))))))))
      else ret seq_tools_reduced)"

definition sequence_header_read :: "'s read_fn \<Rightarrow> 's bit_reader byteorder \<Rightarrow> obu_header \<Rightarrow> ('s bit_reader, sequence_header_obu) io" where
  "sequence_header_read rd bo hdr =
     bnd (read_bits rd 3) (\<lambda>profile.
     bnd (read_bit rd) (\<lambda>still_picture.
     bnd (read_bit rd) (\<lambda>reduced.
     bnd (guard (still_picture \<or> \<not> reduced)
       (IoErr InvalidData ''reduced_still_picture_header is true but still_picture is false'')) (\<lambda>_.
     bnd (if reduced then bnd (read_bits rd 5) (\<lambda>level.
            ret (None, None, [\<lparr>idc = 0, seq_level_idx = ucast level, seq_tier = False,
              operating_parameters = None, initial_display_delay = None\<rparr>]))
          else operating_points_parse rd bo) (\<lambda>(timing_info, model, points).
     bnd (frame_size_parse rd) (\<lambda>(width, height).
     bnd (frame_ids_parse rd reduced) (\<lambda>frame_ids.
     bnd (read_bit rd) (\<lambda>use_128x128_superblock.
     bnd (read_bit rd) (\<lambda>enable_filter_intra.
     bnd (read_bit rd) (\<lambda>enable_intra_edge_filter.
     bnd (seq_tools_parse rd reduced) (\<lambda>tools.
     bnd (read_bit rd) (\<lambda>enable_superres.
     bnd (read_bit rd) (\<lambda>enable_cdef.
     bnd (read_bit rd) (\<lambda>enable_restoration.
     bnd (color_config_parse rd (ucast profile)) (\<lambda>color_config.
     bnd (read_bit rd) (\<lambda>film_grain_params_present.
     ret \<lparr>header = hdr, sh_profile = ucast profile, still_picture = still_picture,
       reduced_still_picture_header = reduced, sh_timing_info = timing_info,
       sh_decoder_model_info = model, operating_points = points, max_frame_width = width,
       max_frame_height = height, sh_frame_ids = frame_ids,
       use_128x128_superblock = use_128x128_superblock, enable_filter_intra = enable_filter_intra,
       enable_intra_edge_filter = enable_intra_edge_filter, sh_tools = tools,
       enable_superres = enable_superres, enable_cdef = enable_cdef,
       enable_restoration = enable_restoration, sh_color_config = color_config,
       film_grain_params_present = film_grain_params_present\<rparr>))))))))))))))))"

definition sequence_header_parse :: "'s read_fn \<Rightarrow> 's bit_reader byteorder \<Rightarrow> obu_header \<Rightarrow> ('s, sequence_header_obu) io" where
  "sequence_header_parse rd bo hdr = with_bit_reader (sequence_header_read rd bo hdr)"

subsection \<open>The encodings of the standard\<close>

definition timing_info_bits :: "timing_info \<Rightarrow> bool list" where
  "timing_info_bits t = bits_of 32 (num_units_in_display_tick t) @ bits_of 32 (time_scale t) @
     (case num_ticks_per_picture t of None \<Rightarrow> [False] | Some v \<Rightarrow> True # uvlc_bits (v - 1))"

definition timing_info_ok :: "timing_info \<Rightarrow> bool" where
  "timing_info_ok t \<longleftrightarrow> (case num_ticks_per_picture t of None \<Rightarrow> True
     | Some v \<Rightarrow> 1 \<le> unat v \<and> unat v \<le> 2 ^ 32)"

definition decoder_model_bits :: "decoder_model_info \<Rightarrow> bool list" where
  "decoder_model_bits m = bits_of 5 (buffer_delay_length m - 1) @
     bits_of 32 (num_units_in_decoding_tick m) @ bits_of 5 (buffer_removal_time_length m - 1) @
     bits_of 5 (frame_presentation_time_length m - 1)"

definition u8_between :: "nat \<Rightarrow> nat \<Rightarrow> u8 \<Rightarrow> bool" where
  "u8_between lo hi v \<longleftrightarrow> lo \<le> unat v \<and> unat v \<le> hi"

definition decoder_model_ok :: "decoder_model_info \<Rightarrow> bool" where
  "decoder_model_ok m \<longleftrightarrow> u8_between 1 32 (buffer_delay_length m) \<and>
     u8_between 1 32 (buffer_removal_time_length m) \<and> u8_between 1 32 (frame_presentation_time_length m)"

definition operating_parameters_bits :: "u8 \<Rightarrow> operating_parameters_info \<Rightarrow> bool list" where
  "operating_parameters_bits n p = bits_of (unat n) (decoder_buffer_delay p) @
     bits_of (unat n) (encoder_buffer_delay p) @ [low_delay_mode_flag p]"

definition operating_parameters_ok :: "u8 \<Rightarrow> operating_parameters_info \<Rightarrow> bool" where
  "operating_parameters_ok n p \<longleftrightarrow> unat (decoder_buffer_delay p) < 2 ^ unat n \<and>
     unat (encoder_buffer_delay p) < 2 ^ unat n"

definition operating_point_bits :: "decoder_model_info option \<Rightarrow> bool \<Rightarrow> operating_point \<Rightarrow> bool list" where
  "operating_point_bits model delays p = bits_of 12 (idc p) @ bits_of 5 (seq_level_idx p) @
     (if seq_level_idx p > 7 then [seq_tier p] else []) @
     (case model of None \<Rightarrow> []
      | Some m \<Rightarrow> (case operating_parameters p of None \<Rightarrow> [False]
          | Some q \<Rightarrow> True # operating_parameters_bits (buffer_delay_length m) q)) @
     (if delays then (case initial_display_delay p of None \<Rightarrow> [False] | Some d \<Rightarrow> True # bits_of 4 (d - 1))
      else [])"

definition operating_point_ok :: "decoder_model_info option \<Rightarrow> bool \<Rightarrow> operating_point \<Rightarrow> bool" where
  "operating_point_ok model delays p \<longleftrightarrow> unat (idc p) < 2 ^ 12 \<and> unat (seq_level_idx p) < 2 ^ 5 \<and>
     (seq_tier p \<longrightarrow> seq_level_idx p > 7) \<and>
     (case operating_parameters p of None \<Rightarrow> True
      | Some q \<Rightarrow> (case model of None \<Rightarrow> False
                    | Some m \<Rightarrow> operating_parameters_ok (buffer_delay_length m) q)) \<and>
     (case initial_display_delay p of None \<Rightarrow> True | Some d \<Rightarrow> delays \<and> u8_between 1 16 d)"

text \<open>The flag for display delays has to be set when one point has a delay.\<close>

definition has_delays :: "operating_point list \<Rightarrow> bool" where
  "has_delays ps \<longleftrightarrow> list_ex (\<lambda>p. initial_display_delay p \<noteq> None) ps"

definition operating_points_bits ::
    "timing_info option \<times> decoder_model_info option \<times> operating_point list \<Rightarrow> bool list" where
  "operating_points_bits = (\<lambda>(t, m, ps).
     (case t of None \<Rightarrow> [False]
      | Some t \<Rightarrow> True # timing_info_bits t @
          (case m of None \<Rightarrow> [False] | Some m \<Rightarrow> True # decoder_model_bits m)) @
     [has_delays ps] @ bits_of 5 (of_nat (length ps) - 1 :: u8) @
     concat (map (operating_point_bits m (has_delays ps)) ps))"

definition operating_points_ok ::
    "timing_info option \<times> decoder_model_info option \<times> operating_point list \<Rightarrow> bool" where
  "operating_points_ok = (\<lambda>(t, m, ps).
     (case t of None \<Rightarrow> m = None | Some t \<Rightarrow> timing_info_ok t) \<and>
     (case m of None \<Rightarrow> True | Some m \<Rightarrow> decoder_model_ok m) \<and>
     1 \<le> length ps \<and> length ps \<le> 32 \<and> list_all (operating_point_ok m (has_delays ps)) ps)"

definition frame_size_bits :: "u8 \<Rightarrow> u8 \<Rightarrow> u64 \<times> u64 \<Rightarrow> bool list" where
  "frame_size_bits wb hb = (\<lambda>(w, h). bits_of 4 (wb - 1) @ bits_of 4 (hb - 1) @
     bits_of (unat wb) (w - 1) @ bits_of (unat hb) (h - 1))"

definition frame_size_ok :: "u8 \<Rightarrow> u8 \<Rightarrow> u64 \<times> u64 \<Rightarrow> bool" where
  "frame_size_ok wb hb = (\<lambda>(w, h). u8_between 1 16 wb \<and> u8_between 1 16 hb \<and>
     1 \<le> unat w \<and> unat w \<le> 2 ^ unat wb \<and> 1 \<le> unat h \<and> unat h \<le> 2 ^ unat hb)"

definition frame_ids_bits :: "bool \<Rightarrow> frame_ids option \<Rightarrow> bool list" where
  "frame_ids_bits reduced v = (if reduced then [] else
     (case v of None \<Rightarrow> [False] | Some f \<Rightarrow> True # bits_of 4 (delta_frame_id_length f - 2) @
        bits_of 3 (additional_frame_id_length f - 1)))"

definition frame_ids_ok :: "bool \<Rightarrow> frame_ids option \<Rightarrow> bool" where
  "frame_ids_ok reduced v \<longleftrightarrow> (case v of None \<Rightarrow> True
     | Some f \<Rightarrow> \<not> reduced \<and> u8_between 2 17 (delta_frame_id_length f) \<and>
         u8_between 1 8 (additional_frame_id_length f))"

definition seq_tools_bits :: "bool \<Rightarrow> seq_tools \<Rightarrow> bool list" where
  "seq_tools_bits reduced t = (if reduced then [] else
     [enable_interintra_compound t, enable_masked_compound t, enable_warped_motion t,
      enable_dual_filter t, enable_order_hint t] @
     (if enable_order_hint t then [enable_jnt_comp t, enable_ref_frame_mvs t] else []) @
     (if seq_force_screen_content_tools t = 2 then [True]
      else False # bits_of 1 (seq_force_screen_content_tools t)) @
     (if seq_force_screen_content_tools t = 0 then []
      else if seq_force_integer_mv t = 2 then [True] else False # bits_of 1 (seq_force_integer_mv t)) @
     (if enable_order_hint t then bits_of 3 (order_hint_bits t - 1) else []))"

definition seq_tools_ok :: "bool \<Rightarrow> seq_tools \<Rightarrow> bool" where
  "seq_tools_ok reduced t \<longleftrightarrow> (if reduced then t = seq_tools_reduced else
     (if enable_order_hint t then u8_between 1 8 (order_hint_bits t)
      else \<not> enable_jnt_comp t \<and> \<not> enable_ref_frame_mvs t \<and> order_hint_bits t = 0) \<and>
     unat (seq_force_screen_content_tools t) \<le> 2 \<and> unat (seq_force_integer_mv t) \<le> 2 \<and>
     (seq_force_screen_content_tools t = 0 \<longrightarrow> seq_force_integer_mv t = 2))"

definition color_range_bits :: "u8 \<Rightarrow> color_config \<Rightarrow> bool list" where
  "color_range_bits profile c =
     (if color_primaries c = 1 \<and> transfer_characteristics c = 13 \<and> matrix_coefficients c = 0 then []
      else full_color_range c #
        (if profile = 0 \<or> profile = 1 \<or> bit_depth c \<noteq> 12 then []
         else if subsampling_x c then [True, subsampling_y c] else [False]))"

definition color_range_ok :: "u8 \<Rightarrow> color_config \<Rightarrow> bool" where
  "color_range_ok profile c \<longleftrightarrow>
     (if color_primaries c = 1 \<and> transfer_characteristics c = 13 \<and> matrix_coefficients c = 0
      then full_color_range c \<and> \<not> subsampling_x c \<and> \<not> subsampling_y c
      else if profile = 0 then subsampling_x c \<and> subsampling_y c
      else if profile = 1 then \<not> subsampling_x c \<and> \<not> subsampling_y c
      else if bit_depth c = 12 then subsampling_y c \<longrightarrow> subsampling_x c
      else subsampling_x c \<and> \<not> subsampling_y c)"

definition color_config_bits :: "u8 \<Rightarrow> color_config \<Rightarrow> bool list" where
  "color_config_bits profile c =
     (bit_depth c \<noteq> 8) # (if profile = 2 \<and> bit_depth c \<noteq> 8 then [bit_depth c = 12] else []) @
     (if profile = 1 then [] else [mono_chrome c]) @
     (if color_primaries c = 2 \<and> transfer_characteristics c = 2 \<and> matrix_coefficients c = 2 then [False]
      else True # bits_of 8 (color_primaries c) @ bits_of 8 (transfer_characteristics c) @
        bits_of 8 (matrix_coefficients c)) @
     (if mono_chrome c then [full_color_range c]
      else color_range_bits profile c @
        (if subsampling_x c \<and> subsampling_y c then bits_of 2 (csample_position c) else []) @
        [separate_uv_delta_q c])"

definition color_config_ok :: "u8 \<Rightarrow> color_config \<Rightarrow> bool" where
  "color_config_ok profile c \<longleftrightarrow>
     (bit_depth c = 8 \<or> bit_depth c = 10 \<or> bit_depth c = 12 \<and> profile = 2) \<and>
     (if mono_chrome c then profile \<noteq> 1 \<and> num_planes c = 1 \<and> subsampling_x c \<and> subsampling_y c \<and>
        csample_position c = 0 \<and> \<not> separate_uv_delta_q c
      else num_planes c = 3 \<and> color_range_ok profile c \<and>
        (if subsampling_x c \<and> subsampling_y c then unat (csample_position c) < 4
         else csample_position c = 0))"

text \<open>\<open>wb\<close> and \<open>hb\<close> are the widths chosen for the frame size.\<close>

definition sequence_header_bits :: "u8 \<Rightarrow> u8 \<Rightarrow> sequence_header_obu \<Rightarrow> bool list" where
  "sequence_header_bits wb hb h = bits_of 3 (sh_profile h) @
     still_picture h # reduced_still_picture_header h #
     (if reduced_still_picture_header h then bits_of 5 (seq_level_idx (hd (operating_points h)))
      else operating_points_bits (sh_timing_info h, sh_decoder_model_info h, operating_points h)) @
     frame_size_bits wb hb (max_frame_width h, max_frame_height h) @
     frame_ids_bits (reduced_still_picture_header h) (sh_frame_ids h) @
     use_128x128_superblock h # enable_filter_intra h # enable_intra_edge_filter h #
     seq_tools_bits (reduced_still_picture_header h) (sh_tools h) @
     enable_superres h # enable_cdef h # enable_restoration h #
     color_config_bits (sh_profile h) (sh_color_config h) @ [film_grain_params_present h]"

definition reduced_points_ok :: "operating_point list \<Rightarrow> bool" where
  "reduced_points_ok ps \<longleftrightarrow> (\<exists>v < 32. ps = [\<lparr>idc = 0, seq_level_idx = v, seq_tier = False,
     operating_parameters = None, initial_display_delay = None\<rparr>])"

definition sequence_header_ok :: "u8 \<Rightarrow> u8 \<Rightarrow> sequence_header_obu \<Rightarrow> bool" where
  "sequence_header_ok wb hb h \<longleftrightarrow> unat (sh_profile h) < 8 \<and>
     (reduced_still_picture_header h \<longrightarrow> still_picture h) \<and>
     (if reduced_still_picture_header h
      then sh_timing_info h = None \<and> sh_decoder_model_info h = None \<and> reduced_points_ok (operating_points h)
      else operating_points_ok (sh_timing_info h, sh_decoder_model_info h, operating_points h)) \<and>
     frame_size_ok wb hb (max_frame_width h, max_frame_height h) \<and>
     frame_ids_ok (reduced_still_picture_header h) (sh_frame_ids h) \<and>
     seq_tools_ok (reduced_still_picture_header h) (sh_tools h) \<and>
     color_config_ok (sh_profile h) (sh_color_config h)"

subsection \<open>Decoding\<close>

lemma checked_pred_succ:
  fixes x :: "'n::len word"
  assumes "unat k \<le> unat x"
  shows "checked_add (x - k) k = Inr x"
  using assms by (intro checked_add_eqI) (simp add: unat_sub word_le_nat_alt)

context byte_source
begin

lemma dec_u8_plus:
  assumes "u8_between (unat k) (2 ^ n + unat k - 1) x" and "n \<le> 8"
  shows "dec (read_u8_plus rd n k) (bits_of n (x - k)) x"
proof -
  have k: "unat k \<le> unat x" and x: "unat x \<le> 2 ^ n + unat k - 1"
    using assms(1) by (simp_all add: u8_between_def)
  have "unat (x - k) = unat x - unat k" using k by (simp add: unat_sub word_le_nat_alt)
  moreover have "0 < (2 :: nat) ^ n" by simp
  ultimately have "unat (x - k) < 2 ^ n" using k x by linarith
  with assms(2) show ?thesis
    unfolding read_u8_plus_def
    by (intro decodes_last [OF dec_field]) (simp_all add: checked_pred_succ [OF k] decodes_def run_simps)
qed

lemma dec_u8_plus_num:
  "u8_between 1 16 x \<Longrightarrow> dec (read_u8_plus rd 4 1) (bits_of 4 (x - 1)) x"
  "u8_between 1 32 x \<Longrightarrow> dec (read_u8_plus rd 5 1) (bits_of 5 (x - 1)) x"
  "u8_between 1 8 x \<Longrightarrow> dec (read_u8_plus rd 3 1) (bits_of 3 (x - 1)) x"
  "u8_between 2 17 x \<Longrightarrow> dec (read_u8_plus rd 4 2) (bits_of 4 (x - 2)) x"
  using dec_u8_plus [of 1 4 x] dec_u8_plus [of 1 5 x] dec_u8_plus [of 1 3 x] dec_u8_plus [of 2 4 x]
  by simp_all

lemmas dec_u8_plus_step [coding] =
  dec_u8_plus_num [THEN decodes_bnd] dec_u8_plus_num [THEN decodes_last] dec_u8_plus_num

lemma dec_timing_info:
  assumes "byteorder_reads (bit_reader_read rd) bo" and "timing_info_ok t"
  shows "dec (timing_info_parse rd bo) (timing_info_bits t) t"
proof (cases "num_ticks_per_picture t")
  case None
  with assms(1) show ?thesis
    by (simp add: timing_info_parse_def timing_info_bits_def coding)
next
  case (Some v)
  with assms(2) have v: "1 \<le> unat v" "unat v \<le> 2 ^ 32" by (simp_all add: timing_info_ok_def)
  then have "unat (v - 1) < 2 ^ 32" by (simp add: unat_sub word_le_nat_alt)
  with v Some assms(1) show ?thesis
    by (simp add: timing_info_parse_def timing_info_bits_def coding decodes_assoc checked_pred_succ)
qed

lemma dec_decoder_model:
  "byteorder_reads (bit_reader_read rd) bo \<Longrightarrow> decoder_model_ok m \<Longrightarrow>
     dec (decoder_model_info_parse rd bo) (decoder_model_bits m) m"
  by (simp add: decoder_model_info_parse_def decoder_model_bits_def decoder_model_ok_def coding)

lemma dec_operating_parameters:
  "operating_parameters_ok n p \<Longrightarrow> unat n \<le> 32 \<Longrightarrow>
     dec (operating_parameters_info_parse rd n) (operating_parameters_bits n p) p"
  by (simp add: operating_parameters_info_parse_def operating_parameters_bits_def
      operating_parameters_ok_def coding)

lemma dec_operating_point:
  assumes "operating_point_ok model delays p"
    and "case model of None \<Rightarrow> True | Some m \<Rightarrow> decoder_model_ok m"
  shows "dec (operating_point_parse rd model delays) (operating_point_bits model delays p) p"
proof -
  have tier: "dec (if seq_level_idx p > 7 then read_bit rd else ret False)
      (if seq_level_idx p > 7 then [seq_tier p] else []) (seq_tier p)"
    using assms(1) by (auto simp: operating_point_ok_def dec_read_bit decodes_ret)
  have params: "dec (bnd (case model of
            Some m \<Rightarrow> bnd (read_bit rd) (\<lambda>b. ret (if b then Some (buffer_delay_length m) else None))
          | None \<Rightarrow> ret None) (\<lambda>delay_bit_length.
        case delay_bit_length of
            Some n \<Rightarrow> bnd (operating_parameters_info_parse rd n) (\<lambda>p. ret (Some p))
          | None \<Rightarrow> ret None))
      (case model of None \<Rightarrow> []
       | Some m \<Rightarrow> (case operating_parameters p of None \<Rightarrow> [False]
          | Some q \<Rightarrow> True # operating_parameters_bits (buffer_delay_length m) q))
      (operating_parameters p)"
    using assms
    by (cases model; cases "operating_parameters p")
      (simp_all add: coding operating_point_ok_def decoder_model_ok_def u8_between_def
        decodes_last [OF dec_operating_parameters])
  have delay: "dec (if delays then bnd (read_bit rd) (\<lambda>b. when_io b (read_u8_plus rd 4 1)) else ret None)
      (if delays then (case initial_display_delay p of None \<Rightarrow> [False] | Some d \<Rightarrow> True # bits_of 4 (d - 1))
       else []) (initial_display_delay p)"
    using assms(1)
    by (cases "initial_display_delay p") (simp_all add: coding operating_point_ok_def)
  show ?thesis
    using assms(1)
    by (simp add: operating_point_parse_def operating_point_bits_def operating_point_ok_def coding
        decodes_bnd [OF tier] decodes_bnd [OF params, unfolded bnd_assoc] decodes_last [OF delay])
qed

lemma dec_timing_and_model:
  assumes "byteorder_reads (bit_reader_read rd) bo" and "operating_points_ok (t, m, ps)"
  shows "dec (bnd (read_bit rd) (\<lambda>timing_info_present_flag.
          if timing_info_present_flag then
            bnd (timing_info_parse rd bo) (\<lambda>t.
            bnd (read_bit rd) (\<lambda>decoder_model_info_present_flag.
            bnd (when_io decoder_model_info_present_flag (decoder_model_info_parse rd bo)) (\<lambda>m.
            ret (Some t, m))))
          else ret (None, None)))
      (case t of None \<Rightarrow> [False]
      | Some t \<Rightarrow> True # timing_info_bits t @
          (case m of None \<Rightarrow> [False] | Some m \<Rightarrow> True # decoder_model_bits m)) (t, m)"
  using assms
  by (cases t; cases m)
    (simp_all add: operating_points_ok_def coding decodes_bnd [OF dec_timing_info] decodes_assoc
      decodes_last [OF dec_decoder_model])

lemma dec_operating_points:
  assumes "byteorder_reads (bit_reader_read rd) bo" and "operating_points_ok (t, m, ps)"
  shows "dec (operating_points_parse rd bo) (operating_points_bits (t, m, ps)) (t, m, ps)"
proof -
  let ?d = "has_delays ps"
  have len: "unat (of_nat (length ps) :: u8) = length ps"
    using assms(2) by (simp add: operating_points_ok_def unat_of_nat)
  have count: "u8_between 1 32 (of_nat (length ps))"
    using assms(2) by (simp add: u8_between_def len operating_points_ok_def)
  have pts: "dec (times_io (length ps) (operating_point_parse rd m ?d))
      (concat (map (operating_point_bits m ?d) ps)) ps"
    using assms(2) by (intro decodes_times dec_operating_point)
      (auto simp: operating_points_ok_def list_all_iff)
  show ?thesis
    unfolding operating_points_parse_def operating_points_bits_def prod.case
    by (rule decodes_bnd [OF dec_timing_and_model [OF assms], unfolded bnd_assoc])
      (simp add: coding decodes_bnd [OF dec_u8_plus_num(2) [OF count]] len decodes_last [OF pts])
qed

lemma dec_frame_size:
  assumes "frame_size_ok wb hb (w, h)"
  shows "dec (frame_size_parse rd) (frame_size_bits wb hb (w, h)) (w, h)"
proof -
  have side: "dec (bnd (read_bits rd (unat b)) (\<lambda>v. lift_res (checked_add v 1))) (bits_of (unat b) (x - 1)) x"
    if "u8_between 1 16 b" "1 \<le> unat x" "unat x \<le> 2 ^ unat b" for b :: u8 and x :: u64
  proof -
    have "unat (x - 1) < 2 ^ unat b" using that(2,3) by (simp add: unat_sub word_le_nat_alt)
    with that show ?thesis
      by (intro decodes_last [OF dec_field])
        (simp_all add: u8_between_def checked_pred_succ decodes_def run_simps)
  qed
  show ?thesis
    using assms unfolding frame_size_parse_def frame_size_bits_def frame_size_ok_def prod.case
    by (intro decodes_bnd [OF dec_u8_plus_num(1)] decodes_bnd [OF side] decodes_last [OF side] decodes_ret)
      simp_all
qed

lemma dec_frame_ids:
  "frame_ids_ok reduced v \<Longrightarrow> dec (frame_ids_parse rd reduced) (frame_ids_bits reduced v) v"
  by (cases v; cases reduced)
    (simp_all add: frame_ids_parse_def frame_ids_bits_def frame_ids_ok_def coding decodes_assoc)

lemma dec_seq_tools:
  assumes "seq_tools_ok reduced t"
  shows "dec (seq_tools_parse rd reduced) (seq_tools_bits reduced t) t"
proof (cases reduced)
  case True
  with assms show ?thesis
    by (simp add: seq_tools_parse_def seq_tools_bits_def seq_tools_ok_def decodes_ret)
next
  case False
  have hint: "dec (if enable_order_hint t then read_u8_plus rd 3 1 else ret 0)
      (if enable_order_hint t then bits_of 3 (order_hint_bits t - 1) else []) (order_hint_bits t)"
    using assms False by (cases "enable_order_hint t") (simp_all add: seq_tools_ok_def coding)
  have screen: "dec (bnd (read_bit rd) (\<lambda>c. if c then ret 2 else bnd (read_bits rd 1) (\<lambda>v. ret (ucast v))))
      (if x = 2 then [True] else False # bits_of 1 x) x" if "unat x \<le> 2" for x :: u8
  proof (cases "x = 2")
    case False
    with that have "unat x < 2 ^ 1" by (simp add: word_unat_eq_iff)
    with False show ?thesis by (simp add: coding)
  qed (simp add: coding)
  have mv: "dec (bnd (if s = 0 then ret True else read_bit rd) (\<lambda>c.
        if c then ret 2 else bnd (read_bits rd 1) (\<lambda>v. ret (ucast v))))
      (if s = 0 then [] else if x = 2 then [True] else False # bits_of 1 x) x"
    if "unat x \<le> 2" "s = (0 :: u8) \<longrightarrow> x = 2" for x s :: u8
    using screen [OF that(1)] that(2) by (simp add: decodes_ret)
  have flags: "dec (if enable_order_hint t then read_bit rd else ret False)
      (if enable_order_hint t then [b] else []) b" if "\<not> enable_order_hint t \<longrightarrow> \<not> b" for b
    using that by (auto simp: dec_read_bit decodes_ret)
  have ok: "\<not> enable_order_hint t \<longrightarrow> \<not> enable_jnt_comp t" "\<not> enable_order_hint t \<longrightarrow> \<not> enable_ref_frame_mvs t"
    "unat (seq_force_screen_content_tools t) \<le> 2" "unat (seq_force_integer_mv t) \<le> 2"
    "seq_force_screen_content_tools t = 0 \<longrightarrow> seq_force_integer_mv t = 2"
    using assms False by (auto simp: seq_tools_ok_def split: if_splits)
  have bits: "seq_tools_bits False t = enable_interintra_compound t # enable_masked_compound t #
      enable_warped_motion t # enable_dual_filter t # enable_order_hint t #
      (if enable_order_hint t then [enable_jnt_comp t] else []) @
      (if enable_order_hint t then [enable_ref_frame_mvs t] else []) @
      (if seq_force_screen_content_tools t = 2 then [True]
        else False # bits_of 1 (seq_force_screen_content_tools t)) @
      (if seq_force_screen_content_tools t = 0 then []
        else if seq_force_integer_mv t = 2 then [True] else False # bits_of 1 (seq_force_integer_mv t)) @
      (if enable_order_hint t then bits_of 3 (order_hint_bits t - 1) else [])"
    by (simp add: seq_tools_bits_def)
  have "dec (seq_tools_parse rd False) (seq_tools_bits False t) t"
    unfolding bits seq_tools_parse_def if_True not_False_eq_True
    by (intro dec_bit_step decodes_bnd [OF flags [OF ok(1)]] decodes_bnd [OF flags [OF ok(2)]]
        decodes_bnd [OF screen [OF ok(3)], unfolded bnd_assoc]
        decodes_bnd [OF mv [OF ok(4,5)], unfolded bnd_assoc] decodes_last [OF hint] decodes_end)
      simp
  with False show ?thesis by simp
qed

lemma dec_color_range:
  assumes "color_range_ok profile c"
  shows "dec (color_range_parse rd profile (color_primaries c) (transfer_characteristics c)
      (matrix_coefficients c) (bit_depth c)) (color_range_bits profile c)
    (full_color_range c, subsampling_x c, subsampling_y c)"
  using assms
  by (auto simp: color_range_ok_def color_range_parse_def color_range_bits_def coding split: if_splits)

lemma dec_bit_depth:
  assumes "bit_depth c = 8 \<or> bit_depth c = 10 \<or> bit_depth c = 12 \<and> profile = 2"
  shows "dec (bit_depth_parse rd profile)
    ((bit_depth c \<noteq> 8) # (if profile = 2 \<and> bit_depth c \<noteq> 8 then [bit_depth c = 12] else [])) (bit_depth c)"
  using assms by (auto simp: bit_depth_parse_def coding)

lemma dec_color_description:
  "dec (color_description_parse rd)
    (if cp = 2 \<and> tc = 2 \<and> mc = 2 then [False] else True # bits_of 8 cp @ bits_of 8 tc @ bits_of 8 mc)
    (cp, tc, mc)"
  by (auto simp: color_description_parse_def coding)

lemma dec_color_config:
  assumes "color_config_ok profile c"
  shows "dec (color_config_parse rd profile) (color_config_bits profile c) c"
proof -
  have depth: "bit_depth c = 8 \<or> bit_depth c = 10 \<or> bit_depth c = 12 \<and> profile = 2"
    using assms by (auto simp: color_config_ok_def)
  have mono: "dec (if profile = 1 then ret False else read_bit rd)
      (if profile = 1 then [] else [mono_chrome c]) (mono_chrome c)"
    using assms by (auto simp: color_config_ok_def decodes_ret dec_read_bit split: if_splits)
  have csp: "dec (if subsampling_x c \<and> subsampling_y c then bnd (read_bits rd 2) (\<lambda>v. ret (ucast v)) else ret 0)
      (if subsampling_x c \<and> subsampling_y c then bits_of 2 (csample_position c) else []) (csample_position c)"
    if "\<not> mono_chrome c"
    using assms that
    by (cases "subsampling_x c \<and> subsampling_y c") (auto simp: color_config_ok_def coding)
  have bits: "color_config_bits profile c =
     ((bit_depth c \<noteq> 8) # (if profile = 2 \<and> bit_depth c \<noteq> 8 then [bit_depth c = 12] else [])) @
     (if profile = 1 then [] else [mono_chrome c]) @
     (if color_primaries c = 2 \<and> transfer_characteristics c = 2 \<and> matrix_coefficients c = 2 then [False]
      else True # bits_of 8 (color_primaries c) @ bits_of 8 (transfer_characteristics c) @
        bits_of 8 (matrix_coefficients c)) @
     (if mono_chrome c then [full_color_range c]
      else color_range_bits profile c @
        (if subsampling_x c \<and> subsampling_y c then bits_of 2 (csample_position c) else []) @
        [separate_uv_delta_q c])"
    by (simp add: color_config_bits_def)
  note steps = decodes_bnd [OF dec_bit_depth [OF depth]] decodes_bnd [OF mono]
    decodes_bnd [OF dec_color_description]
  show ?thesis
  proof (cases "mono_chrome c")
    case True
    have "c = \<lparr>bit_depth = bit_depth c, mono_chrome = True, num_planes = 1,
        color_primaries = color_primaries c, transfer_characteristics = transfer_characteristics c,
        matrix_coefficients = matrix_coefficients c, full_color_range = full_color_range c,
        subsampling_x = True, subsampling_y = True, csample_position = 0, separate_uv_delta_q = False\<rparr>"
      using True assms by (cases c) (simp add: color_config_ok_def)
    then show ?thesis
      unfolding bits color_config_parse_def
      by (intro steps) (simp add: True coding)
  next
    case False
    then have range: "color_range_ok profile c" and "num_planes c = 3"
      using assms by (simp_all add: color_config_ok_def)
    then have "c = \<lparr>bit_depth = bit_depth c, mono_chrome = False, num_planes = 3,
        color_primaries = color_primaries c, transfer_characteristics = transfer_characteristics c,
        matrix_coefficients = matrix_coefficients c, full_color_range = full_color_range c,
        subsampling_x = subsampling_x c, subsampling_y = subsampling_y c,
        csample_position = csample_position c, separate_uv_delta_q = separate_uv_delta_q c\<rparr>"
      using False by (cases c) simp
    then have "dec (bnd (read_bit rd) (\<lambda>separate_uv_delta_q.
       ret \<lparr>bit_depth = bit_depth c, mono_chrome = False, num_planes = 3,
        color_primaries = color_primaries c, transfer_characteristics = transfer_characteristics c,
        matrix_coefficients = matrix_coefficients c, full_color_range = full_color_range c,
        subsampling_x = subsampling_x c, subsampling_y = subsampling_y c,
        csample_position = csample_position c, separate_uv_delta_q = separate_uv_delta_q\<rparr>))
       [separate_uv_delta_q c] c"
      by (simp add: coding)
    then show ?thesis
      unfolding bits color_config_parse_def
      by (intro steps) (simp add: False decodes_bnd [OF dec_color_range [OF range]]
          decodes_bnd [OF csp [OF False]])
  qed
qed

lemma dec_points:
  assumes "byteorder_reads (bit_reader_read rd) bo"
    and "if reduced then t = None \<and> m = None \<and> reduced_points_ok ps else operating_points_ok (t, m, ps)"
  shows "dec (if reduced then bnd (read_bits rd 5) (\<lambda>level.
            ret (None, None, [\<lparr>idc = 0, seq_level_idx = ucast level, seq_tier = False,
              operating_parameters = None, initial_display_delay = None\<rparr>]))
          else operating_points_parse rd bo)
      (if reduced then bits_of 5 (seq_level_idx (hd ps)) else operating_points_bits (t, m, ps)) (t, m, ps)"
proof (cases reduced)
  case True
  with assms(2) obtain v where "t = None" "m = None" "v < 32" "ps = [\<lparr>idc = 0, seq_level_idx = v,
      seq_tier = False, operating_parameters = None, initial_display_delay = None\<rparr>]"
    by (auto simp: reduced_points_ok_def)
  then have "unat v < 2 ^ 5" by (simp add: word_less_nat_alt)
  with True \<open>t = None\<close> \<open>m = None\<close> \<open>ps = _\<close> show ?thesis by (simp add: coding)
next
  case False
  with assms dec_operating_points show ?thesis by simp
qed

lemma dec_sequence_header:
  assumes "byteorder_reads (bit_reader_read rd) bo" and ok: "sequence_header_ok wb hb h"
  shows "dec (sequence_header_read rd bo (header h)) (sequence_header_bits wb hb h) h"
proof -
  have points: "if reduced_still_picture_header h
      then sh_timing_info h = None \<and> sh_decoder_model_info h = None \<and> reduced_points_ok (operating_points h)
      else operating_points_ok (sh_timing_info h, sh_decoder_model_info h, operating_points h)"
    and size: "frame_size_ok wb hb (max_frame_width h, max_frame_height h)"
    and ids: "frame_ids_ok (reduced_still_picture_header h) (sh_frame_ids h)"
    and tools: "seq_tools_ok (reduced_still_picture_header h) (sh_tools h)"
    and color: "color_config_ok (sh_profile h) (sh_color_config h)"
    and "unat (sh_profile h) < 8" and "reduced_still_picture_header h \<longrightarrow> still_picture h"
    using ok unfolding sequence_header_ok_def by blast+
  note steps = decodes_bnd_triple [OF dec_points [OF assms(1) points]] decodes_bnd_pair [OF dec_frame_size [OF size]]
    decodes_bnd [OF dec_frame_ids [OF ids]] decodes_bnd [OF dec_seq_tools [OF tools]]
    decodes_bnd [OF dec_color_config [OF color]]
  have profile: "ucast (ucast (sh_profile h) :: u64) = sh_profile h" by simp
  show ?thesis
    unfolding sequence_header_read_def sequence_header_bits_def
    by (rule decodes_bnd [OF dec_field], simp, simp, simp add: \<open>unat (sh_profile h) < 8\<close>, unfold profile)
      (intro steps dec_bit_step decodes_guard decodes_end, use \<open>_ \<longrightarrow> still_picture h\<close> in auto)
qed

end

subsection \<open>What the parser returns\<close>

lemma yields_u8_plus: "n \<le> 8 \<Longrightarrow> yields (read_u8_plus rd n k) (u8_between (unat k) (2 ^ n + unat k - 1))"
proof -
  have "u8_between (unat k) (2 ^ n + unat k - 1) x"
    if "unat v < 2 ^ n" and "checked_add (ucast (v :: u64)) k = Inr x" for v x
    using unat_ucast_le [of v, where 'b = 8] that(1) checked_add_Inr [OF that(2)]
    by (simp add: u8_between_def)
  then show ?thesis by (auto simp: read_u8_plus_def intro!: yielding)
qed

lemma yields_u8_plus_num:
  "yields (read_u8_plus rd 4 1) (u8_between 1 16)" "yields (read_u8_plus rd 5 1) (u8_between 1 32)"
  "yields (read_u8_plus rd 3 1) (u8_between 1 8)" "yields (read_u8_plus rd 4 2) (u8_between 2 17)"
  using yields_u8_plus [of 4 rd 1] yields_u8_plus [of 5 rd 1] yields_u8_plus [of 3 rd 1]
    yields_u8_plus [of 4 rd 2]
  by simp_all

lemmas yields_u8_plus_step = yields_u8_plus_num [THEN yields_bnd]

lemma yields_uvlc_plus_1:
  "yields (bnd (read_uvlc rd) (\<lambda>v. lift_res (checked_add v 1))) (\<lambda>v. 1 \<le> unat v \<and> unat v \<le> 2 ^ 32)"
  by (rule yields_bnd [OF yields_read_uvlc]) (auto intro!: yielding dest: checked_add_Inr)

lemma yields_timing_info: "yields (timing_info_parse rd bo) timing_info_ok"
  unfolding timing_info_parse_def
  by (intro yielding yields_when_step [OF yields_uvlc_plus_1])
    (simp add: timing_info_ok_def split: option.splits)

lemma yields_decoder_model: "yields (decoder_model_info_parse rd bo) decoder_model_ok"
  unfolding decoder_model_info_parse_def
  by (intro yielding yields_u8_plus_step) (simp add: decoder_model_ok_def)

lemma yields_operating_parameters:
  "yields (operating_parameters_info_parse rd n) (operating_parameters_ok n)"
  unfolding operating_parameters_info_parse_def
  by (intro yielding) (simp add: operating_parameters_ok_def)

lemma yields_operating_point: "yields (operating_point_parse rd model delays) (operating_point_ok model delays)"
proof -
  have params: "yields (bnd (case model of
            Some m \<Rightarrow> bnd (read_bit rd) (\<lambda>b. ret (if b then Some (buffer_delay_length m) else None))
          | None \<Rightarrow> ret None) (\<lambda>n.
        case n of Some n \<Rightarrow> bnd (operating_parameters_info_parse rd n) (\<lambda>p. ret (Some p))
          | None \<Rightarrow> ret None))
      (\<lambda>v. case v of None \<Rightarrow> True | Some q \<Rightarrow> (case model of None \<Rightarrow> False
                    | Some m \<Rightarrow> operating_parameters_ok (buffer_delay_length m) q))"
    by (cases model) (auto simp: bnd_assoc intro!: yielding yields_bnd [OF yields_operating_parameters])
  have delay: "yields (if delays then bnd (read_bit rd) (\<lambda>b. when_io b (read_u8_plus rd 4 1)) else ret None)
      (\<lambda>v. case v of None \<Rightarrow> True | Some d \<Rightarrow> delays \<and> u8_between 1 16 d)"
    by (auto simp: when_io_def intro!: yielding yields_u8_plus_step)
  have tier: "yields (if (ucast v :: u8) > 7 then read_bit rd else ret False)
      (\<lambda>b. b \<longrightarrow> (ucast v :: u8) > 7)" for v :: u64
    by (cases "(ucast v :: u8) > 7") (simp_all add: yields_def run_simps)
  show ?thesis
    unfolding operating_point_parse_def
    by (intro yields_bits_step yields_bnd [OF tier] yields_bnd [OF params, unfolded bnd_assoc]
        yields_bnd [OF delay] yields_ret)
      (simp add: operating_point_ok_def unat_ucast_less)
qed

lemma yields_frame_size: "yields (frame_size_parse rd) (\<lambda>s. frame_size_ok 16 16 s)"
proof -
  have side: "yields (bnd (read_bits rd (unat b)) (\<lambda>v. lift_res (checked_add v 1)))
      (\<lambda>x. 1 \<le> unat x \<and> unat x \<le> 2 ^ 16)" if "u8_between 1 16 b" for b :: u8
  proof (intro yielding)
    fix v a :: u64
    assume "unat v < 2 ^ unat b" and "checked_add v 1 = Inr a"
    moreover have "(2 :: nat) ^ unat b \<le> 2 ^ 16"
      using that by (intro power_increasing) (simp_all add: u8_between_def)
    ultimately show "1 \<le> unat a \<and> unat a \<le> 2 ^ 16" by (auto dest: checked_add_Inr)
  qed
  show ?thesis
    unfolding frame_size_parse_def
    by (intro yields_u8_plus_step yields_bnd [OF side] yields_ret)
      (assumption | simp add: frame_size_ok_def u8_between_def)+
qed

lemma yields_frame_ids: "yields (frame_ids_parse rd reduced) (frame_ids_ok reduced)"
  unfolding frame_ids_parse_def when_io_def
  by (cases reduced) (auto simp: frame_ids_ok_def bnd_assoc intro!: yielding yields_u8_plus_step)

lemma unat_le_2: "unat (v :: u64) < 2 ^ 1 \<Longrightarrow> unat (ucast v :: u8) \<le> 2"
  using unat_ucast_le [of v, where 'b = 8] by simp

lemma yields_choice:
  "yields (bnd (read_bit rd) (\<lambda>c. if c then ret 2 else bnd (read_bits rd 1) (\<lambda>v. ret (ucast v))))
     (\<lambda>x :: u8. unat x \<le> 2)"
  by (intro yielding) (simp_all add: unat_le_2)

lemma yields_seq_tools: "yields (seq_tools_parse rd reduced) (seq_tools_ok reduced)"
proof -
  have flag: "yields (if h then read_bit rd else ret False) (\<lambda>b. b \<longrightarrow> h)" for h
    by (cases h) (simp_all add: yields_def run_simps)
  have mv: "yields (bnd (if s = 0 then ret True else read_bit rd) (\<lambda>c.
        if c then ret 2 else bnd (read_bits rd 1) (\<lambda>v. ret (ucast v))))
      (\<lambda>x :: u8. unat x \<le> 2 \<and> (s = 0 \<longrightarrow> x = 2))" for s :: u8
    using yields_choice [of rd] by (cases "s = 0") (simp_all add: yields_ret)
  have hint: "yields (if h then read_u8_plus rd 3 1 else ret 0)
      (\<lambda>x. if h then u8_between 1 8 x else x = 0)" for h
    using yields_u8_plus_num(3) [of rd] by (cases h) (simp_all add: yields_ret)
  show ?thesis
    unfolding seq_tools_parse_def
    by (intro yields_bnd [OF yields_choice, unfolded bnd_assoc] yields_if yields_bit_step
        yields_bnd [OF flag] yields_bnd [OF mv, unfolded bnd_assoc]
        yields_bnd [OF hint] yields_ret)
      (auto simp: seq_tools_ok_def split: if_splits)
qed

lemma yields_bit_depth: "yields (bit_depth_parse rd profile) (\<lambda>d. d = 8 \<or> d = 10 \<or> d = 12 \<and> profile = 2)"
  by (auto simp: bit_depth_parse_def intro!: yielding split: if_splits)

lemma yields_color_range:
  "yields (color_range_parse rd profile cp tc mc depth) (\<lambda>(r, x, y).
     if cp = 1 \<and> tc = 13 \<and> mc = 0 then r \<and> \<not> x \<and> \<not> y
     else if profile = 0 then x \<and> y else if profile = 1 then \<not> x \<and> \<not> y
     else if depth = 12 then y \<longrightarrow> x else x \<and> \<not> y)"
  by (auto simp: color_range_parse_def intro!: yielding)

lemma yields_color_config: "yields (color_config_parse rd profile) (color_config_ok profile)"
proof -
  have mono: "yields (if profile = 1 then ret False else read_bit rd) (\<lambda>b. b \<longrightarrow> profile \<noteq> 1)"
    by (cases "profile = 1") (simp_all add: yields_def run_simps)
  have csp: "yields (if x \<and> y then bnd (read_bits rd 2) (\<lambda>v. ret (ucast v)) else ret 0)
      (\<lambda>s :: u8. if x \<and> y then unat s < 4 else s = 0)" for x y
  proof -
    have "unat (ucast v :: u8) < 4" if "unat v < 2 ^ 2" for v :: u64
      using unat_ucast_less [of v 4] that by simp
    then show ?thesis by (auto intro!: yielding)
  qed
  show ?thesis
    unfolding color_config_parse_def
    by (intro yields_bnd [OF yields_bit_depth] yields_bnd [OF mono] yields_bnd_triple [OF yields_any]
        yields_if yields_bit_step yields_bnd_triple [OF yields_color_range] yields_bnd [OF csp] yields_ret)
      (simp_all add: color_config_ok_def color_range_ok_def)
qed

lemma yields_operating_points: "yields (operating_points_parse rd bo) operating_points_ok"
proof -
  have model: "yields (if b then
            bnd (timing_info_parse rd bo) (\<lambda>t.
            bnd (read_bit rd) (\<lambda>decoder_model_info_present_flag.
            bnd (when_io decoder_model_info_present_flag (decoder_model_info_parse rd bo)) (\<lambda>m.
            ret (Some t, m))))
          else ret (None, None))
      (\<lambda>(t, m). (case t of None \<Rightarrow> m = None | Some t \<Rightarrow> timing_info_ok t) \<and>
         (case m of None \<Rightarrow> True | Some m \<Rightarrow> decoder_model_ok m))" for b
    by (intro yields_if yields_bnd [OF yields_timing_info] yields_bit_step
        yields_when_step [OF yields_decoder_model] yields_ret)
      (auto split: option.splits)
  have points: "yields (times_io (unat n) (operating_point_parse rd m d))
      (\<lambda>ps. length ps = unat n \<and> list_all (operating_point_ok m d) ps)" for n :: u8 and m d
    by (rule yields_times [OF yields_operating_point])
  have delays: "operating_point_ok m (has_delays ps) p"
    if "list_all (operating_point_ok m d) ps" "p \<in> set ps" for m d ps p
    using that by (auto simp: list_all_iff list_ex_iff has_delays_def operating_point_ok_def
        split: option.splits)
  show ?thesis
    unfolding operating_points_parse_def
    by (intro yields_bit_step yields_bnd_pair [OF model] yields_u8_plus_step yields_bnd [OF points] yields_ret)
      (auto simp: operating_points_ok_def u8_between_def list_all_iff [of _ ps for ps] intro: delays)
qed

lemma yields_points:
  "yields (if reduced then bnd (read_bits rd 5) (\<lambda>level.
            ret (None, None, [\<lparr>idc = 0, seq_level_idx = ucast level, seq_tier = False,
              operating_parameters = None, initial_display_delay = None\<rparr>]))
          else operating_points_parse rd bo)
    (\<lambda>(t, m, ps). if reduced then t = None \<and> m = None \<and> reduced_points_ok ps
       else operating_points_ok (t, m, ps))"
proof (cases reduced)
  case True
  have "(ucast v :: u8) < 32" if "unat v < 2 ^ 5" for v :: u64
    using unat_ucast_less [OF that] by (simp add: word_less_nat_alt)
  with True show ?thesis by (auto simp: reduced_points_ok_def intro!: yielding)
next
  case False
  with yields_operating_points [of rd bo] show ?thesis by simp
qed

lemma yields_sequence_header:
  "yields (sequence_header_read rd bo hdr) (\<lambda>h. header h = hdr \<and> sequence_header_ok 16 16 h)"
proof -
  have profile: "unat (ucast v :: u8) < 8" if "unat v < 2 ^ 3" for v :: u64
    using unat_ucast_less [of v 8] that by simp
  show ?thesis
    unfolding sequence_header_read_def
    by (intro yields_bits_step yields_bit_step yields_guard_step yields_bnd_triple [OF yields_points]
        yields_bnd_pair [OF yields_frame_size] yields_bnd [OF yields_frame_ids]
        yields_bnd [OF yields_seq_tools] yields_bnd [OF yields_color_config] yields_ret)
      (auto simp: sequence_header_ok_def profile)
qed

subsection \<open>The properties of the code\<close>

text \<open>
  C6. Parsing the encoding of a sequence header gives the header back, with every optional
  part: timing and decoder model, up to 32 operating points, frame ids, the coding tools and
  the colour configuration of each profile. Whatever follows the header is not looked at.
\<close>

theorem sequence_header_parse_encoded:
  assumes "byteorder_reads (bit_reader_read cursor_read) bo" and "sequence_header_ok wb hb h"
  shows "fst (sequence_header_parse cursor_read bo (header h)
    (cursor_new (pack_bits (sequence_header_bits wb hb h @ rest)))) = Inr h"
  using cur.with_bit_reader_dec [OF cur.dec_sequence_header [OF assms],
      of "cursor_new (pack_bits (sequence_header_bits wb hb h @ rest))"]
  by (auto simp: sequence_header_parse_def byte_bits_pack)

text \<open>A header for concrete runs.\<close>

definition sequence_header_sample :: sequence_header_obu where
  "sequence_header_sample = \<lparr>header = \<lparr>obu_type = SequenceHeader, obu_size = Some 11, extension_header = None\<rparr>,
     sh_profile = 0, still_picture = False, reduced_still_picture_header = False,
     sh_timing_info = Some \<lparr>num_units_in_display_tick = 1, time_scale = 60, num_ticks_per_picture = Some 2\<rparr>,
     sh_decoder_model_info = None,
     operating_points = [\<lparr>idc = 0, seq_level_idx = 13, seq_tier = True, operating_parameters = None,
       initial_display_delay = Some 10\<rparr>],
     max_frame_width = 3840, max_frame_height = 2160, sh_frame_ids = None,
     use_128x128_superblock = True, enable_filter_intra = True, enable_intra_edge_filter = True,
     sh_tools = \<lparr>enable_interintra_compound = True, enable_masked_compound = True,
       enable_warped_motion = True, enable_dual_filter = True, enable_order_hint = True,
       enable_jnt_comp = True, enable_ref_frame_mvs = True, seq_force_screen_content_tools = 2,
       seq_force_integer_mv = 2, order_hint_bits = 7\<rparr>,
     enable_superres = False, enable_cdef = True, enable_restoration = True,
     sh_color_config = \<lparr>bit_depth = 8, mono_chrome = False, num_planes = 3, color_primaries = 1,
       transfer_characteristics = 1, matrix_coefficients = 1, full_color_range = False,
       subsampling_x = True, subsampling_y = True, csample_position = 0, separate_uv_delta_q = False\<rparr>,
     film_grain_params_present = False\<rparr>"

lemma sequence_header_sample_ok: "sequence_header_ok 12 12 sequence_header_sample"
  by (simp add: sequence_header_ok_def sequence_header_sample_def operating_points_ok_def
      timing_info_ok_def operating_point_ok_def has_delays_def u8_between_def frame_size_ok_def
      frame_ids_ok_def seq_tools_ok_def color_config_ok_def color_range_ok_def)

theorem sequence_header_parse_encoded_witness:
  "fst (sequence_header_parse cursor_read (be_reads (bit_reader_read cursor_read))
    \<lparr>obu_type = SequenceHeader, obu_size = Some 11, extension_header = None\<rparr>
    (cursor_new (pack_bits (sequence_header_bits 12 12 sequence_header_sample @ [])))) =
   Inr sequence_header_sample"
  using sequence_header_parse_encoded [OF byteorder_reads_be_reads sequence_header_sample_ok, of "[]"]
  by (simp add: sequence_header_sample_def [THEN arg_cong [where f = header]])

text \<open>
  C7. Every header the parser returns, from any bytes, is well-formed, and so can be written
  again: encoding it and parsing the result gives the same header.
\<close>

theorem sequence_header_parse_wellformed:
  assumes "byteorder_reads (bit_reader_read cursor_read) bo"
    and "sequence_header_parse cursor_read bo hdr c = (Inr h, c')"
  shows "sequence_header_ok 16 16 h \<and> header h = hdr \<and>
    fst (sequence_header_parse cursor_read bo hdr (cursor_new (pack_bits (sequence_header_bits 16 16 h)))) = Inr h"
proof -
  from assms(2) have ok: "header h = hdr \<and> sequence_header_ok 16 16 h"
    using yieldsD [OF yields_sequence_header]
    by (fastforce simp: sequence_header_parse_def with_bit_reader_def split: prod.splits)
  with cur.with_bit_reader_dec [OF cur.dec_sequence_header [OF assms(1)], of 16 16 h
      "cursor_new (pack_bits (sequence_header_bits 16 16 h))"]
  show ?thesis by (auto simp: sequence_header_parse_def byte_bits_pack)
qed

text \<open>The reduced header of a still picture, the shortest there is.\<close>

definition still_header_sample :: sequence_header_obu where
  "still_header_sample = \<lparr>header = \<lparr>obu_type = SequenceHeader, obu_size = None, extension_header = None\<rparr>,
     sh_profile = 1, still_picture = True, reduced_still_picture_header = True,
     sh_timing_info = None, sh_decoder_model_info = None,
     operating_points = [\<lparr>idc = 0, seq_level_idx = 5, seq_tier = False, operating_parameters = None,
       initial_display_delay = None\<rparr>],
     max_frame_width = 64, max_frame_height = 64, sh_frame_ids = None,
     use_128x128_superblock = False, enable_filter_intra = False, enable_intra_edge_filter = False,
     sh_tools = seq_tools_reduced, enable_superres = False, enable_cdef = False,
     enable_restoration = False,
     sh_color_config = \<lparr>bit_depth = 10, mono_chrome = False, num_planes = 3, color_primaries = 1,
       transfer_characteristics = 13, matrix_coefficients = 0, full_color_range = True,
       subsampling_x = False, subsampling_y = False, csample_position = 0, separate_uv_delta_q = True\<rparr>,
     film_grain_params_present = True\<rparr>"

lemma still_header_sample_ok: "sequence_header_ok 6 6 still_header_sample"
  by (simp add: sequence_header_ok_def still_header_sample_def reduced_points_ok_def
      u8_between_def frame_size_ok_def frame_ids_ok_def seq_tools_ok_def color_config_ok_def
      color_range_ok_def)

lemma still_header_sample_parse:
  "\<exists>c. sequence_header_parse cursor_read (be_reads (bit_reader_read cursor_read)) (header still_header_sample)
    (cursor_new (pack_bits (sequence_header_bits 6 6 still_header_sample))) = (Inr still_header_sample, c)"
  unfolding sequence_header_parse_def
  using cur.with_bit_reader_dec [OF cur.dec_sequence_header [OF byteorder_reads_be_reads still_header_sample_ok],
    of "cursor_new (pack_bits (sequence_header_bits 6 6 still_header_sample))"]
  by (auto simp: byte_bits_pack)

theorem sequence_header_parse_wellformed_witness:
  "sequence_header_ok 16 16 still_header_sample \<and>
    fst (sequence_header_parse cursor_read (be_reads (bit_reader_read cursor_read)) (header still_header_sample)
      (cursor_new (pack_bits (sequence_header_bits 16 16 still_header_sample)))) = Inr still_header_sample"
  using sequence_header_parse_wellformed [OF byteorder_reads_be_reads] still_header_sample_parse by blast

end
