(* ===== verification/H264_Parts.thy ===== *)
theory H264_Parts
  imports Coding
begin

text \<open>
  The parts of an H.264 sequence parameter set, \<open>crates/h264/src/sps/*.rs\<close> but \<open>mod.rs\<close>:
  for each part its \<open>parse\<close>, \<open>build\<close>, \<open>bitsize\<close> and \<open>bytesize\<close>, the bit string of the
  standard (\<open>*_bits\<close>), and the values that have one (\<open>*_ok\<close>). A part is correct when
  \<open>build\<close> emits its bit string, \<open>parse\<close> decodes it, \<open>bitsize\<close> is its length, and every
  value that \<open>parse\<close> can return has one.
\<close>

subsection \<open>sample_aspect_ratio.rs\<close>

text \<open>\<open>AspectRatioIdc\<close> and the other \<open>nutype_enum\<close>s are open enums over their integer.\<close>

record sar_dimensions =
  aspect_ratio_idc :: u8
  sar_width :: u16
  sar_height :: u16

definition sar_parse :: "'s read_fn \<Rightarrow> 's bit_reader byteorder \<Rightarrow> ('s bit_reader, sar_dimensions) io" where
  "sar_parse rd bo =
     bnd (bo_u8 bo) (\<lambda>aspect_ratio_idc.
     if aspect_ratio_idc = 255 then
       bnd (read_bits rd 16) (\<lambda>sar_width.
       bnd (read_bits rd 16) (\<lambda>sar_height.
       ret \<lparr>aspect_ratio_idc = aspect_ratio_idc, sar_width = ucast sar_width, sar_height = ucast sar_height\<rparr>))
     else ret \<lparr>aspect_ratio_idc = aspect_ratio_idc, sar_width = 0, sar_height = 0\<rparr>)"

definition sar_build :: "'w write_fn \<Rightarrow> sar_dimensions \<Rightarrow> ('w bit_writer, unit) io" where
  "sar_build wr s =
     bnd (write_bits wr (ucast (aspect_ratio_idc s)) 8) (\<lambda>_.
     if aspect_ratio_idc s = 255 then
       bnd (write_bits wr (ucast (sar_width s)) 16) (\<lambda>_. write_bits wr (ucast (sar_height s)) 16)
     else ret ())"

definition sar_bitsize :: "sar_dimensions \<Rightarrow> nat" where
  "sar_bitsize s = 8 + of_bool (aspect_ratio_idc s = 255) * 32"

definition sar_bytesize :: "sar_dimensions \<Rightarrow> nat" where
  "sar_bytesize s = div_ceil (sar_bitsize s) 8"

definition sar_bits :: "sar_dimensions \<Rightarrow> bool list" where
  "sar_bits s = bits_of 8 (aspect_ratio_idc s) @
     (if aspect_ratio_idc s = 255 then bits_of 16 (sar_width s) @ bits_of 16 (sar_height s) else [])"

definition sar_ok :: "sar_dimensions \<Rightarrow> bool" where
  "sar_ok s \<longleftrightarrow> (aspect_ratio_idc s \<noteq> 255 \<longrightarrow> sar_width s = 0 \<and> sar_height s = 0)"

lemma sar_bitsize_eq: "sar_bitsize s = length (sar_bits s)"
  by (simp add: sar_bitsize_def sar_bits_def)

lemma yields_sar: "yields (sar_parse rd bo) sar_ok"
  unfolding sar_parse_def by (intro yielding) (simp_all add: sar_ok_def)

subsection \<open>timing_info.rs\<close>

text \<open>The two numbers are \<open>NonZeroU32\<close>.\<close>

record h264_timing_info =
  num_units_in_tick :: u32
  vui_time_scale :: u32

definition non_zero_u32 :: "string \<Rightarrow> u32 \<Rightarrow> ('s, u32) io" where
  "non_zero_u32 what v = (if v = 0 then fail (IoErr InvalidData what) else ret v)"

definition h264_timing_parse :: "'s bit_reader byteorder \<Rightarrow> ('s bit_reader, h264_timing_info) io" where
  "h264_timing_parse bo =
     bnd (bnd (bo_u32 bo) (non_zero_u32 ''num_units_in_tick cannot be 0'')) (\<lambda>num_units_in_tick.
     bnd (bnd (bo_u32 bo) (non_zero_u32 ''time_scale cannot be 0'')) (\<lambda>time_scale.
     ret \<lparr>num_units_in_tick = num_units_in_tick, vui_time_scale = time_scale\<rparr>))"

definition h264_timing_build :: "'w write_fn \<Rightarrow> h264_timing_info \<Rightarrow> ('w bit_writer, unit) io" where
  "h264_timing_build wr t =
     bnd (write_bits wr (ucast (num_units_in_tick t)) 32) (\<lambda>_.
     write_bits wr (ucast (vui_time_scale t)) 32)"

definition h264_timing_bitsize :: "h264_timing_info \<Rightarrow> nat" where
  "h264_timing_bitsize t = 64"

definition h264_timing_bytesize :: "h264_timing_info \<Rightarrow> nat" where
  "h264_timing_bytesize t = 8"

definition h264_timing_bits :: "h264_timing_info \<Rightarrow> bool list" where
  "h264_timing_bits t = bits_of 32 (num_units_in_tick t) @ bits_of 32 (vui_time_scale t)"

definition h264_timing_ok :: "h264_timing_info \<Rightarrow> bool" where
  "h264_timing_ok t \<longleftrightarrow> num_units_in_tick t \<noteq> 0 \<and> vui_time_scale t \<noteq> 0"

lemma h264_timing_bitsize_eq: "h264_timing_bitsize t = length (h264_timing_bits t)"
    "h264_timing_bytesize t = div_ceil (h264_timing_bitsize t) 8"
  by (simp_all add: h264_timing_bitsize_def h264_timing_bytesize_def h264_timing_bits_def div_ceil_def)

lemma yields_h264_timing: "yields (h264_timing_parse bo) h264_timing_ok"
  unfolding h264_timing_parse_def non_zero_u32_def
  by (intro yielding) (simp_all add: h264_timing_ok_def yields_fail)

subsection \<open>color_config.rs\<close>

record h264_color_config =
  video_format :: u8
  video_full_range_flag :: bool
  vui_color_primaries :: u8
  vui_transfer_characteristics :: u8
  vui_matrix_coefficients :: u8

definition h264_color_parse :: "'s read_fn \<Rightarrow> 's bit_reader byteorder \<Rightarrow> ('s bit_reader, h264_color_config) io" where
  "h264_color_parse rd bo =
     bnd (read_bits rd 3) (\<lambda>video_format.
     bnd (read_bit rd) (\<lambda>video_full_range_flag.
     bnd (read_bit rd) (\<lambda>color_description_present_flag.
     bnd (if color_description_present_flag then
            bnd (bo_u8 bo) (\<lambda>cp. bnd (bo_u8 bo) (\<lambda>tc. bnd (bo_u8 bo) (\<lambda>mc. ret (cp, tc, mc))))
          else ret (2, 2, 2)) (\<lambda>(cp, tc, mc).
     ret \<lparr>video_format = ucast video_format, video_full_range_flag = video_full_range_flag,
          vui_color_primaries = cp, vui_transfer_characteristics = tc, vui_matrix_coefficients = mc\<rparr>))))"

definition color_unspecified :: "h264_color_config \<Rightarrow> bool" where
  "color_unspecified c \<longleftrightarrow> vui_color_primaries c = 2 \<and> vui_transfer_characteristics c = 2 \<and>
     vui_matrix_coefficients c = 2"

definition h264_color_build :: "'w write_fn \<Rightarrow> h264_color_config \<Rightarrow> ('w bit_writer, unit) io" where
  "h264_color_build wr c =
     bnd (write_bits wr (ucast (video_format c)) 3) (\<lambda>_.
     bnd (write_bit wr (video_full_range_flag c)) (\<lambda>_.
     if color_unspecified c then write_bit wr False
     else bnd (write_bit wr True) (\<lambda>_.
          bnd (write_bits wr (ucast (vui_color_primaries c)) 8) (\<lambda>_.
          bnd (write_bits wr (ucast (vui_transfer_characteristics c)) 8) (\<lambda>_.
          write_bits wr (ucast (vui_matrix_coefficients c)) 8)))))"

definition h264_color_bitsize :: "h264_color_config \<Rightarrow> nat" where
  "h264_color_bitsize c = 3 + 1 + 1 + (if color_unspecified c then 0 else 24)"

definition h264_color_bytesize :: "h264_color_config \<Rightarrow> nat" where
  "h264_color_bytesize c = div_ceil (h264_color_bitsize c) 8"

definition h264_color_bits :: "h264_color_config \<Rightarrow> bool list" where
  "h264_color_bits c = bits_of 3 (video_format c) @ video_full_range_flag c #
     (if color_unspecified c then [False]
      else True # bits_of 8 (vui_color_primaries c) @ bits_of 8 (vui_transfer_characteristics c) @
        bits_of 8 (vui_matrix_coefficients c))"

definition h264_color_ok :: "h264_color_config \<Rightarrow> bool" where
  "h264_color_ok c \<longleftrightarrow> unat (video_format c) < 8"

lemma h264_color_bitsize_eq: "h264_color_bitsize c = length (h264_color_bits c)"
  by (simp add: h264_color_bitsize_def h264_color_bits_def)

lemma yields_h264_color: "yields (h264_color_parse rd bo) h264_color_ok"
  unfolding h264_color_parse_def
  by (intro yields_bits_step yields_bit_step yields_bnd_triple [OF yields_any] yields_ret)
    (use unat_ucast_less [where m = 8] in \<open>simp add: h264_color_ok_def\<close>)

subsection \<open>chroma_sample_loc.rs\<close>

record chroma_sample_loc =
  chroma_sample_loc_type_top_field :: u8
  chroma_sample_loc_type_bottom_field :: u8

definition chroma_loc_parse :: "'s read_fn \<Rightarrow> ('s bit_reader, chroma_sample_loc) io" where
  "chroma_loc_parse rd =
     bnd (read_exp_golomb rd) (\<lambda>top.
     bnd (range_check top 0 5 ''chroma_sample_loc_type_top_field'') (\<lambda>_.
     bnd (read_exp_golomb rd) (\<lambda>bottom.
     bnd (range_check bottom 0 5 ''chroma_sample_loc_type_bottom_field'') (\<lambda>_.
     ret \<lparr>chroma_sample_loc_type_top_field = ucast top,
          chroma_sample_loc_type_bottom_field = ucast bottom\<rparr>))))"

definition chroma_loc_build :: "'w write_fn \<Rightarrow> chroma_sample_loc \<Rightarrow> ('w bit_writer, unit) io" where
  "chroma_loc_build wr c =
     bnd (write_exp_golomb wr (ucast (chroma_sample_loc_type_top_field c))) (\<lambda>_.
     write_exp_golomb wr (ucast (chroma_sample_loc_type_bottom_field c)))"

definition chroma_loc_bitsize :: "chroma_sample_loc \<Rightarrow> err + nat" where
  "chroma_loc_bitsize c = sum_res [size_of_exp_golomb (ucast (chroma_sample_loc_type_top_field c)),
     size_of_exp_golomb (ucast (chroma_sample_loc_type_bottom_field c))]"

definition chroma_loc_bytesize :: "chroma_sample_loc \<Rightarrow> err + nat" where
  "chroma_loc_bytesize c = rbind (chroma_loc_bitsize c) (\<lambda>n. Inr (div_ceil n 8))"

definition chroma_loc_bits :: "chroma_sample_loc \<Rightarrow> bool list" where
  "chroma_loc_bits c = eg_bits (ucast (chroma_sample_loc_type_top_field c)) @
     eg_bits (ucast (chroma_sample_loc_type_bottom_field c))"

definition chroma_loc_ok :: "chroma_sample_loc \<Rightarrow> bool" where
  "chroma_loc_ok c \<longleftrightarrow> unat (chroma_sample_loc_type_top_field c) \<le> 5 \<and>
     unat (chroma_sample_loc_type_bottom_field c) \<le> 5"

lemma chroma_loc_bitsize_eq: "chroma_loc_bitsize c = Inr (length (chroma_loc_bits c))"
  by (simp add: chroma_loc_bitsize_def chroma_loc_bits_def size_of_exp_golomb_eq)

lemma yields_chroma_loc: "yields (chroma_loc_parse rd) chroma_loc_ok"
  unfolding chroma_loc_parse_def
  by (intro yielding) (simp add: chroma_loc_ok_def unat_ucast_bound)

subsection \<open>frame_crop_info.rs\<close>

record frame_crop_info =
  frame_crop_left_offset :: u64
  frame_crop_right_offset :: u64
  frame_crop_top_offset :: u64
  frame_crop_bottom_offset :: u64

definition frame_crop_parse :: "'s read_fn \<Rightarrow> ('s bit_reader, frame_crop_info) io" where
  "frame_crop_parse rd =
     bnd (read_exp_golomb rd) (\<lambda>left.
     bnd (read_exp_golomb rd) (\<lambda>right.
     bnd (read_exp_golomb rd) (\<lambda>top.
     bnd (read_exp_golomb rd) (\<lambda>bottom.
     ret \<lparr>frame_crop_left_offset = left, frame_crop_right_offset = right,
          frame_crop_top_offset = top, frame_crop_bottom_offset = bottom\<rparr>))))"

definition frame_crop_build :: "'w write_fn \<Rightarrow> frame_crop_info \<Rightarrow> ('w bit_writer, unit) io" where
  "frame_crop_build wr c =
     bnd (write_exp_golomb wr (frame_crop_left_offset c)) (\<lambda>_.
     bnd (write_exp_golomb wr (frame_crop_right_offset c)) (\<lambda>_.
     bnd (write_exp_golomb wr (frame_crop_top_offset c)) (\<lambda>_.
     write_exp_golomb wr (frame_crop_bottom_offset c))))"

definition frame_crop_bitsize :: "frame_crop_info \<Rightarrow> err + nat" where
  "frame_crop_bitsize c = sum_res [size_of_exp_golomb (frame_crop_left_offset c),
     size_of_exp_golomb (frame_crop_right_offset c), size_of_exp_golomb (frame_crop_top_offset c),
     size_of_exp_golomb (frame_crop_bottom_offset c)]"

definition frame_crop_bytesize :: "frame_crop_info \<Rightarrow> err + nat" where
  "frame_crop_bytesize c = rbind (frame_crop_bitsize c) (\<lambda>n. Inr (div_ceil n 8))"

definition frame_crop_bits :: "frame_crop_info \<Rightarrow> bool list" where
  "frame_crop_bits c = eg_bits (frame_crop_left_offset c) @ eg_bits (frame_crop_right_offset c) @
     eg_bits (frame_crop_top_offset c) @ eg_bits (frame_crop_bottom_offset c)"

definition frame_crop_ok :: "frame_crop_info \<Rightarrow> bool" where
  "frame_crop_ok c \<longleftrightarrow> eg_ok (frame_crop_left_offset c) \<and> eg_ok (frame_crop_right_offset c) \<and>
     eg_ok (frame_crop_top_offset c) \<and> eg_ok (frame_crop_bottom_offset c)"

lemma frame_crop_bitsize_eq: "frame_crop_ok c \<Longrightarrow> frame_crop_bitsize c = Inr (length (frame_crop_bits c))"
  by (simp add: frame_crop_bitsize_def frame_crop_bits_def frame_crop_ok_def size_of_exp_golomb_eq)

lemma yields_frame_crop: "yields (frame_crop_parse rd) frame_crop_ok"
  unfolding frame_crop_parse_def by (intro yielding) (simp add: frame_crop_ok_def)

subsection \<open>pic_order_count_type1.rs\<close>

record pic_order_count_type1 =
  delta_pic_order_always_zero_flag :: bool
  offset_for_non_ref_pic :: int
  offset_for_top_to_bottom_field :: int
  num_ref_frames_in_pic_order_cnt_cycle :: u64
  offset_for_ref_frame :: "int list"

text \<open>\<open>read_signed_exp_golomb\<close> and a check against the range of \<open>i32\<close> without its minimum.\<close>

definition read_offset :: "'s read_fn \<Rightarrow> string \<Rightarrow> ('s bit_reader, int) io" where
  "read_offset rd what =
     bnd (read_signed_exp_golomb rd) (\<lambda>n.
     bnd (range_check n (- (2 ^ 31) + 1) (2 ^ 31 - 1) what) (\<lambda>_. ret n))"

definition poc_type1_parse :: "'s read_fn \<Rightarrow> ('s bit_reader, pic_order_count_type1) io" where
  "poc_type1_parse rd =
     bnd (read_bit rd) (\<lambda>zero.
     bnd (read_offset rd ''offset_for_non_ref_pic'') (\<lambda>non_ref.
     bnd (read_offset rd ''offset_for_top_to_bottom_field'') (\<lambda>top_bottom.
     bnd (read_exp_golomb rd) (\<lambda>num.
     bnd (range_check num 0 255 ''num_ref_frames_in_pic_order_cnt_cycle'') (\<lambda>_.
     bnd (times_io (unat num) (read_offset rd ''offset_for_ref_frame.last().copied().unwrap()'')) (\<lambda>offsets.
     ret \<lparr>delta_pic_order_always_zero_flag = zero, offset_for_non_ref_pic = non_ref,
          offset_for_top_to_bottom_field = top_bottom,
          num_ref_frames_in_pic_order_cnt_cycle = num, offset_for_ref_frame = offsets\<rparr>))))))"

definition poc_type1_build :: "'w write_fn \<Rightarrow> pic_order_count_type1 \<Rightarrow> ('w bit_writer, unit) io" where
  "poc_type1_build wr p =
     bnd (write_bit wr (delta_pic_order_always_zero_flag p)) (\<lambda>_.
     bnd (write_signed_exp_golomb wr (offset_for_non_ref_pic p)) (\<lambda>_.
     bnd (write_signed_exp_golomb wr (offset_for_top_to_bottom_field p)) (\<lambda>_.
     bnd (write_exp_golomb wr (num_ref_frames_in_pic_order_cnt_cycle p)) (\<lambda>_.
     each_io (write_signed_exp_golomb wr) (offset_for_ref_frame p)))))"

definition poc_type1_bitsize :: "pic_order_count_type1 \<Rightarrow> err + nat" where
  "poc_type1_bitsize p =
     sum_res ([Inr 1, size_of_signed_exp_golomb (offset_for_non_ref_pic p),
       size_of_signed_exp_golomb (offset_for_top_to_bottom_field p),
       size_of_exp_golomb (num_ref_frames_in_pic_order_cnt_cycle p),
       sum_res (map size_of_signed_exp_golomb (offset_for_ref_frame p))])"

definition poc_type1_bytesize :: "pic_order_count_type1 \<Rightarrow> err + nat" where
  "poc_type1_bytesize p = rbind (poc_type1_bitsize p) (\<lambda>n. Inr (div_ceil n 8))"

definition poc_type1_bits :: "pic_order_count_type1 \<Rightarrow> bool list" where
  "poc_type1_bits p = delta_pic_order_always_zero_flag p #
     eg_signed_bits (offset_for_non_ref_pic p) @ eg_signed_bits (offset_for_top_to_bottom_field p) @
     eg_bits (num_ref_frames_in_pic_order_cnt_cycle p) @
     concat (map eg_signed_bits (offset_for_ref_frame p))"

definition offset_ok :: "int \<Rightarrow> bool" where
  "offset_ok i \<longleftrightarrow> - (2 ^ 31) < i \<and> i < 2 ^ 31"

definition poc_type1_ok :: "pic_order_count_type1 \<Rightarrow> bool" where
  "poc_type1_ok p \<longleftrightarrow> offset_ok (offset_for_non_ref_pic p) \<and> offset_ok (offset_for_top_to_bottom_field p) \<and>
     length (offset_for_ref_frame p) \<le> 255 \<and>
     num_ref_frames_in_pic_order_cnt_cycle p = of_nat (length (offset_for_ref_frame p)) \<and>
     list_all offset_ok (offset_for_ref_frame p)"

lemma offset_ok_eg: "offset_ok i \<Longrightarrow> eg_signed_ok i"
  by (simp add: offset_ok_def eg_signed_ok_def)

lemma poc_cycle: "length xs \<le> 255 \<Longrightarrow> unat (of_nat (length xs) :: u64) = length xs \<and>
    eg_ok (of_nat (length xs))"
  by (simp add: eg_ok_unat unat_of_nat)

lemma sum_res_signed_sizes:
  "list_all eg_signed_ok is \<Longrightarrow>
     sum_res (map size_of_signed_exp_golomb is) = Inr (length (concat (map eg_signed_bits is)))"
  by (induction "is") (simp_all add: size_of_signed_exp_golomb_eq)

lemma poc_type1_bitsize_eq: "poc_type1_ok p \<Longrightarrow> poc_type1_bitsize p = Inr (length (poc_type1_bits p))"
  by (simp add: poc_type1_bitsize_def poc_type1_bits_def poc_type1_ok_def size_of_exp_golomb_eq poc_cycle
      size_of_signed_exp_golomb_eq offset_ok_eg sum_res_signed_sizes list.pred_mono_strong [of offset_ok])

lemma yields_read_offset: "yields (read_offset rd w) offset_ok"
  unfolding read_offset_def by (intro yielding) (auto simp: offset_ok_def)

lemma yields_poc_type1: "yields (poc_type1_parse rd) poc_type1_ok"
  unfolding poc_type1_parse_def
  by (intro yields_bit_step yields_bnd [OF yields_read_offset] yields_eg_step yields_range_check_step
      yields_bnd [OF yields_times [OF yields_read_offset]] yields_ret)
    (auto simp: poc_type1_ok_def word_le_nat_alt)

subsection \<open>sps_ext.rs\<close>

record sps_extended =
  chroma_format_idc :: u8
  separate_color_plane_flag :: bool
  bit_depth_luma_minus8 :: u8
  bit_depth_chroma_minus8 :: u8
  qpprime_y_zero_transform_bypass_flag :: bool
  scaling_matrix :: "int list list"

definition sps_extended_default :: sps_extended where
  "sps_extended_default = \<lparr>chroma_format_idc = 1, separate_color_plane_flag = False,
     bit_depth_luma_minus8 = 0, bit_depth_chroma_minus8 = 0,
     qpprime_y_zero_transform_bypass_flag = False, scaling_matrix = []\<rparr>"

text \<open>\<open>next_scale = (next_scale + delta_scale + 256) % 256\<close>\<close>

definition scale_step :: "int \<Rightarrow> int \<Rightarrow> err + int" where
  "scale_step next_scale delta_scale =
     rbind (checked_i64 (next_scale + delta_scale)) (\<lambda>s.
     rbind (checked_i64 (s + 256)) (\<lambda>s. Inr (trunc_mod s 256)))"

fun scaling_list_loop :: "'s read_fn \<Rightarrow> nat \<Rightarrow> int \<Rightarrow> ('s bit_reader, int list) io" where
  "scaling_list_loop rd 0 next_scale = ret []"
| "scaling_list_loop rd (Suc n) next_scale =
     bnd (read_signed_exp_golomb rd) (\<lambda>delta_scale.
     bnd (lift_res (scale_step next_scale delta_scale)) (\<lambda>next_scale.
     if next_scale = 0 then ret [delta_scale]
     else bnd (scaling_list_loop rd n next_scale) (\<lambda>ds. ret (delta_scale # ds))))"

fun scaling_matrix_loop :: "'s read_fn \<Rightarrow> nat \<Rightarrow> nat \<Rightarrow> ('s bit_reader, int list list) io" where
  "scaling_matrix_loop rd i 0 = ret []"
| "scaling_matrix_loop rd i (Suc n) =
     bnd (read_bit rd) (\<lambda>bit.
     bnd (if bit then scaling_list_loop rd (if i < 6 then 16 else 64) 8 else ret []) (\<lambda>v.
     bnd (scaling_matrix_loop rd (i + 1) n) (\<lambda>vs. ret (v # vs))))"

definition sps_ext_parse :: "'s read_fn \<Rightarrow> ('s bit_reader, sps_extended) io" where
  "sps_ext_parse rd =
     bnd (read_exp_golomb rd) (\<lambda>chroma_format_idc.
     bnd (range_check chroma_format_idc 0 3 ''chroma_format_idc'') (\<lambda>_.
     bnd (if (ucast chroma_format_idc :: u8) = 3 then read_bit rd else ret False) (\<lambda>separate.
     bnd (read_exp_golomb rd) (\<lambda>luma.
     bnd (range_check luma 0 6 ''bit_depth_luma_minus8'') (\<lambda>_.
     bnd (read_exp_golomb rd) (\<lambda>chroma.
     bnd (range_check chroma 0 6 ''bit_depth_chroma_minus8'') (\<lambda>_.
     bnd (read_bit rd) (\<lambda>qpprime.
     bnd (read_bit rd) (\<lambda>present.
     bnd (if present then scaling_matrix_loop rd 0 (if (ucast chroma_format_idc :: u8) \<noteq> 3 then 8 else 12)
          else ret []) (\<lambda>matrix.
     ret \<lparr>chroma_format_idc = ucast chroma_format_idc, separate_color_plane_flag = separate,
          bit_depth_luma_minus8 = ucast luma, bit_depth_chroma_minus8 = ucast chroma,
          qpprime_y_zero_transform_bypass_flag = qpprime, scaling_matrix = matrix\<rparr>))))))))))"

definition sps_ext_build :: "'w write_fn \<Rightarrow> sps_extended \<Rightarrow> ('w bit_writer, unit) io" where
  "sps_ext_build wr e =
     bnd (write_exp_golomb wr (ucast (chroma_format_idc e))) (\<lambda>_.
     bnd (if chroma_format_idc e = 3 then write_bit wr (separate_color_plane_flag e) else ret ()) (\<lambda>_.
     bnd (write_exp_golomb wr (ucast (bit_depth_luma_minus8 e))) (\<lambda>_.
     bnd (write_exp_golomb wr (ucast (bit_depth_chroma_minus8 e))) (\<lambda>_.
     bnd (write_bit wr (qpprime_y_zero_transform_bypass_flag e)) (\<lambda>_.
     bnd (write_bit wr (scaling_matrix e \<noteq> [])) (\<lambda>_.
     each_io (\<lambda>vec. bnd (write_bit wr (vec \<noteq> [])) (\<lambda>_. each_io (write_signed_exp_golomb wr) vec))
       (scaling_matrix e)))))))"

definition sps_ext_bitsize :: "sps_extended \<Rightarrow> err + nat" where
  "sps_ext_bitsize e =
     sum_res [size_of_exp_golomb (ucast (chroma_format_idc e)),
       Inr (of_bool (chroma_format_idc e = 3)),
       size_of_exp_golomb (ucast (bit_depth_luma_minus8 e)),
       size_of_exp_golomb (ucast (bit_depth_chroma_minus8 e)),
       Inr 1, Inr 1, Inr (length (scaling_matrix e)),
       sum_res (map size_of_signed_exp_golomb (concat (scaling_matrix e)))]"

definition sps_ext_bytesize :: "sps_extended \<Rightarrow> err + nat" where
  "sps_ext_bytesize e = rbind (sps_ext_bitsize e) (\<lambda>n. Inr (div_ceil n 8))"

definition scaling_list_bits :: "int list \<Rightarrow> bool list" where
  "scaling_list_bits v = (v \<noteq> []) # concat (map eg_signed_bits v)"

definition sps_ext_bits :: "sps_extended \<Rightarrow> bool list" where
  "sps_ext_bits e = eg_bits (ucast (chroma_format_idc e)) @
     (if chroma_format_idc e = 3 then [separate_color_plane_flag e] else []) @
     eg_bits (ucast (bit_depth_luma_minus8 e)) @ eg_bits (ucast (bit_depth_chroma_minus8 e)) @
     qpprime_y_zero_transform_bypass_flag e # (scaling_matrix e \<noteq> []) #
     concat (map scaling_list_bits (scaling_matrix e))"

text \<open>The lists that the loop over \<open>delta_scale\<close> ends on exactly.\<close>

fun scaling_list_ok :: "nat \<Rightarrow> int \<Rightarrow> int list \<Rightarrow> bool" where
  "scaling_list_ok 0 s ds \<longleftrightarrow> ds = []"
| "scaling_list_ok (Suc n) s [] \<longleftrightarrow> False"
| "scaling_list_ok (Suc n) s (d # ds) \<longleftrightarrow> eg_signed_ok d \<and>
     (case scale_step s d of Inl _ \<Rightarrow> False
      | Inr s' \<Rightarrow> if s' = 0 then ds = [] else scaling_list_ok n s' ds)"

fun scaling_matrix_ok :: "nat \<Rightarrow> int list list \<Rightarrow> bool" where
  "scaling_matrix_ok i [] \<longleftrightarrow> True"
| "scaling_matrix_ok i (v # vs) \<longleftrightarrow>
     (v = [] \<or> scaling_list_ok (if i < 6 then 16 else 64) 8 v) \<and> scaling_matrix_ok (i + 1) vs"

definition sps_ext_ok :: "sps_extended \<Rightarrow> bool" where
  "sps_ext_ok e \<longleftrightarrow> unat (chroma_format_idc e) \<le> 3 \<and>
     (separate_color_plane_flag e \<longrightarrow> chroma_format_idc e = 3) \<and>
     unat (bit_depth_luma_minus8 e) \<le> 6 \<and> unat (bit_depth_chroma_minus8 e) \<le> 6 \<and>
     (scaling_matrix e = [] \<or> length (scaling_matrix e) = (if chroma_format_idc e \<noteq> 3 then 8 else 12) \<and>
        scaling_matrix_ok 0 (scaling_matrix e))"

lemma scaling_list_eg: "scaling_list_ok n s v \<Longrightarrow> list_all eg_signed_ok v"
  by (induction n s v rule: scaling_list_ok.induct) (auto split: sum.splits if_splits)

lemma scaling_matrix_eg: "scaling_matrix_ok i m \<Longrightarrow> list_all (list_all eg_signed_ok) m"
  by (induction i m rule: scaling_matrix_ok.induct) (auto dest: scaling_list_eg)

lemma length_scaling_bits: "length (concat (map scaling_list_bits m)) =
    length m + length (concat (map eg_signed_bits (concat m)))"
  by (induction m) (simp_all add: scaling_list_bits_def)

lemma sps_ext_bitsize_eq: "sps_ext_ok e \<Longrightarrow> sps_ext_bitsize e = Inr (length (sps_ext_bits e))"
proof -
  assume "sps_ext_ok e"
  then have m: "list_all (list_all eg_signed_ok) (scaling_matrix e)"
    by (auto simp: sps_ext_ok_def dest: scaling_matrix_eg)
  then have "list_all eg_signed_ok (concat (scaling_matrix e))"
    by (auto simp: list_all_iff)
  moreover have "length (concat (map scaling_list_bits (scaling_matrix e))) =
      length (scaling_matrix e) + length (concat (map eg_signed_bits (concat (scaling_matrix e))))"
    by (rule length_scaling_bits)
  ultimately show ?thesis
    by (simp add: sps_ext_bitsize_def sps_ext_bits_def size_of_exp_golomb_eq sum_res_signed_sizes)
qed

lemma yields_scaling_list: "yields (scaling_list_loop rd n s) (scaling_list_ok n s)"
proof (induction n arbitrary: s)
  case 0
  show ?case by (simp add: yields_ret)
next
  case (Suc n)
  show ?case
    unfolding scaling_list_loop.simps
    by (intro yielding yields_bnd [OF Suc.IH]) auto
qed

lemma yields_scaling_matrix:
  "yields (scaling_matrix_loop rd i n) (\<lambda>m. length m = n \<and> scaling_matrix_ok i m)"
proof (induction n arbitrary: i)
  case 0
  show ?case by (simp add: yields_ret)
next
  case (Suc n)
  have v: "yields (if b then scaling_list_loop rd (if i < 6 then 16 else 64) 8 else ret [])
      (\<lambda>v. v = [] \<or> scaling_list_ok (if i < 6 then 16 else 64) 8 v)" for b
    by (intro yields_if yields_ret yields_mono [OF yields_scaling_list]) simp_all
  show ?case
    unfolding scaling_matrix_loop.simps
    by (intro yields_bit_step yields_bnd [OF v] yields_bnd [OF Suc.IH] yields_ret) simp
qed

lemma yields_sps_ext: "yields (sps_ext_parse rd) sps_ext_ok"
proof -
  have flag: "yields (if b then read_bit rd else ret False) (\<lambda>f. f \<longrightarrow> b)" for b
    by (cases b) (simp_all add: yields_def run_simps)
  have matrix: "yields (if p then scaling_matrix_loop rd 0 n else ret [])
      (\<lambda>m. m = [] \<or> length m = n \<and> scaling_matrix_ok 0 m)" for p n
    by (intro yields_if yields_ret yields_mono [OF yields_scaling_matrix]) simp_all
  show ?thesis
    unfolding sps_ext_parse_def
    by (intro yields_eg_step yields_range_check_step yields_bit_step yields_bnd [OF flag]
        yields_bnd [OF matrix] yields_ret)
      (simp add: sps_ext_ok_def unat_ucast_bound)
qed

subsection \<open>Decoding the parts\<close>

context byte_source
begin

lemma dec_sar:
  "byteorder_reads (bit_reader_read rd) bo \<Longrightarrow> sar_ok s \<Longrightarrow> dec (sar_parse rd bo) (sar_bits s) s"
  by (cases "aspect_ratio_idc s = 255") (simp_all add: sar_parse_def sar_bits_def sar_ok_def coding)

lemma dec_h264_timing:
  "byteorder_reads (bit_reader_read rd) bo \<Longrightarrow> h264_timing_ok t \<Longrightarrow>
     dec (h264_timing_parse bo) (h264_timing_bits t) t"
  by (simp add: h264_timing_parse_def h264_timing_bits_def h264_timing_ok_def non_zero_u32_def coding
      decodes_assoc)

lemma dec_h264_color:
  "byteorder_reads (bit_reader_read rd) bo \<Longrightarrow> h264_color_ok c \<Longrightarrow>
     dec (h264_color_parse rd bo) (h264_color_bits c) c"
  by (cases c; cases "color_unspecified c")
    (simp_all add: h264_color_parse_def h264_color_bits_def h264_color_ok_def coding bnd_assoc
      color_unspecified_def)

lemma dec_chroma_loc: "chroma_loc_ok c \<Longrightarrow> dec (chroma_loc_parse rd) (chroma_loc_bits c) c"
  by (simp add: chroma_loc_parse_def chroma_loc_bits_def chroma_loc_ok_def coding)

lemma dec_frame_crop: "frame_crop_ok c \<Longrightarrow> dec (frame_crop_parse rd) (frame_crop_bits c) c"
  by (simp add: frame_crop_parse_def frame_crop_bits_def frame_crop_ok_def coding)

lemma dec_read_offset: "offset_ok i \<Longrightarrow> dec (read_offset rd w) (eg_signed_bits i) i"
  unfolding read_offset_def
  by (intro decodes_last [OF dec_read_signed_exp_golomb] decodes_range_check decodes_ret)
    (auto simp: offset_ok_eg offset_ok_def)

lemma dec_poc_type1:
  assumes "poc_type1_ok p"
  shows "dec (poc_type1_parse rd) (poc_type1_bits p) p"
proof -
  have len: "unat (num_ref_frames_in_pic_order_cnt_cycle p) = length (offset_for_ref_frame p)"
    "eg_ok (num_ref_frames_in_pic_order_cnt_cycle p)" "num_ref_frames_in_pic_order_cnt_cycle p \<le> 255"
    using assms poc_cycle [of "offset_for_ref_frame p"] by (auto simp: poc_type1_ok_def word_le_nat_alt)
  have offs: "dec (times_io (unat (num_ref_frames_in_pic_order_cnt_cycle p)) (read_offset rd w))
      (concat (map eg_signed_bits (offset_for_ref_frame p))) (offset_for_ref_frame p)" for w
    unfolding len(1) using assms by (intro decodes_times dec_read_offset) (auto simp: poc_type1_ok_def list_all_iff)
  show ?thesis
    unfolding poc_type1_parse_def poc_type1_bits_def
    by (intro dec_bit_step decodes_bnd [OF dec_read_offset] decodes_bnd [OF dec_read_exp_golomb]
        decodes_range_check decodes_last [OF offs] decodes_end)
      (use assms len in \<open>auto simp: poc_type1_ok_def\<close>)
qed

lemma dec_scaling_list:
  "scaling_list_ok n s ds \<Longrightarrow> dec (scaling_list_loop rd n s) (concat (map eg_signed_bits ds)) ds"
proof (induction n s ds rule: scaling_list_ok.induct)
  case (3 n s d ds)
  then obtain s' where s': "scale_step s d = Inr s'" "eg_signed_ok d"
    "if s' = 0 then ds = [] else scaling_list_ok n s' ds"
    by (auto split: sum.splits)
  show ?case
  proof (cases "s' = 0")
    case True
    with s' show ?thesis by (simp add: coding)
  next
    case False
    with s' have "scaling_list_ok n s' ds" by simp
    from "3.IH" [OF s'(1) False this]
    have "dec (bnd (scaling_list_loop rd n s') (\<lambda>ds. ret (d # ds)))
        (concat (map eg_signed_bits ds)) (d # ds)"
      by (rule decodes_last) (rule decodes_ret)
    with s' False show ?thesis by (simp add: coding)
  qed
qed (simp_all add: decodes_ret)

lemma dec_scaling_matrix:
  "scaling_matrix_ok i m \<Longrightarrow>
     dec (scaling_matrix_loop rd i (length m)) (concat (map scaling_list_bits m)) m"
proof (induction i m rule: scaling_matrix_ok.induct)
  case (1 i)
  show ?case by (simp add: decodes_ret)
next
  case (2 i v vs)
  let ?n = "if i < 6 then 16 else 64 :: nat"
  have v: "dec (if v \<noteq> [] then scaling_list_loop rd ?n 8 else ret []) (concat (map eg_signed_bits v)) v"
    using 2 by (auto simp: dec_scaling_list decodes_ret)
  have tail: "dec (bnd (scaling_matrix_loop rd (i + 1) (length vs)) (\<lambda>vs. ret (v # vs)))
      (concat (map scaling_list_bits vs)) (v # vs)"
    using 2 by (intro decodes_last [OF "2.IH"]) (simp_all add: decodes_ret)
  have "dec (bnd (if v \<noteq> [] then scaling_list_loop rd ?n 8 else ret []) (\<lambda>v.
      bnd (scaling_matrix_loop rd (i + 1) (length vs)) (\<lambda>vs. ret (v # vs))))
      (concat (map eg_signed_bits v) @ concat (map scaling_list_bits vs)) (v # vs)"
    by (rule decodes_bnd [OF v]) (rule tail)
  then show ?case
    unfolding list.size(4) add_Suc_right add_0_right scaling_matrix_loop.simps
    by (simp only: scaling_list_bits_def [of v] list.map concat.simps append_Cons) (rule dec_bit_step)
qed

lemma dec_sps_ext:
  assumes "sps_ext_ok e"
  shows "dec (sps_ext_parse rd) (sps_ext_bits e) e"
proof -
  have flag: "dec (if chroma_format_idc e = 3 then read_bit rd else ret False)
      (if chroma_format_idc e = 3 then [separate_color_plane_flag e] else []) (separate_color_plane_flag e)"
    using assms by (auto simp: sps_ext_ok_def dec_read_bit decodes_ret)
  have matrix: "dec (if scaling_matrix e \<noteq> []
          then scaling_matrix_loop rd 0 (if chroma_format_idc e \<noteq> 3 then 8 else 12) else ret [])
      (concat (map scaling_list_bits (scaling_matrix e))) (scaling_matrix e)"
    using assms dec_scaling_matrix [of 0 "scaling_matrix e"]
    by (cases "scaling_matrix e = []") (auto simp: sps_ext_ok_def decodes_ret)
  have idc: "ucast (ucast (chroma_format_idc e) :: u64) = chroma_format_idc e" by simp
  show ?thesis
    unfolding sps_ext_parse_def sps_ext_bits_def
    by (intro decodes_bnd [OF dec_read_exp_golomb] decodes_range_check, unfold idc,
        simp, simp, use assms in \<open>simp add: sps_ext_ok_def\<close>,
        intro decodes_bnd [OF flag] decodes_bnd [OF dec_read_exp_golomb] decodes_range_check
          dec_bit_step decodes_last [OF matrix] decodes_end)
      (use assms in \<open>auto simp: sps_ext_ok_def\<close>)
qed

end

subsection \<open>Building the parts\<close>

lemma emits_if:
  "(c \<Longrightarrow> emits app ok m bs) \<Longrightarrow> emits app ok (if c then m else ret ()) (if c then bs else [])"
  by (simp add: emits_ret)

context byte_sink
begin

lemma emits_sar: "emits app ok (sar_build wr s) (sar_bits s)"
  by (simp add: sar_build_def sar_bits_def coding)

lemma emits_h264_timing: "emits app ok (h264_timing_build wr t) (h264_timing_bits t)"
  by (simp add: h264_timing_build_def h264_timing_bits_def coding)

lemma emits_h264_color: "h264_color_ok c \<Longrightarrow> emits app ok (h264_color_build wr c) (h264_color_bits c)"
  by (simp add: h264_color_build_def h264_color_bits_def h264_color_ok_def coding)

lemma emits_chroma_loc: "emits app ok (chroma_loc_build wr c) (chroma_loc_bits c)"
  by (simp add: chroma_loc_build_def chroma_loc_bits_def coding)

lemma emits_frame_crop: "frame_crop_ok c \<Longrightarrow> emits app ok (frame_crop_build wr c) (frame_crop_bits c)"
  by (simp add: frame_crop_build_def frame_crop_bits_def frame_crop_ok_def coding)

lemma emits_signed_list:
  "list_all eg_signed_ok is \<Longrightarrow>
     emits app ok (each_io (write_signed_exp_golomb wr) is) (concat (map eg_signed_bits is))"
  by (intro emits_each emits_write_signed_exp_golomb) (simp add: list_all_iff)

lemma emits_poc_type1: "poc_type1_ok p \<Longrightarrow> emits app ok (poc_type1_build wr p) (poc_type1_bits p)"
  by (simp add: poc_type1_build_def poc_type1_bits_def poc_type1_ok_def coding poc_cycle offset_ok_eg
      emits_signed_list list.pred_mono_strong [of offset_ok])

lemma emits_scaling_list:
  "list_all eg_signed_ok v \<Longrightarrow>
     emits app ok (bnd (write_bit wr (v \<noteq> [])) (\<lambda>_. each_io (write_signed_exp_golomb wr) v)) (scaling_list_bits v)"
  unfolding scaling_list_bits_def by (intro emits_bit_step emits_signed_list)

lemma emits_sps_ext:
  assumes "sps_ext_ok e"
  shows "emits app ok (sps_ext_build wr e) (sps_ext_bits e)"
proof -
  have m: "list_all (list_all eg_signed_ok) (scaling_matrix e)"
    using assms by (auto simp: sps_ext_ok_def dest: scaling_matrix_eg)
  show ?thesis
    unfolding sps_ext_build_def sps_ext_bits_def
    by (intro emits_bnd [OF emits_write_exp_golomb] emits_bnd [OF emits_if] emits_write_bit
        emits_bit_step emits_each emits_scaling_list)
      (use m in \<open>simp_all add: list_all_iff\<close>)
qed

end

subsection \<open>The properties of the code\<close>

text \<open>
  The high-profile extension of the parameter set, scaling lists included: \<open>build\<close>
  succeeds, and \<open>parse\<close> reads the value back from what it wrote, in any position of the
  stream and whatever follows; \<open>bitsize\<close> is the number of bits written. The scaling lists
  are those whose running scale reaches zero at their end or that have all their entries.
\<close>

theorem sps_ext_roundtrip:
  assumes "sps_ext_ok e" and "writer_ok (\<lambda>_. True) b" and "reader_ok (\<lambda>_. True) r"
    and "rest_bits cursor_rest r = sps_ext_bits e @ rest"
  shows "sps_ext_build vec_write e b = (Inr (), put_bits (@) b (sps_ext_bits e)) \<and>
    (\<exists>r'. sps_ext_parse cursor_read r = (Inr e, r') \<and> rest_bits cursor_rest r' = rest) \<and>
    sps_ext_bitsize e = Inr (length (sps_ext_bits e))"
  using emitsD(1) [OF vec.emits_sps_ext [OF assms(1)] assms(2)] sps_ext_bitsize_eq [OF assms(1)]
    decodesE [OF cur.dec_sps_ext [OF assms(1)] assms(3,4)]
  by blast

definition sps_ext_sample :: sps_extended where
  "sps_ext_sample = \<lparr>chroma_format_idc = 1, separate_color_plane_flag = False,
     bit_depth_luma_minus8 = 2, bit_depth_chroma_minus8 = 2,
     qpprime_y_zero_transform_bypass_flag = False,
     scaling_matrix = [[-8], [], [], [4, -12], [], [], [], [-8]]\<rparr>"

lemma sps_ext_sample_ok: "sps_ext_ok sps_ext_sample"
  by code_simp

theorem sps_ext_roundtrip_witness:
  "sps_ext_build vec_write sps_ext_sample (bit_writer_new []) =
     (Inr (), put_bits (@) (bit_writer_new []) (sps_ext_bits sps_ext_sample)) \<and>
   (\<exists>r'. sps_ext_parse cursor_read (bit_reader_new (cursor_new (pack_bits (sps_ext_bits sps_ext_sample)))) =
      (Inr sps_ext_sample, r') \<and>
     rest_bits cursor_rest r' = replicate (pad_len (length (sps_ext_bits sps_ext_sample))) False) \<and>
   sps_ext_bitsize sps_ext_sample = Inr (length (sps_ext_bits sps_ext_sample))"
  by (rule sps_ext_roundtrip [OF sps_ext_sample_ok]) (simp_all add: byte_bits_pack)

end
