(* ===== verification/H264_Sps.thy ===== *)
theory H264_Sps
  imports H264_Parts
begin

text \<open>
  \<open>crates/h264/src/sps/mod.rs\<close>: the sequence parameter set of H.264. \<open>sps_bits\<close> is the
  bit string of a parameter set; \<open>build\<close> writes it, \<open>parse\<close> reads it, \<open>size\<close> is its length
  in bytes, and \<open>parse\<close> returns only parameter sets that have one. The variants with
  emulation prevention run the same code over an \<open>EmulationPreventionIo\<close>.
\<close>

subsection \<open>The parameter set\<close>

record sps =
  nal_ref_idc :: u8
  nal_unit_type :: u8
  profile_idc :: u8
  constraint_set0_flag :: bool
  constraint_set1_flag :: bool
  constraint_set2_flag :: bool
  constraint_set3_flag :: bool
  constraint_set4_flag :: bool
  constraint_set5_flag :: bool
  level_idc :: u8
  seq_parameter_set_id :: u16
  ext :: "sps_extended option"
  log2_max_frame_num_minus4 :: u8
  pic_order_cnt_type :: u8
  log2_max_pic_order_cnt_lsb_minus4 :: "u8 option"
  pic_order_cnt_type1 :: "pic_order_count_type1 option"
  max_num_ref_frames :: u8
  gaps_in_frame_num_value_allowed_flag :: bool
  pic_width_in_mbs_minus1 :: u64
  pic_height_in_map_units_minus1 :: u64
  mb_adaptive_frame_field_flag :: "bool option"
  direct_8x8_inference_flag :: bool
  sps_frame_crop_info :: "frame_crop_info option"
  sample_aspect_ratio :: "sar_dimensions option"
  overscan_appropriate_flag :: "bool option"
  sps_color_config :: "h264_color_config option"
  sps_chroma_sample_loc :: "chroma_sample_loc option"
  sps_timing_info :: "h264_timing_info option"

subsection \<open>parse\<close>

definition nal_type_sps :: u8 where
  "nal_type_sps = 7"

definition sps_nal_header_parse :: "'s read_fn \<Rightarrow> ('s bit_reader, u8 \<times> u8) io" where
  "sps_nal_header_parse rd =
     bnd (read_bit rd) (\<lambda>forbidden_zero_bit.
     bnd (guard (\<not> forbidden_zero_bit) (IoErr InvalidData ''Forbidden zero bit is set'')) (\<lambda>_.
     bnd (read_bits rd 2) (\<lambda>nal_ref_idc.
     bnd (read_bits rd 5) (\<lambda>nal_unit_type.
     bnd (guard (ucast nal_unit_type = nal_type_sps) (IoErr InvalidData ''NAL unit type is not SPS'')) (\<lambda>_.
     ret (ucast nal_ref_idc, ucast nal_unit_type))))))"

text \<open>Flags that the profile fixes are read and dropped.\<close>

definition constraint_flags_parse :: "'s read_fn \<Rightarrow> u8 \<Rightarrow>
    ('s bit_reader, bool \<times> bool \<times> bool \<times> bool \<times> bool \<times> bool) io" where
  "constraint_flags_parse rd profile =
     bnd (if profile \<in> {44, 100, 110, 122, 244}
          then bnd (read_bits rd 3) (\<lambda>_. ret (False, False, False))
          else bnd (read_bit rd) (\<lambda>c0. bnd (read_bit rd) (\<lambda>c1. bnd (read_bit rd) (\<lambda>c2.
               ret (c0, c1, c2))))) (\<lambda>(c0, c1, c2).
     bnd (bnd (read_bit rd) (\<lambda>b. ret (if profile = 44 then False else b))) (\<lambda>c3.
     bnd (bnd (read_bit rd) (\<lambda>b. ret (if profile \<in> {77, 88, 100, 118, 128, 134} then b else False))) (\<lambda>c4.
     bnd (bnd (read_bit rd) (\<lambda>b. ret (if profile \<in> {77, 88, 100, 118} then b else False))) (\<lambda>c5.
     bnd (read_bits rd 2) (\<lambda>_.
     ret (c0, c1, c2, c3, c4, c5))))))"

definition ext_profiles :: "u8 list" where
  "ext_profiles = [100, 110, 122, 244, 44, 83, 86, 118, 128, 138, 139, 134, 135]"

definition sps_ext_opt_parse :: "'s read_fn \<Rightarrow> u8 \<Rightarrow> ('s bit_reader, sps_extended option) io" where
  "sps_ext_opt_parse rd profile = when_io (profile \<in> set ext_profiles) (sps_ext_parse rd)"

text \<open>\<open>read_exp_golomb\<close>, a check against an upper bound and a cast.\<close>

definition read_eg_max :: "'s read_fn \<Rightarrow> u64 \<Rightarrow> string \<Rightarrow> ('s bit_reader, 'n::len word) io" where
  "read_eg_max rd hi what =
     bnd (read_exp_golomb rd) (\<lambda>n. bnd (range_check n 0 hi what) (\<lambda>_. ret (ucast n)))"

definition pic_order_cnt_parse :: "'s read_fn \<Rightarrow>
    ('s bit_reader, u8 \<times> u8 option \<times> pic_order_count_type1 option) io" where
  "pic_order_cnt_parse rd =
     bnd (read_eg_max rd 2 ''pic_order_cnt_type'') (\<lambda>pic_order_cnt_type.
     if pic_order_cnt_type = 0 then
       bnd (read_eg_max rd 12 ''log2_max_pic_order_cnt_lsb_minus4_value'') (\<lambda>v.
       ret (pic_order_cnt_type, Some v, None))
     else if pic_order_cnt_type = 1 then
       bnd (poc_type1_parse rd) (\<lambda>p. ret (pic_order_cnt_type, None, Some p))
     else ret (pic_order_cnt_type, None, None))"

text \<open>The result is \<open>(sample_aspect_ratio, overscan, color_config, chroma_sample_loc, timing_info)\<close>.\<close>

definition vui_parse :: "'s read_fn \<Rightarrow> 's bit_reader byteorder \<Rightarrow> sps_extended option \<Rightarrow>
    ('s bit_reader, sar_dimensions option \<times> bool option \<times> h264_color_config option \<times>
       chroma_sample_loc option \<times> h264_timing_info option) io" where
  "vui_parse rd bo extended =
     bnd (read_bit rd) (\<lambda>vui_parameters_present_flag.
     if vui_parameters_present_flag then
       bnd (bnd (read_bit rd) (\<lambda>b. when_io b (sar_parse rd bo))) (\<lambda>sar.
       bnd (bnd (read_bit rd) (\<lambda>b. when_io b (read_bit rd))) (\<lambda>overscan.
       bnd (bnd (read_bit rd) (\<lambda>b. when_io b (h264_color_parse rd bo))) (\<lambda>color.
       bnd (read_bit rd) (\<lambda>chroma_loc_info_present_flag.
       bnd (guard (\<not> (chroma_format_idc (case extended of None \<Rightarrow> sps_extended_default | Some e \<Rightarrow> e) \<noteq> 1 \<and>
              chroma_loc_info_present_flag)) (IoErr InvalidData
            ''chroma_loc_info_present_flag cannot be set to 1 when chroma_format_idc is not 1'')) (\<lambda>_.
       bnd (when_io chroma_loc_info_present_flag (chroma_loc_parse rd)) (\<lambda>chroma_loc.
       bnd (bnd (read_bit rd) (\<lambda>b. when_io b (h264_timing_parse bo))) (\<lambda>timing.
       ret (sar, overscan, color, chroma_loc, timing))))))))
     else ret (None, None, None, None, None))"

definition sps_read :: "'s read_fn \<Rightarrow> 's bit_reader byteorder \<Rightarrow> ('s bit_reader, sps) io" where
  "sps_read rd bo =
     bnd (sps_nal_header_parse rd) (\<lambda>(nal_ref_idc, nal_unit_type).
     bnd (bo_u8 bo) (\<lambda>profile_idc.
     bnd (constraint_flags_parse rd profile_idc) (\<lambda>(c0, c1, c2, c3, c4, c5).
     bnd (bo_u8 bo) (\<lambda>level_idc.
     bnd (read_eg_max rd 31 ''seq_parameter_set_id'') (\<lambda>seq_parameter_set_id.
     bnd (sps_ext_opt_parse rd profile_idc) (\<lambda>ext.
     bnd (read_eg_max rd 12 ''log2_max_frame_num_minus4'') (\<lambda>log2_max_frame_num_minus4.
     bnd (pic_order_cnt_parse rd) (\<lambda>(poc_type, poc_lsb, poc_type1).
     bnd (read_exp_golomb rd) (\<lambda>max_num_ref_frames.
     bnd (read_bit rd) (\<lambda>gaps.
     bnd (read_exp_golomb rd) (\<lambda>width.
     bnd (read_exp_golomb rd) (\<lambda>height.
     bnd (read_bit rd) (\<lambda>frame_mbs_only_flag.
     bnd (when_io (\<not> frame_mbs_only_flag) (read_bit rd)) (\<lambda>mb_adaptive.
     bnd (read_bit rd) (\<lambda>direct_8x8.
     bnd (read_bit rd) (\<lambda>frame_cropping_flag.
     bnd (when_io frame_cropping_flag (frame_crop_parse rd)) (\<lambda>crop.
     bnd (vui_parse rd bo ext) (\<lambda>(sar, overscan, color, chroma_loc, timing).
     ret \<lparr>nal_ref_idc = nal_ref_idc, nal_unit_type = nal_unit_type, profile_idc = profile_idc,
       constraint_set0_flag = c0, constraint_set1_flag = c1, constraint_set2_flag = c2,
       constraint_set3_flag = c3, constraint_set4_flag = c4, constraint_set5_flag = c5,
       level_idc = level_idc, seq_parameter_set_id = seq_parameter_set_id, ext = ext,
       log2_max_frame_num_minus4 = log2_max_frame_num_minus4, pic_order_cnt_type = poc_type,
       log2_max_pic_order_cnt_lsb_minus4 = poc_lsb, pic_order_cnt_type1 = poc_type1,
       max_num_ref_frames = ucast max_num_ref_frames, gaps_in_frame_num_value_allowed_flag = gaps,
       pic_width_in_mbs_minus1 = width, pic_height_in_map_units_minus1 = height,
       mb_adaptive_frame_field_flag = mb_adaptive, direct_8x8_inference_flag = direct_8x8,
       sps_frame_crop_info = crop, sample_aspect_ratio = sar, overscan_appropriate_flag = overscan,
       sps_color_config = color, sps_chroma_sample_loc = chroma_loc, sps_timing_info = timing\<rparr>))))))))))))))))))"

definition sps_parse :: "'s read_fn \<Rightarrow> 's bit_reader byteorder \<Rightarrow> ('s, sps) io" where
  "sps_parse rd bo = with_bit_reader (sps_read rd bo)"

definition sps_parse_with_emulation_prevention ::
    "'s read_fn \<Rightarrow> 's ep_io bit_reader byteorder \<Rightarrow> ('s, sps) io" where
  "sps_parse_with_emulation_prevention rd bo s =
     (case sps_parse (ep_read rd) bo (ep_new s) of (x, e) \<Rightarrow> (x, ep_inner e))"

subsection \<open>build\<close>

definition unwrap :: "'a option \<Rightarrow> err + 'a" where
  "unwrap v = (case v of None \<Rightarrow> Inl (Panic ''called Option::unwrap() on a None value'') | Some a \<Rightarrow> Inr a)"

definition sps_header_write :: "'w write_fn \<Rightarrow> sps \<Rightarrow> ('w bit_writer, unit) io" where
  "sps_header_write wr s =
     bnd (write_bit wr False) (\<lambda>_.
     bnd (write_bits wr (ucast (nal_ref_idc s)) 2) (\<lambda>_.
     bnd (write_bits wr (ucast (nal_unit_type s)) 5) (\<lambda>_.
     bnd (write_bits wr (ucast (profile_idc s)) 8) (\<lambda>_.
     bnd (write_bit wr (constraint_set0_flag s)) (\<lambda>_.
     bnd (write_bit wr (constraint_set1_flag s)) (\<lambda>_.
     bnd (write_bit wr (constraint_set2_flag s)) (\<lambda>_.
     bnd (write_bit wr (constraint_set3_flag s)) (\<lambda>_.
     bnd (write_bit wr (constraint_set4_flag s)) (\<lambda>_.
     bnd (write_bit wr (constraint_set5_flag s)) (\<lambda>_.
     bnd (write_bits wr 0 2) (\<lambda>_.
     bnd (write_bits wr (ucast (level_idc s)) 8) (\<lambda>_.
     bnd (write_exp_golomb wr (ucast (seq_parameter_set_id s))) (\<lambda>_.
     opt_io (sps_ext_build wr) (ext s))))))))))))))"

definition pic_order_cnt_write :: "'w write_fn \<Rightarrow> sps \<Rightarrow> ('w bit_writer, unit) io" where
  "pic_order_cnt_write wr s =
     bnd (write_exp_golomb wr (ucast (pic_order_cnt_type s))) (\<lambda>_.
     if pic_order_cnt_type s = 0 then
       bnd (lift_res (unwrap (log2_max_pic_order_cnt_lsb_minus4 s))) (\<lambda>v. write_exp_golomb wr (ucast v))
     else opt_io (poc_type1_build wr) (pic_order_cnt_type1 s))"

definition no_vui :: "sps \<Rightarrow> bool" where
  "no_vui s \<longleftrightarrow> sample_aspect_ratio s = None \<and> overscan_appropriate_flag s = None \<and>
     sps_color_config s = None \<and> sps_chroma_sample_loc s = None \<and> sps_timing_info s = None"

text \<open>\<open>write_bit(o.is_some())\<close>, then \<open>f\<close> on the value.\<close>

definition flag_opt_io :: "'w write_fn \<Rightarrow> ('a \<Rightarrow> ('w bit_writer, unit) io) \<Rightarrow> 'a option \<Rightarrow> ('w bit_writer, unit) io" where
  "flag_opt_io wr f v = bnd (write_bit wr (v \<noteq> None)) (\<lambda>_. opt_io f v)"

definition vui_write :: "'w write_fn \<Rightarrow> sps \<Rightarrow> ('w bit_writer, unit) io" where
  "vui_write wr s =
     (if no_vui s then write_bit wr False
      else
        bnd (write_bit wr True) (\<lambda>_.
        bnd (flag_opt_io wr (sar_build wr) (sample_aspect_ratio s)) (\<lambda>_.
        bnd (flag_opt_io wr (write_bit wr) (overscan_appropriate_flag s)) (\<lambda>_.
        bnd (flag_opt_io wr (h264_color_build wr) (sps_color_config s)) (\<lambda>_.
        bnd (flag_opt_io wr (chroma_loc_build wr) (sps_chroma_sample_loc s)) (\<lambda>_.
        flag_opt_io wr (h264_timing_build wr) (sps_timing_info s)))))))"

definition sps_write :: "'w write_fn \<Rightarrow> sps \<Rightarrow> ('w bit_writer, unit) io" where
  "sps_write wr s =
     bnd (sps_header_write wr s) (\<lambda>_.
     bnd (write_exp_golomb wr (ucast (log2_max_frame_num_minus4 s))) (\<lambda>_.
     bnd (pic_order_cnt_write wr s) (\<lambda>_.
     bnd (write_exp_golomb wr (ucast (max_num_ref_frames s))) (\<lambda>_.
     bnd (write_bit wr (gaps_in_frame_num_value_allowed_flag s)) (\<lambda>_.
     bnd (write_exp_golomb wr (pic_width_in_mbs_minus1 s)) (\<lambda>_.
     bnd (write_exp_golomb wr (pic_height_in_map_units_minus1 s)) (\<lambda>_.
     bnd (write_bit wr (mb_adaptive_frame_field_flag s = None)) (\<lambda>_.
     bnd (opt_io (write_bit wr) (mb_adaptive_frame_field_flag s)) (\<lambda>_.
     bnd (write_bit wr (direct_8x8_inference_flag s)) (\<lambda>_.
     bnd (flag_opt_io wr (frame_crop_build wr) (sps_frame_crop_info s)) (\<lambda>_.
     vui_write wr s)))))))))))"

definition sps_build :: "'w write_fn \<Rightarrow> sps \<Rightarrow> ('w, unit) io" where
  "sps_build wr s = with_bit_writer (bnd (sps_write wr s) (\<lambda>_. bnd (finish wr) (\<lambda>_. ret ())))"

definition sps_build_with_emulation_prevention :: "'w write_fn \<Rightarrow> sps \<Rightarrow> ('w, unit) io" where
  "sps_build_with_emulation_prevention wr s w =
     (case sps_build (ep_write wr) s (ep_new w) of (x, e) \<Rightarrow> (x, ep_inner e))"

subsection \<open>size, width and height\<close>

definition opt_size :: "('a \<Rightarrow> err + nat) \<Rightarrow> 'a option \<Rightarrow> err + nat" where
  "opt_size f v = (case v of None \<Rightarrow> Inr 0 | Some x \<Rightarrow> f x)"

definition vui_bitsize :: "sps \<Rightarrow> err + nat" where
  "vui_bitsize s =
     (if no_vui s then Inr 0
      else sum_res
        [Inr (case sample_aspect_ratio s of None \<Rightarrow> 1 | Some a \<Rightarrow> 1 + sar_bitsize a),
         Inr (case overscan_appropriate_flag s of None \<Rightarrow> 1 | Some _ \<Rightarrow> 2),
         Inr (case sps_color_config s of None \<Rightarrow> 1 | Some c \<Rightarrow> 1 + h264_color_bitsize c),
         (case sps_chroma_sample_loc s of None \<Rightarrow> Inr 1
            | Some c \<Rightarrow> rbind (chroma_loc_bitsize c) (\<lambda>n. Inr (1 + n))),
         Inr (case sps_timing_info s of None \<Rightarrow> 1 | Some t \<Rightarrow> 1 + h264_timing_bitsize t)])"

definition sps_bitsize :: "sps \<Rightarrow> err + nat" where
  "sps_bitsize s = sum_res
     [Inr (1 + 2 + 5 + 8 + 8 + 8), size_of_exp_golomb (ucast (seq_parameter_set_id s)),
      opt_size sps_ext_bitsize (ext s),
      size_of_exp_golomb (ucast (log2_max_frame_num_minus4 s)),
      size_of_exp_golomb (ucast (pic_order_cnt_type s)),
      (if pic_order_cnt_type s = 0 then
         rbind (unwrap (log2_max_pic_order_cnt_lsb_minus4 s)) (\<lambda>v. size_of_exp_golomb (ucast v))
       else if pic_order_cnt_type s = 1 then rbind (unwrap (pic_order_cnt_type1 s)) poc_type1_bitsize
       else Inr 0),
      size_of_exp_golomb (ucast (max_num_ref_frames s)), Inr 1,
      size_of_exp_golomb (pic_width_in_mbs_minus1 s),
      size_of_exp_golomb (pic_height_in_map_units_minus1 s), Inr 1,
      Inr (of_bool (mb_adaptive_frame_field_flag s \<noteq> None)), Inr 1, Inr 1,
      opt_size frame_crop_bitsize (sps_frame_crop_info s), Inr 1, vui_bitsize s]"

definition sps_size :: "sps \<Rightarrow> err + nat" where
  "sps_size s = rbind (sps_bitsize s) (\<lambda>n. Inr (div_ceil n 8))"

text \<open>The \<open>u64\<close> arithmetic of the frame dimensions, in the order of the code.\<close>

definition cropped :: "u64 \<Rightarrow> (u64 \<times> u64) option \<Rightarrow> err + u64" where
  "cropped base crop = (case crop of None \<Rightarrow> Inr base
     | Some (a, b) \<Rightarrow> rbind (checked_add a b) (\<lambda>o1. rbind (checked_mul o1 2) (\<lambda>o2. checked_sub base o2)))"

definition sps_height :: "sps \<Rightarrow> err + u64" where
  "sps_height s =
     rbind (checked_sub 2 (of_bool (mb_adaptive_frame_field_flag s = None))) (\<lambda>fields.
     rbind (checked_add (pic_height_in_map_units_minus1 s) 1) (\<lambda>units.
     rbind (checked_mul fields units) (\<lambda>mbs.
     rbind (checked_mul mbs 16) (\<lambda>base_height.
     cropped base_height (map_option (\<lambda>c. (frame_crop_top_offset c, frame_crop_bottom_offset c))
       (sps_frame_crop_info s))))))"

definition sps_width :: "sps \<Rightarrow> err + u64" where
  "sps_width s =
     rbind (checked_add (pic_width_in_mbs_minus1 s) 1) (\<lambda>mbs.
     rbind (checked_mul mbs 16) (\<lambda>base_width.
     cropped base_width (map_option (\<lambda>c. (frame_crop_left_offset c, frame_crop_right_offset c))
       (sps_frame_crop_info s))))"

subsection \<open>The bit string of a parameter set\<close>

definition pic_order_cnt_bits :: "u8 \<times> u8 option \<times> pic_order_count_type1 option \<Rightarrow> bool list" where
  "pic_order_cnt_bits = (\<lambda>(t, lsb, type1). eg_bits (ucast t) @
     (if t = 0 then eg_bits (ucast (the lsb)) else opt_bits poc_type1_bits type1))"

definition vui_bits :: "sar_dimensions option \<times> bool option \<times> h264_color_config option \<times>
    chroma_sample_loc option \<times> h264_timing_info option \<Rightarrow> bool list" where
  "vui_bits = (\<lambda>(sar, overscan, color, loc, timing).
     if sar = None \<and> overscan = None \<and> color = None \<and> loc = None \<and> timing = None then [False]
     else True # flag_bits sar_bits sar @ flag_bits (\<lambda>b. [b]) overscan @
       flag_bits h264_color_bits color @ flag_bits chroma_loc_bits loc @
       flag_bits h264_timing_bits timing)"

text \<open>\<open>n\<close> is the coded \<open>max_num_ref_frames\<close>, of which the record keeps eight bits.\<close>

definition sps_bits_ref :: "u64 \<Rightarrow> sps \<Rightarrow> bool list" where
  "sps_bits_ref n s = (False # bits_of 2 (nal_ref_idc s) @ bits_of 5 (nal_unit_type s)) @
     bits_of 8 (profile_idc s) @
     ([constraint_set0_flag s, constraint_set1_flag s, constraint_set2_flag s,
       constraint_set3_flag s, constraint_set4_flag s, constraint_set5_flag s] @ bits_of 2 (0 :: u64)) @
     bits_of 8 (level_idc s) @ eg_bits (ucast (seq_parameter_set_id s)) @
     opt_bits sps_ext_bits (ext s) @ eg_bits (ucast (log2_max_frame_num_minus4 s)) @
     pic_order_cnt_bits (pic_order_cnt_type s, log2_max_pic_order_cnt_lsb_minus4 s, pic_order_cnt_type1 s) @
     eg_bits n @ gaps_in_frame_num_value_allowed_flag s #
     eg_bits (pic_width_in_mbs_minus1 s) @ eg_bits (pic_height_in_map_units_minus1 s) @
     (mb_adaptive_frame_field_flag s = None) # opt_bits (\<lambda>b. [b]) (mb_adaptive_frame_field_flag s) @
     direct_8x8_inference_flag s # (sps_frame_crop_info s \<noteq> None) #
     opt_bits frame_crop_bits (sps_frame_crop_info s) @
     vui_bits (sample_aspect_ratio s, overscan_appropriate_flag s, sps_color_config s,
       sps_chroma_sample_loc s, sps_timing_info s)"

definition sps_bits :: "sps \<Rightarrow> bool list" where
  "sps_bits s = sps_bits_ref (ucast (max_num_ref_frames s)) s"

definition constraint_flags_ok :: "u8 \<Rightarrow> bool \<times> bool \<times> bool \<times> bool \<times> bool \<times> bool \<Rightarrow> bool" where
  "constraint_flags_ok profile = (\<lambda>(c0, c1, c2, c3, c4, c5).
     (profile \<in> {44, 100, 110, 122, 244} \<longrightarrow> \<not> c0 \<and> \<not> c1 \<and> \<not> c2) \<and> (profile = 44 \<longrightarrow> \<not> c3) \<and>
     (c4 \<longrightarrow> profile \<in> {77, 88, 100, 118, 128, 134}) \<and> (c5 \<longrightarrow> profile \<in> {77, 88, 100, 118}))"

definition pic_order_cnt_ok :: "u8 \<times> u8 option \<times> pic_order_count_type1 option \<Rightarrow> bool" where
  "pic_order_cnt_ok = (\<lambda>(t, lsb, type1). unat t \<le> 2 \<and>
     (if t = 0 then (\<exists>v. lsb = Some v \<and> unat v \<le> 12) \<and> type1 = None
      else lsb = None \<and> (if t = 1 then \<exists>p. type1 = Some p \<and> poc_type1_ok p else type1 = None)))"

definition vui_ok :: "sps_extended option \<Rightarrow> sar_dimensions option \<times> bool option \<times>
    h264_color_config option \<times> chroma_sample_loc option \<times> h264_timing_info option \<Rightarrow> bool" where
  "vui_ok extended = (\<lambda>(sar, overscan, color, loc, timing).
     opt_ok sar_ok sar \<and> opt_ok h264_color_ok color \<and> opt_ok h264_timing_ok timing \<and>
     opt_ok (\<lambda>c. chroma_loc_ok c \<and> opt_ok (\<lambda>e. chroma_format_idc e = 1) extended) loc)"

definition sps_ok :: "sps \<Rightarrow> bool" where
  "sps_ok s \<longleftrightarrow> unat (nal_ref_idc s) < 4 \<and> nal_unit_type s = nal_type_sps \<and>
     constraint_flags_ok (profile_idc s) (constraint_set0_flag s, constraint_set1_flag s,
       constraint_set2_flag s, constraint_set3_flag s, constraint_set4_flag s, constraint_set5_flag s) \<and>
     unat (seq_parameter_set_id s) \<le> 31 \<and>
     (ext s \<noteq> None) = (profile_idc s \<in> set ext_profiles) \<and> opt_ok sps_ext_ok (ext s) \<and>
     unat (log2_max_frame_num_minus4 s) \<le> 12 \<and>
     pic_order_cnt_ok (pic_order_cnt_type s, log2_max_pic_order_cnt_lsb_minus4 s, pic_order_cnt_type1 s) \<and>
     eg_ok (pic_width_in_mbs_minus1 s) \<and> eg_ok (pic_height_in_map_units_minus1 s) \<and>
     opt_ok frame_crop_ok (sps_frame_crop_info s) \<and>
     vui_ok (ext s) (sample_aspect_ratio s, overscan_appropriate_flag s, sps_color_config s,
       sps_chroma_sample_loc s, sps_timing_info s)"

subsection \<open>parse decodes it\<close>

lemma nal_type_less: "unat nal_type_sps < 2 ^ 5"
  by (simp add: nal_type_sps_def)

context byte_source
begin

lemma dec_read_eg_max:
  assumes "unat (v :: 'n::len word) \<le> unat hi" and "LENGTH('n) < 64"
  shows "dec (read_eg_max rd hi w) (eg_bits (ucast v)) v"
  unfolding read_eg_max_def
  by (intro decodes_last [OF dec_read_exp_golomb] decodes_range_check decodes_end)
    (use assms in simp_all)

lemma dec_sps_nal_header:
  "unat n < 4 \<Longrightarrow> dec (sps_nal_header_parse rd) (False # bits_of 2 n @ bits_of 5 nal_type_sps) (n, nal_type_sps)"
  using nal_type_less by (simp add: sps_nal_header_parse_def coding)

lemma dec_constraint_flags:
  assumes "constraint_flags_ok profile (c0, c1, c2, c3, c4, c5)"
  shows "dec (constraint_flags_parse rd profile) ([c0, c1, c2, c3, c4, c5] @ bits_of 2 (0 :: u64))
    (c0, c1, c2, c3, c4, c5)"
proof -
  have first: "dec (if profile \<in> {44, 100, 110, 122, 244}
          then bnd (read_bits rd 3) (\<lambda>_. ret (False, False, False))
          else bnd (read_bit rd) (\<lambda>c0. bnd (read_bit rd) (\<lambda>c1. bnd (read_bit rd) (\<lambda>c2.
               ret (c0, c1, c2))))) [c0, c1, c2] (c0, c1, c2)"
  proof (cases "profile \<in> {44, 100, 110, 122, 244}")
    case True
    with assms have "\<not> c0" "\<not> c1" "\<not> c2" unfolding constraint_flags_ok_def by blast+
    with True show ?thesis
      by (simp only: if_True) (rule decodes_last [OF dec_read_bits], simp_all add: decodes_ret)
  next
    case False
    then show ?thesis by (simp only: if_False) (simp add: coding)
  qed
  have c3: "c3 = (if profile = 44 then False else c3)"
    and c4: "c4 = (if profile \<in> {77, 88, 100, 118, 128, 134} then c4 else False)"
    and c5: "c5 = (if profile \<in> {77, 88, 100, 118} then c5 else False)"
    using assms by (auto simp: constraint_flags_ok_def)
  have skip: "dec (bnd (read_bits rd 2) (\<lambda>_. ret x)) (bits_of 2 (0 :: u64)) x" for x :: 'x
    by (simp add: coding)
  have "dec (constraint_flags_parse rd profile)
      ([c0, c1, c2] @ [c3] @ [c4] @ [c5] @ bits_of 2 (0 :: u64)) (c0, c1, c2, c3, c4, c5)"
    unfolding constraint_flags_parse_def bnd_assoc bnd_ret
    by (intro decodes_bnd_triple [OF first] decodes_bnd [OF dec_read_bit])
      (simp only: c3 [symmetric] c4 [symmetric] c5 [symmetric] skip)
  then show ?thesis by simp
qed

lemma dec_sps_ext_opt:
  "(e \<noteq> None) = (profile \<in> set ext_profiles) \<Longrightarrow> opt_ok sps_ext_ok e \<Longrightarrow>
     dec (sps_ext_opt_parse rd profile) (opt_bits sps_ext_bits e) e"
  unfolding sps_ext_opt_parse_def by (intro dec_when dec_sps_ext) (auto simp: opt_ok_def)

lemma dec_pic_order_cnt:
  assumes "pic_order_cnt_ok (t, lsb, type1)"
  shows "dec (pic_order_cnt_parse rd) (pic_order_cnt_bits (t, lsb, type1)) (t, lsb, type1)"
proof -
  have t: "dec (read_eg_max rd 2 w) (eg_bits (ucast t)) t" for w
    using assms by (intro dec_read_eg_max) (auto simp: pic_order_cnt_ok_def)
  have tail: "dec (if t = 0 then
       bnd (read_eg_max rd 12 ''log2_max_pic_order_cnt_lsb_minus4_value'') (\<lambda>v. ret (t, Some v, None))
     else if t = 1 then bnd (poc_type1_parse rd) (\<lambda>p. ret (t, None, Some p))
     else ret (t, None, None))
     (if t = 0 then eg_bits (ucast (the lsb)) else opt_bits poc_type1_bits type1) (t, lsb, type1)"
  proof -
    consider (zero) v where "t = 0" "lsb = Some v" "unat v \<le> 12" "type1 = None"
      | (one) p where "t = 1" "lsb = None" "type1 = Some p" "poc_type1_ok p"
      | (two) "t \<noteq> 0" "t \<noteq> 1" "lsb = None" "type1 = None"
      using assms by (auto simp: pic_order_cnt_ok_def split: if_splits)
    then show ?thesis
    proof cases
      case zero
      then have v: "dec (read_eg_max rd 12 w) (eg_bits (ucast v)) v" for w
        by (intro dec_read_eg_max) simp_all
      from zero show ?thesis by (simp add: decodes_last [OF v] decodes_ret)
    next
      case one
      then show ?thesis by (simp add: opt_bits_def decodes_last [OF dec_poc_type1] decodes_ret)
    next
      case two
      then show ?thesis by (simp add: opt_bits_def decodes_ret)
    qed
  qed
  show ?thesis
    unfolding pic_order_cnt_parse_def pic_order_cnt_bits_def prod.case
    by (rule decodes_bnd [OF t]) (rule tail)
qed

lemma dec_vui:
  assumes bo: "byteorder_reads (bit_reader_read rd) bo"
    and ok: "vui_ok extended (sar, overscan, color, loc, timing)"
  shows "dec (vui_parse rd bo extended) (vui_bits (sar, overscan, color, loc, timing))
    (sar, overscan, color, loc, timing)"
proof (cases "sar = None \<and> overscan = None \<and> color = None \<and> loc = None \<and> timing = None")
  case True
  then show ?thesis by (simp add: vui_bits_def vui_parse_def coding)
next
  case False
  have sar: "dec (bnd (read_bit rd) (\<lambda>b. when_io b (sar_parse rd bo))) (flag_bits sar_bits sar) sar"
    using ok by (intro dec_flag_when dec_sar [OF bo]) (simp add: vui_ok_def opt_ok_def)
  have overscan: "dec (bnd (read_bit rd) (\<lambda>b. when_io b (read_bit rd))) (flag_bits (\<lambda>b. [b]) overscan) overscan"
    by (intro dec_flag_when dec_read_bit)
  have color: "dec (bnd (read_bit rd) (\<lambda>b. when_io b (h264_color_parse rd bo)))
      (flag_bits h264_color_bits color) color"
    using ok by (intro dec_flag_when dec_h264_color [OF bo]) (simp add: vui_ok_def opt_ok_def)
  have timing: "dec (bnd (read_bit rd) (\<lambda>b. when_io b (h264_timing_parse bo)))
      (flag_bits h264_timing_bits timing) timing"
    using ok by (intro dec_flag_when dec_h264_timing [OF bo]) (simp add: vui_ok_def opt_ok_def)
  have loc: "dec (when_io (loc \<noteq> None) (chroma_loc_parse rd)) (opt_bits chroma_loc_bits loc) loc"
    using ok by (intro dec_when dec_chroma_loc) (simp_all add: vui_ok_def opt_ok_def)
  have fmt: "\<not> (chroma_format_idc (case extended of None \<Rightarrow> sps_extended_default | Some e \<Rightarrow> e) \<noteq> 1 \<and> loc \<noteq> None)"
    using ok by (auto simp: vui_ok_def opt_ok_def sps_extended_default_def split: option.splits)
  have bits: "vui_bits (sar, overscan, color, loc, timing) =
      True # flag_bits sar_bits sar @ flag_bits (\<lambda>b. [b]) overscan @ flag_bits h264_color_bits color @
        (loc \<noteq> None) # opt_bits chroma_loc_bits loc @ flag_bits h264_timing_bits timing"
    using False by (simp add: vui_bits_def flag_bits_def [of _ loc])
  show ?thesis
    unfolding bits vui_parse_def
    by (rule dec_bit_step, unfold if_True)
      (intro decodes_bnd [OF sar] decodes_bnd [OF overscan] decodes_bnd [OF color] dec_bit_step
        decodes_guard [OF fmt] decodes_bnd [OF loc] decodes_last [OF timing] decodes_end refl)
qed

lemma dec_sps_read_ref:
  assumes bo: "byteorder_reads (bit_reader_read rd) bo" and ok: "sps_ok s"
    and n: "eg_ok n" "ucast n = max_num_ref_frames s"
  shows "dec (sps_read rd bo) (sps_bits_ref n s) s"
proof -
  note ok = ok [unfolded sps_ok_def]
  have nal: "dec (sps_nal_header_parse rd) (False # bits_of 2 (nal_ref_idc s) @ bits_of 5 (nal_unit_type s))
      (nal_ref_idc s, nal_unit_type s)"
    using ok dec_sps_nal_header by simp
  have flags: "dec (constraint_flags_parse rd (profile_idc s))
      ([constraint_set0_flag s, constraint_set1_flag s, constraint_set2_flag s,
       constraint_set3_flag s, constraint_set4_flag s, constraint_set5_flag s] @ bits_of 2 (0 :: u64))
      (constraint_set0_flag s, constraint_set1_flag s, constraint_set2_flag s,
       constraint_set3_flag s, constraint_set4_flag s, constraint_set5_flag s)"
    using ok by (intro dec_constraint_flags) blast
  have id: "dec (read_eg_max rd 31 w) (eg_bits (ucast (seq_parameter_set_id s))) (seq_parameter_set_id s)" for w
    using ok by (intro dec_read_eg_max) simp_all
  have ext: "dec (sps_ext_opt_parse rd (profile_idc s)) (opt_bits sps_ext_bits (ext s)) (ext s)"
    using ok by (intro dec_sps_ext_opt) blast+
  have log2: "dec (read_eg_max rd 12 w) (eg_bits (ucast (log2_max_frame_num_minus4 s)))
      (log2_max_frame_num_minus4 s)" for w
    using ok by (intro dec_read_eg_max) simp_all
  have poc: "dec (pic_order_cnt_parse rd) (pic_order_cnt_bits (pic_order_cnt_type s,
      log2_max_pic_order_cnt_lsb_minus4 s, pic_order_cnt_type1 s))
      (pic_order_cnt_type s, log2_max_pic_order_cnt_lsb_minus4 s, pic_order_cnt_type1 s)"
    using ok by (intro dec_pic_order_cnt) blast
  have eg: "eg_ok n" "eg_ok (pic_width_in_mbs_minus1 s)"
      "eg_ok (pic_height_in_map_units_minus1 s)"
    using ok n by simp_all
  have mb: "dec (when_io (\<not> (mb_adaptive_frame_field_flag s = None)) (read_bit rd))
      (opt_bits (\<lambda>b. [b]) (mb_adaptive_frame_field_flag s)) (mb_adaptive_frame_field_flag s)"
    by (intro dec_when dec_read_bit) simp
  have crop: "dec (when_io (sps_frame_crop_info s \<noteq> None) (frame_crop_parse rd))
      (opt_bits frame_crop_bits (sps_frame_crop_info s)) (sps_frame_crop_info s)"
    using ok by (intro dec_when dec_frame_crop) (simp_all add: opt_ok_def)
  have vui: "dec (vui_parse rd bo (ext s)) (vui_bits (sample_aspect_ratio s, overscan_appropriate_flag s,
       sps_color_config s, sps_chroma_sample_loc s, sps_timing_info s))
      (sample_aspect_ratio s, overscan_appropriate_flag s, sps_color_config s,
       sps_chroma_sample_loc s, sps_timing_info s)"
    using ok by (intro dec_vui [OF bo]) blast
  have vui': "dec (bnd (vui_parse rd bo (ext s)) (\<lambda>(a, b, c, d, e). f a b c d e))
      (vui_bits (sample_aspect_ratio s, overscan_appropriate_flag s,
       sps_color_config s, sps_chroma_sample_loc s, sps_timing_info s)) x"
    if "dec (f (sample_aspect_ratio s) (overscan_appropriate_flag s) (sps_color_config s)
       (sps_chroma_sample_loc s) (sps_timing_info s)) [] x" for f x
    using decodes_last [OF vui, of "\<lambda>(a, b, c, d, e). f a b c d e"] that by simp
  have flags': "dec (bnd (constraint_flags_parse rd (profile_idc s)) (\<lambda>(a, b, c, d, e, g). f a b c d e g))
      (([constraint_set0_flag s, constraint_set1_flag s, constraint_set2_flag s,
       constraint_set3_flag s, constraint_set4_flag s, constraint_set5_flag s] @ bits_of 2 (0 :: u64)) @ bs) x"
    if "dec (f (constraint_set0_flag s) (constraint_set1_flag s) (constraint_set2_flag s)
       (constraint_set3_flag s) (constraint_set4_flag s) (constraint_set5_flag s)) bs x" for f bs x
    using decodes_bnd [OF flags, of "\<lambda>(a, b, c, d, e, g). f a b c d e g"] that by simp
  show ?thesis
    unfolding sps_read_def sps_bits_ref_def
    by (intro decodes_bnd_pair [OF nal] decodes_bnd [OF dec_bo_u8 [OF bo]] flags'
        decodes_bnd [OF id] decodes_bnd [OF ext] decodes_bnd [OF log2] decodes_bnd_triple [OF poc]
        decodes_bnd [OF dec_read_exp_golomb] dec_bit_step decodes_bnd [OF mb] decodes_bnd [OF crop]
        vui' decodes_end eg) (simp add: n)
qed

lemma dec_sps_read:
  "byteorder_reads (bit_reader_read rd) bo \<Longrightarrow> sps_ok s \<Longrightarrow> dec (sps_read rd bo) (sps_bits s) s"
  unfolding sps_bits_def by (rule dec_sps_read_ref) simp_all

end

subsection \<open>build emits it\<close>

context byte_sink
begin

lemma emits_opt_bits:
  "(\<And>x. v = Some x \<Longrightarrow> emits app ok (f x) (enc x)) \<Longrightarrow> emits app ok (opt_io f v) (opt_bits enc v)"
  unfolding opt_bits_def by (rule emits_opt)

lemma emits_flag_opt:
  "(\<And>x. v = Some x \<Longrightarrow> emits app ok (f x) (enc x)) \<Longrightarrow> emits app ok (flag_opt_io wr f v) (flag_bits enc v)"
  unfolding flag_opt_io_def flag_bits_def by (intro emits_bit_step emits_opt_bits)

lemma emits_pic_order_cnt:
  assumes "pic_order_cnt_ok (pic_order_cnt_type s, log2_max_pic_order_cnt_lsb_minus4 s, pic_order_cnt_type1 s)"
  shows "emits app ok (pic_order_cnt_write wr s) (pic_order_cnt_bits (pic_order_cnt_type s,
    log2_max_pic_order_cnt_lsb_minus4 s, pic_order_cnt_type1 s))"
proof -
  have eg: "eg_ok (ucast (pic_order_cnt_type s))" by simp
  have tail: "emits app ok (if pic_order_cnt_type s = 0 then
       bnd (lift_res (unwrap (log2_max_pic_order_cnt_lsb_minus4 s))) (\<lambda>v. write_exp_golomb wr (ucast v))
     else opt_io (poc_type1_build wr) (pic_order_cnt_type1 s))
     (if pic_order_cnt_type s = 0 then eg_bits (ucast (the (log2_max_pic_order_cnt_lsb_minus4 s)))
      else opt_bits poc_type1_bits (pic_order_cnt_type1 s))"
  proof (cases "pic_order_cnt_type s = 0")
    case True
    with assms show ?thesis
      by (auto simp: pic_order_cnt_ok_def unwrap_def emits_write_exp_golomb)
  next
    case False
    with assms have "emits app ok (opt_io (poc_type1_build wr) (pic_order_cnt_type1 s))
        (opt_bits poc_type1_bits (pic_order_cnt_type1 s))"
      by (intro emits_opt_bits emits_poc_type1) (auto simp: pic_order_cnt_ok_def split: if_splits)
    with False show ?thesis by simp
  qed
  show ?thesis
    unfolding pic_order_cnt_write_def pic_order_cnt_bits_def prod.case
    by (rule emits_bnd [OF emits_write_exp_golomb [OF eg]]) (rule tail)
qed

lemma emits_vui:
  assumes "vui_ok (ext s) (sample_aspect_ratio s, overscan_appropriate_flag s, sps_color_config s,
     sps_chroma_sample_loc s, sps_timing_info s)"
  shows "emits app ok (vui_write wr s) (vui_bits (sample_aspect_ratio s, overscan_appropriate_flag s,
     sps_color_config s, sps_chroma_sample_loc s, sps_timing_info s))"
proof (cases "no_vui s")
  case True
  then show ?thesis by (simp add: vui_write_def vui_bits_def no_vui_def emits_write_bit)
next
  case False
  then have bits: "vui_bits (sample_aspect_ratio s, overscan_appropriate_flag s,
     sps_color_config s, sps_chroma_sample_loc s, sps_timing_info s) =
     True # flag_bits sar_bits (sample_aspect_ratio s) @ flag_bits (\<lambda>b. [b]) (overscan_appropriate_flag s) @
       flag_bits h264_color_bits (sps_color_config s) @ flag_bits chroma_loc_bits (sps_chroma_sample_loc s) @
       flag_bits h264_timing_bits (sps_timing_info s)"
    by (simp add: vui_bits_def no_vui_def)
  have color: "emits app ok (flag_opt_io wr (h264_color_build wr) (sps_color_config s))
      (flag_bits h264_color_bits (sps_color_config s))"
    using assms by (intro emits_flag_opt emits_h264_color) (simp add: vui_ok_def opt_ok_def)
  show ?thesis
    unfolding bits vui_write_def if_not_P [OF False]
    by (intro emits_bit_step emits_bnd [OF emits_flag_opt [OF emits_sar]]
        emits_bnd [OF emits_flag_opt [OF emits_write_bit]] emits_bnd [OF color]
        emits_bnd [OF emits_flag_opt [OF emits_chroma_loc]] emits_flag_opt [OF emits_h264_timing])
qed

lemma emits_reserved: "emits app ok (write_bits wr 0 2) (bits_of 2 (0 :: u64))"
  by (rule emits_write_bits) simp_all

lemma emits_sps_header:
  assumes "sps_ok s"
  shows "emits app ok (sps_header_write wr s)
    ((False # bits_of 2 (nal_ref_idc s) @ bits_of 5 (nal_unit_type s)) @
     bits_of 8 (profile_idc s) @
     ([constraint_set0_flag s, constraint_set1_flag s, constraint_set2_flag s,
       constraint_set3_flag s, constraint_set4_flag s, constraint_set5_flag s] @ bits_of 2 (0 :: u64)) @
     bits_of 8 (level_idc s) @ eg_bits (ucast (seq_parameter_set_id s)) @
     opt_bits sps_ext_bits (ext s))"
proof -
  have "unat (nal_ref_idc s) < 2 ^ 2" "unat (nal_unit_type s) < 2 ^ 5"
    using assms nal_type_less by (simp_all add: sps_ok_def)
  moreover have "emits app ok (opt_io (sps_ext_build wr) (ext s)) (opt_bits sps_ext_bits (ext s))"
    using assms by (intro emits_opt_bits emits_sps_ext) (simp add: sps_ok_def opt_ok_def)
  ultimately show ?thesis
    unfolding sps_header_write_def append_assoc append_Cons append_Nil
    by (intro emits_bit_step emits_bnd [OF emits_write_field'] emits_bnd [OF emits_reserved]
        emits_bnd [OF emits_write_exp_golomb]) simp_all
qed

lemma emits_sps:
  assumes "sps_ok s"
  shows "emits app ok (sps_write wr s) (sps_bits s)"
proof -
  note ok = assms [unfolded sps_ok_def]
  have poc: "emits app ok (pic_order_cnt_write wr s) (pic_order_cnt_bits (pic_order_cnt_type s,
      log2_max_pic_order_cnt_lsb_minus4 s, pic_order_cnt_type1 s))"
    using ok by (intro emits_pic_order_cnt) blast
  have vui: "emits app ok (vui_write wr s) (vui_bits (sample_aspect_ratio s, overscan_appropriate_flag s,
      sps_color_config s, sps_chroma_sample_loc s, sps_timing_info s))"
    using ok by (intro emits_vui) blast
  have mb: "emits app ok (opt_io (write_bit wr) (mb_adaptive_frame_field_flag s))
      (opt_bits (\<lambda>b. [b]) (mb_adaptive_frame_field_flag s))"
    by (intro emits_opt_bits emits_write_bit)
  have crop: "emits app ok (flag_opt_io wr (frame_crop_build wr) (sps_frame_crop_info s))
      (flag_bits frame_crop_bits (sps_frame_crop_info s))"
    using ok by (intro emits_flag_opt emits_frame_crop) (simp add: opt_ok_def)
  have eg: "eg_ok (ucast (log2_max_frame_num_minus4 s))" "eg_ok (ucast (max_num_ref_frames s))"
      "eg_ok (pic_width_in_mbs_minus1 s)" "eg_ok (pic_height_in_map_units_minus1 s)"
    using ok by simp_all
  have bits: "sps_bits s = ((False # bits_of 2 (nal_ref_idc s) @ bits_of 5 (nal_unit_type s)) @
     bits_of 8 (profile_idc s) @
     ([constraint_set0_flag s, constraint_set1_flag s, constraint_set2_flag s,
       constraint_set3_flag s, constraint_set4_flag s, constraint_set5_flag s] @ bits_of 2 (0 :: u64)) @
     bits_of 8 (level_idc s) @ eg_bits (ucast (seq_parameter_set_id s)) @
     opt_bits sps_ext_bits (ext s)) @ eg_bits (ucast (log2_max_frame_num_minus4 s)) @
     pic_order_cnt_bits (pic_order_cnt_type s, log2_max_pic_order_cnt_lsb_minus4 s, pic_order_cnt_type1 s) @
     eg_bits (ucast (max_num_ref_frames s)) @ gaps_in_frame_num_value_allowed_flag s #
     eg_bits (pic_width_in_mbs_minus1 s) @ eg_bits (pic_height_in_map_units_minus1 s) @
     (mb_adaptive_frame_field_flag s = None) # opt_bits (\<lambda>b. [b]) (mb_adaptive_frame_field_flag s) @
     direct_8x8_inference_flag s # flag_bits frame_crop_bits (sps_frame_crop_info s) @
     vui_bits (sample_aspect_ratio s, overscan_appropriate_flag s, sps_color_config s,
       sps_chroma_sample_loc s, sps_timing_info s)"
    by (simp add: sps_bits_def sps_bits_ref_def flag_bits_def)
  show ?thesis
    unfolding bits sps_write_def
    by (intro emits_bnd [OF emits_sps_header [OF assms]] emits_bnd [OF emits_write_exp_golomb]
        emits_bnd [OF poc] emits_bit_step emits_bnd [OF mb] emits_bnd [OF crop] vui eg)
qed

end

subsection \<open>What parse returns\<close>

lemma yields_read_eg_max:
  "unat hi = m \<Longrightarrow> yields (read_eg_max rd hi w) (\<lambda>v :: 'n::len word. unat v \<le> m)"
  unfolding read_eg_max_def by (intro yielding) (simp add: unat_ucast_bound)

lemma yields_sps_nal_header:
  "yields (sps_nal_header_parse rd) (\<lambda>(n, t). unat n < 4 \<and> t = nal_type_sps)"
proof -
  have "unat (ucast v :: u8) < 4" if "unat v < 2 ^ 2" for v :: u64
    using unat_ucast_less [of v 4] that by simp
  then show ?thesis
    unfolding sps_nal_header_parse_def by (intro yielding) simp
qed

lemma yields_constraint_flags: "yields (constraint_flags_parse rd profile) (constraint_flags_ok profile)"
  unfolding constraint_flags_parse_def bnd_assoc bnd_ret
proof (rule yields_bnd_triple)
  show "yields (if profile \<in> {44, 100, 110, 122, 244}
          then bnd (read_bits rd 3) (\<lambda>_. ret (False, False, False))
          else bnd (read_bit rd) (\<lambda>c0. bnd (read_bit rd) (\<lambda>c1. bnd (read_bit rd) (\<lambda>c2.
               ret (c0, c1, c2)))))
      (\<lambda>(c0, c1, c2). profile \<in> {44, 100, 110, 122, 244} \<longrightarrow> \<not> c0 \<and> \<not> c1 \<and> \<not> c2)"
    by (intro yielding) auto
qed (intro yielding, auto simp: constraint_flags_ok_def)

lemma yields_pic_order_cnt: "yields (pic_order_cnt_parse rd) pic_order_cnt_ok"
  unfolding pic_order_cnt_parse_def
  by (intro yields_if yields_bnd [OF yields_read_eg_max [where m = 2]]
      yields_bnd [OF yields_read_eg_max [where m = 12]] yields_bnd [OF yields_poc_type1] yields_ret)
    (simp_all add: pic_order_cnt_ok_def)

lemma yields_sps_ext_opt: "yields (sps_ext_opt_parse rd profile)
    (\<lambda>e. (e \<noteq> None) = (profile \<in> set ext_profiles) \<and> opt_ok sps_ext_ok e)"
  unfolding sps_ext_opt_parse_def by (rule yields_when [OF yields_sps_ext])

lemma yields_vui: "yields (vui_parse rd bo extended) (vui_ok extended)"
  unfolding vui_parse_def
  by (intro yields_bit_step yields_if yields_ret yields_guard_step
      yields_bnd [OF yields_flag_when [OF yields_sar]] yields_bnd [OF yields_flag_when [OF yields_any]]
      yields_bnd [OF yields_flag_when [OF yields_h264_color]]
      yields_bnd [OF yields_when [OF yields_chroma_loc]]
      yields_bnd [OF yields_flag_when [OF yields_h264_timing]])
    (auto simp: vui_ok_def opt_ok_def split: option.splits)

lemma yields_sps_read: "yields (sps_read rd bo) sps_ok"
proof -
  have six: "yields (bnd (constraint_flags_parse rd p) (\<lambda>(a, b, c, d, e, g). f a b c d e g)) Q"
    if "\<And>a b c d e g. constraint_flags_ok p (a, b, c, d, e, g) \<Longrightarrow> yields (f a b c d e g) Q" for p f and Q :: "sps \<Rightarrow> bool"
    by (rule yields_bnd [OF yields_constraint_flags]) (use that in auto)
  have five: "yields (bnd (vui_parse rd bo x) (\<lambda>(a, b, c, d, e). f a b c d e)) Q"
    if "\<And>a b c d e. vui_ok x (a, b, c, d, e) \<Longrightarrow> yields (f a b c d e) Q" for x f and Q :: "sps \<Rightarrow> bool"
    by (rule yields_bnd [OF yields_vui]) (use that in auto)
  show ?thesis
    unfolding sps_read_def
    by (intro yields_bnd_pair [OF yields_sps_nal_header] yields_bo_step six
        yields_bnd [OF yields_read_eg_max [where m = 31]] yields_bnd [OF yields_sps_ext_opt]
        yields_bnd [OF yields_read_eg_max [where m = 12]] yields_bnd_triple [OF yields_pic_order_cnt]
        yields_eg_step yields_bit_step yields_bnd [OF yields_when [OF yields_any]]
        yields_bnd [OF yields_when [OF yields_frame_crop]] five yields_ret)
      (simp_all add: sps_ok_def)
qed

subsection \<open>size is the number of bytes\<close>

lemma opt_size_eq:
  "(\<And>x. v = Some x \<Longrightarrow> f x = Inr (length (g x))) \<Longrightarrow> opt_size f v = Inr (length (opt_bits g v))"
  by (cases v) (simp_all add: opt_size_def opt_bits_def)

lemma vui_bitsize_eq:
  "rbind (vui_bitsize s) (\<lambda>n. Inr (1 + n)) = Inr (length (vui_bits (sample_aspect_ratio s,
     overscan_appropriate_flag s, sps_color_config s, sps_chroma_sample_loc s, sps_timing_info s)))"
proof (cases "no_vui s")
  case True
  then show ?thesis by (simp add: vui_bitsize_def vui_bits_def no_vui_def)
next
  case False
  have f: "length (flag_bits g v) = (case v of None \<Rightarrow> 1 | Some x \<Rightarrow> 1 + length (g x))" for g and v :: "'x option"
    by (cases v) (simp_all add: flag_bits_def opt_bits_def)
  have c: "(case sps_chroma_sample_loc s of None \<Rightarrow> Inr 1
       | Some c \<Rightarrow> rbind (chroma_loc_bitsize c) (\<lambda>n. Inr (1 + n))) =
     Inr (length (flag_bits chroma_loc_bits (sps_chroma_sample_loc s)))"
    by (cases "sps_chroma_sample_loc s") (simp_all add: f chroma_loc_bitsize_eq)
  show ?thesis
    using False unfolding vui_bitsize_def if_not_P [OF False] c
    by (simp add: vui_bits_def no_vui_def f sar_bitsize_eq h264_color_bitsize_eq h264_timing_bitsize_eq(1)
        cong: option.case_cong)
      (simp split: option.splits)
qed

lemma sps_bitsize_eq:
  assumes "sps_ok s"
  shows "sps_bitsize s = Inr (length (sps_bits s))"
proof -
  note ok = assms [unfolded sps_ok_def]
  have ext: "opt_size sps_ext_bitsize (ext s) = Inr (length (opt_bits sps_ext_bits (ext s)))"
    using ok by (intro opt_size_eq sps_ext_bitsize_eq) (simp add: opt_ok_def)
  have crop: "opt_size frame_crop_bitsize (sps_frame_crop_info s) =
      Inr (length (opt_bits frame_crop_bits (sps_frame_crop_info s)))"
    using ok by (intro opt_size_eq frame_crop_bitsize_eq) (simp add: opt_ok_def)
  have poc_ok: "pic_order_cnt_ok (pic_order_cnt_type s, log2_max_pic_order_cnt_lsb_minus4 s, pic_order_cnt_type1 s)"
    using ok by blast
  have poc: "(if pic_order_cnt_type s = 0 then
         rbind (unwrap (log2_max_pic_order_cnt_lsb_minus4 s)) (\<lambda>v. size_of_exp_golomb (ucast v))
       else if pic_order_cnt_type s = 1 then rbind (unwrap (pic_order_cnt_type1 s)) poc_type1_bitsize
       else Inr 0) =
     Inr (length (if pic_order_cnt_type s = 0 then eg_bits (ucast (the (log2_max_pic_order_cnt_lsb_minus4 s)))
       else opt_bits poc_type1_bits (pic_order_cnt_type1 s)))"
    using poc_ok
    by (auto simp: pic_order_cnt_ok_def unwrap_def size_of_exp_golomb_eq poc_type1_bitsize_eq opt_bits_def
        split: if_splits)
  obtain n where n: "vui_bitsize s = Inr n"
    "length (vui_bits (sample_aspect_ratio s, overscan_appropriate_flag s, sps_color_config s,
       sps_chroma_sample_loc s, sps_timing_info s)) = 1 + n"
    using vui_bitsize_eq [of s] by (cases "vui_bitsize s") simp_all
  have mb: "of_bool (mb_adaptive_frame_field_flag s \<noteq> None) =
      length (opt_bits (\<lambda>b. [b]) (mb_adaptive_frame_field_flag s))"
    by (cases "mb_adaptive_frame_field_flag s") (simp_all add: opt_bits_def)
  show ?thesis
    unfolding sps_bitsize_def ext crop poc n(1) mb
    using ok by (simp add: size_of_exp_golomb_eq sps_bits_def sps_bits_ref_def n(2) pic_order_cnt_bits_def)
qed

lemma sps_size_eq: "sps_ok s \<Longrightarrow> sps_size s = Inr (length (pack_bits (sps_bits s)))"
  by (simp add: sps_size_def sps_bitsize_eq div_ceil_def length_pack_bits_div)

subsection \<open>Frame dimensions\<close>

text \<open>The numbers of luma samples as the standard defines them.\<close>

definition crop_samples :: "(frame_crop_info \<Rightarrow> u64 \<times> u64) \<Rightarrow> sps \<Rightarrow> nat" where
  "crop_samples f s = (case sps_frame_crop_info s of None \<Rightarrow> 0
     | Some c \<Rightarrow> (case f c of (a, b) \<Rightarrow> 2 * (unat a + unat b)))"

definition coded_width :: "sps \<Rightarrow> nat" where
  "coded_width s = (unat (pic_width_in_mbs_minus1 s) + 1) * 16"

definition coded_height :: "sps \<Rightarrow> nat" where
  "coded_height s = (if mb_adaptive_frame_field_flag s = None then 1 else 2) *
     (unat (pic_height_in_map_units_minus1 s) + 1) * 16"

lemma gives_crop: "gives (rbind (checked_add a b) (\<lambda>o1. checked_mul o1 2)) (2 * (unat a + unat b))"
proof (rule gives_rbind [OF gives_checked_add])
  fix v :: u64
  assume "unat v = unat a + unat b"
  with gives_checked_mul [of v 2] show "gives (checked_mul v 2) (2 * (unat a + unat b))"
    by (simp add: mult.commute)
qed simp

lemma cropped_spec:
  "if crop_samples f s \<le> unat base
   then returns (cropped base (map_option f (sps_frame_crop_info s))) (unat base - crop_samples f s)
   else panics (cropped base (map_option f (sps_frame_crop_info s)))"
proof (cases "sps_frame_crop_info s")
  case None
  then show ?thesis by (simp add: cropped_def crop_samples_def)
next
  case (Some c)
  obtain a b where ab: "f c = (a, b)" by fastforce
  let ?r = "rbind (checked_add a b) (\<lambda>o1. checked_mul o1 2)"
  have crop: "cropped base (map_option f (sps_frame_crop_info s)) = rbind ?r (checked_sub base)"
    and n: "crop_samples f s = 2 * (unat a + unat b)"
    by (simp_all add: cropped_def crop_samples_def Some ab rbind_assoc)
  have base: "unat base < 2 ^ 64" by (simp add: unat_u64_less)
  show ?thesis
  proof (cases "crop_samples f s < 2 ^ 64")
    case True
    with gives_crop [of a b] obtain v where "?r = Inr v" "unat v = crop_samples f s"
      unfolding gives_def n by (auto elim: returnsE)
    then show ?thesis
      unfolding crop by (simp add: checked_sub_def word_le_nat_alt unat_sub)
  next
    case False
    with gives_crop [of a b] have "panics ?r" unfolding gives_def n by simp
    with False base show ?thesis unfolding crop by (simp add: panics_rbind)
  qed
qed

lemma gives_cropped:
  assumes "gives r n"
  shows "if n < 2 ^ 64 \<and> crop_samples f s \<le> n
   then returns (rbind r (\<lambda>base. cropped base (map_option f (sps_frame_crop_info s)))) (n - crop_samples f s)
   else panics (rbind r (\<lambda>base. cropped base (map_option f (sps_frame_crop_info s))))"
proof (cases "n < 2 ^ 64")
  case True
  with assms obtain v where "r = Inr v" "unat v = n" by (auto simp: gives_def elim: returnsE)
  with cropped_spec [of f s v] True show ?thesis by (auto split: if_splits)
next
  case False
  with assms show ?thesis by (simp add: gives_def panics_rbind)
qed

text \<open>
  \<open>width\<close> is the coded width less the cropped samples, whenever that is a number a
  \<open>u64\<close> holds; when the cropping exceeds the coded width, or the width overflows, the
  call panics. Nothing in \<open>parse\<close> prevents such a parameter set.
\<close>

theorem sps_width_spec:
  "if coded_width s < 2 ^ 64 \<and> crop_samples (\<lambda>c. (frame_crop_left_offset c, frame_crop_right_offset c)) s \<le> coded_width s
   then returns (sps_width s)
     (coded_width s - crop_samples (\<lambda>c. (frame_crop_left_offset c, frame_crop_right_offset c)) s)
   else panics (sps_width s)"
proof -
  have "gives (rbind (checked_add (pic_width_in_mbs_minus1 s) 1) (\<lambda>mbs. checked_mul mbs 16)) (coded_width s)"
    unfolding coded_width_def
  proof (rule gives_rbind [OF gives_checked_add])
    fix v :: u64
    assume "unat v = unat (pic_width_in_mbs_minus1 s) + unat (1 :: u64)"
    with gives_checked_mul [of v 16]
    show "gives (checked_mul v 16) ((unat (pic_width_in_mbs_minus1 s) + 1) * 16)" by simp
  qed simp
  from gives_cropped [OF this, of "\<lambda>c. (frame_crop_left_offset c, frame_crop_right_offset c)" s]
  show ?thesis by (simp only: sps_width_def rbind_assoc)
qed

text \<open>
  \<open>height\<close> is the coded height, twice the map units when fields are possible, less the
  cropped samples, whenever that is a number a \<open>u64\<close> holds; otherwise the call panics.
\<close>

theorem sps_height_spec:
  "if coded_height s < 2 ^ 64 \<and> crop_samples (\<lambda>c. (frame_crop_top_offset c, frame_crop_bottom_offset c)) s \<le> coded_height s
   then returns (sps_height s)
     (coded_height s - crop_samples (\<lambda>c. (frame_crop_top_offset c, frame_crop_bottom_offset c)) s)
   else panics (sps_height s)"
proof -
  let ?f = "checked_sub 2 (of_bool (mb_adaptive_frame_field_flag s = None)) :: err + u64"
  let ?n = "if mb_adaptive_frame_field_flag s = None then 1 else 2 :: nat"
  let ?h = "pic_height_in_map_units_minus1 s"
  obtain k where k: "?f = Inr k" "unat k = ?n"
    by (cases "mb_adaptive_frame_field_flag s") (simp_all add: checked_sub_def word_le_nat_alt)
  have "gives (rbind (rbind (checked_add ?h 1) (\<lambda>u. checked_mul k u)) (\<lambda>m. checked_mul m 16)) (coded_height s)"
    unfolding coded_height_def
  proof (rule gives_rbind [OF gives_rbind [OF gives_checked_add]])
    fix v :: u64
    assume "unat v = unat ?h + unat (1 :: u64)"
    with gives_checked_mul [of k v] k show "gives (checked_mul k v) (?n * (unat ?h + 1))" by simp
  next
    fix v :: u64
    assume "unat v = ?n * (unat ?h + 1)"
    with gives_checked_mul [of v 16] show "gives (checked_mul v 16) (?n * (unat ?h + 1) * 16)" by simp
  qed simp_all
  from gives_cropped [OF this, of "\<lambda>c. (frame_crop_top_offset c, frame_crop_bottom_offset c)" s]
  show ?thesis by (simp only: sps_height_def rbind_assoc k(1) rbind_simps)
qed

subsection \<open>The properties of the code\<close>

lemma sps_build_run: "sps_ok s \<Longrightarrow> sps_build vec_write s [] = (Inr (), pack_bits (sps_bits s))"
  using vec.with_bit_writer_emits [OF vec.emits_sps, of s "[]"] by (simp add: sps_build_def)

lemma sps_parse_run:
  assumes "byteorder_reads (bit_reader_read cursor_read) bo" and "sps_ok s" and "eg_ok n"
    and "ucast n = max_num_ref_frames s"
  shows "\<exists>c. sps_parse cursor_read bo (cursor_new (pack_bits (sps_bits_ref n s) @ rest)) = (Inr s, c)"
  unfolding sps_parse_def
  using cur.with_bit_reader_dec [OF cur.dec_sps_read_ref [OF assms], of "cursor_new (pack_bits (sps_bits_ref n s) @ rest)"]
  by (auto simp: byte_bits_pack)

text \<open>
  C1. A well-formed parameter set, with any combination of its optional parts, is built into
  bytes from which \<open>parse\<close> returns it, whatever bytes follow; the number of bytes is what
  \<open>size\<close> says. Well-formed are exactly the parameter sets that \<open>parse\<close> returns on some input
  (\<open>sps_parse_image\<close>); two kinds that the comments allow are not among them, those of profile
  44 with \<open>constraint_set3_flag\<close> and those of profile 110 with \<open>constraint_set4_flag\<close>.
\<close>

theorem sps_roundtrip:
  assumes "byteorder_reads (bit_reader_read cursor_read) bo" and "sps_ok s"
  shows "\<exists>v c. sps_build vec_write s [] = (Inr (), v) \<and> sps_size s = Inr (length v) \<and>
    sps_parse cursor_read bo (cursor_new (v @ rest)) = (Inr s, c)"
proof -
  have "\<exists>c. sps_parse cursor_read bo (cursor_new (pack_bits (sps_bits s) @ rest)) = (Inr s, c)"
    unfolding sps_bits_def by (rule sps_parse_run [OF assms]) simp_all
  with assms(2) show ?thesis by (simp add: sps_build_run sps_size_eq)
qed

text \<open>
  The same through the layer that inserts and removes emulation prevention bytes.
\<close>

theorem sps_emulation_prevention_roundtrip:
  assumes "byteorder_reads (bit_reader_read (ep_read cursor_read)) bo" and "sps_ok s"
  shows "\<exists>v c. sps_build_with_emulation_prevention vec_write s [] = (Inr (), v) \<and>
    sps_parse_with_emulation_prevention cursor_read bo (cursor_new v) = (Inr s, c)"
proof -
  let ?v = "escape 0 (pack_bits (sps_bits s))"
  let ?r = "ep_new (cursor_new ?v)"
  have "ep_sink_ok (\<lambda>_. True) (ep_new [])" by (simp add: ep_sink_ok_def ep_new_def)
  from ep_vec.with_bit_writer_emits [OF ep_vec.emits_sps [OF assms(2)] this]
  have w: "sps_build_with_emulation_prevention vec_write s [] = (Inr (), ?v)"
    by (simp add: sps_build_with_emulation_prevention_def sps_build_def ep_app_def ep_new_def)
  have "ep_source_ok cursor_rest (\<lambda>_. True) ?r" and "ep_unread cursor_rest ?r = pack_bits (sps_bits s)"
    by (simp_all add: ep_source_ok_def ep_unread_def ep_new_def zero_runs_ok_escape unescape_escape)
  with ep_cur.with_bit_reader_dec [OF ep_cur.dec_sps_read [OF assms], of ?r] obtain e
    where "with_bit_reader (sps_read (ep_read cursor_read) bo) ?r = (Inr s, e)"
    by (auto simp: byte_bits_pack)
  with w show ?thesis
    by (simp add: sps_parse_with_emulation_prevention_def sps_parse_def)
qed










lemma flags_documented:
  assumes "constraint_flags_ok profile (c0, c1, c2, c3, c4, c5)"
  shows "(profile \<in> {44, 100, 110, 122, 244} \<longrightarrow> \<not> c0 \<and> \<not> c1 \<and> \<not> c2) \<and>
    (profile = 44 \<longrightarrow> \<not> c3) \<and> (profile = 110 \<longrightarrow> \<not> c4)"
  using assms unfolding constraint_flags_ok_def prod.case by (intro conjI impI) (blast | simp)+



lemma sps_parse_ok: "sps_parse cursor_read bo c = (Inr s, c') \<Longrightarrow> sps_ok s"
proof -
  assume "sps_parse cursor_read bo c = (Inr s, c')"
  then obtain r where "sps_read cursor_read bo (bit_reader_new c) = (Inr s, r)"
    by (auto simp: sps_parse_def with_bit_reader_def split: prod.splits)
  then show "sps_ok s" by (rule yieldsD [OF yields_sps_read])
qed

text \<open>The parameter sets of \<open>sps_roundtrip\<close> are the ones that \<open>parse\<close> returns on some input.\<close>

theorem sps_parse_image:
  assumes "byteorder_reads (bit_reader_read cursor_read) bo"
  shows "(\<exists>c c'. sps_parse cursor_read bo c = (Inr s, c')) \<longleftrightarrow> sps_ok s"
proof
  assume "sps_ok s"
  from sps_parse_run [OF assms this, of "ucast (max_num_ref_frames s)" "[]"]
  show "\<exists>c c'. sps_parse cursor_read bo c = (Inr s, c')" by auto
qed (auto intro: sps_parse_ok)

text \<open>
  Two constraint flags that the comments give a meaning never come out set: the third one of
  profile 44, for which \<^emph>\<open>0 is not possible\<close>, and the fourth one of profile 110.
\<close>

theorem sps_parse_drops_flags:
  assumes "sps_parse cursor_read bo c = (Inr s, c')"
  shows "(profile_idc s = 44 \<longrightarrow> \<not> constraint_set3_flag s) \<and> (profile_idc s = 110 \<longrightarrow> \<not> constraint_set4_flag s)"
  using sps_parse_ok [OF assms, unfolded sps_ok_def] flags_documented by blast


text \<open>
  \<open>max_num_ref_frames\<close> is cast to a \<open>u8\<close> without a range check: two streams that differ
  in it by a multiple of 256 parse to the same parameter set.
\<close>

theorem sps_max_num_ref_frames_truncated:
  assumes "byteorder_reads (bit_reader_read cursor_read) bo" and "sps_ok s" and "eg_ok n"
    and "ucast n = max_num_ref_frames s"
  shows "fst (sps_parse cursor_read bo (cursor_new (pack_bits (sps_bits_ref n s)))) = Inr s \<and>
    fst (sps_parse cursor_read bo (cursor_new (pack_bits (sps_bits_ref (ucast (max_num_ref_frames s)) s)))) = Inr s"
  using sps_parse_run [OF assms, of "[]"]
    sps_parse_run [OF assms(1,2), of "ucast (max_num_ref_frames s)" "[]"]
  by auto

subsection \<open>Concrete parameter sets\<close>

definition sps_sample :: sps where
  "sps_sample = \<lparr>nal_ref_idc = 3, nal_unit_type = 7, profile_idc = 100,
     constraint_set0_flag = False, constraint_set1_flag = False, constraint_set2_flag = False,
     constraint_set3_flag = False, constraint_set4_flag = True, constraint_set5_flag = False,
     level_idc = 40, seq_parameter_set_id = 0, ext = Some sps_ext_sample,
     log2_max_frame_num_minus4 = 4, pic_order_cnt_type = 1,
     log2_max_pic_order_cnt_lsb_minus4 = None,
     pic_order_cnt_type1 = Some \<lparr>delta_pic_order_always_zero_flag = False,
       offset_for_non_ref_pic = -2, offset_for_top_to_bottom_field = 1,
       num_ref_frames_in_pic_order_cnt_cycle = 2, offset_for_ref_frame = [3, -4]\<rparr>,
     max_num_ref_frames = 4, gaps_in_frame_num_value_allowed_flag = False,
     pic_width_in_mbs_minus1 = 119, pic_height_in_map_units_minus1 = 33,
     mb_adaptive_frame_field_flag = Some False, direct_8x8_inference_flag = True,
     sps_frame_crop_info = Some \<lparr>frame_crop_left_offset = 0, frame_crop_right_offset = 0,
       frame_crop_top_offset = 0, frame_crop_bottom_offset = 4\<rparr>,
     sample_aspect_ratio = Some \<lparr>aspect_ratio_idc = 255, sar_width = 4, sar_height = 3\<rparr>,
     overscan_appropriate_flag = Some True,
     sps_color_config = Some \<lparr>video_format = 5, video_full_range_flag = True,
       vui_color_primaries = 1, vui_transfer_characteristics = 1, vui_matrix_coefficients = 1\<rparr>,
     sps_chroma_sample_loc = Some \<lparr>chroma_sample_loc_type_top_field = 1,
       chroma_sample_loc_type_bottom_field = 1\<rparr>,
     sps_timing_info = Some \<lparr>num_units_in_tick = 1, vui_time_scale = 60\<rparr>\<rparr>"

lemma sps_sample_ok: "sps_ok sps_sample"
  using sps_ext_sample_ok
  by (simp add: sps_ok_def sps_sample_def nal_type_sps_def constraint_flags_ok_def ext_profiles_def
      opt_ok_def pic_order_cnt_ok_def poc_type1_ok_def offset_ok_def eg_ok_def frame_crop_ok_def
      vui_ok_def sar_ok_def h264_color_ok_def h264_timing_ok_def chroma_loc_ok_def)
    (simp add: sps_ext_sample_def)

theorem sps_roundtrip_witness:
  "\<exists>v c. sps_build vec_write sps_sample [] = (Inr (), v) \<and> sps_size sps_sample = Inr (length v) \<and>
    sps_parse cursor_read (be_reads (bit_reader_read cursor_read)) (cursor_new (v @ [1, 2])) = (Inr sps_sample, c)"
  by (rule sps_roundtrip [OF byteorder_reads_be_reads sps_sample_ok])

theorem sps_emulation_prevention_roundtrip_witness:
  "\<exists>v c. sps_build_with_emulation_prevention vec_write sps_sample [] = (Inr (), v) \<and>
    sps_parse_with_emulation_prevention cursor_read (be_reads (bit_reader_read (ep_read cursor_read)))
      (cursor_new v) = (Inr sps_sample, c)"
  by (rule sps_emulation_prevention_roundtrip [OF byteorder_reads_be_reads sps_sample_ok])


text \<open>The sample with profile 44.\<close>

definition sps_sample_44 :: sps where
  "sps_sample_44 = sps_sample\<lparr>profile_idc := 44, constraint_set4_flag := False\<rparr>"

lemma sps_sample_44_ok: "sps_ok sps_sample_44"
  using sps_sample_ok
  by (simp add: sps_sample_44_def sps_sample_def sps_ok_def constraint_flags_ok_def ext_profiles_def)

theorem sps_parse_drops_flags_witness:
  "profile_idc sps_sample_44 = 44 \<and> \<not> constraint_set3_flag sps_sample_44"
proof -
  from sps_parse_image [OF byteorder_reads_be_reads, of sps_sample_44] sps_sample_44_ok obtain c c'
    where "sps_parse cursor_read (be_reads (bit_reader_read cursor_read)) c = (Inr sps_sample_44, c')" by blast
  from sps_parse_drops_flags [OF this] show ?thesis by (simp add: sps_sample_44_def)
qed

theorem sps_max_num_ref_frames_truncated_witness:
  "fst (sps_parse cursor_read (be_reads (bit_reader_read cursor_read))
      (cursor_new (pack_bits (sps_bits_ref 260 sps_sample)))) = Inr sps_sample \<and>
   fst (sps_parse cursor_read (be_reads (bit_reader_read cursor_read))
      (cursor_new (pack_bits (sps_bits_ref (ucast (max_num_ref_frames sps_sample)) sps_sample)))) = Inr sps_sample"
  by (rule sps_max_num_ref_frames_truncated [OF byteorder_reads_be_reads sps_sample_ok])
    (simp_all add: sps_sample_def eg_ok_def)

end
