(* ===== verification/H264_Config.thy ===== *)
theory H264_Config
  imports H264_Sps Bytes_Cursor
begin

text \<open>
  \<open>crates/h264/src/config.rs\<close>: the AVC decoder configuration record, a byte-oriented
  container of parameter sets. It is parsed from an \<open>io::Cursor<Bytes>\<close> and built with a
  bit writer that is aligned after each parameter set extension.
\<close>

subsection \<open>The record\<close>

record avcc_extended_config =
  ec_chroma_format_idc :: u8
  ec_bit_depth_luma_minus8 :: u8
  ec_bit_depth_chroma_minus8 :: u8
  sequence_parameter_set_ext :: "sps_extended list"

record avc_decoder_configuration_record =
  configuration_version :: u8
  profile_indication :: u8
  profile_compatibility :: u8
  level_indication :: u8
  length_size_minus_one :: u8
  avcc_sps :: "u8 list list"
  avcc_pps :: "u8 list list"
  extended_config :: "avcc_extended_config option"

subsection \<open>parse\<close>

text \<open>One parameter set: a 16-bit length and that many bytes.\<close>

definition avcc_set_parse :: "cursor byteorder \<Rightarrow> (cursor, u8 list) io" where
  "avcc_set_parse bo = bnd (bo_u16 bo) (\<lambda>len. extract_bytes (unat len))"

definition avcc_ext_set_parse :: "cursor byteorder \<Rightarrow> (cursor, sps_extended) io" where
  "avcc_ext_set_parse bo =
     bnd (avcc_set_parse bo) (\<lambda>sps_ext_data.
     lift_res (fst (sps_ext_parse cursor_read (bit_reader_new_from_slice sps_ext_data))))"

definition avcc_extended_parse :: "cursor byteorder \<Rightarrow> (cursor, avcc_extended_config) io" where
  "avcc_extended_parse bo =
     bnd (bo_u8 bo) (\<lambda>chroma_format_idc.
     bnd (bo_u8 bo) (\<lambda>bit_depth_luma_minus8.
     bnd (bo_u8 bo) (\<lambda>bit_depth_chroma_minus8.
     bnd (bo_u8 bo) (\<lambda>number_of_sequence_parameter_set_ext.
     bnd (times_io (unat number_of_sequence_parameter_set_ext) (avcc_ext_set_parse bo)) (\<lambda>sets.
     ret \<lparr>ec_chroma_format_idc = chroma_format_idc AND 3,
          ec_bit_depth_luma_minus8 = bit_depth_luma_minus8 AND 7,
          ec_bit_depth_chroma_minus8 = bit_depth_chroma_minus8 AND 7,
          sequence_parameter_set_ext = sets\<rparr>)))))"

text \<open>\<open>Buf::has_remaining\<close> of the crate \<open>bytes\<close> is a parameter.\<close>

definition avcc_parse :: "cursor byteorder \<Rightarrow> (cursor \<Rightarrow> bool) \<Rightarrow> (cursor, avc_decoder_configuration_record) io" where
  "avcc_parse bo has_remaining =
     bnd (bo_u8 bo) (\<lambda>configuration_version.
     bnd (bo_u8 bo) (\<lambda>profile_indication.
     bnd (bo_u8 bo) (\<lambda>profile_compatibility.
     bnd (bo_u8 bo) (\<lambda>level_indication.
     bnd (bo_u8 bo) (\<lambda>length_size.
     bnd (bo_u8 bo) (\<lambda>num_sps.
     bnd (times_io (unat (num_sps AND 31)) (avcc_set_parse bo)) (\<lambda>sps.
     bnd (bo_u8 bo) (\<lambda>num_pps.
     bnd (times_io (unat num_pps) (avcc_set_parse bo)) (\<lambda>pps.
     bnd (if profile_indication \<in> {66, 77, 88} then ret None
          else (\<lambda>c. when_io (has_remaining c) (avcc_extended_parse bo) c)) (\<lambda>extended.
     ret \<lparr>configuration_version = configuration_version, profile_indication = profile_indication,
          profile_compatibility = profile_compatibility, level_indication = level_indication,
          length_size_minus_one = length_size AND 3, avcc_sps = sps, avcc_pps = pps,
          extended_config = extended\<rparr>))))))))))"

subsection \<open>size and build\<close>

definition avcc_size :: "avc_decoder_configuration_record \<Rightarrow> err + nat" where
  "avcc_size c = sum_res
     [Inr (1 + 1 + 1 + 1 + 1 + 1), Inr (sum_list (map (\<lambda>sps. 2 + length sps) (avcc_sps c))), Inr 1,
      Inr (sum_list (map (\<lambda>pps. 2 + length pps) (avcc_pps c))),
      (case extended_config c of None \<Rightarrow> Inr 0
       | Some config \<Rightarrow> sum_res [Inr (1 + 1 + 1 + 1),
           sum_res (map (\<lambda>e. rbind (sps_ext_bytesize e) (\<lambda>n. Inr (2 + n)))
             (sequence_parameter_set_ext config))])]"

text \<open>The lengths are cast: \<open>len() as u16\<close>.\<close>

definition avcc_set_write :: "'w write_fn \<Rightarrow> 'w bit_writer byteorder_w \<Rightarrow> u8 list \<Rightarrow> ('w bit_writer, unit) io" where
  "avcc_set_write wr bw bs =
     bnd (bw_u16 bw (of_nat (length bs))) (\<lambda>_. write_all (bit_writer_write wr) bs)"

definition avcc_ext_set_write :: "'w write_fn \<Rightarrow> 'w bit_writer byteorder_w \<Rightarrow> sps_extended \<Rightarrow> ('w bit_writer, unit) io" where
  "avcc_ext_set_write wr bw e =
     bnd (lift_res (sps_ext_bytesize e)) (\<lambda>n.
     bnd (bw_u16 bw (of_nat n)) (\<lambda>_.
     bnd (sps_ext_build wr e) (\<lambda>_.
     align_writer wr)))"

definition avcc_extended_write :: "'w write_fn \<Rightarrow> 'w bit_writer byteorder_w \<Rightarrow> avcc_extended_config \<Rightarrow> ('w bit_writer, unit) io" where
  "avcc_extended_write wr bw config =
     bnd (write_bits wr 63 6) (\<lambda>_.
     bnd (write_bits wr (ucast (ec_chroma_format_idc config)) 2) (\<lambda>_.
     bnd (write_bits wr 31 5) (\<lambda>_.
     bnd (write_bits wr (ucast (ec_bit_depth_luma_minus8 config)) 3) (\<lambda>_.
     bnd (write_bits wr 31 5) (\<lambda>_.
     bnd (write_bits wr (ucast (ec_bit_depth_chroma_minus8 config)) 3) (\<lambda>_.
     bnd (write_bits wr (of_nat (length (sequence_parameter_set_ext config))) 8) (\<lambda>_.
     each_io (avcc_ext_set_write wr bw) (sequence_parameter_set_ext config))))))))"

definition avcc_write :: "'w write_fn \<Rightarrow> 'w bit_writer byteorder_w \<Rightarrow> avc_decoder_configuration_record \<Rightarrow> ('w bit_writer, unit) io" where
  "avcc_write wr bw c =
     bnd (bw_u8 bw (configuration_version c)) (\<lambda>_.
     bnd (bw_u8 bw (profile_indication c)) (\<lambda>_.
     bnd (bw_u8 bw (profile_compatibility c)) (\<lambda>_.
     bnd (bw_u8 bw (level_indication c)) (\<lambda>_.
     bnd (write_bits wr 63 6) (\<lambda>_.
     bnd (write_bits wr (ucast (length_size_minus_one c)) 2) (\<lambda>_.
     bnd (write_bits wr 7 3) (\<lambda>_.
     bnd (write_bits wr (of_nat (length (avcc_sps c))) 5) (\<lambda>_.
     bnd (each_io (avcc_set_write wr bw) (avcc_sps c)) (\<lambda>_.
     bnd (write_bits wr (of_nat (length (avcc_pps c))) 8) (\<lambda>_.
     bnd (each_io (avcc_set_write wr bw) (avcc_pps c)) (\<lambda>_.
     opt_io (avcc_extended_write wr bw) (extended_config c))))))))))))"

definition avcc_build :: "'w write_fn \<Rightarrow> 'w bit_writer byteorder_w \<Rightarrow> avc_decoder_configuration_record \<Rightarrow> ('w, unit) io" where
  "avcc_build wr bw c = with_bit_writer (bnd (avcc_write wr bw c) (\<lambda>_. bnd (finish wr) (\<lambda>_. ret ())))"

subsection \<open>The bytes of a record\<close>

definition avcc_set_bytes :: "u8 list \<Rightarrow> u8 list" where
  "avcc_set_bytes bs = pack_bits (bits_of 16 (of_nat (length bs) :: u16)) @ bs"

definition sps_ext_bytes :: "sps_extended \<Rightarrow> u8 list" where
  "sps_ext_bytes e = pack_bits (sps_ext_bits e)"

text \<open>\<open>n\<close> bits after ones, the reserved bits of the format.\<close>

definition marked :: "nat \<Rightarrow> u8 \<Rightarrow> u8" where
  "marked n x = of_bits (replicate (8 - n) True @ bits_of n x)"

definition avcc_extended_bytes :: "avcc_extended_config \<Rightarrow> u8 list" where
  "avcc_extended_bytes config =
     [marked 2 (ec_chroma_format_idc config), marked 3 (ec_bit_depth_luma_minus8 config),
      marked 3 (ec_bit_depth_chroma_minus8 config), of_nat (length (sequence_parameter_set_ext config))] @
     concat (map (\<lambda>e. avcc_set_bytes (sps_ext_bytes e)) (sequence_parameter_set_ext config))"

definition avcc_bytes :: "avc_decoder_configuration_record \<Rightarrow> u8 list" where
  "avcc_bytes c =
     [configuration_version c, profile_indication c, profile_compatibility c, level_indication c,
      marked 2 (length_size_minus_one c), marked 5 (of_nat (length (avcc_sps c)))] @
     concat (map avcc_set_bytes (avcc_sps c)) @ of_nat (length (avcc_pps c)) #
     concat (map avcc_set_bytes (avcc_pps c)) @
     (case extended_config c of None \<Rightarrow> [] | Some config \<Rightarrow> avcc_extended_bytes config)"

definition avcc_extended_ok :: "avcc_extended_config \<Rightarrow> bool" where
  "avcc_extended_ok e \<longleftrightarrow> unat (ec_chroma_format_idc e) < 4 \<and> unat (ec_bit_depth_luma_minus8 e) < 8 \<and>
     unat (ec_bit_depth_chroma_minus8 e) < 8 \<and> length (sequence_parameter_set_ext e) < 256 \<and>
     list_all (\<lambda>s. sps_ext_ok s \<and> length (sps_ext_bytes s) < 65536) (sequence_parameter_set_ext e)"

definition avcc_ok :: "avc_decoder_configuration_record \<Rightarrow> bool" where
  "avcc_ok c \<longleftrightarrow> unat (length_size_minus_one c) < 4 \<and>
     length (avcc_sps c) < 32 \<and> length (avcc_pps c) < 256 \<and>
     list_all (\<lambda>s. length s < 65536) (avcc_sps c) \<and> list_all (\<lambda>s. length s < 65536) (avcc_pps c) \<and>
     (case extended_config c of None \<Rightarrow> True
      | Some e \<Rightarrow> profile_indication c \<notin> {66, 77, 88} \<and> avcc_extended_ok e)"

lemma take_bit_marked: "unat x < 2 ^ n \<Longrightarrow> n \<le> 8 \<Longrightarrow> take_bit n (marked n x) = x"
proof -
  assume "unat x < 2 ^ n" and n: "n \<le> 8"
  then have x: "take_bit n x = x" using take_bit_ucast_id [of x n, where 'a = 8] by simp
  have "take_bit n (marked n x) = take_bit n x"
    by (rule bit_word_eqI)
      (use n in \<open>auto simp: marked_def bit_take_bit_iff bit_of_bits nth_append nth_bits_of\<close>)
  with x show ?thesis by simp
qed

lemma marked_and [simp]:
  "unat x < 4 \<Longrightarrow> marked 2 x AND 3 = x" "unat x < 8 \<Longrightarrow> marked 3 x AND 7 = x"
  "unat x < 32 \<Longrightarrow> marked 5 x AND 31 = x"
  using take_bit_marked [of x 2] take_bit_marked [of x 3] take_bit_marked [of x 5]
  by (simp_all add: take_bit_eq_mask mask_numeral)

lemma bits_of_marked: "n \<le> 8 \<Longrightarrow> bits_of 8 (marked n x) = replicate (8 - n) True @ bits_of n x"
  by (simp add: marked_def)

subsection \<open>parse decodes them\<close>

lemma sdec_extract_bytes: "length bs = n \<Longrightarrow> cur.sdec (extract_bytes n) bs bs"
proof (rule cur.sdecI)
  fix s rest
  assume "length bs = n" "cursor_rest s = bs @ rest"
  moreover from this have "n \<le> remaining s" using length_cursor_rest [of s] by simp
  ultimately show "\<exists>s'. extract_bytes n s = (Inr bs, s') \<and> cursor_rest s' = rest \<and> True"
    by (simp add: extract_bytes_run cursor_rest_advance)
qed

lemma unat_len: "length xs < 256 \<Longrightarrow> unat (of_nat (length xs) :: u8) = length xs"
    "length xs < 65536 \<Longrightarrow> unat (of_nat (length xs) :: u16) = length xs"
  by (simp_all add: unat_of_nat)

lemma sdec_avcc_set:
  "byteorder_reads cursor_read bo \<Longrightarrow> length bs < 65536 \<Longrightarrow> cur.sdec (avcc_set_parse bo) (avcc_set_bytes bs) bs"
  unfolding avcc_set_parse_def avcc_set_bytes_def
  by (rule cur.sdec_bnd [OF cur.sdec_bo(2)]) (simp_all add: sdec_extract_bytes unat_len)

lemma sdec_avcc_sets:
  "byteorder_reads cursor_read bo \<Longrightarrow> list_all (\<lambda>s. length s < 65536) xs \<Longrightarrow>
     cur.sdec (times_io (length xs) (avcc_set_parse bo)) (concat (map avcc_set_bytes xs)) xs"
  by (intro cur.sdec_times sdec_avcc_set) (simp_all add: list_all_iff)

lemma sdec_avcc_ext_set:
  assumes bo: "byteorder_reads cursor_read bo" and "sps_ext_ok e" and "length (sps_ext_bytes e) < 65536"
  shows "cur.sdec (avcc_ext_set_parse bo) (avcc_set_bytes (sps_ext_bytes e)) e"
proof -
  have "rest_bits cursor_rest (bit_reader_new_from_slice (sps_ext_bytes e)) = sps_ext_bits e @
      replicate (pad_len (length (sps_ext_bits e))) False"
    by (simp add: bit_reader_new_from_slice_def sps_ext_bytes_def byte_bits_pack)
  moreover have "reader_ok (\<lambda>_. True) (bit_reader_new_from_slice (sps_ext_bytes e))"
    by (simp add: bit_reader_new_from_slice_def)
  ultimately obtain r where
    "sps_ext_parse cursor_read (bit_reader_new_from_slice (sps_ext_bytes e)) = (Inr e, r)"
    using cur.dec_sps_ext [OF assms(2)] by (blast elim: decodesE)
  then show ?thesis
    unfolding avcc_ext_set_parse_def
    by (intro cur.sdec_last [OF sdec_avcc_set [OF bo assms(3)]]) (simp add: decodes_def run_simps)
qed

lemma sdec_avcc_extended:
  assumes bo: "byteorder_reads cursor_read bo" and "avcc_extended_ok e"
  shows "cur.sdec (avcc_extended_parse bo) (avcc_extended_bytes e) e"
proof -
  have sets: "cur.sdec (times_io (length (sequence_parameter_set_ext e)) (avcc_ext_set_parse bo))
      (concat (map (\<lambda>e. avcc_set_bytes (sps_ext_bytes e)) (sequence_parameter_set_ext e)))
      (sequence_parameter_set_ext e)"
    using assms(2) by (intro cur.sdec_times sdec_avcc_ext_set [OF bo]) (simp_all add: avcc_extended_ok_def list_all_iff)
  have n: "unat (of_nat (length (sequence_parameter_set_ext e)) :: u8) = length (sequence_parameter_set_ext e)"
    using assms by (simp add: avcc_extended_ok_def unat_len)
  show ?thesis
    unfolding avcc_extended_parse_def avcc_extended_bytes_def append_Cons append_Nil
    by (intro cur.sdec_Cons [OF cur.sdec_bo(1) [OF bo]], unfold n)
      (rule cur.sdec_last [OF sets], use assms in \<open>simp add: avcc_extended_ok_def decodes_end\<close>)
qed

lemma decodes_avcc:
  assumes bo: "byteorder_reads cursor_read bo" and ok: "avcc_ok c" and rem: "\<And>c. has_remaining c \<longleftrightarrow> cursor_rest c \<noteq> []"
  shows "cur.decodes_all (avcc_parse bo has_remaining) (avcc_bytes c) c"
proof -
  have small: "unat (length_size_minus_one c) < 4"
    using ok by (simp add: avcc_ok_def)
  have ls: "unat (of_nat (length (avcc_sps c)) :: u8) = length (avcc_sps c)"
      "unat (of_nat (length (avcc_pps c)) :: u8) = length (avcc_pps c)"
    using ok by (simp_all add: avcc_ok_def unat_len)
  then have n: "unat (marked 5 (of_nat (length (avcc_sps c))) AND 31) = length (avcc_sps c)"
    using ok by (simp add: avcc_ok_def)
  have sps: "cur.sdec (times_io (length (avcc_sps c)) (avcc_set_parse bo))
      (concat (map avcc_set_bytes (avcc_sps c))) (avcc_sps c)"
    and pps: "cur.sdec (times_io (length (avcc_pps c)) (avcc_set_parse bo))
      (concat (map avcc_set_bytes (avcc_pps c))) (avcc_pps c)"
    using ok by (simp_all add: sdec_avcc_sets [OF bo] avcc_ok_def)
  have tail: "cur.decodes_all (bnd (if profile_indication c \<in> {66, 77, 88} then ret None
          else (\<lambda>c. when_io (has_remaining c) (avcc_extended_parse bo) c)) (\<lambda>extended. ret (f extended)))
      (case extended_config c of None \<Rightarrow> [] | Some config \<Rightarrow> avcc_extended_bytes config)
      (f (extended_config c))" for f :: "_ \<Rightarrow> 'x"
  proof (cases "extended_config c")
    case None
    then show ?thesis
      by (auto simp: cur.decodes_all_def rem run_simps bnd_def)
  next
    case (Some e)
    with ok have p: "profile_indication c \<notin> {66, 77, 88}" and e: "avcc_extended_ok e"
      by (simp_all add: avcc_ok_def)
    show ?thesis
      unfolding cur.decodes_all_def
    proof (intro allI impI)
      fix s
      assume s: "cursor_rest s = (case extended_config c of None \<Rightarrow> [] | Some config \<Rightarrow> avcc_extended_bytes config)"
      with Some have "cursor_rest s = avcc_extended_bytes e @ []" by simp
      from cur.sdecE [OF sdec_avcc_extended [OF bo e] _ this] obtain t
        where "avcc_extended_parse bo s = (Inr e, t)" "cursor_rest t = []" by auto
      moreover have "has_remaining s" using s Some by (simp add: rem avcc_extended_bytes_def)
      ultimately show "\<exists>s'. bnd (if profile_indication c \<in> {66, 77, 88} then ret None
          else (\<lambda>c. when_io (has_remaining c) (avcc_extended_parse bo) c)) (\<lambda>extended. ret (f extended)) s =
          (Inr (f (extended_config c)), s') \<and> cursor_rest s' = [] \<and> True"
        unfolding if_not_P [OF p] by (simp add: Some bnd_def run_simps)
    qed
  qed
  have "c = \<lparr>configuration_version = configuration_version c, profile_indication = profile_indication c,
      profile_compatibility = profile_compatibility c, level_indication = level_indication c,
      length_size_minus_one = marked 2 (length_size_minus_one c) AND 3, avcc_sps = avcc_sps c,
      avcc_pps = avcc_pps c, extended_config = extended_config c\<rparr>"
    using small by simp
  with tail [of "\<lambda>x. \<lparr>configuration_version = configuration_version c, profile_indication = profile_indication c,
      profile_compatibility = profile_compatibility c, level_indication = level_indication c,
      length_size_minus_one = marked 2 (length_size_minus_one c) AND 3, avcc_sps = avcc_sps c,
      avcc_pps = avcc_pps c, extended_config = x\<rparr>"]
  show ?thesis
    unfolding avcc_parse_def avcc_bytes_def append_Cons append_Nil
    by (intro cur.decodes_all_Cons [OF cur.sdec_bo(1) [OF bo]], unfold n)
      (rule cur.decodes_all_bnd [OF sps], intro cur.decodes_all_Cons [OF cur.sdec_bo(1) [OF bo]],
       unfold ls, rule cur.decodes_all_bnd [OF pps], simp)
qed

subsection \<open>build emits them\<close>

text \<open>
  An operation that is called on a byte boundary and ends on one: aligning it adds nothing
  that depends on what was written before.
\<close>

definition emits_bytes :: "('w \<Rightarrow> u8 list \<Rightarrow> 'w) \<Rightarrow> ('w \<Rightarrow> bool) \<Rightarrow> ('w bit_writer, unit) io \<Rightarrow> u8 list \<Rightarrow> bool"
  where "emits_bytes app ok m bs \<longleftrightarrow> (\<forall>b. writer_ok ok b \<longrightarrow> w_bit_pos b = 0 \<longrightarrow>
    m b = (Inr (), put_bits app b (byte_bits bs)) \<and> writer_ok ok (put_bits app b (byte_bits bs)))"

lemma w_bit_pos_bytes: "w_bit_pos b = 0 \<Longrightarrow> w_bit_pos (put_bits app b (byte_bits bs)) = 0"
  by (simp add: w_bit_pos_put_bits)

lemma emits_bytesI: "emits app ok m (byte_bits bs) \<Longrightarrow> emits_bytes app ok m bs"
  by (simp add: emits_def emits_bytes_def)

lemma emits_bytes_bnd:
  "emits_bytes app ok m as \<Longrightarrow> emits_bytes app ok (f ()) bs \<Longrightarrow> emits_bytes app ok (bnd m f) (as @ bs)"
  by (simp add: emits_bytes_def w_bit_pos_bytes)

lemma emits_bytes_Cons:
  "emits_bytes app ok m [b] \<Longrightarrow> emits_bytes app ok (f ()) bs \<Longrightarrow> emits_bytes app ok (bnd m f) (b # bs)"
  using emits_bytes_bnd [of app ok m "[b]" f bs] by simp

lemma emits_bytes_ret: "emits_bytes app ok (ret ()) []"
  by (simp add: emits_bytes_def run_simps)

lemma emits_bytes_each:
  "(\<And>x. x \<in> set xs \<Longrightarrow> emits_bytes app ok (f x) (enc x)) \<Longrightarrow>
     emits_bytes app ok (each_io f xs) (concat (map enc xs))"
  by (induction xs) (auto simp: emits_bytes_ret intro!: emits_bytes_bnd)

context byte_sink
begin

lemma emits_bo:
  assumes "byteorder_writes (bit_writer_write wr) bw"
  shows "emits_bytes app ok (bw_u8 bw b) [b]"
    and "emits_bytes app ok (bw_u16 bw w) (pack_bits (bits_of 16 w))"
  using assms emits_write_all [of "[b]"] emits_write_all [of "pack_bits (bits_of 16 w)"]
  by (simp_all add: byteorder_writes_def be_bytes_def emits_bytesI)

text \<open>A byte written as its reserved bits and a field.\<close>

lemma emits_marked:
  assumes "n \<le> 8" and "unat x < 2 ^ n" and "unat r < 2 ^ (8 - n)"
    and "bits_of (8 - n) r = replicate (8 - n) True"
    and "emits_bytes app ok (f ()) bs"
  shows "emits_bytes app ok (bnd (write_bits wr r (8 - n)) (\<lambda>_. bnd (write_bits wr (ucast x) n) f))
    (marked n x # bs)"
proof -
  have "emits app ok (bnd (write_bits wr r (8 - n)) (\<lambda>_. bnd (write_bits wr (ucast x) n) ret))
      (bits_of (8 - n) r @ bits_of n x @ [])"
    using assms(1-3) by (intro emits_bnd emits_write_bits emits_write_field emits_ret) simp_all
  then have "emits_bytes app ok (bnd (write_bits wr r (8 - n)) (\<lambda>_. bnd (write_bits wr (ucast x) n) ret)) [marked n x]"
    using assms(1,4) by (intro emits_bytesI) (simp add: bits_of_marked)
  from emits_bytes_Cons [where f = f, OF this assms(5)] show ?thesis by (simp add: bnd_assoc)
qed

lemma ones: "bits_of 6 (63 :: u64) = replicate 6 True" "bits_of 5 (31 :: u64) = replicate 5 True"
    "bits_of 3 (7 :: u64) = replicate 3 True"
  by code_simp+

lemma emits_marked_num:
  "unat x < 4 \<Longrightarrow> emits_bytes app ok (f ()) bs \<Longrightarrow>
     emits_bytes app ok (bnd (write_bits wr 63 6) (\<lambda>_. bnd (write_bits wr (ucast x) 2) f)) (marked 2 x # bs)"
  "unat x < 8 \<Longrightarrow> emits_bytes app ok (f ()) bs \<Longrightarrow>
     emits_bytes app ok (bnd (write_bits wr 31 5) (\<lambda>_. bnd (write_bits wr (ucast x) 3) f)) (marked 3 x # bs)"
  "unat x < 32 \<Longrightarrow> emits_bytes app ok (f ()) bs \<Longrightarrow>
     emits_bytes app ok (bnd (write_bits wr 7 3) (\<lambda>_. bnd (write_bits wr (ucast x) 5) f)) (marked 5 x # bs)"
  using emits_marked [of 2 x 63 f bs] emits_marked [of 3 x 31 f bs] emits_marked [of 5 x 7 f bs] ones
  by simp_all

lemma ucast_len: "n < 256 \<Longrightarrow> (of_nat n :: u64) = ucast (of_nat n :: u8)"
  by (rule word_unat_eq_iff [THEN iffD2]) (simp add: unat_ucast_up unat_of_nat)

lemma emits_count:
  assumes "n < 256" and "emits_bytes app ok (f ()) bs"
  shows "emits_bytes app ok (bnd (write_bits wr (of_nat n) 8) f) (of_nat n # bs)"
proof -
  have "emits app ok (write_bits wr (of_nat n) 8) (bits_of 8 (of_nat n :: u8))"
    unfolding ucast_len [OF assms(1)] by (rule emits_write_field) simp_all
  then have "emits_bytes app ok (write_bits wr (of_nat n) 8) [of_nat n]"
    by (intro emits_bytesI) simp
  from emits_bytes_Cons [where f = f, OF this assms(2)] show ?thesis .
qed

lemma emits_avcc_set:
  assumes "byteorder_writes (bit_writer_write wr) bw"
  shows "emits_bytes app ok (avcc_set_write wr bw bs) (avcc_set_bytes bs)"
  unfolding avcc_set_write_def avcc_set_bytes_def
  by (intro emits_bytes_bnd emits_bo [OF assms] emits_bytesI emits_write_all)

lemma emits_aligned:
  assumes "emits app ok m bs"
  shows "emits_bytes app ok (bnd m (\<lambda>_. align_writer wr)) (pack_bits bs)"
  unfolding emits_bytes_def
proof (intro allI impI)
  fix b
  assume b: "writer_ok ok b" "w_bit_pos b = 0"
  note m = emitsD [OF assms b(1)]
  have "pad_len (w_bit_pos (put_bits app b bs)) = pad_len (length bs)"
    using b(2) by (simp add: w_bit_pos_put_bits pad_len_def)
  with m emits_align [OF m(2)]
  have run: "bnd m (\<lambda>_. align_writer wr) b = (Inr (), put_bits app b (byte_bits (pack_bits bs)))"
    by (simp add: byte_bits_pack)
  have "emits app ok (write_all (bit_writer_write wr) (pack_bits bs)) (byte_bits (pack_bits bs))"
    by (rule emits_write_all)
  from emitsD(2) [OF this b(1)] run
  show "bnd m (\<lambda>_. align_writer wr) b = (Inr (), put_bits app b (byte_bits (pack_bits bs))) \<and>
      writer_ok ok (put_bits app b (byte_bits (pack_bits bs)))"
    by simp
qed

lemma emits_avcc_ext_set:
  assumes "byteorder_writes (bit_writer_write wr) bw" and "sps_ext_ok e"
  shows "emits_bytes app ok (avcc_ext_set_write wr bw e) (avcc_set_bytes (sps_ext_bytes e))"
proof -
  have "sps_ext_bytesize e = Inr (length (sps_ext_bytes e))"
    using assms(2) by (simp add: sps_ext_bytesize_def sps_ext_bitsize_eq sps_ext_bytes_def div_ceil_def
        length_pack_bits_div)
  then show ?thesis
    unfolding avcc_ext_set_write_def avcc_set_bytes_def
    by (simp, intro emits_bytes_bnd emits_bo(2) [OF assms(1)])
      (simp add: sps_ext_bytes_def emits_aligned [OF emits_sps_ext [OF assms(2)]])
qed

lemma emits_avcc_extended:
  assumes bw: "byteorder_writes (bit_writer_write wr) bw" and ok': "avcc_extended_ok e"
  shows "emits_bytes app ok (avcc_extended_write wr bw e) (avcc_extended_bytes e)"
proof -
  have "emits_bytes app ok (each_io (avcc_ext_set_write wr bw) (sequence_parameter_set_ext e))
      (concat (map (\<lambda>e. avcc_set_bytes (sps_ext_bytes e)) (sequence_parameter_set_ext e)))"
    using ok' by (intro emits_bytes_each emits_avcc_ext_set [OF bw])
      (simp add: avcc_extended_ok_def list_all_iff)
  with ok' show ?thesis
    unfolding avcc_extended_write_def avcc_extended_bytes_def append_Cons append_Nil
    by (intro emits_marked_num emits_count) (simp_all add: avcc_extended_ok_def)
qed

lemma emits_avcc:
  assumes bw: "byteorder_writes (bit_writer_write wr) bw" and ok': "avcc_ok c"
  shows "emits_bytes app ok (avcc_write wr bw c) (avcc_bytes c)"
proof -
  have sets: "emits_bytes app ok (each_io (avcc_set_write wr bw) xs) (concat (map avcc_set_bytes xs))" for xs
    by (intro emits_bytes_each emits_avcc_set [OF bw])
  have tail: "emits_bytes app ok (opt_io (avcc_extended_write wr bw) (extended_config c))
      (case extended_config c of None \<Rightarrow> [] | Some config \<Rightarrow> avcc_extended_bytes config)"
    using ok' emits_avcc_extended [OF bw]
    by (cases "extended_config c") (simp_all add: avcc_ok_def emits_bytes_ret)
  have n: "length (avcc_sps c) < 32" "length (avcc_sps c) < 256" "length (avcc_pps c) < 256"
      "unat (length_size_minus_one c) < 4"
    using ok' by (simp_all add: avcc_ok_def)
  have "unat (of_nat (length (avcc_sps c)) :: u8) < 32" using n(1) by (simp add: unat_of_nat)
  with n(4) show ?thesis
    unfolding avcc_write_def avcc_bytes_def append_Cons append_Nil ucast_len [OF n(2)]
    by (intro emits_bytes_Cons [OF emits_bo(1) [OF bw]] emits_marked_num emits_bytes_bnd [OF sets]
        emits_count n(3) tail)
qed

lemma avcc_build_run:
  assumes "byteorder_writes (bit_writer_write wr) bw" and "avcc_ok c" and "ok w"
  shows "avcc_build wr bw c w = (Inr (), app w (avcc_bytes c))"
proof -
  let ?b = "put_bits app (bit_writer_new w) (byte_bits (avcc_bytes c))"
  have "writer_ok ok (bit_writer_new w)" "w_bit_pos (bit_writer_new w) = 0"
    using assms(3) by (simp_all add: bit_writer_new_def writer_ok_def)
  with emits_avcc [OF assms(1,2)] have m: "avcc_write wr bw c (bit_writer_new w) = (Inr (), ?b)" "writer_ok ok ?b"
    unfolding emits_bytes_def by blast+
  from finish_put_bits [OF assms(3) m(2)] obtain b
    where "finish wr ?b = (Inr (app w (pack_bits (byte_bits (avcc_bytes c)))), b)"
      "writer b = app w (pack_bits (byte_bits (avcc_bytes c)))" by blast
  moreover have "pack_bits (byte_bits (avcc_bytes c)) = avcc_bytes c"
    using pack_bits_byte_bits [of "avcc_bytes c" "[]"] by simp
  ultimately show ?thesis
    using m(1) by (simp add: avcc_build_def with_bit_writer_def run_simps)
qed

end

lemma sum_len: "length (concat (map avcc_set_bytes xs)) = sum_list (map (\<lambda>s. 2 + length s) xs)"
  by (induction xs) (simp_all add: avcc_set_bytes_def length_pack_whole)

lemma sps_ext_bytesize_eq: "sps_ext_ok e \<Longrightarrow> sps_ext_bytesize e = Inr (length (sps_ext_bytes e))"
  by (simp add: sps_ext_bytesize_def sps_ext_bitsize_eq sps_ext_bytes_def div_ceil_def length_pack_bits_div)

lemma sum_ext_sizes:
  "list_all sps_ext_ok es \<Longrightarrow> sum_res (map (\<lambda>e. rbind (sps_ext_bytesize e) (\<lambda>n. Inr (2 + n))) es) =
     Inr (length (concat (map (\<lambda>e. avcc_set_bytes (sps_ext_bytes e)) es)))"
  by (induction es) (simp_all add: sps_ext_bytesize_eq avcc_set_bytes_def length_pack_whole)

lemma avcc_size_eq:
  assumes "avcc_ok c"
  shows "avcc_size c = Inr (length (avcc_bytes c))"
proof (cases "extended_config c")
  case None
  then show ?thesis by (simp add: avcc_size_def avcc_bytes_def sum_len)
next
  case (Some e)
  then have "list_all sps_ext_ok (sequence_parameter_set_ext e)"
    using assms by (simp add: avcc_ok_def avcc_extended_ok_def list_all_iff)
  note sizes = sum_ext_sizes [OF this]
  show ?thesis
    unfolding avcc_size_def Some option.case sizes
    by (simp add: avcc_bytes_def sum_len avcc_extended_bytes_def Some)
qed

subsection \<open>The properties of the code\<close>

text \<open>
  C8. A decoder configuration record whose parameter sets and counts fit their length fields
  is built into exactly \<open>size\<close> bytes, and \<open>parse\<close> of those bytes returns it and consumes
  them all, with or without the high-profile part and its parameter set extensions.
\<close>

theorem avcc_roundtrip:
  assumes "byteorder_writes (bit_writer_write vec_write) bw" and "byteorder_reads cursor_read bo"
    and "\<And>c. has_remaining c \<longleftrightarrow> cursor_rest c \<noteq> []" and "avcc_ok c"
  shows "\<exists>v s. avcc_build vec_write bw c [] = (Inr (), v) \<and> avcc_size c = Inr (length v) \<and>
    avcc_parse bo has_remaining (cursor_new v) = (Inr c, s) \<and> cursor_rest s = []"
  using vec.avcc_build_run [OF assms(1,4), of "[]"] avcc_size_eq [OF assms(4)]
    decodes_avcc [OF assms(2,4,3)]
  by (simp add: cur.decodes_all_def)

text \<open>
  The lengths are cast to 16 bits, not checked: a record with a parameter set of 65536
  bytes or more builds without an error, but its length field holds the length modulo 2^16.
\<close>

theorem avcc_length_truncated:
  assumes "byteorder_writes (bit_writer_write vec_write) bw" and "writer_ok (\<lambda>_. True) b" and "w_bit_pos b = 0"
  shows "avcc_set_write vec_write bw bs b =
    (Inr (), put_bits (@) b (bits_of 16 (of_nat (length bs mod 65536) :: u16) @ byte_bits bs))"
proof -
  have "(of_nat (length bs mod 65536) :: u16) = of_nat (length bs)"
    by (rule word_unat_eq_iff [THEN iffD2]) (simp add: unat_of_nat)
  with vec.emits_avcc_set [OF assms(1), of bs] assms(2,3) show ?thesis
    by (simp add: emits_bytes_def avcc_set_bytes_def byte_bits_pack_whole)
qed

definition avcc_sample :: avc_decoder_configuration_record where
  "avcc_sample = \<lparr>configuration_version = 1, profile_indication = 100, profile_compatibility = 0,
     level_indication = 31, length_size_minus_one = 3, avcc_sps = [[103, 100, 0], [104]],
     avcc_pps = [[104, 235, 224]],
     extended_config = Some \<lparr>ec_chroma_format_idc = 1, ec_bit_depth_luma_minus8 = 2,
       ec_bit_depth_chroma_minus8 = 2, sequence_parameter_set_ext = [sps_extended_default]\<rparr>\<rparr>"

lemma avcc_sample_ok: "avcc_ok avcc_sample"
proof -
  have "length (sps_ext_bits sps_extended_default) = 7" by code_simp
  then have "length (sps_ext_bytes sps_extended_default) < 65536"
    by (simp add: sps_ext_bytes_def length_pack_bits_div)
  moreover have "sps_ext_ok sps_extended_default" by (simp add: sps_ext_ok_def sps_extended_default_def)
  ultimately show ?thesis
    by (simp add: avcc_ok_def avcc_sample_def avcc_extended_ok_def)
qed

theorem avcc_roundtrip_witness:
  "\<exists>v s. avcc_build vec_write (be_writes (bit_writer_write vec_write)) avcc_sample [] = (Inr (), v) \<and>
    avcc_size avcc_sample = Inr (length v) \<and>
    avcc_parse (be_reads cursor_read) (\<lambda>c. 0 < remaining c) (cursor_new v) = (Inr avcc_sample, s) \<and>
    cursor_rest s = []"
proof (rule avcc_roundtrip [OF byteorder_writes_be_writes byteorder_reads_be_reads _ avcc_sample_ok])
  fix c
  show "0 < remaining c \<longleftrightarrow> cursor_rest c \<noteq> []"
    by (simp flip: length_cursor_rest)
qed

theorem avcc_length_truncated_witness:
  "avcc_set_write vec_write (be_writes (bit_writer_write vec_write)) (replicate 65537 0) (bit_writer_new []) =
    (Inr (), put_bits (@) (bit_writer_new []) (bits_of 16 (1 :: u16) @ byte_bits (replicate 65537 0)))"
proof -
  have len: "(of_nat (length (replicate 65537 0 :: u8 list) mod 65536) :: u16) = 1"
    unfolding length_replicate by simp
  have "writer_ok (\<lambda>_. True) (bit_writer_new ([] :: u8 list))" "w_bit_pos (bit_writer_new ([] :: u8 list)) = 0"
    by (simp_all add: bit_writer_new_def writer_ok_def)
  from avcc_length_truncated [OF byteorder_writes_be_writes this, of "replicate 65537 0"]
  show ?thesis unfolding len .
qed

end
