(* ===== verification/H265_Nal.thy ===== *)
theory H265_Nal
  imports Coding
begin

text \<open>
  \<open>crates/h265/src\<close>: the NAL unit types, the NAL unit header and the trailing bits of a
  payload. \<open>NALUnitType\<close> is an open enum over its byte; the names below are its constants
  that the code uses.
\<close>

subsection \<open>NALUnitType\<close>

type_synonym h265_nal_type = u8

definition TsaN :: h265_nal_type where [simp]: "TsaN = 2"
definition TsaR :: h265_nal_type where [simp]: "TsaR = 3"
definition StsaN :: h265_nal_type where [simp]: "StsaN = 4"
definition StsaR :: h265_nal_type where [simp]: "StsaR = 5"
definition BlaWLp :: h265_nal_type where [simp]: "BlaWLp = 16"
definition RsvIrapVcl23 :: h265_nal_type where [simp]: "RsvIrapVcl23 = 23"
definition VpsNut :: h265_nal_type where [simp]: "VpsNut = 32"
definition SpsNut :: h265_nal_type where [simp]: "SpsNut = 33"
definition PpsNut :: h265_nal_type where [simp]: "PpsNut = 34"
definition EosNut :: h265_nal_type where [simp]: "EosNut = 36"
definition EobNut :: h265_nal_type where [simp]: "EobNut = 37"
definition PrefixSeiNut :: h265_nal_type where [simp]: "PrefixSeiNut = 39"
definition SuffixSeiNut :: h265_nal_type where [simp]: "SuffixSeiNut = 40"

definition is_vcl :: "h265_nal_type \<Rightarrow> bool" where
  "is_vcl t \<longleftrightarrow> 0 \<le> t \<and> t \<le> 31"

subsection \<open>NALUnitHeader\<close>

record nal_unit_header =
  h265_nal_unit_type :: h265_nal_type
  nuh_layer_id :: u8
  nuh_temporal_id_plus1 :: u8

text \<open>The unit types whose temporal id must be zero, and those whose must not.\<close>

definition nal_temporal_id_zero :: "h265_nal_type \<Rightarrow> bool" where
  "nal_temporal_id_zero t \<longleftrightarrow> BlaWLp \<le> t \<and> t \<le> RsvIrapVcl23 \<or> t = VpsNut \<or> t = SpsNut \<or> t = EosNut \<or> t = EobNut"

definition nal_header_read :: "'s read_fn \<Rightarrow> ('s bit_reader, nal_unit_header) io" where
  "nal_header_read rd =
     bnd (read_bit rd) (\<lambda>forbidden_zero_bit.
     bnd (guard (\<not> forbidden_zero_bit) (IoErr InvalidData ''forbidden_zero_bit is not zero'')) (\<lambda>_.
     bnd (read_bits rd 6) (\<lambda>t. let t = ucast t in
     bnd (read_bits rd 6) (\<lambda>layer. let layer = ucast layer in
     bnd (range_check layer 0 63 ''nuh_layer_id'') (\<lambda>_.
     bnd (guard (\<not> (t = EobNut \<and> layer \<noteq> 0))
       (IoErr InvalidData ''nuh_layer_id must be 0 when nal_unit_type is EOB_NUT'')) (\<lambda>_.
     bnd (read_bits rd 3) (\<lambda>tid. let tid = ucast tid in
     bnd (guard (tid \<noteq> 0) (IoErr InvalidData ''nuh_temporal_id_plus1 cannot be 0'')) (\<lambda>_.
     bnd (guard (\<not> (nal_temporal_id_zero t \<and> tid \<noteq> 1))
       (IoErr InvalidData ''nuh_temporal_id_plus1 must be 1 (TemporalId = 0) for nal_unit_type'')) (\<lambda>_.
     bnd (guard (\<not> ((t = TsaR \<or> t = TsaN) \<and> tid = 1))
       (IoErr InvalidData ''nuh_temporal_id_plus1 must not be 1 (TemporalId != 0) for nal_unit_type'')) (\<lambda>_.
     bnd (guard (\<not> (layer = 0 \<and> (t = StsaR \<or> t = StsaN) \<and> tid = 1))
       (IoErr InvalidData ''nuh_temporal_id_plus1 must not be 1 (TemporalId != 0) for nuh_layer_id 0'')) (\<lambda>_.
     ret \<lparr>h265_nal_unit_type = t, nuh_layer_id = layer, nuh_temporal_id_plus1 = tid\<rparr>)))))))))))"

definition nal_header_parse :: "'s read_fn \<Rightarrow> ('s, nal_unit_header) io" where
  "nal_header_parse rd = with_bit_reader (nal_header_read rd)"

definition temporal_id :: "nal_unit_header \<Rightarrow> u8" where
  "temporal_id h = nuh_temporal_id_plus1 h - 1"

definition rbsp_trailing_bits :: "'s read_fn \<Rightarrow> ('s bit_reader, unit) io" where
  "rbsp_trailing_bits rd =
     bnd (read_bit rd) (\<lambda>stop.
     bnd (guard stop (IoErr InvalidData ''rbsp_stop_one_bit must be 1'')) (\<lambda>_.
     align_reader))"

subsection \<open>The header of the standard\<close>

definition nal_header_bits :: "nal_unit_header \<Rightarrow> bool list" where
  "nal_header_bits h = False # bits_of 6 (h265_nal_unit_type h) @ bits_of 6 (nuh_layer_id h) @
     bits_of 3 (nuh_temporal_id_plus1 h)"

definition nal_header_bytes :: "nal_unit_header \<Rightarrow> u8 list" where
  "nal_header_bytes h = pack_bits (nal_header_bits h)"

text \<open>The constraints of the standard (7.4.2.2) on a header.\<close>

definition nal_header_ok :: "nal_unit_header \<Rightarrow> bool" where
  "nal_header_ok h \<longleftrightarrow>
     (let t = h265_nal_unit_type h; layer = nuh_layer_id h; tid = nuh_temporal_id_plus1 h in
      unat t < 64 \<and> unat layer < 64 \<and> 0 < unat tid \<and> unat tid < 8 \<and>
      (t = EobNut \<longrightarrow> layer = 0) \<and> (nal_temporal_id_zero t \<longrightarrow> tid = 1) \<and>
      (t \<in> {TsaN, TsaR} \<longrightarrow> tid \<noteq> 1) \<and> (layer = 0 \<and> t \<in> {StsaN, StsaR} \<longrightarrow> tid \<noteq> 1))"

lemma length_nal_header [simp]: "length (nal_header_bits h) = 16"
  by (simp add: nal_header_bits_def)

context byte_source
begin

lemma dec_nal_header: "nal_header_ok h \<Longrightarrow> dec (nal_header_read rd) (nal_header_bits h) h"
  unfolding nal_header_read_def nal_header_bits_def nal_header_ok_def Let_def
  by (cases h) (auto simp: word_le_nat_alt intro!: coding)

lemma nal_header_parse_run:
  assumes "nal_header_ok h" and "ok s" and "unread s = nal_header_bytes h @ rest"
  shows "\<exists>s'. nal_header_parse rd s = (Inr h, s') \<and> unread s' = rest \<and> ok s'"
  using with_bit_reader_whole [OF dec_nal_header [OF assms(1)] assms(2) _ assms(3) [unfolded nal_header_bytes_def]]
  by (auto simp: nal_header_parse_def with_bit_reader_def)

end

lemma yields_nal_header: "yields (nal_header_read rd) nal_header_ok"
proof -
  have "unat (ucast v :: u8) < 64" if "unat v < 2 ^ 6" for v :: u64 using unat_ucast_less [of v 64] that by simp
  moreover have "unat (ucast v :: u8) < 8" if "unat v < 2 ^ 3" for v :: u64 using unat_ucast_less [of v 8] that by simp
  ultimately show ?thesis
    unfolding nal_header_read_def Let_def
    by (intro yielding) (auto simp: nal_header_ok_def unat_gt_0)
qed

text \<open>
  The parser of NAL unit headers takes exactly the headers the standard allows: it
  reads every one of them from its two bytes, leaving the reader at what follows, and
  whatever the input, a header it returns satisfies the constraints on layer and temporal id.
\<close>

theorem nal_header_parse_spec:
  "(nal_header_ok h \<longrightarrow> (\<exists>s. nal_header_parse cursor_read (cursor_new (nal_header_bytes h @ rest)) = (Inr h, s) \<and>
     cursor_rest s = rest)) \<and>
   (nal_header_parse cursor_read c = (Inr h, c') \<longrightarrow> nal_header_ok h)"
proof (intro conjI impI)
  assume "nal_header_ok h"
  from cur.nal_header_parse_run [OF this] show
    "\<exists>s. nal_header_parse cursor_read (cursor_new (nal_header_bytes h @ rest)) = (Inr h, s) \<and> cursor_rest s = rest"
    by simp
next
  assume "nal_header_parse cursor_read c = (Inr h, c')"
  then show "nal_header_ok h"
    using yieldsD [OF yields_nal_header]
    by (fastforce simp: nal_header_parse_def with_bit_reader_def split: prod.splits)
qed

definition nal_header_sample :: nal_unit_header where
  "nal_header_sample = \<lparr>h265_nal_unit_type = 33, nuh_layer_id = 0, nuh_temporal_id_plus1 = 1\<rparr>"

lemma nal_header_sample_ok: "nal_header_ok nal_header_sample"
  by (simp add: nal_header_ok_def nal_header_sample_def nal_temporal_id_zero_def)

theorem nal_header_parse_spec_witness:
  "(\<exists>s. nal_header_parse cursor_read (cursor_new (nal_header_bytes nal_header_sample @ [1])) = (Inr nal_header_sample, s) \<and>
     cursor_rest s = [1]) \<and>
   nal_header_ok nal_header_sample"
proof -
  have "\<exists>s. nal_header_parse cursor_read (cursor_new (nal_header_bytes nal_header_sample @ [1])) = (Inr nal_header_sample, s) \<and>
     cursor_rest s = [1]"
    using nal_header_parse_spec [of nal_header_sample "[1]"] nal_header_sample_ok by blast
  moreover from this have "nal_header_ok nal_header_sample"
    using nal_header_parse_spec [of nal_header_sample "[1]" "cursor_new (nal_header_bytes nal_header_sample @ [1])"] by blast
  ultimately show ?thesis by blast
qed

end
