(* ===== verification/H265_Config.thy ===== *)
theory H265_Config
  imports H265_Nal
begin

text \<open>
  \<open>crates/h265/src/config.rs\<close>: the HEVC decoder configuration record (\<open>hvcC\<close>), demuxed and
  muxed bit by bit. The enums of the record are open enums over a byte, the compatibility
  flags a \<open>bitflags\<close> over 32 bits; \<open>byteorder\<close> is a parameter.
\<close>

subsection \<open>The record\<close>

record nalu_array =
  array_completeness :: bool
  array_nal_unit_type :: h265_nal_type
  nalus :: "u8 list list"

record hevc_decoder_configuration_record =
  general_profile_space :: u8
  general_tier_flag :: bool
  general_profile_idc :: u8
  general_profile_compatibility_flags :: u32
  general_constraint_indicator_flags :: u64
  general_level_idc :: u8
  min_spatial_segmentation_idc :: u16
  parallelism_type :: u8
  chroma_format_idc :: u8
  bit_depth_luma_minus8 :: u8
  bit_depth_chroma_minus8 :: u8
  avg_frame_rate :: u16
  constant_frame_rate :: u8
  num_temporal_layers :: u8
  temporal_id_nested :: bool
  length_size_minus_one :: u8
  nalu_arrays :: "nalu_array list"

subsection \<open>demux\<close>

definition nalu_demux :: "'s read_fn \<Rightarrow> 's bit_reader byteorder \<Rightarrow> ('s bit_reader, u8 list) io" where
  "nalu_demux rd bo =
     bnd (bo_u16 bo) (\<lambda>nal_unit_length. read_exact (bit_reader_read rd) (unat nal_unit_length))"

definition nalu_array_demux :: "'s read_fn \<Rightarrow> 's bit_reader byteorder \<Rightarrow> ('s bit_reader, nalu_array) io" where
  "nalu_array_demux rd bo =
     bnd (read_bit rd) (\<lambda>array_completeness.
     bnd (read_bits rd 1) (\<lambda>_.
     bnd (read_bits rd 6) (\<lambda>t. let t = ucast t in
     bnd (guard (\<not> (t \<noteq> VpsNut \<and> t \<noteq> SpsNut \<and> t \<noteq> PpsNut \<and> t \<noteq> PrefixSeiNut \<and> t \<noteq> SuffixSeiNut))
       (IoErr InvalidData ''invalid nal_unit_type'')) (\<lambda>_.
     bnd (bo_u16 bo) (\<lambda>num_nalus.
     bnd (times_io (unat num_nalus) (nalu_demux rd bo)) (\<lambda>nalus.
     ret \<lparr>array_completeness = array_completeness, array_nal_unit_type = t, nalus = nalus\<rparr>))))))"

definition hevc_config_read :: "'s read_fn \<Rightarrow> 's bit_reader byteorder \<Rightarrow>
    ('s bit_reader, hevc_decoder_configuration_record) io" where
  "hevc_config_read rd bo =
     bnd (bo_u8 bo) (\<lambda>configuration_version.
     bnd (guard (configuration_version = 1) (IoErr InvalidData ''invalid configuration version'')) (\<lambda>_.
     bnd (read_bits rd 2) (\<lambda>general_profile_space.
     bnd (read_bit rd) (\<lambda>general_tier_flag.
     bnd (read_bits rd 5) (\<lambda>general_profile_idc.
     bnd (bo_u32 bo) (\<lambda>compatibility.
     bnd (bo_u48 bo) (\<lambda>constraints.
     bnd (bo_u8 bo) (\<lambda>general_level_idc.
     bnd (read_bits rd 4) (\<lambda>_.
     bnd (read_bits rd 12) (\<lambda>segmentation.
     bnd (read_bits rd 6) (\<lambda>_.
     bnd (read_bits rd 2) (\<lambda>parallelism.
     bnd (read_bits rd 6) (\<lambda>_.
     bnd (read_bits rd 2) (\<lambda>chroma_format.
     bnd (read_bits rd 5) (\<lambda>_.
     bnd (read_bits rd 3) (\<lambda>luma.
     bnd (read_bits rd 5) (\<lambda>_.
     bnd (read_bits rd 3) (\<lambda>chroma.
     bnd (bo_u16 bo) (\<lambda>avg_frame_rate.
     bnd (read_bits rd 2) (\<lambda>constant_rate.
     bnd (read_bits rd 3) (\<lambda>layers.
     bnd (read_bit rd) (\<lambda>nested.
     bnd (read_bits rd 2) (\<lambda>length_size. let length_size = ucast length_size in
     bnd (guard (length_size \<noteq> 2) (IoErr InvalidData ''length_size_minus_one must be 0, 1, or 3'')) (\<lambda>_.
     bnd (bo_u8 bo) (\<lambda>num_of_arrays.
     bnd (times_io (unat num_of_arrays) (nalu_array_demux rd bo)) (\<lambda>arrays.
     ret \<lparr>general_profile_space = ucast general_profile_space, general_tier_flag = general_tier_flag,
       general_profile_idc = ucast general_profile_idc, general_profile_compatibility_flags = compatibility,
       general_constraint_indicator_flags = constraints, general_level_idc = general_level_idc,
       min_spatial_segmentation_idc = ucast segmentation, parallelism_type = ucast parallelism,
       chroma_format_idc = ucast chroma_format, bit_depth_luma_minus8 = ucast luma,
       bit_depth_chroma_minus8 = ucast chroma, avg_frame_rate = avg_frame_rate,
       constant_frame_rate = ucast constant_rate, num_temporal_layers = ucast layers,
       temporal_id_nested = nested, length_size_minus_one = length_size, nalu_arrays = arrays\<rparr>))))))))))))))))))))))))))"

definition hevc_config_demux :: "'s read_fn \<Rightarrow> 's bit_reader byteorder \<Rightarrow> ('s, hevc_decoder_configuration_record) io" where
  "hevc_config_demux rd bo = with_bit_reader (hevc_config_read rd bo)"

subsection \<open>size and mux\<close>

definition hevc_config_size :: "hevc_decoder_configuration_record \<Rightarrow> nat" where
  "hevc_config_size c = 1 + 1 + 4 + 6 + 1 + 2 + 1 + 1 + 1 + 1 + 2 + 1 + 1 +
     sum_list (map (\<lambda>array. 1 + 2 + sum_list (map (\<lambda>nalu. 2 + length nalu) (nalus array))) (nalu_arrays c))"

text \<open>The counts and lengths are cast: \<open>len() as u8\<close>, \<open>len() as u16\<close>.\<close>

definition nalu_mux :: "'w write_fn \<Rightarrow> 'w bit_writer byteorder_w \<Rightarrow> u8 list \<Rightarrow> ('w bit_writer, unit) io" where
  "nalu_mux wr bw nalu =
     bnd (bw_u16 bw (of_nat (length nalu))) (\<lambda>_. write_all (bit_writer_write wr) nalu)"

definition nalu_array_mux :: "'w write_fn \<Rightarrow> 'w bit_writer byteorder_w \<Rightarrow> nalu_array \<Rightarrow> ('w bit_writer, unit) io" where
  "nalu_array_mux wr bw array =
     bnd (write_bit wr (array_completeness array)) (\<lambda>_.
     bnd (write_bits wr 0 1) (\<lambda>_.
     bnd (write_bits wr (ucast (array_nal_unit_type array)) 6) (\<lambda>_.
     bnd (bw_u16 bw (of_nat (length (nalus array)))) (\<lambda>_.
     each_io (nalu_mux wr bw) (nalus array)))))"

definition hevc_config_write :: "'w write_fn \<Rightarrow> 'w bit_writer byteorder_w \<Rightarrow>
    hevc_decoder_configuration_record \<Rightarrow> ('w bit_writer, unit) io" where
  "hevc_config_write wr bw c =
     bnd (bw_u8 bw 1) (\<lambda>_.
     bnd (write_bits wr (ucast (general_profile_space c)) 2) (\<lambda>_.
     bnd (write_bit wr (general_tier_flag c)) (\<lambda>_.
     bnd (write_bits wr (ucast (general_profile_idc c)) 5) (\<lambda>_.
     bnd (bw_u32 bw (general_profile_compatibility_flags c)) (\<lambda>_.
     bnd (bw_u48 bw (general_constraint_indicator_flags c)) (\<lambda>_.
     bnd (bw_u8 bw (general_level_idc c)) (\<lambda>_.
     bnd (write_bits wr 15 4) (\<lambda>_.
     bnd (write_bits wr (ucast (min_spatial_segmentation_idc c)) 12) (\<lambda>_.
     bnd (write_bits wr 63 6) (\<lambda>_.
     bnd (write_bits wr (ucast (parallelism_type c)) 2) (\<lambda>_.
     bnd (write_bits wr 63 6) (\<lambda>_.
     bnd (write_bits wr (ucast (chroma_format_idc c)) 2) (\<lambda>_.
     bnd (write_bits wr 31 5) (\<lambda>_.
     bnd (write_bits wr (ucast (bit_depth_luma_minus8 c)) 3) (\<lambda>_.
     bnd (write_bits wr 31 5) (\<lambda>_.
     bnd (write_bits wr (ucast (bit_depth_chroma_minus8 c)) 3) (\<lambda>_.
     bnd (bw_u16 bw (avg_frame_rate c)) (\<lambda>_.
     bnd (write_bits wr (ucast (constant_frame_rate c)) 2) (\<lambda>_.
     bnd (write_bits wr (ucast (num_temporal_layers c)) 3) (\<lambda>_.
     bnd (write_bit wr (temporal_id_nested c)) (\<lambda>_.
     bnd (write_bits wr (ucast (length_size_minus_one c)) 2) (\<lambda>_.
     bnd (bw_u8 bw (of_nat (length (nalu_arrays c)))) (\<lambda>_.
     each_io (nalu_array_mux wr bw) (nalu_arrays c))))))))))))))))))))))))"

definition hevc_config_mux :: "'w write_fn \<Rightarrow> 'w bit_writer byteorder_w \<Rightarrow>
    hevc_decoder_configuration_record \<Rightarrow> ('w, unit) io" where
  "hevc_config_mux wr bw c = with_bit_writer (bnd (hevc_config_write wr bw c) (\<lambda>_. bnd (finish wr) (\<lambda>_. ret ())))"

subsection \<open>The encoding\<close>

definition nalu_bits :: "u8 list \<Rightarrow> bool list" where
  "nalu_bits nalu = bits_of 16 (of_nat (length nalu) :: u16) @ byte_bits nalu"

definition nalu_array_bits :: "nalu_array \<Rightarrow> bool list" where
  "nalu_array_bits a = array_completeness a # bits_of 1 (0 :: u64) @ bits_of 6 (array_nal_unit_type a) @
     bits_of 16 (of_nat (length (nalus a)) :: u16) @ concat (map nalu_bits (nalus a))"

definition hevc_config_bits :: "hevc_decoder_configuration_record \<Rightarrow> bool list" where
  "hevc_config_bits c = bits_of 8 (1 :: u8) @ bits_of 2 (general_profile_space c) @ general_tier_flag c #
     bits_of 5 (general_profile_idc c) @ bits_of 32 (general_profile_compatibility_flags c) @
     bits_of 48 (general_constraint_indicator_flags c) @ bits_of 8 (general_level_idc c) @
     bits_of 4 (15 :: u64) @ bits_of 12 (min_spatial_segmentation_idc c) @
     bits_of 6 (63 :: u64) @ bits_of 2 (parallelism_type c) @
     bits_of 6 (63 :: u64) @ bits_of 2 (chroma_format_idc c) @
     bits_of 5 (31 :: u64) @ bits_of 3 (bit_depth_luma_minus8 c) @
     bits_of 5 (31 :: u64) @ bits_of 3 (bit_depth_chroma_minus8 c) @
     bits_of 16 (avg_frame_rate c) @ bits_of 2 (constant_frame_rate c) @ bits_of 3 (num_temporal_layers c) @
     temporal_id_nested c # bits_of 2 (length_size_minus_one c) @
     bits_of 8 (of_nat (length (nalu_arrays c)) :: u8) @ concat (map nalu_array_bits (nalu_arrays c))"

definition nalu_array_ok :: "nalu_array \<Rightarrow> bool" where
  "nalu_array_ok a \<longleftrightarrow> array_nal_unit_type a \<in> {VpsNut, SpsNut, PpsNut, PrefixSeiNut, SuffixSeiNut} \<and>
     length (nalus a) < 65536 \<and> list_all (\<lambda>n. length n < 65536) (nalus a)"

definition hevc_config_ok :: "hevc_decoder_configuration_record \<Rightarrow> bool" where
  "hevc_config_ok c \<longleftrightarrow> unat (general_profile_space c) < 4 \<and> unat (general_profile_idc c) < 32 \<and>
     unat (general_constraint_indicator_flags c) < 2 ^ 48 \<and> unat (min_spatial_segmentation_idc c) < 4096 \<and>
     unat (parallelism_type c) < 4 \<and> unat (chroma_format_idc c) < 4 \<and> unat (bit_depth_luma_minus8 c) < 8 \<and>
     unat (bit_depth_chroma_minus8 c) < 8 \<and> unat (constant_frame_rate c) < 4 \<and>
     unat (num_temporal_layers c) < 8 \<and> length_size_minus_one c \<in> {0, 1, 3} \<and>
     length (nalu_arrays c) < 256 \<and> list_all nalu_array_ok (nalu_arrays c)"

lemma unat_length:
  "length xs < 256 \<Longrightarrow> unat (of_nat (length xs) :: u8) = length xs"
  "length xs < 65536 \<Longrightarrow> unat (of_nat (length xs) :: u16) = length xs"
  by (simp_all add: unat_of_nat)

lemma length_nalu_array_bits:
  "length (nalu_array_bits a) = 8 * (3 + sum_list (map (\<lambda>nalu. 2 + length nalu) (nalus a)))"
proof -
  have "length (concat (map nalu_bits ns)) = 8 * sum_list (map (\<lambda>nalu. 2 + length nalu) ns)" for ns
    by (induction ns) (simp_all add: nalu_bits_def)
  then show ?thesis by (simp add: nalu_array_bits_def)
qed

lemma length_hevc_config_bits: "length (hevc_config_bits c) = 8 * hevc_config_size c"
proof -
  have "length (concat (map nalu_array_bits as)) =
      8 * sum_list (map (\<lambda>array. 3 + sum_list (map (\<lambda>nalu. 2 + length nalu) (nalus array))) as)" for as
    by (induction as) (simp_all add: length_nalu_array_bits)
  then show ?thesis by (simp add: hevc_config_bits_def hevc_config_size_def numeral_3_eq_3)
qed

context byte_source
begin

lemma dec_nalu:
  assumes "byteorder_reads (bit_reader_read rd) bo" and "length n < 65536"
  shows "dec (nalu_demux rd bo) (nalu_bits n) n"
  unfolding nalu_demux_def nalu_bits_def
  by (rule decodes_bnd [OF dec_bo_u16 [OF assms(1)] dec_read_exact]) (simp add: unat_length assms(2))

lemma dec_nalu_array:
  assumes "byteorder_reads (bit_reader_read rd) bo" and a: "nalu_array_ok a"
  shows "dec (nalu_array_demux rd bo) (nalu_array_bits a) a"
proof -
  have "dec (times_io (length (nalus a)) (nalu_demux rd bo)) (concat (map nalu_bits (nalus a))) (nalus a)"
    using a by (intro decodes_times dec_nalu [OF assms(1)]) (simp add: nalu_array_ok_def list_all_iff)
  note nalus = decodes_last [OF this]
  have n: "unat (of_nat (length (nalus a)) :: u16) = length (nalus a)"
    using a by (simp add: nalu_array_ok_def unat_length)
  from a have t: "array_nal_unit_type a \<in> {32, 33, 34, 39, 40}" by (simp add: nalu_array_ok_def)
  then have "unat (array_nal_unit_type a) < 2 ^ 6" by auto
  then show ?thesis
    unfolding nalu_array_demux_def nalu_array_bits_def Let_def
    using t by (auto simp: n intro!: coding assms(1) nalus)
qed

lemma dec_nalu_arrays:
  assumes "byteorder_reads (bit_reader_read rd) bo" and "list_all nalu_array_ok as"
  shows "dec (times_io (length as) (nalu_array_demux rd bo)) (concat (map nalu_array_bits as)) as"
  using assms by (intro decodes_times dec_nalu_array) (simp_all add: list_all_iff)

lemma dec_hevc_config:
  assumes bo: "byteorder_reads (bit_reader_read rd) bo" and ok': "hevc_config_ok c"
  shows "dec (hevc_config_read rd bo) (hevc_config_bits c) c"
proof -
  have small: "length_size_minus_one c \<noteq> 2" "unat (length_size_minus_one c) < 2 ^ 2"
    using ok' by (auto simp: hevc_config_ok_def)
  from ok' small show ?thesis
    unfolding hevc_config_read_def hevc_config_bits_def Let_def hevc_config_ok_def
    by (cases c) (simp add: unat_length coding bo decodes_last [OF dec_nalu_arrays [OF bo]])
qed

end

context byte_sink
begin

lemma emits_nalu:
  "byteorder_writes (bit_writer_write wr) bw \<Longrightarrow> emits app ok (nalu_mux wr bw n) (nalu_bits n)"
  unfolding nalu_mux_def nalu_bits_def by (rule emits_bnd [OF emits_bw(2) emits_write_all])

lemma emits_nalu_array:
  assumes bw: "byteorder_writes (bit_writer_write wr) bw" and "nalu_array_ok a"
  shows "emits app ok (nalu_array_mux wr bw a) (nalu_array_bits a)"
proof -
  have "array_nal_unit_type a \<in> {32, 33, 34, 39, 40}" using assms(2) by (simp add: nalu_array_ok_def)
  then have "unat (array_nal_unit_type a) < 2 ^ 6" by auto
  then show ?thesis
    unfolding nalu_array_mux_def nalu_array_bits_def
    by (intro emits_bit_step emits_step emits_bnd [OF emits_bw(2) [OF bw]] emits_each emits_nalu [OF bw]) simp_all
qed

lemma emits_hevc_config:
  assumes bw: "byteorder_writes (bit_writer_write wr) bw" and "hevc_config_ok c"
  shows "emits app ok (hevc_config_write wr bw c) (hevc_config_bits c)"
proof -
  have "emits app ok (each_io (nalu_array_mux wr bw) (nalu_arrays c)) (concat (map nalu_array_bits (nalu_arrays c)))"
    using assms by (intro emits_each emits_nalu_array [OF bw]) (simp add: hevc_config_ok_def list_all_iff)
  moreover have "unat (length_size_minus_one c) < 4" using assms(2) by (auto simp: hevc_config_ok_def)
  ultimately show ?thesis
    using assms(2) unfolding hevc_config_write_def hevc_config_bits_def hevc_config_ok_def
    by (simp add: emits_bw_step [OF bw] emits_bit_step emits_step)
qed

end

subsection \<open>The round trip\<close>

lemma hevc_config_mux_run:
  assumes "byteorder_writes (bit_writer_write vec_write) bw" and "hevc_config_ok c"
  shows "hevc_config_mux vec_write bw c v = (Inr (), v @ pack_bits (hevc_config_bits c))"
  unfolding hevc_config_mux_def by (rule vec.with_bit_writer_emits [OF vec.emits_hevc_config [OF assms]]) simp

lemma hevc_config_demux_run:
  assumes "byteorder_reads (bit_reader_read cursor_read) bo" and "hevc_config_ok c"
  shows "\<exists>s. hevc_config_demux cursor_read bo (cursor_new (pack_bits (hevc_config_bits c) @ rest)) = (Inr c, s) \<and>
    cursor_rest s = rest"
  using cur.with_bit_reader_whole [OF cur.dec_hevc_config [OF assms], of "cursor_new (pack_bits (hevc_config_bits c) @ rest)" rest]
  by (auto simp: length_hevc_config_bits hevc_config_demux_def with_bit_reader_def)

text \<open>
  C11. A decoder configuration record whose fields fit their widths is muxed into exactly
  \<open>size\<close> bytes, and demuxing them, whatever follows, returns the record with all its NAL units.
\<close>

theorem hevc_config_roundtrip:
  assumes bw: "byteorder_writes (bit_writer_write vec_write) bw"
    and bo: "byteorder_reads (bit_reader_read cursor_read) bo" and ok: "hevc_config_ok c"
  shows "\<exists>v s. hevc_config_mux vec_write bw c [] = (Inr (), v) \<and> length v = hevc_config_size c \<and>
    hevc_config_demux cursor_read bo (cursor_new (v @ rest)) = (Inr c, s) \<and> cursor_rest s = rest"
proof -
  have "length (pack_bits (hevc_config_bits c)) = hevc_config_size c"
    by (simp add: length_pack_bits_div length_hevc_config_bits)
  with hevc_config_mux_run [OF bw ok, of "[]"] hevc_config_demux_run [OF bo ok, of rest] show ?thesis
    by auto
qed

definition hevc_config_sample :: hevc_decoder_configuration_record where
  "hevc_config_sample = \<lparr>general_profile_space = 0, general_tier_flag = True, general_profile_idc = 1,
     general_profile_compatibility_flags = 0x60000000, general_constraint_indicator_flags = 0x900000000000,
     general_level_idc = 123, min_spatial_segmentation_idc = 0, parallelism_type = 2, chroma_format_idc = 1,
     bit_depth_luma_minus8 = 2, bit_depth_chroma_minus8 = 2, avg_frame_rate = 0, constant_frame_rate = 1,
     num_temporal_layers = 1, temporal_id_nested = True, length_size_minus_one = 3,
     nalu_arrays = [\<lparr>array_completeness = True, array_nal_unit_type = 32, nalus = [[64, 1, 12]]\<rparr>,
       \<lparr>array_completeness = False, array_nal_unit_type = 33, nalus = [[66, 1], []]\<rparr>]\<rparr>"

theorem hevc_config_roundtrip_witness:
  "\<exists>v s. hevc_config_mux vec_write (be_writes (bit_writer_write vec_write)) hevc_config_sample [] = (Inr (), v) \<and>
    length v = hevc_config_size hevc_config_sample \<and>
    hevc_config_demux cursor_read (be_reads (bit_reader_read cursor_read)) (cursor_new (v @ [7])) =
      (Inr hevc_config_sample, s) \<and> cursor_rest s = [7]"
  by (rule hevc_config_roundtrip [OF byteorder_writes_be_writes byteorder_reads_be_reads])
    (simp add: hevc_config_ok_def hevc_config_sample_def nalu_array_ok_def)

end
