(* ===== verification/H265_Extensions.thy ===== *)
theory H265_Extensions
  imports Coding
begin

text \<open>
  The optional parts of an H.265 sequence parameter set that depend on its sample depths and
  block sizes: \<open>crates/h265/src/sps/pcm.rs\<close> and the four \<open>sps_*_extension.rs\<close>. For each its
  \<open>parse\<close>, the syntax (\<open>*_bits\<close>), the values that have one (\<open>*_ok\<close>), and the derived
  quantities its methods compute.
\<close>

subsection \<open>pcm.rs\<close>

record pcm =
  pcm_sample_bit_depth_luma_minus1 :: u8
  pcm_sample_bit_depth_chroma_minus1 :: u8
  log2_min_pcm_luma_coding_block_size_minus3 :: u64
  log2_diff_max_min_pcm_luma_coding_block_size :: u64
  pcm_loop_filter_disabled_flag :: bool

text \<open>A depth of four bits, at most the depth of the samples.\<close>

definition pcm_depth_parse :: "'s read_fn \<Rightarrow> u8 \<Rightarrow> string \<Rightarrow> ('s bit_reader, u8) io" where
  "pcm_depth_parse rd bit_depth what =
     bnd (read_bits rd 4) (\<lambda>v.
     let d = ucast v :: u8 in
     bnd (lift_res (checked_add d 1)) (\<lambda>d1.
     bnd (guard (\<not> d1 > bit_depth) (IoErr InvalidData what)) (\<lambda>_. ret d)))"

definition pcm_parse :: "'s read_fn \<Rightarrow> u8 \<Rightarrow> u8 \<Rightarrow> u64 \<Rightarrow> u64 \<Rightarrow> ('s bit_reader, pcm) io" where
  "pcm_parse rd bit_depth_y bit_depth_c min_cb_log2 ctb_log2 =
     bnd (pcm_depth_parse rd bit_depth_y ''PcmBitDepth_Y must be less than or equal to BitDepth_Y'') (\<lambda>luma.
     bnd (pcm_depth_parse rd bit_depth_c ''PcmBitDepth_C must be less than or equal to BitDepth_C'') (\<lambda>chroma.
     bnd (read_exp_golomb rd) (\<lambda>min_minus3.
     bnd (lift_res (checked_add min_minus3 3)) (\<lambda>log2_min.
     bnd (range_check log2_min (min min_cb_log2 5) (min ctb_log2 5) ''log2_min_ipcm_cb_size_y'') (\<lambda>_.
     bnd (read_exp_golomb rd) (\<lambda>diff.
     bnd (lift_res (checked_add diff log2_min)) (\<lambda>log2_max.
     bnd (guard (\<not> log2_max > min ctb_log2 5)
       (IoErr InvalidData ''Log2MaxIpcmCbSizeY must be less than or equal to Min(CtbLog2SizeY, 5)'')) (\<lambda>_.
     bnd (read_bit rd) (\<lambda>filter_disabled.
     ret \<lparr>pcm_sample_bit_depth_luma_minus1 = luma, pcm_sample_bit_depth_chroma_minus1 = chroma,
          log2_min_pcm_luma_coding_block_size_minus3 = min_minus3,
          log2_diff_max_min_pcm_luma_coding_block_size = diff,
          pcm_loop_filter_disabled_flag = filter_disabled\<rparr>)))))))))"

definition pcm_bit_depth_y :: "pcm \<Rightarrow> err + u8" where
  "pcm_bit_depth_y p = checked_add (pcm_sample_bit_depth_luma_minus1 p) 1"

definition pcm_bit_depth_c :: "pcm \<Rightarrow> err + u8" where
  "pcm_bit_depth_c p = checked_add (pcm_sample_bit_depth_chroma_minus1 p) 1"

definition log2_min_ipcm_cb_size_y :: "pcm \<Rightarrow> err + u64" where
  "log2_min_ipcm_cb_size_y p = checked_add (log2_min_pcm_luma_coding_block_size_minus3 p) 3"

definition log2_max_ipcm_cb_size_y :: "pcm \<Rightarrow> err + u64" where
  "log2_max_ipcm_cb_size_y p = rbind (log2_min_ipcm_cb_size_y p)
     (checked_add (log2_diff_max_min_pcm_luma_coding_block_size p))"

definition pcm_bits :: "pcm \<Rightarrow> bool list" where
  "pcm_bits p = bits_of 4 (pcm_sample_bit_depth_luma_minus1 p) @ bits_of 4 (pcm_sample_bit_depth_chroma_minus1 p) @
     eg_bits (log2_min_pcm_luma_coding_block_size_minus3 p) @
     eg_bits (log2_diff_max_min_pcm_luma_coding_block_size p) @ [pcm_loop_filter_disabled_flag p]"

definition pcm_ok :: "u8 \<Rightarrow> u8 \<Rightarrow> u64 \<Rightarrow> u64 \<Rightarrow> pcm \<Rightarrow> bool" where
  "pcm_ok bit_depth_y bit_depth_c min_cb_log2 ctb_log2 p \<longleftrightarrow>
     (let dy = unat (pcm_sample_bit_depth_luma_minus1 p); dc = unat (pcm_sample_bit_depth_chroma_minus1 p);
          lo = unat (log2_min_pcm_luma_coding_block_size_minus3 p) + 3;
          hi = unat (log2_diff_max_min_pcm_luma_coding_block_size p) + lo in
      dy < 16 \<and> dy + 1 \<le> unat bit_depth_y \<and> dc < 16 \<and> dc + 1 \<le> unat bit_depth_c \<and>
      min (unat min_cb_log2) 5 \<le> lo \<and> hi \<le> min (unat ctb_log2) 5)"

lemma unat_min: "unat (min a b :: 'a::len word) = min (unat a) (unat b)"
  by (simp add: min_def word_le_nat_alt)

lemma yields_pcm_depth: "yields (pcm_depth_parse rd d w) (\<lambda>v. unat v < 16 \<and> unat v + 1 \<le> unat d)"
  unfolding pcm_depth_parse_def Let_def
  by (intro yielding)
    (auto simp: word_less_nat_alt not_less dest!: checked_add_Inr intro: unat_ucast_less)

lemma yields_pcm: "yields (pcm_parse rd by bc cb ctb) (pcm_ok by bc cb ctb)"
  unfolding pcm_parse_def
  by (intro yields_bnd [OF yields_pcm_depth] yielding)
    (auto simp: pcm_ok_def Let_def word_less_nat_alt word_le_nat_alt not_less unat_min dest!: checked_add_Inr)

text \<open>On what \<open>parse\<close> returns, the methods do not overflow.\<close>

lemma pcm_methods:
  assumes "pcm_ok by bc cb ctb p"
  shows "pcm_bit_depth_y p = Inr (pcm_sample_bit_depth_luma_minus1 p + 1)"
    and "pcm_bit_depth_c p = Inr (pcm_sample_bit_depth_chroma_minus1 p + 1)"
    and "log2_min_ipcm_cb_size_y p = Inr (log2_min_pcm_luma_coding_block_size_minus3 p + 3)"
    and "log2_max_ipcm_cb_size_y p = Inr (log2_diff_max_min_pcm_luma_coding_block_size p +
      (log2_min_pcm_luma_coding_block_size_minus3 p + 3))"
  using assms
  by (simp_all add: pcm_ok_def Let_def pcm_bit_depth_y_def pcm_bit_depth_c_def log2_min_ipcm_cb_size_y_def
      log2_max_ipcm_cb_size_y_def checked_add_def unat_word_ariths)

context byte_source
begin

lemma dec_pcm_depth:
  assumes "unat v < 16" and "unat v + 1 \<le> unat d"
  shows "dec (pcm_depth_parse rd d w) (bits_of 4 v) v"
proof -
  have "checked_add v 1 = Inr (v + 1)" "\<not> d < v + 1"
    using assms by (simp_all add: checked_add_def word_less_nat_alt unat_word_ariths)
  with assms show ?thesis by (simp add: pcm_depth_parse_def coding)
qed

lemma dec_pcm:
  assumes "pcm_ok by bc cb ctb p"
  shows "dec (pcm_parse rd by bc cb ctb) (pcm_bits p) p"
proof -
  let ?lo = "log2_min_pcm_luma_coding_block_size_minus3 p" and ?d = "log2_diff_max_min_pcm_luma_coding_block_size p"
  note ok' = assms [unfolded pcm_ok_def Let_def]
  have lo: "checked_add ?lo 3 = Inr (?lo + 3)" "unat (?lo + 3) = unat ?lo + 3"
    using ok' by (simp_all add: checked_add_def unat_word_ariths)
  have small: "unat ?lo \<le> 5" "unat ?d \<le> 5" using ok' by (auto simp: min_def split: if_splits)
  from lo have hi: "checked_add ?d (?lo + 3) = Inr (?d + (?lo + 3))" "unat (?d + (?lo + 3)) = unat ?d + (unat ?lo + 3)"
    using ok' by (simp_all add: checked_add_def unat_word_ariths)
  have "min cb 5 \<le> ?lo + 3" "?lo + 3 \<le> min ctb 5" "\<not> min ctb 5 < ?d + (?lo + 3)" "eg_ok ?lo" "eg_ok ?d"
    using ok' small by (simp_all only: word_le_nat_alt word_less_nat_alt unat_min lo hi eg_ok_unat) (simp_all add: min_def)
  with ok' show ?thesis
    unfolding pcm_parse_def pcm_bits_def
    by (intro decodes_bnd [OF dec_pcm_depth] decodes_bnd [OF dec_read_exp_golomb]) (simp_all add: lo hi coding)
qed

end

subsection \<open>sps_range_extension.rs\<close>

record sps_range_extension =
  transform_skip_rotation_enabled_flag :: bool
  transform_skip_context_enabled_flag :: bool
  implicit_rdpcm_enabled_flag :: bool
  explicit_rdpcm_enabled_flag :: bool
  extended_precision_processing_flag :: bool
  intra_smoothing_disabled_flag :: bool
  high_precision_offsets_enabled_flag :: bool
  persistent_rice_adaptation_enabled_flag :: bool
  cabac_bypass_alignment_enabled_flag :: bool

definition sps_range_extension_parse :: "'s read_fn \<Rightarrow> ('s bit_reader, sps_range_extension) io" where
  "sps_range_extension_parse rd =
     bnd (read_bit rd) (\<lambda>rotation.
     bnd (read_bit rd) (\<lambda>context.
     bnd (read_bit rd) (\<lambda>implicit.
     bnd (read_bit rd) (\<lambda>explicit.
     bnd (read_bit rd) (\<lambda>precision.
     bnd (read_bit rd) (\<lambda>smoothing.
     bnd (read_bit rd) (\<lambda>offsets.
     bnd (read_bit rd) (\<lambda>rice.
     bnd (read_bit rd) (\<lambda>cabac.
     ret \<lparr>transform_skip_rotation_enabled_flag = rotation, transform_skip_context_enabled_flag = context,
          implicit_rdpcm_enabled_flag = implicit, explicit_rdpcm_enabled_flag = explicit,
          extended_precision_processing_flag = precision, intra_smoothing_disabled_flag = smoothing,
          high_precision_offsets_enabled_flag = offsets, persistent_rice_adaptation_enabled_flag = rice,
          cabac_bypass_alignment_enabled_flag = cabac\<rparr>)))))))))"

definition sps_range_extension_bits :: "sps_range_extension \<Rightarrow> bool list" where
  "sps_range_extension_bits e = [transform_skip_rotation_enabled_flag e, transform_skip_context_enabled_flag e,
     implicit_rdpcm_enabled_flag e, explicit_rdpcm_enabled_flag e, extended_precision_processing_flag e,
     intra_smoothing_disabled_flag e, high_precision_offsets_enabled_flag e,
     persistent_rice_adaptation_enabled_flag e, cabac_bypass_alignment_enabled_flag e]"

text \<open>\<open>1 << n\<close> as an \<open>i64\<close> and as an \<open>i8\<close>: a shift by the width or more panics, one into
  the sign bit does not.\<close>

definition shl_one :: "nat \<Rightarrow> u8 \<Rightarrow> err + int" where
  "shl_one w n = (if unat n < w then Inr (if unat n = w - 1 then - (2 ^ unat n) else 2 ^ unat n)
     else Inl (Panic ''shl overflow''))"

definition coeff_exponent :: "sps_range_extension \<Rightarrow> u8 \<Rightarrow> err + u8" where
  "coeff_exponent e bit_depth = (if extended_precision_processing_flag e
     then rbind (checked_add bit_depth 6) (\<lambda>n. Inr (max 15 n)) else Inr 15)"

definition coeff_min :: "sps_range_extension \<Rightarrow> u8 \<Rightarrow> err + int" where
  "coeff_min e bit_depth = rbind (coeff_exponent e bit_depth) (\<lambda>n.
     rbind (shl_one 64 n) (\<lambda>v. checked_i64 (- v)))"

definition coeff_max :: "sps_range_extension \<Rightarrow> u8 \<Rightarrow> err + int" where
  "coeff_max e bit_depth = rbind (coeff_exponent e bit_depth) (\<lambda>n.
     rbind (shl_one 64 n) (\<lambda>v. checked_i64 (v - 1)))"

definition wp_offset_bd_shift :: "sps_range_extension \<Rightarrow> u8 \<Rightarrow> err + int" where
  "wp_offset_bd_shift e bit_depth = (if high_precision_offsets_enabled_flag e then Inr 0
     else if - 128 \<le> sint bit_depth - 8 then Inr (sint bit_depth - 8) else Inl (Panic ''i8 overflow''))"

definition wp_offset_half_range :: "sps_range_extension \<Rightarrow> u8 \<Rightarrow> err + int" where
  "wp_offset_half_range e bit_depth =
     shl_one 8 (if high_precision_offsets_enabled_flag e then (if 1 \<le> bit_depth then bit_depth - 1 else 0) else 7)"

lemma in_i64_small: "0 \<le> v \<Longrightarrow> v \<le> 2 ^ 22 \<Longrightarrow> in_i64 (- v) \<and> in_i64 (v - 1)"
  by (simp add: in_i64_def)

text \<open>The ranges of the coefficients are those of (7-27) to (7-30).\<close>

lemma coeff_range:
  assumes "unat bit_depth \<le> 16"
  shows "coeff_min e bit_depth = Inr (- (2 ^ (if extended_precision_processing_flag e then max 15 (unat bit_depth + 6) else 15)))"
    and "coeff_max e bit_depth = Inr (2 ^ (if extended_precision_processing_flag e then max 15 (unat bit_depth + 6) else 15) - 1)"
proof -
  define n where "n = (if extended_precision_processing_flag e then max 15 (unat bit_depth + 6) else 15)"
  have "unat (bit_depth + 6) = unat bit_depth + 6" using assms by (simp add: unat_word_ariths)
  moreover have n: "unat (of_nat n :: u8) = n" "n \<le> 22" using assms by (auto simp: n_def unat_of_nat)
  ultimately have "coeff_exponent e bit_depth = Inr (of_nat n)"
    using assms by (auto simp: n_def coeff_exponent_def checked_add_def max_def word_le_nat_alt word_unat_eq_iff)
  moreover have "shl_one 64 (of_nat n) = Inr (2 ^ n)" unfolding shl_one_def n(1) using n(2) by simp
  moreover have "in_i64 (- (2 ^ n))" "in_i64 (2 ^ n - 1)"
    using in_i64_small [of "2 ^ n"] power_increasing [OF n(2), of "2 :: int"] by simp_all
  ultimately have "coeff_min e bit_depth = Inr (- (2 ^ n))" "coeff_max e bit_depth = Inr (2 ^ n - 1)"
    by (simp_all add: coeff_min_def coeff_max_def checked_i64_def)
  then show "coeff_min e bit_depth = Inr (- (2 ^ (if extended_precision_processing_flag e then max 15 (unat bit_depth + 6) else 15)))"
    "coeff_max e bit_depth = Inr (2 ^ (if extended_precision_processing_flag e then max 15 (unat bit_depth + 6) else 15) - 1)"
    by (simp_all only: n_def)
qed

text \<open>
  The half range of (7-33) is \<open>2 ^ 7\<close>, or \<open>2 ^ (BitDepth - 1)\<close> with high precision: neither
  is a number of an \<open>i8\<close>. The method returns -128, or panics from nine bits of depth on.
\<close>

theorem wp_offset_half_range_spec:
  assumes "8 \<le> unat bit_depth" and "unat bit_depth \<le> 16"
  shows "wp_offset_half_range e bit_depth =
    (if high_precision_offsets_enabled_flag e \<and> 9 \<le> unat bit_depth then Inl (Panic ''shl overflow'') else Inr (- 128))"
proof -
  have "unat (bit_depth - 1) = unat bit_depth - 1" "1 \<le> bit_depth"
    using assms by (simp_all add: unat_sub word_le_nat_alt)
  with assms show ?thesis by (auto simp: wp_offset_half_range_def shl_one_def)
qed

theorem wp_offset_half_range_witness:
  "(8 :: nat) \<le> unat (8 :: u8) \<and> wp_offset_half_range \<lparr>transform_skip_rotation_enabled_flag = False,
     transform_skip_context_enabled_flag = False, implicit_rdpcm_enabled_flag = False,
     explicit_rdpcm_enabled_flag = False, extended_precision_processing_flag = False,
     intra_smoothing_disabled_flag = False, high_precision_offsets_enabled_flag = True,
     persistent_rice_adaptation_enabled_flag = False, cabac_bypass_alignment_enabled_flag = False\<rparr> 8 = Inr (- 128)"
  by (simp add: wp_offset_half_range_spec)

subsection \<open>sps_multilayer_extension.rs\<close>

record sps_multilayer_extension =
  inter_view_mv_vert_constraint_flag :: bool

definition sps_multilayer_extension_parse :: "'s read_fn \<Rightarrow> ('s bit_reader, sps_multilayer_extension) io" where
  "sps_multilayer_extension_parse rd =
     bnd (read_bit rd) (\<lambda>b. ret \<lparr>inter_view_mv_vert_constraint_flag = b\<rparr>)"

subsection \<open>sps_3d_extension.rs\<close>

record sps_3d_extension_d0 =
  iv_di_mc_enabled_flag :: bool
  iv_mv_scal_enabled_flag :: bool
  log2_ivmc_sub_pb_size_minus3 :: u64
  iv_res_pred_enabled_flag :: bool
  depth_ref_enabled_flag :: bool
  vsp_mc_enabled_flag :: bool
  dbbp_enabled_flag :: bool

record sps_3d_extension_d1 =
  d1_iv_di_mc_enabled_flag :: bool
  d1_iv_mv_scal_enabled_flag :: bool
  tex_mc_enabled_flag :: bool
  log2_texmc_sub_pb_size_minus3 :: u64
  intra_contour_enabled_flag :: bool
  intra_dc_only_wedge_enabled_flag :: bool
  cqt_cu_part_pred_enabled_flag :: bool
  inter_dc_only_enabled_flag :: bool
  skip_intra_enabled_flag :: bool

record sps_3d_extension =
  ext_d0 :: sps_3d_extension_d0
  ext_d1 :: sps_3d_extension_d1

definition saturating_sub :: "u64 \<Rightarrow> u64 \<Rightarrow> u64" where
  "saturating_sub a b = (if b \<le> a then a - b else 0)"

definition sps_3d_extension_parse :: "'s read_fn \<Rightarrow> u64 \<Rightarrow> u64 \<Rightarrow> ('s bit_reader, sps_3d_extension) io" where
  "sps_3d_extension_parse rd min_cb_log2 ctb_log2 =
     bnd (read_bit rd) (\<lambda>di_mc.
     bnd (read_bit rd) (\<lambda>mv_scal.
     bnd (read_exp_golomb rd) (\<lambda>ivmc.
     bnd (range_check ivmc (saturating_sub min_cb_log2 3) (saturating_sub ctb_log2 3) ''log2_ivmc_sub_pb_size_minus3'') (\<lambda>_.
     bnd (read_bit rd) (\<lambda>res_pred.
     bnd (read_bit rd) (\<lambda>depth_ref.
     bnd (read_bit rd) (\<lambda>vsp.
     bnd (read_bit rd) (\<lambda>dbbp.
     bnd (read_bit rd) (\<lambda>tex_mc.
     bnd (read_exp_golomb rd) (\<lambda>texmc.
     bnd (range_check texmc (saturating_sub min_cb_log2 3) (saturating_sub ctb_log2 3) ''log2_texmc_sub_pb_size_minus3'') (\<lambda>_.
     bnd (read_bit rd) (\<lambda>contour.
     bnd (read_bit rd) (\<lambda>wedge.
     bnd (read_bit rd) (\<lambda>cqt.
     bnd (read_bit rd) (\<lambda>inter_dc.
     bnd (read_bit rd) (\<lambda>skip.
     ret \<lparr>ext_d0 = \<lparr>iv_di_mc_enabled_flag = di_mc, iv_mv_scal_enabled_flag = mv_scal,
            log2_ivmc_sub_pb_size_minus3 = ivmc, iv_res_pred_enabled_flag = res_pred,
            depth_ref_enabled_flag = depth_ref, vsp_mc_enabled_flag = vsp, dbbp_enabled_flag = dbbp\<rparr>,
          ext_d1 = \<lparr>d1_iv_di_mc_enabled_flag = di_mc, d1_iv_mv_scal_enabled_flag = mv_scal,
            tex_mc_enabled_flag = tex_mc, log2_texmc_sub_pb_size_minus3 = texmc,
            intra_contour_enabled_flag = contour, intra_dc_only_wedge_enabled_flag = wedge,
            cqt_cu_part_pred_enabled_flag = cqt, inter_dc_only_enabled_flag = inter_dc,
            skip_intra_enabled_flag = skip\<rparr>\<rparr>))))))))))))))))"

definition sps_3d_extension_bits :: "sps_3d_extension \<Rightarrow> bool list" where
  "sps_3d_extension_bits e = (let a = ext_d0 e; b = ext_d1 e in
     [iv_di_mc_enabled_flag a, iv_mv_scal_enabled_flag a] @ eg_bits (log2_ivmc_sub_pb_size_minus3 a) @
     [iv_res_pred_enabled_flag a, depth_ref_enabled_flag a, vsp_mc_enabled_flag a, dbbp_enabled_flag a,
      tex_mc_enabled_flag b] @ eg_bits (log2_texmc_sub_pb_size_minus3 b) @
     [intra_contour_enabled_flag b, intra_dc_only_wedge_enabled_flag b, cqt_cu_part_pred_enabled_flag b,
      inter_dc_only_enabled_flag b, skip_intra_enabled_flag b])"

text \<open>In the standard (I.7.3.2.2.5) both depth layers have the first two flags: those of the
  second layer come before \<open>tex_mc_enabled_flag\<close>. The code does not read them.\<close>

definition sps_3d_standard_bits :: "sps_3d_extension \<Rightarrow> bool list" where
  "sps_3d_standard_bits e = (let a = ext_d0 e; b = ext_d1 e in
     [iv_di_mc_enabled_flag a, iv_mv_scal_enabled_flag a] @ eg_bits (log2_ivmc_sub_pb_size_minus3 a) @
     [iv_res_pred_enabled_flag a, depth_ref_enabled_flag a, vsp_mc_enabled_flag a, dbbp_enabled_flag a,
      d1_iv_di_mc_enabled_flag b, d1_iv_mv_scal_enabled_flag b,
      tex_mc_enabled_flag b] @ eg_bits (log2_texmc_sub_pb_size_minus3 b) @
     [intra_contour_enabled_flag b, intra_dc_only_wedge_enabled_flag b, cqt_cu_part_pred_enabled_flag b,
      inter_dc_only_enabled_flag b, skip_intra_enabled_flag b])"

text \<open>What the code returns: both depth layers share the first two flags, and the sub-block
  sizes are between the sizes of the coding blocks.\<close>

definition sps_3d_extension_ok :: "u64 \<Rightarrow> u64 \<Rightarrow> sps_3d_extension \<Rightarrow> bool" where
  "sps_3d_extension_ok min_cb_log2 ctb_log2 e \<longleftrightarrow>
     d1_iv_di_mc_enabled_flag (ext_d1 e) = iv_di_mc_enabled_flag (ext_d0 e) \<and>
     d1_iv_mv_scal_enabled_flag (ext_d1 e) = iv_mv_scal_enabled_flag (ext_d0 e) \<and>
     list_all (\<lambda>v. eg_ok v \<and> unat min_cb_log2 - 3 \<le> unat v \<and> unat v \<le> unat ctb_log2 - 3)
       [log2_ivmc_sub_pb_size_minus3 (ext_d0 e), log2_texmc_sub_pb_size_minus3 (ext_d1 e)]"

lemma unat_saturating_sub: "unat (saturating_sub a b) = unat a - unat b"
  by (auto simp: saturating_sub_def word_le_nat_alt unat_sub)

lemma yields_sps_3d_extension: "yields (sps_3d_extension_parse rd cb ctb) (sps_3d_extension_ok cb ctb)"
  unfolding sps_3d_extension_parse_def
  by (intro yielding) (auto simp: sps_3d_extension_ok_def word_le_nat_alt unat_saturating_sub)

text \<open>
  So the flags of the second layer are always those of the first, whatever was sent for it,
  and two bits too few are read.
\<close>

theorem sps_3d_second_flags_not_read:
  assumes "sps_3d_extension_parse rd cb ctb s = (Inr e, s')"
  shows "d1_iv_di_mc_enabled_flag (ext_d1 e) = iv_di_mc_enabled_flag (ext_d0 e) \<and>
    d1_iv_mv_scal_enabled_flag (ext_d1 e) = iv_mv_scal_enabled_flag (ext_d0 e) \<and>
    length (sps_3d_standard_bits e) = length (sps_3d_extension_bits e) + 2"
  using yieldsD [OF yields_sps_3d_extension assms]
  by (simp add: sps_3d_extension_ok_def sps_3d_standard_bits_def sps_3d_extension_bits_def Let_def)

subsection \<open>sps_scc_extension.rs\<close>

record palette_mode =
  palette_max_size :: u64
  delta_palette_max_predictor_size :: u64
  sps_palette_predictor_initializers :: "u64 list list option"

record sps_scc_extension =
  sps_curr_pic_ref_enabled_flag :: bool
  scc_palette_mode :: "palette_mode option"
  motion_vector_resolution_control_idc :: u8
  intra_boundary_filtering_disabled_flag :: bool

fun comps_parse :: "'s read_fn \<Rightarrow> nat \<Rightarrow> u8 list \<Rightarrow> ('s bit_reader, u64 list list) io" where
  "comps_parse rd n [] = ret []"
| "comps_parse rd n (d # ds) =
     bnd (times_io n (read_bits rd (unat d))) (\<lambda>xs. bnd (comps_parse rd n ds) (\<lambda>xss. ret (xs # xss)))"

text \<open>The depths of the components: luma, and two of chroma unless there is none.\<close>

definition comp_depths :: "u8 \<Rightarrow> u8 \<Rightarrow> u8 \<Rightarrow> u8 list" where
  "comp_depths chroma_format_idc bit_depth_y bit_depth_c =
     (if chroma_format_idc = 0 then [bit_depth_y] else [bit_depth_y, bit_depth_c, bit_depth_c])"

text \<open>\<open>vec![0u64; n]\<close> panics when its bytes are more than an \<open>isize\<close> counts.\<close>

definition initializers_parse :: "'s read_fn \<Rightarrow> u8 list \<Rightarrow> u64 \<Rightarrow> ('s bit_reader, u64 list list) io" where
  "initializers_parse rd depths palette_max =
     bnd (read_exp_golomb rd) (\<lambda>num_minus1.
     bnd (guard (\<not> num_minus1 \<ge> palette_max)
       (IoErr InvalidData ''sps_num_palette_predictor_initializers_minus1 + 1 must be less than or equal to palette_max_size'')) (\<lambda>_.
     bnd (lift_res (checked_add num_minus1 1)) (\<lambda>num.
     bnd (guard (unat num * 8 < 2 ^ 63) (Panic ''capacity overflow'')) (\<lambda>_.
     comps_parse rd (unat num) depths))))"

definition palette_parse :: "'s read_fn \<Rightarrow> u8 list \<Rightarrow> ('s bit_reader, palette_mode) io" where
  "palette_parse rd depths =
     bnd (read_exp_golomb rd) (\<lambda>max_size.
     bnd (read_exp_golomb rd) (\<lambda>delta.
     bnd (guard (\<not> (max_size = 0 \<and> delta \<noteq> 0))
       (IoErr InvalidData ''delta_palette_max_predictor_size must be 0 when palette_max_size is 0'')) (\<lambda>_.
     bnd (read_bit rd) (\<lambda>initializers_present.
     bnd (guard (\<not> (max_size = 0 \<and> \<not> initializers_present))
       (IoErr InvalidData ''sps_palette_predictor_initializers_present_flag must be 0 when palette_max_size is 0'')) (\<lambda>_.
     bnd (when_io initializers_present (initializers_parse rd depths max_size)) (\<lambda>initializers.
     ret \<lparr>palette_max_size = max_size, delta_palette_max_predictor_size = delta,
          sps_palette_predictor_initializers = initializers\<rparr>))))))"

definition sps_scc_extension_parse :: "'s read_fn \<Rightarrow> u8 \<Rightarrow> u8 \<Rightarrow> u8 \<Rightarrow> ('s bit_reader, sps_scc_extension) io" where
  "sps_scc_extension_parse rd chroma_format_idc bit_depth_y bit_depth_c =
     bnd (read_bit rd) (\<lambda>curr_pic_ref.
     bnd (bnd (read_bit rd) (\<lambda>b. when_io b (palette_parse rd (comp_depths chroma_format_idc bit_depth_y bit_depth_c)))) (\<lambda>palette.
     bnd (read_bits rd 2) (\<lambda>v.
     let resolution = ucast v :: u8 in
     bnd (range_check resolution 0 2 ''motion_vector_resolution_control_idc'') (\<lambda>_.
     bnd (read_bit rd) (\<lambda>boundary.
     ret \<lparr>sps_curr_pic_ref_enabled_flag = curr_pic_ref, scc_palette_mode = palette,
          motion_vector_resolution_control_idc = resolution,
          intra_boundary_filtering_disabled_flag = boundary\<rparr>)))))"

definition palette_max_predictor_size :: "palette_mode \<Rightarrow> err + u64" where
  "palette_max_predictor_size p = checked_add (palette_max_size p) (delta_palette_max_predictor_size p)"

definition comps_bits :: "u8 list \<Rightarrow> u64 list list \<Rightarrow> bool list" where
  "comps_bits ds xss = concat (map (\<lambda>(d, xs). concat (map (bits_of (unat d)) xs)) (zip ds xss))"

definition comps_ok :: "nat \<Rightarrow> u8 list \<Rightarrow> u64 list list \<Rightarrow> bool" where
  "comps_ok n = list_all2 (\<lambda>d xs. length xs = n \<and> list_all (\<lambda>x. unat x < 2 ^ unat d) xs)"

definition palette_bits :: "u8 list \<Rightarrow> palette_mode \<Rightarrow> bool list" where
  "palette_bits ds p = eg_bits (palette_max_size p) @ eg_bits (delta_palette_max_predictor_size p) @
     flag_bits (\<lambda>xss. eg_bits (of_nat (length (hd xss) - 1)) @ comps_bits ds xss) (sps_palette_predictor_initializers p)"

text \<open>As the code has it: no palette of size 0.\<close>

definition palette_ok :: "u8 list \<Rightarrow> palette_mode \<Rightarrow> bool" where
  "palette_ok ds p \<longleftrightarrow> eg_ok (palette_max_size p) \<and> eg_ok (delta_palette_max_predictor_size p) \<and> palette_max_size p \<noteq> 0 \<and>
     opt_ok (\<lambda>xss. let n = length (hd xss) in 0 < n \<and> n \<le> unat (palette_max_size p) \<and> n * 8 < 2 ^ 63 \<and> comps_ok n ds xss)
       (sps_palette_predictor_initializers p)"

definition sps_scc_extension_bits :: "u8 list \<Rightarrow> sps_scc_extension \<Rightarrow> bool list" where
  "sps_scc_extension_bits ds e = sps_curr_pic_ref_enabled_flag e # flag_bits (palette_bits ds) (scc_palette_mode e) @
     bits_of 2 (motion_vector_resolution_control_idc e) @ [intra_boundary_filtering_disabled_flag e]"

definition sps_scc_extension_ok :: "u8 list \<Rightarrow> sps_scc_extension \<Rightarrow> bool" where
  "sps_scc_extension_ok ds e \<longleftrightarrow> opt_ok (palette_ok ds) (scc_palette_mode e) \<and>
     unat (motion_vector_resolution_control_idc e) \<le> 2"

lemma yields_comps: "yields (comps_parse rd n ds) (comps_ok n ds)"
proof (induction ds)
  case Nil
  show ?case by (simp add: comps_ok_def yields_ret)
next
  case (Cons d ds)
  show ?case
    unfolding comps_parse.simps
    by (intro yields_bnd [OF yields_times [OF yields_read_bits]] yields_bnd [OF Cons.IH] yields_ret)
      (auto simp: comps_ok_def list_all_iff)
qed

lemma comps_ok_hd: "comps_ok n ds xss \<Longrightarrow> ds \<noteq> [] \<Longrightarrow> length (hd xss) = n"
  by (cases ds; cases xss) (auto simp: comps_ok_def)

lemma yields_initializers:
  assumes "ds \<noteq> []"
  shows "yields (initializers_parse rd ds m) (\<lambda>xss. let n = length (hd xss) in
    0 < n \<and> n \<le> unat m \<and> n * 8 < 2 ^ 63 \<and> comps_ok n ds xss)"
  unfolding initializers_parse_def
  by (intro yields_eg_step yields_guard_step yields_lift_step, rule yields_mono [OF yields_comps])
    (use assms in \<open>auto simp: Let_def comps_ok_hd word_less_nat_alt not_le dest!: checked_add_Inr\<close>)

lemma yields_palette:
  assumes "ds \<noteq> []"
  shows "yields (palette_parse rd ds) (palette_ok ds)"
  unfolding palette_parse_def
  by (intro yields_eg_step yields_guard_step yields_bit_step yields_bnd [OF yields_when [OF yields_initializers [OF assms]]] yields_ret)
    (auto simp: palette_ok_def Let_def opt_ok_def split: option.splits)

lemma comp_depths_ne: "comp_depths idc by bc \<noteq> []"
  by (simp add: comp_depths_def)

lemma yields_sps_scc_extension:
  "yields (sps_scc_extension_parse rd idc by bc) (sps_scc_extension_ok (comp_depths idc by bc))"
  unfolding sps_scc_extension_parse_def Let_def
  by (intro yields_bnd [OF yields_flag_when [OF yields_palette [OF comp_depths_ne]]] yielding)
    (simp_all add: sps_scc_extension_ok_def word_le_nat_alt)

text \<open>
  The standard forbids initializers for an empty palette; the check is inverted, and an empty
  palette, with initializers or without, is always an error.
\<close>

theorem empty_palette_refused:
  assumes "palette_parse rd (comp_depths idc by bc) s = (Inr p, s')"
  shows "palette_max_size p \<noteq> 0"
  using yields_palette [OF comp_depths_ne, of rd idc "by" bc] assms by (auto simp: yields_def palette_ok_def)

context byte_source
begin

lemma dec_sps_range_extension: "dec (sps_range_extension_parse rd) (sps_range_extension_bits e) e"
  by (cases e) (simp add: sps_range_extension_parse_def sps_range_extension_bits_def coding)

lemma dec_sps_multilayer_extension:
  "dec (sps_multilayer_extension_parse rd) [inter_view_mv_vert_constraint_flag e] e"
  by (cases e) (simp add: sps_multilayer_extension_parse_def coding)

lemma dec_sps_3d_extension:
  "sps_3d_extension_ok cb ctb e \<Longrightarrow> dec (sps_3d_extension_parse rd cb ctb) (sps_3d_extension_bits e) e"
  by (cases e; cases "ext_d0 e"; cases "ext_d1 e")
    (simp add: sps_3d_extension_parse_def sps_3d_extension_bits_def sps_3d_extension_ok_def word_le_nat_alt
      unat_saturating_sub coding)

lemma dec_comps:
  "comps_ok n ds xss \<Longrightarrow> list_all (\<lambda>d. unat d \<le> 64) ds \<Longrightarrow> dec (comps_parse rd n ds) (comps_bits ds xss) xss"
proof (induction ds arbitrary: xss)
  case Nil
  then show ?case by (simp add: comps_ok_def comps_bits_def decodes_ret)
next
  case (Cons d ds)
  then obtain xs xss' where x: "xss = xs # xss'" "length xs = n" "list_all (\<lambda>x. unat x < 2 ^ unat d) xs" "comps_ok n ds xss'"
    by (auto simp: comps_ok_def list_all2_Cons1)
  have "dec (times_io (length xs) (read_bits rd (unat d))) (concat (map (bits_of (unat d)) xs)) xs"
    using x(3) Cons.prems(2) dec_field [of "unat d", where 'b = 64]
    by (intro decodes_times) (auto simp: list_all_iff)
  then have "dec (comps_parse rd n (d # ds)) (concat (map (bits_of (unat d)) xs) @ comps_bits ds xss') (xs # xss')"
    unfolding comps_parse.simps x(2)
    by (rule decodes_bnd) (rule decodes_last [OF Cons.IH [OF x(4)]], use Cons.prems in \<open>simp_all add: decodes_ret\<close>)
  then show ?case by (simp add: comps_bits_def x(1))
qed

lemma dec_initializers:
  assumes "let n = length (hd xss) in 0 < n \<and> n \<le> unat m \<and> n * 8 < 2 ^ 63 \<and> comps_ok n ds xss"
    and "list_all (\<lambda>d. unat d \<le> 64) ds"
  shows "dec (initializers_parse rd ds m) (eg_bits (of_nat (length (hd xss) - 1)) @ comps_bits ds xss) xss"
proof -
  let ?n = "length (hd xss)"
  have n: "0 < ?n" "?n \<le> unat m" "?n * 8 < 2 ^ 63" "comps_ok ?n ds xss" using assms(1) by (simp_all add: Let_def)
  define k :: u64 where "k = of_nat (?n - 1)"
  have k: "unat k = ?n - 1" unfolding k_def unat_of_nat using n(3) by (intro mod_less) simp
  have "k < m" unfolding word_less_nat_alt k using n(1,2) by linarith
  moreover from k n have "checked_add k 1 = Inr (k + 1)" "unat (k + 1) = ?n" "eg_ok k"
    by (simp_all add: checked_add_def unat_word_ariths eg_ok_unat)
  ultimately show ?thesis
    using n(3) unfolding initializers_parse_def k_def [symmetric]
    by (intro decodes_bnd [OF dec_read_exp_golomb]) (simp_all add: bnd_guard not_le n(3) dec_comps [OF n(4) assms(2)])
qed

lemma dec_palette:
  assumes "palette_ok ds p" and "list_all (\<lambda>d. unat d \<le> 64) ds"
  shows "dec (palette_parse rd ds) (palette_bits ds p) p"
proof -
  note ok' = assms(1) [unfolded palette_ok_def]
  have "dec (when_io (sps_palette_predictor_initializers p \<noteq> None) (initializers_parse rd ds (palette_max_size p)))
      (opt_bits (\<lambda>xss. eg_bits (of_nat (length (hd xss) - 1)) @ comps_bits ds xss) (sps_palette_predictor_initializers p))
      (sps_palette_predictor_initializers p)"
    using ok' assms(2) by (intro dec_when dec_initializers) (simp_all add: opt_ok_def)
  note tl = decodes_last [OF this]
  from ok' show ?thesis
    unfolding palette_parse_def palette_bits_def flag_bits_def
    by (intro decodes_bnd [OF dec_read_exp_golomb]) (simp_all add: coding tl del: not_None_eq when_io_simps One_nat_def)
qed

lemma dec_sps_scc_extension:
  assumes "sps_scc_extension_ok (comp_depths idc by bc) e" and "unat by \<le> 64" and "unat bc \<le> 64"
  shows "dec (sps_scc_extension_parse rd idc by bc) (sps_scc_extension_bits (comp_depths idc by bc) e) e"
proof -
  let ?ds = "comp_depths idc by bc"
  have "list_all (\<lambda>d. unat d \<le> 64) ?ds" using assms(2,3) by (simp add: comp_depths_def)
  then have p: "dec (bnd (read_bit rd) (\<lambda>b. when_io b (palette_parse rd ?ds))) (flag_bits (palette_bits ?ds) (scc_palette_mode e)) (scc_palette_mode e)"
    using assms(1) by (intro dec_flag_when dec_palette) (simp_all add: sps_scc_extension_ok_def opt_ok_def)
  show ?thesis
    unfolding sps_scc_extension_parse_def sps_scc_extension_bits_def Let_def
    by (intro dec_bit_step decodes_bnd [OF p])
      (use assms(1) in \<open>simp add: coding sps_scc_extension_ok_def word_le_nat_alt\<close>)
qed

end

end
