(* ===== verification/H265_Refs.thy ===== *)
theory H265_Refs
  imports Coding
begin

text \<open>
  \<open>crates/h265/src/sps/st_ref_pic_set.rs\<close>: the short-term reference picture sets. A set is
  sent as two lists of differences, or predicted from the set before it by shifting that one
  and dropping entries. The code fills zeroed vectors by index; \<open>rps_value\<close> below is the
  derivation of the standard, and the parser refines it without an index out of range.
\<close>

subsection \<open>State\<close>

text \<open>
  The code keeps one vector of each field over all sets, and writes to the last entry of
  each; here a set is one record, and the vectors are formed at the end.
\<close>

record st_rps =
  num_negative :: u64
  num_positive :: u64
  num_delta :: u64
  poc_s0 :: "int list"
  poc_s1 :: "int list"
  used_s0 :: "bool list"
  used_s1 :: "bool list"

record short_term_ref_pic_sets =
  num_delta_pocs :: "u64 list"
  num_positive_pics :: "u64 list"
  num_negative_pics :: "u64 list"
  delta_poc_s1 :: "int list list"
  delta_poc_s0 :: "int list list"
  used_by_curr_pic_s0 :: "bool list list"
  used_by_curr_pic_s1 :: "bool list list"

definition short_term_sets :: "st_rps list \<Rightarrow> short_term_ref_pic_sets" where
  "short_term_sets rs = \<lparr>num_delta_pocs = map num_delta rs, num_positive_pics = map num_positive rs,
     num_negative_pics = map num_negative rs, delta_poc_s1 = map poc_s1 rs, delta_poc_s0 = map poc_s0 rs,
     used_by_curr_pic_s0 = map used_s0 rs, used_by_curr_pic_s1 = map used_s1 rs\<rparr>"

subsection \<open>parse\<close>

text \<open>Indexing, which panics out of range.\<close>

definition idx :: "'a list \<Rightarrow> nat \<Rightarrow> err + 'a" where
  "idx xs i = (if i < length xs then Inr (xs ! i) else Inl (Panic ''index out of bounds''))"

fun fold_res :: "('a \<Rightarrow> 's \<Rightarrow> err + 's) \<Rightarrow> 'a list \<Rightarrow> 's \<Rightarrow> err + 's" where
  "fold_res f [] s = Inr s"
| "fold_res f (x # xs) s = rbind (f x s) (fold_res f xs)"

text \<open>The vectors being filled and the index \<open>i\<close> of the next entry.\<close>

type_synonym rows = "int list \<times> bool list \<times> nat"

definition put_entry :: "int \<Rightarrow> bool \<Rightarrow> rows \<Rightarrow> err + rows" where
  "put_entry d b = (\<lambda>(ds, bs, i).
     if i < length ds \<and> i < length bs then Inr (ds[i := d], bs[i := b], i + 1)
     else Inl (Panic ''index out of bounds''))"

text \<open>
  One iteration over the entries of the reference set: \<open>row\<close> holds its differences, the
  flags of entry \<open>j\<close> are at \<open>off + j\<close>, and \<open>keep\<close> is the sign the result must have.
\<close>

definition inter_step :: "int list \<Rightarrow> nat \<Rightarrow> (int \<Rightarrow> bool) \<Rightarrow> int \<Rightarrow> bool list \<Rightarrow> bool list \<Rightarrow> nat \<Rightarrow> rows \<Rightarrow> err + rows" where
  "inter_step row off keep delta_rps used_flag use_delta_flag j rows =
     rbind (idx row j) (\<lambda>d.
     rbind (checked_i64 (d + delta_rps)) (\<lambda>d_poc.
     if keep d_poc then
       rbind (idx use_delta_flag (off + j)) (\<lambda>use.
       if use then rbind (idx used_flag (off + j)) (\<lambda>used. put_entry d_poc used rows) else Inr rows)
     else Inr rows))"

definition inter_own :: "nat \<Rightarrow> (int \<Rightarrow> bool) \<Rightarrow> int \<Rightarrow> bool list \<Rightarrow> bool list \<Rightarrow> rows \<Rightarrow> err + rows" where
  "inter_own n keep delta_rps used_flag use_delta_flag rows =
     (if keep delta_rps then
        rbind (idx use_delta_flag n) (\<lambda>use.
        if use then rbind (idx used_flag n) (\<lambda>used. put_entry delta_rps used rows) else Inr rows)
      else Inr rows)"

definition inter_s0 :: "st_rps \<Rightarrow> int \<Rightarrow> bool list \<Rightarrow> bool list \<Rightarrow> rows \<Rightarrow> err + rows" where
  "inter_s0 r delta used use rows =
     rbind (fold_res (inter_step (poc_s1 r) (unat (num_negative r)) (\<lambda>d. d < 0) delta used use)
       (rev [0..<unat (num_positive r)]) rows) (\<lambda>rows.
     rbind (inter_own (unat (num_delta r)) (\<lambda>d. d < 0) delta used use rows) (\<lambda>rows.
     fold_res (inter_step (poc_s0 r) 0 (\<lambda>d. d < 0) delta used use) [0..<unat (num_negative r)] rows))"

definition inter_s1 :: "st_rps \<Rightarrow> int \<Rightarrow> bool list \<Rightarrow> bool list \<Rightarrow> rows \<Rightarrow> err + rows" where
  "inter_s1 r delta used use rows =
     rbind (fold_res (inter_step (poc_s0 r) 0 (\<lambda>d. d > 0) delta used use)
       (rev [0..<unat (num_negative r)]) rows) (\<lambda>rows.
     rbind (inter_own (unat (num_delta r)) (\<lambda>d. d > 0) delta used use rows) (\<lambda>rows.
     fold_res (inter_step (poc_s1 r) (unat (num_negative r)) (\<lambda>d. d > 0) delta used use) [0..<unat (num_positive r)] rows))"

definition inter_flag_parse :: "'s read_fn \<Rightarrow> ('s bit_reader, bool \<times> bool) io" where
  "inter_flag_parse rd =
     bnd (read_bit rd) (\<lambda>used.
     bnd (if \<not> used then read_bit rd else ret True) (\<lambda>use. ret (used, use)))"

definition inter_fill :: "st_rps \<Rightarrow> int \<Rightarrow> (bool \<times> bool) list \<Rightarrow> ('s, st_rps) io" where
  "inter_fill r delta_rps flags =
     (let len = unat (num_delta r) + 1; rows = (replicate len 0, replicate len False, 0);
          used = map fst flags; use = map snd flags in
     bnd (lift_res (inter_s0 r delta_rps used use rows)) (\<lambda>(ds0, us0, i).
     let num_neg = of_nat i :: u64 in
     bnd (range_check num_neg 0 16 ''num_negative_pics[st_rps_idx]'') (\<lambda>_.
     bnd (lift_res (inter_s1 r delta_rps used use rows)) (\<lambda>(ds1, us1, i).
     let num_pos = of_nat i :: u64 in
     bnd (range_check num_neg 0 16 ''num_negative_pics[st_rps_idx]'') (\<lambda>_.
     bnd (lift_res (checked_add num_neg num_pos)) (\<lambda>num_delta.
     ret \<lparr>num_negative = num_neg, num_positive = num_pos, num_delta = num_delta,
          poc_s0 = ds0, poc_s1 = ds1, used_s0 = us0, used_s1 = us1\<rparr>))))))"

definition inter_parse :: "'s read_fn \<Rightarrow> st_rps \<Rightarrow> ('s bit_reader, st_rps) io" where
  "inter_parse rd r =
     bnd (read_bit rd) (\<lambda>delta_rps_sign.
     bnd (read_exp_golomb rd) (\<lambda>abs_delta_rps_minus1.
     bnd (range_check abs_delta_rps_minus1 0 (2 ^ 15 - 1) ''abs_delta_rps_minus1'') (\<lambda>_.
     let delta_rps = (1 - 2 * of_bool delta_rps_sign) * (uint abs_delta_rps_minus1 + 1) in
     bnd (times_io (unat (num_delta r) + 1) (inter_flag_parse rd)) (inter_fill r delta_rps))))"

text \<open>The differences of a set that is sent: \<open>step\<close> moves away from the current picture.\<close>

fun pocs_parse :: "'s read_fn \<Rightarrow> string \<Rightarrow> (int \<Rightarrow> int \<Rightarrow> int) \<Rightarrow> nat \<Rightarrow> int \<Rightarrow> ('s bit_reader, (int \<times> bool) list) io" where
  "pocs_parse rd what step 0 prev = ret []"
| "pocs_parse rd what step (Suc n) prev =
     bnd (read_exp_golomb rd) (\<lambda>d.
     bnd (range_check d 0 (2 ^ 15 - 1) what) (\<lambda>_.
     bnd (lift_res (checked_i64 (step prev (uint d + 1)))) (\<lambda>poc.
     bnd (read_bit rd) (\<lambda>used.
     bnd (pocs_parse rd what step n poc) (\<lambda>ps. ret ((poc, used) # ps))))))"

definition explicit_parse :: "'s read_fn \<Rightarrow> u8 \<Rightarrow> u64 \<Rightarrow> ('s bit_reader, st_rps) io" where
  "explicit_parse rd nuh_layer_id max_dec =
     bnd (read_exp_golomb rd) (\<lambda>num_neg.
     bnd (read_exp_golomb rd) (\<lambda>num_pos.
     bnd (range_check num_neg 0 (if nuh_layer_id = 0 then max_dec else 16) ''num_negative_pics[st_rps_idx]'') (\<lambda>_.
     bnd (range_check num_pos 0 (if nuh_layer_id = 0 then (if num_neg \<le> max_dec then max_dec - num_neg else 0) else 16)
       ''num_positive_pics[st_rps_idx]'') (\<lambda>_.
     bnd (pocs_parse rd ''delta_poc_s0_minus1'' (-) (unat num_neg) 0) (\<lambda>s0.
     bnd (pocs_parse rd ''delta_poc_s1_minus1'' (+) (unat num_pos) 0) (\<lambda>s1.
     bnd (lift_res (checked_add num_neg num_pos)) (\<lambda>num_delta.
     ret \<lparr>num_negative = num_neg, num_positive = num_pos, num_delta = num_delta,
          poc_s0 = map fst s0, poc_s1 = map fst s1, used_s0 = map snd s0, used_s1 = map snd s1\<rparr>)))))))"

text \<open>
  One set; the set it may be predicted from is the one before. (The code also has a branch
  for the index past the last set, which a sequence parameter set never reaches.)
\<close>

definition st_rps_parse :: "'s read_fn \<Rightarrow> u8 \<Rightarrow> u64 \<Rightarrow> st_rps option \<Rightarrow> ('s bit_reader, st_rps) io" where
  "st_rps_parse rd nuh_layer_id max_dec prev =
     (case prev of None \<Rightarrow> explicit_parse rd nuh_layer_id max_dec
      | Some r \<Rightarrow>
          bnd (read_bit rd) (\<lambda>inter_ref_pic_set_prediction_flag.
          if inter_ref_pic_set_prediction_flag then inter_parse rd r
          else explicit_parse rd nuh_layer_id max_dec))"

fun st_rps_loop :: "'s read_fn \<Rightarrow> u8 \<Rightarrow> u64 \<Rightarrow> nat \<Rightarrow> st_rps option \<Rightarrow> ('s bit_reader, st_rps list) io" where
  "st_rps_loop rd nuh_layer_id max_dec 0 prev = ret []"
| "st_rps_loop rd nuh_layer_id max_dec (Suc n) prev =
     bnd (st_rps_parse rd nuh_layer_id max_dec prev) (\<lambda>r.
     bnd (st_rps_loop rd nuh_layer_id max_dec n (Some r)) (\<lambda>rs. ret (r # rs)))"

definition short_term_ref_pic_sets_parse :: "'s read_fn \<Rightarrow> nat \<Rightarrow> u8 \<Rightarrow> u64 \<Rightarrow> ('s bit_reader, short_term_ref_pic_sets) io" where
  "short_term_ref_pic_sets_parse rd num nuh_layer_id max_dec =
     bnd (st_rps_loop rd nuh_layer_id max_dec num None) (\<lambda>rs. ret (short_term_sets rs))"

subsection \<open>The derivation of the standard (7.4.8)\<close>

text \<open>A set: the pictures before the current one, and those after it, each with its
  distance and whether the current picture refers to it.\<close>

type_synonym rps = "(int \<times> bool) list \<times> (int \<times> bool) list"

datatype rps_syntax =
    Explicit "(u64 \<times> bool) list" "(u64 \<times> bool) list"
  | Inter bool u64 "(bool \<times> bool) list"

text \<open>(7-65) to (7-70)\<close>

fun pocs_value :: "(int \<Rightarrow> int \<Rightarrow> int) \<Rightarrow> int \<Rightarrow> (u64 \<times> bool) list \<Rightarrow> (int \<times> bool) list" where
  "pocs_value step prev [] = []"
| "pocs_value step prev ((d, used) # ds) =
     (let poc = step prev (uint d + 1) in (poc, used) # pocs_value step poc ds)"

text \<open>(7-61) and (7-62)\<close>

definition shifted :: "(int \<Rightarrow> bool) \<Rightarrow> int \<Rightarrow> (bool \<times> bool) list \<Rightarrow> (int \<times> bool) list \<Rightarrow> nat \<Rightarrow> nat list \<Rightarrow> (int \<times> bool) list" where
  "shifted keep delta flags entries off js =
     map (\<lambda>j. (fst (entries ! j) + delta, fst (flags ! (off + j))))
       (filter (\<lambda>j. keep (fst (entries ! j) + delta) \<and> snd (flags ! (off + j))) js)"

definition own_entry :: "(int \<Rightarrow> bool) \<Rightarrow> int \<Rightarrow> (bool \<times> bool) list \<Rightarrow> nat \<Rightarrow> (int \<times> bool) list" where
  "own_entry keep delta flags n = (if keep delta \<and> snd (flags ! n) then [(delta, fst (flags ! n))] else [])"

definition derive :: "rps \<Rightarrow> int \<Rightarrow> (bool \<times> bool) list \<Rightarrow> rps" where
  "derive = (\<lambda>(neg, pos) delta flags.
    (let n0 = length neg; n1 = length pos in
     (shifted (\<lambda>d. d < 0) delta flags pos n0 (rev [0..<n1]) @ own_entry (\<lambda>d. d < 0) delta flags (n0 + n1) @
        shifted (\<lambda>d. d < 0) delta flags neg 0 [0..<n0],
      shifted (\<lambda>d. d > 0) delta flags neg 0 (rev [0..<n0]) @ own_entry (\<lambda>d. d > 0) delta flags (n0 + n1) @
        shifted (\<lambda>d. d > 0) delta flags pos n0 [0..<n1])))"

definition delta_of :: "bool \<Rightarrow> u64 \<Rightarrow> int" where
  "delta_of sign a = (1 - 2 * of_bool sign) * (uint a + 1)"

fun rps_of :: "rps \<Rightarrow> rps_syntax \<Rightarrow> rps" where
  "rps_of prev (Explicit ns ps) = (pocs_value (-) 0 ns, pocs_value (+) 0 ps)"
| "rps_of prev (Inter sign a flags) = derive prev (delta_of sign a) flags"

fun rps_value :: "rps \<Rightarrow> rps_syntax list \<Rightarrow> rps list" where
  "rps_value prev [] = []"
| "rps_value prev (s # ss) = (let r = rps_of prev s in r # rps_value r ss)"

text \<open>The bit string of a set, and the ranges of the standard.\<close>

fun rps_bits :: "bool \<Rightarrow> rps_syntax \<Rightarrow> bool list" where
  "rps_bits first (Explicit ns ps) = (if first then [] else [False]) @
     eg_bits (of_nat (length ns)) @ eg_bits (of_nat (length ps)) @
     concat (map (\<lambda>(d, used). eg_bits d @ [used]) ns) @ concat (map (\<lambda>(d, used). eg_bits d @ [used]) ps)"
| "rps_bits first (Inter sign a flags) = (if first then [] else [True]) @ sign # eg_bits a @
     concat (map (\<lambda>(used, use). used # (if used then [] else [use])) flags)"

fun rpss_bits :: "bool \<Rightarrow> rps_syntax list \<Rightarrow> bool list" where
  "rpss_bits first [] = []"
| "rpss_bits first (s # ss) = rps_bits first s @ rpss_bits False ss"

definition max_pics :: "u8 \<Rightarrow> u64 \<Rightarrow> nat" where
  "max_pics layer max_dec = (if layer = 0 then unat max_dec else 16)"

fun rps_syntax_ok :: "u8 \<Rightarrow> u64 \<Rightarrow> bool \<Rightarrow> rps \<Rightarrow> rps_syntax \<Rightarrow> bool" where
  "rps_syntax_ok layer max_dec first prev (Explicit ns ps) \<longleftrightarrow>
     length ns \<le> max_pics layer max_dec \<and>
     length ps \<le> (if layer = 0 then unat max_dec - length ns else 16) \<and>
     list_all (\<lambda>(d, _). unat d \<le> 2 ^ 15 - 1) ns \<and> list_all (\<lambda>(d, _). unat d \<le> 2 ^ 15 - 1) ps"
| "rps_syntax_ok layer max_dec first prev (Inter sign a flags) \<longleftrightarrow>
     \<not> first \<and> unat a \<le> 2 ^ 15 - 1 \<and> length flags = length (fst prev) + length (snd prev) + 1 \<and>
     list_all (\<lambda>(used, use). used \<longrightarrow> use) flags \<and> length (fst (derive prev (delta_of sign a) flags)) \<le> 16"

fun rpss_ok :: "u8 \<Rightarrow> u64 \<Rightarrow> bool \<Rightarrow> rps \<Rightarrow> rps_syntax list \<Rightarrow> bool" where
  "rpss_ok layer max_dec first prev [] = True"
| "rpss_ok layer max_dec first prev (s # ss) \<longleftrightarrow>
     rps_syntax_ok layer max_dec first prev s \<and> rpss_ok layer max_dec False (rps_of prev s) ss"

subsection \<open>The vectors of the code refine the sets\<close>

definition rps_abs :: "st_rps \<Rightarrow> rps" where
  "rps_abs r = (zip (take (unat (num_negative r)) (poc_s0 r)) (take (unat (num_negative r)) (used_s0 r)),
     zip (take (unat (num_positive r)) (poc_s1 r)) (take (unat (num_positive r)) (used_s1 r)))"

text \<open>A set with rows of at least these lengths, the rest zeroed.\<close>

definition padded :: "nat \<Rightarrow> 'a \<Rightarrow> 'a list \<Rightarrow> 'a list" where
  "padded len z xs = xs @ replicate (len - length xs) z"

definition set_rows :: "nat \<Rightarrow> rps \<Rightarrow> st_rps" where
  "set_rows len = (\<lambda>(neg, pos). \<lparr>num_negative = of_nat (length neg), num_positive = of_nat (length pos),
     num_delta = of_nat (length neg + length pos),
     poc_s0 = padded len 0 (map fst neg), poc_s1 = padded len 0 (map fst pos),
     used_s0 = padded len False (map snd neg), used_s1 = padded len False (map snd pos)\<rparr>)"

text \<open>How long the rows of a set are: as long as its flags, or as the set itself.\<close>

fun row_length :: "rps_syntax \<Rightarrow> nat" where
  "row_length (Explicit ns ps) = 0"
| "row_length (Inter sign a flags) = length flags"

fun sets_value :: "rps \<Rightarrow> rps_syntax list \<Rightarrow> st_rps list" where
  "sets_value prev [] = []"
| "sets_value prev (s # ss) = set_rows (row_length s) (rps_of prev s) # sets_value (rps_of prev s) ss"

text \<open>Bounds on the \<open>k\<close>-th set: sums stay far inside 64 bits, and signs are kept apart.\<close>

definition rps_ok :: "nat \<Rightarrow> rps \<Rightarrow> bool" where
  "rps_ok k = (\<lambda>(neg, pos). length neg \<le> 16 \<and> length pos \<le> 16 + 17 * k \<and>
     (\<forall>x \<in> set neg. fst x < 0) \<and> (\<forall>x \<in> set pos. 0 < fst x) \<and>
     (\<forall>x \<in> set neg \<union> set pos. \<bar>fst x\<bar> \<le> (16 + int k) * 2 ^ 15))"

lemma length_padded: "length xs \<le> len \<Longrightarrow> length (padded len z xs) = len"
  by (simp add: padded_def)

lemma rps_abs_set_rows:
  assumes "length neg < 2 ^ 64" "length pos < 2 ^ 64"
  shows "rps_abs (set_rows len (neg, pos)) = (neg, pos)"
proof -
  have "unat (of_nat (length neg) :: u64) = length neg" "unat (of_nat (length pos) :: u64) = length pos"
    using assms by (simp_all add: unat_of_nat)
  then show ?thesis by (simp add: rps_abs_def set_rows_def padded_def zip_map_fst_snd)
qed

definition rows_of :: "nat \<Rightarrow> (int \<times> bool) list \<Rightarrow> rows" where
  "rows_of len xs = (padded len 0 (map fst xs), padded len False (map snd xs), length xs)"

lemma padded_update: "length xs < len \<Longrightarrow> (padded len z xs)[length xs := x] = padded len z (xs @ [x])"
proof -
  assume "length xs < len"
  then have "replicate (len - length xs) z = z # replicate (len - Suc (length xs)) z"
    by (metis Suc_diff_Suc replicate_Suc)
  then show ?thesis by (simp add: padded_def list_update_append)
qed

lemma put_entry_rows:
  "length xs < len \<Longrightarrow> put_entry d b (rows_of len xs) = Inr (rows_of len (xs @ [(d, b)]))"
  using padded_update [of "map fst xs" len 0 d] padded_update [of "map snd xs" len False b]
  by (simp add: put_entry_def rows_of_def length_padded)

lemma fold_inter_step:
  assumes "\<And>j. j \<in> set js \<Longrightarrow> j < length row \<and> row ! j = fst (entries ! j) \<and>
      in_i64 (fst (entries ! j) + delta) \<and> off + j < length flags"
    and "length xs + length js \<le> len"
  shows "fold_res (inter_step row off keep delta (map fst flags) (map snd flags)) js (rows_of len xs) =
    Inr (rows_of len (xs @ shifted keep delta flags entries off js))"
  using assms
proof (induction js arbitrary: xs)
  case (Cons j js)
  let ?new = "shifted keep delta flags entries off [j]"
  have "inter_step row off keep delta (map fst flags) (map snd flags) j (rows_of len xs) = Inr (rows_of len (xs @ ?new))"
    using Cons.prems(1) [of j] Cons.prems(2)
    by (simp add: inter_step_def idx_def checked_i64_def shifted_def put_entry_rows)
  moreover have "length (xs @ ?new) + length js \<le> len"
    using Cons.prems(2) by (simp add: shifted_def)
  ultimately have "fold_res (inter_step row off keep delta (map fst flags) (map snd flags)) (j # js) (rows_of len xs) =
      Inr (rows_of len ((xs @ ?new) @ shifted keep delta flags entries off js))"
    using Cons.IH [of "xs @ ?new"] Cons.prems(1) by simp
  then show ?case by (simp add: shifted_def)
qed (simp add: shifted_def)

lemma inter_own_rows:
  "n < length flags \<Longrightarrow> length xs < len \<Longrightarrow>
     inter_own n keep delta (map fst flags) (map snd flags) (rows_of len xs) =
       Inr (rows_of len (xs @ own_entry keep delta flags n))"
  by (simp add: inter_own_def own_entry_def idx_def put_entry_rows)

lemma length_shifted: "length (shifted keep delta flags entries off js) \<le> length js"
  by (simp add: shifted_def)

lemma length_own: "length (own_entry keep delta flags n) \<le> 1"
  by (simp add: own_entry_def)

text \<open>The three passes that fill the vectors of one sign.\<close>

lemma inter_pass:
  assumes "\<And>j. j \<in> set js \<Longrightarrow> j < length row \<and> row ! j = fst (entries ! j) \<and>
      in_i64 (fst (entries ! j) + delta) \<and> off + j < length flags"
    and "\<And>j. j \<in> set js' \<Longrightarrow> j < length row' \<and> row' ! j = fst (entries' ! j) \<and>
      in_i64 (fst (entries' ! j) + delta) \<and> off' + j < length flags"
    and n: "n < length flags" and len: "length js + length js' + 1 \<le> len"
  shows "rbind (fold_res (inter_step row off keep delta (map fst flags) (map snd flags)) js (rows_of len [])) (\<lambda>rows.
     rbind (inter_own n keep delta (map fst flags) (map snd flags) rows) (\<lambda>rows.
     fold_res (inter_step row' off' keep delta (map fst flags) (map snd flags)) js' rows)) =
   Inr (rows_of len (shifted keep delta flags entries off js @ own_entry keep delta flags n @
     shifted keep delta flags entries' off' js'))"
proof -
  let ?a = "shifted keep delta flags entries off js" and ?o = "own_entry keep delta flags n"
  have a: "length ?a \<le> length js" "length ?o \<le> 1" by (rule length_shifted, rule length_own)
  have "fold_res (inter_step row off keep delta (map fst flags) (map snd flags)) js (rows_of len []) = Inr (rows_of len ([] @ ?a))"
    by (rule fold_inter_step) (use assms(1) len in auto)
  moreover have "inter_own n keep delta (map fst flags) (map snd flags) (rows_of len ?a) = Inr (rows_of len (?a @ ?o))"
    by (rule inter_own_rows) (use n a len in auto)
  moreover have "fold_res (inter_step row' off' keep delta (map fst flags) (map snd flags)) js' (rows_of len (?a @ ?o)) =
      Inr (rows_of len ((?a @ ?o) @ shifted keep delta flags entries' off' js'))"
    by (rule fold_inter_step) (use assms(2) a len in auto)
  ultimately show ?thesis by simp
qed

lemma length_derive:
  "length (fst (derive (neg, pos) delta flags)) \<le> length neg + length pos + 1"
  "length (snd (derive (neg, pos) delta flags)) \<le> length neg + length pos + 1"
  using length_shifted [of "\<lambda>d. d < 0" delta flags pos "length neg" "rev [0..<length pos]"]
    length_shifted [of "\<lambda>d. d < 0" delta flags neg 0 "[0..<length neg]"]
    length_shifted [of "\<lambda>d. d > 0" delta flags pos "length neg" "[0..<length pos]"]
    length_shifted [of "\<lambda>d. d > 0" delta flags neg 0 "rev [0..<length neg]"]
    length_own [of "\<lambda>d. d < 0" delta flags "length neg + length pos"]
    length_own [of "\<lambda>d. d > 0" delta flags "length neg + length pos"]
  by (simp_all add: derive_def Let_def)

lemma inter_refines:
  assumes r: "r = set_rows len0 (neg, pos)" and ok: "rps_ok k (neg, pos)" and k: "k \<le> 64"
    and delta: "\<bar>delta\<bar> \<le> 2 ^ 15" and flags: "length flags = length neg + length pos + 1"
  shows "inter_s0 r delta (map fst flags) (map snd flags) (rows_of (length flags) []) =
      Inr (rows_of (length flags) (fst (derive (neg, pos) delta flags)))"
    and "inter_s1 r delta (map fst flags) (map snd flags) (rows_of (length flags) []) =
      Inr (rows_of (length flags) (snd (derive (neg, pos) delta flags)))"
proof -
  have len: "length neg \<le> 16" "length pos \<le> 16 + 17 * 64"
    using ok k by (auto simp: rps_ok_def)
  then have n: "unat (num_negative r) = length neg" "unat (num_positive r) = length pos"
    "unat (num_delta r) = length neg + length pos"
    by (simp_all add: r set_rows_def unat_of_nat del: of_nat_add)
  have small: "in_i64 (fst x + delta)" if "x \<in> set neg \<union> set pos" for x
  proof -
    have "\<bar>fst x\<bar> \<le> (16 + int k) * 2 ^ 15" using ok that by (auto simp: rps_ok_def)
    moreover have "(16 + int k) * 2 ^ 15 \<le> 80 * 2 ^ 15" using k by simp
    ultimately show ?thesis using delta by (simp add: in_i64_def abs_le_iff)
  qed
  have row0: "j < length (poc_s0 r) \<and> poc_s0 r ! j = fst (neg ! j) \<and> in_i64 (fst (neg ! j) + delta)" if "j < length neg" for j
    using that small [of "neg ! j"] by (simp add: r set_rows_def padded_def nth_append)
  have row1: "j < length (poc_s1 r) \<and> poc_s1 r ! j = fst (pos ! j) \<and> in_i64 (fst (pos ! j) + delta)" if "j < length pos" for j
    using that small [of "pos ! j"] by (simp add: r set_rows_def padded_def nth_append)
  show "inter_s0 r delta (map fst flags) (map snd flags) (rows_of (length flags) []) =
      Inr (rows_of (length flags) (fst (derive (neg, pos) delta flags)))"
    unfolding inter_s0_def n derive_def Let_def prod.case fst_conv
    by (rule inter_pass) (use row0 row1 flags in auto)
  show "inter_s1 r delta (map fst flags) (map snd flags) (rows_of (length flags) []) =
      Inr (rows_of (length flags) (snd (derive (neg, pos) delta flags)))"
    unfolding inter_s1_def n derive_def Let_def prod.case snd_conv
    by (rule inter_pass) (use row0 row1 flags in auto)
qed

subsection \<open>Bounds\<close>

lemma uint_15:
  assumes "unat (a :: u64) \<le> 2 ^ 15 - 1"
  shows "0 \<le> uint a \<and> uint a \<le> 32767"
proof -
  have "int (unat a) \<le> int (2 ^ 15 - 1)" using assms by (simp only: of_nat_le_iff)
  then show ?thesis by (simp only: uint_nat [symmetric]) simp
qed

lemma abs_step:
  fixes p u :: int
  assumes "0 \<le> u \<and> u \<le> 32767"
  shows "\<bar>p - (u + 1)\<bar> \<le> \<bar>p\<bar> + 2 ^ 15" "\<bar>p + (u + 1)\<bar> \<le> \<bar>p\<bar> + 2 ^ 15"
  using assms by (auto simp: abs_if)

lemma delta_of_bound: "unat a \<le> 2 ^ 15 - 1 \<Longrightarrow> \<bar>delta_of sign a\<bar> \<le> 2 ^ 15"
proof -
  assume "unat a \<le> 2 ^ 15 - 1"
  from abs_step [OF uint_15 [OF this], of 0] show ?thesis
    by (cases sign) (simp_all add: delta_of_def)
qed

lemma shifted_bound:
  assumes "x \<in> set (shifted keep delta flags entries off js)" and "\<forall>j \<in> set js. j < length entries"
    and "\<forall>e \<in> set entries. \<bar>fst e\<bar> \<le> b" and "\<bar>delta\<bar> \<le> d"
  shows "keep (fst x) \<and> \<bar>fst x\<bar> \<le> b + d"
proof -
  obtain j where j: "j \<in> set js" "keep (fst (entries ! j) + delta)" "fst x = fst (entries ! j) + delta"
    using assms(1) by (auto simp: shifted_def)
  with assms(2,3) have "\<bar>fst (entries ! j)\<bar> \<le> b" by simp
  with j assms(4) show ?thesis by simp
qed

lemma own_bound: "x \<in> set (own_entry keep delta flags n) \<Longrightarrow> keep (fst x) \<and> fst x = delta"
  by (auto simp: own_entry_def split: if_splits)

lemma pass_bound:
  assumes "x \<in> set (shifted keep delta flags entries off js @ own_entry keep delta flags n @ shifted keep delta flags entries' off' js')"
    and "\<forall>j \<in> set js. j < length entries" and "\<forall>j \<in> set js'. j < length entries'"
    and "\<forall>e \<in> set entries \<union> set entries'. \<bar>fst e\<bar> \<le> b" and "0 \<le> b" and "\<bar>delta\<bar> \<le> d"
  shows "keep (fst x) \<and> \<bar>fst x\<bar> \<le> b + d"
proof -
  consider "x \<in> set (shifted keep delta flags entries off js)" | "x \<in> set (own_entry keep delta flags n)"
    | "x \<in> set (shifted keep delta flags entries' off' js')"
    using assms(1) by auto
  then show ?thesis
  proof cases
    case 1
    show ?thesis by (rule shifted_bound [OF 1 assms(2) _ assms(6)]) (use assms(4) in auto)
  next
    case 2
    with own_bound [OF 2] assms(5,6) show ?thesis by auto
  next
    case 3
    show ?thesis by (rule shifted_bound [OF 3 assms(3) _ assms(6)]) (use assms(4) in auto)
  qed
qed

lemma derive_bound:
  assumes "rps_ok k (neg, pos)" and "\<bar>delta\<bar> \<le> 2 ^ 15"
  shows "x \<in> set (fst (derive (neg, pos) delta flags)) \<Longrightarrow> fst x < 0 \<and> \<bar>fst x\<bar> \<le> (16 + int k) * 2 ^ 15 + 2 ^ 15"
    and "x \<in> set (snd (derive (neg, pos) delta flags)) \<Longrightarrow> 0 < fst x \<and> \<bar>fst x\<bar> \<le> (16 + int k) * 2 ^ 15 + 2 ^ 15"
proof -
  have b: "\<forall>e \<in> set pos \<union> set neg. \<bar>fst e\<bar> \<le> (16 + int k) * 2 ^ 15" "\<forall>e \<in> set neg \<union> set pos. \<bar>fst e\<bar> \<le> (16 + int k) * 2 ^ 15"
    using assms(1) by (auto simp: rps_ok_def)
  show "x \<in> set (fst (derive (neg, pos) delta flags)) \<Longrightarrow> fst x < 0 \<and> \<bar>fst x\<bar> \<le> (16 + int k) * 2 ^ 15 + 2 ^ 15"
    unfolding derive_def Let_def prod.case fst_conv
    by (erule pass_bound) (use b assms(2) in simp_all)
  show "x \<in> set (snd (derive (neg, pos) delta flags)) \<Longrightarrow> 0 < fst x \<and> \<bar>fst x\<bar> \<le> (16 + int k) * 2 ^ 15 + 2 ^ 15"
    unfolding derive_def Let_def prod.case snd_conv
    by (erule pass_bound) (use b assms(2) in simp_all)
qed

lemma rps_ok_derive:
  assumes "rps_ok k (neg, pos)" and "\<bar>delta\<bar> \<le> 2 ^ 15" and "length (fst (derive (neg, pos) delta flags)) \<le> 16"
  shows "rps_ok (Suc k) (derive (neg, pos) delta flags)"
proof -
  obtain n p where np: "derive (neg, pos) delta flags = (n, p)" by (cases "derive (neg, pos) delta flags")
  have "length p \<le> 16 + 17 * Suc k"
    using length_derive(2) [of neg pos delta flags] assms(1) by (simp add: rps_ok_def np)
  moreover have "\<bar>fst x\<bar> \<le> (16 + int (Suc k)) * 2 ^ 15" if "x \<in> set n \<union> set p" for x
    using that derive_bound [OF assms(1,2), of x flags] by (auto simp: np)
  moreover have "fst x < 0" if "x \<in> set n" for x
    using that derive_bound(1) [OF assms(1,2), of x flags] by (simp add: np)
  moreover have "0 < fst x" if "x \<in> set p" for x
    using that derive_bound(2) [OF assms(1,2), of x flags] by (simp add: np)
  ultimately show ?thesis using assms(3) by (simp add: rps_ok_def np)
qed

lemma pocs_value_length [simp]: "length (pocs_value step prev ds) = length ds"
  by (induction step prev ds rule: pocs_value.induct) (simp_all add: Let_def)

lemma pocs_value_bound:
  assumes "step = (-) \<or> step = (+)"
  shows "list_all (\<lambda>(d, _). unat d \<le> 2 ^ 15 - 1) ds \<Longrightarrow> x \<in> set (pocs_value step prev ds) \<Longrightarrow>
    \<bar>fst x\<bar> \<le> \<bar>prev\<bar> + int (length ds) * 2 ^ 15"
proof (induction ds arbitrary: prev)
  case (Cons e ds)
  obtain d used where e: "e = (d, used)" by (cases e)
  with Cons.prems have "0 \<le> uint d \<and> uint d \<le> 32767" by (intro uint_15) simp
  from abs_step [OF this, of prev] have "\<bar>step prev (uint d + 1)\<bar> \<le> \<bar>prev\<bar> + 2 ^ 15" using assms by blast
  with Cons e show ?case by (force simp: Let_def algebra_simps)
qed simp

lemma pocs_value_sign:
  "list_all (\<lambda>(d, _). unat d \<le> 2 ^ 15 - 1) ds \<Longrightarrow> prev \<le> 0 \<Longrightarrow> x \<in> set (pocs_value (-) prev ds) \<Longrightarrow> fst x < 0"
  "list_all (\<lambda>(d, _). unat d \<le> 2 ^ 15 - 1) ds \<Longrightarrow> 0 \<le> prev \<Longrightarrow> x \<in> set (pocs_value (+) prev ds) \<Longrightarrow> 0 < fst x"
proof (induction ds arbitrary: prev)
  case (Cons e ds)
  { case 1
    obtain d used where e: "e = (d, used)" by (cases e)
    have "0 \<le> uint d" by simp
    with 1 have "prev - (uint d + 1) < 0" by linarith
    with 1 Cons.IH(1) [of "prev - (uint d + 1)"] show ?case by (auto simp: e Let_def) }
  { case 2
    obtain d used where e: "e = (d, used)" by (cases e)
    have "0 \<le> uint d" by simp
    with 2 have "0 < prev + (uint d + 1)" by linarith
    with 2 Cons.IH(2) [of "prev + (uint d + 1)"] show ?case by (auto simp: e Let_def) }
qed simp_all

lemma rps_ok_of:
  assumes "rps_syntax_ok layer max_dec first prev s" and "rps_ok k prev" and "unat max_dec \<le> 16"
  shows "rps_ok (Suc k) (rps_of prev s)"
proof (cases s)
  case (Explicit ns ps)
  then have s: "length ns \<le> 16" "length ps \<le> 16" "list_all (\<lambda>(d, _). unat d \<le> 2 ^ 15 - 1) ns" "list_all (\<lambda>(d, _). unat d \<le> 2 ^ 15 - 1) ps"
    using assms by (auto simp: max_pics_def split: if_splits)
  have "\<bar>fst x\<bar> \<le> (16 + int (Suc k)) * 2 ^ 15" if "x \<in> set (pocs_value (-) 0 ns) \<union> set (pocs_value (+) 0 ps)" for x
    using that pocs_value_bound [of "(-)" ns x 0] pocs_value_bound [of "(+)" ps x 0] s by force
  moreover have "fst x < 0" if "x \<in> set (pocs_value (-) 0 ns)" for x
    by (rule pocs_value_sign(1) [OF s(3) _ that]) simp
  moreover have "0 < fst x" if "x \<in> set (pocs_value (+) 0 ps)" for x
    by (rule pocs_value_sign(2) [OF s(4) _ that]) simp
  ultimately show ?thesis using s Explicit by (simp add: rps_ok_def)
next
  case (Inter sign a flags)
  with assms show ?thesis
    by (cases prev) (auto intro!: rps_ok_derive delta_of_bound)
qed

lemma unat_num_delta:
  "rps_ok k (neg, pos) \<Longrightarrow> k \<le> 64 \<Longrightarrow> unat (num_delta (set_rows len (neg, pos))) = length neg + length pos"
  by (simp add: set_rows_def rps_ok_def unat_of_nat del: of_nat_add)

text \<open>Filling the vectors: the one check that can fail is on the pictures before.\<close>

lemma inter_fill_eq:
  assumes ok: "rps_ok k (neg, pos)" and k: "k \<le> 64" and delta: "\<bar>delta\<bar> \<le> 2 ^ 15"
    and flags: "length flags = length neg + length pos + 1"
  shows "inter_fill (set_rows len0 (neg, pos)) delta flags =
    (if length (fst (derive (neg, pos) delta flags)) \<le> 16 then ret (set_rows (length flags) (derive (neg, pos) delta flags))
     else fail (IoErr InvalidData ''num_negative_pics[st_rps_idx]''))"
proof -
  obtain n p where np: "derive (neg, pos) delta flags = (n, p)" by (cases "derive (neg, pos) delta flags")
  have len: "unat (num_delta (set_rows len0 (neg, pos))) + 1 = length flags"
    using unat_num_delta [OF ok k] flags by simp
  have rows: "(replicate (length flags) 0, replicate (length flags) False, 0) = rows_of (length flags) []"
    by (simp add: rows_of_def padded_def)
  note run = inter_refines [OF refl ok k delta flags, of len0, unfolded np fst_conv snd_conv]
  have "length n \<le> 2000" "length p \<le> 2000"
    using length_derive [of neg pos delta flags] ok k by (simp_all add: np rps_ok_def)
  then have num: "unat (of_nat (length n) :: u64) = length n" "unat (of_nat (length p) :: u64) = length p"
    and sum: "checked_add (of_nat (length n)) (of_nat (length p) :: u64) = Inr (of_nat (length n + length p))"
    by (simp_all add: unat_of_nat checked_add_def)
  show ?thesis
    unfolding inter_fill_def Let_def len rows np
    by (simp only: run bnd_lift)
      (simp add: rows_of_def bnd_range_check num sum set_rows_def word_le_nat_alt del: of_nat_add)
qed

subsection \<open>The parser decodes and derives\<close>

context byte_source
begin

lemma dec_pocs:
  assumes step: "step = (-) \<or> step = (+)"
  shows "list_all (\<lambda>(d, _). unat d \<le> 2 ^ 15 - 1) ds \<Longrightarrow> \<bar>prev\<bar> + int (length ds) * 2 ^ 15 \<le> 2 ^ 40 \<Longrightarrow>
    dec (pocs_parse rd what step (length ds) prev) (concat (map (\<lambda>(d, used). eg_bits d @ [used]) ds)) (pocs_value step prev ds)"
proof (induction ds arbitrary: prev)
  case (Cons e ds)
  obtain d used where e: "e = (d, used)" by (cases e)
  from Cons.prems e have d: "unat d \<le> 2 ^ 15 - 1" by simp
  let ?p = "step prev (uint d + 1)"
  have "\<bar>?p\<bar> \<le> \<bar>prev\<bar> + 2 ^ 15"
    using abs_step [OF uint_15 [OF d], of prev] step by blast
  moreover from this Cons.prems(2) have "in_i64 ?p" by (simp add: in_i64_def abs_le_iff)
  ultimately have "dec (pocs_parse rd what step (length ds) ?p) (concat (map (\<lambda>(d, used). eg_bits d @ [used]) ds)) (pocs_value step ?p ds)"
    and p: "checked_i64 ?p = Inr ?p"
    using Cons by (simp_all add: checked_i64_def)
  note tl = decodes_last [OF this(1)]
  have "eg_ok d" "d \<le> 2 ^ 15 - 1" using d by (simp_all add: eg_ok_unat word_le_nat_alt)
  then have "dec (pocs_parse rd what step (Suc (length ds)) prev)
      (eg_bits d @ used # concat (map (\<lambda>(d, used). eg_bits d @ [used]) ds)) ((?p, used) # pocs_value step ?p ds)"
    unfolding pocs_parse.simps
    by (intro decodes_bnd [OF dec_read_exp_golomb] decodes_range_check) (simp_all add: p dec_bit_step tl decodes_end)
  then show ?case by (simp add: e Let_def)
qed (simp add: decodes_ret)

lemma dec_inter_flags:
  "list_all (\<lambda>(used, use). used \<longrightarrow> use) flags \<Longrightarrow>
     dec (times_io (length flags) (inter_flag_parse rd))
       (concat (map (\<lambda>(used, use). used # (if used then [] else [use])) flags)) flags"
  by (intro decodes_times)
    (auto simp: list_all_iff inter_flag_parse_def coding decodes_ret split: prod.splits)

lemma dec_inter:
  assumes s: "rps_syntax_ok layer max_dec False (neg, pos) (Inter sign a flags)"
    and ok': "rps_ok k (neg, pos)" and k: "k < 64"
  shows "dec (inter_parse rd (set_rows len0 (neg, pos)))
    (sign # eg_bits a @ concat (map (\<lambda>(used, use). used # (if used then [] else [use])) flags))
    (set_rows (length flags) (derive (neg, pos) (delta_of sign a) flags))"
proof -
  let ?delta = "delta_of sign a" and ?r = "set_rows len0 (neg, pos)"
  from s have a: "unat a \<le> 2 ^ 15 - 1" and flags: "length flags = length neg + length pos + 1"
    and use: "list_all (\<lambda>(used, use). used \<longrightarrow> use) flags" and n16: "length (fst (derive (neg, pos) ?delta flags)) \<le> 16"
    by simp_all
  have len: "unat (num_delta ?r) + 1 = length flags"
    using unat_num_delta [OF ok' less_imp_le [OF k]] flags by simp
  have "eg_ok a" "a \<le> 2 ^ 15 - 1" using a by (simp_all add: eg_ok_unat word_le_nat_alt)
  then show ?thesis
    unfolding inter_parse_def Let_def len delta_of_def [symmetric]
    by (intro dec_bit_step decodes_bnd [OF dec_read_exp_golomb] decodes_range_check decodes_last [OF dec_inter_flags [OF use]])
      (simp_all add: inter_fill_eq [OF ok' less_imp_le [OF k] delta_of_bound [OF a] flags] n16 decodes_ret)
qed

lemma dec_explicit:
  assumes s: "rps_syntax_ok layer max_dec first prev (Explicit ns ps)" and m: "unat max_dec \<le> 16"
  shows "dec (explicit_parse rd layer max_dec)
    (eg_bits (of_nat (length ns)) @ eg_bits (of_nat (length ps)) @
     concat (map (\<lambda>(d, used). eg_bits d @ [used]) ns) @ concat (map (\<lambda>(d, used). eg_bits d @ [used]) ps))
    (set_rows 0 (pocs_value (-) 0 ns, pocs_value (+) 0 ps))"
proof -
  let ?n = "of_nat (length ns) :: u64" and ?p = "of_nat (length ps) :: u64"
  have len: "length ns \<le> 16" "length ps \<le> 16" and d: "list_all (\<lambda>(d, _). unat d \<le> 2 ^ 15 - 1) ns" "list_all (\<lambda>(d, _). unat d \<le> 2 ^ 15 - 1) ps"
    using s m by (auto simp: max_pics_def split: if_splits)
  then have n: "unat ?n = length ns" "unat ?p = length ps" by (simp_all add: unat_of_nat)
  have bounds: "?n \<le> (if layer = 0 then max_dec else 16)"
    "?p \<le> (if layer = 0 then (if ?n \<le> max_dec then max_dec - ?n else 0) else 16)"
    using s by (auto simp: word_le_nat_alt n unat_sub max_pics_def)
  have sum: "checked_add ?n ?p = Inr (of_nat (length ns + length ps))"
    using len by (simp add: checked_add_def n)
  have "dec (pocs_parse rd ''delta_poc_s0_minus1'' (-) (unat ?n) 0) (concat (map (\<lambda>(d, used). eg_bits d @ [used]) ns)) (pocs_value (-) 0 ns)"
    and "dec (pocs_parse rd ''delta_poc_s1_minus1'' (+) (unat ?p) 0) (concat (map (\<lambda>(d, used). eg_bits d @ [used]) ps)) (pocs_value (+) 0 ps)"
    unfolding n using d len by (auto intro!: dec_pocs)
  note pocs = decodes_bnd [OF this(1)] decodes_last [OF this(2)]
  have "eg_ok ?n" "eg_ok ?p" using len by (simp_all add: eg_ok_unat n)
  then show ?thesis
    unfolding explicit_parse_def
    by (intro decodes_bnd [OF dec_read_exp_golomb] decodes_range_check pocs bounds)
      (simp_all add: sum set_rows_def padded_def decodes_end)
qed

lemma dec_st_rps_loop:
  "rpss_ok layer max_dec first prev ss \<Longrightarrow> rps_ok k prev \<Longrightarrow> k + length ss \<le> 64 \<Longrightarrow> unat max_dec \<le> 16 \<Longrightarrow>
     po = (if first then None else Some (set_rows len prev)) \<Longrightarrow>
     dec (st_rps_loop rd layer max_dec (length ss) po) (rpss_bits first ss) (sets_value prev ss)"
proof (induction ss arbitrary: first prev k po len)
  case (Cons s ss)
  have s: "rps_syntax_ok layer max_dec first prev s" using Cons.prems(1) by simp
  note m = Cons.prems(4) and po = Cons.prems(5)
  have "dec (st_rps_parse rd layer max_dec po) (rps_bits first s) (set_rows (row_length s) (rps_of prev s))"
  proof (cases s)
    case (Explicit ns ps)
    note e = dec_explicit [OF s [unfolded Explicit] m]
    show ?thesis
      using e by (cases first) (simp_all add: po Explicit st_rps_parse_def dec_bit_step)
  next
    case (Inter sign a flags)
    obtain neg pos where p: "prev = (neg, pos)" by (cases prev)
    have "\<not> first" using s Inter by simp
    moreover have "k < 64" using Cons.prems(3) by simp
    ultimately show ?thesis
      using dec_inter [of layer max_dec neg pos sign a flags k len] s Inter p Cons.prems(2)
      by (simp add: po st_rps_parse_def dec_bit_step)
  qed
  moreover have "dec (st_rps_loop rd layer max_dec (length ss) (Some (set_rows (row_length s) (rps_of prev s))))
      (rpss_bits False ss) (sets_value (rps_of prev s) ss)"
    by (rule Cons.IH [of False _ "Suc k" _ "row_length s"])
      (use Cons.prems rps_ok_of [OF s Cons.prems(2) m] in auto)
  ultimately show ?case
    by (simp only: list.size(4) add_0_right add_Suc_right st_rps_loop.simps rpss_bits.simps sets_value.simps)
      (intro decodes_bnd decodes_last decodes_end refl | assumption)+
qed (simp add: decodes_ret)

lemma dec_st_rps_sets:
  assumes "rpss_ok layer max_dec True ([], []) ss" and "length ss \<le> 64" and "unat max_dec \<le> 16"
  shows "dec (st_rps_loop rd layer max_dec (length ss) None) (rpss_bits True ss) (sets_value ([], []) ss)"
  by (rule dec_st_rps_loop [OF assms(1) _ _ assms(3), where k = 0]) (use assms(2) in \<open>simp_all add: rps_ok_def\<close>)

lemma dec_short_term_ref_pic_sets:
  assumes "rpss_ok layer max_dec True ([], []) ss" and "length ss \<le> 64" and "unat max_dec \<le> 16"
  shows "dec (short_term_ref_pic_sets_parse rd (length ss) layer max_dec) (rpss_bits True ss)
    (short_term_sets (sets_value ([], []) ss))"
  unfolding short_term_ref_pic_sets_parse_def
  by (rule decodes_last [OF dec_st_rps_sets [OF assms]]) (simp add: decodes_end)

end

text \<open>The sets the vectors stand for.\<close>

lemma sets_value_abs:
  "rpss_ok layer max_dec first prev ss \<Longrightarrow> rps_ok k prev \<Longrightarrow> k + length ss \<le> 64 \<Longrightarrow> unat max_dec \<le> 16 \<Longrightarrow>
     map rps_abs (sets_value prev ss) = rps_value prev ss \<and> list_all (\<lambda>r. rps_ok 64 r) (rps_value prev ss)"
proof (induction ss arbitrary: first prev k)
  case (Cons s ss)
  have ok': "rps_ok (Suc k) (rps_of prev s)" by (rule rps_ok_of [where layer = layer and max_dec = max_dec and first = first]) (use Cons.prems in simp_all)
  obtain neg pos where np: "rps_of prev s = (neg, pos)" by (cases "rps_of prev s")
  have "rps_ok 64 (neg, pos)"
  proof -
    have "(16 + int (Suc k)) * 2 ^ 15 \<le> (16 + int 64) * 2 ^ 15" using Cons.prems(3) by simp
    with ok' Cons.prems(3) show ?thesis by (force simp: np rps_ok_def)
  qed
  moreover have "length neg < 2 ^ 64" "length pos < 2 ^ 64"
    using ok' Cons.prems(3) by (simp_all add: np rps_ok_def)
  moreover have "map rps_abs (sets_value (neg, pos) ss) = rps_value (neg, pos) ss \<and> list_all (\<lambda>r. rps_ok 64 r) (rps_value (neg, pos) ss)"
    by (rule Cons.IH [where first = False and k = "Suc k"]) (use Cons.prems ok' np in simp_all)
  ultimately show ?case by (simp add: np rps_abs_set_rows Let_def)
qed simp

text \<open>
  C9. Short-term reference picture sets: on the bit string of up to 64 sets that obey the
  ranges of the standard, sent outright or predicted from the set before, the parser reads
  exactly those bits and never indexes out of range or overflows; what its vectors hold is
  the list of sets that equations (7-61) to (7-70) of the standard derive.
\<close>

theorem st_rps_refines:
  assumes "byte_source rd unread ok" and "reader_ok ok s"
    and "rpss_ok layer max_dec True ([], []) ss" and "length ss \<le> 64" and "unat max_dec \<le> 16"
    and "rest_bits unread s = rpss_bits True ss @ rest"
  shows "\<exists>rs s'. st_rps_loop rd layer max_dec (length ss) None s = (Inr rs, s') \<and>
    rest_bits unread s' = rest \<and> map rps_abs rs = rps_value ([], []) ss"
proof -
  have ok0: "rps_ok 0 ([], [])" by (simp add: rps_ok_def)
  from decodesE [OF byte_source.dec_st_rps_sets [OF assms(1,3-5)] assms(2,6)]
  obtain s' where "st_rps_loop rd layer max_dec (length ss) None s = (Inr (sets_value ([], []) ss), s')"
    "rest_bits unread s' = rest" .
  with sets_value_abs [OF assms(3) ok0 _ assms(5)] assms(4) show ?thesis by auto
qed

text \<open>Three pictures sent outright, then a set that shifts them by one and drops the last.\<close>

definition rps_sample :: "rps_syntax list" where
  "rps_sample = [Explicit [(0, True), (1, True)] [(2, False)],
     Inter False 0 [(True, True), (False, True), (True, True), (False, False)]]"

lemma rps_sample_ok: "rpss_ok 0 4 True ([], []) rps_sample"
  by (simp add: rps_sample_def max_pics_def derive_def shifted_def own_entry_def delta_of_def Let_def)

lemma rps_sample_value: "rps_value ([], []) rps_sample =
    [([(- 1, True), (- 3, True)], [(3, False)]), ([(- 2, False)], [(4, True)])]"
  by (simp add: rps_sample_def derive_def shifted_def own_entry_def delta_of_def Let_def)

lemma rest_bits_sample: "rest_bits cursor_rest (bit_reader_new (cursor_new (pack_bits bs))) =
    bs @ replicate (pad_len (length bs)) False"
  by (simp add: byte_bits_pack)

theorem st_rps_refines_witness:
  "\<exists>rs s'. st_rps_loop cursor_read 0 4 2 None (bit_reader_new (cursor_new (pack_bits (rpss_bits True rps_sample)))) = (Inr rs, s') \<and>
    map rps_abs rs = [([(- 1, True), (- 3, True)], [(3, False)]), ([(- 2, False)], [(4, True)])]"
proof -
  have len: "length rps_sample = 2" by (simp add: rps_sample_def)
  from st_rps_refines [OF cur.byte_source_axioms _ rps_sample_ok _ _ rest_bits_sample]
  show ?thesis unfolding len rps_sample_value by force
qed

subsection \<open>On any input\<close>

text \<open>
  What the loop keeps of the sets it has read: zeroed rows filled from the front, as many
  entries as counted, and distances far inside 64 bits.
\<close>

definition rps_rows :: "nat \<Rightarrow> st_rps \<Rightarrow> bool" where
  "rps_rows k r \<longleftrightarrow> (\<exists>len np. r = set_rows len np \<and> rps_ok k np)"

text \<open>An error of the parser that is not one of indices or of signed arithmetic.\<close>

definition no_index_panic :: "err \<Rightarrow> bool" where
  "no_index_panic e \<longleftrightarrow> e \<notin> {Panic ''index out of bounds'', Panic ''i64 overflow''}"

lemma yields_pocs:
  assumes "step = (-) \<and> keep = (\<lambda>d. d < 0) \<or> step = (+) \<and> keep = (\<lambda>d. 0 < d)" and "prev = 0 \<or> keep prev"
  shows "yields (pocs_parse rd what step n prev)
    (\<lambda>ps. length ps = n \<and> (\<forall>x \<in> set ps. keep (fst x) \<and> \<bar>fst x\<bar> \<le> \<bar>prev\<bar> + int n * 2 ^ 15))"
  using assms(2)
proof (induction n arbitrary: prev)
  case (Suc n)
  have step: "\<bar>step prev (uint d + 1)\<bar> \<le> \<bar>prev\<bar> + 2 ^ 15" if "d \<le> 2 ^ 15 - 1" for d :: u64
    using abs_step [OF uint_15, of d prev] that assms(1) by (auto simp: word_le_nat_alt)
  have keep: "keep (step prev (uint d + 1))" for d :: u64
  proof -
    have "keep (step prev (u + 1))" if "0 \<le> u" for u :: int using that Suc.prems assms(1) by auto
    then show ?thesis by simp
  qed
  have checked: "q = p" if "checked_i64 p = Inr q" for p q
    using that by (simp add: checked_i64_def split: if_splits)
  show ?case
    unfolding pocs_parse.simps
  proof (intro yields_eg_step yields_range_check_step yields_lift_step yields_bit_step)
    fix d :: u64 and poc used
    assume d: "d \<le> 2 ^ 15 - 1" and poc: "checked_i64 (step prev (uint d + 1)) = Inr poc"
    have p: "keep poc" "\<bar>poc\<bar> \<le> \<bar>prev\<bar> + 2 ^ 15"
      using keep [of d] step [OF d] checked [OF poc] by simp_all
    from this(1) have "prev = 0 \<or> keep prev \<Longrightarrow> yields (pocs_parse rd what step n poc)
        (\<lambda>ps. length ps = n \<and> (\<forall>x \<in> set ps. keep (fst x) \<and> \<bar>fst x\<bar> \<le> \<bar>poc\<bar> + int n * 2 ^ 15))"
      by (intro Suc.IH) simp
    note rest = yields_bnd [OF this [OF Suc.prems]]
    show "yields (bnd (pocs_parse rd what step n poc) (\<lambda>ps. ret ((poc, used) # ps)))
        (\<lambda>ps. length ps = Suc n \<and> (\<forall>x \<in> set ps. keep (fst x) \<and> \<bar>fst x\<bar> \<le> \<bar>prev\<bar> + int (Suc n) * 2 ^ 15))"
      by (rule rest, rule yields_ret) (use p in \<open>fastforce simp: algebra_simps\<close>)
  qed
qed (simp add: yields_ret)

lemma fails_pocs:
  assumes rd: "source_fails rd no_index_panic" and step: "step = (-) \<or> step = (+)"
  shows "\<bar>prev\<bar> + int n * 2 ^ 15 \<le> 2 ^ 40 \<Longrightarrow> fails (pocs_parse rd what step n prev) no_index_panic"
proof (induction n arbitrary: prev)
  case (Suc n)
  have tail: "in_i64 (step prev (uint d + 1)) \<and> \<bar>step prev (uint d + 1)\<bar> + int n * 2 ^ 15 \<le> 2 ^ 40" if "d \<le> 2 ^ 15 - 1" for d :: u64
  proof -
    have "\<bar>step prev (uint d + 1)\<bar> \<le> \<bar>prev\<bar> + 2 ^ 15"
      using abs_step [OF uint_15, of d prev] that step by (auto simp: word_le_nat_alt)
    with Suc.prems have small: "\<bar>step prev (uint d + 1)\<bar> + int n * 2 ^ 15 \<le> 2 ^ 40" by (simp add: algebra_simps)
    moreover have "0 \<le> int n * 2 ^ 15" by simp
    ultimately have "\<bar>step prev (uint d + 1)\<bar> \<le> 2 ^ 40" by linarith
    with small show ?thesis by (simp add: in_i64_def abs_le_iff)
  qed
  show ?case
    unfolding pocs_parse.simps
    by (intro failing fails_steps [OF rd] Suc.IH fails_bnd [OF Suc.IH])
      (use tail in \<open>auto simp: checked_i64_def no_index_panic_def split: if_splits\<close>)
qed (simp add: fails_ret)

lemma rps_ok_mono: "rps_ok k r \<Longrightarrow> k \<le> k' \<Longrightarrow> rps_ok k' r"
proof -
  assume "rps_ok k r" "k \<le> k'"
  moreover from this(2) have "(16 + int k) * 2 ^ 15 \<le> (16 + int k') * 2 ^ 15" by simp
  ultimately show ?thesis by (cases r) (force simp: rps_ok_def)
qed

lemma rps_rows_mono: "rps_rows k r \<Longrightarrow> k \<le> k' \<Longrightarrow> rps_rows k' r"
  unfolding rps_rows_def by (metis rps_ok_mono)

lemma explicit_limits:
  assumes "unat max_dec \<le> 16" and "n \<le> (if layer = 0 then max_dec else 16)"
    and "p \<le> (if layer = 0 then (if n \<le> max_dec then max_dec - n else 0) else 16 :: u64)"
  shows "unat n \<le> 16" and "unat p \<le> 16"
  using assms by (auto simp: word_le_nat_alt unat_sub split: if_splits)

lemma uint_le_16: "unat (n :: u64) \<le> 16 \<Longrightarrow> uint n \<le> 16"
proof -
  assume "unat n \<le> 16"
  then have "int (unat n) \<le> int 16" by (simp only: of_nat_le_iff)
  then show ?thesis by (simp only: uint_nat [symmetric])
qed

lemma small_sum: "unat (n :: u64) \<le> 16 \<Longrightarrow> int (unat n) * 2 ^ 15 \<le> 16 * 2 ^ 15"
  using uint_le_16 by simp

lemma explicit_rows:
  assumes n: "unat n \<le> 16" "unat p \<le> 16" and d: "checked_add n p = Inr d"
    and len: "length s0 = unat n" "length s1 = unat p"
    and s0: "\<forall>x \<in> set s0. fst x < 0 \<and> \<bar>fst x\<bar> \<le> \<bar>0\<bar> + int (unat n) * 2 ^ 15"
    and s1: "\<forall>x \<in> set s1. 0 < fst x \<and> \<bar>fst x\<bar> \<le> \<bar>0\<bar> + int (unat p) * 2 ^ 15"
  shows "rps_rows k \<lparr>num_negative = n, num_positive = p, num_delta = d, poc_s0 = map fst s0, poc_s1 = map fst s1,
      used_s0 = map snd s0, used_s1 = map snd s1\<rparr>"
proof -
  have "\<bar>fst x\<bar> \<le> 16 * 2 ^ 15" if "x \<in> set s0 \<union> set s1" for x
  proof -
    have "\<bar>fst x\<bar> \<le> \<bar>0\<bar> + int (unat n) * 2 ^ 15 \<or> \<bar>fst x\<bar> \<le> \<bar>0\<bar> + int (unat p) * 2 ^ 15" using that s0 s1 by blast
    with small_sum [OF n(1)] small_sum [OF n(2)] show ?thesis by linarith
  qed
  then have "rps_ok 0 (s0, s1)" using n len s0 s1 by (simp add: rps_ok_def)
  then have "rps_ok k (s0, s1)" by (rule rps_ok_mono) simp
  moreover have "n = of_nat (length s0)" "p = of_nat (length s1)" by (simp_all add: len)
  moreover have "d = n + p" using d by (auto simp: checked_add_def split: if_splits)
  ultimately show ?thesis
    unfolding rps_rows_def by (intro exI [of _ 0] exI [of _ "(s0, s1)"]) (simp add: set_rows_def padded_def)
qed

text \<open>
  A set that is sent outright has no more pictures than the picture buffer, and in a layer
  other than 0 no more than 16 of either kind.
\<close>

definition pictures_fit :: "u8 \<Rightarrow> u64 \<Rightarrow> st_rps \<Rightarrow> bool" where
  "pictures_fit layer max_dec r \<longleftrightarrow>
     (if layer = 0 then unat (num_negative r) + unat (num_positive r) \<le> unat max_dec
      else unat (num_negative r) \<le> 16 \<and> unat (num_positive r) \<le> 16)"

lemma explicit_fit:
  assumes "n \<le> (if layer = 0 then max_dec else 16)"
    and "p \<le> (if layer = 0 then (if n \<le> max_dec then max_dec - n else 0) else 16 :: u64)"
  shows "if layer = 0 then unat n + unat p \<le> unat max_dec else unat n \<le> 16 \<and> unat p \<le> 16"
  using assms by (auto simp: word_le_nat_alt unat_sub split: if_splits)

lemma yields_explicit:
  assumes "unat max_dec \<le> 16"
  shows "yields (explicit_parse rd layer max_dec) (\<lambda>r. rps_rows k r \<and> pictures_fit layer max_dec r)"
proof -
  have s0: "yields (pocs_parse rd what (-) n 0)
      (\<lambda>ps. length ps = n \<and> (\<forall>x \<in> set ps. fst x < 0 \<and> \<bar>fst x\<bar> \<le> \<bar>0\<bar> + int n * 2 ^ 15))"
    and s1: "yields (pocs_parse rd what (+) n 0)
      (\<lambda>ps. length ps = n \<and> (\<forall>x \<in> set ps. 0 < fst x \<and> \<bar>fst x\<bar> \<le> \<bar>0\<bar> + int n * 2 ^ 15))" for what n
    by (rule yields_pocs; simp)+
  show ?thesis
    unfolding explicit_parse_def
  proof (intro yields_eg_step yields_range_check_step yields_bnd [OF s0] yields_bnd [OF s1] yields_lift_step yields_ret conjI;
      (elim conjE)?)
    fix n p d s0 s1
    assume n: "n \<le> (if layer = 0 then max_dec else 16)"
      and p: "p \<le> (if layer = 0 then (if n \<le> max_dec then max_dec - n else 0) else 16 :: u64)"
    let ?r = "\<lparr>num_negative = n, num_positive = p, num_delta = d, poc_s0 = map fst s0, poc_s1 = map fst s1,
      used_s0 = map snd s0, used_s1 = map snd s1\<rparr>"
    show "pictures_fit layer max_dec ?r" using explicit_fit [OF n p] by (simp add: pictures_fit_def)
    show "checked_add n p = Inr d \<Longrightarrow> length s0 = unat n \<Longrightarrow> length s1 = unat p \<Longrightarrow>
      \<forall>x \<in> set s0. fst x < 0 \<and> \<bar>fst x\<bar> \<le> \<bar>0\<bar> + int (unat n) * 2 ^ 15 \<Longrightarrow>
      \<forall>x \<in> set s1. 0 < fst x \<and> \<bar>fst x\<bar> \<le> \<bar>0\<bar> + int (unat p) * 2 ^ 15 \<Longrightarrow> rps_rows k ?r"
      by (rule explicit_rows [OF explicit_limits [OF assms n p]])
  qed
qed

lemma fails_explicit:
  assumes rd: "source_fails rd no_index_panic" and m: "unat max_dec \<le> 16"
  shows "fails (explicit_parse rd layer max_dec) no_index_panic"
proof -
  have small: "\<bar>0\<bar> + int (unat n) * 2 ^ 15 \<le> 2 ^ 40" if "unat n \<le> 16" for n :: u64
    using small_sum [OF that] by simp
  have add: "checked_add n p = Inl e \<Longrightarrow> no_index_panic e" for n p :: u64 and e
    by (auto simp: checked_add_def no_index_panic_def split: if_splits)
  have s0: "fails (pocs_parse rd w (-) (unat n) 0) no_index_panic"
    and s1: "fails (pocs_parse rd w (+) (unat n) 0) no_index_panic" if "unat n \<le> 16" for w and n :: u64
    by (rule fails_pocs [OF rd _ small [OF that]], simp)+
  show ?thesis
    unfolding explicit_parse_def
    by (intro failing fails_steps [OF rd] fails_bnd [OF s0] fails_bnd [OF s1];
        (rule explicit_limits [OF m]; assumption)?; (erule add)?)
      (simp_all add: no_index_panic_def)
qed

lemma yields_inter:
  assumes "rps_rows k r" and "k < 64"
  shows "yields (inter_parse rd r) (rps_rows (Suc k))"
proof -
  obtain len neg pos where r: "r = set_rows len (neg, pos)" and ok: "rps_ok k (neg, pos)"
    using assms(1) by (auto simp: rps_rows_def)
  have fill: "yields (inter_fill r (delta_of sign a) flags) (rps_rows (Suc k))"
    if "unat a \<le> 2 ^ 15 - 1" "length flags = unat (num_delta r) + 1" for sign a flags
  proof -
    note d = delta_of_bound [OF that(1), of sign]
    have "length flags = length neg + length pos + 1"
      using that(2) unat_num_delta [OF ok less_imp_le [OF assms(2)]] by (simp add: r)
    note eq = inter_fill_eq [OF ok less_imp_le [OF assms(2)] d this, of len]
    show ?thesis
      unfolding r eq by (intro yields_if yields_ret yields_fail) (metis rps_rows_def rps_ok_derive [OF ok d])
  qed
  show ?thesis
    unfolding inter_parse_def Let_def delta_of_def [symmetric]
    by (intro yields_bit_step yields_eg_step yields_range_check_step yields_bnd [OF yields_times [OF yields_any]] fill)
      (simp_all add: word_le_nat_alt)
qed

lemma fails_inter:
  assumes rd: "source_fails rd no_index_panic" and "rps_rows k r" and "k < 64"
  shows "fails (inter_parse rd r) no_index_panic"
proof -
  obtain len neg pos where r: "r = set_rows len (neg, pos)" and ok: "rps_ok k (neg, pos)"
    using assms(2) by (auto simp: rps_rows_def)
  have fill: "fails (inter_fill r (delta_of sign a) flags) no_index_panic"
    if "unat a \<le> 2 ^ 15 - 1" "length flags = unat (num_delta r) + 1" for sign a flags
  proof -
    have "length flags = length neg + length pos + 1"
      using that(2) unat_num_delta [OF ok less_imp_le [OF assms(3)]] by (simp add: r)
    note eq = inter_fill_eq [OF ok less_imp_le [OF assms(3)] delta_of_bound [OF that(1)] this, of len]
    show ?thesis unfolding r eq by (intro failing) (simp add: no_index_panic_def)
  qed
  have flag: "fails (inter_flag_parse rd) no_index_panic"
    unfolding inter_flag_parse_def by (intro fails_steps [OF rd] fails_bnd failing fails_read_bit rd)
  show ?thesis
    unfolding inter_parse_def Let_def delta_of_def [symmetric]
    by (intro failing fails_steps [OF rd] fails_bnd_yields [OF fails_times [OF flag] yields_times [OF yields_any]] fill)
      (simp_all add: word_le_nat_alt no_index_panic_def)
qed

lemma yields_st_rps:
  assumes "unat max_dec \<le> 16" and "case prev of None \<Rightarrow> True | Some r \<Rightarrow> rps_rows k r" and "k < 64"
  shows "yields (st_rps_parse rd layer max_dec prev) (rps_rows (Suc k))"
  using assms unfolding st_rps_parse_def
  by (cases prev) (auto intro!: yielding yields_inter
      yields_mono [OF yields_explicit [where k = "Suc k"]])

lemma fails_st_rps:
  assumes rd: "source_fails rd no_index_panic" and "unat max_dec \<le> 16"
    and "case prev of None \<Rightarrow> True | Some r \<Rightarrow> rps_rows k r" and "k < 64"
  shows "fails (st_rps_parse rd layer max_dec prev) no_index_panic"
  using assms unfolding st_rps_parse_def
  by (cases prev) (auto intro!: fails_steps [OF rd] failing fails_explicit fails_inter)

lemma yields_st_rps_loop:
  "unat max_dec \<le> 16 \<Longrightarrow> (case prev of None \<Rightarrow> True | Some r \<Rightarrow> rps_rows k r) \<Longrightarrow> k + n \<le> 64 \<Longrightarrow>
     yields (st_rps_loop rd layer max_dec n prev) (\<lambda>rs. length rs = n \<and> list_all (rps_rows 64) rs)"
proof (induction n arbitrary: prev k)
  case (Suc n)
  have r: "yields (st_rps_parse rd layer max_dec prev) (rps_rows (Suc k))"
    by (rule yields_st_rps) (use Suc.prems in auto)
  have rs: "yields (st_rps_loop rd layer max_dec n (Some r)) (\<lambda>rs. length rs = n \<and> list_all (rps_rows 64) rs)"
    if "rps_rows (Suc k) r" for r
    by (rule Suc.IH [where k = "Suc k"]) (use Suc.prems that in simp_all)
  show ?case
    unfolding st_rps_loop.simps
    by (intro yields_bnd [OF r] yields_bnd [OF rs] yields_ret)
      (use Suc.prems in \<open>auto intro: rps_rows_mono\<close>)
qed (simp add: yields_ret)

text \<open>The first set is always sent outright.\<close>

lemma yields_st_rps_sets:
  assumes "unat max_dec \<le> 16" and "n \<le> 64"
  shows "yields (st_rps_loop rd layer max_dec n None) (\<lambda>rs. length rs = n \<and> list_all (rps_rows 64) rs \<and>
    (\<forall>r rs'. rs = r # rs' \<longrightarrow> pictures_fit layer max_dec r))"
proof (cases n)
  case (Suc m)
  have r: "yields (st_rps_parse rd layer max_dec None) (\<lambda>r. rps_rows 1 r \<and> pictures_fit layer max_dec r)"
    unfolding st_rps_parse_def option.case by (rule yields_explicit [OF assms(1)])
  have rs: "yields (st_rps_loop rd layer max_dec m (Some r)) (\<lambda>rs. length rs = m \<and> list_all (rps_rows 64) rs)"
    if "rps_rows 1 r" for r
    by (rule yields_st_rps_loop [OF assms(1), where k = 1]) (use that assms(2) Suc in simp_all)
  show ?thesis
    unfolding Suc st_rps_loop.simps
    by (rule yields_bnd [OF r], rule yields_bnd [OF rs], blast, rule yields_ret) (auto intro: rps_rows_mono)
qed (simp add: yields_ret)

lemma fails_st_rps_loop:
  assumes rd: "source_fails rd no_index_panic" and m: "unat max_dec \<le> 16"
  shows "(case prev of None \<Rightarrow> True | Some r \<Rightarrow> rps_rows k r) \<Longrightarrow> k + n \<le> 64 \<Longrightarrow>
     fails (st_rps_loop rd layer max_dec n prev) no_index_panic"
proof (induction n arbitrary: prev k)
  case (Suc n)
  have "fails (st_rps_loop rd layer max_dec n (Some r)) no_index_panic" if "rps_rows (Suc k) r" for r
    by (rule Suc.IH [where k = "Suc k"]) (use Suc.prems that in simp_all)
  then show ?case
    unfolding st_rps_loop.simps using Suc.prems
    by (intro fails_bnd_yields [OF fails_st_rps [OF rd m] yields_st_rps [OF m]] fails_bnd fails_ret) auto
qed (simp add: fails_ret)

text \<open>
  C10. On any bytes, whether they hold well-formed sets or not, parsing up to 64 sets never
  indexes a vector out of range and never overflows its signed arithmetic: the vectors of
  a predicted set are as long as the entries that can be kept, however often sets are
  predicted from one another. The sets it returns have rows as long as their counts.
\<close>

theorem st_rps_no_index_panic:
  assumes "n \<le> 64" and "unat max_dec \<le> 16" and "st_rps_loop cursor_read layer max_dec n None s = (x, s')"
  shows "case x of Inl e \<Rightarrow> e \<notin> {Panic ''index out of bounds'', Panic ''i64 overflow''}
    | Inr rs \<Rightarrow> length rs = n \<and> (\<forall>r \<in> set rs. unat (num_negative r) \<le> 16 \<and>
        unat (num_delta r) = unat (num_negative r) + unat (num_positive r) \<and>
        unat (num_negative r) \<le> length (poc_s0 r) \<and> length (used_s0 r) = length (poc_s0 r) \<and>
        unat (num_positive r) \<le> length (poc_s1 r) \<and> length (used_s1 r) = length (poc_s1 r))"
proof (cases x)
  case (Inl e)
  have "source_fails cursor_read no_index_panic"
    by (rule source_fails_cursor) (simp_all add: no_index_panic_def eof_error_def)
  from failsD [OF fails_st_rps_loop [OF this assms(2), where prev = None and k = 0]] assms(1,3) Inl
  show ?thesis by (auto simp: no_index_panic_def)
next
  case (Inr rs)
  have "length rs = n \<and> list_all (rps_rows 64) rs"
    by (rule yieldsD [OF yields_st_rps_loop [OF assms(2), where prev = None and k = 0] assms(3) [unfolded Inr]])
      (use assms(1) in simp_all)
  then show ?thesis
    by (auto simp: Inr list_all_iff rps_rows_def set_rows_def rps_ok_def padded_def unat_of_nat simp del: of_nat_add
        dest!: bspec)
qed

theorem st_rps_no_index_panic_witness:
  "\<exists>e s'. st_rps_loop cursor_read 0 4 3 None (bit_reader_new (cursor_new (pack_bits (rpss_bits True rps_sample)))) = (e, s') \<and>
    (case e of Inl e \<Rightarrow> e \<notin> {Panic ''index out of bounds'', Panic ''i64 overflow''} | Inr rs \<Rightarrow> length rs = 3)"
proof -
  obtain e s' where run: "st_rps_loop cursor_read 0 4 3 None (bit_reader_new (cursor_new (pack_bits (rpss_bits True rps_sample)))) = (e, s')"
    by fastforce
  from st_rps_no_index_panic [OF _ _ run] show ?thesis
    unfolding run by (auto split: sum.splits)
qed

text \<open>
  The code means to bound the pictures after the current one by 16, but checks the count of
  those before it a second time: prediction can go past 16.
\<close>

definition rps_long :: "rps_syntax list" where
  "rps_long = [Explicit [] (replicate 16 (0, True)), Inter False 0 (replicate 17 (True, True))]"

lemma derive_all_later:
  assumes "\<forall>e \<in> set pos. 0 < fst e" and "0 < delta"
  shows "derive ([], pos) delta (replicate (Suc (length pos)) (True, True)) =
    ([], (delta, True) # map (\<lambda>e. (fst e + delta, True)) pos)"
proof -
  have flag: "replicate (Suc (length pos)) (True, True) ! j = (True, True)" if "j \<le> length pos" for j
    using that by (intro nth_replicate) simp
  have pos: "0 < fst (pos ! j) + delta" if "j < length pos" for j
    using assms that by (metis add_pos_pos nth_mem)
  have "map (\<lambda>j. (fst (pos ! j) + delta, True)) [0..<length pos] = map (\<lambda>e. (fst e + delta, True)) (map ((!) pos) [0..<length pos])"
    by simp
  also have "\<dots> = map (\<lambda>e. (fst e + delta, True)) pos" by (simp only: map_nth)
  finally have all: "map (\<lambda>j. (fst (pos ! j) + delta, True)) [0..<length pos] = map (\<lambda>e. (fst e + delta, True)) pos" .
  have "shifted (\<lambda>d. d > 0) delta (replicate (Suc (length pos)) (True, True)) pos 0 [0..<length pos] =
      map (\<lambda>j. (fst (pos ! j) + delta, True)) [0..<length pos]"
    unfolding shifted_def by (rule map_cong) (use pos flag in \<open>auto simp: filter_id_conv simp del: replicate.simps\<close>)
  moreover have "shifted (\<lambda>d. d < 0) delta (replicate (Suc (length pos)) (True, True)) pos 0 (rev [0..<length pos]) = []"
    unfolding shifted_def using pos by (force simp: filter_empty_conv)
  ultimately show ?thesis
    using assms(2) flag [of "length pos"]
    by (simp add: derive_def Let_def own_entry_def all shifted_def [of _ _ _ "[]"] del: replicate.simps)
qed

theorem st_rps_positive_unchecked:
  "\<exists>rs s'. st_rps_loop cursor_read 0 16 2 None (bit_reader_new (cursor_new (pack_bits (rpss_bits True rps_long)))) = (Inr rs, s') \<and>
    map num_positive rs = [16, 17]"
proof -
  let ?ps = "replicate 16 (0, True) :: (u64 \<times> bool) list"
  define pos where "pos = pocs_value (+) 0 ?ps"
  have len: "length rps_long = 2" and n: "length pos = 16" by (simp_all add: rps_long_def pos_def)
  have "\<forall>e \<in> set pos. 0 < fst e"
    using pocs_value_sign(2) [of ?ps 0] by (simp add: pos_def list_all_iff)
  from derive_all_later [OF this, of 1]
  have d: "derive ([], pos) 1 (replicate 17 (True, True)) = ([], (1, True) # map (\<lambda>e. (fst e + 1, True)) pos)"
    by (simp only: n) simp
  have val: "rps_of ([], []) (Explicit [] ?ps) = ([], pos)" by (simp add: pos_def)
  have ok: "rpss_ok 0 16 True ([], []) rps_long"
    using val d n by (simp add: rps_long_def max_pics_def delta_of_def list_all_iff del: rps_of.simps(1) replicate.simps)
  have "cur.dec (st_rps_loop cursor_read 0 16 (length rps_long) None) (rpss_bits True rps_long) (sets_value ([], []) rps_long)"
    by (rule cur.dec_st_rps_loop [OF ok, where k = 0]) (simp_all add: rps_ok_def len)
  from decodesE [OF this _ rest_bits_sample] obtain s' where
    "st_rps_loop cursor_read 0 16 2 None (bit_reader_new (cursor_new (pack_bits (rpss_bits True rps_long)))) =
       (Inr (sets_value ([], []) rps_long), s')"
    by (auto simp: len)
  moreover have "map num_positive (sets_value ([], []) rps_long) = [16, 17]"
    using val d n by (simp add: rps_long_def set_rows_def delta_of_def del: rps_of.simps(1) replicate.simps)
  ultimately show ?thesis by (intro exI conjI)
qed

end
