(* ===== verification/H265_Scaling.thy ===== *)
theory H265_Scaling
  imports Coding
begin

text \<open>
  \<open>crates/h265/src/sps/scaling_list.rs\<close>: the scaling lists. A list is either taken from a
  default table or sent as differences. \<open>scaling_syntax\<close> is what the bit stream holds for one
  list, \<open>scaling_value\<close> the list the code derives from it.
\<close>

subsection \<open>Tables\<close>

definition TABLE_7_5 :: "int list" where
  "TABLE_7_5 = replicate 16 16"

definition TABLE_7_6_02 :: "int list" where
  "TABLE_7_6_02 =
    [16, 16, 16, 16, 16, 16, 16, 16, 16, 16, 17, 16, 17, 16, 17, 18,
     17, 18, 18, 17, 18, 21, 19, 20, 21, 20, 19, 21, 24, 22, 22, 24,
     24, 22, 22, 24, 25, 25, 27, 30, 27, 25, 25, 29, 31, 35, 35, 31,
     29, 36, 41, 44, 41, 36, 47, 54, 54, 47, 65, 70, 65, 88, 88, 115]"

definition TABLE_7_6_35 :: "int list" where
  "TABLE_7_6_35 =
    [16, 16, 16, 16, 16, 16, 16, 16, 16, 16, 17, 17, 17, 17, 17, 18,
     18, 18, 18, 18, 18, 20, 20, 20, 20, 20, 20, 20, 24, 24, 24, 24,
     24, 24, 24, 24, 25, 25, 25, 25, 25, 25, 25, 28, 28, 28, 28, 28,
     28, 33, 33, 33, 33, 33, 41, 41, 41, 41, 54, 54, 54, 71, 71, 91]"

definition TABLE_7_6 :: "int list list" where
  "TABLE_7_6 = [TABLE_7_6_02, TABLE_7_6_02, TABLE_7_6_02, TABLE_7_6_35, TABLE_7_6_35, TABLE_7_6_35]"

subsection \<open>parse\<close>

text \<open>\<open>list[0..end].copy_from_slice(&table[0..end])\<close> on a list of 64 zeros.\<close>

definition zero_list :: "int list" where
  "zero_list = replicate 64 0"

definition copy_prefix :: "nat \<Rightarrow> int list \<Rightarrow> int list" where
  "copy_prefix end table = take end table @ drop end zero_list"

definition copy_end :: "nat \<Rightarrow> nat" where
  "copy_end size_id = min 63 (2 ^ (4 + 2 * size_id) - 1)"

definition coef_num :: "nat \<Rightarrow> nat" where
  "coef_num size_id = min 64 (2 ^ (4 + 2 * size_id))"

definition matrix_step :: "nat \<Rightarrow> nat" where
  "matrix_step size_id = (if size_id = 3 then 3 else 1)"

text \<open>\<open>next_coef = (next_coef + scaling_list_delta_coef + 256) % 256\<close>\<close>

definition next_coef_step :: "int \<Rightarrow> int \<Rightarrow> err + int" where
  "next_coef_step next_coef delta =
     rbind (checked_i64 (next_coef + delta)) (\<lambda>c.
     rbind (checked_i64 (c + 256)) (\<lambda>c. Inr (trunc_mod c 256)))"

fun coefs_parse :: "'s read_fn \<Rightarrow> nat \<Rightarrow> int \<Rightarrow> ('s bit_reader, int list) io" where
  "coefs_parse rd 0 next_coef = ret []"
| "coefs_parse rd (Suc n) next_coef =
     bnd (read_signed_exp_golomb rd) (\<lambda>delta.
     bnd (lift_res (next_coef_step next_coef delta)) (\<lambda>next_coef.
     bnd (coefs_parse rd n next_coef) (\<lambda>cs. ret (next_coef # cs))))"

text \<open>\<open>matrix_id - delta * step\<close> on \<open>usize\<close>\<close>

definition ref_matrix_id :: "nat \<Rightarrow> nat \<Rightarrow> nat \<Rightarrow> err + nat" where
  "ref_matrix_id size_id matrix_id delta =
     (if 2 ^ 64 \<le> delta * matrix_step size_id then Inl (Panic ''mul overflow'')
      else if matrix_id < delta * matrix_step size_id then Inl (Panic ''sub overflow'')
      else Inr (matrix_id - delta * matrix_step size_id))"

definition scaling_list_parse :: "'s read_fn \<Rightarrow> nat \<Rightarrow> nat \<Rightarrow> ('s bit_reader, int list) io" where
  "scaling_list_parse rd size_id matrix_id =
     bnd (read_bit rd) (\<lambda>scaling_list_pred_mode_flag.
     if \<not> scaling_list_pred_mode_flag then
       bnd (read_exp_golomb rd) (\<lambda>delta.
       if delta = 0 then
         (if size_id = 0 then ret (copy_prefix 16 TABLE_7_5)
          else ret (copy_prefix (copy_end size_id) (TABLE_7_6 ! matrix_id)))
       else
         (if size_id = 0 then ret (copy_prefix 16 TABLE_7_5)
          else bnd (lift_res (ref_matrix_id size_id matrix_id (unat delta))) (\<lambda>ref.
            ret (copy_prefix (copy_end size_id) (TABLE_7_6 ! ref)))))
     else
       bnd (if size_id > 1 then
              bnd (read_signed_exp_golomb rd) (\<lambda>dc. lift_res (checked_i64 (dc + 8)))
            else ret 8) (\<lambda>next_coef.
       bnd (coefs_parse rd (coef_num size_id) next_coef) (\<lambda>cs.
       ret (cs @ drop (length cs) zero_list))))"

text \<open>The \<open>while\<close> loop over the matrices of one size, and the loop over the sizes.\<close>

fun scaling_column_parse :: "'s read_fn \<Rightarrow> nat \<Rightarrow> nat list \<Rightarrow> int list list \<Rightarrow> ('s bit_reader, int list list) io" where
  "scaling_column_parse rd size_id [] column = ret column"
| "scaling_column_parse rd size_id (m # ms) column =
     bnd (scaling_list_parse rd size_id m) (\<lambda>l. scaling_column_parse rd size_id ms (column[m := l]))"

definition matrix_ids :: "nat \<Rightarrow> nat list" where
  "matrix_ids size_id = (if size_id = 3 then [0, 3] else [0, 1, 2, 3, 4, 5])"

fun scaling_columns_parse :: "'s read_fn \<Rightarrow> nat list \<Rightarrow> ('s bit_reader, int list list list) io" where
  "scaling_columns_parse rd [] = ret []"
| "scaling_columns_parse rd (k # ks) =
     bnd (scaling_column_parse rd k (matrix_ids k) (replicate 6 zero_list)) (\<lambda>c.
     bnd (scaling_columns_parse rd ks) (\<lambda>cs. ret (c # cs)))"

definition scaling_list_data_parse :: "'s read_fn \<Rightarrow> ('s bit_reader, int list list list) io" where
  "scaling_list_data_parse rd = scaling_columns_parse rd [0, 1, 2, 3]"

subsection \<open>The syntax of the standard (7.3.4)\<close>

text \<open>One list: a reference \<open>scaling_list_pred_matrix_id_delta\<close>, or the DC coefficient (from
  16x16 on) and the coefficients as differences.\<close>

datatype scaling_syntax = Pred u64 | Coefs "int option" "int list"

fun scaling_bits :: "scaling_syntax \<Rightarrow> bool list" where
  "scaling_bits (Pred delta) = False # eg_bits delta"
| "scaling_bits (Coefs dc ds) = True # (case dc of None \<Rightarrow> [] | Some d \<Rightarrow> eg_signed_bits d) @ concat (map eg_signed_bits ds)"

text \<open>The running coefficient (7-42), without the bounds of machine integers.\<close>

fun coefs_value :: "int \<Rightarrow> int list \<Rightarrow> int list" where
  "coefs_value c [] = []"
| "coefs_value c (d # ds) = (let c' = (c + d + 256) mod 256 in c' # coefs_value c' ds)"

text \<open>What the code makes of one list; what the standard makes of it is further below.\<close>

fun scaling_value :: "nat \<Rightarrow> nat \<Rightarrow> scaling_syntax \<Rightarrow> int list" where
  "scaling_value size_id m (Pred delta) =
     (if size_id = 0 then copy_prefix 16 TABLE_7_5
      else copy_prefix (copy_end size_id) (TABLE_7_6 ! (m - unat delta * matrix_step size_id)))"
| "scaling_value size_id m (Coefs dc ds) =
     (let cs = coefs_value (case dc of None \<Rightarrow> 8 | Some d \<Rightarrow> d + 8) ds in cs @ drop (length cs) zero_list)"

text \<open>The ranges of the standard: a delta reaches at most matrix 0, differences are -128..127.\<close>

fun scaling_syntax_ok :: "nat \<Rightarrow> nat \<Rightarrow> scaling_syntax \<Rightarrow> bool" where
  "scaling_syntax_ok size_id m (Pred delta) \<longleftrightarrow> unat delta * matrix_step size_id \<le> m"
| "scaling_syntax_ok size_id m (Coefs dc ds) \<longleftrightarrow> (dc \<noteq> None) = (1 < size_id) \<and>
     (\<forall>d. dc = Some d \<longrightarrow> - 7 \<le> d \<and> d \<le> 247) \<and> length ds = coef_num size_id \<and> list_all (\<lambda>d. - 128 \<le> d \<and> d \<le> 127) ds"

definition column_value :: "nat \<Rightarrow> scaling_syntax list \<Rightarrow> int list list" where
  "column_value k ss = foldl (\<lambda>c (m, s). c[m := scaling_value k m s]) (replicate 6 zero_list) (zip (matrix_ids k) ss)"

definition column_ok :: "nat \<Rightarrow> scaling_syntax list \<Rightarrow> bool" where
  "column_ok k ss \<longleftrightarrow> length ss = length (matrix_ids k) \<and> list_all (\<lambda>(m, s). scaling_syntax_ok k m s) (zip (matrix_ids k) ss)"

definition scaling_data_bits :: "scaling_syntax list list \<Rightarrow> bool list" where
  "scaling_data_bits sss = concat (map (\<lambda>ss. concat (map scaling_bits ss)) sss)"

definition scaling_data_value :: "scaling_syntax list list \<Rightarrow> int list list list" where
  "scaling_data_value sss = map (\<lambda>(k, ss). column_value k ss) (zip [0, 1, 2, 3] sss)"

definition scaling_data_ok :: "scaling_syntax list list \<Rightarrow> bool" where
  "scaling_data_ok sss \<longleftrightarrow> length sss = 4 \<and> list_all (\<lambda>(k, ss). column_ok k ss) (zip [0, 1, 2, 3] sss)"

lemma matrix_ids_less: "m \<in> set (matrix_ids k) \<Longrightarrow> m < 6"
  by (auto simp: matrix_ids_def split: if_splits)

lemma next_coef_step_ok:
  "- 256 \<le> c + d \<Longrightarrow> c + d \<le> 1000 \<Longrightarrow> next_coef_step c d = Inr ((c + d + 256) mod 256)"
  by (simp add: next_coef_step_def checked_i64_def in_i64_def trunc_mod_def)

context byte_source
begin

lemma dec_coefs:
  "list_all (\<lambda>d. - 128 \<le> d \<and> d \<le> 127) ds \<Longrightarrow> 0 \<le> c \<Longrightarrow> c \<le> 255 \<Longrightarrow>
     dec (coefs_parse rd (length ds) c) (concat (map eg_signed_bits ds)) (coefs_value c ds)"
proof (induction ds arbitrary: c)
  case (Cons d ds)
  then have d: "- 128 \<le> d" "d \<le> 127" by simp_all
  let ?c = "(c + d + 256) mod 256"
  have "dec (coefs_parse rd (length ds) ?c) (concat (map eg_signed_bits ds)) (coefs_value ?c ds)"
    using Cons.prems by (intro Cons.IH) simp_all
  note tl = decodes_last [OF this]
  have "eg_signed_ok d" using d by (simp add: eg_signed_ok_def)
  moreover have "next_coef_step c d = Inr ?c" using d Cons.prems by (intro next_coef_step_ok) simp_all
  ultimately have "dec (coefs_parse rd (Suc (length ds)) c) (eg_signed_bits d @ concat (map eg_signed_bits ds)) (?c # coefs_value ?c ds)"
    unfolding coefs_parse.simps
    by (intro decodes_bnd [OF dec_read_signed_exp_golomb]) (simp_all only: bnd_lift tl decodes_end)
  then show ?case by (simp add: Let_def)
qed (simp add: decodes_ret)

lemma dec_h265_scaling_list:
  assumes "scaling_syntax_ok k m s" and m: "m < 6"
  shows "dec (scaling_list_parse rd k m) (scaling_bits s) (scaling_value k m s)"
proof (cases s)
  case (Pred delta)
  then have le: "unat delta * matrix_step k \<le> m" using assms by simp
  moreover have "unat delta \<le> unat delta * matrix_step k" by (simp add: matrix_step_def)
  ultimately have "unat delta < 6" and "unat delta * matrix_step k < 6" using m by linarith+
  then have "unat delta < 6" and "unat delta * matrix_step k < 2 ^ 64" by simp_all
  then have "eg_ok delta" "ref_matrix_id k m (unat delta) = Inr (m - unat delta * matrix_step k)"
    using le by (simp_all add: eg_ok_unat ref_matrix_id_def)
  then show ?thesis
    by (auto simp: Pred scaling_list_parse_def coding unat_eq_zero)
next
  case (Coefs dc ds)
  then have s: "(dc \<noteq> None) = (1 < k)" "\<forall>d. dc = Some d \<longrightarrow> - 7 \<le> d \<and> d \<le> 247"
    "length ds = coef_num k" "list_all (\<lambda>d. - 128 \<le> d \<and> d \<le> 127) ds"
    using assms by simp_all
  let ?c = "case dc of None \<Rightarrow> 8 | Some d \<Rightarrow> d + 8"
  have dc: "dec (if k > 1 then bnd (read_signed_exp_golomb rd) (\<lambda>dc. lift_res (checked_i64 (dc + 8))) else ret 8)
      (case dc of None \<Rightarrow> [] | Some d \<Rightarrow> eg_signed_bits d) ?c"
  proof (cases dc)
    case None
    with s(1) show ?thesis by (simp add: decodes_ret)
  next
    case (Some d)
    with s(1,2) have "1 < k" "- 7 \<le> d" "d \<le> 247" by auto
    then have "eg_signed_ok d" "checked_i64 (d + 8) = Inr (d + 8)"
      by (simp_all add: eg_signed_ok_def checked_i64_def in_i64_def)
    then have "dec (bnd (read_signed_exp_golomb rd) (\<lambda>dc. lift_res (checked_i64 (dc + 8)))) (eg_signed_bits d) (d + 8)"
      by (intro decodes_last [OF dec_read_signed_exp_golomb]) (simp_all add: decodes_def run_simps)
    with Some \<open>1 < k\<close> show ?thesis by simp
  qed
  have "0 \<le> ?c" "?c \<le> 255" using s(2) by (cases dc; simp)+
  from dec_coefs [OF s(4) this] s(3)
  have "dec (coefs_parse rd (coef_num k) ?c) (concat (map eg_signed_bits ds)) (coefs_value ?c ds)" by simp
  note cs = decodes_last [OF this]
  show ?thesis
    unfolding Coefs scaling_list_parse_def scaling_bits.simps scaling_value.simps Let_def
    by (rule dec_bit_step, unfold not_True_eq_False if_False) (rule decodes_bnd [OF dc], rule cs, rule decodes_end, rule refl)
qed

lemma dec_scaling_column:
  "list_all (\<lambda>(m, s). scaling_syntax_ok k m s \<and> m < 6) (zip ms ss) \<Longrightarrow> length ss = length ms \<Longrightarrow>
     dec (scaling_column_parse rd k ms column) (concat (map scaling_bits ss))
       (foldl (\<lambda>c (m, s). c[m := scaling_value k m s]) column (zip ms ss))"
proof (induction ms arbitrary: ss column)
  case (Cons m ms)
  then obtain s ss' where "ss = s # ss'" by (cases ss) auto
  with Cons.prems Cons.IH [of ss'] show ?case by (auto intro!: decodes_bnd [OF dec_h265_scaling_list])
qed (simp add: decodes_ret)

lemma dec_scaling_columns:
  "list_all (\<lambda>(k, ss). column_ok k ss) (zip ks sss) \<Longrightarrow> length sss = length ks \<Longrightarrow>
     dec (scaling_columns_parse rd ks) (scaling_data_bits sss) (map (\<lambda>(k, ss). column_value k ss) (zip ks sss))"
proof (induction ks arbitrary: sss)
  case (Cons k ks)
  then obtain ss sss' where sss: "sss = ss # sss'" by (cases sss) auto
  with Cons.prems have "column_ok k ss" by simp
  then have "list_all (\<lambda>(m, s). scaling_syntax_ok k m s \<and> m < 6) (zip (matrix_ids k) ss)" "length ss = length (matrix_ids k)"
    by (auto simp: column_ok_def list_all_iff dest: set_zip_leftD matrix_ids_less)
  note col = dec_scaling_column [OF this, of "replicate 6 zero_list", folded column_value_def]
  have "dec (scaling_columns_parse rd ks) (scaling_data_bits sss') (map (\<lambda>(k, ss). column_value k ss) (zip ks sss'))"
    using Cons.prems sss by (intro Cons.IH) simp_all
  note tl = decodes_last [OF this]
  have "dec (scaling_columns_parse rd (k # ks)) (concat (map scaling_bits ss) @ scaling_data_bits sss')
      (column_value k ss # map (\<lambda>(k, ss). column_value k ss) (zip ks sss'))"
    unfolding scaling_columns_parse.simps by (rule decodes_bnd [OF col], rule tl, rule decodes_end, rule refl)
  then show ?case by (simp add: sss scaling_data_bits_def)
qed (simp add: decodes_ret scaling_data_bits_def)

lemma dec_scaling_list_data:
  "scaling_data_ok sss \<Longrightarrow> dec (scaling_list_data_parse rd) (scaling_data_bits sss) (scaling_data_value sss)"
  unfolding scaling_list_data_parse_def scaling_data_value_def
  by (rule dec_scaling_columns) (simp_all add: scaling_data_ok_def)

end

subsection \<open>The lists of the standard (7.4.5)\<close>

text \<open>
  What the syntax stands for: a difference of 0 is the default list of tables 7-5 and 7-6, all
  of it; any other difference is the list of an earlier matrix of the same size, as it was
  derived; coefficients are summed up. The array of the code holds 64 entries for each of
  the six matrices, and 0 where the list has none.
\<close>

definition default_list :: "nat \<Rightarrow> nat \<Rightarrow> int list" where
  "default_list size_id m = (if size_id = 0 then TABLE_7_5 else TABLE_7_6 ! m)"

fun list_standard :: "nat \<Rightarrow> nat \<Rightarrow> int list list \<Rightarrow> scaling_syntax \<Rightarrow> int list" where
  "list_standard size_id m column (Pred delta) =
     (if delta = 0 then default_list size_id m
      else column ! (m - unat delta * (if size_id = 3 then 3 else 1)))"
| "list_standard size_id m column (Coefs dc ds) =
     coefs_value (case dc of None \<Rightarrow> 8 | Some d \<Rightarrow> d + 8) ds"

definition column_standard :: "nat \<Rightarrow> scaling_syntax list \<Rightarrow> int list list" where
  "column_standard k ss = foldl (\<lambda>c (m, s). c[m := list_standard k m c s]) (replicate 6 []) (zip (matrix_ids k) ss)"

definition array_64 :: "int list \<Rightarrow> int list" where
  "array_64 l = l @ replicate (64 - length l) 0"

definition scaling_data_standard :: "scaling_syntax list list \<Rightarrow> int list list list" where
  "scaling_data_standard sss = map (\<lambda>(k, ss). map array_64 (column_standard k ss)) (zip [0, 1, 2, 3] sss)"

text \<open>
  The code agrees with it on lists that are sent with their coefficients, and on the default
  list of 4x4 blocks. On the other default lists and on predicted lists it does not.
\<close>

fun list_agrees :: "nat \<Rightarrow> scaling_syntax \<Rightarrow> bool" where
  "list_agrees size_id (Pred delta) \<longleftrightarrow> size_id = 0 \<and> delta = 0"
| "list_agrees size_id (Coefs dc ds) \<longleftrightarrow> True"

definition scaling_data_agrees :: "scaling_syntax list list \<Rightarrow> bool" where
  "scaling_data_agrees sss \<longleftrightarrow> list_all (\<lambda>(k, ss). list_all (list_agrees k) ss) (zip [0, 1, 2, 3] sss)"

lemma list_agrees_value: "list_agrees k s \<Longrightarrow> array_64 (list_standard k m c s) = scaling_value k m s"
  by (cases s) (simp_all add: array_64_def zero_list_def default_list_def copy_prefix_def TABLE_7_5_def Let_def)

lemma column_fold_agrees:
  "list_all (list_agrees k) ss \<Longrightarrow>
     map array_64 (foldl (\<lambda>c (m, s). c[m := list_standard k m c s]) column (zip ms ss)) =
       foldl (\<lambda>c (m, s). c[m := scaling_value k m s]) (map array_64 column) (zip ms ss)"
proof (induction ss arbitrary: ms column)
  case (Cons s ss)
  then show ?case by (cases ms) (simp_all add: map_update list_agrees_value)
qed simp

lemma column_agrees: "list_all (list_agrees k) ss \<Longrightarrow> map array_64 (column_standard k ss) = column_value k ss"
  by (simp add: column_standard_def column_value_def column_fold_agrees array_64_def zero_list_def)

lemma scaling_data_agrees: "scaling_data_agrees sss \<Longrightarrow> scaling_data_standard sss = scaling_data_value sss"
  by (auto simp: scaling_data_agrees_def scaling_data_standard_def scaling_data_value_def list_all_iff
      intro!: column_agrees)

subsection \<open>Where the code departs from the standard\<close>

lemma copy_end_63: "1 \<le> k \<Longrightarrow> copy_end k = 63"
proof -
  assume "1 \<le> k"
  then have "(2 :: nat) ^ 6 \<le> 2 ^ (4 + 2 * k)" by (intro power_increasing) simp_all
  then show ?thesis by (simp add: copy_end_def)
qed

text \<open>
  The standard's default lists have 64 coefficients; the code copies 63 of them, and the last
  one stays zero. The same end is used for a list taken over from another matrix, for which
  the code also copies the default list of that matrix instead of the one that was parsed.
\<close>

theorem scaling_list_default_truncated:
  assumes "1 \<le> k" and "m < 6"
  shows "cur.dec (scaling_list_parse cursor_read k m) (scaling_bits (Pred 0)) (take 63 (TABLE_7_6 ! m) @ [0]) \<and>
    length (TABLE_7_6 ! m) = 64 \<and> TABLE_7_6 ! m ! 63 \<in> {91, 115}"
proof -
  have "scaling_value k m (Pred 0) = take 63 (TABLE_7_6 ! m) @ [0]"
    using assms(1) by (simp add: copy_end_63 copy_prefix_def zero_list_def)
  moreover have "cur.dec (scaling_list_parse cursor_read k m) (scaling_bits (Pred 0)) (scaling_value k m (Pred 0))"
    using assms by (intro cur.dec_h265_scaling_list) simp_all
  moreover have "list_all (\<lambda>t. length t = 64 \<and> t ! 63 \<in> {91, 115}) TABLE_7_6" by code_simp
  moreover have "length TABLE_7_6 = 6" by (simp add: TABLE_7_6_def)
  ultimately show ?thesis using assms(2) by (auto simp: list_all_length)
qed

theorem scaling_list_default_truncated_witness:
  "cur.dec (scaling_list_parse cursor_read 2 3) (scaling_bits (Pred 0)) (take 63 (TABLE_7_6 ! 3) @ [0]) \<and>
    length (TABLE_7_6 ! 3) = 64 \<and> TABLE_7_6 ! 3 ! 63 \<in> {91, 115}"
  by (rule scaling_list_default_truncated) simp_all

text \<open>
  A predicted list is not the list it refers to: whatever the coefficients of matrix 0 are,
  for a matrix 1 that refers to it the code takes the default list of matrix 0.
\<close>

theorem scaling_list_reference_ignored:
  assumes "1 \<le> k" and "k < 3"
  shows "column_standard k [Coefs dc ds, Pred 1] ! 1 = column_standard k [Coefs dc ds] ! 0 \<and>
    column_value k [Coefs dc ds, Pred 1] ! 1 = take 63 TABLE_7_6_02 @ [0]"
proof -
  have "matrix_ids k = [0, 1, 2, 3, 4, 5]" and "k \<noteq> 3" "k \<noteq> 0" using assms(1,2) by (simp_all add: matrix_ids_def)
  then show ?thesis
    using copy_end_63 [OF assms(1)]
    by (simp add: column_standard_def column_value_def matrix_step_def copy_prefix_def zero_list_def TABLE_7_6_def)
qed

theorem scaling_list_reference_ignored_witness:
  "column_standard 1 [Coefs None (replicate 64 0), Pred 1] ! 1 = column_standard 1 [Coefs None (replicate 64 0)] ! 0 \<and>
    column_value 1 [Coefs None (replicate 64 0), Pred 1] ! 1 = take 63 TABLE_7_6_02 @ [0]"
  by (rule scaling_list_reference_ignored) simp_all

text \<open>A reference before the first matrix, which the code does not check, panics.\<close>

theorem scaling_list_reference_underflow:
  assumes "1 \<le> k" and "eg_ok delta" and "m < unat delta * matrix_step k"
    and "byte_bits (cursor_rest (data r)) = False # eg_bits delta @ rest" and "bit_pos r = 0"
  shows "\<exists>e r'. scaling_list_parse cursor_read k m r = (Inl (Panic e), r')"
proof -
  have "cur.dec (bnd (read_bit cursor_read) (\<lambda>b. bnd (read_exp_golomb cursor_read) (\<lambda>d. ret (b, d)))) (False # eg_bits delta) (False, delta)"
    using assms(2) by (simp add: cur.dec_bit_step cur.dec_eg_step decodes_end)
  moreover have "reader_ok (\<lambda>_. True) r" "rest_bits cursor_rest r = (False # eg_bits delta) @ rest"
    using assms(4,5) by (simp_all add: reader_ok_def rest_bits_def)
  ultimately obtain r1 where r1: "bnd (read_bit cursor_read) (\<lambda>b. bnd (read_exp_golomb cursor_read) (\<lambda>d. ret (b, d))) r = (Inr (False, delta), r1)"
    by (auto elim: decodesE)
  then obtain r2 where "read_bit cursor_read r = (Inr False, r2)" "read_exp_golomb cursor_read r2 = (Inr delta, r1)"
    by (auto elim!: bnd_InrE simp: run_simps)
  moreover have "delta \<noteq> 0" using assms(3) by auto
  moreover obtain e where "ref_matrix_id k m (unat delta) = Inl (Panic e)"
    using assms(3) by (cases "2 ^ 64 \<le> unat delta * matrix_step k") (simp_all add: ref_matrix_id_def)
  ultimately show ?thesis
    using assms(1) by (auto simp: scaling_list_parse_def run_simps)
qed

theorem scaling_list_reference_underflow_witness:
  "\<exists>e r'. scaling_list_parse cursor_read 1 0 (bit_reader_new (cursor_new (pack_bits (False # eg_bits 1)))) = (Inl (Panic e), r')"
  by (rule scaling_list_reference_underflow [where delta = 1 and rest = "replicate 4 False"])
    (simp_all add: eg_ok_unat matrix_step_def bit_reader_new_def byte_bits_pack, code_simp)

subsection \<open>What \<open>parse\<close> returns\<close>

definition scaling_data_shape :: "int list list list \<Rightarrow> bool" where
  "scaling_data_shape d \<longleftrightarrow> length d = 4 \<and> list_all (\<lambda>c. length c = 6 \<and> list_all (\<lambda>l. length l = 64) c) d"

lemma yields_coefs: "yields (coefs_parse rd n c) (\<lambda>cs. length cs = n)"
proof (induction n arbitrary: c)
  case (Suc n)
  show ?case
    unfolding coefs_parse.simps
    by (intro yields_signed_eg_step yields_lift_step yields_bnd [OF Suc.IH] yields_ret) simp
qed (simp add: yields_ret)

lemma copy_prefix_length: "end \<le> 64 \<Longrightarrow> end \<le> length t \<Longrightarrow> length (copy_prefix end t) = 64"
  by (simp add: copy_prefix_def zero_list_def)

lemma table_length: "m < 6 \<Longrightarrow> length (TABLE_7_6 ! m) = 64"
proof -
  have "list_all (\<lambda>t. length t = 64) TABLE_7_6" "length TABLE_7_6 = 6" by code_simp+
  then show "m < 6 \<Longrightarrow> length (TABLE_7_6 ! m) = 64" by (auto simp: list_all_length)
qed

lemma yields_h265_scaling_list:
  assumes "m < 6"
  shows "yields (scaling_list_parse rd k m) (\<lambda>l. length l = 64)"
proof -
  have dc: "yields (if k > 1 then bnd (read_signed_exp_golomb rd) (\<lambda>dc. lift_res (checked_i64 (dc + 8))) else ret 8) (\<lambda>_. True)"
    by (rule yields_any)
  have "coef_num k \<le> 64" by (simp add: coef_num_def)
  moreover have "copy_end k \<le> 64" by (simp add: copy_end_def)
  moreover have "ref_matrix_id k m d = Inr r \<Longrightarrow> r < 6" for d r
    using assms by (auto simp: ref_matrix_id_def split: if_splits)
  ultimately show ?thesis
    unfolding scaling_list_parse_def
    by (intro yields_bit_step yields_if yields_eg_step yields_ret yields_lift_step yields_bnd [OF dc] yields_bnd [OF yields_coefs])
      (auto simp: copy_prefix_length table_length assms zero_list_def TABLE_7_5_def)
qed

lemma yields_scaling_column:
  "list_all (\<lambda>m. m < 6) ms \<Longrightarrow> length c = 6 \<and> list_all (\<lambda>l. length l = 64) c \<Longrightarrow>
     yields (scaling_column_parse rd k ms c) (\<lambda>c. length c = 6 \<and> list_all (\<lambda>l. length l = 64) c)"
proof (induction ms arbitrary: c)
  case (Cons m ms)
  have "length (c[m := l]) = 6 \<and> list_all (\<lambda>l. length l = 64) (c[m := l])" if "length l = 64" for l
    using Cons.prems that by (auto simp: list_all_iff dest!: set_update_subset_insert [THEN subsetD])
  with Cons show ?case
    by (auto intro!: yields_bnd [OF yields_h265_scaling_list])
qed (simp add: yields_ret)

lemma yields_scaling_columns:
  "yields (scaling_columns_parse rd ks) (\<lambda>d. length d = length ks \<and> list_all (\<lambda>c. length c = 6 \<and> list_all (\<lambda>l. length l = 64) c) d)"
proof (induction ks)
  case (Cons k ks)
  have "yields (scaling_column_parse rd k (matrix_ids k) (replicate 6 zero_list)) (\<lambda>c. length c = 6 \<and> list_all (\<lambda>l. length l = 64) c)"
    by (rule yields_scaling_column) (auto simp: matrix_ids_less list_all_iff zero_list_def)
  then show ?case
    unfolding scaling_columns_parse.simps
    by (intro yields_bnd [where P = "\<lambda>c. length c = 6 \<and> list_all (\<lambda>l. length l = 64) c"] yields_bnd [OF Cons.IH] yields_ret) auto
qed (simp add: yields_ret)

lemma yields_scaling_list_data: "yields (scaling_list_data_parse rd) scaling_data_shape"
  unfolding scaling_list_data_parse_def
  by (rule yields_mono [OF yields_scaling_columns]) (simp add: scaling_data_shape_def)

end
