(* ===== verification/H265_Hrd.thy ===== *)
theory H265_Hrd
  imports Coding
begin

text \<open>
  \<open>crates/h265/src/sps/vui_parameters/hrd_parameters.rs\<close>: the parameters of the hypothetical
  reference decoder, with the syntax of the standard (\<open>hrd_bits\<close>) and the values that have
  one (\<open>hrd_ok\<close>).
\<close>

subsection \<open>SubLayerHrdParameters\<close>

record hrd_param =
  nal_hrd :: bool
  bit_rate_value_minus1 :: u32
  cpb_size_value_minus1 :: u32
  cpb_size_du_value_minus1 :: "u64 option"
  bit_rate_du_value_minus1 :: "u64 option"
  cbr_flag :: bool

definition hrd_param_parse :: "'s read_fn \<Rightarrow> bool \<Rightarrow> bool \<Rightarrow> hrd_param option \<Rightarrow> ('s bit_reader, hrd_param) io" where
  "hrd_param_parse rd nal sub_pic prev =
     bnd (read_exp_golomb rd) (\<lambda>rate.
     bnd (range_check rate 0 (2 ^ 32 - 2) ''bit_rate_value_minus1'') (\<lambda>_.
     let bit_rate = ucast rate :: u32 in
     bnd (guard (case prev of None \<Rightarrow> True | Some p \<Rightarrow> \<not> bit_rate \<le> bit_rate_value_minus1 p)
       (IoErr InvalidData ''bit_rate_value_minus1 must be greater than the previous value'')) (\<lambda>_.
     bnd (read_exp_golomb rd) (\<lambda>cpb.
     bnd (range_check cpb 0 (2 ^ 32 - 2) ''cpb_size_value_minus1'') (\<lambda>_.
     let cpb_size = ucast cpb :: u32 in
     bnd (guard (case prev of None \<Rightarrow> True | Some p \<Rightarrow> \<not> cpb_size > cpb_size_value_minus1 p)
       (IoErr InvalidData ''cpb_size_value_minus1 must be less than or equal to the previous value'')) (\<lambda>_.
     bnd (when_io sub_pic (read_exp_golomb rd)) (\<lambda>cpb_du.
     bnd (when_io sub_pic (read_exp_golomb rd)) (\<lambda>rate_du.
     bnd (read_bit rd) (\<lambda>cbr.
     ret \<lparr>nal_hrd = nal, bit_rate_value_minus1 = bit_rate, cpb_size_value_minus1 = cpb_size,
          cpb_size_du_value_minus1 = cpb_du, bit_rate_du_value_minus1 = rate_du, cbr_flag = cbr\<rparr>)))))))))"

fun hrd_params_parse :: "'s read_fn \<Rightarrow> bool \<Rightarrow> bool \<Rightarrow> hrd_param option \<Rightarrow> nat \<Rightarrow> ('s bit_reader, hrd_param list) io" where
  "hrd_params_parse rd nal sub_pic prev 0 = ret []"
| "hrd_params_parse rd nal sub_pic prev (Suc n) =
     bnd (hrd_param_parse rd nal sub_pic prev) (\<lambda>p.
     bnd (hrd_params_parse rd nal sub_pic (Some p) n) (\<lambda>ps. ret (p # ps)))"

text \<open>\<open>2u64.pow(n)\<close>\<close>

definition pow2_u64 :: "nat \<Rightarrow> err + u64" where
  "pow2_u64 n = (if n < 64 then Inr (2 ^ n) else Inl (Panic ''mul overflow''))"

definition hrd_scaled :: "hrd_param \<Rightarrow> bool \<Rightarrow> u64 \<Rightarrow> u64 \<Rightarrow> u64 \<Rightarrow> nat \<Rightarrow> err + u64" where
  "hrd_scaled p sub_pic vcl_factor nal_factor limit n =
     rbind (if \<not> sub_pic then Inr (ucast (bit_rate_value_minus1 p))
       else case bit_rate_du_value_minus1 p of Some v \<Rightarrow> Inr v
         | None \<Rightarrow> checked_mul (if nal_hrd p then nal_factor else vcl_factor) limit) (\<lambda>v.
     rbind (checked_add v 1) (\<lambda>v1. rbind (pow2_u64 n) (checked_mul v1)))"

definition bit_rate :: "hrd_param \<Rightarrow> bool \<Rightarrow> u8 \<Rightarrow> u64 \<Rightarrow> u64 \<Rightarrow> u64 \<Rightarrow> err + u64" where
  "bit_rate p sub_pic bit_rate_scale br_vcl_factor br_nal_factor max_br =
     hrd_scaled p sub_pic br_vcl_factor br_nal_factor max_br (6 + unat bit_rate_scale)"

definition cpb_size :: "hrd_param \<Rightarrow> bool \<Rightarrow> u8 \<Rightarrow> u64 \<Rightarrow> u64 \<Rightarrow> u64 \<Rightarrow> err + u64" where
  "cpb_size p sub_pic cpb_size_scale cpb_vcl_factor cpb_nal_factor max_cpb =
     hrd_scaled p sub_pic cpb_vcl_factor cpb_nal_factor max_cpb (4 + unat cpb_size_scale)"

definition hrd_param_bits :: "hrd_param \<Rightarrow> bool list" where
  "hrd_param_bits p = eg_bits (ucast (bit_rate_value_minus1 p)) @ eg_bits (ucast (cpb_size_value_minus1 p)) @
     opt_bits eg_bits (cpb_size_du_value_minus1 p) @ opt_bits eg_bits (bit_rate_du_value_minus1 p) @ [cbr_flag p]"

definition hrd_param_ok :: "bool \<Rightarrow> bool \<Rightarrow> hrd_param option \<Rightarrow> hrd_param \<Rightarrow> bool" where
  "hrd_param_ok nal sub_pic prev p \<longleftrightarrow> nal_hrd p = nal \<and>
     unat (bit_rate_value_minus1 p) \<le> 2 ^ 32 - 2 \<and> unat (cpb_size_value_minus1 p) \<le> 2 ^ 32 - 2 \<and>
     (cpb_size_du_value_minus1 p \<noteq> None) = sub_pic \<and> opt_ok eg_ok (cpb_size_du_value_minus1 p) \<and>
     (bit_rate_du_value_minus1 p \<noteq> None) = sub_pic \<and> opt_ok eg_ok (bit_rate_du_value_minus1 p) \<and>
     (case prev of None \<Rightarrow> True
      | Some q \<Rightarrow> unat (bit_rate_value_minus1 q) < unat (bit_rate_value_minus1 p) \<and>
          unat (cpb_size_value_minus1 p) \<le> unat (cpb_size_value_minus1 q))"

fun hrd_params_ok :: "bool \<Rightarrow> bool \<Rightarrow> hrd_param option \<Rightarrow> hrd_param list \<Rightarrow> bool" where
  "hrd_params_ok nal sub_pic prev [] = True"
| "hrd_params_ok nal sub_pic prev (p # ps) \<longleftrightarrow> hrd_param_ok nal sub_pic prev p \<and> hrd_params_ok nal sub_pic (Some p) ps"

lemma yields_hrd_param: "yields (hrd_param_parse rd nal sub_pic prev) (hrd_param_ok nal sub_pic prev)"
proof -
  have eg: "yields (when_io sub_pic (read_exp_golomb rd)) (\<lambda>v. (v \<noteq> None) = sub_pic \<and> opt_ok eg_ok v)"
    by (rule yields_when [OF yields_read_exp_golomb])
  show ?thesis
    unfolding hrd_param_parse_def Let_def
    by (intro yields_eg_step yields_range_check_step yields_guard_step yields_bnd [OF eg] yields_bit_step yields_ret)
      (auto simp: hrd_param_ok_def word_le_nat_alt word_less_nat_alt
        intro!: order_trans [OF unat_ucast_le] split: option.splits)
qed

lemma yields_hrd_params:
  "yields (hrd_params_parse rd nal sub_pic prev n) (\<lambda>ps. length ps = n \<and> hrd_params_ok nal sub_pic prev ps)"
proof (induction n arbitrary: prev)
  case (Suc n)
  show ?case
    unfolding hrd_params_parse.simps
    by (intro yields_bnd [OF yields_hrd_param] yields_bnd [OF Suc.IH] yields_ret) auto
qed (simp add: yields_ret)

subsection \<open>HrdParametersSubLayer\<close>

record hrd_sub_layer =
  fixed_pic_rate_general_flag :: bool
  fixed_pic_rate_within_cvs_flag :: bool
  elemental_duration_in_tc_minus1 :: "u64 option"
  low_delay_hrd_flag :: bool
  cpb_cnt_minus1 :: u64
  sub_layer_parameters :: "hrd_param list"

text \<open>The parameters of one kind, when they are present.\<close>

definition hrd_group_parse :: "'s read_fn \<Rightarrow> bool \<Rightarrow> bool \<Rightarrow> bool \<Rightarrow> u64 \<Rightarrow> ('s bit_reader, hrd_param list) io" where
  "hrd_group_parse rd present nal sub_pic cnt_minus1 =
     (if present then bnd (lift_res (checked_add cnt_minus1 1)) (\<lambda>n. hrd_params_parse rd nal sub_pic None (unat n))
      else ret [])"

definition hrd_sub_layer_parse :: "'s read_fn \<Rightarrow> bool \<Rightarrow> bool \<Rightarrow> bool \<Rightarrow> ('s bit_reader, hrd_sub_layer) io" where
  "hrd_sub_layer_parse rd sub_pic nal_present vcl_present =
     bnd (read_bit rd) (\<lambda>general.
     bnd (if \<not> general then read_bit rd else ret True) (\<lambda>within.
     bnd (when_io within (bnd (read_exp_golomb rd) (\<lambda>d. bnd (range_check d 0 2047 ''elemental_duration_in_tc_minus1'') (\<lambda>_. ret d)))) (\<lambda>elemental.
     bnd (if within then ret False else read_bit rd) (\<lambda>low_delay.
     bnd (if \<not> low_delay then bnd (read_exp_golomb rd) (\<lambda>n. bnd (range_check n 0 31 ''cpb_cnt_minus1'') (\<lambda>_. ret n)) else ret 0) (\<lambda>cnt.
     bnd (hrd_group_parse rd nal_present True sub_pic cnt) (\<lambda>nals.
     bnd (hrd_group_parse rd vcl_present False sub_pic cnt) (\<lambda>vcls.
     ret \<lparr>fixed_pic_rate_general_flag = general, fixed_pic_rate_within_cvs_flag = within,
          elemental_duration_in_tc_minus1 = elemental, low_delay_hrd_flag = low_delay,
          cpb_cnt_minus1 = cnt, sub_layer_parameters = nals @ vcls\<rparr>)))))))"

definition hrd_sub_layer_bits :: "hrd_sub_layer \<Rightarrow> bool list" where
  "hrd_sub_layer_bits l = fixed_pic_rate_general_flag l #
     (if fixed_pic_rate_general_flag l then [] else [fixed_pic_rate_within_cvs_flag l]) @
     opt_bits eg_bits (elemental_duration_in_tc_minus1 l) @
     (if fixed_pic_rate_within_cvs_flag l then [] else [low_delay_hrd_flag l]) @
     (if low_delay_hrd_flag l then [] else eg_bits (cpb_cnt_minus1 l)) @
     concat (map hrd_param_bits (sub_layer_parameters l))"

text \<open>The parameters for NAL units come first, then those for VCL NAL units, as many of each.\<close>

definition hrd_groups_ok :: "bool \<Rightarrow> bool \<Rightarrow> bool \<Rightarrow> nat \<Rightarrow> hrd_param list \<Rightarrow> bool" where
  "hrd_groups_ok sub_pic nal vcl n ps \<longleftrightarrow> length ps = (of_bool nal + of_bool vcl) * n \<and>
     hrd_params_ok True sub_pic None (take (of_bool nal * n) ps) \<and>
     hrd_params_ok False sub_pic None (drop (of_bool nal * n) ps)"

definition hrd_sub_layer_ok :: "bool \<Rightarrow> bool \<Rightarrow> bool \<Rightarrow> hrd_sub_layer \<Rightarrow> bool" where
  "hrd_sub_layer_ok sub_pic nal vcl l \<longleftrightarrow>
     (fixed_pic_rate_general_flag l \<longrightarrow> fixed_pic_rate_within_cvs_flag l) \<and>
     (elemental_duration_in_tc_minus1 l \<noteq> None) = fixed_pic_rate_within_cvs_flag l \<and>
     opt_ok (\<lambda>d. unat d \<le> 2047) (elemental_duration_in_tc_minus1 l) \<and>
     (fixed_pic_rate_within_cvs_flag l \<longrightarrow> \<not> low_delay_hrd_flag l) \<and>
     (low_delay_hrd_flag l \<longrightarrow> cpb_cnt_minus1 l = 0) \<and> unat (cpb_cnt_minus1 l) \<le> 31 \<and>
     hrd_groups_ok sub_pic nal vcl (unat (cpb_cnt_minus1 l) + 1) (sub_layer_parameters l)"

lemma yields_hrd_group:
  "yields (hrd_group_parse rd present nal sub_pic cnt)
     (\<lambda>ps. length ps = of_bool present * (unat cnt + 1) \<and> hrd_params_ok nal sub_pic None ps)"
  unfolding hrd_group_parse_def
  by (intro yields_if yields_lift_step yields_mono [OF yields_hrd_params] yields_ret) (auto dest: checked_add_Inr)

lemma yields_eg_upto: "yields (bnd (read_exp_golomb rd) (\<lambda>d. bnd (range_check d 0 m w) (\<lambda>_. ret d))) (\<lambda>d. unat d \<le> unat m)"
  by (intro yielding) (simp add: word_le_nat_alt)

lemma hrd_groups_append:
  "length ps = of_bool nal * n \<Longrightarrow> length qs = of_bool vcl * n \<Longrightarrow> hrd_params_ok True sub_pic None ps \<Longrightarrow>
     hrd_params_ok False sub_pic None qs \<Longrightarrow> hrd_groups_ok sub_pic nal vcl n (ps @ qs)"
  by (auto simp: hrd_groups_ok_def)

lemma yields_hrd_sub_layer: "yields (hrd_sub_layer_parse rd sub_pic nal vcl) (hrd_sub_layer_ok sub_pic nal vcl)"
proof -
  have within: "yields (if \<not> g then read_bit rd else ret True) (\<lambda>w. g \<longrightarrow> w)" for g
    by (intro yields_if yields_ret yields_mono [OF yields_any]) auto
  have low: "yields (if w then ret False else read_bit rd) (\<lambda>l. w \<longrightarrow> \<not> l)" for w
    by (intro yields_if yields_ret yields_mono [OF yields_any]) auto
  have cnt: "yields (if \<not> l then bnd (read_exp_golomb rd) (\<lambda>n. bnd (range_check n 0 31 ''cpb_cnt_minus1'') (\<lambda>_. ret n)) else ret 0)
      (\<lambda>n. (l \<longrightarrow> n = 0) \<and> unat n \<le> 31)" for l
    by (intro yields_if yields_ret yields_mono [OF yields_eg_upto]) auto
  show ?thesis
    unfolding hrd_sub_layer_parse_def
    by (intro yields_bit_step yields_bnd [OF within] yields_bnd [OF yields_when [OF yields_eg_upto]] yields_bnd [OF low]
        yields_bnd [OF cnt] yields_bnd [OF yields_hrd_group] yields_ret)
      (auto simp: hrd_sub_layer_ok_def intro: hrd_groups_append)
qed

subsection \<open>HrdParameters\<close>

record sub_pic_hrd =
  tick_divisor_minus2 :: u8
  du_cpb_removal_delay_increment_length_minus1 :: u8
  sub_pic_cpb_params_in_pic_timing_sei_flag :: bool
  dpb_output_delay_du_length_minus1 :: u8
  cpb_size_du_scale :: u8

record common_inf =
  sub_pic_hrd_params :: "sub_pic_hrd option"
  bit_rate_scale :: "u8 option"
  cpb_size_scale :: "u8 option"
  initial_cpb_removal_delay_length_minus1 :: u8
  au_cpb_removal_delay_length_minus1 :: u8
  dpb_output_delay_length_minus1 :: u8

record hrd =
  hrd_common_inf :: common_inf
  hrd_sub_layers :: "hrd_sub_layer list"

definition common_inf_default :: common_inf where
  "common_inf_default = \<lparr>sub_pic_hrd_params = None, bit_rate_scale = None, cpb_size_scale = None,
     initial_cpb_removal_delay_length_minus1 = 23, au_cpb_removal_delay_length_minus1 = 23,
     dpb_output_delay_length_minus1 = 23\<rparr>"

definition sub_pic_hrd_parse :: "'s read_fn \<Rightarrow> 's bit_reader byteorder \<Rightarrow> ('s bit_reader, sub_pic_hrd) io" where
  "sub_pic_hrd_parse rd bo =
     bnd (bo_u8 bo) (\<lambda>tick.
     bnd (read_bits rd 5) (\<lambda>increment.
     bnd (read_bit rd) (\<lambda>sei.
     bnd (read_bits rd 5) (\<lambda>delay.
     ret \<lparr>tick_divisor_minus2 = tick, du_cpb_removal_delay_increment_length_minus1 = ucast increment,
          sub_pic_cpb_params_in_pic_timing_sei_flag = sei, dpb_output_delay_du_length_minus1 = ucast delay,
          cpb_size_du_scale = 0\<rparr>))))"

text \<open>The scale of the sub-picture parameters comes after two fields of the common part.\<close>

definition common_inf_parse :: "'s read_fn \<Rightarrow> 's bit_reader byteorder \<Rightarrow> ('s bit_reader, common_inf) io" where
  "common_inf_parse rd bo =
     bnd (bnd (read_bit rd) (\<lambda>b. when_io b (sub_pic_hrd_parse rd bo))) (\<lambda>sub_pic.
     bnd (read_bits rd 4) (\<lambda>rate_scale.
     bnd (read_bits rd 4) (\<lambda>size_scale.
     bnd (case sub_pic of None \<Rightarrow> ret None
          | Some p \<Rightarrow> bnd (read_bits rd 4) (\<lambda>du_scale. ret (Some (p\<lparr>cpb_size_du_scale := ucast du_scale\<rparr>)))) (\<lambda>sub_pic.
     bnd (read_bits rd 5) (\<lambda>initial.
     bnd (read_bits rd 5) (\<lambda>au.
     bnd (read_bits rd 5) (\<lambda>dpb.
     ret \<lparr>sub_pic_hrd_params = sub_pic, bit_rate_scale = Some (ucast rate_scale), cpb_size_scale = Some (ucast size_scale),
          initial_cpb_removal_delay_length_minus1 = ucast initial, au_cpb_removal_delay_length_minus1 = ucast au,
          dpb_output_delay_length_minus1 = ucast dpb\<rparr>)))))))"

definition hrd_parse :: "'s read_fn \<Rightarrow> 's bit_reader byteorder \<Rightarrow> bool \<Rightarrow> u8 \<Rightarrow> ('s bit_reader, hrd) io" where
  "hrd_parse rd bo common_inf_present max_sub_layers_minus1 =
     bnd (if common_inf_present then read_bit rd else ret False) (\<lambda>nal.
     bnd (if common_inf_present then read_bit rd else ret False) (\<lambda>vcl.
     bnd (if nal \<or> vcl then common_inf_parse rd bo else ret common_inf_default) (\<lambda>common.
     bnd (times_io (unat max_sub_layers_minus1 + 1)
       (hrd_sub_layer_parse rd (sub_pic_hrd_params common \<noteq> None) nal vcl)) (\<lambda>layers.
     ret \<lparr>hrd_common_inf = common, hrd_sub_layers = layers\<rparr>))))"

definition common_inf_bits :: "common_inf \<Rightarrow> bool list" where
  "common_inf_bits c = flag_bits (\<lambda>p. bits_of 8 (tick_divisor_minus2 p) @
       bits_of 5 (du_cpb_removal_delay_increment_length_minus1 p) @ sub_pic_cpb_params_in_pic_timing_sei_flag p #
       bits_of 5 (dpb_output_delay_du_length_minus1 p)) (sub_pic_hrd_params c) @
     bits_of 4 (the (bit_rate_scale c)) @ bits_of 4 (the (cpb_size_scale c)) @
     opt_bits (\<lambda>p. bits_of 4 (cpb_size_du_scale p)) (sub_pic_hrd_params c) @
     bits_of 5 (initial_cpb_removal_delay_length_minus1 c) @ bits_of 5 (au_cpb_removal_delay_length_minus1 c) @
     bits_of 5 (dpb_output_delay_length_minus1 c)"

definition sub_pic_hrd_ok :: "sub_pic_hrd \<Rightarrow> bool" where
  "sub_pic_hrd_ok p \<longleftrightarrow> unat (du_cpb_removal_delay_increment_length_minus1 p) < 2 ^ 5 \<and>
     unat (dpb_output_delay_du_length_minus1 p) < 2 ^ 5 \<and> unat (cpb_size_du_scale p) < 2 ^ 4"

definition common_inf_ok :: "common_inf \<Rightarrow> bool" where
  "common_inf_ok c \<longleftrightarrow> opt_ok sub_pic_hrd_ok (sub_pic_hrd_params c) \<and>
     bit_rate_scale c \<noteq> None \<and> opt_ok (\<lambda>s. unat s < 2 ^ 4) (bit_rate_scale c) \<and>
     cpb_size_scale c \<noteq> None \<and> opt_ok (\<lambda>s. unat s < 2 ^ 4) (cpb_size_scale c) \<and>
     unat (initial_cpb_removal_delay_length_minus1 c) < 2 ^ 5 \<and>
     unat (au_cpb_removal_delay_length_minus1 c) < 2 ^ 5 \<and> unat (dpb_output_delay_length_minus1 c) < 2 ^ 5"

text \<open>Which of the two kinds are present is not kept in the value: it is part of the syntax.\<close>

definition hrd_bits :: "bool \<Rightarrow> bool \<Rightarrow> hrd \<Rightarrow> bool list" where
  "hrd_bits nal vcl h = [nal, vcl] @ (if nal \<or> vcl then common_inf_bits (hrd_common_inf h) else []) @
     concat (map hrd_sub_layer_bits (hrd_sub_layers h))"

definition hrd_ok :: "bool \<Rightarrow> bool \<Rightarrow> u8 \<Rightarrow> hrd \<Rightarrow> bool" where
  "hrd_ok nal vcl max_sub_layers_minus1 h \<longleftrightarrow>
     (if nal \<or> vcl then common_inf_ok (hrd_common_inf h) else hrd_common_inf h = common_inf_default) \<and>
     length (hrd_sub_layers h) = unat max_sub_layers_minus1 + 1 \<and>
     list_all (hrd_sub_layer_ok (sub_pic_hrd_params (hrd_common_inf h) \<noteq> None) nal vcl) (hrd_sub_layers h)"

lemma unat_ucast_less_pow: "unat v < 2 ^ n \<Longrightarrow> unat (ucast (v :: u64) :: u8) < 2 ^ n"
  by (rule unat_ucast_less)

lemma yields_sub_pic_hrd: "yields (sub_pic_hrd_parse rd bo) sub_pic_hrd_ok"
  unfolding sub_pic_hrd_parse_def
  by (intro yields_bo_step yields_bits_step yields_bit_step yields_ret)
    (simp add: sub_pic_hrd_ok_def unat_ucast_less_pow del: power_numeral)

lemma yields_common_inf: "yields (common_inf_parse rd bo) common_inf_ok"
proof -
  have scale: "yields (case sp of None \<Rightarrow> ret None
      | Some p \<Rightarrow> bnd (read_bits rd 4) (\<lambda>d. ret (Some (p\<lparr>cpb_size_du_scale := ucast d\<rparr>)))) (opt_ok sub_pic_hrd_ok)"
    if "opt_ok sub_pic_hrd_ok sp" for sp
    by (cases sp) (use that in \<open>auto simp: opt_ok_def sub_pic_hrd_ok_def intro!: yielding unat_ucast_less\<close>)
  show ?thesis
    unfolding common_inf_parse_def
    by (intro yields_bnd [OF yields_flag_when [OF yields_sub_pic_hrd]] yields_bits_step yields_bnd [OF scale] yields_ret)
      (simp_all add: common_inf_ok_def opt_ok_def unat_ucast_less_pow del: power_numeral)
qed

lemma yields_hrd: "yields (hrd_parse rd bo common_inf_present m) (\<lambda>h. \<exists>nal vcl. hrd_ok nal vcl m h)"
proof -
  have common: "yields (if nal \<or> vcl then common_inf_parse rd bo else ret common_inf_default)
      (\<lambda>c. if nal \<or> vcl then common_inf_ok c else c = common_inf_default)" for nal vcl
    by (intro yields_if yields_ret yields_mono [OF yields_common_inf]) auto
  have body: "yields (bnd (if nal \<or> vcl then common_inf_parse rd bo else ret common_inf_default) (\<lambda>common.
      bnd (times_io (unat m + 1) (hrd_sub_layer_parse rd (sub_pic_hrd_params common \<noteq> None) nal vcl)) (\<lambda>layers.
      ret \<lparr>hrd_common_inf = common, hrd_sub_layers = layers\<rparr>))) (hrd_ok nal vcl m)" for nal vcl
    by (intro yields_bnd [OF common] yields_bnd [OF yields_times [OF yields_hrd_sub_layer]] yields_ret)
      (simp add: hrd_ok_def list_all_iff)
  show ?thesis
    unfolding hrd_parse_def
    by (rule yields_bnd [OF yields_any], rule yields_bnd [OF yields_any], rule yields_mono [OF body]) blast
qed

context byte_source
begin

lemma dec_hrd_param:
  assumes "hrd_param_ok nal sub_pic prev p"
  shows "dec (hrd_param_parse rd nal sub_pic prev) (hrd_param_bits p) p"
proof -
  note ok' = assms [unfolded hrd_param_ok_def]
  have cpb: "dec (when_io sub_pic (read_exp_golomb rd)) (opt_bits eg_bits (cpb_size_du_value_minus1 p)) (cpb_size_du_value_minus1 p)"
    and rate: "dec (when_io sub_pic (read_exp_golomb rd)) (opt_bits eg_bits (bit_rate_du_value_minus1 p)) (bit_rate_du_value_minus1 p)"
    using ok' by (auto intro!: dec_when dec_read_exp_golomb simp: opt_ok_def)
  have guards: "(case prev of None \<Rightarrow> True | Some q \<Rightarrow> \<not> bit_rate_value_minus1 p \<le> bit_rate_value_minus1 q)"
    "(case prev of None \<Rightarrow> True | Some q \<Rightarrow> \<not> cpb_size_value_minus1 p > cpb_size_value_minus1 q)"
    using ok' by (auto simp: word_le_nat_alt word_less_nat_alt split: option.splits)
  note tl = decodes_bnd [OF cpb, OF decodes_bnd [OF rate]]
  show ?thesis
    unfolding hrd_param_parse_def hrd_param_bits_def Let_def
    by (intro decodes_bnd [OF dec_read_exp_golomb] decodes_range_check decodes_guard tl)
      (use ok' guards in \<open>simp_all add: coding cong: option.case_cong\<close>)
qed

lemma dec_hrd_params:
  "hrd_params_ok nal sub_pic prev ps \<Longrightarrow>
     dec (hrd_params_parse rd nal sub_pic prev (length ps)) (concat (map hrd_param_bits ps)) ps"
proof (induction ps arbitrary: prev)
  case (Cons p ps)
  then have "dec (hrd_params_parse rd nal sub_pic prev (Suc (length ps))) (hrd_param_bits p @ concat (map hrd_param_bits ps)) (p # ps)"
    unfolding hrd_params_parse.simps
    by (intro decodes_bnd [OF dec_hrd_param] decodes_last [OF Cons.IH] decodes_end refl) simp_all
  then show ?case by simp
qed (simp add: decodes_ret)

lemma dec_hrd_group:
  assumes "hrd_params_ok nal sub_pic None ps" and "length ps = of_bool present * (unat cnt + 1)" and "unat cnt \<le> 31"
  shows "dec (hrd_group_parse rd present nal sub_pic cnt) (concat (map hrd_param_bits ps)) ps"
proof (cases present)
  case True
  have "checked_add cnt 1 = Inr (cnt + 1)" "unat (cnt + 1) = unat cnt + 1"
    using assms(3) by (simp_all add: checked_add_def unat_word_ariths)
  with True assms(2) dec_hrd_params [OF assms(1)] show ?thesis by (simp add: hrd_group_parse_def)
qed (use assms in \<open>simp add: hrd_group_parse_def decodes_ret\<close>)

lemma dec_eg_upto:
  "unat d \<le> unat m \<Longrightarrow> eg_ok d \<Longrightarrow> dec (bnd (read_exp_golomb rd) (\<lambda>d. bnd (range_check d 0 m w) (\<lambda>_. ret d))) (eg_bits d) d"
  by (simp add: coding word_le_nat_alt)

lemma dec_hrd_sub_layer:
  assumes "hrd_sub_layer_ok sub_pic nal vcl l"
  shows "dec (hrd_sub_layer_parse rd sub_pic nal vcl) (hrd_sub_layer_bits l) l"
proof -
  let ?w = "fixed_pic_rate_within_cvs_flag l" and ?low = "low_delay_hrd_flag l" and ?n = "unat (cpb_cnt_minus1 l) + 1"
  let ?nals = "take (of_bool nal * ?n) (sub_layer_parameters l)" and ?vcls = "drop (of_bool nal * ?n) (sub_layer_parameters l)"
  note ok' = assms [unfolded hrd_sub_layer_ok_def]
  have el: "dec (when_io ?w (bnd (read_exp_golomb rd) (\<lambda>d. bnd (range_check d 0 2047 ''elemental_duration_in_tc_minus1'') (\<lambda>_. ret d))))
      (opt_bits eg_bits (elemental_duration_in_tc_minus1 l)) (elemental_duration_in_tc_minus1 l)"
    using ok' by (intro dec_when dec_eg_upto) (auto simp: opt_ok_def eg_ok_unat)
  have low: "dec (if ?w then ret False else read_bit rd) (if ?w then [] else [?low]) ?low"
    using ok' by (auto simp: decodes_ret dec_read_bit)
  have cnt: "dec (if \<not> ?low then bnd (read_exp_golomb rd) (\<lambda>n. bnd (range_check n 0 31 ''cpb_cnt_minus1'') (\<lambda>_. ret n)) else ret 0)
      (if ?low then [] else eg_bits (cpb_cnt_minus1 l)) (cpb_cnt_minus1 l)"
    using ok' by (auto simp: decodes_ret eg_ok_unat intro!: dec_eg_upto)
  have within: "dec (if \<not> fixed_pic_rate_general_flag l then read_bit rd else ret True)
      (if fixed_pic_rate_general_flag l then [] else [?w]) ?w"
    using ok' by (auto simp: decodes_ret dec_read_bit)
  have groups: "dec (hrd_group_parse rd nal True sub_pic (cpb_cnt_minus1 l)) (concat (map hrd_param_bits ?nals)) ?nals"
    "dec (hrd_group_parse rd vcl False sub_pic (cpb_cnt_minus1 l)) (concat (map hrd_param_bits ?vcls)) ?vcls"
    by (rule dec_hrd_group; use ok' in \<open>auto simp: hrd_groups_ok_def of_bool_def\<close>)+
  have params: "concat (map hrd_param_bits (sub_layer_parameters l)) =
      concat (map hrd_param_bits ?nals) @ concat (map hrd_param_bits ?vcls)"
    unfolding concat_append [symmetric] map_append [symmetric] append_take_drop_id ..
  show ?thesis
    unfolding hrd_sub_layer_parse_def hrd_sub_layer_bits_def params
    by (intro dec_bit_step decodes_bnd [OF within] decodes_bnd [OF el] decodes_bnd [OF low] decodes_bnd [OF cnt]
        decodes_bnd [OF groups(1)] decodes_last [OF groups(2)] decodes_end) simp
qed

lemma dec_common_inf:
  assumes bo: "byteorder_reads (bit_reader_read rd) bo" and "common_inf_ok c"
  shows "dec (common_inf_parse rd bo) (common_inf_bits c) c"
proof -
  note ok' = assms(2) [unfolded common_inf_ok_def]
  let ?sp = "sub_pic_hrd_params c"
  have "dec (bnd (read_bit rd) (\<lambda>b. when_io b (sub_pic_hrd_parse rd bo))) (flag_bits (\<lambda>p. bits_of 8 (tick_divisor_minus2 p) @
       bits_of 5 (du_cpb_removal_delay_increment_length_minus1 p) @ sub_pic_cpb_params_in_pic_timing_sei_flag p #
       bits_of 5 (dpb_output_delay_du_length_minus1 p)) ?sp) (map_option (cpb_size_du_scale_update (\<lambda>_. 0)) ?sp)"
  proof (cases ?sp)
    case None
    then show ?thesis by (simp add: flag_bits_def opt_bits_def coding)
  next
    case (Some p)
    with ok' have "sub_pic_hrd_ok p" by (simp add: opt_ok_def)
    then show ?thesis
      by (cases p) (simp add: Some flag_bits_def opt_bits_def sub_pic_hrd_parse_def sub_pic_hrd_ok_def bo coding)
  qed
  note sp = decodes_bnd [OF this]
  have "dec (case map_option (cpb_size_du_scale_update (\<lambda>_. 0)) ?sp of None \<Rightarrow> ret None
      | Some p \<Rightarrow> bnd (read_bits rd 4) (\<lambda>d. ret (Some (p\<lparr>cpb_size_du_scale := ucast d\<rparr>))))
      (opt_bits (\<lambda>p. bits_of 4 (cpb_size_du_scale p)) ?sp) ?sp"
    using ok' by (cases ?sp) (simp_all add: opt_bits_def opt_ok_def sub_pic_hrd_ok_def coding)
  note scale = decodes_bnd [OF this]
  obtain r s where "bit_rate_scale c = Some r" "cpb_size_scale c = Some s" using ok' by blast
  with ok' show ?thesis
    unfolding common_inf_parse_def common_inf_bits_def
    by (intro sp decodes_bnd [OF dec_field] scale) (simp_all add: opt_ok_def coding)
qed

lemma dec_hrd:
  assumes bo: "byteorder_reads (bit_reader_read rd) bo" and "hrd_ok nal vcl m h"
  shows "dec (hrd_parse rd bo True m) (hrd_bits nal vcl h) h"
proof -
  note ok' = assms(2) [unfolded hrd_ok_def]
  have common: "dec (if nal \<or> vcl then common_inf_parse rd bo else ret common_inf_default)
      (if nal \<or> vcl then common_inf_bits (hrd_common_inf h) else []) (hrd_common_inf h)"
    using ok' dec_common_inf [OF bo] by (auto simp: decodes_ret split: if_splits)
  have "dec (times_io (length (hrd_sub_layers h)) (hrd_sub_layer_parse rd (sub_pic_hrd_params (hrd_common_inf h) \<noteq> None) nal vcl))
      (concat (map hrd_sub_layer_bits (hrd_sub_layers h))) (hrd_sub_layers h)"
    using ok' by (intro decodes_times dec_hrd_sub_layer) (simp add: list_all_iff)
  then have layers: "dec (times_io (unat m + 1) (hrd_sub_layer_parse rd (sub_pic_hrd_params (hrd_common_inf h) \<noteq> None) nal vcl))
      (concat (map hrd_sub_layer_bits (hrd_sub_layers h))) (hrd_sub_layers h)"
    using ok' by simp
  show ?thesis
    unfolding hrd_parse_def hrd_bits_def append_Cons append_Nil if_True
    by (intro dec_bit_step decodes_bnd [OF common] decodes_last [OF layers] decodes_end) simp
qed

end

text \<open>
  \<open>cpb_size\<close> is computed from the bit rate: of two parameters that differ only in their
  buffer sizes it gives the same number.
\<close>

theorem cpb_size_ignores_cpb_size:
  "cpb_size (p\<lparr>cpb_size_value_minus1 := a, cpb_size_du_value_minus1 := b\<rparr>) sub_pic scale vf nf m =
     cpb_size p sub_pic scale vf nf m"
  by (simp add: cpb_size_def hrd_scaled_def)

end
