(* ===== verification/H265_Parts.thy ===== *)
theory H265_Parts
  imports Coding
begin

text \<open>
  The smaller parts of an H.265 sequence parameter set, \<open>crates/h265/src/sps/*.rs\<close>: for each
  its \<open>parse\<close>, the syntax of the standard (\<open>*_bits\<close>) and the values that have one
  (\<open>*_ok\<close>); that \<open>parse\<close> decodes the syntax and returns only such values.
\<close>

subsection \<open>conformance_window.rs\<close>

record conformance_window =
  conf_win_left_offset :: u64
  conf_win_right_offset :: u64
  conf_win_top_offset :: u64
  conf_win_bottom_offset :: u64

definition conformance_window_default :: conformance_window where
  "conformance_window_default = \<lparr>conf_win_left_offset = 0, conf_win_right_offset = 0,
     conf_win_top_offset = 0, conf_win_bottom_offset = 0\<rparr>"

definition conformance_window_parse :: "'s read_fn \<Rightarrow> ('s bit_reader, conformance_window) io" where
  "conformance_window_parse rd =
     bnd (read_exp_golomb rd) (\<lambda>left.
     bnd (read_exp_golomb rd) (\<lambda>right.
     bnd (read_exp_golomb rd) (\<lambda>top.
     bnd (read_exp_golomb rd) (\<lambda>bottom.
     ret \<lparr>conf_win_left_offset = left, conf_win_right_offset = right,
          conf_win_top_offset = top, conf_win_bottom_offset = bottom\<rparr>))))"

definition conformance_window_bits :: "conformance_window \<Rightarrow> bool list" where
  "conformance_window_bits w = eg_bits (conf_win_left_offset w) @ eg_bits (conf_win_right_offset w) @
     eg_bits (conf_win_top_offset w) @ eg_bits (conf_win_bottom_offset w)"

definition conformance_window_ok :: "conformance_window \<Rightarrow> bool" where
  "conformance_window_ok w \<longleftrightarrow> eg_ok (conf_win_left_offset w) \<and> eg_ok (conf_win_right_offset w) \<and>
     eg_ok (conf_win_top_offset w) \<and> eg_ok (conf_win_bottom_offset w)"

lemma yields_conformance_window: "yields (conformance_window_parse rd) conformance_window_ok"
  unfolding conformance_window_parse_def by (intro yielding) (simp add: conformance_window_ok_def)

lemma conformance_window_default_ok: "conformance_window_ok conformance_window_default"
  by (simp add: conformance_window_ok_def conformance_window_default_def eg_ok_unat)

subsection \<open>sub_layer_ordering_info.rs\<close>

record sub_layer_ordering_info =
  sps_max_dec_pic_buffering_minus1 :: "u64 list"
  sps_max_num_reorder_pics :: "u64 list"
  sps_max_latency_increase_plus1 :: "u32 list"

type_synonym ordering = "u64 \<times> u64 \<times> u32"

definition ordering_parse :: "'s read_fn \<Rightarrow> ordering option \<Rightarrow> ('s bit_reader, ordering) io" where
  "ordering_parse rd prev =
     bnd (read_exp_golomb rd) (\<lambda>dpb.
     bnd (range_check dpb 0 16 ''sps_max_dec_pic_buffering_minus1[i]'') (\<lambda>_.
     bnd (guard (case prev of None \<Rightarrow> True | Some (d, _, _) \<Rightarrow> \<not> dpb < d)
       (IoErr InvalidData ''sps_max_dec_pic_buffering_minus1[i] must be greater than or equal to sps_max_dec_pic_buffering_minus1[i-1]'')) (\<lambda>_.
     bnd (read_exp_golomb rd) (\<lambda>reorder.
     bnd (range_check reorder 0 dpb ''sps_max_num_reorder_pics[i]'') (\<lambda>_.
     bnd (guard (case prev of None \<Rightarrow> True | Some (_, r, _) \<Rightarrow> \<not> reorder < r)
       (IoErr InvalidData ''sps_max_num_reorder_pics[i] must be greater than or equal to sps_max_num_reorder_pics[i-1]'')) (\<lambda>_.
     bnd (read_exp_golomb rd) (\<lambda>latency.
     bnd (range_check latency 0 (2 ^ 32 - 2) ''sps_max_latency_increase_plus1_i'') (\<lambda>_.
     ret (dpb, reorder, ucast latency)))))))))"

fun orderings_parse :: "'s read_fn \<Rightarrow> ordering option \<Rightarrow> nat \<Rightarrow> ('s bit_reader, ordering list) io" where
  "orderings_parse rd prev 0 = ret []"
| "orderings_parse rd prev (Suc n) =
     bnd (ordering_parse rd prev) (\<lambda>x. bnd (orderings_parse rd (Some x) n) (\<lambda>xs. ret (x # xs)))"

definition ordering_info :: "ordering list \<Rightarrow> sub_layer_ordering_info" where
  "ordering_info xs = \<lparr>sps_max_dec_pic_buffering_minus1 = map fst xs,
     sps_max_num_reorder_pics = map (fst \<circ> snd) xs, sps_max_latency_increase_plus1 = map (snd \<circ> snd) xs\<rparr>"

definition sub_layer_ordering_parse :: "'s read_fn \<Rightarrow> bool \<Rightarrow> nat \<Rightarrow> ('s bit_reader, sub_layer_ordering_info) io" where
  "sub_layer_ordering_parse rd present n =
     (if present then bnd (orderings_parse rd None (n + 1)) (\<lambda>xs. ret (ordering_info xs))
      else bnd (ordering_parse rd None) (\<lambda>x. ret (ordering_info (replicate (n + 1) x))))"

text \<open>\<open>Some(reorder + latency.checked_sub(1)? as u64)\<close>\<close>

definition max_latency_pictures :: "u64 \<times> u32 \<Rightarrow> err + u64 option" where
  "max_latency_pictures = (\<lambda>(reorder, latency).
     if latency = 0 then Inr None
     else rbind (checked_add reorder (ucast (latency - 1))) (\<lambda>n. Inr (Some n)))"

fun all_res :: "(err + 'a) list \<Rightarrow> err + 'a list" where
  "all_res [] = Inr []"
| "all_res (r # rs) = rbind r (\<lambda>a. rbind (all_res rs) (\<lambda>as. Inr (a # as)))"

definition sps_max_latency_pictures :: "sub_layer_ordering_info \<Rightarrow> err + u64 option list" where
  "sps_max_latency_pictures s =
     all_res (map max_latency_pictures (zip (sps_max_num_reorder_pics s) (sps_max_latency_increase_plus1 s)))"

definition sps_max_latency_pictures_at :: "sub_layer_ordering_info \<Rightarrow> nat \<Rightarrow> err + u64 option" where
  "sps_max_latency_pictures_at s i =
     (if i < length (sps_max_num_reorder_pics s) \<and> i < length (sps_max_latency_increase_plus1 s)
      then max_latency_pictures (sps_max_num_reorder_pics s ! i, sps_max_latency_increase_plus1 s ! i)
      else Inr None)"

definition ordering_bits :: "ordering \<Rightarrow> bool list" where
  "ordering_bits = (\<lambda>(d, r, l). eg_bits d @ eg_bits r @ eg_bits (ucast l))"

definition ordering_ok :: "ordering option \<Rightarrow> ordering \<Rightarrow> bool" where
  "ordering_ok prev = (\<lambda>(d, r, l). unat d \<le> 16 \<and> unat r \<le> unat d \<and> unat l \<le> 2 ^ 32 - 2 \<and>
     (case prev of None \<Rightarrow> True | Some (d', r', _) \<Rightarrow> unat d' \<le> unat d \<and> unat r' \<le> unat r))"

fun orderings_ok :: "ordering option \<Rightarrow> ordering list \<Rightarrow> bool" where
  "orderings_ok prev [] = True"
| "orderings_ok prev (x # xs) \<longleftrightarrow> ordering_ok prev x \<and> orderings_ok (Some x) xs"

definition sub_layer_ordering_bits :: "bool \<Rightarrow> ordering list \<Rightarrow> bool list" where
  "sub_layer_ordering_bits present xs = (if present then concat (map ordering_bits xs) else ordering_bits (hd xs))"

definition sub_layer_ordering_ok :: "bool \<Rightarrow> nat \<Rightarrow> ordering list \<Rightarrow> bool" where
  "sub_layer_ordering_ok present n xs \<longleftrightarrow> length xs = n + 1 \<and>
     (if present then orderings_ok None xs else xs = replicate (n + 1) (hd xs) \<and> ordering_ok None (hd xs))"

lemma unat_u64_max32: "unat (2 ^ 32 - 2 :: u64) = 2 ^ 32 - 2" "unat (4294967294 :: u64) = 4294967294"
  by simp_all

lemma yields_ordering: "yields (ordering_parse rd prev) (ordering_ok prev)"
  unfolding ordering_parse_def
  by (intro yielding) (auto simp: ordering_ok_def word_le_nat_alt word_less_nat_alt
      intro!: order_trans [OF unat_ucast_le] split: option.splits prod.splits)

lemma yields_orderings: "yields (orderings_parse rd prev n) (\<lambda>xs. length xs = n \<and> orderings_ok prev xs)"
proof (induction n arbitrary: prev)
  case (Suc n)
  show ?case
    unfolding orderings_parse.simps
    by (intro yields_bnd [OF yields_ordering] yields_bnd [OF Suc.IH] yields_ret) auto
qed (simp add: yields_ret)

text \<open>No overflow: the sums are of numbers that \<open>parse\<close> has bounded.\<close>

lemma max_latency_pictures_ok:
  "unat r \<le> 16 \<Longrightarrow> max_latency_pictures (r, l) =
     Inr (if l = 0 then None else Some (r + ucast (l - 1)))"
proof -
  assume "unat r \<le> 16"
  moreover have "unat (ucast (l - 1) :: u64) < 2 ^ 32" by (simp add: unat_ucast_up)
  ultimately show ?thesis by (simp add: max_latency_pictures_def checked_add_def)
qed

context byte_source
begin

lemma dec_conformance_window:
  "conformance_window_ok w \<Longrightarrow> dec (conformance_window_parse rd) (conformance_window_bits w) w"
  by (cases w) (simp add: conformance_window_ok_def conformance_window_parse_def conformance_window_bits_def coding)

lemma dec_ordering: "ordering_ok prev x \<Longrightarrow> dec (ordering_parse rd prev) (ordering_bits x) x"
  by (cases x; cases prev)
    (auto simp: ordering_ok_def ordering_parse_def ordering_bits_def word_le_nat_alt word_less_nat_alt
      unat_ucast_up eg_ok_unat not_less intro!: coding)

lemma dec_orderings:
  "orderings_ok prev xs \<Longrightarrow> dec (orderings_parse rd prev (length xs)) (concat (map ordering_bits xs)) xs"
proof (induction xs arbitrary: prev)
  case (Cons x xs)
  then have "dec (orderings_parse rd prev (Suc (length xs))) (ordering_bits x @ concat (map ordering_bits xs)) (x # xs)"
    unfolding orderings_parse.simps
    by (intro decodes_bnd [OF dec_ordering] decodes_last [OF Cons.IH] decodes_end refl) simp_all
  then show ?case by simp
qed (simp add: decodes_ret)

lemma dec_sub_layer_ordering:
  assumes "sub_layer_ordering_ok present n xs"
  shows "dec (sub_layer_ordering_parse rd present n) (sub_layer_ordering_bits present xs) (ordering_info xs)"
proof (cases present)
  case True
  with assms have ok': "orderings_ok None xs" and len: "length xs = n + 1" by (simp_all add: sub_layer_ordering_ok_def)
  from dec_orderings [OF ok'] have "dec (orderings_parse rd None (n + 1)) (concat (map ordering_bits xs)) xs"
    by (simp only: len)
  with True show ?thesis
    unfolding sub_layer_ordering_parse_def sub_layer_ordering_bits_def if_P [OF True]
    by (intro decodes_last [where x = xs] decodes_end refl) simp_all
next
  case False
  with assms have "ordering_ok None (hd xs)" and xs: "replicate (n + 1) (hd xs) = xs"
    by (simp_all add: sub_layer_ordering_ok_def)
  then show ?thesis
    unfolding sub_layer_ordering_parse_def sub_layer_ordering_bits_def if_not_P [OF False]
    by (intro decodes_last [OF dec_ordering] decodes_end) (simp_all only: xs)
qed

end

lemma yields_sub_layer_ordering:
  "yields (sub_layer_ordering_parse rd present n) (\<lambda>s. \<exists>xs. s = ordering_info xs \<and> sub_layer_ordering_ok present n xs)"
  unfolding sub_layer_ordering_parse_def
  by (intro yields_if yields_bnd [OF yields_orderings] yields_bnd [OF yields_ordering] yields_ret)
    (auto simp: sub_layer_ordering_ok_def)

subsection \<open>long_term_ref_pics.rs\<close>

record long_term_ref_pics =
  lt_ref_pic_poc_lsb_sps :: "u64 list"
  used_by_curr_pic_lt_sps_flag :: "bool list"

definition long_term_ref_pic_parse :: "'s read_fn \<Rightarrow> nat \<Rightarrow> ('s bit_reader, u64 \<times> bool) io" where
  "long_term_ref_pic_parse rd n = bnd (read_bits rd n) (\<lambda>lsb. bnd (read_bit rd) (\<lambda>used. ret (lsb, used)))"

definition long_term_ref_pics_of :: "(u64 \<times> bool) list \<Rightarrow> long_term_ref_pics" where
  "long_term_ref_pics_of xs = \<lparr>lt_ref_pic_poc_lsb_sps = map fst xs, used_by_curr_pic_lt_sps_flag = map snd xs\<rparr>"

definition long_term_ref_pics_parse :: "'s read_fn \<Rightarrow> u8 \<Rightarrow> ('s bit_reader, long_term_ref_pics) io" where
  "long_term_ref_pics_parse rd log2_max_minus4 =
     bnd (read_exp_golomb rd) (\<lambda>num.
     bnd (range_check num 0 32 ''num_long_term_ref_pics_sps'') (\<lambda>_.
     bnd (lift_res (checked_add log2_max_minus4 4)) (\<lambda>n.
     bnd (times_io (unat num) (long_term_ref_pic_parse rd (unat n))) (\<lambda>xs.
     ret (long_term_ref_pics_of xs)))))"

definition long_term_ref_pics_bits :: "u8 \<Rightarrow> long_term_ref_pics \<Rightarrow> bool list" where
  "long_term_ref_pics_bits m p = eg_bits (of_nat (length (lt_ref_pic_poc_lsb_sps p))) @
     concat (map (\<lambda>(lsb, used). bits_of (unat m + 4) lsb @ [used])
       (zip (lt_ref_pic_poc_lsb_sps p) (used_by_curr_pic_lt_sps_flag p)))"

definition long_term_ref_pics_ok :: "u8 \<Rightarrow> long_term_ref_pics \<Rightarrow> bool" where
  "long_term_ref_pics_ok m p \<longleftrightarrow> length (lt_ref_pic_poc_lsb_sps p) \<le> 32 \<and>
     length (used_by_curr_pic_lt_sps_flag p) = length (lt_ref_pic_poc_lsb_sps p) \<and>
     list_all (\<lambda>lsb. unat lsb < 2 ^ (unat m + 4)) (lt_ref_pic_poc_lsb_sps p)"

context byte_source
begin

lemma dec_long_term_ref_pics:
  assumes p: "long_term_ref_pics_ok m p" and m: "unat m \<le> 12"
  shows "dec (long_term_ref_pics_parse rd m) (long_term_ref_pics_bits m p) p"
proof -
  let ?xs = "zip (lt_ref_pic_poc_lsb_sps p) (used_by_curr_pic_lt_sps_flag p)"
  have len: "length ?xs = length (lt_ref_pic_poc_lsb_sps p)" using p by (simp add: long_term_ref_pics_ok_def)
  have n: "unat (of_nat (length ?xs) :: u64) = length ?xs"
    using p len by (simp add: long_term_ref_pics_ok_def unat_of_nat)
  have add: "checked_add m 4 = Inr (m + 4)" and m4: "unat (m + 4) = unat m + 4"
    using m by (simp_all add: checked_add_def unat_word_ariths)
  have one: "dec (long_term_ref_pic_parse rd (unat m + 4)) (bits_of (unat m + 4) lsb @ [used]) (lsb, used)"
    if "unat lsb < 2 ^ (unat m + 4)" for lsb used
    using that m unfolding long_term_ref_pic_parse_def
    by (intro decodes_bnd [where x = "ucast lsb"] dec_field dec_bit_last decodes_end) simp_all
  have "dec (times_io (length ?xs) (long_term_ref_pic_parse rd (unat m + 4)))
      (concat (map (\<lambda>(lsb, used). bits_of (unat m + 4) lsb @ [used]) ?xs)) ?xs"
  proof (rule decodes_times)
    fix x
    assume "x \<in> set ?xs"
    then have "fst x \<in> set (lt_ref_pic_poc_lsb_sps p)" by (metis prod.collapse set_zip_leftD)
    with p have "unat (fst x) < 2 ^ (unat m + 4)" by (simp add: long_term_ref_pics_ok_def list_all_iff)
    with one show "dec (long_term_ref_pic_parse rd (unat m + 4)) (case x of (lsb, used) \<Rightarrow> bits_of (unat m + 4) lsb @ [used]) x"
      by (cases x) simp
  qed
  note xs = decodes_last [OF this]
  have "eg_ok (of_nat (length ?xs))" "(of_nat (length ?xs) :: u64) \<le> 32"
    using p len n by (simp_all add: long_term_ref_pics_ok_def eg_ok_unat word_le_nat_alt)
  moreover have "long_term_ref_pics_of ?xs = p"
    using p by (cases p) (simp add: long_term_ref_pics_of_def long_term_ref_pics_ok_def)
  ultimately show ?thesis
    unfolding long_term_ref_pics_parse_def long_term_ref_pics_bits_def len [symmetric]
    by (intro decodes_bnd [OF dec_read_exp_golomb] decodes_range_check)
      (simp_all add: n add m4 decodes_end xs del: length_zip)
qed

end

lemma yields_long_term_ref_pics:
  assumes "unat m \<le> 12"
  shows "yields (long_term_ref_pics_parse rd m) (long_term_ref_pics_ok m)"
proof -
  have one: "yields (long_term_ref_pic_parse rd n) (\<lambda>x. unat (fst x) < 2 ^ n)" for n
    unfolding long_term_ref_pic_parse_def by (intro yielding) simp
  show ?thesis
    unfolding long_term_ref_pics_parse_def
    by (intro yields_eg_step yields_range_check_step yields_lift_step yields_bnd [OF yields_times [OF one]] yields_ret)
      (auto simp: long_term_ref_pics_ok_def long_term_ref_pics_of_def word_le_nat_alt list_all_iff dest!: checked_add_Inr)
qed

end
