(* ===== verification/H265_Profile.thy ===== *)
theory H265_Profile
  imports H265_Nal
begin

text \<open>
  \<open>crates/h265/src/sps/profile_tier_level.rs\<close>: profile, tier and level of the stream and of its
  temporal sub-layers. A sub-layer that does not carry a profile of its own inherits that of
  the next higher one.
\<close>

subsection \<open>Data\<close>

record full_flags =
  max_12bit_constraint_flag :: bool
  max_10bit_constraint_flag :: bool
  max_8bit_constraint_flag :: bool
  max_422chroma_constraint_flag :: bool
  max_420chroma_constraint_flag :: bool
  max_monochrome_constraint_flag :: bool
  intra_constraint_flag :: bool
  one_picture_only_constraint_flag :: bool
  lower_bit_rate_constraint_flag :: bool
  max_14bit_constraint_flag :: "bool option"

datatype profile_additional_flags = Full full_flags | Main10Profile bool | NoFlags

record profile =
  profile_space :: u8
  tier_flag :: bool
  profile_idc :: u8
  profile_compatibility_flag :: u32
  progressive_source_flag :: bool
  interlaced_source_flag :: bool
  non_packed_constraint_flag :: bool
  frame_only_constraint_flag :: bool
  additional_flags :: profile_additional_flags
  inbld_flag :: "bool option"
  level_idc :: "u8 option"

record profile_tier_level =
  general_profile :: profile
  sub_layer_profiles :: "profile list"

text \<open>\<open>ProfileCompatibilityFlags\<close>: the flag of profile \<open>j\<close> is \<open>1 << (31 - j)\<close>.\<close>

definition profile_flag :: "nat \<Rightarrow> u32" where
  "profile_flag j = push_bit (31 - j) 1"

fun profile_flags :: "nat list \<Rightarrow> u32" where
  "profile_flags [] = 0"
| "profile_flags (j # js) = profile_flag j OR profile_flags js"

subsection \<open>parse\<close>

text \<open>\<open>profiles.contains(1 << profile_idc) || profile_compatibility_flag.intersects(profiles)\<close>\<close>

definition check_profile_idcs :: "u8 \<Rightarrow> u32 \<Rightarrow> nat list \<Rightarrow> bool" where
  "check_profile_idcs idc compatible profiles \<longleftrightarrow>
     profile_flags profiles AND push_bit (unat idc) 1 = push_bit (unat idc) 1 \<or>
     compatible AND profile_flags profiles \<noteq> 0"

definition full_profiles :: "nat list" where
  "full_profiles = [4, 5, 6, 7, 8, 9, 10, 11]"

definition max_14bit_profiles :: "nat list" where
  "max_14bit_profiles = [5, 9, 10, 11]"

definition inbld_profiles :: "nat list" where
  "inbld_profiles = [1, 2, 3, 4, 5, 9, 11]"

definition full_flags_parse :: "'s read_fn \<Rightarrow> bool \<Rightarrow> ('s bit_reader, full_flags) io" where
  "full_flags_parse rd has_14bit =
     bnd (read_bit rd) (\<lambda>max_12bit.
     bnd (read_bit rd) (\<lambda>max_10bit.
     bnd (read_bit rd) (\<lambda>max_8bit.
     bnd (read_bit rd) (\<lambda>max_422chroma.
     bnd (read_bit rd) (\<lambda>max_420chroma.
     bnd (read_bit rd) (\<lambda>max_monochrome.
     bnd (read_bit rd) (\<lambda>intra.
     bnd (read_bit rd) (\<lambda>one_picture_only.
     bnd (read_bit rd) (\<lambda>lower_bit_rate.
     bnd (if has_14bit then bnd (read_bit rd) (\<lambda>max_14bit. bnd (read_bits rd 33) (\<lambda>_. ret (Some max_14bit)))
          else bnd (read_bits rd 34) (\<lambda>_. ret None)) (\<lambda>max_14bit.
     ret \<lparr>max_12bit_constraint_flag = max_12bit, max_10bit_constraint_flag = max_10bit,
          max_8bit_constraint_flag = max_8bit, max_422chroma_constraint_flag = max_422chroma,
          max_420chroma_constraint_flag = max_420chroma, max_monochrome_constraint_flag = max_monochrome,
          intra_constraint_flag = intra, one_picture_only_constraint_flag = one_picture_only,
          lower_bit_rate_constraint_flag = lower_bit_rate, max_14bit_constraint_flag = max_14bit\<rparr>))))))))))"

definition additional_flags_parse :: "'s read_fn \<Rightarrow> (nat list \<Rightarrow> bool) \<Rightarrow> ('s bit_reader, profile_additional_flags) io" where
  "additional_flags_parse rd check =
     (if check full_profiles then
        bnd (full_flags_parse rd (check max_14bit_profiles)) (\<lambda>f. ret (Full f))
      else if check [2] then
        bnd (read_bits rd 7) (\<lambda>_.
        bnd (read_bit rd) (\<lambda>one_picture_only.
        bnd (read_bits rd 35) (\<lambda>_.
        ret (Main10Profile one_picture_only))))
      else bnd (read_bits rd 43) (\<lambda>_. ret NoFlags))"

definition level_idc_parse :: "'s read_fn \<Rightarrow> ('s bit_reader, u8) io" where
  "level_idc_parse rd =
     bnd (read_bits rd 8) (\<lambda>level. let level = ucast level in
     bnd (range_check level 0 254 ''level_idc'') (\<lambda>_. ret level))"

definition profile_parse :: "'s read_fn \<Rightarrow> 's bit_reader byteorder \<Rightarrow> bool \<Rightarrow> ('s bit_reader, profile) io" where
  "profile_parse rd bo level_present =
     bnd (read_bits rd 2) (\<lambda>space.
     bnd (read_bit rd) (\<lambda>tier.
     bnd (read_bits rd 5) (\<lambda>idc. let idc = ucast idc in
     bnd (bo_u32 bo) (\<lambda>compatible.
     bnd (read_bit rd) (\<lambda>progressive.
     bnd (read_bit rd) (\<lambda>interlaced.
     bnd (read_bit rd) (\<lambda>non_packed.
     bnd (read_bit rd) (\<lambda>frame_only.
     bnd (additional_flags_parse rd (check_profile_idcs idc compatible)) (\<lambda>flags.
     bnd (read_bit rd) (\<lambda>inbld.
     bnd (when_io level_present (level_idc_parse rd)) (\<lambda>level.
     ret \<lparr>profile_space = ucast space, tier_flag = tier, profile_idc = idc,
          profile_compatibility_flag = compatible, progressive_source_flag = progressive,
          interlaced_source_flag = interlaced, non_packed_constraint_flag = non_packed,
          frame_only_constraint_flag = frame_only, additional_flags = flags,
          inbld_flag = (if check_profile_idcs idc compatible inbld_profiles then Some inbld else None),
          level_idc = level\<rparr>)))))))))))"

fun flags_merge :: "profile_additional_flags \<Rightarrow> profile_additional_flags \<Rightarrow> profile_additional_flags" where
  "flags_merge (Full f) d = Full f"
| "flags_merge (Main10Profile one) (Full d) = Full (d\<lparr>one_picture_only_constraint_flag := one\<rparr>)"
| "flags_merge (Main10Profile one) d = Main10Profile one"
| "flags_merge NoFlags d = d"

definition opt_or :: "'a option \<Rightarrow> 'a option \<Rightarrow> 'a option" where
  "opt_or a b = (case a of None \<Rightarrow> b | Some x \<Rightarrow> Some x)"

definition profile_merge :: "profile \<Rightarrow> profile \<Rightarrow> profile" where
  "profile_merge p defaults = p\<lparr>additional_flags := flags_merge (additional_flags p) (additional_flags defaults),
     inbld_flag := opt_or (inbld_flag p) (inbld_flag defaults), level_idc := opt_or (level_idc p) (level_idc defaults)\<rparr>"

text \<open>The map over the reversed profiles, with \<open>last_profile\<close> as its state.\<close>

fun merge_loop :: "profile \<Rightarrow> profile option list \<Rightarrow> profile list" where
  "merge_loop last_profile [] = []"
| "merge_loop last_profile (Some p # ps) =
     (let p = profile_merge p last_profile in p # merge_loop p ps)"
| "merge_loop last_profile (None # ps) = last_profile # merge_loop last_profile ps"

text \<open>One sub-layer: its profile and its level, each if its flag says so.\<close>

definition sub_layer_parse :: "'s read_fn \<Rightarrow> 's bit_reader byteorder \<Rightarrow> bool \<times> bool \<Rightarrow>
    ('s bit_reader, profile option \<times> u8 option) io" where
  "sub_layer_parse rd bo = (\<lambda>(profile_present, level_present).
     bnd (when_io profile_present (profile_parse rd bo level_present)) (\<lambda>p.
     bnd (when_io level_present (bo_u8 bo)) (\<lambda>level.
     ret (p, level))))"

fun sub_layers_parse :: "'s read_fn \<Rightarrow> 's bit_reader byteorder \<Rightarrow> (bool \<times> bool) list \<Rightarrow>
    ('s bit_reader, (profile option \<times> u8 option) list) io" where
  "sub_layers_parse rd bo [] = ret []"
| "sub_layers_parse rd bo (f # fs) =
     bnd (sub_layer_parse rd bo f) (\<lambda>s. bnd (sub_layers_parse rd bo fs) (\<lambda>ss. ret (s # ss)))"

definition sub_layer_flags_parse :: "'s read_fn \<Rightarrow> ('s bit_reader, bool \<times> bool) io" where
  "sub_layer_flags_parse rd = bnd (read_bit rd) (\<lambda>p. bnd (read_bit rd) (\<lambda>l. ret (p, l)))"

definition profile_tier_level_parse :: "'s read_fn \<Rightarrow> 's bit_reader byteorder \<Rightarrow> nat \<Rightarrow>
    ('s bit_reader, profile_tier_level) io" where
  "profile_tier_level_parse rd bo n =
     bnd (profile_parse rd bo True) (\<lambda>general.
     let general = general\<lparr>inbld_flag := Some (case inbld_flag general of None \<Rightarrow> False | Some b \<Rightarrow> b)\<rparr> in
     bnd (times_io n (sub_layer_flags_parse rd)) (\<lambda>flags.
     bnd (if 0 < n \<and> n < 8 then bnd (read_bits rd (2 * (8 - n))) (\<lambda>_. ret ()) else ret ()) (\<lambda>_.
     bnd (sub_layers_parse rd bo flags) (\<lambda>layers.
     ret \<lparr>general_profile = general,
          sub_layer_profiles = rev (merge_loop general (rev (map fst layers)))\<rparr>))))"

subsection \<open>The syntax of the standard (7.3.3)\<close>

definition zero_bits :: "nat \<Rightarrow> bool list" where
  "zero_bits n = bits_of n (0 :: u64)"

definition full_flags_bits :: "full_flags \<Rightarrow> bool list" where
  "full_flags_bits f =
     max_12bit_constraint_flag f # max_10bit_constraint_flag f # max_8bit_constraint_flag f #
     max_422chroma_constraint_flag f # max_420chroma_constraint_flag f # max_monochrome_constraint_flag f #
     intra_constraint_flag f # one_picture_only_constraint_flag f # lower_bit_rate_constraint_flag f #
     (case max_14bit_constraint_flag f of None \<Rightarrow> zero_bits 34 | Some b \<Rightarrow> b # zero_bits 33)"

fun additional_flags_bits :: "profile_additional_flags \<Rightarrow> bool list" where
  "additional_flags_bits (Full f) = full_flags_bits f"
| "additional_flags_bits (Main10Profile one) = zero_bits 7 @ one # zero_bits 35"
| "additional_flags_bits NoFlags = zero_bits 43"

definition profile_bits :: "profile \<Rightarrow> bool list" where
  "profile_bits p = bits_of 2 (profile_space p) @ tier_flag p # bits_of 5 (profile_idc p) @
     bits_of 32 (profile_compatibility_flag p) @
     progressive_source_flag p # interlaced_source_flag p # non_packed_constraint_flag p #
     frame_only_constraint_flag p # additional_flags_bits (additional_flags p) @
     (inbld_flag p = Some True) # (case level_idc p of None \<Rightarrow> [] | Some l \<Rightarrow> bits_of 8 l)"

text \<open>Which flags a profile has depends on its number and on those it is compatible with.\<close>

fun flags_ok :: "(nat list \<Rightarrow> bool) \<Rightarrow> profile_additional_flags \<Rightarrow> bool" where
  "flags_ok check (Full f) \<longleftrightarrow> check full_profiles \<and> (max_14bit_constraint_flag f \<noteq> None) = check max_14bit_profiles"
| "flags_ok check (Main10Profile one) \<longleftrightarrow> \<not> check full_profiles \<and> check [2]"
| "flags_ok check NoFlags \<longleftrightarrow> \<not> check full_profiles \<and> \<not> check [2]"

definition profile_ok :: "bool \<Rightarrow> profile \<Rightarrow> bool" where
  "profile_ok level_present p \<longleftrightarrow>
     (let check = check_profile_idcs (profile_idc p) (profile_compatibility_flag p) in
      unat (profile_space p) < 4 \<and> unat (profile_idc p) < 32 \<and> flags_ok check (additional_flags p) \<and>
      (inbld_flag p \<noteq> None) = check inbld_profiles \<and>
      (level_idc p \<noteq> None) = level_present \<and> (\<forall>l. level_idc p = Some l \<longrightarrow> unat l \<le> 254))"

text \<open>
  A sub-layer as the code reads it: when both flags are set, the level is read as part of
  the profile and once more after it. The standard has it once.
\<close>

definition sub_layer_flags :: "profile option \<times> u8 option \<Rightarrow> bool \<times> bool" where
  "sub_layer_flags = (\<lambda>(p, l). (p \<noteq> None, l \<noteq> None))"

definition sub_layer_bits :: "profile option \<times> u8 option \<Rightarrow> bool list" where
  "sub_layer_bits = (\<lambda>(p, l). (case p of None \<Rightarrow> [] | Some q \<Rightarrow> profile_bits q) @
     (case l of None \<Rightarrow> [] | Some v \<Rightarrow> bits_of 8 v))"

definition sub_layer_ok :: "profile option \<times> u8 option \<Rightarrow> bool" where
  "sub_layer_ok = (\<lambda>(p, l). \<forall>q. p = Some q \<longrightarrow> profile_ok (l \<noteq> None) q)"

definition standard_sub_layer_bits :: "profile option \<times> u8 option \<Rightarrow> bool list" where
  "standard_sub_layer_bits = (\<lambda>(p, l). case p of Some q \<Rightarrow> profile_bits q
     | None \<Rightarrow> (case l of None \<Rightarrow> [] | Some v \<Rightarrow> bits_of 8 v))"

definition ptl_head_bits :: "profile \<Rightarrow> (profile option \<times> u8 option) list \<Rightarrow> bool list" where
  "ptl_head_bits g ls = profile_bits g @
     concat (map (\<lambda>s. [fst (sub_layer_flags s), snd (sub_layer_flags s)]) ls) @
     (if 0 < length ls \<and> length ls < 8 then zero_bits (2 * (8 - length ls)) else [])"

definition standard_ptl_bits :: "profile \<Rightarrow> (profile option \<times> u8 option) list \<Rightarrow> bool list" where
  "standard_ptl_bits g ls = ptl_head_bits g ls @ concat (map standard_sub_layer_bits ls)"

definition ptl_bits :: "profile \<Rightarrow> (profile option \<times> u8 option) list \<Rightarrow> bool list" where
  "ptl_bits g ls = profile_bits g @
     concat (map (\<lambda>s. [fst (sub_layer_flags s), snd (sub_layer_flags s)]) ls) @
     (if 0 < length ls \<and> length ls < 8 then zero_bits (2 * (8 - length ls)) else []) @
     concat (map sub_layer_bits ls)"

text \<open>What they mean: the general profile has an \<open>inbld_flag\<close>, sub-layers inherit.\<close>

definition general_value :: "profile \<Rightarrow> profile" where
  "general_value g = g\<lparr>inbld_flag := Some (case inbld_flag g of None \<Rightarrow> False | Some b \<Rightarrow> b)\<rparr>"

definition ptl_value :: "profile \<Rightarrow> (profile option \<times> u8 option) list \<Rightarrow> profile_tier_level" where
  "ptl_value g ls = \<lparr>general_profile = general_value g,
     sub_layer_profiles = rev (merge_loop (general_value g) (rev (map fst ls)))\<rparr>"

lemma standard_ptl_bits_eq:
  assumes "\<forall>(p, l) \<in> set ls. p = None \<or> l = None"
  shows "standard_ptl_bits g ls = ptl_bits g ls"
proof -
  have "standard_sub_layer_bits s = sub_layer_bits s" if "s \<in> set ls" for s
    using assms that by (auto simp: standard_sub_layer_bits_def sub_layer_bits_def split: option.splits)
  then have "map standard_sub_layer_bits ls = map sub_layer_bits ls" by (intro map_cong refl)
  then show ?thesis unfolding standard_ptl_bits_def ptl_bits_def ptl_head_bits_def by (simp only: append_assoc)
qed

context byte_source
begin

lemma dec_zero_bits: "n \<le> 64 \<Longrightarrow> dec (read_bits rd n) (zero_bits n) 0"
  using dec_field [of n "0 :: u64"] by (simp add: zero_bits_def)

lemmas dec_zero_step = decodes_bnd [OF dec_zero_bits] decodes_last [OF dec_zero_bits]

lemma dec_full_flags:
  "(max_14bit_constraint_flag f \<noteq> None) = b \<Longrightarrow> dec (full_flags_parse rd b) (full_flags_bits f) f"
  unfolding full_flags_parse_def full_flags_bits_def
  by (cases f; cases "max_14bit_constraint_flag f") (auto simp: coding dec_zero_step decodes_assoc)

lemma dec_additional_flags:
  "flags_ok check v \<Longrightarrow> dec (additional_flags_parse rd check) (additional_flags_bits v) v"
  by (cases v) (auto simp: additional_flags_parse_def coding dec_zero_step intro: decodes_last [OF dec_full_flags])

lemma dec_level_idc: "unat l \<le> 254 \<Longrightarrow> dec (level_idc_parse rd) (bits_of 8 l) l"
  by (simp add: level_idc_parse_def Let_def coding word_le_nat_alt)

lemma dec_profile:
  assumes bo: "byteorder_reads (bit_reader_read rd) bo" and p: "profile_ok lp p"
  shows "dec (profile_parse rd bo lp) (profile_bits p) p"
proof -
  let ?check = "check_profile_idcs (profile_idc p) (profile_compatibility_flag p)"
  have flags: "flags_ok ?check (additional_flags p)" and inbld: "(inbld_flag p \<noteq> None) = ?check inbld_profiles"
    and "unat (profile_space p) < 2 ^ 2" "unat (profile_idc p) < 2 ^ 5"
    using p by (auto simp: profile_ok_def Let_def)
  have level: "dec (when_io lp (level_idc_parse rd)) (case level_idc p of None \<Rightarrow> [] | Some l \<Rightarrow> bits_of 8 l) (level_idc p)"
    using p by (cases lp; cases "level_idc p") (auto simp: profile_ok_def Let_def decodes_ret
        intro!: decodes_last [OF dec_level_idc])
  have idc: "ucast (ucast (profile_idc p) :: u64) = profile_idc p" by simp
  show ?thesis
    unfolding profile_parse_def profile_bits_def Let_def
    by (rule decodes_bnd [OF dec_field], simp, simp, fact, rule dec_bit_step, rule decodes_bnd [OF dec_field], simp, simp, fact,
        unfold idc, rule decodes_bnd [OF dec_bo_u32 [OF bo]], (rule dec_bit_step)+,
        rule decodes_bnd [OF dec_additional_flags [OF flags]], rule dec_bit_step, rule decodes_last [OF level],
        rule decodes_end)
      (cases p, use inbld in \<open>auto\<close>)
qed

lemma dec_sub_layer:
  assumes bo: "byteorder_reads (bit_reader_read rd) bo" and s: "sub_layer_ok s"
  shows "dec (sub_layer_parse rd bo (sub_layer_flags s)) (sub_layer_bits s) s"
proof -
  obtain p l where s': "s = (p, l)" by (cases s)
  have prof: "dec (when_io (p \<noteq> None) (profile_parse rd bo (l \<noteq> None))) (case p of None \<Rightarrow> [] | Some q \<Rightarrow> profile_bits q) p"
    using s s' by (cases p) (auto simp: sub_layer_ok_def decodes_ret intro!: decodes_last [OF dec_profile [OF bo]])
  have level: "dec (when_io (l \<noteq> None) (bo_u8 bo)) (case l of None \<Rightarrow> [] | Some v \<Rightarrow> bits_of 8 v) l"
    by (cases l) (auto simp: decodes_ret intro!: decodes_last [OF dec_bo_u8 [OF bo]])
  show ?thesis
    unfolding s' sub_layer_parse_def sub_layer_bits_def sub_layer_flags_def prod.case
    by (rule decodes_bnd [OF prof], rule decodes_last [OF level], rule decodes_end) simp
qed

lemma dec_sub_layers:
  assumes bo: "byteorder_reads (bit_reader_read rd) bo"
  shows "list_all sub_layer_ok ls \<Longrightarrow>
    dec (sub_layers_parse rd bo (map sub_layer_flags ls)) (concat (map sub_layer_bits ls)) ls"
proof (induction ls)
  case (Cons s ls)
  then have "dec (sub_layers_parse rd bo (map sub_layer_flags (s # ls))) (sub_layer_bits s @ concat (map sub_layer_bits ls)) (s # ls)"
    unfolding list.map sub_layers_parse.simps
    by (intro decodes_bnd [OF dec_sub_layer [OF bo]] decodes_last [OF Cons.IH] decodes_end) simp_all
  then show ?case by simp
qed (simp add: decodes_ret)

lemma dec_sub_layer_flags:
  "dec (times_io (length ls) (sub_layer_flags_parse rd)) (concat (map (\<lambda>s. [fst (sub_layer_flags s), snd (sub_layer_flags s)]) ls))
    (map sub_layer_flags ls)"
proof -
  have "dec (times_io (length (map sub_layer_flags ls)) (sub_layer_flags_parse rd))
      (concat (map (\<lambda>f. [fst f, snd f]) (map sub_layer_flags ls))) (map sub_layer_flags ls)"
    by (intro decodes_times) (simp add: sub_layer_flags_parse_def dec_bit_step decodes_ret split: prod.splits)
  then show ?thesis by (simp add: comp_def)
qed

lemma dec_ptl:
  assumes bo: "byteorder_reads (bit_reader_read rd) bo" and g: "profile_ok True g"
    and ls: "list_all sub_layer_ok ls" "length ls \<le> 7"
  shows "dec (profile_tier_level_parse rd bo (length ls)) (ptl_bits g ls) (ptl_value g ls)"
proof -
  let ?n = "length ls"
  have pad: "dec (if 0 < ?n \<and> ?n < 8 then bnd (read_bits rd (2 * (8 - ?n))) (\<lambda>_. ret ()) else ret ())
      (if 0 < ?n \<and> ?n < 8 then zero_bits (2 * (8 - ?n)) else []) ()"
    by (auto simp: decodes_ret intro!: decodes_last [OF dec_zero_bits])
  show ?thesis
    unfolding profile_tier_level_parse_def ptl_bits_def ptl_value_def general_value_def Let_def
    by (intro decodes_bnd [OF dec_profile [OF bo g]] decodes_bnd [OF dec_sub_layer_flags] decodes_bnd [OF pad]
        decodes_last [OF dec_sub_layers [OF bo ls(1)]] decodes_end refl)
qed

end

subsection \<open>What a parsed profile satisfies\<close>

lemma yields_full_flags: "yields (full_flags_parse rd b) (\<lambda>f. (max_14bit_constraint_flag f \<noteq> None) = b)"
proof -
  have "yields (if b then bnd (read_bit rd) (\<lambda>m. bnd (read_bits rd 33) (\<lambda>_. ret (Some m)))
          else bnd (read_bits rd 34) (\<lambda>_. ret None)) (\<lambda>m. (m \<noteq> None) = b)"
    by (auto intro!: yielding)
  note m = yields_bnd [OF this]
  show ?thesis unfolding full_flags_parse_def by (intro yields_bit_step m yields_ret) simp
qed

lemma yields_additional_flags: "yields (additional_flags_parse rd check) (flags_ok check)"
  unfolding additional_flags_parse_def
  by (intro yields_if yields_bnd [OF yields_full_flags] yields_bits_step yields_bit_step yields_ret) auto

lemma yields_level_idc: "yields (level_idc_parse rd) (\<lambda>l. unat l \<le> 254)"
  unfolding level_idc_parse_def Let_def by (intro yielding) (simp add: word_le_nat_alt)

lemma yields_profile: "yields (profile_parse rd bo lp) (profile_ok lp)"
proof -
  have "unat (ucast v :: u8) < 4" if "unat v < 2 ^ 2" for v :: u64 using unat_ucast_less [of v 4] that by simp
  moreover have "unat (ucast v :: u8) < 32" if "unat v < 2 ^ 5" for v :: u64 using unat_ucast_less [of v 32] that by simp
  ultimately show ?thesis
    unfolding profile_parse_def Let_def
    by (intro yields_bits_step yields_bit_step yields_bo_step yields_bnd [OF yields_additional_flags]
        yields_when_step [OF yields_level_idc] yields_ret)
      (auto simp: profile_ok_def Let_def)
qed

text \<open>The profile of each sub-layer, completed from the next higher one.\<close>

lemma merge_loop_length [simp]: "length (merge_loop g ps) = length ps"
  by (induction g ps rule: merge_loop.induct) (simp_all add: Let_def)

lemma merge_loop_nth:
  "i < length ps \<Longrightarrow> merge_loop g ps ! i =
     (let prev = if i = 0 then g else merge_loop g ps ! (i - 1)
      in case ps ! i of None \<Rightarrow> prev | Some p \<Rightarrow> profile_merge p prev)"
proof (induction ps arbitrary: g i)
  case (Cons p ps)
  show ?case
  proof (cases i)
    case 0
    then show ?thesis by (cases p) (simp_all add: Let_def)
  next
    case (Suc j)
    let ?g = "merge_loop g (p # ps) ! 0"
    have "merge_loop g (p # ps) = ?g # merge_loop ?g ps" by (cases p) (simp_all add: Let_def)
    then have "merge_loop g (p # ps) ! Suc j = merge_loop ?g ps ! j"
      and "merge_loop g (p # ps) ! j = (if j = 0 then ?g else merge_loop ?g ps ! (j - 1))"
      by (metis nth_Cons_Suc, metis nth_Cons')
    with Cons.IH [of j ?g] Cons.prems Suc show ?thesis by (simp add: Let_def)
  qed
qed simp

lemma sub_layer_inherits:
  assumes "i < length ls"
  shows "length (sub_layer_profiles (ptl_value g ls)) = length ls \<and>
    sub_layer_profiles (ptl_value g ls) ! i =
     (let next = if Suc i < length ls then sub_layer_profiles (ptl_value g ls) ! Suc i else general_value g
      in case fst (ls ! i) of None \<Rightarrow> next | Some p \<Rightarrow> profile_merge p next)"
proof -
  let ?g = "general_value g" and ?qs = "rev (map fst ls)"
  obtain k where k: "length ls = Suc (i + k)" using assms less_imp_Suc_add by blast
  have "merge_loop ?g ?qs ! k = (let prev = if k = 0 then ?g else merge_loop ?g ?qs ! (k - 1)
      in case ?qs ! k of None \<Rightarrow> prev | Some p \<Rightarrow> profile_merge p prev)"
    by (rule merge_loop_nth) (simp add: k)
  moreover have "?qs ! k = fst (ls ! i)"
    using k by (simp add: rev_nth)
  moreover have "sub_layer_profiles (ptl_value g ls) ! i = merge_loop ?g ?qs ! k"
    using k by (simp add: ptl_value_def rev_nth)
  moreover have "sub_layer_profiles (ptl_value g ls) ! Suc i = merge_loop ?g ?qs ! (k - 1)" if "k \<noteq> 0"
    using k that by (simp add: ptl_value_def rev_nth)
  moreover have "Suc i < length ls \<longleftrightarrow> k \<noteq> 0" using k by simp
  moreover have "length (sub_layer_profiles (ptl_value g ls)) = length ls" by (simp add: ptl_value_def)
  ultimately show ?thesis by (cases "k = 0") simp_all
qed

subsection \<open>The structure of the standard (7.3.3 and 7.4.4)\<close>

text \<open>
  Which flags a profile has in the standard: the conditions of 7.3.3 name a list of profiles,
  and hold when \<open>profile_idc\<close> is one of them or one of their compatibility flags is set. The
  code tests another bit for \<open>profile_idc\<close> (\<open>check_profile_idcs_mirrored\<close> below).
\<close>

definition profile_is :: "u8 \<Rightarrow> u32 \<Rightarrow> nat list \<Rightarrow> bool" where
  "profile_is idc compatible js \<longleftrightarrow> unat idc \<in> set js \<or> (\<exists>j \<in> set js. bit compatible (31 - j))"

definition profile_standard_ok :: "bool \<Rightarrow> profile \<Rightarrow> bool" where
  "profile_standard_ok level_present p \<longleftrightarrow>
     (let holds = profile_is (profile_idc p) (profile_compatibility_flag p) in
      unat (profile_space p) < 4 \<and> unat (profile_idc p) < 32 \<and> flags_ok holds (additional_flags p) \<and>
      (inbld_flag p \<noteq> None) = holds inbld_profiles \<and>
      (level_idc p \<noteq> None) = level_present \<and> (\<forall>l. level_idc p = Some l \<longrightarrow> unat l \<le> 254))"

text \<open>
  What 7.4.4 demands besides: the number is that of a profile of Annex A, and the profile is
  compatible with itself. On such profiles the check of the code comes out right.
\<close>

definition profile_declared :: "profile \<Rightarrow> bool" where
  "profile_declared p \<longleftrightarrow> unat (profile_idc p) \<le> 11 \<and>
     bit (profile_compatibility_flag p) (31 - unat (profile_idc p))"

text \<open>
  The sub-layers, from the highest down: one without a profile of its own has that of the next
  higher one, one that carries a profile has it, with the flags and the level it does not
  carry from the next higher one; a level that is sent is the level.
\<close>

fun layers_standard :: "profile \<Rightarrow> (profile option \<times> u8 option) list \<Rightarrow> profile list" where
  "layers_standard g [] = []"
| "layers_standard g ((p, l) # ls) =
     (let higher = layers_standard g ls; next = (case higher of [] \<Rightarrow> g | q # _ \<Rightarrow> q) in
      (case p of None \<Rightarrow> next\<lparr>level_idc := opt_or l (level_idc next)\<rparr> | Some q \<Rightarrow> profile_merge q next) # higher)"

definition ptl_standard :: "profile \<Rightarrow> (profile option \<times> u8 option) list \<Rightarrow> profile_tier_level" where
  "ptl_standard g ls = \<lparr>general_profile = general_value g, sub_layer_profiles = layers_standard (general_value g) ls\<rparr>"

lemma merge_loop_snoc:
  "merge_loop g (ps @ [p]) = merge_loop g ps @
     [case p of None \<Rightarrow> last (g # merge_loop g ps) | Some q \<Rightarrow> profile_merge q (last (g # merge_loop g ps))]"
  by (induction g ps rule: merge_loop.induct) (auto simp: Let_def split: option.split)

lemma layers_standard_eq:
  "\<forall>(p, l) \<in> set ls. l = None \<Longrightarrow> layers_standard g ls = rev (merge_loop g (rev (map fst ls)))"
proof (induction ls)
  case (Cons s ls)
  obtain p where s: "s = (p, None)" using Cons.prems by (cases s) auto
  have ih: "layers_standard g ls = rev (merge_loop g (rev (map fst ls)))" using Cons by simp
  have "(case layers_standard g ls of [] \<Rightarrow> g | q # _ \<Rightarrow> q) = last (g # merge_loop g (rev (map fst ls)))"
    unfolding ih by (cases "merge_loop g (rev (map fst ls))" rule: rev_cases) simp_all
  then show ?case
    by (simp add: s merge_loop_snoc ih Let_def opt_or_def split: option.split)
qed simp

lemma ptl_standard_eq: "\<forall>(p, l) \<in> set ls. l = None \<Longrightarrow> ptl_standard g ls = ptl_value g ls"
  by (simp add: ptl_standard_def ptl_value_def layers_standard_eq)

subsection \<open>Where the code departs from the standard\<close>

lemma bit_profile_flags:
  "set js \<subseteq> {..31} \<Longrightarrow> bit (profile_flags js) n \<longleftrightarrow> n < 32 \<and> 31 - n \<in> set js"
  by (induction js) (auto simp: bit_or_iff profile_flag_def bit_exp_iff possible_bit_def dest: bit_imp_le_length)

lemma and_single_bit: "k < 32 \<Longrightarrow> (w AND push_bit k 1 = (push_bit k 1 :: u32)) = bit w k"
proof
  assume k: "k < 32"
  then have b: "bit (push_bit k 1 :: u32) k" by (simp add: bit_exp_iff possible_bit_def)
  show "w AND push_bit k 1 = push_bit k 1 \<Longrightarrow> bit w k" using b by (metis bit_and_iff)
  show "bit w k \<Longrightarrow> w AND push_bit k 1 = push_bit k 1"
    by (rule bit_word_eqI) (auto simp: bit_and_iff bit_exp_iff)
qed

lemma and_nonzero: "(v AND w \<noteq> (0 :: u32)) = (\<exists>n < 32. bit v n \<and> bit w n)"
  by (auto simp: bit_and_iff bit_eq_iff dest: bit_imp_le_length)

text \<open>
  A profile passes the check when it is compatible with one of the listed profiles, or when
  \<^emph>\<open>31 less its number\<close> is listed: the shift counts from the other end than the flags do.
\<close>

theorem check_profile_idcs_mirrored:
  assumes "unat idc < 32" and "set js \<subseteq> {..31}"
  shows "check_profile_idcs idc compatible js \<longleftrightarrow>
    31 - unat idc \<in> set js \<or> (\<exists>j \<in> set js. bit compatible (31 - j))"
proof -
  have "(\<exists>n < 32. bit compatible n \<and> n < 32 \<and> 31 - n \<in> set js) \<longleftrightarrow> (\<exists>j \<in> set js. bit compatible (31 - j))"
  proof
    assume "\<exists>n < 32. bit compatible n \<and> n < 32 \<and> 31 - n \<in> set js"
    then obtain n where "n < 32" "bit compatible n" "31 - n \<in> set js" by blast
    then show "\<exists>j \<in> set js. bit compatible (31 - j)" by (intro bexI [of _ "31 - n"]) auto
  next
    assume "\<exists>j \<in> set js. bit compatible (31 - j)"
    then obtain j where "j \<in> set js" "bit compatible (31 - j)" by blast
    with assms(2) show "\<exists>n < 32. bit compatible n \<and> n < 32 \<and> 31 - n \<in> set js"
      by (intro exI [of _ "31 - j"]) auto
  qed
  with assms(1) show ?thesis
    unfolding check_profile_idcs_def and_single_bit [OF assms(1)] and_nonzero bit_profile_flags [OF assms(2)]
    by blast
qed

theorem check_profile_idcs_mirrored_witness:
  "(check_profile_idcs 2 0 [2] \<longleftrightarrow> 31 - unat (2 :: u8) \<in> set [2] \<or> (\<exists>j \<in> set [2]. bit (0 :: u32) (31 - j))) \<and>
    \<not> check_profile_idcs 2 0 [2]"
  using check_profile_idcs_mirrored [of 2 "[2]" 0] by simp

text \<open>On a profile that declares itself the two checks agree for every list of the syntax.\<close>

lemma check_profile_agrees:
  assumes "profile_declared p" and "set js \<subseteq> {..11}"
  shows "check_profile_idcs (profile_idc p) (profile_compatibility_flag p) js =
    profile_is (profile_idc p) (profile_compatibility_flag p) js"
proof -
  have idc: "unat (profile_idc p) \<le> 11" "bit (profile_compatibility_flag p) (31 - unat (profile_idc p))"
    using assms(1) by (simp_all add: profile_declared_def)
  then have "31 - unat (profile_idc p) \<notin> set js" using assms(2) by force
  moreover have "check_profile_idcs (profile_idc p) (profile_compatibility_flag p) js \<longleftrightarrow>
      31 - unat (profile_idc p) \<in> set js \<or> (\<exists>j \<in> set js. bit (profile_compatibility_flag p) (31 - j))"
    by (rule check_profile_idcs_mirrored) (use idc(1) assms(2) in auto)
  ultimately show ?thesis using idc(2) by (auto simp: profile_is_def)
qed

lemma profile_standard_ok_agrees:
  assumes "profile_standard_ok lp p" and "profile_declared p"
  shows "profile_ok lp p"
proof -
  have "check_profile_idcs (profile_idc p) (profile_compatibility_flag p) js =
      profile_is (profile_idc p) (profile_compatibility_flag p) js"
    if "js \<in> {full_profiles, max_14bit_profiles, [2], inbld_profiles}" for js
    by (rule check_profile_agrees [OF assms(2)])
      (use that in \<open>auto simp: full_profiles_def max_14bit_profiles_def inbld_profiles_def\<close>)
  then show ?thesis
    using assms(1) unfolding profile_standard_ok_def profile_ok_def Let_def
    by (cases "additional_flags p") simp_all
qed

text \<open>
  A level that is sent for a sub-layer without a profile is read into a vector that nothing
  uses: whatever it is, the sub-layer has the level of the next higher one.
\<close>

theorem sub_layer_level_dropped:
  assumes "byteorder_reads (bit_reader_read cursor_read) bo" and "profile_ok True g"
  shows "cur.dec (profile_tier_level_parse cursor_read bo 1) (standard_ptl_bits g [(None, Some l)])
      (ptl_standard g [(None, None)]) \<and>
    map level_idc (sub_layer_profiles (ptl_standard g [(None, Some l)])) = [Some l]"
proof -
  have "sub_layer_ok (None, Some l)" by (simp add: sub_layer_ok_def)
  with cur.dec_ptl [OF assms, of "[(None, Some l)]"]
  have "cur.dec (profile_tier_level_parse cursor_read bo 1) (ptl_bits g [(None, Some l)]) (ptl_value g [(None, Some l)])"
    by simp
  moreover have "standard_ptl_bits g [(None, Some l)] = ptl_bits g [(None, Some l)]"
    by (rule standard_ptl_bits_eq) simp
  moreover have "ptl_value g [(None, Some l)] = ptl_standard g [(None, None)]"
    by (simp add: ptl_value_def ptl_standard_def opt_or_def)
  ultimately show ?thesis by (simp add: ptl_standard_def opt_or_def)
qed

text \<open>
  A sub-layer that carries both a profile and a level is misread: after the bits the
  standard gives it, the parser takes eight more for a second level, and goes on from there.
\<close>

theorem sub_layer_level_read_twice:
  assumes "byteorder_reads (bit_reader_read cursor_read) bo" and "profile_ok True g" and "profile_ok True q"
  shows "cur.dec (profile_tier_level_parse cursor_read bo 1)
    (standard_ptl_bits g [(Some q, Some l)] @ bits_of 8 x) (ptl_value g [(Some q, Some x)])"
proof -
  have "sub_layer_ok (Some q, Some x)" using assms(3) by (simp add: sub_layer_ok_def)
  with cur.dec_ptl [OF assms(1,2), of "[(Some q, Some x)]"]
  show ?thesis
    by (simp add: standard_ptl_bits_def ptl_head_bits_def ptl_bits_def standard_sub_layer_bits_def
        sub_layer_bits_def sub_layer_flags_def)
qed

definition profile_sample :: profile where
  "profile_sample = \<lparr>profile_space = 0, tier_flag = False, profile_idc = 1,
     profile_compatibility_flag = 0x60000000, progressive_source_flag = True, interlaced_source_flag = False,
     non_packed_constraint_flag = False, frame_only_constraint_flag = True,
     additional_flags = Main10Profile False, inbld_flag = Some False, level_idc = Some 120\<rparr>"

lemma profile_sample_ok: "profile_ok True profile_sample"
  by (simp add: profile_ok_def profile_sample_def Let_def check_profile_idcs_mirrored full_profiles_def
      inbld_profiles_def)

theorem sub_layer_level_dropped_witness:
  "cur.dec (profile_tier_level_parse cursor_read (be_reads (bit_reader_read cursor_read)) 1)
      (standard_ptl_bits profile_sample [(None, Some 93)]) (ptl_standard profile_sample [(None, None)]) \<and>
    map level_idc (sub_layer_profiles (ptl_standard profile_sample [(None, Some 93)])) = [Some 93]"
  by (rule sub_layer_level_dropped [OF byteorder_reads_be_reads profile_sample_ok])

lemma profile_sample_standard: "profile_standard_ok True profile_sample" "profile_declared profile_sample"
proof -
  have "bit (0x60000000 :: u32) 30" "bit (0x60000000 :: u32) 29" by code_simp+
  moreover have "\<not> bit (0x60000000 :: u32) j" if "j \<in> {20, 21, 22, 23, 24, 25, 26, 27}" for j
    using that by (auto; code_simp)
  ultimately show "profile_standard_ok True profile_sample" "profile_declared profile_sample"
    by (simp_all add: profile_standard_ok_def profile_declared_def profile_sample_def profile_is_def Let_def
        full_profiles_def inbld_profiles_def)
qed

theorem sub_layer_level_read_twice_witness:
  "cur.dec (profile_tier_level_parse cursor_read (be_reads (bit_reader_read cursor_read)) 1)
    (standard_ptl_bits profile_sample [(Some profile_sample, Some 120)] @ bits_of 8 (66 :: u8))
    (ptl_value profile_sample [(Some profile_sample, Some 66)])"
  by (rule sub_layer_level_read_twice [OF byteorder_reads_be_reads profile_sample_ok profile_sample_ok])

end
