(* ===== verification/H265_Vui.thy ===== *)
theory H265_Vui
  imports H265_Hrd H265_Parts H265_Profile
begin

text \<open>
  \<open>crates/h265/src/sps/vui_parameters/mod.rs\<close>: the video usability information. The value the
  code keeps replaces absent parts by defaults, so the syntax of the standard is a record of
  its own, \<open>vui_syntax\<close>, of which \<open>vui_value\<close> is the value.
\<close>

subsection \<open>State\<close>

datatype aspect_ratio_info = Predefined u8 | ExtendedSar u16 u16

record video_signal_type =
  video_format :: u8
  video_full_range_flag :: bool
  colour_primaries :: u8
  transfer_characteristics :: u8
  matrix_coeffs :: u8

record chroma_loc_info =
  loc_top_field :: u64
  loc_bottom_field :: u64

record default_display_window =
  def_disp_win_left_offset :: u64
  def_disp_win_right_offset :: u64
  def_disp_win_top_offset :: u64
  def_disp_win_bottom_offset :: u64

record vui_timing_info =
  vui_num_units_in_tick :: u32
  vui_time_scale :: u32
  poc_proportional_to_timing_flag :: bool
  num_ticks_poc_diff_one_minus1 :: "u32 option"
  hrd_parameters :: "hrd option"

record bitstream_restriction =
  tiles_fixed_structure_flag :: bool
  motion_vectors_over_pic_boundaries_flag :: bool
  restricted_ref_pic_lists_flag :: "bool option"
  min_spatial_segmentation_idc :: u16
  max_bytes_per_pic_denom :: u8
  max_bits_per_min_cu_denom :: u8
  log2_max_mv_length_horizontal :: u8
  log2_max_mv_length_vertical :: u8

record vui =
  aspect_ratio_info :: aspect_ratio_info
  vui_overscan_appropriate_flag :: "bool option"
  video_signal_type :: video_signal_type
  chroma_loc_info :: "chroma_loc_info option"
  neutral_chroma_indication_flag :: bool
  field_seq_flag :: bool
  frame_field_info_present_flag :: bool
  default_display_window :: default_display_window
  vui_timing_info :: "vui_timing_info option"
  vui_bitstream_restriction :: bitstream_restriction

definition video_signal_type_default :: video_signal_type where
  "video_signal_type_default = \<lparr>video_format = 5, video_full_range_flag = False, colour_primaries = 2,
     transfer_characteristics = 2, matrix_coeffs = 2\<rparr>"

definition default_display_window_default :: default_display_window where
  "default_display_window_default = \<lparr>def_disp_win_left_offset = 0, def_disp_win_right_offset = 0,
     def_disp_win_top_offset = 0, def_disp_win_bottom_offset = 0\<rparr>"

definition bitstream_restriction_default :: bitstream_restriction where
  "bitstream_restriction_default = \<lparr>tiles_fixed_structure_flag = False,
     motion_vectors_over_pic_boundaries_flag = True, restricted_ref_pic_lists_flag = None,
     min_spatial_segmentation_idc = 0, max_bytes_per_pic_denom = 2, max_bits_per_min_cu_denom = 1,
     log2_max_mv_length_horizontal = 15, log2_max_mv_length_vertical = 15\<rparr>"

text \<open>What \<open>parse\<close> is given of the parameter set around it.\<close>

record vui_env =
  env_max_sub_layers_minus1 :: u8
  env_bit_depth_y :: u8
  env_bit_depth_c :: u8
  env_chroma_format_idc :: u8
  env_profile :: profile
  env_window :: conformance_window
  env_sub_width_c :: u8
  env_width :: u64
  env_sub_height_c :: u8
  env_height :: u64

subsection \<open>parse\<close>

text \<open>A flag, then a part or its default.\<close>

definition flag_or :: "'s read_fn \<Rightarrow> ('s bit_reader, 'a) io \<Rightarrow> 'a \<Rightarrow> ('s bit_reader, 'a) io" where
  "flag_or rd m d = bnd (read_bit rd) (\<lambda>present. if present then m else ret d)"

definition aspect_ratio_parse :: "'s read_fn \<Rightarrow> 's bit_reader byteorder \<Rightarrow> ('s bit_reader, aspect_ratio_info) io" where
  "aspect_ratio_parse rd bo =
     bnd (bo_u8 bo) (\<lambda>idc.
     if idc = 255 then bnd (bo_u16 bo) (\<lambda>w. bnd (bo_u16 bo) (\<lambda>h. ret (ExtendedSar w h)))
     else ret (Predefined idc))"

definition matrix_check :: "vui_env \<Rightarrow> u8 \<Rightarrow> ('s, unit) io" where
  "matrix_check env matrix =
     bnd (guard (\<not> (matrix = 0 \<and> \<not> (env_bit_depth_c env = env_bit_depth_y env \<and> env_chroma_format_idc env = 3)))
       (IoErr InvalidData ''matrix_coeffs must not be 0 unless bit_depth_c == bit_depth_y and chroma_format_idc == 3'')) (\<lambda>_.
     if matrix = 8 \<and> env_bit_depth_c env \<noteq> env_bit_depth_y env
     then bnd (lift_res (checked_add (env_bit_depth_y env) 1)) (\<lambda>d.
       guard (env_bit_depth_c env = d \<and> env_chroma_format_idc env = 3)
         (IoErr InvalidData ''matrix_coeffs must not be 8 unless bit_depth_c == bit_depth_y or (bit_depth_c == bit_depth_y + 1 and chroma_format_idc == 3)''))
     else ret ())"

definition video_signal_parse :: "'s read_fn \<Rightarrow> 's bit_reader byteorder \<Rightarrow> vui_env \<Rightarrow> ('s bit_reader, video_signal_type) io" where
  "video_signal_parse rd bo env =
     bnd (read_bits rd 3) (\<lambda>v.
     bnd (read_bit rd) (\<lambda>full_range.
     bnd (read_bit rd) (\<lambda>colour_description_present_flag.
     if colour_description_present_flag then
       bnd (bo_u8 bo) (\<lambda>primaries.
       bnd (bo_u8 bo) (\<lambda>transfer.
       bnd (bo_u8 bo) (\<lambda>matrix.
       bnd (matrix_check env matrix) (\<lambda>_.
       ret \<lparr>video_format = ucast v, video_full_range_flag = full_range, colour_primaries = primaries,
            transfer_characteristics = transfer, matrix_coeffs = matrix\<rparr>))))
     else ret (video_signal_type_default\<lparr>video_format := ucast v, video_full_range_flag := full_range\<rparr>))))"

definition chroma_loc_info_parse :: "'s read_fn \<Rightarrow> ('s bit_reader, chroma_loc_info) io" where
  "chroma_loc_info_parse rd =
     bnd (read_exp_golomb rd) (\<lambda>top. bnd (read_exp_golomb rd) (\<lambda>bottom.
     ret \<lparr>loc_top_field = top, loc_bottom_field = bottom\<rparr>))"

text \<open>\<open>unit as u64 * (a + b)\<close>\<close>

definition cropped_units :: "u8 \<Rightarrow> u64 \<Rightarrow> u64 \<Rightarrow> err + u64" where
  "cropped_units unit a b = rbind (checked_add a b) (checked_mul (ucast unit))"

definition display_window_parse :: "'s read_fn \<Rightarrow> vui_env \<Rightarrow> ('s bit_reader, default_display_window) io" where
  "display_window_parse rd env =
     bnd (read_exp_golomb rd) (\<lambda>def_left.
     bnd (read_exp_golomb rd) (\<lambda>def_right.
     bnd (read_exp_golomb rd) (\<lambda>def_top.
     bnd (read_exp_golomb rd) (\<lambda>def_bottom.
     bnd (lift_res (checked_add (conf_win_left_offset (env_window env)) def_left)) (\<lambda>left.
     bnd (lift_res (checked_add (conf_win_right_offset (env_window env)) def_right)) (\<lambda>right.
     bnd (lift_res (checked_add (conf_win_top_offset (env_window env)) def_top)) (\<lambda>top.
     bnd (lift_res (checked_add (conf_win_bottom_offset (env_window env)) def_bottom)) (\<lambda>bottom.
     bnd (lift_res (cropped_units (env_sub_width_c env) left right)) (\<lambda>w.
     bnd (guard (\<not> w \<ge> env_width env)
       (IoErr InvalidData ''sub_width_c * (left_offset + right_offset) must be less than pic_width_in_luma_samples'')) (\<lambda>_.
     bnd (lift_res (cropped_units (env_sub_height_c env) top bottom)) (\<lambda>h.
     bnd (guard (\<not> h \<ge> env_height env)
       (IoErr InvalidData ''sub_height_c * (top_offset + bottom_offset) must be less than pic_height_in_luma_samples'')) (\<lambda>_.
     ret \<lparr>def_disp_win_left_offset = def_left, def_disp_win_right_offset = def_right,
          def_disp_win_top_offset = def_top, def_disp_win_bottom_offset = def_bottom\<rparr>))))))))))))"

definition vui_timing_parse :: "'s read_fn \<Rightarrow> 's bit_reader byteorder \<Rightarrow> u8 \<Rightarrow> ('s bit_reader, vui_timing_info) io" where
  "vui_timing_parse rd bo max_sub_layers_minus1 =
     bnd (bo_u32 bo) (\<lambda>units.
     bnd (guard (units \<noteq> 0) (IoErr InvalidData ''vui_num_units_in_tick must greater than zero'')) (\<lambda>_.
     bnd (bo_u32 bo) (\<lambda>scale.
     bnd (guard (scale \<noteq> 0) (IoErr InvalidData ''vui_time_scale must not be zero'')) (\<lambda>_.
     bnd (read_bit rd) (\<lambda>proportional.
     bnd (when_io proportional (bnd (read_exp_golomb rd) (\<lambda>n.
       bnd (range_check n 0 (2 ^ 32 - 2) ''vui_num_ticks_poc_diff_one_minus1'') (\<lambda>_. ret (ucast n))))) (\<lambda>ticks.
     bnd (bnd (read_bit rd) (\<lambda>b. when_io b (hrd_parse rd bo True max_sub_layers_minus1))) (\<lambda>hrd.
     ret \<lparr>vui_num_units_in_tick = units, vui_time_scale = scale, poc_proportional_to_timing_flag = proportional,
          num_ticks_poc_diff_one_minus1 = ticks, hrd_parameters = hrd\<rparr>)))))))"

definition eg_upto :: "'s read_fn \<Rightarrow> u64 \<Rightarrow> string \<Rightarrow> ('s bit_reader, 'n::len word) io" where
  "eg_upto rd m what = bnd (read_exp_golomb rd) (\<lambda>v. bnd (range_check v 0 m what) (\<lambda>_. ret (ucast v)))"

definition bitstream_restriction_parse :: "'s read_fn \<Rightarrow> ('s bit_reader, bitstream_restriction) io" where
  "bitstream_restriction_parse rd =
     bnd (read_bit rd) (\<lambda>tiles.
     bnd (read_bit rd) (\<lambda>vectors.
     bnd (read_bit rd) (\<lambda>restricted.
     bnd (eg_upto rd 4095 ''min_spatial_segmentation_idc'') (\<lambda>segmentation.
     bnd (eg_upto rd 16 ''max_bytes_per_pic_denom'') (\<lambda>bytes.
     bnd (eg_upto rd 16 ''max_bits_per_min_cu_denom'') (\<lambda>bits.
     bnd (eg_upto rd 15 ''log2_max_mv_length_horizontal'') (\<lambda>horizontal.
     bnd (eg_upto rd 15 ''log2_max_mv_length_vertical'') (\<lambda>vertical.
     ret \<lparr>tiles_fixed_structure_flag = tiles, motion_vectors_over_pic_boundaries_flag = vectors,
          restricted_ref_pic_lists_flag = Some restricted, min_spatial_segmentation_idc = segmentation,
          max_bytes_per_pic_denom = bytes, max_bits_per_min_cu_denom = bits,
          log2_max_mv_length_horizontal = horizontal, log2_max_mv_length_vertical = vertical\<rparr>))))))))"

definition h265_vui_parse :: "'s read_fn \<Rightarrow> 's bit_reader byteorder \<Rightarrow> vui_env \<Rightarrow> ('s bit_reader, vui) io" where
  "h265_vui_parse rd bo env =
     bnd (flag_or rd (aspect_ratio_parse rd bo) (Predefined 0)) (\<lambda>aspect.
     bnd (bnd (read_bit rd) (\<lambda>b. when_io b (read_bit rd))) (\<lambda>overscan.
     bnd (flag_or rd (video_signal_parse rd bo env) video_signal_type_default) (\<lambda>signal.
     bnd (read_bit rd) (\<lambda>chroma_loc_info_present_flag.
     bnd (guard (\<not> (env_chroma_format_idc env \<noteq> 1 \<and> chroma_loc_info_present_flag))
       (IoErr InvalidData ''chroma_loc_info_present_flag must be 0 if chroma_format_idc != 1'')) (\<lambda>_.
     bnd (when_io chroma_loc_info_present_flag (chroma_loc_info_parse rd)) (\<lambda>chroma.
     bnd (read_bit rd) (\<lambda>neutral.
     bnd (read_bit rd) (\<lambda>field_seq.
     bnd (guard (\<not> (frame_only_constraint_flag (env_profile env) \<and> field_seq))
       (IoErr InvalidData ''field_seq_flag must be 0 if general_frame_only_constraint_flag is 1'')) (\<lambda>_.
     bnd (read_bit rd) (\<lambda>frame_field.
     bnd (guard (\<not> (\<not> frame_field \<and> (field_seq \<or>
         progressive_source_flag (env_profile env) \<and> interlaced_source_flag (env_profile env))))
       (IoErr InvalidData ''frame_field_info_present_flag must be 1 if field_seq_flag is 1 or general_progressive_source_flag and general_interlaced_source_flag are both 1'')) (\<lambda>_.
     bnd (flag_or rd (display_window_parse rd env) default_display_window_default) (\<lambda>window.
     bnd (bnd (read_bit rd) (\<lambda>b. when_io b (vui_timing_parse rd bo (env_max_sub_layers_minus1 env)))) (\<lambda>timing.
     bnd (flag_or rd (bitstream_restriction_parse rd) bitstream_restriction_default) (\<lambda>restriction.
     ret \<lparr>aspect_ratio_info = aspect, vui_overscan_appropriate_flag = overscan, video_signal_type = signal,
          chroma_loc_info = chroma, neutral_chroma_indication_flag = neutral, field_seq_flag = field_seq,
          frame_field_info_present_flag = frame_field, default_display_window = window,
          vui_timing_info = timing, vui_bitstream_restriction = restriction\<rparr>))))))))))))))"

text \<open>The methods of the window and of the restriction.\<close>

definition window_left_offset :: "default_display_window \<Rightarrow> conformance_window \<Rightarrow> err + u64" where
  "window_left_offset d w = checked_add (conf_win_left_offset w) (def_disp_win_left_offset d)"

definition window_right_offset :: "default_display_window \<Rightarrow> conformance_window \<Rightarrow> err + u64" where
  "window_right_offset d w = checked_add (conf_win_right_offset w) (def_disp_win_right_offset d)"

definition window_top_offset :: "default_display_window \<Rightarrow> conformance_window \<Rightarrow> err + u64" where
  "window_top_offset d w = checked_add (conf_win_top_offset w) (def_disp_win_top_offset d)"

definition window_bottom_offset :: "default_display_window \<Rightarrow> conformance_window \<Rightarrow> err + u64" where
  "window_bottom_offset d w = checked_add (conf_win_bottom_offset w) (def_disp_win_bottom_offset d)"

definition min_spatial_segmentation_times4 :: "bitstream_restriction \<Rightarrow> err + u16" where
  "min_spatial_segmentation_times4 r = checked_add (min_spatial_segmentation_idc r) 4"

subsection \<open>The values that have a syntax\<close>

definition video_signal_ok :: "vui_env \<Rightarrow> video_signal_type \<Rightarrow> bool" where
  "video_signal_ok env s \<longleftrightarrow> unat (video_format s) < 8 \<and>
     (matrix_coeffs s = 0 \<longrightarrow> env_bit_depth_c env = env_bit_depth_y env \<and> env_chroma_format_idc env = 3) \<and>
     (matrix_coeffs s = 8 \<longrightarrow> env_bit_depth_c env = env_bit_depth_y env \<or>
        unat (env_bit_depth_c env) = unat (env_bit_depth_y env) + 1 \<and> env_chroma_format_idc env = 3)"

text \<open>The display window leaves some of the picture, cropped as it is.\<close>

definition display_window_ok :: "vui_env \<Rightarrow> default_display_window \<Rightarrow> bool" where
  "display_window_ok env d \<longleftrightarrow> (let w = env_window env in
     unat (env_sub_width_c env) * (unat (conf_win_left_offset w) + unat (def_disp_win_left_offset d) +
       (unat (conf_win_right_offset w) + unat (def_disp_win_right_offset d))) < unat (env_width env) \<and>
     unat (env_sub_height_c env) * (unat (conf_win_top_offset w) + unat (def_disp_win_top_offset d) +
       (unat (conf_win_bottom_offset w) + unat (def_disp_win_bottom_offset d))) < unat (env_height env))"

definition vui_timing_ok :: "u8 \<Rightarrow> vui_timing_info \<Rightarrow> bool" where
  "vui_timing_ok m t \<longleftrightarrow> vui_num_units_in_tick t \<noteq> 0 \<and> vui_time_scale t \<noteq> 0 \<and>
     (num_ticks_poc_diff_one_minus1 t \<noteq> None) = poc_proportional_to_timing_flag t \<and>
     opt_ok (\<lambda>n. unat n \<le> 2 ^ 32 - 2) (num_ticks_poc_diff_one_minus1 t) \<and>
     opt_ok (\<lambda>h. \<exists>nal vcl. hrd_ok nal vcl m h) (hrd_parameters t)"

definition bitstream_restriction_ok :: "bitstream_restriction \<Rightarrow> bool" where
  "bitstream_restriction_ok r \<longleftrightarrow> unat (min_spatial_segmentation_idc r) \<le> 4095 \<and>
     unat (max_bytes_per_pic_denom r) \<le> 16 \<and> unat (max_bits_per_min_cu_denom r) \<le> 16 \<and>
     unat (log2_max_mv_length_horizontal r) \<le> 15 \<and> unat (log2_max_mv_length_vertical r) \<le> 15"

definition vui_flags_ok :: "vui_env \<Rightarrow> bool \<Rightarrow> bool \<Rightarrow> bool" where
  "vui_flags_ok env field_seq frame_field \<longleftrightarrow>
     (field_seq \<longrightarrow> \<not> frame_only_constraint_flag (env_profile env)) \<and>
     (field_seq \<or> progressive_source_flag (env_profile env) \<and> interlaced_source_flag (env_profile env) \<longrightarrow> frame_field)"

definition h265_vui_ok :: "vui_env \<Rightarrow> vui \<Rightarrow> bool" where
  "h265_vui_ok env v \<longleftrightarrow>
     (video_signal_type v = video_signal_type_default \<or> video_signal_ok env (video_signal_type v)) \<and>
     (chroma_loc_info v \<noteq> None \<longrightarrow> env_chroma_format_idc env = 1) \<and>
     vui_flags_ok env (field_seq_flag v) (frame_field_info_present_flag v) \<and>
     (default_display_window v = default_display_window_default \<or> display_window_ok env (default_display_window v)) \<and>
     opt_ok (vui_timing_ok (env_max_sub_layers_minus1 env)) (vui_timing_info v) \<and>
     bitstream_restriction_ok (vui_bitstream_restriction v)"

lemma yields_flag_or: "yields m P \<Longrightarrow> yields (flag_or rd m d) (\<lambda>v. v = d \<or> P v)"
  unfolding flag_or_def
  by (rule yields_bit_step, rule yields_if, erule yields_mono) (simp_all add: yields_def run_simps)

lemma yields_eg_upto': "unat m = n \<Longrightarrow> yields (eg_upto rd m w :: ('s bit_reader, 'n::len word) io) (\<lambda>v. unat v \<le> n)"
  unfolding eg_upto_def by (intro yielding) (auto intro: unat_ucast_bound)

lemma yields_matrix_check:
  "yields (matrix_check env matrix) (\<lambda>_. (matrix = 0 \<longrightarrow> env_bit_depth_c env = env_bit_depth_y env \<and> env_chroma_format_idc env = 3) \<and>
     (matrix = 8 \<longrightarrow> env_bit_depth_c env = env_bit_depth_y env \<or>
        unat (env_bit_depth_c env) = unat (env_bit_depth_y env) + 1 \<and> env_chroma_format_idc env = 3))"
proof -
  have guard: "yields (guard b e) (\<lambda>_. b)" for b e
    by (simp add: yields_def run_simps)
  show ?thesis
    unfolding matrix_check_def
    by (intro yields_guard_step yields_if yields_lift_step yields_ret, rule yields_mono [OF guard])
      (auto dest!: checked_add_Inr)
qed

lemma yields_video_signal: "yields (video_signal_parse rd bo env) (video_signal_ok env)"
proof -
  have f: "unat (ucast v :: u8) < 8" if "unat (v :: u64) < 2 ^ 3" for v
    using that unat_ucast_less [of v 8] by simp
  show ?thesis
    unfolding video_signal_parse_def
    by (intro yields_bits_step yields_bit_step yields_if yields_bo_step yields_bnd [OF yields_matrix_check] yields_ret)
      (auto simp: video_signal_ok_def video_signal_type_default_def f)
qed

lemma cropped_units_Inr: "cropped_units u a b = Inr n \<Longrightarrow> unat n = unat u * (unat a + unat b)"
  by (cases "checked_add a b") (auto simp: cropped_units_def unat_ucast_up dest!: checked_add_Inr checked_mul_Inr)

lemma yields_display_window: "yields (display_window_parse rd env) (display_window_ok env)"
  unfolding display_window_parse_def
  by (intro yields_eg_step yields_lift_step yields_guard_step yields_ret)
    (auto simp: display_window_ok_def Let_def not_le word_less_nat_alt dest!: checked_add_Inr cropped_units_Inr)

lemma yields_vui_timing: "yields (vui_timing_parse rd bo m) (vui_timing_ok m)"
proof -
  have ticks: "yields (bnd (read_exp_golomb rd) (\<lambda>n. bnd (range_check n 0 (2 ^ 32 - 2) w) (\<lambda>_. ret (ucast n :: u32))))
      (\<lambda>n. unat n \<le> 2 ^ 32 - 2)" for w
    by (intro yielding) (auto simp: word_le_nat_alt intro!: order_trans [OF unat_ucast_le])
  show ?thesis
    unfolding vui_timing_parse_def
    by (intro yields_bo_step yields_guard_step yields_bit_step yields_bnd [OF yields_when [OF ticks]]
        yields_bnd [OF yields_flag_when [OF yields_hrd]] yields_ret)
      (simp add: vui_timing_ok_def)
qed

lemma yields_bitstream_restriction: "yields (bitstream_restriction_parse rd) bitstream_restriction_ok"
  unfolding bitstream_restriction_parse_def
  by (intro yields_bit_step yields_bnd [OF yields_eg_upto' [where n = 4095]] yields_bnd [OF yields_eg_upto' [where n = 16]]
      yields_bnd [OF yields_eg_upto' [where n = 15]] yields_ret)
    (simp_all add: bitstream_restriction_ok_def)

lemma restriction_default_ok: "bitstream_restriction_ok bitstream_restriction_default"
  by (simp add: bitstream_restriction_ok_def bitstream_restriction_default_def)

lemma yields_restriction_or_default:
  "yields (flag_or rd (bitstream_restriction_parse rd) bitstream_restriction_default) bitstream_restriction_ok"
  by (rule yields_mono [OF yields_flag_or [OF yields_bitstream_restriction]]) (auto simp: restriction_default_ok)

lemma yields_chroma: "yields (when_io c (chroma_loc_info_parse rd)) (\<lambda>v. (v \<noteq> None) = c)"
  by (rule yields_mono [OF yields_when [OF yields_any]]) blast

lemma yields_h265_vui: "yields (h265_vui_parse rd bo env) (h265_vui_ok env)"
  unfolding h265_vui_parse_def
  by (rule yields_bnd [OF yields_any], rule yields_bnd [OF yields_any],
      intro yields_bnd [OF yields_flag_or [OF yields_video_signal]] yields_bit_step yields_guard_step
        yields_bnd [OF yields_chroma] yields_bnd [OF yields_flag_or [OF yields_display_window]]
        yields_bnd [OF yields_flag_when [OF yields_vui_timing]] yields_bnd [OF yields_restriction_or_default] yields_ret)
    (simp add: h265_vui_ok_def vui_flags_ok_def, blast)

subsection \<open>The syntax\<close>

record vui_syntax =
  vs_aspect :: "aspect_ratio_info option"
  vs_overscan :: "bool option"
  vs_signal :: "(u8 \<times> bool \<times> (u8 \<times> u8 \<times> u8) option) option"
  vs_chroma :: "chroma_loc_info option"
  vs_neutral :: bool
  vs_field_seq :: bool
  vs_frame_field :: bool
  vs_window :: "default_display_window option"
  vs_timing :: "(vui_timing_info \<times> bool \<times> bool) option"
  vs_restriction :: "(bitstream_restriction \<times> bool) option"

fun aspect_bits :: "aspect_ratio_info \<Rightarrow> bool list" where
  "aspect_bits (Predefined idc) = bits_of 8 idc"
| "aspect_bits (ExtendedSar w h) = bits_of 8 (255 :: u8) @ bits_of 16 w @ bits_of 16 h"

definition signal_value :: "u8 \<times> bool \<times> (u8 \<times> u8 \<times> u8) option \<Rightarrow> video_signal_type" where
  "signal_value = (\<lambda>(f, full, colour). case colour of
     None \<Rightarrow> video_signal_type_default\<lparr>video_format := f, video_full_range_flag := full\<rparr>
   | Some (p, t, m) \<Rightarrow> \<lparr>video_format = f, video_full_range_flag = full, colour_primaries = p,
       transfer_characteristics = t, matrix_coeffs = m\<rparr>)"

definition signal_bits :: "u8 \<times> bool \<times> (u8 \<times> u8 \<times> u8) option \<Rightarrow> bool list" where
  "signal_bits = (\<lambda>(f, full, colour). bits_of 3 f @ full #
     flag_bits (\<lambda>(p, t, m). bits_of 8 p @ bits_of 8 t @ bits_of 8 m) colour)"

definition chroma_loc_info_bits :: "chroma_loc_info \<Rightarrow> bool list" where
  "chroma_loc_info_bits c = eg_bits (loc_top_field c) @ eg_bits (loc_bottom_field c)"

definition chroma_loc_info_ok :: "chroma_loc_info \<Rightarrow> bool" where
  "chroma_loc_info_ok c \<longleftrightarrow> eg_ok (loc_top_field c) \<and> eg_ok (loc_bottom_field c)"

definition window_bits :: "default_display_window \<Rightarrow> bool list" where
  "window_bits d = eg_bits (def_disp_win_left_offset d) @ eg_bits (def_disp_win_right_offset d) @
     eg_bits (def_disp_win_top_offset d) @ eg_bits (def_disp_win_bottom_offset d)"

definition window_eg_ok :: "default_display_window \<Rightarrow> bool" where
  "window_eg_ok d \<longleftrightarrow> eg_ok (def_disp_win_left_offset d) \<and> eg_ok (def_disp_win_right_offset d) \<and>
     eg_ok (def_disp_win_top_offset d) \<and> eg_ok (def_disp_win_bottom_offset d)"

definition timing_bits :: "vui_timing_info \<times> bool \<times> bool \<Rightarrow> bool list" where
  "timing_bits = (\<lambda>(t, nal, vcl). bits_of 32 (vui_num_units_in_tick t) @ bits_of 32 (vui_time_scale t) @
     poc_proportional_to_timing_flag t # opt_bits (\<lambda>n. eg_bits (ucast n)) (num_ticks_poc_diff_one_minus1 t) @
     flag_bits (hrd_bits nal vcl) (hrd_parameters t))"

definition timing_syntax_ok :: "u8 \<Rightarrow> vui_timing_info \<times> bool \<times> bool \<Rightarrow> bool" where
  "timing_syntax_ok m = (\<lambda>(t, nal, vcl). vui_num_units_in_tick t \<noteq> 0 \<and> vui_time_scale t \<noteq> 0 \<and>
     (num_ticks_poc_diff_one_minus1 t \<noteq> None) = poc_proportional_to_timing_flag t \<and>
     opt_ok (\<lambda>n. unat n \<le> 2 ^ 32 - 2) (num_ticks_poc_diff_one_minus1 t) \<and> opt_ok (hrd_ok nal vcl m) (hrd_parameters t))"

definition restriction_value :: "bitstream_restriction \<times> bool \<Rightarrow> bitstream_restriction" where
  "restriction_value = (\<lambda>(r, restricted). r\<lparr>restricted_ref_pic_lists_flag := Some restricted\<rparr>)"

definition restriction_bits :: "bitstream_restriction \<times> bool \<Rightarrow> bool list" where
  "restriction_bits = (\<lambda>(r, restricted). tiles_fixed_structure_flag r # motion_vectors_over_pic_boundaries_flag r #
     restricted # eg_bits (ucast (min_spatial_segmentation_idc r)) @ eg_bits (ucast (max_bytes_per_pic_denom r)) @
     eg_bits (ucast (max_bits_per_min_cu_denom r)) @ eg_bits (ucast (log2_max_mv_length_horizontal r)) @
     eg_bits (ucast (log2_max_mv_length_vertical r)))"

definition or_else :: "('a \<Rightarrow> 'b) \<Rightarrow> 'b \<Rightarrow> 'a option \<Rightarrow> 'b" where
  "or_else f d v = (case v of None \<Rightarrow> d | Some x \<Rightarrow> f x)"

definition vui_value :: "vui_syntax \<Rightarrow> vui" where
  "vui_value s = \<lparr>aspect_ratio_info = or_else (\<lambda>a. a) (Predefined 0) (vs_aspect s),
     vui_overscan_appropriate_flag = vs_overscan s,
     video_signal_type = or_else signal_value video_signal_type_default (vs_signal s),
     chroma_loc_info = vs_chroma s, neutral_chroma_indication_flag = vs_neutral s,
     field_seq_flag = vs_field_seq s, frame_field_info_present_flag = vs_frame_field s,
     default_display_window = or_else (\<lambda>d. d) default_display_window_default (vs_window s),
     vui_timing_info = map_option fst (vs_timing s),
     vui_bitstream_restriction = or_else restriction_value bitstream_restriction_default (vs_restriction s)\<rparr>"

definition h265_vui_bits :: "vui_syntax \<Rightarrow> bool list" where
  "h265_vui_bits s = flag_bits aspect_bits (vs_aspect s) @ flag_bits (\<lambda>b. [b]) (vs_overscan s) @
     flag_bits signal_bits (vs_signal s) @ flag_bits chroma_loc_info_bits (vs_chroma s) @
     [vs_neutral s, vs_field_seq s, vs_frame_field s] @ flag_bits window_bits (vs_window s) @
     flag_bits timing_bits (vs_timing s) @ flag_bits restriction_bits (vs_restriction s)"

definition vui_syntax_ok :: "vui_env \<Rightarrow> vui_syntax \<Rightarrow> bool" where
  "vui_syntax_ok env s \<longleftrightarrow> opt_ok (\<lambda>a. a \<noteq> Predefined 255) (vs_aspect s) \<and>
     opt_ok (\<lambda>v. video_signal_ok env (signal_value v)) (vs_signal s) \<and>
     opt_ok chroma_loc_info_ok (vs_chroma s) \<and> (vs_chroma s \<noteq> None \<longrightarrow> env_chroma_format_idc env = 1) \<and>
     vui_flags_ok env (vs_field_seq s) (vs_frame_field s) \<and>
     opt_ok (\<lambda>d. window_eg_ok d \<and> display_window_ok env d) (vs_window s) \<and>
     opt_ok (timing_syntax_ok (env_max_sub_layers_minus1 env)) (vs_timing s) \<and>
     opt_ok (\<lambda>(r, _). bitstream_restriction_ok r) (vs_restriction s)"

lemma cropped_unitsI:
  assumes "unat u * (unat a + unat b) < 2 ^ 64" and "0 < unat u"
  shows "cropped_units u a b = Inr (ucast u * (a + b))" and "unat (ucast u * (a + b) :: u64) = unat u * (unat a + unat b)"
proof -
  have "unat a + unat b \<le> unat u * (unat a + unat b)" using assms(2) by (cases "unat u") simp_all
  with assms(1) have sum: "unat a + unat b < 2 ^ 64" by linarith
  then have s: "unat (a + b) = unat a + unat b" by (simp add: unat_word_ariths)
  with assms(1) sum show "cropped_units u a b = Inr (ucast u * (a + b))"
    by (simp add: cropped_units_def checked_add_def checked_mul_def unat_ucast_up)
  show "unat (ucast u * (a + b) :: u64) = unat u * (unat a + unat b)"
    using assms(1) by (simp add: unat_word_ariths(2) s unat_ucast_up)
qed

context byte_source
begin

lemma dec_flag_or:
  assumes "\<And>x. v = Some x \<Longrightarrow> dec m (f x) (g x)"
  shows "dec (flag_or rd m d) (flag_bits f v) (or_else g d v)"
  unfolding flag_or_def flag_bits_def
  by (cases v) (auto intro!: dec_bit_step assms simp: opt_bits_def or_else_def decodes_ret)

lemma dec_eg_upto':
  "unat (v :: 'n::len word) \<le> unat m \<Longrightarrow> LENGTH('n) < 64 \<Longrightarrow> dec (eg_upto rd m w) (eg_bits (ucast v)) v"
  unfolding eg_upto_def by (simp add: coding)

lemma dec_aspect_ratio:
  assumes bo: "byteorder_reads (bit_reader_read rd) bo" and "a \<noteq> Predefined 255"
  shows "dec (aspect_ratio_parse rd bo) (aspect_bits a) a"
  using assms(2) by (cases a) (simp_all add: aspect_ratio_parse_def coding bo)

lemma matrix_check_ok:
  assumes "matrix = 0 \<longrightarrow> env_bit_depth_c env = env_bit_depth_y env \<and> env_chroma_format_idc env = 3"
    and "matrix = 8 \<longrightarrow> env_bit_depth_c env = env_bit_depth_y env \<or>
        unat (env_bit_depth_c env) = unat (env_bit_depth_y env) + 1 \<and> env_chroma_format_idc env = 3"
  shows "matrix_check env matrix = ret ()"
proof (cases "matrix = 8 \<and> env_bit_depth_c env \<noteq> env_bit_depth_y env")
  case True
  with assms(2) have "checked_add (env_bit_depth_y env) 1 = Inr (env_bit_depth_c env)" "env_chroma_format_idc env = 3"
    by (auto intro!: checked_add_eqI)
  with True show ?thesis by (simp add: matrix_check_def bnd_guard guard_def)
next
  case False
  with assms show ?thesis by (auto simp: matrix_check_def bnd_guard)
qed

lemma dec_video_signal:
  assumes bo: "byteorder_reads (bit_reader_read rd) bo" and "video_signal_ok env (signal_value v)"
  shows "dec (video_signal_parse rd bo env) (signal_bits v) (signal_value v)"
proof -
  obtain f full colour where v: "v = (f, full, colour)" by (cases v)
  show ?thesis
  proof (cases colour)
    case None
    with assms(2) show ?thesis
      by (simp add: v video_signal_parse_def signal_bits_def signal_value_def flag_bits_def opt_bits_def
          video_signal_ok_def coding)
  next
    case (Some c)
    obtain p t m where c: "c = (p, t, m)" by (cases c)
    from assms(2) have mc: "m = 0 \<longrightarrow> env_bit_depth_c env = env_bit_depth_y env \<and> env_chroma_format_idc env = 3"
      "m = 8 \<longrightarrow> env_bit_depth_c env = env_bit_depth_y env \<or>
         unat (env_bit_depth_c env) = unat (env_bit_depth_y env) + 1 \<and> env_chroma_format_idc env = 3"
      by (simp_all add: v Some c signal_value_def video_signal_ok_def)
    from assms(2) show ?thesis
      by (simp add: matrix_check_ok [OF mc] v Some c video_signal_parse_def signal_bits_def signal_value_def flag_bits_def opt_bits_def
          video_signal_ok_def coding bo)
  qed
qed

lemma dec_chroma_loc_info: "chroma_loc_info_ok c \<Longrightarrow> dec (chroma_loc_info_parse rd) (chroma_loc_info_bits c) c"
  by (cases c) (simp add: chroma_loc_info_ok_def chroma_loc_info_parse_def chroma_loc_info_bits_def coding)

lemma dec_display_window:
  assumes eg: "window_eg_ok d" and ok': "display_window_ok env d"
    and "0 < unat (env_sub_width_c env)" and "0 < unat (env_sub_height_c env)"
  shows "dec (display_window_parse rd env) (window_bits d) d"
proof -
  have add: "checked_add a b = Inr (a + b)" "unat (a + b) = unat a + unat b"
    if "unat u * (unat a + unat b + n) < unat (x :: u64)" and "0 < unat u" for a b x :: u64 and u :: u8 and n
  proof -
    have "unat a + unat b \<le> unat u * (unat a + unat b + n)" using that(2) by (cases "unat u") simp_all
    with that(1) unat_u64_less [of x] have "unat a + unat b < 2 ^ 64" by simp
    then show "checked_add a b = Inr (a + b)" "unat (a + b) = unat a + unat b"
      by (simp_all add: checked_add_def unat_word_ariths)
  qed
  let ?w = "env_window env"
  note o = ok' [unfolded display_window_ok_def Let_def]
  let ?l = "conf_win_left_offset ?w + def_disp_win_left_offset d" and ?r = "conf_win_right_offset ?w + def_disp_win_right_offset d"
  let ?t = "conf_win_top_offset ?w + def_disp_win_top_offset d" and ?b = "conf_win_bottom_offset ?w + def_disp_win_bottom_offset d"
  note l = add [OF conjunct1 [OF o] assms(3)] and t = add [OF conjunct2 [OF o] assms(4)]
  have o': "unat (env_sub_width_c env) * (unat (conf_win_right_offset ?w) + unat (def_disp_win_right_offset d) +
       (unat (conf_win_left_offset ?w) + unat (def_disp_win_left_offset d))) < unat (env_width env)"
    "unat (env_sub_height_c env) * (unat (conf_win_bottom_offset ?w) + unat (def_disp_win_bottom_offset d) +
       (unat (conf_win_top_offset ?w) + unat (def_disp_win_top_offset d))) < unat (env_height env)"
    using o by (simp_all only: add.commute [of "unat (conf_win_right_offset ?w) + _"] add.commute [of "unat (conf_win_bottom_offset ?w) + _"])
  note r = add [OF o'(1) assms(3)] and b = add [OF o'(2) assms(4)]
  have "unat (env_sub_width_c env) * (unat ?l + unat ?r) < unat (env_width env)"
    "unat (env_sub_height_c env) * (unat ?t + unat ?b) < unat (env_height env)"
    using o by (simp_all add: l r t b)
  moreover from this have "unat (env_sub_width_c env) * (unat ?l + unat ?r) < 2 ^ 64"
    "unat (env_sub_height_c env) * (unat ?t + unat ?b) < 2 ^ 64"
    using unat_u64_less [of "env_width env"] unat_u64_less [of "env_height env"] by simp_all
  note w = cropped_unitsI [OF this(1) assms(3)] and h = cropped_unitsI [OF this(2) assms(4)]
  ultimately have "\<not> ucast (env_sub_width_c env) * (?l + ?r) \<ge> env_width env" "\<not> ucast (env_sub_height_c env) * (?t + ?b) \<ge> env_height env"
    by (simp_all only: not_le word_less_nat_alt w h)
  with eg show ?thesis
    unfolding display_window_parse_def window_bits_def
    by (intro decodes_bnd [OF dec_read_exp_golomb] decodes_last [OF dec_read_exp_golomb])
      (simp_all add: window_eg_ok_def l(1) r(1) t(1) b(1) w(1) h(1) coding)
qed

lemma dec_vui_timing:
  assumes bo: "byteorder_reads (bit_reader_read rd) bo" and "timing_syntax_ok m t"
  shows "dec (vui_timing_parse rd bo m) (timing_bits t) (fst t)"
proof -
  obtain v nal vcl where t: "t = (v, nal, vcl)" by (cases t)
  note ok' = assms(2) [unfolded timing_syntax_ok_def t prod.case]
  have ticks: "dec (when_io (poc_proportional_to_timing_flag v) (bnd (read_exp_golomb rd) (\<lambda>n.
       bnd (range_check n 0 (2 ^ 32 - 2) w) (\<lambda>_. ret (ucast n)))))
      (opt_bits (\<lambda>n. eg_bits (ucast n)) (num_ticks_poc_diff_one_minus1 v)) (num_ticks_poc_diff_one_minus1 v)" for w
    using ok' by (intro dec_when) (auto simp: opt_ok_def coding)
  have hrd: "dec (bnd (read_bit rd) (\<lambda>b. when_io b (hrd_parse rd bo True m))) (flag_bits (hrd_bits nal vcl) (hrd_parameters v)) (hrd_parameters v)"
    using ok' by (intro dec_flag_when dec_hrd [OF bo]) (simp add: opt_ok_def)
  show ?thesis
    unfolding vui_timing_parse_def t timing_bits_def prod.case fst_conv
    by (intro decodes_bnd [OF dec_bo_u32 [OF bo]] decodes_guard dec_bit_step decodes_bnd [OF ticks] decodes_last [OF hrd] decodes_end)
      (use ok' in simp_all)
qed

lemma dec_bitstream_restriction:
  assumes "bitstream_restriction_ok r"
  shows "dec (bitstream_restriction_parse rd) (restriction_bits (r, b)) (restriction_value (r, b))"
  unfolding bitstream_restriction_parse_def restriction_bits_def restriction_value_def prod.case
  by (intro dec_bit_step decodes_bnd [OF dec_eg_upto'] decodes_last [OF dec_eg_upto'] decodes_end)
    (use assms in \<open>simp_all add: bitstream_restriction_ok_def\<close>)

lemma dec_h265_vui:
  assumes bo: "byteorder_reads (bit_reader_read rd) bo" and "vui_syntax_ok env s"
    and "0 < unat (env_sub_width_c env)" and "0 < unat (env_sub_height_c env)"
  shows "dec (h265_vui_parse rd bo env) (h265_vui_bits s) (vui_value s)"
proof -
  note ok' = assms(2) [unfolded vui_syntax_ok_def opt_ok_def]
  have aspect: "dec (flag_or rd (aspect_ratio_parse rd bo) (Predefined 0)) (flag_bits aspect_bits (vs_aspect s))
      (or_else (\<lambda>a. a) (Predefined 0) (vs_aspect s))"
    using ok' by (intro dec_flag_or dec_aspect_ratio bo) simp
  have overscan: "dec (bnd (read_bit rd) (\<lambda>b. when_io b (read_bit rd))) (flag_bits (\<lambda>b. [b]) (vs_overscan s)) (vs_overscan s)"
    by (intro dec_flag_when dec_read_bit)
  have signal: "dec (flag_or rd (video_signal_parse rd bo env) video_signal_type_default) (flag_bits signal_bits (vs_signal s))
      (or_else signal_value video_signal_type_default (vs_signal s))"
    using ok' by (intro dec_flag_or dec_video_signal bo) simp
  have chroma: "dec (when_io (vs_chroma s \<noteq> None) (chroma_loc_info_parse rd)) (opt_bits chroma_loc_info_bits (vs_chroma s)) (vs_chroma s)"
    using ok' by (intro dec_when dec_chroma_loc_info) simp_all
  have window: "dec (flag_or rd (display_window_parse rd env) default_display_window_default) (flag_bits window_bits (vs_window s))
      (or_else (\<lambda>d. d) default_display_window_default (vs_window s))"
    using ok' assms(3,4) by (intro dec_flag_or dec_display_window) simp_all
  have "dec (vui_timing_parse rd bo (env_max_sub_layers_minus1 env)) (timing_bits t) (fst t)" if "vs_timing s = Some t" for t
    using ok' that by (intro dec_vui_timing bo) simp
  then have timing: "dec (bnd (read_bit rd) (\<lambda>b. when_io b (vui_timing_parse rd bo (env_max_sub_layers_minus1 env))))
      (flag_bits timing_bits (vs_timing s)) (map_option fst (vs_timing s))"
    by (cases "vs_timing s") (auto simp: flag_bits_def opt_bits_def coding intro!: dec_bit_step decodes_last)
  have restriction: "dec (flag_or rd (bitstream_restriction_parse rd) bitstream_restriction_default) (flag_bits restriction_bits (vs_restriction s))
      (or_else restriction_value bitstream_restriction_default (vs_restriction s))"
    using ok' by (intro dec_flag_or) (auto intro!: dec_bitstream_restriction)
  have flags: "\<not> (frame_only_constraint_flag (env_profile env) \<and> vs_field_seq s)"
    "\<not> (\<not> vs_frame_field s \<and> (vs_field_seq s \<or> progressive_source_flag (env_profile env) \<and> interlaced_source_flag (env_profile env)))"
    "\<not> (env_chroma_format_idc env \<noteq> 1 \<and> vs_chroma s \<noteq> None)"
    using ok' by (auto simp: vui_flags_ok_def)
  show ?thesis
    unfolding h265_vui_parse_def h265_vui_bits_def flag_bits_def [of chroma_loc_info_bits] append_Cons append_Nil
    by (intro decodes_bnd [OF aspect] decodes_bnd [OF overscan] decodes_bnd [OF signal] dec_bit_step decodes_guard
        decodes_bnd [OF chroma] decodes_bnd [OF window] decodes_bnd [OF timing] decodes_last [OF restriction] decodes_end flags)
      (simp add: vui_value_def)
qed

end

end
