(* ===== verification/H265_Sps.thy ===== *)
theory H265_Sps
  imports H265_Extensions H265_Refs H265_Scaling H265_Vui
begin

text \<open>
  \<open>crates/h265/src/sps/mod.rs\<close>: the sequence parameter set of H.265, composed of the parts
  of the other theories. \<open>h265_sps_parse\<close> reads it through emulation prevention; the
  parameter sets it returns satisfy \<open>h265_sps_ok\<close>, and on the bit string of the standard it
  returns what the standard says. The methods compute derived values, with the overflow
  checks of the code.
\<close>

subsection \<open>The parameter set\<close>

record h265_sps =
  sps_video_parameter_set_id :: u8
  sps_max_sub_layers_minus1 :: u8
  sps_temporal_id_nesting_flag :: bool
  sps_profile_tier_level :: profile_tier_level
  sps_seq_parameter_set_id :: u64
  sps_chroma_format_idc :: u8
  sps_separate_colour_plane_flag :: bool
  pic_width_in_luma_samples :: u64
  pic_height_in_luma_samples :: u64
  sps_conformance_window :: conformance_window
  sps_bit_depth_luma_minus8 :: u8
  sps_bit_depth_chroma_minus8 :: u8
  sps_log2_max_pic_order_cnt_lsb_minus4 :: u8
  sps_sub_layer_ordering_info :: sub_layer_ordering_info
  log2_min_luma_coding_block_size_minus3 :: u64
  log2_diff_max_min_luma_coding_block_size :: u64
  log2_min_luma_transform_block_size_minus2 :: u64
  log2_diff_max_min_luma_transform_block_size :: u64
  max_transform_hierarchy_depth_inter :: u64
  max_transform_hierarchy_depth_intra :: u64
  scaling_list_data :: "int list list list option"
  amp_enabled_flag :: bool
  sample_adaptive_offset_enabled_flag :: bool
  sps_pcm :: "pcm option"
  sps_short_term_ref_pic_sets :: short_term_ref_pic_sets
  sps_long_term_ref_pics :: "long_term_ref_pics option"
  sps_temporal_mvp_enabled_flag :: bool
  strong_intra_smoothing_enabled_flag :: bool
  vui_parameters :: "vui option"
  range_extension :: "sps_range_extension option"
  multilayer_extension :: "sps_multilayer_extension option"
  three_d_extension :: "sps_3d_extension option"
  scc_extension :: "sps_scc_extension option"

record sps_nal_unit =
  sps_nal_unit_header :: nal_unit_header
  sps_rbsp :: h265_sps

subsection \<open>parse\<close>

definition sps_ids_parse :: "'s read_fn \<Rightarrow> ('s bit_reader, u8 \<times> u8 \<times> bool) io" where
  "sps_ids_parse rd =
     bnd (read_bits rd 4) (\<lambda>vps.
     bnd (read_bits rd 3) (\<lambda>m. let m = ucast m :: u8 in
     bnd (range_check m 0 6 ''sps_max_sub_layers_minus1'') (\<lambda>_.
     bnd (read_bit rd) (\<lambda>nesting.
     bnd (guard (\<not> (m = 0 \<and> \<not> nesting)) (IoErr InvalidData
       ''sps_temporal_id_nesting_flag must be 1 when sps_max_sub_layers_minus1 is 0'')) (\<lambda>_.
     ret (ucast vps, m, nesting))))))"

text \<open>Identifier, chroma format, colour planes, width, height and conformance window.\<close>

definition sps_format_parse :: "'s read_fn \<Rightarrow>
    ('s bit_reader, u64 \<times> u8 \<times> bool \<times> u64 \<times> u64 \<times> conformance_window) io" where
  "sps_format_parse rd =
     bnd (read_exp_golomb rd) (\<lambda>id.
     bnd (range_check id 0 15 ''sps_seq_parameter_set_id'') (\<lambda>_.
     bnd (eg_upto rd 3 ''chroma_format_idc'') (\<lambda>chroma.
     bnd (if chroma = 3 then read_bit rd else ret False) (\<lambda>separate.
     bnd (read_exp_golomb rd) (\<lambda>width.
     bnd (guard (width \<noteq> 0) (IoErr InvalidData ''pic_width_in_luma_samples must not be 0'')) (\<lambda>_.
     bnd (read_exp_golomb rd) (\<lambda>height.
     bnd (guard (height \<noteq> 0) (IoErr InvalidData ''pic_height_in_luma_samples must not be 0'')) (\<lambda>_.
     bnd (flag_or rd (conformance_window_parse rd) conformance_window_default) (\<lambda>window.
     ret (id, chroma, separate, width, height, window))))))))))"

definition sub_width_of :: "u8 \<Rightarrow> u8" where
  "sub_width_of chroma = (if chroma = 1 \<or> chroma = 2 then 2 else 1)"

definition sub_height_of :: "u8 \<Rightarrow> u8" where
  "sub_height_of chroma = (if chroma = 1 then 2 else 1)"

text \<open>The minus-8 depths with \<open>BitDepth_Y\<close> and \<open>BitDepth_C\<close>, and the picture order count.\<close>

definition sps_depths_parse :: "'s read_fn \<Rightarrow> ('s bit_reader, u8 \<times> u8 \<times> u8 \<times> u8 \<times> u8) io" where
  "sps_depths_parse rd =
     bnd (eg_upto rd 8 ''bit_depth_luma_minus8'') (\<lambda>luma.
     bnd (lift_res (checked_add 8 luma)) (\<lambda>bit_depth_y.
     bnd (eg_upto rd 8 ''bit_depth_chroma_minus8'') (\<lambda>chroma.
     bnd (lift_res (checked_add 8 chroma)) (\<lambda>bit_depth_c.
     bnd (eg_upto rd 12 ''log2_max_pic_order_cnt_lsb_minus4'') (\<lambda>poc.
     ret (luma, bit_depth_y, chroma, bit_depth_c, poc))))))"

text \<open>The sizes of coding and transform blocks, with \<open>MinCbLog2SizeY\<close> and \<open>CtbLog2SizeY\<close>.\<close>

definition sps_blocks_parse :: "'s read_fn \<Rightarrow>
    ('s bit_reader, u64 \<times> u64 \<times> u64 \<times> u64 \<times> u64 \<times> u64 \<times> u64 \<times> u64) io" where
  "sps_blocks_parse rd =
     bnd (read_exp_golomb rd) (\<lambda>cb.
     bnd (read_exp_golomb rd) (\<lambda>diff_cb.
     bnd (lift_res (checked_add cb 3)) (\<lambda>min_cb_log2.
     bnd (lift_res (checked_add min_cb_log2 diff_cb)) (\<lambda>ctb_log2.
     bnd (read_exp_golomb rd) (\<lambda>tb.
     bnd (lift_res (checked_add tb 2)) (\<lambda>min_tb_log2.
     bnd (read_exp_golomb rd) (\<lambda>diff_tb.
     bnd (read_exp_golomb rd) (\<lambda>inter.
     bnd (lift_res (checked_sub ctb_log2 min_tb_log2)) (\<lambda>hi.
     bnd (range_check inter 0 hi ''max_transform_hierarchy_depth_inter'') (\<lambda>_.
     bnd (read_exp_golomb rd) (\<lambda>intra.
     bnd (lift_res (checked_sub ctb_log2 min_tb_log2)) (\<lambda>hi.
     bnd (range_check intra 0 hi ''max_transform_hierarchy_depth_intra'') (\<lambda>_.
     ret (cb, diff_cb, min_cb_log2, ctb_log2, tb, diff_tb, inter, intra))))))))))))))"

definition sps_scaling_parse :: "'s read_fn \<Rightarrow> ('s bit_reader, int list list list option) io" where
  "sps_scaling_parse rd =
     bnd (read_bit rd) (\<lambda>enabled.
     if enabled then bnd (read_bit rd) (\<lambda>present. when_io present (scaling_list_data_parse rd)) else ret None)"

definition sps_st_rps_parse :: "'s read_fn \<Rightarrow> u8 \<Rightarrow> u64 list \<Rightarrow> ('s bit_reader, short_term_ref_pic_sets) io" where
  "sps_st_rps_parse rd layer max_dec =
     bnd (read_exp_golomb rd) (\<lambda>num.
     bnd (range_check num 0 64 ''num_short_term_ref_pic_sets'') (\<lambda>_.
     if max_dec = [] then fail (Panic ''unreachable: cannot be empty'')
     else short_term_ref_pic_sets_parse rd (unat (ucast num :: u8)) layer (last max_dec)))"

definition sps_extensions_parse :: "'s read_fn \<Rightarrow> u8 \<Rightarrow> u8 \<Rightarrow> u8 \<Rightarrow> u64 \<Rightarrow> u64 \<Rightarrow>
    ('s bit_reader, sps_range_extension option \<times> sps_multilayer_extension option \<times>
       sps_3d_extension option \<times> sps_scc_extension option) io" where
  "sps_extensions_parse rd chroma bit_depth_y bit_depth_c min_cb_log2 ctb_log2 =
     bnd (read_bit rd) (\<lambda>sps_extension_flag.
     if sps_extension_flag then
       bnd (read_bit rd) (\<lambda>range_flag.
       bnd (read_bit rd) (\<lambda>multilayer_flag.
       bnd (read_bit rd) (\<lambda>three_d_flag.
       bnd (read_bit rd) (\<lambda>scc_flag.
       bnd (read_bits rd 4) (\<lambda>v.
       bnd (guard (\<not> (ucast v :: u8) \<noteq> 0) (IoErr InvalidData ''sps_extension_4bits must be 0'')) (\<lambda>_.
       bnd (when_io range_flag (sps_range_extension_parse rd)) (\<lambda>range.
       bnd (when_io multilayer_flag (sps_multilayer_extension_parse rd)) (\<lambda>multilayer.
       bnd (when_io three_d_flag (sps_3d_extension_parse rd min_cb_log2 ctb_log2)) (\<lambda>three_d.
       bnd (when_io scc_flag (sps_scc_extension_parse rd chroma bit_depth_y bit_depth_c)) (\<lambda>scc.
       ret (range, multilayer, three_d, scc)))))))))))
     else ret (None, None, None, None))"

definition h265_sps_fields_read :: "'s read_fn \<Rightarrow> 's bit_reader byteorder \<Rightarrow> u8 \<Rightarrow> ('s bit_reader, h265_sps) io" where
  "h265_sps_fields_read rd bo layer =
     bnd (sps_ids_parse rd) (\<lambda>(vps, m, nesting).
     bnd (profile_tier_level_parse rd bo (unat m)) (\<lambda>ptl.
     bnd (sps_format_parse rd) (\<lambda>(id, chroma, separate, width, height, window).
     bnd (sps_depths_parse rd) (\<lambda>(luma_minus8, bit_depth_y, chroma_minus8, bit_depth_c, poc).
     bnd (read_bit rd) (\<lambda>ordering_present.
     bnd (sub_layer_ordering_parse rd ordering_present (unat m)) (\<lambda>ordering.
     bnd (sps_blocks_parse rd) (\<lambda>(cb, diff_cb, min_cb_log2, ctb_log2, tb, diff_tb, inter, intra).
     bnd (sps_scaling_parse rd) (\<lambda>scaling.
     bnd (read_bit rd) (\<lambda>amp.
     bnd (read_bit rd) (\<lambda>sao.
     bnd (bnd (read_bit rd) (\<lambda>b. when_io b (pcm_parse rd bit_depth_y bit_depth_c min_cb_log2 ctb_log2))) (\<lambda>pcm_opt.
     bnd (sps_st_rps_parse rd layer (sps_max_dec_pic_buffering_minus1 ordering)) (\<lambda>st_rps.
     bnd (bnd (read_bit rd) (\<lambda>b. when_io b (long_term_ref_pics_parse rd poc))) (\<lambda>long_term.
     bnd (read_bit rd) (\<lambda>mvp.
     bnd (read_bit rd) (\<lambda>smoothing.
     bnd (bnd (read_bit rd) (\<lambda>b. when_io b (h265_vui_parse rd bo
       \<lparr>env_max_sub_layers_minus1 = m, env_bit_depth_y = bit_depth_y, env_bit_depth_c = bit_depth_c,
        env_chroma_format_idc = chroma, env_profile = general_profile ptl, env_window = window,
        env_sub_width_c = sub_width_of chroma, env_width = width,
        env_sub_height_c = sub_height_of chroma, env_height = height\<rparr>))) (\<lambda>vui_opt.
     bnd (sps_extensions_parse rd chroma bit_depth_y bit_depth_c min_cb_log2 ctb_log2) (\<lambda>(range, multilayer, three_d, scc).
     ret \<lparr>sps_video_parameter_set_id = vps, sps_max_sub_layers_minus1 = m, sps_temporal_id_nesting_flag = nesting,
       sps_profile_tier_level = ptl, sps_seq_parameter_set_id = id, sps_chroma_format_idc = chroma,
       sps_separate_colour_plane_flag = separate, pic_width_in_luma_samples = width,
       pic_height_in_luma_samples = height, sps_conformance_window = window,
       sps_bit_depth_luma_minus8 = luma_minus8, sps_bit_depth_chroma_minus8 = chroma_minus8,
       sps_log2_max_pic_order_cnt_lsb_minus4 = poc, sps_sub_layer_ordering_info = ordering,
       log2_min_luma_coding_block_size_minus3 = cb, log2_diff_max_min_luma_coding_block_size = diff_cb,
       log2_min_luma_transform_block_size_minus2 = tb, log2_diff_max_min_luma_transform_block_size = diff_tb,
       max_transform_hierarchy_depth_inter = inter, max_transform_hierarchy_depth_intra = intra,
       scaling_list_data = scaling, amp_enabled_flag = amp, sample_adaptive_offset_enabled_flag = sao,
       sps_pcm = pcm_opt, sps_short_term_ref_pic_sets = st_rps, sps_long_term_ref_pics = long_term,
       sps_temporal_mvp_enabled_flag = mvp, strong_intra_smoothing_enabled_flag = smoothing,
       vui_parameters = vui_opt, range_extension = range, multilayer_extension = multilayer,
       three_d_extension = three_d, scc_extension = scc\<rparr>)))))))))))))))))"

definition h265_sps_read :: "'s read_fn \<Rightarrow> 's bit_reader byteorder \<Rightarrow> u8 \<Rightarrow> ('s bit_reader, h265_sps) io" where
  "h265_sps_read rd bo layer =
     bnd (h265_sps_fields_read rd bo layer) (\<lambda>s. bnd (rbsp_trailing_bits rd) (\<lambda>_. ret s))"

text \<open>\<open>SpsRbsp::parse\<close> through the emulation prevention layer, and \<open>SpsNALUnit::parse\<close>.\<close>

definition h265_sps_rbsp_parse :: "'s read_fn \<Rightarrow> 's ep_io bit_reader byteorder \<Rightarrow> u8 \<Rightarrow> ('s, h265_sps) io" where
  "h265_sps_rbsp_parse rd bo layer s =
     (case with_bit_reader (h265_sps_read (ep_read rd) bo layer) (ep_new s) of (x, e) \<Rightarrow> (x, ep_inner e))"

definition h265_sps_parse :: "'s read_fn \<Rightarrow> 's ep_io bit_reader byteorder \<Rightarrow> ('s, sps_nal_unit) io" where
  "h265_sps_parse rd bo =
     bnd (nal_header_parse rd) (\<lambda>h.
     bnd (guard (\<not> h265_nal_unit_type h \<noteq> SpsNut) (IoErr InvalidData ''nal_unit_type is not SPS_NUT'')) (\<lambda>_.
     bnd (h265_sps_rbsp_parse rd bo (nuh_layer_id h)) (\<lambda>s.
     ret \<lparr>sps_nal_unit_header = h, sps_rbsp = s\<rparr>)))"

subsection \<open>The derived values\<close>

text \<open>\<open>1 << n\<close> and \<open>2u32.pow(n)\<close>, which panic when the result does not fit, and \<open>/\<close>.\<close>

definition shl_u64 :: "u64 \<Rightarrow> err + u64" where
  "shl_u64 n = (if unat n < 64 then Inr (push_bit (unat n) 1) else Inl (Panic ''shl overflow''))"

definition pow2_u32 :: "nat \<Rightarrow> err + u32" where
  "pow2_u32 n = (if n < 32 then Inr (2 ^ n) else Inl (Panic ''pow overflow''))"

definition checked_div :: "u64 \<Rightarrow> u64 \<Rightarrow> err + u64" where
  "checked_div a b = (if b = 0 then Inl (Panic ''division by zero'') else Inr (a div b))"

definition cropped_size :: "u64 \<Rightarrow> u8 \<Rightarrow> u64 \<Rightarrow> u64 \<Rightarrow> err + u64" where
  "cropped_size n unit a b = rbind (checked_add a b) (\<lambda>t. rbind (checked_mul (ucast unit) t) (\<lambda>c. checked_sub n c))"

definition sub_width_c :: "h265_sps \<Rightarrow> u8" where
  "sub_width_c s = sub_width_of (sps_chroma_format_idc s)"

definition sub_height_c :: "h265_sps \<Rightarrow> u8" where
  "sub_height_c s = sub_height_of (sps_chroma_format_idc s)"

definition cropped_width :: "h265_sps \<Rightarrow> err + u64" where
  "cropped_width s = cropped_size (pic_width_in_luma_samples s) (sub_width_c s)
     (conf_win_left_offset (sps_conformance_window s)) (conf_win_right_offset (sps_conformance_window s))"

definition cropped_height :: "h265_sps \<Rightarrow> err + u64" where
  "cropped_height s = cropped_size (pic_height_in_luma_samples s) (sub_height_c s)
     (conf_win_top_offset (sps_conformance_window s)) (conf_win_bottom_offset (sps_conformance_window s))"

definition chroma_array_type :: "h265_sps \<Rightarrow> u8" where
  "chroma_array_type s = (if sps_separate_colour_plane_flag s then 0 else sps_chroma_format_idc s)"

definition h265_bit_depth_y :: "h265_sps \<Rightarrow> err + u8" where
  "h265_bit_depth_y s = checked_add 8 (sps_bit_depth_luma_minus8 s)"

definition qp_bd_offset_y :: "h265_sps \<Rightarrow> err + u8" where
  "qp_bd_offset_y s = rbind (h265_bit_depth_y s) (\<lambda>d. checked_mul 6 d)"

definition h265_bit_depth_c :: "h265_sps \<Rightarrow> err + u8" where
  "h265_bit_depth_c s = checked_add 8 (sps_bit_depth_chroma_minus8 s)"

definition qp_bd_offset_c :: "h265_sps \<Rightarrow> err + u8" where
  "qp_bd_offset_c s = rbind (h265_bit_depth_c s) (\<lambda>d. checked_mul 6 d)"

definition max_pic_order_cnt_lsb :: "h265_sps \<Rightarrow> err + u32" where
  "max_pic_order_cnt_lsb s = pow2_u32 (unat (sps_log2_max_pic_order_cnt_lsb_minus4 s) + 4)"

definition min_cb_log2_size_y :: "h265_sps \<Rightarrow> err + u64" where
  "min_cb_log2_size_y s = checked_add (log2_min_luma_coding_block_size_minus3 s) 3"

definition ctb_log2_size_y :: "h265_sps \<Rightarrow> err + u64" where
  "ctb_log2_size_y s = rbind (min_cb_log2_size_y s) (\<lambda>n. checked_add n (log2_diff_max_min_luma_coding_block_size s))"

definition min_cb_size_y :: "h265_sps \<Rightarrow> err + u64" where
  "min_cb_size_y s = rbind (min_cb_log2_size_y s) shl_u64"

definition ctb_size_y :: "h265_sps \<Rightarrow> err + u64" where
  "ctb_size_y s = rbind (ctb_log2_size_y s) (\<lambda>n. rbind (shl_u64 n) (\<lambda>v.
     if v = 0 then Inl (Panic ''unwrap on None'') else Inr v))"

definition pic_width_in_min_cbs_y :: "h265_sps \<Rightarrow> err + u64" where
  "pic_width_in_min_cbs_y s = rbind (min_cb_size_y s) (checked_div (pic_width_in_luma_samples s))"

definition pic_width_in_ctbs_y :: "h265_sps \<Rightarrow> err + u64" where
  "pic_width_in_ctbs_y s = rbind (ctb_size_y s) (\<lambda>v. checked_add (pic_width_in_luma_samples s div v) 1)"

definition pic_height_in_min_cbs_y :: "h265_sps \<Rightarrow> err + u64" where
  "pic_height_in_min_cbs_y s = rbind (min_cb_size_y s) (checked_div (pic_height_in_luma_samples s))"

definition pic_height_in_ctbs_y :: "h265_sps \<Rightarrow> err + u64" where
  "pic_height_in_ctbs_y s = rbind (ctb_size_y s) (\<lambda>v. checked_add (pic_height_in_luma_samples s div v) 1)"

definition pic_size_in_min_cbs_y :: "h265_sps \<Rightarrow> err + u64" where
  "pic_size_in_min_cbs_y s =
     rbind (pic_width_in_min_cbs_y s) (\<lambda>w. rbind (pic_height_in_min_cbs_y s) (\<lambda>h. checked_mul w h))"

definition pic_size_in_ctbs_y :: "h265_sps \<Rightarrow> err + u64" where
  "pic_size_in_ctbs_y s = rbind (pic_width_in_ctbs_y s) (\<lambda>w. rbind (pic_height_in_ctbs_y s) (\<lambda>h. checked_mul w h))"

definition pic_size_in_samples_y :: "h265_sps \<Rightarrow> err + u64" where
  "pic_size_in_samples_y s = checked_mul (pic_width_in_luma_samples s) (pic_height_in_luma_samples s)"

definition pic_width_in_samples_c :: "h265_sps \<Rightarrow> err + u64" where
  "pic_width_in_samples_c s = checked_div (pic_width_in_luma_samples s) (ucast (sub_width_c s))"

definition pic_height_in_samples_c :: "h265_sps \<Rightarrow> err + u64" where
  "pic_height_in_samples_c s = checked_div (pic_height_in_luma_samples s) (ucast (sub_height_c s))"

definition ctb_width_c :: "h265_sps \<Rightarrow> err + u64" where
  "ctb_width_c s = (if sps_chroma_format_idc s = 0 \<or> sps_separate_colour_plane_flag s then Inr 0
     else rbind (ctb_size_y s) (\<lambda>v. checked_div v (ucast (sub_width_c s))))"

definition ctb_height_c :: "h265_sps \<Rightarrow> err + u64" where
  "ctb_height_c s = (if sps_chroma_format_idc s = 0 \<or> sps_separate_colour_plane_flag s then Inr 0
     else rbind (ctb_size_y s) (\<lambda>v. checked_div v (ucast (sub_height_c s))))"

definition min_tb_log2_size_y :: "h265_sps \<Rightarrow> err + u64" where
  "min_tb_log2_size_y s = checked_add (log2_min_luma_transform_block_size_minus2 s) 2"

definition max_tb_log2_size_y :: "h265_sps \<Rightarrow> err + u64" where
  "max_tb_log2_size_y s = rbind (checked_add (log2_min_luma_transform_block_size_minus2 s) 2) (\<lambda>n.
     checked_add n (log2_diff_max_min_luma_transform_block_size s))"

definition raw_ctu_bits :: "h265_sps \<Rightarrow> err + u64" where
  "raw_ctu_bits s =
     rbind (ctb_size_y s) (\<lambda>size.
     rbind (checked_mul size size) (\<lambda>samples.
     rbind (h265_bit_depth_y s) (\<lambda>dy.
     rbind (checked_mul samples (ucast dy)) (\<lambda>luma.
     rbind (ctb_width_c s) (\<lambda>w.
     rbind (ctb_height_c s) (\<lambda>h.
     rbind (checked_mul w h) (\<lambda>c.
     rbind (checked_mul 2 c) (\<lambda>c2.
     rbind (h265_bit_depth_c s) (\<lambda>dc.
     rbind (checked_mul c2 (ucast dc)) (\<lambda>chroma.
     checked_add luma chroma))))))))))"

subsection \<open>What \<open>parse\<close> returns\<close>

text \<open>
  Every profile has its two and five bit fields, an INBLD flag and a level, its own or an
  inherited one. Which further flags a profile has depends on a check that the code gets wrong
  (\<open>check_profile_idcs_mirrored\<close>), so nothing is said of them.
\<close>

definition profile_shown :: "profile \<Rightarrow> bool" where
  "profile_shown p \<longleftrightarrow> unat (profile_space p) \<le> 3 \<and> unat (profile_idc p) \<le> 31 \<and> inbld_flag p \<noteq> None \<and>
     level_idc p \<noteq> None \<and> opt_ok (\<lambda>l. unat l \<le> 254) (level_idc p)"

definition ptl_ok :: "nat \<Rightarrow> profile_tier_level \<Rightarrow> bool" where
  "ptl_ok n p \<longleftrightarrow> profile_shown (general_profile p) \<and> length (sub_layer_profiles p) = n \<and>
     list_all profile_shown (sub_layer_profiles p)"

text \<open>One entry for each sub-layer, none smaller than the one below it.\<close>

definition ordering_info_ok :: "nat \<Rightarrow> sub_layer_ordering_info \<Rightarrow> bool" where
  "ordering_info_ok n s \<longleftrightarrow>
     (let dpb = sps_max_dec_pic_buffering_minus1 s; reorder = sps_max_num_reorder_pics s;
          latency = sps_max_latency_increase_plus1 s in
      length dpb = n + 1 \<and> length reorder = n + 1 \<and> length latency = n + 1 \<and>
      (\<forall>i \<le> n. unat (dpb ! i) \<le> 16 \<and> unat (reorder ! i) \<le> unat (dpb ! i) \<and> unat (latency ! i) \<le> 2 ^ 32 - 2) \<and>
      (\<forall>i < n. unat (dpb ! i) \<le> unat (dpb ! (i + 1)) \<and> unat (reorder ! i) \<le> unat (reorder ! (i + 1))))"

text \<open>
  One set: at most 16 pictures before the current one, all at negative distances, those after
  it at positive ones; the vectors hold them from the front and are as long or longer. The
  number of pictures after it is not checked in a predicted set: it is bounded only by what
  64 predictions in a row can add.
\<close>

definition rps_shown :: "st_rps \<Rightarrow> bool" where
  "rps_shown r \<longleftrightarrow> unat (num_negative r) \<le> 16 \<and> unat (num_positive r) \<le> 16 + 17 * 64 \<and>
     unat (num_delta r) = unat (num_negative r) + unat (num_positive r) \<and>
     unat (num_negative r) \<le> length (poc_s0 r) \<and> length (used_s0 r) = length (poc_s0 r) \<and>
     unat (num_positive r) \<le> length (poc_s1 r) \<and> length (used_s1 r) = length (poc_s1 r) \<and>
     (\<forall>d \<in> set (take (unat (num_negative r)) (poc_s0 r)). d < 0) \<and>
     (\<forall>d \<in> set (take (unat (num_positive r)) (poc_s1 r)). 0 < d)"

text \<open>All sets; the first one, which is sent outright, also fits the picture buffer.\<close>

definition st_rps_ok :: "u8 \<Rightarrow> u64 \<Rightarrow> short_term_ref_pic_sets \<Rightarrow> bool" where
  "st_rps_ok layer max_dec s \<longleftrightarrow> (\<exists>rs. s = short_term_sets rs \<and> length rs \<le> 64 \<and> list_all rps_shown rs \<and>
     (\<forall>r rs'. rs = r # rs' \<longrightarrow> pictures_fit layer max_dec r))"

text \<open>\<open>MinCbLog2SizeY\<close> and \<open>CtbLog2SizeY\<close> are 64-bit numbers, and the transform blocks and
  the depths of their trees fit the coding blocks.\<close>

definition blocks_ok :: "u64 \<Rightarrow> u64 \<Rightarrow> u64 \<Rightarrow> u64 \<Rightarrow> u64 \<Rightarrow> u64 \<Rightarrow> bool" where
  "blocks_ok cb diff_cb tb diff_tb d_inter d_intra \<longleftrightarrow>
     eg_ok cb \<and> eg_ok diff_cb \<and> eg_ok tb \<and> eg_ok diff_tb \<and> eg_ok d_inter \<and> eg_ok d_intra \<and>
     unat cb + 3 + unat diff_cb < 2 ^ 64 \<and> unat tb + 2 \<le> unat cb + 3 + unat diff_cb \<and>
     unat d_inter + (unat tb + 2) \<le> unat cb + 3 + unat diff_cb \<and>
     unat d_intra + (unat tb + 2) \<le> unat cb + 3 + unat diff_cb"

text \<open>The values the parts depend on.\<close>

definition sps_min_cb_log2 :: "h265_sps \<Rightarrow> u64" where
  "sps_min_cb_log2 s = log2_min_luma_coding_block_size_minus3 s + 3"

definition sps_ctb_log2 :: "h265_sps \<Rightarrow> u64" where
  "sps_ctb_log2 s = sps_min_cb_log2 s + log2_diff_max_min_luma_coding_block_size s"

definition sps_vui_env :: "h265_sps \<Rightarrow> vui_env" where
  "sps_vui_env s =
     \<lparr>env_max_sub_layers_minus1 = sps_max_sub_layers_minus1 s, env_bit_depth_y = 8 + sps_bit_depth_luma_minus8 s,
      env_bit_depth_c = 8 + sps_bit_depth_chroma_minus8 s, env_chroma_format_idc = sps_chroma_format_idc s,
      env_profile = general_profile (sps_profile_tier_level s), env_window = sps_conformance_window s,
      env_sub_width_c = sub_width_of (sps_chroma_format_idc s), env_width = pic_width_in_luma_samples s,
      env_sub_height_c = sub_height_of (sps_chroma_format_idc s), env_height = pic_height_in_luma_samples s\<rparr>"

definition h265_sps_ok :: "u8 \<Rightarrow> h265_sps \<Rightarrow> bool" where
  "h265_sps_ok layer s \<longleftrightarrow>
     (let m = sps_max_sub_layers_minus1 s; cb = sps_min_cb_log2 s; ctb = sps_ctb_log2 s;
          by = 8 + sps_bit_depth_luma_minus8 s; bc = 8 + sps_bit_depth_chroma_minus8 s in
      unat (sps_video_parameter_set_id s) < 16 \<and> unat m \<le> 6 \<and> (m = 0 \<longrightarrow> sps_temporal_id_nesting_flag s) \<and>
      ptl_ok (unat m) (sps_profile_tier_level s) \<and>
      unat (sps_seq_parameter_set_id s) \<le> 15 \<and> unat (sps_chroma_format_idc s) \<le> 3 \<and>
      (sps_separate_colour_plane_flag s \<longrightarrow> sps_chroma_format_idc s = 3) \<and>
      pic_width_in_luma_samples s \<noteq> 0 \<and> pic_height_in_luma_samples s \<noteq> 0 \<and>
      conformance_window_ok (sps_conformance_window s) \<and>
      unat (sps_bit_depth_luma_minus8 s) \<le> 8 \<and> unat (sps_bit_depth_chroma_minus8 s) \<le> 8 \<and>
      unat (sps_log2_max_pic_order_cnt_lsb_minus4 s) \<le> 12 \<and>
      ordering_info_ok (unat m) (sps_sub_layer_ordering_info s) \<and>
      blocks_ok (log2_min_luma_coding_block_size_minus3 s) (log2_diff_max_min_luma_coding_block_size s)
        (log2_min_luma_transform_block_size_minus2 s) (log2_diff_max_min_luma_transform_block_size s)
        (max_transform_hierarchy_depth_inter s) (max_transform_hierarchy_depth_intra s) \<and>
      opt_ok scaling_data_shape (scaling_list_data s) \<and> opt_ok (pcm_ok by bc cb ctb) (sps_pcm s) \<and>
      st_rps_ok layer (last (sps_max_dec_pic_buffering_minus1 (sps_sub_layer_ordering_info s)))
        (sps_short_term_ref_pic_sets s) \<and>
      opt_ok (long_term_ref_pics_ok (sps_log2_max_pic_order_cnt_lsb_minus4 s)) (sps_long_term_ref_pics s) \<and>
      opt_ok (h265_vui_ok (sps_vui_env s)) (vui_parameters s) \<and>
      opt_ok (sps_3d_extension_ok cb ctb) (three_d_extension s) \<and>
      opt_ok (sps_scc_extension_ok (comp_depths (sps_chroma_format_idc s) by bc)) (scc_extension s))"










lemma add8: "unat v \<le> 8 \<Longrightarrow> checked_add 8 v = Inr (8 + v)" for v :: u8
  by (simp add: checked_add_def)









lemma orderings_ok_last: "orderings_ok prev xs \<Longrightarrow> xs \<noteq> [] \<Longrightarrow> unat (fst (last xs)) \<le> 16"
  by (induction xs arbitrary: prev) (auto simp: ordering_ok_def)

lemma sub_layer_ordering_last:
  assumes "sub_layer_ordering_ok present n xs"
  shows "xs \<noteq> [] \<and> unat (fst (last xs)) \<le> 16"
proof -
  have ne: "xs \<noteq> []" using assms by (auto simp: sub_layer_ordering_ok_def)
  have "unat (fst (last xs)) \<le> 16"
  proof (cases present)
    case True
    with assms ne show ?thesis by (auto simp: sub_layer_ordering_ok_def intro: orderings_ok_last)
  next
    case False
    with assms have "xs = replicate (n + 1) (hd xs)" "ordering_ok None (hd xs)" by (simp_all add: sub_layer_ordering_ok_def)
    then show ?thesis by (metis (no_types, lifting) orderings_ok.simps orderings_ok_last last_replicate last.simps add_is_0 one_neq_zero list.distinct(1))
  qed
  with ne show ?thesis by simp
qed

lemma orderings_ok_nth:
  "orderings_ok prev xs \<Longrightarrow> i < length xs \<Longrightarrow>
     ordering_ok (if i = 0 then prev else Some (xs ! (i - 1))) (xs ! i)"
proof (induction xs arbitrary: prev i)
  case (Cons x xs)
  show ?case
  proof (cases i)
    case (Suc j)
    with Cons.prems have "ordering_ok (if j = 0 then Some x else Some (xs ! (j - 1))) (xs ! j)"
      by (intro Cons.IH) simp_all
    with Suc show ?thesis by (cases j) simp_all
  qed (use Cons.prems in simp)
qed simp

lemma ordering_info_ok:
  assumes "sub_layer_ordering_ok present n xs"
  shows "ordering_info_ok n (ordering_info xs)"
proof -
  have len: "length xs = n + 1" using assms by (simp add: sub_layer_ordering_ok_def)
  have each: "ordering_ok None (xs ! i)" if "i \<le> n" for i
  proof (cases present)
    case True
    with assms have "orderings_ok None xs" by (simp add: sub_layer_ordering_ok_def)
    from orderings_ok_nth [OF this, of i] that len show ?thesis
      by (auto simp: ordering_ok_def split: prod.splits if_splits)
  next
    case False
    with assms have "xs = replicate (n + 1) (hd xs)" "ordering_ok None (hd xs)" by (simp_all add: sub_layer_ordering_ok_def)
    with that show ?thesis by (metis Suc_eq_plus1 le_imp_less_Suc nth_replicate)
  qed
  have next_one: "unat (fst (xs ! i)) \<le> unat (fst (xs ! (i + 1))) \<and> unat (fst (snd (xs ! i))) \<le> unat (fst (snd (xs ! (i + 1))))"
    if "i < n" for i
  proof (cases present)
    case True
    with assms have "orderings_ok None xs" by (simp add: sub_layer_ordering_ok_def)
    from orderings_ok_nth [OF this, of "i + 1"] that len show ?thesis
      by (auto simp: ordering_ok_def split: prod.splits)
  next
    case False
    with assms have "xs = replicate (n + 1) (hd xs)" by (simp add: sub_layer_ordering_ok_def)
    with that have "xs ! i = hd xs" "xs ! (i + 1) = hd xs"
      by (metis Suc_eq_plus1 less_SucI nth_replicate, metis Suc_eq_plus1 Suc_less_eq nth_replicate)
    then show ?thesis by simp
  qed
  show ?thesis
    using len each next_one
    by (auto simp: ordering_info_ok_def ordering_info_def Let_def ordering_ok_def case_prod_unfold)
qed



subsection \<open>The syntax of the standard (7.3.2.2)\<close>

text \<open>A parameter set as it is sent: its fields, and what the parts with a choice of
  syntax are sent as. The list of \<open>sy_extensions\<close> is that of \<open>sps_extension_flag\<close>.\<close>

record h265_syntax =
  sy_vps :: u8
  sy_nesting :: bool
  sy_general :: profile
  sy_layers :: "(profile option \<times> u8 option) list"
  sy_id :: u64
  sy_chroma :: u8
  sy_separate :: bool
  sy_width :: u64
  sy_height :: u64
  sy_window :: "conformance_window option"
  sy_luma :: u8
  sy_chroma_depth :: u8
  sy_poc :: u8
  sy_ordering_present :: bool
  sy_orderings :: "ordering list"
  sy_cb :: u64
  sy_diff_cb :: u64
  sy_tb :: u64
  sy_diff_tb :: u64
  sy_inter :: u64
  sy_intra :: u64
  sy_scaling :: "scaling_syntax list list option option"
  sy_amp :: bool
  sy_sao :: bool
  sy_pcm :: "pcm option"
  sy_st_rps :: "rps_syntax list"
  sy_long_term :: "long_term_ref_pics option"
  sy_mvp :: bool
  sy_smoothing :: bool
  sy_vui :: "vui_syntax option"
  sy_extensions :: "(sps_range_extension option \<times> sps_multilayer_extension option \<times>
     sps_3d_extension option \<times> sps_scc_extension option) option"

definition sy_layer_count :: "h265_syntax \<Rightarrow> u8" where
  "sy_layer_count y = of_nat (length (sy_layers y))"

definition sy_format_bits :: "h265_syntax \<Rightarrow> bool list" where
  "sy_format_bits y = eg_bits (sy_id y) @ eg_bits (ucast (sy_chroma y)) @
     (if sy_chroma y = 3 then [sy_separate y] else []) @ eg_bits (sy_width y) @ eg_bits (sy_height y) @
     flag_bits conformance_window_bits (sy_window y)"

definition sy_depths_bits :: "h265_syntax \<Rightarrow> bool list" where
  "sy_depths_bits y = eg_bits (ucast (sy_luma y)) @ eg_bits (ucast (sy_chroma_depth y)) @ eg_bits (ucast (sy_poc y))"

definition sy_blocks_bits :: "h265_syntax \<Rightarrow> bool list" where
  "sy_blocks_bits y = eg_bits (sy_cb y) @ eg_bits (sy_diff_cb y) @ eg_bits (sy_tb y) @ eg_bits (sy_diff_tb y) @
     eg_bits (sy_inter y) @ eg_bits (sy_intra y)"

definition sy_st_rps_bits :: "h265_syntax \<Rightarrow> bool list" where
  "sy_st_rps_bits y = eg_bits (of_nat (length (sy_st_rps y))) @ rpss_bits True (sy_st_rps y)"

definition sy_comp_depths :: "h265_syntax \<Rightarrow> u8 list" where
  "sy_comp_depths y = comp_depths (sy_chroma y) (8 + sy_luma y) (8 + sy_chroma_depth y)"

definition sy_extensions_bits :: "h265_syntax \<Rightarrow> bool list" where
  "sy_extensions_bits y = flag_bits (\<lambda>(range, multilayer, three_d, scc).
     [range \<noteq> None, multilayer \<noteq> None, three_d \<noteq> None, scc \<noteq> None] @ zero_bits 4 @
     opt_bits sps_range_extension_bits range @ opt_bits (\<lambda>e. [inter_view_mv_vert_constraint_flag e]) multilayer @
     opt_bits sps_3d_standard_bits three_d @ opt_bits (sps_scc_extension_bits (sy_comp_depths y)) scc)
     (sy_extensions y)"

definition h265_sps_bits :: "h265_syntax \<Rightarrow> bool list" where
  "h265_sps_bits y = bits_of 4 (sy_vps y) @ bits_of 3 (sy_layer_count y) @ [sy_nesting y] @
     standard_ptl_bits (sy_general y) (sy_layers y) @ sy_format_bits y @ sy_depths_bits y @
     sy_ordering_present y # sub_layer_ordering_bits (sy_ordering_present y) (sy_orderings y) @
     sy_blocks_bits y @ flag_bits (flag_bits scaling_data_bits) (sy_scaling y) @ [sy_amp y, sy_sao y] @
     flag_bits pcm_bits (sy_pcm y) @ sy_st_rps_bits y @
     flag_bits (long_term_ref_pics_bits (sy_poc y)) (sy_long_term y) @ [sy_mvp y, sy_smoothing y] @
     flag_bits h265_vui_bits (sy_vui y) @ sy_extensions_bits y"

text \<open>The parameter set a syntax stands for.\<close>

definition h265_sps_value :: "h265_syntax \<Rightarrow> h265_sps" where
  "h265_sps_value y =
     (let (range, multilayer, three_d, scc) = or_else (\<lambda>e. e) (None, None, None, None) (sy_extensions y) in
     \<lparr>sps_video_parameter_set_id = sy_vps y, sps_max_sub_layers_minus1 = sy_layer_count y,
      sps_temporal_id_nesting_flag = sy_nesting y, sps_profile_tier_level = ptl_standard (sy_general y) (sy_layers y),
      sps_seq_parameter_set_id = sy_id y, sps_chroma_format_idc = sy_chroma y,
      sps_separate_colour_plane_flag = sy_separate y, pic_width_in_luma_samples = sy_width y,
      pic_height_in_luma_samples = sy_height y,
      sps_conformance_window = or_else (\<lambda>w. w) conformance_window_default (sy_window y),
      sps_bit_depth_luma_minus8 = sy_luma y, sps_bit_depth_chroma_minus8 = sy_chroma_depth y,
      sps_log2_max_pic_order_cnt_lsb_minus4 = sy_poc y, sps_sub_layer_ordering_info = ordering_info (sy_orderings y),
      log2_min_luma_coding_block_size_minus3 = sy_cb y, log2_diff_max_min_luma_coding_block_size = sy_diff_cb y,
      log2_min_luma_transform_block_size_minus2 = sy_tb y, log2_diff_max_min_luma_transform_block_size = sy_diff_tb y,
      max_transform_hierarchy_depth_inter = sy_inter y, max_transform_hierarchy_depth_intra = sy_intra y,
      scaling_list_data = map_option scaling_data_standard (or_else (\<lambda>s. s) None (sy_scaling y)),
      amp_enabled_flag = sy_amp y, sample_adaptive_offset_enabled_flag = sy_sao y, sps_pcm = sy_pcm y,
      sps_short_term_ref_pic_sets = short_term_sets (sets_value ([], []) (sy_st_rps y)),
      sps_long_term_ref_pics = sy_long_term y, sps_temporal_mvp_enabled_flag = sy_mvp y,
      strong_intra_smoothing_enabled_flag = sy_smoothing y, vui_parameters = map_option vui_value (sy_vui y),
      range_extension = range, multilayer_extension = multilayer, three_d_extension = three_d, scc_extension = scc\<rparr>)"

definition sy_vui_env :: "h265_syntax \<Rightarrow> vui_env" where
  "sy_vui_env y =
     \<lparr>env_max_sub_layers_minus1 = sy_layer_count y, env_bit_depth_y = 8 + sy_luma y, env_bit_depth_c = 8 + sy_chroma_depth y,
      env_chroma_format_idc = sy_chroma y, env_profile = general_value (sy_general y),
      env_window = or_else (\<lambda>w. w) conformance_window_default (sy_window y),
      env_sub_width_c = sub_width_of (sy_chroma y), env_width = sy_width y,
      env_sub_height_c = sub_height_of (sy_chroma y), env_height = sy_height y\<rparr>"

text \<open>
  The parameter sets of the standard on which the code does what it should. Besides the
  ranges, the profiles declare themselves (\<open>profile_declared\<close>, which 7.4.4 demands), and the
  parts that the code gets wrong are left out: levels of sub-layers
  (\<open>sub_layer_level_read_twice\<close>, \<open>sub_layer_level_dropped\<close>), scaling lists that are predicted
  or are a default list other than that of 4x4 blocks (\<open>scaling_list_default_truncated\<close>,
  \<open>scaling_list_reference_ignored\<close>), the 3D extension (\<open>sps_3d_second_flags_not_read\<close>) and
  palettes of size 0 (\<open>empty_palette_refused\<close>).
\<close>

definition h265_syntax_ok :: "u8 \<Rightarrow> h265_syntax \<Rightarrow> bool" where
  "h265_syntax_ok layer y \<longleftrightarrow>
     (let cb = sy_cb y + 3; ctb = cb + sy_diff_cb y; n = length (sy_layers y) in
      unat (sy_vps y) < 16 \<and> n \<le> 6 \<and> (n = 0 \<longrightarrow> sy_nesting y) \<and>
      profile_standard_ok True (sy_general y) \<and> profile_declared (sy_general y) \<and>
      list_all (\<lambda>(p, l). l = None \<and> opt_ok (\<lambda>q. profile_standard_ok False q \<and> profile_declared q) p) (sy_layers y) \<and>
      unat (sy_id y) \<le> 15 \<and> unat (sy_chroma y) \<le> 3 \<and> (sy_separate y \<longrightarrow> sy_chroma y = 3) \<and>
      eg_ok (sy_width y) \<and> sy_width y \<noteq> 0 \<and> eg_ok (sy_height y) \<and> sy_height y \<noteq> 0 \<and>
      opt_ok conformance_window_ok (sy_window y) \<and>
      unat (sy_luma y) \<le> 8 \<and> unat (sy_chroma_depth y) \<le> 8 \<and> unat (sy_poc y) \<le> 12 \<and>
      sub_layer_ordering_ok (sy_ordering_present y) n (sy_orderings y) \<and>
      blocks_ok (sy_cb y) (sy_diff_cb y) (sy_tb y) (sy_diff_tb y) (sy_inter y) (sy_intra y) \<and>
      opt_ok (opt_ok (\<lambda>d. scaling_data_ok d \<and> scaling_data_agrees d)) (sy_scaling y) \<and>
      opt_ok (pcm_ok (8 + sy_luma y) (8 + sy_chroma_depth y) cb ctb) (sy_pcm y) \<and>
      length (sy_st_rps y) \<le> 64 \<and> rpss_ok layer (fst (last (sy_orderings y))) True ([], []) (sy_st_rps y) \<and>
      opt_ok (long_term_ref_pics_ok (sy_poc y)) (sy_long_term y) \<and>
      opt_ok (vui_syntax_ok (sy_vui_env y)) (sy_vui y) \<and>
      opt_ok (\<lambda>(_, _, three_d, scc). three_d = None \<and>
        opt_ok (sps_scc_extension_ok (sy_comp_depths y)) scc) (sy_extensions y))"

context byte_source
begin

lemma dec_eg_upto_word:
  "unat v \<le> n \<Longrightarrow> unat m = n \<Longrightarrow> n < 256 \<Longrightarrow> dec (eg_upto rd m w) (eg_bits (ucast v)) (v :: u8)"
  unfolding eg_upto_def by (simp add: coding word_le_nat_alt unat_ucast_up eg_ok_unat)

lemma dec_sps_ids:
  assumes "unat vps < 16" and "unat m \<le> 6" and "m = 0 \<longrightarrow> nesting"
  shows "dec (sps_ids_parse rd) (bits_of 4 vps @ bits_of 3 m @ [nesting]) (vps, m, nesting)"
  using assms unfolding sps_ids_parse_def Let_def by (simp add: coding word_le_nat_alt)

lemma dec_sps_format:
  assumes "unat (sy_id y) \<le> 15" "unat (sy_chroma y) \<le> 3" "sy_separate y \<longrightarrow> sy_chroma y = 3"
    and "eg_ok (sy_width y)" "sy_width y \<noteq> 0" "eg_ok (sy_height y)" "sy_height y \<noteq> 0"
    and "opt_ok conformance_window_ok (sy_window y)"
  shows "dec (sps_format_parse rd) (sy_format_bits y)
    (sy_id y, sy_chroma y, sy_separate y, sy_width y, sy_height y, or_else (\<lambda>w. w) conformance_window_default (sy_window y))"
proof -
  have window: "dec (flag_or rd (conformance_window_parse rd) conformance_window_default)
      (flag_bits conformance_window_bits (sy_window y)) (or_else (\<lambda>w. w) conformance_window_default (sy_window y))"
    using assms(8) by (intro dec_flag_or dec_conformance_window) (simp add: opt_ok_def)
  have chroma: "dec (eg_upto rd 3 w) (eg_bits (ucast (sy_chroma y))) (sy_chroma y)" for w
    by (rule dec_eg_upto_word [OF assms(2)]) simp_all
  have separate: "dec (if sy_chroma y = 3 then read_bit rd else ret False)
      (if sy_chroma y = 3 then [sy_separate y] else []) (sy_separate y)"
    using assms(3) by (auto simp: decodes_ret dec_read_bit)
  show ?thesis
    unfolding sps_format_parse_def sy_format_bits_def
    using assms
    by (intro decodes_bnd [OF dec_read_exp_golomb] decodes_range_check decodes_bnd [OF chroma]
        decodes_bnd [OF separate] decodes_guard decodes_last [OF window] decodes_end)
      (simp_all add: eg_ok_unat word_le_nat_alt)
qed

lemma dec_sps_depths:
  assumes "unat (sy_luma y) \<le> 8" "unat (sy_chroma_depth y) \<le> 8" "unat (sy_poc y) \<le> 12"
  shows "dec (sps_depths_parse rd) (sy_depths_bits y)
    (sy_luma y, 8 + sy_luma y, sy_chroma_depth y, 8 + sy_chroma_depth y, sy_poc y)"
proof -
  have "dec (eg_upto rd 8 w) (eg_bits (ucast (sy_luma y))) (sy_luma y)"
    and "dec (eg_upto rd 8 w) (eg_bits (ucast (sy_chroma_depth y))) (sy_chroma_depth y)"
    and "dec (eg_upto rd 12 w) (eg_bits (ucast (sy_poc y))) (sy_poc y)" for w
    using assms by (auto intro: dec_eg_upto_word)
  note fields = decodes_bnd [OF this(1)] decodes_bnd [OF this(2)] decodes_last [OF this(3)]
  show ?thesis
    unfolding sps_depths_parse_def sy_depths_bits_def
    by (intro fields, simp only: add8 [OF assms(1)] bnd_lift, intro fields, simp only: add8 [OF assms(2)] bnd_lift)
      (intro fields decodes_end refl)
qed

lemma dec_sps_blocks:
  assumes "blocks_ok (sy_cb y) (sy_diff_cb y) (sy_tb y) (sy_diff_tb y) (sy_inter y) (sy_intra y)"
  shows "dec (sps_blocks_parse rd) (sy_blocks_bits y)
    (sy_cb y, sy_diff_cb y, sy_cb y + 3, sy_cb y + 3 + sy_diff_cb y, sy_tb y, sy_diff_tb y, sy_inter y, sy_intra y)"
proof -
  let ?cb = "sy_cb y + 3" and ?tb = "sy_tb y + 2"
  let ?ctb = "?cb + sy_diff_cb y"
  note ok' = assms [unfolded blocks_ok_def]
  have cb: "checked_add (sy_cb y) 3 = Inr ?cb" and tb: "checked_add (sy_tb y) 2 = Inr ?tb"
    using ok' by (simp_all add: checked_add_def)
  note ucb = checked_add_Inr [OF cb] and utb = checked_add_Inr [OF tb]
  have ctb: "checked_add ?cb (sy_diff_cb y) = Inr ?ctb"
    using ok' ucb by (simp add: checked_add_def)
  note uctb = checked_add_Inr [OF this]
  have le: "?tb \<le> ?ctb" using ok' ucb utb uctb by (simp add: word_le_nat_alt)
  then have sub: "checked_sub ?ctb ?tb = Inr (?ctb - ?tb)" by (simp add: checked_sub_def)
  have "unat (?ctb - ?tb) = unat ?ctb - unat ?tb" using le by (rule unat_sub)
  also have "\<dots> = unat (sy_cb y) + 3 + unat (sy_diff_cb y) - (unat (sy_tb y) + 2)"
    by (simp only: uctb ucb utb) simp
  finally have "unat (?ctb - ?tb) = \<dots>" .
  then have "sy_inter y \<le> ?ctb - ?tb" "sy_intra y \<le> ?ctb - ?tb"
    unfolding word_le_nat_alt using ok' by linarith+
  then show ?thesis
    unfolding sps_blocks_parse_def sy_blocks_bits_def
    using ok' by (simp add: coding cb tb ctb sub)
qed

lemma dec_sps_scaling:
  assumes "opt_ok (opt_ok (\<lambda>d. scaling_data_ok d \<and> scaling_data_agrees d)) v"
  shows "dec (sps_scaling_parse rd) (flag_bits (flag_bits scaling_data_bits) v)
    (map_option scaling_data_standard (or_else (\<lambda>s. s) None v))"
proof (cases v)
  case None
  then show ?thesis
    unfolding sps_scaling_parse_def by (auto simp: flag_bits_def opt_bits_def or_else_def decodes_ret intro!: dec_bit_step)
next
  case (Some w)
  have "dec (bnd (read_bit rd) (\<lambda>present. when_io present (scaling_list_data_parse rd)))
      (flag_bits scaling_data_bits w) (map_option scaling_data_standard w)"
    using assms Some by (cases w)
      (auto simp: flag_bits_def opt_bits_def opt_ok_def decodes_ret scaling_data_agrees
        intro!: dec_bit_step decodes_last [OF dec_scaling_list_data])
  with Some show ?thesis
    unfolding sps_scaling_parse_def flag_bits_def [of "flag_bits scaling_data_bits"]
    by (simp add: opt_bits_def or_else_def dec_bit_step)
qed

lemma dec_sps_st_rps:
  assumes "length (sy_st_rps y) \<le> 64" and "rpss_ok layer (last ds) True ([], []) (sy_st_rps y)"
    and "ds \<noteq> []" and "unat (last ds) \<le> 16"
  shows "dec (sps_st_rps_parse rd layer ds) (sy_st_rps_bits y) (short_term_sets (sets_value ([], []) (sy_st_rps y)))"
proof -
  let ?n = "of_nat (length (sy_st_rps y)) :: u64"
  have n: "unat ?n = length (sy_st_rps y)" using assms(1) by (simp add: unat_of_nat)
  have "unat (ucast ?n :: u8) = length (sy_st_rps y)"
    using assms(1) by (simp add: unsigned_ucast_eq take_bit_eq_mod unat_of_nat)
  with dec_short_term_ref_pic_sets [OF assms(2,1,4)] show ?thesis
    unfolding sps_st_rps_parse_def sy_st_rps_bits_def
    using assms(1,3) by (intro decodes_bnd [OF dec_read_exp_golomb] decodes_range_check)
      (simp_all add: eg_ok_unat word_le_nat_alt n)
qed

lemma dec_sps_extensions:
  assumes "opt_ok (\<lambda>(_, _, three_d, scc). three_d = None \<and>
      opt_ok (sps_scc_extension_ok (sy_comp_depths y)) scc) (sy_extensions y)"
    and "unat (sy_luma y) \<le> 8" and "unat (sy_chroma_depth y) \<le> 8"
  shows "dec (sps_extensions_parse rd (sy_chroma y) (8 + sy_luma y) (8 + sy_chroma_depth y) cb ctb)
    (sy_extensions_bits y) (or_else (\<lambda>e. e) (None, None, None, None) (sy_extensions y))"
proof (cases "sy_extensions y")
  case None
  then show ?thesis
    unfolding sps_extensions_parse_def sy_extensions_bits_def
    by (auto simp: flag_bits_def opt_bits_def or_else_def decodes_ret intro!: dec_bit_step)
next
  case (Some e)
  obtain range multilayer three_d scc where e: "e = (range, multilayer, three_d, scc)" by (cases e)
  have depths: "unat (8 + sy_luma y) \<le> 64" "unat (8 + sy_chroma_depth y) \<le> 64"
    using checked_add_Inr [OF add8] assms(2,3) by simp_all
  have range: "dec (when_io (range \<noteq> None) (sps_range_extension_parse rd)) (opt_bits sps_range_extension_bits range) range"
    by (intro dec_when dec_sps_range_extension refl)
  have multilayer: "dec (when_io (multilayer \<noteq> None) (sps_multilayer_extension_parse rd))
      (opt_bits (\<lambda>e. [inter_view_mv_vert_constraint_flag e]) multilayer) multilayer"
    by (intro dec_when dec_sps_multilayer_extension refl)
  have three_d: "dec (when_io (three_d \<noteq> None) (sps_3d_extension_parse rd cb ctb)) (opt_bits sps_3d_standard_bits three_d) three_d"
    using assms(1) by (simp add: Some e opt_ok_def opt_bits_def decodes_ret)
  have scc: "dec (when_io (scc \<noteq> None) (sps_scc_extension_parse rd (sy_chroma y) (8 + sy_luma y) (8 + sy_chroma_depth y)))
      (opt_bits (sps_scc_extension_bits (sy_comp_depths y)) scc) scc"
    using assms(1) depths by (intro dec_when refl) (auto simp: Some e opt_ok_def sy_comp_depths_def intro: dec_sps_scc_extension)
  show ?thesis
    unfolding sps_extensions_parse_def sy_extensions_bits_def Some e flag_bits_def opt_bits_def [of _ "Some _"] or_else_def option.case prod.case
    by (simp del: not_None_eq, intro dec_bit_step, simp del: not_None_eq, intro dec_bit_step decodes_bnd [OF dec_zero_bits] decodes_guard
        decodes_bnd [OF range] decodes_bnd [OF multilayer] decodes_bnd [OF three_d] decodes_last [OF scc] decodes_end)
      simp_all
qed

lemma dec_h265_sps_fields:
  assumes bo: "byteorder_reads (bit_reader_read rd) bo" and y: "h265_syntax_ok layer y"
  shows "dec (h265_sps_fields_read rd bo layer) (h265_sps_bits y) (h265_sps_value y)"
proof -
  note ok' = y [unfolded h265_syntax_ok_def Let_def]
  let ?cb = "sy_cb y + 3" and ?n = "length (sy_layers y)"
  let ?ctb = "?cb + sy_diff_cb y"
  have n: "unat (sy_layer_count y) = ?n" using ok' by (simp add: sy_layer_count_def unat_of_nat)
  have ids: "dec (sps_ids_parse rd) (bits_of 4 (sy_vps y) @ bits_of 3 (sy_layer_count y) @ [sy_nesting y])
      (sy_vps y, sy_layer_count y, sy_nesting y)"
  proof (rule dec_sps_ids)
    show "sy_layer_count y = 0 \<longrightarrow> sy_nesting y"
      using ok' n by (auto simp: unat_eq_zero [symmetric] simp del: unat_eq_zero)
  qed (use ok' n in simp_all)
  have g: "profile_ok True (sy_general y)"
    using ok' by (intro profile_standard_ok_agrees) blast+
  have layers: "list_all sub_layer_ok (sy_layers y)" "\<forall>(p, l) \<in> set (sy_layers y). l = None"
    using ok' by (auto simp: list_all_iff sub_layer_ok_def opt_ok_def intro!: profile_standard_ok_agrees dest!: bspec)
  from layers(2) have "\<forall>(p, l) \<in> set (sy_layers y). p = None \<or> l = None" by blast
  note bits_eq = standard_ptl_bits_eq [OF this, of "sy_general y"] and value_eq = ptl_standard_eq [OF layers(2), of "sy_general y"]
  have "dec (profile_tier_level_parse rd bo ?n) (ptl_bits (sy_general y) (sy_layers y)) (ptl_value (sy_general y) (sy_layers y))"
    using ok' by (intro dec_ptl [OF bo g layers(1)]) auto
  then have ptl: "dec (profile_tier_level_parse rd bo (unat (sy_layer_count y)))
      (standard_ptl_bits (sy_general y) (sy_layers y)) (ptl_standard (sy_general y) (sy_layers y))"
    by (simp only: n bits_eq value_eq)
  have format: "dec (sps_format_parse rd) (sy_format_bits y)
      (sy_id y, sy_chroma y, sy_separate y, sy_width y, sy_height y, or_else (\<lambda>w. w) conformance_window_default (sy_window y))"
    using ok' by (intro dec_sps_format) auto
  have depths: "dec (sps_depths_parse rd) (sy_depths_bits y)
      (sy_luma y, 8 + sy_luma y, sy_chroma_depth y, 8 + sy_chroma_depth y, sy_poc y)"
    using ok' by (intro dec_sps_depths) auto
  have ordering: "dec (sub_layer_ordering_parse rd (sy_ordering_present y) (unat (sy_layer_count y)))
      (sub_layer_ordering_bits (sy_ordering_present y) (sy_orderings y)) (ordering_info (sy_orderings y))"
    unfolding n using ok' by (intro dec_sub_layer_ordering) auto
  have orderings: "sy_orderings y \<noteq> [] \<and> unat (fst (last (sy_orderings y))) \<le> 16"
    by (rule sub_layer_ordering_last) (use ok' in blast)
  have blocks: "dec (sps_blocks_parse rd) (sy_blocks_bits y)
      (sy_cb y, sy_diff_cb y, ?cb, ?ctb, sy_tb y, sy_diff_tb y, sy_inter y, sy_intra y)"
    using ok' by (intro dec_sps_blocks) auto
  have scaling: "dec (sps_scaling_parse rd) (flag_bits (flag_bits scaling_data_bits) (sy_scaling y))
      (map_option scaling_data_standard (or_else (\<lambda>s. s) None (sy_scaling y)))"
    using ok' by (intro dec_sps_scaling) auto
  have pcm': "dec (bnd (read_bit rd) (\<lambda>b. when_io b (pcm_parse rd (8 + sy_luma y) (8 + sy_chroma_depth y) ?cb ?ctb)))
      (flag_bits pcm_bits (sy_pcm y)) (sy_pcm y)"
    using ok' by (intro dec_flag_when dec_pcm) (auto simp: opt_ok_def)
  have st_rps: "dec (sps_st_rps_parse rd layer (sps_max_dec_pic_buffering_minus1 (ordering_info (sy_orderings y))))
      (sy_st_rps_bits y) (short_term_sets (sets_value ([], []) (sy_st_rps y)))"
    using ok' orderings by (intro dec_sps_st_rps) (auto simp: ordering_info_def last_map)
  have long_term: "dec (bnd (read_bit rd) (\<lambda>b. when_io b (long_term_ref_pics_parse rd (sy_poc y))))
      (flag_bits (long_term_ref_pics_bits (sy_poc y)) (sy_long_term y)) (sy_long_term y)"
    using ok' by (intro dec_flag_when dec_long_term_ref_pics) (auto simp: opt_ok_def)
  have vui': "dec (bnd (read_bit rd) (\<lambda>b. when_io b (h265_vui_parse rd bo (sy_vui_env y))))
      (flag_bits h265_vui_bits (sy_vui y)) (map_option vui_value (sy_vui y))"
  proof (cases "sy_vui y")
    case (Some v)
    have "dec (h265_vui_parse rd bo (sy_vui_env y)) (h265_vui_bits v) (vui_value v)"
      using ok' Some by (intro dec_h265_vui bo) (auto simp: opt_ok_def sy_vui_env_def sub_width_of_def sub_height_of_def)
    then show ?thesis
      by (auto simp: Some flag_bits_def opt_bits_def intro!: dec_bit_step decodes_last [where x = "vui_value v"] decodes_end)
  qed (auto simp: flag_bits_def opt_bits_def decodes_ret intro!: dec_bit_step)
  have env: "\<lparr>env_max_sub_layers_minus1 = sy_layer_count y, env_bit_depth_y = 8 + sy_luma y,
      env_bit_depth_c = 8 + sy_chroma_depth y, env_chroma_format_idc = sy_chroma y,
      env_profile = general_profile (ptl_standard (sy_general y) (sy_layers y)),
      env_window = or_else (\<lambda>w. w) conformance_window_default (sy_window y),
      env_sub_width_c = sub_width_of (sy_chroma y), env_width = sy_width y,
      env_sub_height_c = sub_height_of (sy_chroma y), env_height = sy_height y\<rparr> = sy_vui_env y"
    by (simp add: sy_vui_env_def ptl_standard_def)
  have ext: "dec (sps_extensions_parse rd (sy_chroma y) (8 + sy_luma y) (8 + sy_chroma_depth y) ?cb ?ctb)
      (sy_extensions_bits y) (or_else (\<lambda>e. e) (None, None, None, None) (sy_extensions y))"
    using ok' by (intro dec_sps_extensions) auto
  note steps = decodes_bnd [OF ptl] decodes_bnd [OF format] decodes_bnd [OF depths] decodes_bnd [OF ordering]
    decodes_bnd [OF blocks] decodes_bnd [OF scaling] decodes_bnd [OF pcm'] decodes_bnd [OF st_rps]
    decodes_bnd [OF long_term] decodes_bnd [OF vui'] decodes_last [OF ext]
  note first = decodes_bnd [OF ids, unfolded append_assoc append.simps]
  show ?thesis
    unfolding h265_sps_fields_read_def h265_sps_bits_def
    by ((rule first | intro steps dec_bit_step | simp only: prod.case append.simps append_assoc env)+,
        cases "or_else (\<lambda>e. e) (None, None, None, None) (sy_extensions y)")
      (simp add: decodes_end h265_sps_value_def)
qed

text \<open>The trailing bits end the payload: what is left of the last byte is skipped.\<close>

lemma h265_sps_read_run:
  assumes "byteorder_reads (bit_reader_read rd) bo" and "h265_syntax_ok layer y"
    and "reader_ok ok r" and "rest_bits unread r = h265_sps_bits y @ True # rest"
  shows "\<exists>r'. h265_sps_read rd bo layer r = (Inr (h265_sps_value y), r')"
proof -
  from decodesE [OF dec_h265_sps_fields [OF assms(1,2)] assms(3,4)] obtain r1 where
    r1: "h265_sps_fields_read rd bo layer r = (Inr (h265_sps_value y), r1)" "rest_bits unread r1 = [True] @ rest" "reader_ok ok r1"
    by auto
  from decodesE [OF dec_read_bit r1(3,2)] obtain r2 where "read_bit rd r1 = (Inr True, r2)" by auto
  with r1 show ?thesis
    by (auto simp: h265_sps_read_def rbsp_trailing_bits_def run_simps align_reader_def)
qed

lemma h265_sps_with_reader:
  assumes "byteorder_reads (bit_reader_read rd) bo" and "h265_syntax_ok layer y"
    and "ok s" and "unread s = pack_bits (h265_sps_bits y @ [True])"
  shows "\<exists>s'. with_bit_reader (h265_sps_read rd bo layer) s = (Inr (h265_sps_value y), s')"
proof -
  have "rest_bits unread (bit_reader_new s) = h265_sps_bits y @ True # replicate (pad_len (length (h265_sps_bits y @ [True]))) False"
    using assms(4) by (simp add: byte_bits_pack)
  moreover have "reader_ok ok (bit_reader_new s)" using assms(3) by simp
  ultimately obtain r' where
    "h265_sps_read rd bo layer (bit_reader_new s) = (Inr (h265_sps_value y), r')"
    using h265_sps_read_run [OF assms(1,2)] by blast
  then show ?thesis by (simp add: with_bit_reader_def)
qed

end

subsection \<open>The parser on a NAL unit\<close>

definition h265_sps_bytes :: "nal_unit_header \<Rightarrow> h265_syntax \<Rightarrow> u8 list" where
  "h265_sps_bytes h y = nal_header_bytes h @ escape 0 (pack_bits (h265_sps_bits y @ [True]))"

lemma h265_sps_parse_run:
  assumes "byteorder_reads (bit_reader_read (ep_read cursor_read)) bo" and "nal_header_ok h"
    and "h265_nal_unit_type h = SpsNut" and "h265_syntax_ok (nuh_layer_id h) y"
  shows "\<exists>c. h265_sps_parse cursor_read bo (cursor_new (h265_sps_bytes h y)) =
    (Inr \<lparr>sps_nal_unit_header = h, sps_rbsp = h265_sps_value y\<rparr>, c)"
proof -
  let ?c = "cursor_new (h265_sps_bytes h y)" and ?v = "pack_bits (h265_sps_bits y @ [True])"
  obtain c where c: "nal_header_parse cursor_read ?c = (Inr h, c)" "cursor_rest c = escape 0 ?v"
    using cur.nal_header_parse_run [OF assms(2), of ?c "escape 0 ?v"] by (auto simp: h265_sps_bytes_def)
  have "ep_source_ok cursor_rest (\<lambda>_. True) (ep_new c)" "ep_unread cursor_rest (ep_new c) = ?v"
    by (simp_all add: ep_source_ok_def ep_unread_def ep_new_def c(2) zero_runs_ok_escape unescape_escape)
  from ep_cur.h265_sps_with_reader [OF assms(1,4) this] obtain e where
    "with_bit_reader (h265_sps_read (ep_read cursor_read) bo (nuh_layer_id h)) (ep_new c) = (Inr (h265_sps_value y), e)" ..
  with c(1) assms(3) show ?thesis
    by (simp add: h265_sps_parse_def h265_sps_rbsp_parse_def run_simps)
qed

text \<open>
  C3. \<open>SpsNALUnit::parse\<close>: from the bytes of an H.265 sequence parameter set, its header
  followed by its payload with trailing bits and emulation prevention, the parser returns
  the header and the parameter set that the syntax of the standard stands for. Bits and meaning
  are those of the standard and do not follow the code: the flags of a profile depend on its
  number and its compatibility flags, sub-layers inherit what they do not carry, scaling lists
  are the sums of their differences, reference picture sets are derived from one another by
  (7-61) to (7-70), and windows and descriptions that are not sent have their defaults. It
  holds for the parameter sets of \<open>h265_syntax_ok\<close>: those whose profiles are numbered up to 11
  and declare themselves compatible with themselves, and that use none of the parts which the
  code reads differently from the standard, namely levels of sub-layers, predicted scaling
  lists and default ones from 8x8 on, the 3D extension and palettes of size 0. The DC
  coefficient of a list from 16x16 on starts its differences as the standard says, but the
  parameter set has no field to keep it in.
\<close>

theorem h265_sps_parse_encoded:
  assumes "byteorder_reads (bit_reader_read (ep_read cursor_read)) bo" and "nal_header_ok h"
    and "h265_nal_unit_type h = SpsNut" and "h265_syntax_ok (nuh_layer_id h) y"
  shows "\<exists>c. h265_sps_parse cursor_read bo (cursor_new (h265_sps_bytes h y)) =
    (Inr \<lparr>sps_nal_unit_header = h, sps_rbsp = h265_sps_value y\<rparr>, c)"
  by (rule h265_sps_parse_run [OF assms])


subsection \<open>Sizes\<close>

text \<open>On a well-formed parameter set, the values that cannot overflow.\<close>

lemma h265_sps_small_values:
  assumes "h265_sps_ok layer s"
  shows "\<exists>d. h265_bit_depth_y s = Inr d \<and> qp_bd_offset_y s = Inr (6 * d) \<and> 8 \<le> unat d \<and> unat d \<le> 16"
    and "\<exists>d. h265_bit_depth_c s = Inr d \<and> qp_bd_offset_c s = Inr (6 * d) \<and> 8 \<le> unat d \<and> unat d \<le> 16"
    and "max_pic_order_cnt_lsb s = Inr (2 ^ (unat (sps_log2_max_pic_order_cnt_lsb_minus4 s) + 4))"
    and "min_cb_log2_size_y s = Inr (sps_min_cb_log2 s)" and "ctb_log2_size_y s = Inr (sps_ctb_log2 s)"
proof -
  note ok = assms [unfolded h265_sps_ok_def Let_def]
  have depth: "\<exists>d. checked_add 8 v = Inr d \<and> rbind (checked_add 8 v) (\<lambda>d. checked_mul 6 d) = Inr (6 * d) \<and> 8 \<le> unat d \<and> unat d \<le> 16"
    if "unat v \<le> 8" for v :: u8
    using checked_add_Inr [OF add8 [OF that]] that by (simp add: add8 checked_mul_def)
  show "\<exists>d. h265_bit_depth_y s = Inr d \<and> qp_bd_offset_y s = Inr (6 * d) \<and> 8 \<le> unat d \<and> unat d \<le> 16"
    and "\<exists>d. h265_bit_depth_c s = Inr d \<and> qp_bd_offset_c s = Inr (6 * d) \<and> 8 \<le> unat d \<and> unat d \<le> 16"
    unfolding h265_bit_depth_y_def qp_bd_offset_y_def h265_bit_depth_c_def qp_bd_offset_c_def
    using ok by (blast intro: depth)+
  show "max_pic_order_cnt_lsb s = Inr (2 ^ (unat (sps_log2_max_pic_order_cnt_lsb_minus4 s) + 4))"
    using ok by (simp add: max_pic_order_cnt_lsb_def pow2_u32_def)
  have blocks: "unat (log2_min_luma_coding_block_size_minus3 s) + 3 + unat (log2_diff_max_min_luma_coding_block_size s) < 2 ^ 64"
    using ok by (simp add: blocks_ok_def)
  then show cb: "min_cb_log2_size_y s = Inr (sps_min_cb_log2 s)"
    by (simp add: min_cb_log2_size_y_def sps_min_cb_log2_def checked_add_def)
  from checked_add_Inr [OF this [unfolded min_cb_log2_size_y_def]] blocks
  show "ctb_log2_size_y s = Inr (sps_ctb_log2 s)"
    by (simp add: ctb_log2_size_y_def cb sps_ctb_log2_def checked_add_def)
qed

text \<open>\<open>n - crop\<close>, or a panic where that is negative.\<close>

definition cropped_to :: "err + u64 \<Rightarrow> nat \<Rightarrow> nat \<Rightarrow> bool" where
  "cropped_to r n crop \<longleftrightarrow> (case r of Inr c \<Rightarrow> crop \<le> n \<and> unat c = n - crop
     | Inl e \<Rightarrow> (\<exists>p. e = Panic p) \<and> n < crop)"

lemma cropped_size_spec:
  assumes "0 < unat u"
  shows "cropped_to (cropped_size n u a b) (unat n) (unat u * (unat a + unat b))"
proof -
  have s: "unat n < 2 ^ 64" using unsigned_less [of n] by simp
  have u: "unat (ucast u :: u64) = unat u" by (simp add: unat_ucast_up)
  have le: "unat a + unat b \<le> unat u * (unat a + unat b)" using assms by simp
  consider "2 ^ 64 \<le> unat a + unat b" | "unat a + unat b < 2 ^ 64" "2 ^ 64 \<le> unat u * (unat a + unat b)"
    | "unat a + unat b < 2 ^ 64" "unat u * (unat a + unat b) < 2 ^ 64" by linarith
  then show ?thesis
  proof cases
    case 1
    then have "unat n < unat u * (unat a + unat b)" using s le by linarith
    with 1 show ?thesis by (simp add: cropped_to_def cropped_size_def checked_add_def)
  next
    case 2
    then have add: "checked_add a b = Inr (a + b)" by (simp add: checked_add_def)
    with 2 s checked_add_Inr [OF add] show ?thesis
      by (simp add: cropped_to_def cropped_size_def checked_mul_def u)
  next
    case 3
    then have add: "checked_add a b = Inr (a + b)" by (simp add: checked_add_def)
    with 3 checked_add_Inr [OF add] have mul: "checked_mul (ucast u) (a + b) = Inr (ucast u * (a + b))"
      by (simp add: checked_mul_def u)
    from checked_mul_Inr [OF this] checked_add_Inr [OF add] u
    show ?thesis
      by (auto simp: cropped_to_def cropped_size_def add mul checked_sub_def word_le_nat_alt unat_sub)
  qed
qed

text \<open>
  The cropped size of a picture is the coded size less the conformance window in units
  of the chroma subsampling, exactly when the window fits the picture; otherwise the methods
  panic, since \<open>parse\<close> does not compare the window with the picture.
\<close>

theorem h265_cropped_size_spec:
  "cropped_to (cropped_width s) (unat (pic_width_in_luma_samples s)) (unat (sub_width_c s) *
     (unat (conf_win_left_offset (sps_conformance_window s)) + unat (conf_win_right_offset (sps_conformance_window s)))) \<and>
   cropped_to (cropped_height s) (unat (pic_height_in_luma_samples s)) (unat (sub_height_c s) *
     (unat (conf_win_top_offset (sps_conformance_window s)) + unat (conf_win_bottom_offset (sps_conformance_window s))))"
  unfolding cropped_width_def cropped_height_def
  by (intro conjI cropped_size_spec)
    (simp_all add: sub_width_c_def sub_height_c_def sub_width_of_def sub_height_of_def)

subsection \<open>A concrete parameter set\<close>

text \<open>1920x1080 in 4:2:0, cropped from 1088 lines, with 8x8 to 64x64 coding blocks, scaling
  lists, a sub-layer with a profile of its own and a reference picture set predicted from
  another.\<close>

definition scaling_sample :: "scaling_syntax list list" where
  "scaling_sample = [replicate 6 (Pred 0), replicate 6 (Coefs None (8 # replicate 63 0)),
     replicate 6 (Coefs (Some 8) (replicate 64 1)), replicate 2 (Coefs (Some 0) (replicate 64 (- 1)))]"

lemma scaling_sample_ok: "scaling_data_ok scaling_sample" "scaling_data_agrees scaling_sample"
proof -
  have six: "replicate 6 x = [x, x, x, x, x, x]" and two: "replicate 2 x = [x, x]" for x :: scaling_syntax
    by (simp_all add: eval_nat_numeral)
  have rep: "list_all P (replicate n d) \<longleftrightarrow> n = 0 \<or> P d" for P n and d :: int
    by (auto simp: list_all_iff)
  show "scaling_data_ok scaling_sample" "scaling_data_agrees scaling_sample"
    by (simp_all add: scaling_sample_def six two rep scaling_data_ok_def column_ok_def matrix_ids_def
        matrix_step_def coef_num_def scaling_data_agrees_def)
qed

definition sub_layer_sample :: profile where
  "sub_layer_sample = profile_sample\<lparr>level_idc := None\<rparr>"

lemma sub_layer_sample_ok: "profile_standard_ok False sub_layer_sample" "profile_declared sub_layer_sample"
  using profile_sample_standard
  by (simp_all add: sub_layer_sample_def profile_sample_def profile_standard_ok_def profile_declared_def Let_def)

definition h265_syntax_sample :: h265_syntax where
  "h265_syntax_sample = \<lparr>sy_vps = 0, sy_nesting = True, sy_general = profile_sample,
     sy_layers = [(Some sub_layer_sample, None)], sy_id = 0,
     sy_chroma = 1, sy_separate = False, sy_width = 1920, sy_height = 1088,
     sy_window = Some \<lparr>conf_win_left_offset = 0, conf_win_right_offset = 0, conf_win_top_offset = 0, conf_win_bottom_offset = 4\<rparr>,
     sy_luma = 0, sy_chroma_depth = 0, sy_poc = 4, sy_ordering_present = True, sy_orderings = [(4, 1, 0), (4, 2, 0)],
     sy_cb = 0, sy_diff_cb = 3, sy_tb = 0, sy_diff_tb = 3, sy_inter = 0, sy_intra = 0, sy_scaling = Some (Some scaling_sample),
     sy_amp = True, sy_sao = True, sy_pcm = None, sy_st_rps = rps_sample, sy_long_term = None, sy_mvp = True,
     sy_smoothing = True, sy_vui = None, sy_extensions = None\<rparr>"

lemma h265_syntax_sample_ok: "h265_syntax_ok 0 h265_syntax_sample"
proof -
  have "eg_ok (1920 :: u64)" "eg_ok (1088 :: u64)" "eg_ok (3 :: u64)" "eg_ok (4 :: u64)" "eg_ok (0 :: u64)" by (simp_all add: eg_ok_unat)
  moreover have "length rps_sample = 2" by (simp add: rps_sample_def)
  ultimately show ?thesis
    using profile_sample_standard sub_layer_sample_ok scaling_sample_ok rps_sample_ok
    by (simp add: h265_syntax_ok_def h265_syntax_sample_def Let_def opt_ok_def conformance_window_ok_def
        sub_layer_ordering_ok_def ordering_ok_def blocks_ok_def)
qed


theorem h265_sps_parse_encoded_witness:
  "\<exists>c. h265_sps_parse cursor_read (be_reads (bit_reader_read (ep_read cursor_read)))
      (cursor_new (h265_sps_bytes nal_header_sample h265_syntax_sample)) =
    (Inr \<lparr>sps_nal_unit_header = nal_header_sample, sps_rbsp = h265_sps_value h265_syntax_sample\<rparr>, c)"
  by (rule h265_sps_parse_encoded [OF byteorder_reads_be_reads nal_header_sample_ok])
    (simp_all add: nal_header_sample_def h265_syntax_sample_ok)


end
