(* ===== verification/Hash_Map.thy ===== *)
theory Hash_Map
  imports Main "HOL-Library.AList"
begin

text \<open>
  The interface of \<open>std::collections::HashMap\<close> the code relies on, and the association
  lists that model it: a list of key-value pairs with distinct keys, so that \<open>len\<close> is the
  length of the list and everything computes. The order of the pairs is not observable:
  the code never iterates over these maps.
\<close>

locale hash_map =
  fixes get :: "'m \<Rightarrow> 'k \<Rightarrow> 'v option"
    and put :: "'k \<Rightarrow> 'v \<Rightarrow> 'm \<Rightarrow> 'm"
    and del :: "'k \<Rightarrow> 'm \<Rightarrow> 'm"
    and len :: "'m \<Rightarrow> nat"
    and good :: "'m \<Rightarrow> bool"
  assumes get_put: "good m \<Longrightarrow> get (put k v m) = (get m)(k \<mapsto> v)"
    and get_del: "good m \<Longrightarrow> get (del k m) = (get m)(k := None)"
    and len_put: "good m \<Longrightarrow> len (put k v m) = (if get m k = None then len m + 1 else len m)"
    and len_del: "good m \<Longrightarrow> len (del k m) = (if get m k = None then len m else len m - 1)"
    and good_put: "good m \<Longrightarrow> good (put k v m)"
    and good_del: "good m \<Longrightarrow> good (del k m)"
begin

text \<open>A map whose values satisfy a predicate, of bounded length.\<close>

definition bounded :: "nat \<Rightarrow> ('v \<Rightarrow> bool) \<Rightarrow> 'm \<Rightarrow> bool" where
  "bounded n P m \<longleftrightarrow> good m \<and> len m \<le> n \<and> (\<forall>k v. get m k = Some v \<longrightarrow> P v)"

lemma bounded_put:
  "bounded n P m \<Longrightarrow> P v \<Longrightarrow> get m k \<noteq> None \<or> len m < n \<Longrightarrow> bounded n P (put k v m)"
  by (auto simp: bounded_def get_put len_put good_put split: if_splits)

lemma bounded_del: "bounded n P m \<Longrightarrow> bounded n P (del k m)"
  by (auto simp: bounded_def get_del len_del good_del split: if_splits)

lemma bounded_get: "bounded n P m \<Longrightarrow> get m k = Some v \<Longrightarrow> P v"
  by (auto simp: bounded_def)

lemma del_put_get: "good m \<Longrightarrow> get m k = None \<Longrightarrow> get (del k (put k v m)) = get m"
  by (auto simp: get_put get_del good_put)

lemma put_put_get: "good m \<Longrightarrow> get (put k v (put k w m)) = get (put k v m)"
  by (simp add: get_put good_put)

end

subsection \<open>Association lists\<close>

type_synonym ('k, 'v) hashmap = "('k \<times> 'v) list"

abbreviation hm_get :: "('k, 'v) hashmap \<Rightarrow> 'k \<Rightarrow> 'v option" where
  "hm_get \<equiv> map_of"

abbreviation hm_insert :: "'k \<Rightarrow> 'v \<Rightarrow> ('k, 'v) hashmap \<Rightarrow> ('k, 'v) hashmap" where
  "hm_insert \<equiv> AList.update"

abbreviation hm_remove :: "'k \<Rightarrow> ('k, 'v) hashmap \<Rightarrow> ('k, 'v) hashmap" where
  "hm_remove \<equiv> AList.delete"

abbreviation hm_good :: "('k, 'v) hashmap \<Rightarrow> bool" where
  "hm_good m \<equiv> distinct (map fst m)"

lemma length_update:
  "length (AList.update k v m) = (if map_of m k = None then length m + 1 else length m)"
  by (induction m) auto

lemma delete_absent: "map_of m k = None \<Longrightarrow> AList.delete k m = m"
  by (induction m) (auto split: if_splits)

lemma length_delete:
  "distinct (map fst m) \<Longrightarrow>
     length (AList.delete k m) = (if map_of m k = None then length m else length m - 1)"
proof (induction m)
  case Nil
  show ?case by simp
next
  case (Cons p m)
  show ?case
  proof (cases "fst p = k")
    case True
    with Cons.prems have "map_of m k = None" by (auto simp: map_of_eq_None_iff)
    with True show ?thesis by (cases p) (simp add: delete_absent)
  next
    case False
    with Cons show ?thesis
      by (cases p; cases m) auto
  qed
qed

interpretation hm: hash_map hm_get hm_insert hm_remove length hm_good
proof
  fix m :: "('k, 'v) hashmap" and k v
  show "hm_get (hm_insert k v m) = (hm_get m)(k \<mapsto> v)" by (rule update_conv')
  show "hm_get (hm_remove k m) = (hm_get m)(k := None)" by (rule delete_conv')
  show "length (hm_insert k v m) = (if hm_get m k = None then length m + 1 else length m)"
    by (rule length_update)
  show "hm_good m \<Longrightarrow> length (hm_remove k m) = (if hm_get m k = None then length m else length m - 1)"
    by (rule length_delete)
  show "hm_good m \<Longrightarrow> hm_good (hm_insert k v m)" by (rule distinct_update)
  show "hm_good m \<Longrightarrow> hm_good (hm_remove k m)" by (rule distinct_delete)
qed

end
