(* ===== verification/Rtmp_Chunk.thy ===== *)
theory Rtmp_Chunk
  imports Bytes_Cursor Hash_Map
begin

text \<open>
  \<open>crates/rtmp/src/chunk\<close>: the RTMP chunk protocol. Messages are cut into chunks that
  carry a basic header (format and chunk stream), a message header that may refer to the
  previous one of the stream, and a part of the payload; the reader keeps the previous
  headers and the partial messages, both in bounded tables.
\<close>

subsection \<open>Data (chunk/mod.rs, chunk/error.rs, error.rs)\<close>

datatype chunk_type = Type0 | Type1 | Type2 | Type3

definition chunk_type_value :: "chunk_type \<Rightarrow> u8" where
  "chunk_type_value t = (case t of Type0 \<Rightarrow> 0 | Type1 \<Rightarrow> 1 | Type2 \<Rightarrow> 2 | Type3 \<Rightarrow> 3)"

record chunk_basic_header =
  chunk_format :: chunk_type
  chunk_stream_id :: u32

text \<open>\<open>MessageType\<close> is a \<open>nutype_enum\<close>: a \<open>u8\<close> with names for some of its values.\<close>

type_synonym message_type = u8

record chunk_message_header =
  timestamp :: u32
  msg_length :: u32
  msg_type_id :: message_type
  msg_stream_id :: u32
  was_extended_timestamp :: bool

definition is_extended_timestamp :: "chunk_message_header \<Rightarrow> bool" where
  "is_extended_timestamp h \<longleftrightarrow> timestamp h \<ge> 0xFFFFFF"

record chunk =
  basic_header :: chunk_basic_header
  message_header :: chunk_message_header
  payload :: "u8 list"

definition chunk_new :: "u32 \<Rightarrow> u32 \<Rightarrow> message_type \<Rightarrow> u32 \<Rightarrow> u8 list \<Rightarrow> chunk" where
  "chunk_new csid ts ty msid bs =
     \<lparr>basic_header = \<lparr>chunk_format = Type0, chunk_stream_id = csid\<rparr>,
      message_header = \<lparr>timestamp = ts, msg_length = of_nat (length bs), msg_type_id = ty,
        msg_stream_id = msid, was_extended_timestamp = False\<rparr>,
      payload = bs\<rparr>"

definition CHUNK_SIZE :: nat where "CHUNK_SIZE = 4096"
definition MAX_CHUNK_SIZE :: nat where "MAX_CHUNK_SIZE = 4096 * 16"
definition INIT_CHUNK_SIZE :: nat where "INIT_CHUNK_SIZE = 128"

datatype chunk_read_error =
    MissingPreviousChunkHeader u32
  | TooManyPartialChunks
  | TooManyPreviousChunkHeaders
  | PartialChunkTooLarge nat

text \<open>The variants of \<open>RtmpError\<close> the chunk layer produces; a panic stays apart from \<open>Io\<close>.\<close>

datatype rtmp_error = RtmpIo err | RtmpChunkRead chunk_read_error | RtmpPanic string

fun rtmp_io :: "err \<Rightarrow> rtmp_error" where
  "rtmp_io (Panic m) = RtmpPanic m"
| "rtmp_io e = RtmpIo e"

subsection \<open>The reader (chunk/reader.rs)\<close>

definition MAX_PARTIAL_CHUNK_SIZE :: nat where "MAX_PARTIAL_CHUNK_SIZE = 10 * 1024 * 1024"
definition MAX_PREVIOUS_CHUNK_HEADERS :: nat where "MAX_PREVIOUS_CHUNK_HEADERS = 100"
definition MAX_PARTIAL_CHUNK_COUNT :: nat where "MAX_PARTIAL_CHUNK_COUNT = 4"

record chunk_reader =
  previous_chunk_headers :: "(u32, chunk_message_header) hashmap"
  partial_chunks :: "(u32 \<times> u32, u8 list) hashmap"
  max_chunk_size :: nat

definition chunk_reader_default :: chunk_reader where
  "chunk_reader_default =
     \<lparr>previous_chunk_headers = [], partial_chunks = [], max_chunk_size = INIT_CHUNK_SIZE\<rparr>"

definition update_max_chunk_size :: "nat \<Rightarrow> chunk_reader \<Rightarrow> bool \<times> chunk_reader" where
  "update_max_chunk_size n r =
     (if \<not> (INIT_CHUNK_SIZE \<le> n \<and> n \<le> MAX_CHUNK_SIZE) then (False, r)
      else (True, r\<lparr>max_chunk_size := n\<rparr>))"

text \<open>
  The internal reads return \<open>Result<_, Option<E>>\<close>: \<open>Err(None)\<close> is missing data.
  \<open>eof_to_none\<close> makes an \<open>UnexpectedEof\<close> such a \<open>None\<close>; \<open>need\<close> adds the
  \<open>map_err(|e| e.map(RtmpError::Io))\<close> that follows it.
\<close>

definition eof_to_none :: "('s, 'a) io \<Rightarrow> ('s, err option, 'a) act" where
  "eof_to_none m s =
     (case m s of
        (Inr a, s') \<Rightarrow> (Inr a, s')
      | (Inl e, s') \<Rightarrow>
          (case e of IoErr UnexpectedEof _ \<Rightarrow> (Inl None, s') | _ \<Rightarrow> (Inl (Some e), s')))"

definition need :: "('s, 'a) io \<Rightarrow> ('s, rtmp_error option, 'a) act" where
  "need m = map_err (map_option rtmp_io) (eof_to_none m)"

text \<open>
  \<open>ChunkType::from_u8\<close> is generated by \<open>num_derive\<close>: the parameter \<open>ct\<close>. Its documented
  behaviour is \<open>chunk_type_conversion\<close>; \<open>chunk_type_from_u8\<close> is an instance.
\<close>

definition chunk_type_conversion :: "(u8 \<Rightarrow> chunk_type option) \<Rightarrow> bool" where
  "chunk_type_conversion ct \<longleftrightarrow> (\<forall>v t. ct v = Some t \<longleftrightarrow> chunk_type_value t = v)"

definition chunk_type_from_u8 :: "u8 \<Rightarrow> chunk_type option" where
  "chunk_type_from_u8 v = find (\<lambda>t. chunk_type_value t = v) [Type0, Type1, Type2, Type3]"

lemma chunk_type_conversion_from_u8: "chunk_type_conversion chunk_type_from_u8"
proof -
  have "chunk_type_from_u8 (chunk_type_value t) = Some t" for t
    by (cases t) (simp_all add: chunk_type_from_u8_def chunk_type_value_def)
  moreover have "chunk_type_value t = v" if "chunk_type_from_u8 v = Some t" for v t
    using that unfolding chunk_type_from_u8_def find_Some_iff by blast
  ultimately show ?thesis by (auto simp: chunk_type_conversion_def)
qed

definition read_header :: "(u8 \<Rightarrow> chunk_type option) \<Rightarrow> 's byteorder \<Rightarrow>
    ('s, err option, chunk_basic_header) act" where
  "read_header ct bo =
     bnd (eof_to_none (bo_u8 bo)) (\<lambda>b.
     case ct (drop_bit 6 b AND 3) of
       None \<Rightarrow> fail (Some (Panic ''unreachable''))
     | Some fmt \<Rightarrow>
         bnd (let csid = ucast (b AND 0x3F) in
              if csid = 0 then
                bnd (eof_to_none (bo_u8 bo)) (\<lambda>x. ret (64 + ucast x))
              else if csid = 1 then
                bnd (eof_to_none (bo_u8 bo)) (\<lambda>x.
                bnd (eof_to_none (bo_u8 bo)) (\<lambda>y.
                ret (64 + ucast x + ucast y * 256)))
              else ret csid) (\<lambda>csid.
         ret \<lparr>chunk_format = fmt, chunk_stream_id = csid\<rparr>))"

text \<open>A 24-bit field that is followed by 32 more bits when all of its bits are set.\<close>

definition read_extended :: "'s byteorder \<Rightarrow> u32 \<Rightarrow> ('s, rtmp_error option, u32 \<times> bool) act" where
  "read_extended bo t =
     (if t = 0xFFFFFF then bnd (need (bo_u32 bo)) (\<lambda>t'. ret (t', True)) else ret (t, False))"

definition previous_header :: "chunk_reader \<Rightarrow> u32 \<Rightarrow>
    ('s, rtmp_error option, chunk_message_header) act" where
  "previous_header r csid =
     (case hm_get (previous_chunk_headers r) csid of
        None \<Rightarrow> fail (Some (RtmpChunkRead (MissingPreviousChunkHeader csid)))
      | Some h \<Rightarrow> ret h)"

definition check_length :: "u32 \<Rightarrow> ('s, rtmp_error option, unit) act" where
  "check_length n =
     guard (unat n \<le> MAX_PARTIAL_CHUNK_SIZE) (Some (RtmpChunkRead (PartialChunkTooLarge (unat n))))"

definition read_message_header :: "chunk_reader \<Rightarrow> 's byteorder \<Rightarrow> chunk_basic_header \<Rightarrow>
    ('s, rtmp_error option, chunk_message_header) act" where
  "read_message_header r bo h =
     (case chunk_format h of
        Type0 \<Rightarrow>
          bnd (need (bo_u24 bo)) (\<lambda>t.
          bnd (need (bo_u24 bo)) (\<lambda>n.
          bnd (check_length n) (\<lambda>_.
          bnd (need (bo_u8 bo)) (\<lambda>ty.
          bnd (need (bo_u32_le bo)) (\<lambda>msid.
          bnd (read_extended bo t) (\<lambda>(t, x).
          ret \<lparr>timestamp = t, msg_length = n, msg_type_id = ty, msg_stream_id = msid,
               was_extended_timestamp = x\<rparr>))))))
      | Type1 \<Rightarrow>
          bnd (need (bo_u24 bo)) (\<lambda>d.
          bnd (need (bo_u24 bo)) (\<lambda>n.
          bnd (check_length n) (\<lambda>_.
          bnd (need (bo_u8 bo)) (\<lambda>ty.
          bnd (read_extended bo d) (\<lambda>(d, x).
          bnd (previous_header r (chunk_stream_id h)) (\<lambda>p.
          ret \<lparr>timestamp = (case checked_add (timestamp p) d of Inr t \<Rightarrow> t | Inl _ \<Rightarrow> timestamp p),
               msg_length = n, msg_type_id = ty, msg_stream_id = msg_stream_id p,
               was_extended_timestamp = x\<rparr>))))))
      | Type2 \<Rightarrow>
          bnd (need (bo_u24 bo)) (\<lambda>d.
          bnd (read_extended bo d) (\<lambda>(d, x).
          bnd (previous_header r (chunk_stream_id h)) (\<lambda>p.
          bnd (map_err (Some \<circ> rtmp_io) (lift_res (checked_add (timestamp p) d))) (\<lambda>t.
          ret \<lparr>timestamp = t, msg_length = msg_length p, msg_type_id = msg_type_id p,
               msg_stream_id = msg_stream_id p, was_extended_timestamp = x\<rparr>))))
      | Type3 \<Rightarrow>
          bnd (previous_header r (chunk_stream_id h)) (\<lambda>p.
          if was_extended_timestamp p then bnd (need (bo_u32 bo)) (\<lambda>_. ret p) else ret p))"

definition partial_len :: "chunk_reader \<Rightarrow> u32 \<times> u32 \<Rightarrow> nat" where
  "partial_len r k = (case hm_get (partial_chunks r) k of Some bs \<Rightarrow> length bs | None \<Rightarrow> 0)"

definition get_payload_range :: "chunk_reader \<Rightarrow> chunk_basic_header \<Rightarrow> chunk_message_header \<Rightarrow>
    (cursor, rtmp_error option, nat \<times> nat) act" where
  "get_payload_range r h mh c =
     (let have = partial_len r (chunk_stream_id h, msg_stream_id mh) in
      if unat (msg_length mh) < have then (Inl (Some (RtmpPanic ''sub overflow'')), c)
      else let n = min (unat (msg_length mh) - have) (max_chunk_size r); pos = cur_pos c in
        bnd (need (cursor_seek (SeekCurrent (int n)))) (\<lambda>_. ret (pos, pos + n)) c)"

text \<open>
  What the iteration of the loop does with a chunk that is complete in the buffer. The entry
  of a partial message is made when there is none yet.
\<close>

definition partial_entry :: "chunk_reader \<Rightarrow> u32 \<times> u32 \<Rightarrow> chunk_read_error + (u8 list \<times> chunk_reader)" where
  "partial_entry r key =
     (case hm_get (partial_chunks r) key of
        Some p \<Rightarrow> Inr (p, r)
      | None \<Rightarrow>
          if length (partial_chunks r) \<ge> MAX_PARTIAL_CHUNK_COUNT then Inl TooManyPartialChunks
          else Inr ([], r\<lparr>partial_chunks := hm_insert key [] (partial_chunks r)\<rparr>))"

definition store_partial :: "chunk_reader \<Rightarrow> chunk_basic_header \<Rightarrow> chunk_message_header \<Rightarrow> u8 list \<Rightarrow>
    (rtmp_error + chunk option) option \<times> chunk_reader" where
  "store_partial r h mh bs =
     (let key = (chunk_stream_id h, msg_stream_id mh) in
      case partial_entry r key of
        Inl e \<Rightarrow> (Some (Inl (RtmpChunkRead e)), r)
      | Inr (p, r) \<Rightarrow>
          if length p + length bs > MAX_PARTIAL_CHUNK_SIZE
          then (Some (Inl (RtmpChunkRead (PartialChunkTooLarge (length p + length bs)))), r)
          else let r = r\<lparr>partial_chunks := hm_insert key (p @ bs) (partial_chunks r)\<rparr> in
            if length (p @ bs) = unat (msg_length mh)
            then (Some (Inr (Some \<lparr>basic_header = h, message_header = mh, payload = p @ bs\<rparr>)),
                  r\<lparr>partial_chunks := hm_remove key (partial_chunks r)\<rparr>)
            else (None, r))"

definition accept_chunk :: "chunk_reader \<Rightarrow> chunk_basic_header \<Rightarrow> chunk_message_header \<Rightarrow> u8 list \<Rightarrow>
    (rtmp_error + chunk option) option \<times> chunk_reader" where
  "accept_chunk r h mh bs =
     (let hs = previous_chunk_headers r; csid = chunk_stream_id h;
          count = (if hm_get hs csid \<noteq> None then length hs else length hs + 1) in
      if count > MAX_PREVIOUS_CHUNK_HEADERS
      then (Some (Inl (RtmpChunkRead TooManyPreviousChunkHeaders)), r)
      else let r = r\<lparr>previous_chunk_headers := hm_insert csid mh hs\<rparr> in
        if length bs = unat (msg_length mh)
        then (Some (Inr (Some \<lparr>basic_header = h, message_header = mh, payload = bs\<rparr>)), r)
        else store_partial r h mh bs)"

text \<open>The headers and the range of the payload, read from a cursor over the buffer.\<close>

definition read_chunk_headers :: "(u8 \<Rightarrow> chunk_type option) \<Rightarrow> cursor byteorder \<Rightarrow> chunk_reader \<Rightarrow>
    (cursor, rtmp_error option, chunk_basic_header \<times> chunk_message_header \<times> nat \<times> nat) act" where
  "read_chunk_headers ct bo r =
     bnd (map_err (map_option rtmp_io) (read_header ct bo)) (\<lambda>h.
     bnd (read_message_header r bo h) (\<lambda>mh.
     bnd (get_payload_range r h mh) (\<lambda>(lo, hi). ret (h, mh, lo, hi))))"

text \<open>
  One iteration of the loop of \<open>read_chunk\<close>: \<open>Some\<close> is a \<open>return\<close>, \<open>None\<close> goes on.
\<close>

definition read_chunk_step :: "(u8 \<Rightarrow> chunk_type option) \<Rightarrow> cursor byteorder \<Rightarrow> chunk_reader \<Rightarrow> u8 list \<Rightarrow>
    (rtmp_error + chunk option) option \<times> chunk_reader \<times> u8 list" where
  "read_chunk_step ct bo r buf =
     (case read_chunk_headers ct bo r (cursor_new buf) of
        (Inl None, _) \<Rightarrow> (Some (Inr None), r, buf)
      | (Inl (Some e), _) \<Rightarrow> (Some (Inl e), r, buf)
      | (Inr (h, mh, lo, hi), c) \<Rightarrow>
          if cur_pos c > length buf then (Some (Inr None), r, buf)
          else (case bytes_slice (take (cur_pos c) buf) lo hi of
              Inl e \<Rightarrow> (Some (Inl (rtmp_io e)), r, drop (cur_pos c) buf)
            | Inr bs \<Rightarrow>
                (case accept_chunk r h mh bs of (res, r') \<Rightarrow> (res, r', drop (cur_pos c) buf))))"

text \<open>
  The loop, as a partial function: not returning is \<open>None\<close>. It returns the result, the
  reader and what is left in the buffer.
\<close>

partial_function (option) read_chunk :: "(u8 \<Rightarrow> chunk_type option) \<Rightarrow> cursor byteorder \<Rightarrow>
    chunk_reader \<Rightarrow> u8 list \<Rightarrow> ((rtmp_error + chunk option) \<times> chunk_reader \<times> u8 list) option" where
  "read_chunk ct bo r buf =
     (case read_chunk_step ct bo r buf of (res, r', buf') \<Rightarrow>
        (case res of
           Some x \<Rightarrow> Some (x, r', buf')
         | None \<Rightarrow> read_chunk ct bo r' buf'))"

subsection \<open>The writer (chunk/writer.rs)\<close>

text \<open>The writer's only field is its chunk size, \<open>INIT_CHUNK_SIZE\<close> at first.\<close>

record chunk_writer =
  chunk_size :: nat

definition chunk_writer_default :: chunk_writer where
  "chunk_writer_default = \<lparr>chunk_size = INIT_CHUNK_SIZE\<rparr>"

definition set_chunk_size :: "nat \<Rightarrow> chunk_writer \<Rightarrow> chunk_writer" where
  "set_chunk_size n w = w\<lparr>chunk_size := n\<rparr>"

definition write_basic_header :: "'w byteorder_w \<Rightarrow> chunk_type \<Rightarrow> u32 \<Rightarrow> ('w, unit) io" where
  "write_basic_header bw t csid =
     (let fmt = chunk_type_value t in
      if csid \<ge> 64 + 255 then
        bnd (bw_u8 bw (push_bit 6 fmt OR 1)) (\<lambda>_.
        let csid = csid - 64; q = csid div 256; m = csid mod 256 in
        bnd (bw_u8 bw (ucast m)) (\<lambda>_. bw_u8 bw (ucast q)))
      else if csid \<ge> 64 then
        bnd (bw_u8 bw (push_bit 6 fmt)) (\<lambda>_. bw_u8 bw (ucast (csid - 64)))
      else bw_u8 bw (push_bit 6 fmt OR ucast csid))"

definition write_extended_timestamp :: "'w byteorder_w \<Rightarrow> u32 \<Rightarrow> ('w, unit) io" where
  "write_extended_timestamp bw t = bw_u32 bw t"

definition write_message_header :: "'w byteorder_w \<Rightarrow> chunk_message_header \<Rightarrow> ('w, unit) io" where
  "write_message_header bw h =
     (let t = (if timestamp h \<ge> 0xFFFFFF then 0xFFFFFF else timestamp h) in
      bnd (bw_u24 bw t) (\<lambda>_.
      bnd (bw_u24 bw (msg_length h)) (\<lambda>_.
      bnd (bw_u8 bw (msg_type_id h)) (\<lambda>_.
      bnd (bw_u32_le bw (msg_stream_id h)) (\<lambda>_.
      if is_extended_timestamp h then write_extended_timestamp bw (timestamp h) else ret ())))))"

text \<open>What stands between two parts of the payload.\<close>

definition write_continuation :: "'w byteorder_w \<Rightarrow> chunk \<Rightarrow> ('w, unit) io" where
  "write_continuation bw c =
     bnd (write_basic_header bw Type3 (chunk_stream_id (basic_header c))) (\<lambda>_.
     if is_extended_timestamp (message_header c)
     then write_extended_timestamp bw (timestamp (message_header c)) else ret ())"

partial_function (option) write_payload :: "chunk_writer \<Rightarrow> 'w write_fn \<Rightarrow> 'w byteorder_w \<Rightarrow> chunk \<Rightarrow>
    u8 list \<Rightarrow> 'w \<Rightarrow> ((err + unit) \<times> 'w) option" where
  "write_payload cw wr bw c bs w =
     (if bs = [] then Some (Inr (), w)
      else let n = (if length bs > chunk_size cw then chunk_size cw else length bs);
               rest = drop n bs in
        (case bnd (write_all wr (take n bs)) (\<lambda>_.
                if rest \<noteq> [] then write_continuation bw c else ret ()) w of
           (res, w') \<Rightarrow> (case res of Inl e \<Rightarrow> Some (Inl e, w') | Inr _ \<Rightarrow> write_payload cw wr bw c rest w')))"

definition write_chunk :: "chunk_writer \<Rightarrow> 'w write_fn \<Rightarrow> 'w byteorder_w \<Rightarrow> chunk \<Rightarrow>
    'w \<Rightarrow> ((err + unit) \<times> 'w) option" where
  "write_chunk cw wr bw c w =
     (case bnd (write_basic_header bw Type0 (chunk_stream_id (basic_header c)))
             (\<lambda>_. write_message_header bw (message_header c)) w of
        (Inl e, w') \<Rightarrow> Some (Inl e, w')
      | (Inr _, w') \<Rightarrow> write_payload cw wr bw c (payload c) w')"

end
