(* ===== verification/Rtmp_Chunk_Reader.thy ===== *)
theory Rtmp_Chunk_Reader
  imports Rtmp_Chunk
begin

text \<open>
  The chunk reader as a state machine: its tables stay bounded whatever the peer sends, its
  loop ends on every buffer, and how the connection cuts the stream into packets does not
  matter.
\<close>

subsection \<open>The invariant of the reader\<close>

lemma read_chunk_induct [consumes 1, case_names return loop]:
  assumes "read_chunk ct bo r buf = Some (x, r', buf')"
    and return: "\<And>r buf x r' buf'. read_chunk_step ct bo r buf = (Some x, r', buf') \<Longrightarrow> P r buf x r' buf'"
    and loop: "\<And>r buf r1 buf1 x r' buf'. read_chunk_step ct bo r buf = (None, r1, buf1) \<Longrightarrow>
      P r1 buf1 x r' buf' \<Longrightarrow> P r buf x r' buf'"
  shows "P r buf x r' buf'"
proof -
  have "case y of (x, r', buf') \<Rightarrow> c = ct \<longrightarrow> b = bo \<longrightarrow> P r buf x r' buf'"
    if "read_chunk c b r buf = Some y" for c b r buf y
    using that
  proof (rule read_chunk.raw_induct [rotated], goal_cases)
    case (1 f c b r buf y)
    obtain res r1 buf1 where step: "read_chunk_step c b r buf = (res, r1, buf1)" 
      by (cases "read_chunk_step c b r buf") auto
    show ?case
    proof (cases res)
      case None
      with 1(2) step have "f c b r1 buf1 = Some y" by simp
      from 1(1) [OF this] None step loop show ?thesis by (cases y) auto
    next
      case (Some z)
      with 1(2) step return show ?thesis by (cases y) auto
    qed
  qed
  from this [OF assms(1)] show ?thesis by simp
qed

definition chunk_reader_ok :: "chunk_reader \<Rightarrow> bool" where
  "chunk_reader_ok r \<longleftrightarrow>
     hm.bounded MAX_PREVIOUS_CHUNK_HEADERS (\<lambda>h. unat (msg_length h) \<le> MAX_PARTIAL_CHUNK_SIZE)
       (previous_chunk_headers r) \<and>
     hm.bounded MAX_PARTIAL_CHUNK_COUNT (\<lambda>bs. length bs \<le> MAX_PARTIAL_CHUNK_SIZE) (partial_chunks r) \<and>
     INIT_CHUNK_SIZE \<le> max_chunk_size r \<and> max_chunk_size r \<le> MAX_CHUNK_SIZE"

lemma chunk_reader_default_ok: "chunk_reader_ok chunk_reader_default"
  by (simp add: chunk_reader_ok_def chunk_reader_default_def hm.bounded_def INIT_CHUNK_SIZE_def MAX_CHUNK_SIZE_def)

lemma chunk_reader_ok_put:
  assumes "chunk_reader_ok r" and "length bs \<le> MAX_PARTIAL_CHUNK_SIZE"
    and "hm_get (partial_chunks r) k \<noteq> None \<or> length (partial_chunks r) < MAX_PARTIAL_CHUNK_COUNT"
  shows "chunk_reader_ok (r\<lparr>partial_chunks := hm_insert k bs (partial_chunks r)\<rparr>)"
  using assms by (simp add: chunk_reader_ok_def hm.bounded_put)

lemma partial_entry_ok:
  assumes "chunk_reader_ok r" and "partial_entry r k = Inr (p, r')"
  shows "chunk_reader_ok r'" and "hm_get (partial_chunks r') k = Some p"
proof -
  have "chunk_reader_ok r' \<and> hm_get (partial_chunks r') k = Some p"
    using assms chunk_reader_ok_put [of r "[]" k]
    by (auto simp: partial_entry_def update_conv' split: option.splits if_splits)
  then show "chunk_reader_ok r'" "hm_get (partial_chunks r') k = Some p" by simp_all
qed

lemma store_partial_ok:
  assumes r: "chunk_reader_ok r" and eq: "store_partial r h mh bs = (res, r')"
  shows "chunk_reader_ok r'"
proof -
  let ?k = "(chunk_stream_id h, msg_stream_id mh)"
  show ?thesis
  proof (cases "partial_entry r ?k")
    case (Inl e)
    with r eq show ?thesis by (auto simp: store_partial_def Let_def)
  next
    case (Inr q)
    then obtain p r1 where p: "partial_entry r ?k = Inr (p, r1)" by (cases q) auto
    note r1 = partial_entry_ok [OF r p]
    have put: "chunk_reader_ok (r1\<lparr>partial_chunks := hm_insert ?k (p @ bs) (partial_chunks r1)\<rparr>)"
      if "length p + length bs \<le> MAX_PARTIAL_CHUNK_SIZE"
      using that r1 by (intro chunk_reader_ok_put) auto
    have del: "chunk_reader_ok (r2\<lparr>partial_chunks := hm_remove ?k (partial_chunks r2)\<rparr>)"
      if "chunk_reader_ok r2" for r2
      using that by (simp add: chunk_reader_ok_def hm.bounded_del)
    show ?thesis
      using eq r1(1) put del [OF put]
      by (auto simp: store_partial_def p Let_def not_less split: if_splits)
  qed
qed

lemma chunk_reader_ok_header:
  assumes "chunk_reader_ok r" and "unat (msg_length mh) \<le> MAX_PARTIAL_CHUNK_SIZE"
    and "hm_get (previous_chunk_headers r) csid \<noteq> None \<or>
      length (previous_chunk_headers r) < MAX_PREVIOUS_CHUNK_HEADERS"
  shows "chunk_reader_ok (r\<lparr>previous_chunk_headers := hm_insert csid mh (previous_chunk_headers r)\<rparr>)"
  using assms by (simp add: chunk_reader_ok_def hm.bounded_put)

lemma accept_chunk_ok:
  assumes "chunk_reader_ok r" and "unat (msg_length mh) \<le> MAX_PARTIAL_CHUNK_SIZE"
    and "accept_chunk r h mh bs = (res, r')"
  shows "chunk_reader_ok r'"
  using assms chunk_reader_ok_header [OF assms(1,2), of "chunk_stream_id h"]
  by (auto simp: accept_chunk_def Let_def intro: store_partial_ok split: if_splits)

lemma previous_header_length:
  assumes "previous_header r k c = (Inr p, c')" and "chunk_reader_ok r"
  shows "unat (msg_length p) \<le> MAX_PARTIAL_CHUNK_SIZE"
proof -
  have "hm_get (previous_chunk_headers r) k = Some p"
    using assms(1) by (simp add: previous_header_def run_simps split: option.splits)
  then show ?thesis
    using assms(2) hm.bounded_get [of MAX_PREVIOUS_CHUNK_HEADERS _ "previous_chunk_headers r" k p]
    by (fastforce simp: chunk_reader_ok_def)
qed

lemma read_message_header_length:
  assumes "read_message_header r bo h c = (Inr mh, c')" and r: "chunk_reader_ok r"
  shows "unat (msg_length mh) \<le> MAX_PARTIAL_CHUNK_SIZE"
  using assms(1)
  by (cases "chunk_format h")
    (auto simp: read_message_header_def check_length_def run_simps bnd_guard
      split: prod.splits if_splits elim!: bnd_InrE, (erule previous_header_length [OF _ r])+)

lemma read_chunk_step_ok:
  assumes r: "chunk_reader_ok r" and step: "read_chunk_step ct bo r buf = (res, r', buf')"
  shows "chunk_reader_ok r'"
proof (cases "r' = r")
  case False
  with step obtain h mh lo hi c bs where
    "read_chunk_headers ct bo r (cursor_new buf) = (Inr (h, mh, lo, hi), c)"
    and acc: "accept_chunk r h mh bs = (res, r')"
    by (auto simp: read_chunk_step_def split: prod.splits sum.splits option.splits if_splits)
  then have "unat (msg_length mh) \<le> MAX_PARTIAL_CHUNK_SIZE"
    by (auto simp: read_chunk_headers_def run_simps intro: read_message_header_length [OF _ r]
        split: prod.splits elim!: bnd_InrE)
  then show ?thesis using acc by (rule accept_chunk_ok [OF r])
qed (use r in simp)

lemma read_chunk_ok:
  "read_chunk ct bo r buf = Some (res, r', buf') \<Longrightarrow> chunk_reader_ok r \<Longrightarrow> chunk_reader_ok r'"
  by (induction rule: read_chunk_induct) (auto dest: read_chunk_step_ok)

lemma partial_len_le:
  "chunk_reader_ok r \<Longrightarrow> partial_len r k \<le> MAX_PARTIAL_CHUNK_SIZE"
  by (auto simp: partial_len_def chunk_reader_ok_def dest: hm.bounded_get split: option.splits)

lemma chunk_reader_ok_max:
  assumes "chunk_reader_ok r"
  shows "0 < max_chunk_size r" and "max_chunk_size r \<le> 65536"
  using assms by (auto simp: chunk_reader_ok_def INIT_CHUNK_SIZE_def MAX_CHUNK_SIZE_def)

lemma chunk_reader_ok_good:
  assumes "chunk_reader_ok r"
  shows "hm_good (previous_chunk_headers r)" and "hm_good (partial_chunks r)"
    and "length (previous_chunk_headers r) \<le> MAX_PREVIOUS_CHUNK_HEADERS"
  using assms by (auto simp: chunk_reader_ok_def hm.bounded_def)


subsection \<open>More data at the end of the buffer\<close>

text \<open>
  A read is stable when data that arrives later cannot change its outcome: except for
  \<open>Err(None)\<close>, the result is the same on a longer buffer.
\<close>

definition extend :: "u8 list \<Rightarrow> cursor \<Rightarrow> cursor" where
  "extend bs c = c\<lparr>cur_data := cur_data c @ bs\<rparr>"

definition stable :: "(cursor, 'e option, 'a) act \<Rightarrow> bool" where
  "stable m \<longleftrightarrow> (\<forall>c bs. fst (m c) \<noteq> Inl None \<longrightarrow>
     m (extend bs c) = (fst (m c), extend bs (snd (m c))))"

lemma stable_pure: "(\<And>c. m c = (res, c)) \<Longrightarrow> stable m"
  by (simp add: stable_def)

lemma stable_ret: "stable (ret x)"
  by (simp add: stable_def run_simps)

lemma stable_fail: "stable (fail e)"
  by (simp add: stable_def run_simps)

lemma stable_bnd: "stable m \<Longrightarrow> (\<And>x. stable (f x)) \<Longrightarrow> stable (bnd m f)"
  unfolding stable_def bnd_def
  by (auto split: prod.splits sum.splits)


lemma stable_need: "stable (eof_to_none m) \<Longrightarrow> stable (need m)"
  by (auto simp: stable_def need_def map_err_def split: prod.splits sum.splits)

lemma stable_map_option: "stable m \<Longrightarrow> stable (map_err (map_option f) m)"
  by (auto simp: stable_def map_err_def split: prod.splits sum.splits)

lemma stable_map_Some: "(\<And>c. m c = (res, c)) \<Longrightarrow> stable (map_err (Some \<circ> f) m)"
  by (auto simp: stable_def map_err_def split: prod.splits sum.splits)

lemma stable_read_exact: "stable (eof_to_none (read_exact cursor_read n))"
  unfolding stable_def
proof (intro allI impI)
  fix c :: cursor and bs
  assume "fst (eof_to_none (read_exact cursor_read n) c) \<noteq> Inl None"
  then have n: "n \<le> remaining c"
    using cur.read_exact_eof [of c n] by (auto simp: eof_to_none_def eof_error_def not_less [symmetric])
  then have "n \<le> remaining (extend bs c)" "take n (cursor_rest (extend bs c)) = take n (cursor_rest c)"
    by (auto simp: remaining_def extend_def cursor_rest_def)
  with n show "eof_to_none (read_exact cursor_read n) (extend bs c) =
      (fst (eof_to_none (read_exact cursor_read n) c), extend bs (snd (eof_to_none (read_exact cursor_read n) c)))"
    by (simp add: eof_to_none_def read_exact_cursor_ok) (simp add: extend_def)
qed

lemma eof_to_none_bnd_ret:
  "eof_to_none (bnd m (\<lambda>x. ret (f x))) = bnd (eof_to_none m) (\<lambda>x. ret (f x))"
  by (rule ext) (auto simp: eof_to_none_def bnd_def run_simps split: prod.splits sum.splits err.splits io_kind.splits)

lemma stable_byteorder:
  assumes "byteorder_reads cursor_read bo"
  shows "stable (eof_to_none (bo_u8 bo))" "stable (eof_to_none (bo_u24 bo))"
    "stable (eof_to_none (bo_u32 bo))" "stable (eof_to_none (bo_u32_le bo))"
  using assms
  by (simp_all add: byteorder_reads_def be_read_def le_read_def eof_to_none_bnd_ret
      stable_bnd stable_read_exact stable_ret)

lemma stable_read_header:
  assumes "byteorder_reads cursor_read bo"
  shows "stable (read_header ct bo)"
  unfolding read_header_def Let_def
  by (intro stable_bnd stable_byteorder [OF assms])
    (auto intro!: stable_bnd stable_byteorder [OF assms] stable_ret stable_fail split: option.splits)

lemma stable_read_extended: "byteorder_reads cursor_read bo \<Longrightarrow> stable (read_extended bo t)"
  by (simp add: read_extended_def stable_bnd stable_need stable_byteorder stable_ret)

lemma stable_previous_header: "stable (previous_header r k)"
  by (rule stable_pure [where res = "fst (previous_header r k undefined)"])
    (simp add: previous_header_def run_simps split: option.splits)

lemma stable_check_length: "stable (check_length n)"
  by (rule stable_pure [where res = "fst (check_length n undefined)"]) (simp add: check_length_def run_simps)

lemma stable_split: "(\<And>a b. stable (f a b)) \<Longrightarrow> stable (case p of (a, b) \<Rightarrow> f a b)"
  by (cases p) simp

lemma stable_read_message_header:
  assumes "byteorder_reads cursor_read bo"
  shows "stable (read_message_header r bo h)"
proof -
  note intros = stable_bnd stable_need stable_byteorder [OF assms] stable_read_extended [OF assms]
    stable_previous_header stable_check_length stable_ret stable_split
    stable_map_Some [OF lift_res_run]
  show ?thesis
    unfolding read_message_header_def
    by (cases "chunk_format h"; simp only: chunk_type.case; intro intros; auto intro!: intros)
qed

lemma stable_get_payload_range: "stable (get_payload_range r h mh)"
  by (auto simp: stable_def get_payload_range_def Let_def need_def map_err_def eof_to_none_def bnd_def
      extend_def run_simps split: prod.splits sum.splits)

lemma stable_read_chunk_headers:
  assumes "byteorder_reads cursor_read bo"
  shows "stable (read_chunk_headers ct bo r)"
  unfolding read_chunk_headers_def
  by (intro stable_bnd stable_map_option stable_read_header stable_read_message_header
      stable_get_payload_range stable_split stable_ret assms)

lemma read_chunk_step_extend:
  assumes bo: "byteorder_reads cursor_read bo"
    and step: "read_chunk_step ct bo r buf = (res, r', buf')" and res: "res \<noteq> Some (Inr None)"
  shows "read_chunk_step ct bo r (buf @ bs) = (res, r', buf' @ bs)"
proof -
  obtain x c where x: "read_chunk_headers ct bo r (cursor_new buf) = (x, c)" by fastforce
  with step res have "x \<noteq> Inl None" by (auto simp: read_chunk_step_def)
  with stable_read_chunk_headers [OF bo, of ct r] x
  have "read_chunk_headers ct bo r (extend bs (cursor_new buf)) = (x, extend bs c)"
    by (simp add: stable_def)
  then have x': "read_chunk_headers ct bo r (cursor_new (buf @ bs)) = (x, extend bs c)"
    by (simp add: extend_def cursor_new_def)
  have pos: "cur_pos (extend bs c) = cur_pos c" by (simp add: extend_def)
  show ?thesis
    using step res
    by (auto simp: read_chunk_step_def x x' pos split: prod.splits sum.splits option.splits if_splits)
qed

text \<open>
  C13. How the stream is cut into buffers does not matter. When \<open>read_chunk\<close> wants more data,
  calling it again on the rest with more data appended gives what one call on all the data
  gives; when it returns a message or an error, the data that follows changes nothing.
\<close>

theorem read_chunk_resume:
  assumes "byteorder_reads cursor_read bo" and "read_chunk ct bo r buf = Some (res, r', buf')"
  shows "read_chunk ct bo r (buf @ bs) =
    (if res = Inr None then read_chunk ct bo r' (buf' @ bs) else Some (res, r', buf' @ bs))"
  using assms(2)
proof (induction rule: read_chunk_induct)
  case (return r buf x r' buf')
  show ?case
  proof (cases "x = Inr None")
    case True
    then have "r' = r \<and> buf' = buf" using return
      by (auto simp: read_chunk_step_def accept_chunk_def store_partial_def Let_def
          split: prod.splits sum.splits option.splits if_splits)
    with True show ?thesis by simp
  next
    case False
    with read_chunk_step_extend [OF assms(1) return] show ?thesis
      by (simp add: read_chunk.simps [of ct bo r])
  qed
next
  case (loop r buf r1 buf1 x r' buf')
  from read_chunk_step_extend [OF assms(1) loop(1)] loop(2)
  show ?case by (simp add: read_chunk.simps [of ct bo r "buf @ bs"])
qed

theorem read_chunk_resume_witness:
  "read_chunk chunk_type_from_u8 (be_reads cursor_read) chunk_reader_default ([0xC3] @ [1, 2]) =
    Some (Inl (RtmpChunkRead (MissingPreviousChunkHeader 3)), chunk_reader_default, [0xC3] @ [1, 2])"
proof -
  have "read_chunk_step chunk_type_from_u8 (be_reads cursor_read) chunk_reader_default [0xC3] =
      (Some (Inl (RtmpChunkRead (MissingPreviousChunkHeader 3))), chunk_reader_default, [0xC3])"
    by code_simp
  then have "read_chunk chunk_type_from_u8 (be_reads cursor_read) chunk_reader_default [0xC3] =
      Some (Inl (RtmpChunkRead (MissingPreviousChunkHeader 3)), chunk_reader_default, [0xC3])"
    by (simp add: read_chunk.simps)
  from read_chunk_resume [OF byteorder_reads_be_reads this] show ?thesis by simp
qed

subsection \<open>Every iteration consumes data\<close>

text \<open>A read is forward by \<open>k\<close> when it moves the cursor by \<open>k\<close> bytes or more.\<close>

definition forward :: "nat \<Rightarrow> (cursor, 'e, 'a) act \<Rightarrow> bool" where
  "forward k m \<longleftrightarrow> (\<forall>c x c'. m c = (Inr x, c') \<longrightarrow> cur_pos c + k \<le> cur_pos c')"

lemma forward_here: "(\<And>c. snd (m c) = c) \<Longrightarrow> forward 0 m"
  unfolding forward_def by (metis add_0_right order_refl snd_conv)

lemma forward_ret: "forward 0 (ret x)" and forward_fail: "forward k (fail e)"
  by (auto simp: forward_def run_simps)

lemma forward_bnd: "forward k m \<Longrightarrow> (\<And>x. forward 0 (f x)) \<Longrightarrow> forward k (bnd m f)"
  unfolding forward_def by (fastforce elim!: bnd_InrE)

lemma forward_weaken: "forward k m \<Longrightarrow> forward 0 m"
  by (fastforce simp: forward_def)

lemma forward_eof: "forward k m \<Longrightarrow> forward k (eof_to_none m)"
  by (auto simp: forward_def eof_to_none_def split: prod.splits sum.splits err.splits io_kind.splits)

lemma forward_map_err: "forward k m \<Longrightarrow> forward k (map_err f m)"
  by (auto simp: forward_def map_err_def split: prod.splits sum.splits)

lemma forward_need: "forward k m \<Longrightarrow> forward k (need m)"
  by (simp add: need_def forward_map_err forward_eof)

lemma forward_split: "(\<And>a b. forward k (f a b)) \<Longrightarrow> forward k (case p of (a, b) \<Rightarrow> f a b)"
  by (cases p) simp

lemma forward_read_exact: "forward n (read_exact cursor_read n)"
  unfolding forward_def
proof (intro allI impI)
  fix c x c'
  assume "read_exact cursor_read n c = (Inr x, c')"
  with cur.read_exact_eof [of c n] have "n \<le> remaining c" by (fastforce simp: not_le)
  from read_exact_cursor_ok [OF this] \<open>read_exact cursor_read n c = (Inr x, c')\<close>
  show "cur_pos c + n \<le> cur_pos c'" by simp
qed

lemma forward_byteorder:
  assumes "byteorder_reads cursor_read bo"
  shows "forward 1 (bo_u8 bo)" "forward 0 (bo_u8 bo)" "forward 0 (bo_u24 bo)" "forward 0 (bo_u32 bo)"
    "forward 0 (bo_u32_le bo)"
  using assms forward_weaken [OF forward_read_exact]
  by (simp_all add: byteorder_reads_def be_read_def le_read_def forward_bnd forward_read_exact forward_ret)

lemma forward_read_header:
  assumes "byteorder_reads cursor_read bo"
  shows "forward 1 (read_header ct bo)"
  unfolding read_header_def Let_def
  by (rule forward_bnd [OF forward_eof [OF forward_byteorder(1) [OF assms]]])
    (auto intro!: forward_bnd forward_eof forward_byteorder(2) [OF assms] forward_ret forward_fail split: option.splits)

lemma forward_read_message_header:
  assumes "byteorder_reads cursor_read bo"
  shows "forward 0 (read_message_header r bo h)"
proof -
  have "forward 0 (read_extended bo t)" for t
    by (simp add: read_extended_def forward_bnd forward_need forward_byteorder [OF assms] forward_ret)
  moreover have "forward 0 (previous_header r k)" "forward 0 (check_length n)" for k n
    by (auto intro!: forward_here simp: previous_header_def check_length_def run_simps split: option.splits)
  moreover have "forward 0 (map_err f (lift_res x))" for f :: "err \<Rightarrow> rtmp_error option" and x :: "err + u32"
    by (rule forward_map_err) (simp add: forward_def run_simps)
  ultimately show ?thesis
    unfolding read_message_header_def
    by (cases "chunk_format h"; simp only: chunk_type.case)
      (auto intro!: forward_bnd forward_need forward_byteorder [OF assms] forward_ret forward_split)
qed

lemma forward_get_payload_range: "forward 0 (get_payload_range r h mh)"
  by (auto simp: forward_def get_payload_range_def Let_def run_simps need_def map_err_def eof_to_none_def bnd_def
      split: prod.splits sum.splits if_splits)

lemma read_chunk_step_shorter:
  assumes bo: "byteorder_reads cursor_read bo" and step: "read_chunk_step ct bo r buf = (None, r', buf')"
  shows "length buf' < length buf"
proof -
  have fw: "forward 1 (read_chunk_headers ct bo r)"
    unfolding read_chunk_headers_def
    by (intro forward_bnd forward_map_err forward_read_header forward_read_message_header
        forward_get_payload_range forward_split forward_ret bo)
  from step obtain x c where x: "read_chunk_headers ct bo r (cursor_new buf) = (Inr x, c)"
    and c: "cur_pos c \<le> length buf" "buf' = drop (cur_pos c) buf"
    by (auto simp: read_chunk_step_def split: prod.splits sum.splits option.splits if_splits)
  have "1 \<le> cur_pos c"
    using fw [unfolded forward_def, rule_format, OF x] by (simp add: cursor_new_def)
  with c show ?thesis by simp
qed

lemma read_chunk_total':
  assumes bo: "byteorder_reads cursor_read bo"
  shows "\<exists>res r' buf'. read_chunk ct bo r buf = Some (res, r', buf') \<and> suffix buf' buf"
proof (induction "length buf" arbitrary: r buf rule: less_induct)
  case less
  obtain res r1 buf1 where step: "read_chunk_step ct bo r buf = (res, r1, buf1)"
    by (cases "read_chunk_step ct bo r buf") auto
  then have suf: "suffix buf1 buf"
    by (auto simp: read_chunk_step_def suffix_drop split: prod.splits sum.splits option.splits if_splits)
  show ?case
  proof (cases res)
    case None
    with step have "length buf1 < length buf" using read_chunk_step_shorter [OF bo] by simp
    then have "\<exists>res r' buf'. read_chunk ct bo r1 buf1 = Some (res, r', buf') \<and> suffix buf' buf1"
      by (rule less)
    with None step suf show ?thesis
      by (auto simp: read_chunk.simps [of ct bo r buf] intro: suffix_order.order_trans)
  next
    case (Some y)
    with step suf show ?thesis by (simp add: read_chunk.simps)
  qed
qed

text \<open>
  C16. The loop of \<open>read_chunk\<close> ends on every buffer, in every state of the reader, and what it
  leaves in the buffer is a suffix of it.
\<close>

theorem read_chunk_total:
  assumes "byteorder_reads cursor_read bo"
  shows "\<exists>res r' buf'. read_chunk ct bo r buf = Some (res, r', buf') \<and> suffix buf' buf"
  using assms by (rule read_chunk_total')

theorem read_chunk_total_witness:
  "\<exists>res r' buf'. read_chunk chunk_type_from_u8 (be_reads cursor_read) chunk_reader_default [3, 0, 0] =
    Some (res, r', buf') \<and> suffix buf' [3, 0, 0]"
  by (rule read_chunk_total [OF byteorder_reads_be_reads])

subsection \<open>The chunk that is returned\<close>

lemma read_chunk_step_payload:
  assumes "read_chunk_step ct bo r buf = (Some (Inr (Some c)), r', buf')"
  shows "length (payload c) = unat (msg_length (message_header c))"
  using assms
  by (auto simp: read_chunk_step_def accept_chunk_def store_partial_def Let_def
      split: prod.splits sum.splits option.splits if_splits)

lemma read_chunk_step_length:
  assumes r: "chunk_reader_ok r" and "read_chunk_step ct bo r buf = (Some (Inr (Some c)), r', buf')"
  shows "unat (msg_length (message_header c)) \<le> MAX_PARTIAL_CHUNK_SIZE"
proof -
  from assms(2) obtain h mh lo hi c1 where
    "read_chunk_headers ct bo r (cursor_new buf) = (Inr (h, mh, lo, hi), c1)" and mh: "message_header c = mh"
    by (auto simp: read_chunk_step_def accept_chunk_def store_partial_def Let_def
        split: prod.splits sum.splits option.splits if_splits)
  then show ?thesis
    by (auto simp: read_chunk_headers_def run_simps intro: read_message_header_length [OF _ r]
        split: prod.splits elim!: bnd_InrE)
qed

text \<open>
  C15. \<open>read_chunk\<close> keeps the reader's invariant, also when it fails: at most 100 headers, none of
  a message over 10 MiB, at most four partial messages of at most 10 MiB, a chunk size
  between 128 and 65536. A message it returns has exactly the length its header gives.
\<close>

theorem read_chunk_invariant:
  assumes "chunk_reader_ok r" and "read_chunk ct bo r buf = Some (res, r', buf')"
  shows "chunk_reader_ok r' \<and> (case res of Inr (Some c) \<Rightarrow>
      length (payload c) = unat (msg_length (message_header c)) \<and>
      length (payload c) \<le> MAX_PARTIAL_CHUNK_SIZE
    | _ \<Rightarrow> True)"
  using assms(2,1)
proof (induction rule: read_chunk_induct)
  case (return r buf x r' buf')
  then show ?case
    using read_chunk_step_ok [OF return(2,1)] read_chunk_step_payload [of ct bo r buf _ r' buf']
      read_chunk_step_length [OF return(2), of ct bo buf _ r' buf']
    by (auto split: sum.splits option.splits)
next
  case (loop r buf r1 buf1 x r' buf')
  then show ?case using read_chunk_step_ok [OF loop(3,1)] by simp
qed

theorem read_chunk_invariant_witness:
  "\<exists>res r' buf'. read_chunk chunk_type_from_u8 (be_reads cursor_read) chunk_reader_default [3] =
    Some (res, r', buf') \<and> chunk_reader_ok r'"
proof -
  obtain res r' buf' where run: "read_chunk chunk_type_from_u8 (be_reads cursor_read) chunk_reader_default [3] =
      Some (res, r', buf')"
    using read_chunk_total' [OF byteorder_reads_be_reads] by blast
  from read_chunk_invariant [OF chunk_reader_default_ok this] run show ?thesis by blast
qed

text \<open>The states a connection's reader can be in.\<close>

inductive chunk_reader_run :: "(u8 \<Rightarrow> chunk_type option) \<Rightarrow> cursor byteorder \<Rightarrow> chunk_reader \<Rightarrow> bool"
  for ct bo where
  start: "chunk_reader_run ct bo chunk_reader_default"
| read: "chunk_reader_run ct bo r \<Longrightarrow> read_chunk ct bo r buf = Some (res, r', buf') \<Longrightarrow>
    chunk_reader_run ct bo r'"
| resize: "chunk_reader_run ct bo r \<Longrightarrow> update_max_chunk_size n r = (b, r') \<Longrightarrow> chunk_reader_run ct bo r'"

lemma chunk_reader_run_ok: "chunk_reader_run ct bo r \<Longrightarrow> chunk_reader_ok r"
proof (induction rule: chunk_reader_run.induct)
  case start
  show ?case by (rule chunk_reader_default_ok)
next
  case (read r buf res r' buf')
  then show ?case by (rule_tac read_chunk_ok)
next
  case (resize r n b r')
  then show ?case by (auto simp: chunk_reader_ok_def update_max_chunk_size_def split: if_splits)
qed

lemma sum_list_bounded:
  "(\<And>x. x \<in> set xs \<Longrightarrow> f x \<le> b) \<Longrightarrow> sum_list (map f xs) \<le> length xs * (b :: nat)"
  by (induction xs) (auto simp: add_mono)

text \<open>
  C14. However the peer drives the reader (any data, in any pieces, with any change of the chunk
  size in between), it never holds more than 100 headers and four partial messages, of at
  most 40 MiB together.
\<close>

theorem chunk_reader_memory:
  assumes "chunk_reader_run ct bo r"
  shows "length (previous_chunk_headers r) \<le> 100 \<and> length (partial_chunks r) \<le> 4 \<and>
    sum_list (map (\<lambda>(k, bs). length bs) (partial_chunks r)) \<le> 4 * (10 * 1024 * 1024) \<and>
    128 \<le> max_chunk_size r \<and> max_chunk_size r \<le> 65536"
proof -
  note ok = chunk_reader_run_ok [OF assms]
  have "length bs \<le> MAX_PARTIAL_CHUNK_SIZE" if "(k, bs) \<in> set (partial_chunks r)" for k bs
    using ok that by (cases k) (auto simp: chunk_reader_ok_def hm.bounded_def)
  then have "sum_list (map (\<lambda>(k, bs). length bs) (partial_chunks r)) \<le>
      length (partial_chunks r) * MAX_PARTIAL_CHUNK_SIZE"
    by (intro sum_list_bounded) auto
  also have "\<dots> \<le> MAX_PARTIAL_CHUNK_COUNT * MAX_PARTIAL_CHUNK_SIZE"
    using ok by (intro mult_right_mono) (auto simp: chunk_reader_ok_def hm.bounded_def)
  finally show ?thesis
    using ok by (auto simp: chunk_reader_ok_def hm.bounded_def MAX_PREVIOUS_CHUNK_HEADERS_def
        MAX_PARTIAL_CHUNK_COUNT_def MAX_PARTIAL_CHUNK_SIZE_def INIT_CHUNK_SIZE_def MAX_CHUNK_SIZE_def)
qed

text \<open>The reader after the first chunk, of 128 bytes, of an audio message of 200.\<close>

theorem chunk_reader_memory_witness:
  "\<exists>res r buf. read_chunk chunk_type_from_u8 (be_reads cursor_read) chunk_reader_default
      ([3, 0, 0, 0, 0, 0, 200, 8, 1, 0, 0, 0] @ replicate 128 7) = Some (res, r, buf) \<and>
    length (previous_chunk_headers r) \<le> 100 \<and> length (partial_chunks r) \<le> 4 \<and>
    sum_list (map (\<lambda>(k, bs). length bs) (partial_chunks r)) \<le> 4 * (10 * 1024 * 1024)"
proof -
  obtain res r buf where run: "read_chunk chunk_type_from_u8 (be_reads cursor_read) chunk_reader_default
      ([3, 0, 0, 0, 0, 0, 200, 8, 1, 0, 0, 0] @ replicate 128 7) = Some (res, r, buf)"
    using read_chunk_total' [OF byteorder_reads_be_reads] by blast
  from chunk_reader_memory [OF chunk_reader_run.read [OF chunk_reader_run.start run]] run
  show ?thesis by blast
qed

end
