(* ===== verification/Rtmp_Chunk_Roundtrip.thy ===== *)
theory Rtmp_Chunk_Roundtrip
  imports Rtmp_Chunk_Reader
begin

text \<open>
  What the chunk writer writes, byte by byte, and that the reader reads it back; and the
  chunks on which the reader's arithmetic overflows.
\<close>

subsection \<open>The bytes of a chunk\<close>

definition basic_bytes :: "chunk_type \<Rightarrow> u32 \<Rightarrow> u8 list" where
  "basic_bytes t csid =
     (let fmt = push_bit 6 (chunk_type_value t) in
      if csid \<ge> 319 then [fmt OR 1, ucast ((csid - 64) mod 256), ucast ((csid - 64) div 256)]
      else if csid \<ge> 64 then [fmt, ucast (csid - 64)]
      else [fmt OR ucast csid])"

definition extended_bytes :: "chunk_message_header \<Rightarrow> u8 list" where
  "extended_bytes h = (if is_extended_timestamp h then be_bytes 4 (timestamp h) else [])"

definition message_bytes :: "chunk_message_header \<Rightarrow> u8 list" where
  "message_bytes h = be_bytes 3 (min (timestamp h) 0xFFFFFF) @ be_bytes 3 (msg_length h) @
     [msg_type_id h] @ rev (be_bytes 4 (msg_stream_id h)) @ extended_bytes h"

definition continuation_bytes :: "chunk \<Rightarrow> u8 list" where
  "continuation_bytes c =
     basic_bytes Type3 (chunk_stream_id (basic_header c)) @ extended_bytes (message_header c)"

text \<open>The payload in parts of at most \<open>n\<close> bytes, with \<open>pre\<close> between them.\<close>

function payload_bytes :: "nat \<Rightarrow> u8 list \<Rightarrow> u8 list \<Rightarrow> u8 list" where
  "payload_bytes n pre bs =
     (if n = 0 \<or> length bs \<le> n then bs else take n bs @ pre @ payload_bytes n pre (drop n bs))"
  by pat_completeness auto
termination
  by (relation "measure (\<lambda>(n, pre, bs). length bs)") auto

declare payload_bytes.simps [simp del]

definition chunk_bytes :: "nat \<Rightarrow> chunk \<Rightarrow> u8 list" where
  "chunk_bytes n c = basic_bytes Type0 (chunk_stream_id (basic_header c)) @
     message_bytes (message_header c) @ payload_bytes n (continuation_bytes c) (payload c)"

subsection \<open>What the writer writes\<close>

context byte_sink
begin

lemma puts_basic_header:
  assumes "byteorder_writes wr bw"
  shows "puts app ok (write_basic_header bw t csid) (basic_bytes t csid)"
proof -
  note b = puts_bo(1) [OF assms]
  have "puts app ok (bnd (bw_u8 bw x) (\<lambda>_. bw_u8 bw y)) [x, y]" for x y
    by (rule puts_bnd_Cons [OF b b])
  moreover have "puts app ok (bnd (bw_u8 bw x) (\<lambda>_. bnd (bw_u8 bw y) (\<lambda>_. bw_u8 bw z))) [x, y, z]" for x y z
    by (intro puts_bnd_Cons b)
  ultimately show ?thesis
    by (simp add: write_basic_header_def basic_bytes_def Let_def b)
qed

lemma puts_extended:
  "byteorder_writes wr bw \<Longrightarrow>
     puts app ok (if is_extended_timestamp h then write_extended_timestamp bw (timestamp h) else ret ())
       (extended_bytes h)"
  by (simp add: extended_bytes_def write_extended_timestamp_def puts_bo puts_ret)

lemma puts_message_header:
  assumes "byteorder_writes wr bw" and "unat (msg_length h) < 2 ^ 24"
  shows "puts app ok (write_message_header bw h) (message_bytes h)"
proof -
  have "min (timestamp h) 0xFFFFFF \<le> 0xFFFFFF" by simp
  then have t: "unat (min (timestamp h) 0xFFFFFF) < 2 ^ 24"
    by (simp add: word_le_nat_alt)
  have "(if timestamp h \<ge> 0xFFFFFF then 0xFFFFFF else timestamp h) = min (timestamp h) 0xFFFFFF"
    by (auto simp: min_def)
  with t assms show ?thesis
    unfolding write_message_header_def message_bytes_def Let_def
    by (simp only:) (intro puts_bnd puts_bo puts_extended; simp)
qed

lemma puts_continuation:
  "byteorder_writes wr bw \<Longrightarrow> puts app ok (write_continuation bw c) (continuation_bytes c)"
  unfolding write_continuation_def continuation_bytes_def
  by (intro puts_bnd puts_basic_header puts_extended)

lemma write_payload_ok:
  assumes bw: "byteorder_writes wr bw" and n: "0 < chunk_size cw"
  shows "ok w \<Longrightarrow> write_payload cw wr bw c bs w =
    Some (Inr (), app w (payload_bytes (chunk_size cw) (continuation_bytes c) bs))"
proof (induction bs arbitrary: w rule: length_induct)
  case (1 bs)
  let ?n = "chunk_size cw"
  show ?case
  proof (cases "bs = []")
    case True
    with "1.prems" show ?thesis by (simp add: write_payload.simps payload_bytes.simps app_Nil)
  next
    case ne: False
    show ?thesis
    proof (cases "length bs \<le> ?n")
      case True
      have "puts app ok (bnd (write_all wr bs) (\<lambda>_. ret ())) (bs @ [])"
        by (intro puts_bnd puts_write_all puts_ret)
      with "1.prems" ne True show ?thesis
        by (simp add: write_payload.simps [of cw wr bw c bs] write_payload.simps [of cw wr bw c "[]"]
            payload_bytes.simps puts_def)
    next
      case False
      have "puts app ok (bnd (write_all wr (take ?n bs)) (\<lambda>_. write_continuation bw c))
          (take ?n bs @ continuation_bytes c)"
        by (intro puts_bnd puts_write_all puts_continuation bw)
      moreover have "length (drop ?n bs) < length bs" using n ne by simp
      ultimately show ?thesis
        using "1.prems" ne False n "1.IH"
        by (simp add: write_payload.simps [of cw wr bw c bs] payload_bytes.simps [of ?n _ bs]
            puts_def Let_def ok_app app_app)
    qed
  qed
qed

lemma write_chunk_ok:
  assumes "byteorder_writes wr bw" and "0 < chunk_size cw"
    and "unat (msg_length (message_header c)) < 2 ^ 24" and "ok w"
  shows "write_chunk cw wr bw c w = Some (Inr (), app w (chunk_bytes (chunk_size cw) c))"
proof -
  have "puts app ok (bnd (write_basic_header bw Type0 (chunk_stream_id (basic_header c)))
          (\<lambda>_. write_message_header bw (message_header c)))
      (basic_bytes Type0 (chunk_stream_id (basic_header c)) @ message_bytes (message_header c))"
    using assms by (intro puts_bnd puts_basic_header puts_message_header)
  with assms show ?thesis
    by (simp add: write_chunk_def chunk_bytes_def puts_def write_payload_ok ok_app app_app)
qed

end

subsection \<open>Reading the headers\<close>

lemma decodes_eof_to_none: "decodes bits ok m bs x \<Longrightarrow> decodes bits ok (eof_to_none m) bs x"
  by (fastforce simp: decodes_def eof_to_none_def)

lemma decodes_need: "decodes bits ok m bs x \<Longrightarrow> decodes bits ok (need m) bs x"
  by (simp add: need_def decodes_map_err decodes_eof_to_none)

lemma chunk_type_value_bits:
  "drop_bit 6 (push_bit 6 (chunk_type_value t)) AND 3 = chunk_type_value t"
  "drop_bit 6 (push_bit 6 (chunk_type_value t) OR 1) AND 3 = chunk_type_value t"
  "push_bit 6 (chunk_type_value t) AND 0x3F = 0"
  "(push_bit 6 (chunk_type_value t) OR 1) AND 0x3F = 1"
  by (cases t; simp add: chunk_type_value_def)+

lemma small_csid:
  fixes y :: u8
  assumes "unat y < 64"
  shows "drop_bit 6 (push_bit 6 (chunk_type_value t) OR y) AND 3 = chunk_type_value t"
    and "(push_bit 6 (chunk_type_value t) OR y) AND 0x3F = y"
proof -
  have "take_bit 6 y = y"
    using assms by (simp add: word_unat_eq_iff unsigned_take_bit_eq take_bit_nat_eq_self)
  moreover from this have "drop_bit 6 y = 0"
    by (metis drop_bit_take_bit diff_self_eq_0 take_bit_0)
  moreover have "v AND 0x3F = take_bit 6 v" for v :: u8
    by (simp add: take_bit_eq_mask mask_eq_exp_minus_1)
  moreover have "take_bit 6 (push_bit 6 v) = 0" for v :: u8
    by (simp add: take_bit_push_bit)
  ultimately show "drop_bit 6 (push_bit 6 (chunk_type_value t) OR y) AND 3 = chunk_type_value t"
    and "(push_bit 6 (chunk_type_value t) OR y) AND 0x3F = y"
    using chunk_type_value_bits(1) [of t] by (simp_all add: drop_bit_or take_bit_or)
qed

lemma csid_split:
  fixes csid :: u32
  assumes "64 \<le> csid" and "unat csid < 65600"
  shows "64 + ucast (ucast ((csid - 64) mod 256) :: u8) + ucast (ucast ((csid - 64) div 256) :: u8) * 256 = csid"
proof -
  let ?d = "csid - 64"
  have d: "unat ?d = unat csid - 64" using assms by (simp add: unat_sub word_le_nat_alt)
  have "unat (?d mod 256) < 2 ^ 8" "unat (?d div 256) < 2 ^ 8"
    using assms d by (simp_all add: unat_mod unat_div)
  then have "ucast (ucast (?d mod 256) :: u8) = ?d mod 256" "ucast (ucast (?d div 256) :: u8) = ?d div 256"
    by (simp_all add: word_unat_eq_iff unsigned_ucast_eq unsigned_take_bit_eq take_bit_nat_eq_self)
  moreover have "?d div 256 * 256 + ?d mod 256 = ?d" by (rule div_mult_mod_eq)
  moreover from this have "64 + ?d mod 256 + ?d div 256 * 256 = 64 + ?d"
    by (simp only: ac_simps)
  ultimately show ?thesis by simp
qed

context byte_source
begin

lemma sdec_read_header:
  assumes bo: "byteorder_reads rd bo" and ct: "chunk_type_conversion ct"
    and csid: "2 \<le> csid" "unat csid < 65600"
  shows "sdec (read_header ct bo) (basic_bytes t csid)
    \<lparr>chunk_format = t, chunk_stream_id = csid\<rparr>"
proof -
  note b = decodes_eof_to_none [OF sdec_bo(1) [OF bo]]
  have ct': "ct (chunk_type_value t) = Some t" using ct by (simp add: chunk_type_conversion_def)
  consider "csid \<ge> 319" | "64 \<le> csid" "csid < 319" | "csid < 64" by fastforce
  then show ?thesis
  proof cases
    case 1
    then have "64 \<le> csid" by (simp add: word_le_nat_alt)
    note split = csid_split [OF this csid(2)]
    have bytes: "basic_bytes t csid = [push_bit 6 (chunk_type_value t) OR 1,
        ucast ((csid - 64) mod 256), ucast ((csid - 64) div 256)]"
      using 1 by (simp add: basic_bytes_def)
    show ?thesis
      unfolding bytes read_header_def
      by (rule sdec_Cons [OF b], simp only: ct' chunk_type_value_bits option.case)
        (simp only: Let_def unsigned_1 if_True if_False one_neq_zero simp_thms bnd_assoc,
         rule sdec_Cons [OF b], rule sdec_Cons [OF b], simp add: decodes_ret split)
  next
    case 2
    then have "unat (csid - 64) < 2 ^ 8"
      by (simp add: unat_sub word_le_nat_alt word_less_nat_alt)
    then have split: "ucast (ucast (csid - 64) :: u8) = csid - 64"
      by (simp add: word_unat_eq_iff unsigned_ucast_eq unsigned_take_bit_eq take_bit_nat_eq_self)
    have bytes: "basic_bytes t csid = [push_bit 6 (chunk_type_value t), ucast (csid - 64)]"
      using 2(1) linorder_not_le [THEN iffD2, OF 2(2)] by (simp add: basic_bytes_def Let_def)
    show ?thesis
      unfolding bytes read_header_def
      by (rule sdec_Cons [OF b], simp only: ct' chunk_type_value_bits option.case)
        (simp only: Let_def unsigned_0 if_True simp_thms bnd_assoc,
         rule sdec_Cons [OF b], simp add: decodes_ret split)
  next
    case 3
    then have u: "unat (ucast csid :: u8) < 64" "ucast (ucast csid :: u8) = csid"
      by (simp_all add: word_unat_eq_iff unsigned_ucast_eq unsigned_take_bit_eq take_bit_nat_eq_self word_less_nat_alt)
    have ne: "csid \<noteq> 0" "csid \<noteq> 1" using csid(1) by (auto simp: word_le_nat_alt)
    have bytes: "basic_bytes t csid = [push_bit 6 (chunk_type_value t) OR ucast csid]"
      using linorder_not_le [THEN iffD2, OF 3] linorder_not_le [THEN iffD2, OF less_trans [OF 3, of 319]] by (simp add: basic_bytes_def Let_def)
    show ?thesis
      unfolding bytes read_header_def
      by (rule sdec_Cons [OF b], simp only: ct' small_csid [OF u(1)] option.case)
        (simp add: Let_def u ne decodes_ret)
  qed
qed

end

lemma take_bit_24:
  "unat (u :: u32) < 2 ^ 24 \<Longrightarrow> take_bit 24 u = u"
  by (simp add: word_unat_eq_iff unsigned_take_bit_eq take_bit_nat_eq_self)

context byte_source
begin

lemma sdec_le_read: "length bs = n \<Longrightarrow> sdec (le_read rd n) bs (of_bits (byte_bits (rev bs)))"
  unfolding le_read_def by (rule sdec_last [OF sdec_read_exact]) (simp_all add: decodes_ret)

lemma sdec_need_bo:
  assumes "byteorder_reads rd bo"
  shows "sdec (need (bo_u8 bo)) [b] b"
    and "unat u < 2 ^ 24 \<Longrightarrow> sdec (need (bo_u24 bo)) (be_bytes 3 u) u"
    and "sdec (need (bo_u32 bo)) (be_bytes 4 w) w"
    and "sdec (need (bo_u32_le bo)) (rev (be_bytes 4 w)) w"
proof -
  note b = sdec_bo [OF assms] 
  show "sdec (need (bo_u8 bo)) [b] b" by (rule decodes_need [OF b(1)])
  show "unat u < 2 ^ 24 \<Longrightarrow> sdec (need (bo_u24 bo)) (be_bytes 3 u) u"
    using decodes_need [OF b(3), of u] by (simp add: be_bytes_def take_bit_24)
  show "sdec (need (bo_u32 bo)) (be_bytes 4 w) w"
    using decodes_need [OF b(4), of w] by (simp add: be_bytes_def)
  have "sdec (bo_u32_le bo) (rev (be_bytes 4 w)) (of_bits (byte_bits (rev (rev (be_bytes 4 w)))))"
    using assms sdec_le_read [of "rev (be_bytes 4 w)" 4, where 'a = 32]
    by (simp add: byteorder_reads_def be_bytes_def length_pack_whole)
  then show "sdec (need (bo_u32_le bo)) (rev (be_bytes 4 w)) w"
    by (intro decodes_need) (simp add: be_bytes_def byte_bits_pack_whole take_bit_word_eq_self)
qed

lemma sdec_read_extended:
  assumes "byteorder_reads rd bo"
  shows "sdec (read_extended bo (min (timestamp h) 0xFFFFFF)) (extended_bytes h)
    (timestamp h, is_extended_timestamp h)"
proof (cases "is_extended_timestamp h")
  case True
  then have "min (timestamp h) 0xFFFFFF = 0xFFFFFF" by (simp add: is_extended_timestamp_def min_def)
  then have "read_extended bo (min (timestamp h) 0xFFFFFF) = bnd (need (bo_u32 bo)) (\<lambda>t'. ret (t', True))"
    by (simp add: read_extended_def)
  with True show ?thesis
    by (simp only: extended_bytes_def if_True) (rule sdec_last [OF sdec_need_bo(3) [OF assms] sdec_ret])
next
  case False
  then have "timestamp h < 0xFFFFFF" by (simp add: is_extended_timestamp_def linorder_not_le)
  then have "min (timestamp h) 0xFFFFFF = timestamp h" "timestamp h \<noteq> 0xFFFFFF" by auto
  with False show ?thesis
    by (simp add: read_extended_def extended_bytes_def decodes_ret)
qed

lemma sdec_bnd_pair:
  "sdec m as (x, y) \<Longrightarrow> sdec (f x y) bs z \<Longrightarrow> sdec (bnd m (\<lambda>(a, b). f a b)) (as @ bs) z"
  using sdec_bnd [of m as "(x, y)" "\<lambda>(a, b). f a b"] by simp

lemma sdec_message_header0:
  assumes bo: "byteorder_reads rd bo" and len: "unat (msg_length h) \<le> MAX_PARTIAL_CHUNK_SIZE"
  shows "sdec (read_message_header r bo \<lparr>chunk_format = Type0, chunk_stream_id = csid\<rparr>)
    (message_bytes h) (h\<lparr>was_extended_timestamp := is_extended_timestamp h\<rparr>)"
proof -
  have "min (timestamp h) 0xFFFFFF \<le> 0xFFFFFF" by simp
  then have t: "unat (min (timestamp h) 0xFFFFFF) < 2 ^ 24"
    by (simp add: word_le_nat_alt)
  have n: "unat (msg_length h) < 2 ^ 24"
    using len by (simp add: MAX_PARTIAL_CHUNK_SIZE_def)
  note b = sdec_need_bo [OF bo]
  have l: "sdec (check_length (msg_length h)) [] ()"
    using len by (simp add: check_length_def decodes_def run_simps)
  have "sdec (read_message_header r bo \<lparr>chunk_format = Type0, chunk_stream_id = csid\<rparr>)
    (be_bytes 3 (min (timestamp h) 0xFFFFFF) @ be_bytes 3 (msg_length h) @ [] @
      [msg_type_id h] @ rev (be_bytes 4 (msg_stream_id h)) @ extended_bytes h @ [])
    \<lparr>timestamp = timestamp h, msg_length = msg_length h, msg_type_id = msg_type_id h,
     msg_stream_id = msg_stream_id h, was_extended_timestamp = is_extended_timestamp h\<rparr>"
    unfolding read_message_header_def chunk_basic_header.simps chunk_type.case
    by (intro sdec_bnd [OF b(2) [OF t]] sdec_bnd [OF b(2) [OF n]] sdec_bnd [OF l]
        sdec_bnd [OF b(1)] sdec_bnd [OF b(4)] sdec_bnd_pair [OF sdec_read_extended [OF bo]] sdec_ret)
  moreover have "h\<lparr>was_extended_timestamp := is_extended_timestamp h\<rparr> =
    \<lparr>timestamp = timestamp h, msg_length = msg_length h, msg_type_id = msg_type_id h,
     msg_stream_id = msg_stream_id h, was_extended_timestamp = is_extended_timestamp h\<rparr>"
    by (cases h) simp
  ultimately show ?thesis by (simp only: message_bytes_def append_Nil append_Nil2)
qed

lemma sdec_message_header3:
  assumes bo: "byteorder_reads rd bo" and "hm_get (previous_chunk_headers r) csid = Some h"
    and "was_extended_timestamp h = is_extended_timestamp h"
  shows "sdec (read_message_header r bo \<lparr>chunk_format = Type3, chunk_stream_id = csid\<rparr>)
    (extended_bytes h) h"
  using assms(2,3)
  by (simp add: read_message_header_def previous_header_def extended_bytes_def decodes_ret)
    (intro impI sdec_last [OF sdec_need_bo(3) [OF bo]] sdec_ret)

end

text \<open>The reads of one chunk run on a cursor over the whole buffer.\<close>

interpretation at: byte_source cursor_read cursor_rest "\<lambda>c. cur_data c = D \<and> cur_pos c \<le> length D"
  for D :: "u8 list"
proof
  fix s :: cursor and n
  assume "cur_data s = D \<and> cur_pos s \<le> length D"
  then show "\<exists>k s'. cursor_read n s = (Inr (take k (cursor_rest s)), s') \<and> k \<le> n \<and>
      k \<le> length (cursor_rest s) \<and> (0 < n \<and> cursor_rest s \<noteq> [] \<longrightarrow> 0 < k) \<and>
      cursor_rest s' = drop k (cursor_rest s) \<and> cur_data s' = D \<and> cur_pos s' \<le> length D"
    by (intro exI [of _ "min n (length (cursor_rest s))"])
      (auto simp: cursor_read_def cursor_rest_def remaining_def Let_def min_def add.commute)
qed

lemma at_position:
  assumes "cur_data c = as @ bs" and "cur_pos c \<le> length (as @ bs)" and "cursor_rest c = bs"
  shows "c = \<lparr>cur_data = as @ bs, cur_pos = length as\<rparr>"
proof -
  have "length (as @ bs) - cur_pos c = length bs"
    using assms(1,3) by (metis length_cursor_rest remaining_def)
  with assms(1,2) show ?thesis by (cases c) simp
qed

text \<open>The headers of a chunk whose bytes are at the front of the buffer.\<close>

lemma read_chunk_headers_run:
  assumes bo: "byteorder_reads cursor_read bo" and ct: "chunk_type_conversion ct"
    and csid: "2 \<le> csid" "unat csid < 65600"
    and mh: "at.sdec (as @ bs) (read_message_header r bo \<lparr>chunk_format = t, chunk_stream_id = csid\<rparr>) hs mh"
    and as: "as = basic_bytes t csid @ hs"
    and fits: "partial_len r (csid, msg_stream_id mh) \<le> unat (msg_length mh)"
    and n: "n = min (unat (msg_length mh) - partial_len r (csid, msg_stream_id mh)) (max_chunk_size r)"
    and small: "length as + n < 2 ^ 64"
  shows "read_chunk_headers ct bo r (cursor_new (as @ bs)) =
    (Inr (\<lparr>chunk_format = t, chunk_stream_id = csid\<rparr>, mh, length as, length as + n),
     \<lparr>cur_data = as @ bs, cur_pos = length as + n\<rparr>)"
proof -
  let ?ok = "\<lambda>c. cur_data c = as @ bs \<and> cur_pos c \<le> length (as @ bs)"
  have "at.sdec (as @ bs) (bnd (map_err (map_option rtmp_io) (read_header ct bo)) (\<lambda>h.
      bnd (read_message_header r bo h) (\<lambda>mh. ret (h, mh)))) (basic_bytes t csid @ hs @ [])
      (\<lparr>chunk_format = t, chunk_stream_id = csid\<rparr>, mh)"
    by (intro at.sdec_bnd [OF decodes_map_err [OF at.sdec_read_header [OF bo ct csid]]]
        at.sdec_bnd [OF mh] at.sdec_ret)
  moreover have "?ok (cursor_new (as @ bs))" "cursor_rest (cursor_new (as @ bs)) = (basic_bytes t csid @ hs @ []) @ bs"
    by (simp_all add: cursor_new_def cursor_rest_def as)
  ultimately obtain c where "bnd (map_err (map_option rtmp_io) (read_header ct bo)) (\<lambda>h.
      bnd (read_message_header r bo h) (\<lambda>mh. ret (h, mh))) (cursor_new (as @ bs)) =
      (Inr (\<lparr>chunk_format = t, chunk_stream_id = csid\<rparr>, mh), c)" "cursor_rest c = bs" "?ok c"
    by (rule at.sdecE)
  moreover from this have "c = \<lparr>cur_data = as @ bs, cur_pos = length as\<rparr>"
    by (intro at_position) auto
  ultimately show ?thesis
    using fits small
    by (auto simp: read_chunk_headers_def get_payload_range_def Let_def n need_def map_err_def eof_to_none_def
        run_simps bnd_def of_nat_less_iff split: prod.splits sum.splits)
qed

subsection \<open>Reading a message\<close>

text \<open>One iteration on a buffer that starts with a whole chunk.\<close>

lemma read_chunk_step_run:
  assumes "read_chunk_headers ct bo r (cursor_new (as @ bs)) =
      (Inr (h, mh, length as, length as + n), \<lparr>cur_data = as @ bs, cur_pos = length as + n\<rparr>)"
    and "bs = part @ rest" and "length part = n"
  shows "read_chunk_step ct bo r (as @ bs) =
    (case accept_chunk r h mh part of (res, r') \<Rightarrow> (res, r', rest))"
  using assms by (simp add: read_chunk_step_def bytes_slice_def split: prod.splits)

text \<open>The header a reader remembers for a message that was written with header \<open>h\<close>.\<close>

definition received :: "chunk_message_header \<Rightarrow> chunk_message_header" where
  "received h = h\<lparr>was_extended_timestamp := is_extended_timestamp h\<rparr>"

lemma received_simps [simp]:
  "timestamp (received h) = timestamp h" "msg_length (received h) = msg_length h"
  "msg_type_id (received h) = msg_type_id h" "msg_stream_id (received h) = msg_stream_id h"
  "was_extended_timestamp (received h) = is_extended_timestamp h"
  "is_extended_timestamp (received h) = is_extended_timestamp h"
  "extended_bytes (received h) = extended_bytes h"
  by (simp_all add: received_def is_extended_timestamp_def extended_bytes_def)

lemma length_basic_bytes: "length (basic_bytes t csid) \<le> 3"
  by (simp add: basic_bytes_def Let_def)

lemma length_extended_bytes: "length (extended_bytes h) \<le> 4"
  by (simp add: extended_bytes_def)

lemma length_message_bytes: "length (message_bytes h) \<le> 15"
  using length_extended_bytes [of h] by (simp add: message_bytes_def)

text \<open>A continuation chunk in front of the buffer.\<close>

lemma continuation_step:
  assumes bo: "byteorder_reads cursor_read bo" and ct: "chunk_type_conversion ct"
    and csid: "2 \<le> csid" "unat csid < 65600" and r: "chunk_reader_ok r"
    and prev: "hm_get (previous_chunk_headers r) csid = Some mh"
    and ext: "was_extended_timestamp mh = is_extended_timestamp mh"
    and part: "hm_get (partial_chunks r) (csid, msg_stream_id mh) = Some p"
    and len: "length p + length bs = unat (msg_length mh)"
    and n: "n = min (length bs) (max_chunk_size r)"
  shows "read_chunk_step ct bo r (basic_bytes Type3 csid @ extended_bytes mh @ take n bs @ rest) =
    (case accept_chunk r \<lparr>chunk_format = Type3, chunk_stream_id = csid\<rparr> mh (take n bs) of
       (res, r') \<Rightarrow> (res, r', rest))"
proof -
  have pl: "partial_len r (csid, msg_stream_id mh) = length p" by (simp add: partial_len_def part)
  have small: "length (basic_bytes Type3 csid @ extended_bytes mh) + n < 2 ^ 64"
    using length_basic_bytes [of Type3 csid] length_extended_bytes [of mh] chunk_reader_ok_max [OF r] n
    by simp
  have "read_chunk_headers ct bo r (cursor_new ((basic_bytes Type3 csid @ extended_bytes mh) @ take n bs @ rest)) =
    (Inr (\<lparr>chunk_format = Type3, chunk_stream_id = csid\<rparr>, mh,
       length (basic_bytes Type3 csid @ extended_bytes mh), length (basic_bytes Type3 csid @ extended_bytes mh) + n),
     \<lparr>cur_data = (basic_bytes Type3 csid @ extended_bytes mh) @ take n bs @ rest,
      cur_pos = length (basic_bytes Type3 csid @ extended_bytes mh) + n\<rparr>)"
    using len n small
    by (intro read_chunk_headers_run [OF bo ct csid at.sdec_message_header3 [where h = mh, OF bo prev ext] refl])
      (simp_all add: pl)
  from read_chunk_step_run [OF this refl] n show ?thesis by simp
qed

lemma accept_chunk_more:
  assumes r: "chunk_reader_ok r"
    and prev: "hm_get (previous_chunk_headers r) (chunk_stream_id h) \<noteq> None"
    and part: "hm_get (partial_chunks r) (chunk_stream_id h, msg_stream_id mh) = Some p" and p: "p \<noteq> []"
    and len: "length p + length bs \<le> unat (msg_length mh)" "unat (msg_length mh) \<le> MAX_PARTIAL_CHUNK_SIZE"
  shows "accept_chunk r h mh bs =
    (let k = (chunk_stream_id h, msg_stream_id mh);
         r = r\<lparr>previous_chunk_headers := hm_insert (chunk_stream_id h) mh (previous_chunk_headers r),
               partial_chunks := hm_insert k (p @ bs) (partial_chunks r)\<rparr> in
     if length p + length bs = unat (msg_length mh)
     then (Some (Inr (Some \<lparr>basic_header = h, message_header = mh, payload = p @ bs\<rparr>)),
           r\<lparr>partial_chunks := hm_remove k (partial_chunks r)\<rparr>)
     else (None, r))"
proof -
  have "length bs \<noteq> unat (msg_length mh)" using len(1) p by (cases p) auto
  with prev part len chunk_reader_ok_good(3) [OF r] show ?thesis
    by (auto simp: accept_chunk_def store_partial_def partial_entry_def Let_def)
qed

lemma read_continuations:
  assumes bo: "byteorder_reads cursor_read bo" and ct: "chunk_type_conversion ct"
    and csid: "2 \<le> csid" "unat csid < 65600"
    and ext: "was_extended_timestamp mh = is_extended_timestamp mh"
    and small: "unat (msg_length mh) \<le> MAX_PARTIAL_CHUNK_SIZE"
    and pre: "pre = basic_bytes Type3 csid @ extended_bytes mh"
  shows "chunk_reader_ok r \<Longrightarrow> hm_get (previous_chunk_headers r) csid = Some mh \<Longrightarrow>
    hm_get (partial_chunks r) (csid, msg_stream_id mh) = Some p \<Longrightarrow> p \<noteq> [] \<Longrightarrow> bs \<noteq> [] \<Longrightarrow>
    length p + length bs = unat (msg_length mh) \<Longrightarrow>
    \<exists>r'. read_chunk ct bo r (pre @ payload_bytes (max_chunk_size r) pre bs @ rest) =
        Some (Inr (Some \<lparr>basic_header = \<lparr>chunk_format = Type3, chunk_stream_id = csid\<rparr>,
          message_header = mh, payload = p @ bs\<rparr>), r', rest) \<and>
      chunk_reader_ok r' \<and> hm_get (previous_chunk_headers r') = hm_get (previous_chunk_headers r) \<and>
      hm_get (partial_chunks r') = (hm_get (partial_chunks r))((csid, msg_stream_id mh) := None) \<and>
      max_chunk_size r' = max_chunk_size r"
proof (induction bs arbitrary: r p rule: length_induct)
  case (1 bs)
  let ?n = "max_chunk_size r"
  let ?k = "(csid, msg_stream_id mh)"
  let ?h = "\<lparr>chunk_format = Type3, chunk_stream_id = csid\<rparr>"
  let ?r = "r\<lparr>previous_chunk_headers := hm_insert csid mh (previous_chunk_headers r),
     partial_chunks := hm_insert ?k (p @ take ?n bs) (partial_chunks r)\<rparr>"
  note r = "1.prems"(1) and prev = "1.prems"(2) and part = "1.prems"(3) and p = "1.prems"(4)
    and ne = "1.prems"(5) and len = "1.prems"(6)
  note n0 = chunk_reader_ok_max [OF r]
  note good = chunk_reader_ok_good [OF r]
  have more: "accept_chunk r ?h mh (take ?n bs) =
     (if length bs \<le> ?n
      then (Some (Inr (Some \<lparr>basic_header = ?h, message_header = mh, payload = p @ take ?n bs\<rparr>)),
            ?r\<lparr>partial_chunks := hm_remove ?k (partial_chunks ?r)\<rparr>)
      else (None, ?r))"
    using accept_chunk_more [OF r, of ?h mh p "take ?n bs"] prev part p len small by (auto simp: Let_def)
  have step: "read_chunk_step ct bo r (pre @ take ?n bs @ tl) =
    (case accept_chunk r ?h mh (take ?n bs) of (res, r') \<Rightarrow> (res, r', tl))" for tl
    using continuation_step [OF bo ct csid r prev ext part len refl, of tl]
    by (cases "length bs \<le> ?n") (simp_all add: pre)
  have gets: "hm_get (previous_chunk_headers ?r) = hm_get (previous_chunk_headers r)"
      "hm_get (partial_chunks ?r) = (hm_get (partial_chunks r))(?k \<mapsto> p @ take ?n bs)"
    using prev good by (auto simp: update_conv')
  show ?case
  proof (cases "length bs \<le> ?n")
    case True
    let ?r' = "?r\<lparr>partial_chunks := hm_remove ?k (partial_chunks ?r)\<rparr>"
    from True have acc: "accept_chunk r ?h mh (take ?n bs) =
        (Some (Inr (Some \<lparr>basic_header = ?h, message_header = mh, payload = p @ bs\<rparr>)), ?r')"
      using more True by simp
    have "read_chunk_step ct bo r (pre @ take ?n bs @ rest) =
        (Some (Inr (Some \<lparr>basic_header = ?h, message_header = mh, payload = p @ bs\<rparr>)), ?r', rest)"
      by (simp only: step acc prod.case)
    then have "read_chunk ct bo r (pre @ payload_bytes ?n pre bs @ rest) =
        Some (Inr (Some \<lparr>basic_header = ?h, message_header = mh, payload = p @ bs\<rparr>), ?r', rest)"
      using True by (simp add: read_chunk.simps [of ct bo r] payload_bytes.simps)
    moreover have "chunk_reader_ok ?r'" by (rule accept_chunk_ok [OF r small acc])
    moreover have "hm_get (partial_chunks ?r') = (hm_get (partial_chunks r))(?k := None)"
      using gets good by (simp add: delete_conv')
    ultimately show ?thesis using gets by (intro exI [of _ ?r']) simp
  next
    case False
    have acc: "accept_chunk r ?h mh (take ?n bs) = (None, ?r)" using more False by simp
    have ok: "chunk_reader_ok ?r" by (rule accept_chunk_ok [OF r small acc])
    have step': "read_chunk_step ct bo r (pre @ take ?n bs @ tl) = (None, ?r, tl)" for tl
      by (simp only: step acc prod.case)
    have "length (drop ?n bs) < length bs" using n0 ne by simp
    moreover have "hm_get (partial_chunks ?r) ?k = Some (p @ take ?n bs)" by (simp add: update_conv')
    moreover have "hm_get (previous_chunk_headers ?r) csid = Some mh" using prev gets by simp
    moreover have "length (p @ take ?n bs) + length (drop ?n bs) = unat (msg_length mh)" "drop ?n bs \<noteq> []"
      using False len by auto
    ultimately obtain r' where r': "read_chunk ct bo ?r (pre @ payload_bytes ?n pre (drop ?n bs) @ rest) =
        Some (Inr (Some \<lparr>basic_header = ?h, message_header = mh, payload = p @ bs\<rparr>), r', rest)"
      "chunk_reader_ok r'" "hm_get (previous_chunk_headers r') = hm_get (previous_chunk_headers ?r)"
      "hm_get (partial_chunks r') = (hm_get (partial_chunks ?r))(?k := None)" "max_chunk_size r' = ?n"
      using "1.IH" [rule_format, of "drop ?n bs" ?r "p @ take ?n bs"] ok p by auto
    have "read_chunk ct bo r (pre @ payload_bytes ?n pre bs @ rest) =
        read_chunk ct bo ?r (pre @ payload_bytes ?n pre (drop ?n bs) @ rest)"
      using False n0 step' by (simp add: read_chunk.simps [of ct bo r] payload_bytes.simps [of ?n pre bs])
    with r' gets show ?thesis by (intro exI [of _ r']) simp
  qed
qed

text \<open>What the writer can send: a chunk made by \<open>Chunk::new\<close> with a stream the basic header
  can name and a payload no reader refuses.\<close>

definition chunk_writable :: "chunk \<Rightarrow> bool" where
  "chunk_writable c \<longleftrightarrow> chunk_format (basic_header c) = Type0 \<and>
     2 \<le> chunk_stream_id (basic_header c) \<and> unat (chunk_stream_id (basic_header c)) < 65600 \<and>
     length (payload c) \<le> MAX_PARTIAL_CHUNK_SIZE \<and>
     msg_length (message_header c) = of_nat (length (payload c))"

text \<open>The chunk as the reader returns it: a message that took several chunks has the basic
  header of its last one.\<close>

definition chunk_received :: "nat \<Rightarrow> chunk \<Rightarrow> chunk" where
  "chunk_received n c = c\<lparr>
     basic_header := (basic_header c)\<lparr>chunk_format := if length (payload c) \<le> n then Type0 else Type3\<rparr>,
     message_header := received (message_header c)\<rparr>"

text \<open>A reader with room for the headers of the stream and for a partial message on it.\<close>

definition has_room :: "chunk_reader \<Rightarrow> chunk \<Rightarrow> bool" where
  "has_room r c \<longleftrightarrow>
     (hm_get (previous_chunk_headers r) (chunk_stream_id (basic_header c)) \<noteq> None \<or>
      length (previous_chunk_headers r) < MAX_PREVIOUS_CHUNK_HEADERS) \<and>
     hm_get (partial_chunks r)
       (chunk_stream_id (basic_header c), msg_stream_id (message_header c)) = None \<and>
     length (partial_chunks r) < MAX_PARTIAL_CHUNK_COUNT"

lemma read_chunk_bytes:
  assumes bo: "byteorder_reads cursor_read bo" and ct: "chunk_type_conversion ct"
    and r: "chunk_reader_ok r" and c: "chunk_writable c" and room: "has_room r c"
  shows "\<exists>r'. read_chunk ct bo r (chunk_bytes (max_chunk_size r) c @ rest) =
      Some (Inr (Some (chunk_received (max_chunk_size r) c)), r', rest) \<and>
    chunk_reader_ok r' \<and> max_chunk_size r' = max_chunk_size r \<and>
    hm_get (previous_chunk_headers r') = (hm_get (previous_chunk_headers r))
      (chunk_stream_id (basic_header c) \<mapsto> received (message_header c)) \<and>
    hm_get (partial_chunks r') = hm_get (partial_chunks r)"
proof -
  define csid where "csid = chunk_stream_id (basic_header c)"
  define mh where "mh = received (message_header c)"
  define bs where "bs = payload c"
  define as where "as = basic_bytes Type0 csid @ message_bytes (message_header c)"
  let ?n = "max_chunk_size r"
  let ?k = "(csid, msg_stream_id mh)"
  let ?h = "\<lparr>chunk_format = Type0, chunk_stream_id = csid\<rparr>"
  let ?r = "r\<lparr>previous_chunk_headers := hm_insert csid mh (previous_chunk_headers r)\<rparr>"
  have csid: "2 \<le> csid" "unat csid < 65600" using c by (auto simp: chunk_writable_def csid_def)
  have small: "length bs \<le> MAX_PARTIAL_CHUNK_SIZE" using c by (simp add: chunk_writable_def bs_def)
  have len: "unat (msg_length mh) = length bs"
  proof -
    have "msg_length mh = of_nat (length bs)" using c by (simp add: chunk_writable_def bs_def mh_def)
    moreover have "length bs < 2 ^ 32" using small by (simp add: MAX_PARTIAL_CHUNK_SIZE_def)
    ultimately show ?thesis by (simp add: unsigned_of_nat take_bit_nat_eq_self)
  qed
  have small': "unat (msg_length mh) \<le> MAX_PARTIAL_CHUNK_SIZE" using len small by simp
  have none: "hm_get (partial_chunks r) ?k = None" and few: "length (partial_chunks r) < MAX_PARTIAL_CHUNK_COUNT"
    and head: "hm_get (previous_chunk_headers r) csid \<noteq> None \<or> length (previous_chunk_headers r) < MAX_PREVIOUS_CHUNK_HEADERS"
    using room by (auto simp: has_room_def csid_def mh_def)
  note n0 = chunk_reader_ok_max [OF r]
  note good = chunk_reader_ok_good [OF r]
  have pl: "partial_len r ?k = 0" using none by (simp add: partial_len_def)
  have c_eq: "c = \<lparr>basic_header = ?h, message_header = message_header c, payload = bs\<rparr>"
    using c by (cases c; cases "basic_header c") (auto simp: chunk_writable_def csid_def bs_def)
  have sizes: "length as + min (length bs) ?n < 2 ^ 64"
    using length_basic_bytes [of Type0 csid] length_message_bytes [of "message_header c"] n0
    by (simp add: as_def)
  have heads: "read_chunk_headers ct bo r (cursor_new (as @ tl)) =
      (Inr (?h, mh, length as, length as + min (length bs) ?n),
       \<lparr>cur_data = as @ tl, cur_pos = length as + min (length bs) ?n\<rparr>)" for tl
    using sizes small len at.sdec_message_header0 [OF bo, of "message_header c" "as @ tl" r csid]
    by (intro read_chunk_headers_run [OF bo ct csid, where hs = "message_bytes (message_header c)"])
      (simp_all add: as_def pl [unfolded mh_def received_simps] received_def mh_def)
  have step: "read_chunk_step ct bo r (as @ take ?n bs @ tl) =
      (case accept_chunk r ?h mh (take ?n bs) of (res, r') \<Rightarrow> (res, r', tl))" for tl
    by (rule read_chunk_step_run [OF heads refl]) simp
  have ok: "chunk_reader_ok ?r" using r small' head by (rule chunk_reader_ok_header)
  show ?thesis
  proof (cases "length bs \<le> ?n")
    case True
    have acc: "accept_chunk r ?h mh (take ?n bs) =
        (Some (Inr (Some \<lparr>basic_header = ?h, message_header = mh, payload = bs\<rparr>)), ?r)"
      using True head len good(3) by (auto simp: accept_chunk_def Let_def)
    have "read_chunk_step ct bo r (as @ take ?n bs @ rest) =
        (Some (Inr (Some \<lparr>basic_header = ?h, message_header = mh, payload = bs\<rparr>)), ?r, rest)"
      by (simp only: step acc prod.case)
    moreover have "chunk_bytes ?n c @ rest = as @ take ?n bs @ rest"
      using True by (simp add: chunk_bytes_def as_def csid_def bs_def payload_bytes.simps)
    moreover have "chunk_received ?n c = \<lparr>basic_header = ?h, message_header = mh, payload = bs\<rparr>"
      using True by (subst c_eq) (simp add: chunk_received_def mh_def)
    ultimately show ?thesis
      using ok good by (intro exI [of _ ?r])
        (simp add: read_chunk.simps [of ct bo r] update_conv' csid_def mh_def)
  next
    case False
    let ?r1 = "?r\<lparr>partial_chunks := hm_insert ?k (take ?n bs) (hm_insert ?k [] (partial_chunks r))\<rparr>"
    let ?pre = "basic_bytes Type3 csid @ extended_bytes mh"
    have acc: "accept_chunk r ?h mh (take ?n bs) = (None, ?r1)"
      using False head len good(3) none few small n0
      by (auto simp: accept_chunk_def store_partial_def partial_entry_def Let_def)
    have ok1: "chunk_reader_ok ?r1" by (rule accept_chunk_ok [OF r small' acc])
    have step': "read_chunk_step ct bo r (as @ take ?n bs @ tl) = (None, ?r1, tl)" for tl
      by (simp only: step acc prod.case)
    have "\<exists>r'. read_chunk ct bo ?r1 (?pre @ payload_bytes (max_chunk_size ?r1) ?pre (drop ?n bs) @ rest) =
        Some (Inr (Some \<lparr>basic_header = \<lparr>chunk_format = Type3, chunk_stream_id = csid\<rparr>,
          message_header = mh, payload = take ?n bs @ drop ?n bs\<rparr>), r', rest) \<and>
      chunk_reader_ok r' \<and> hm_get (previous_chunk_headers r') = hm_get (previous_chunk_headers ?r1) \<and>
      hm_get (partial_chunks r') = (hm_get (partial_chunks ?r1))(?k := None) \<and>
      max_chunk_size r' = max_chunk_size ?r1"
      using False n0 len small
      by (intro read_continuations [OF bo ct csid _ _ refl ok1]) (auto simp: mh_def update_conv')
    then obtain r' where r': "read_chunk ct bo ?r1 (?pre @ payload_bytes ?n ?pre (drop ?n bs) @ rest) =
        Some (Inr (Some \<lparr>basic_header = \<lparr>chunk_format = Type3, chunk_stream_id = csid\<rparr>,
          message_header = mh, payload = bs\<rparr>), r', rest)"
      "chunk_reader_ok r'" "hm_get (previous_chunk_headers r') = hm_get (previous_chunk_headers ?r1)"
      "hm_get (partial_chunks r') = (hm_get (partial_chunks ?r1))(?k := None)" "max_chunk_size r' = ?n"
      by auto
    have "chunk_bytes ?n c @ rest = as @ take ?n bs @ ?pre @ payload_bytes ?n ?pre (drop ?n bs) @ rest"
      using False n0 by (simp add: chunk_bytes_def as_def csid_def bs_def mh_def continuation_bytes_def
          payload_bytes.simps [of ?n _ "payload c"])
    moreover have "chunk_received ?n c = \<lparr>basic_header = \<lparr>chunk_format = Type3, chunk_stream_id = csid\<rparr>,
        message_header = mh, payload = bs\<rparr>"
      using False by (subst c_eq) (simp add: chunk_received_def mh_def)
    ultimately show ?thesis
      using r' none step' by (intro exI [of _ r'])
        (auto simp: read_chunk.simps [of ct bo r] update_conv' csid_def mh_def)
  qed
qed

text \<open>
  C12. Every message \<open>Chunk::new\<close> can make (stream 2 to 65599, payload up to 10 MiB, any
  timestamp) that the writer sends, cut into chunks of the reader's chunk size, is returned by the
  reader with the same payload and header, whatever follows in the buffer; the reader
  remembers the header and keeps no partial message.
\<close>

theorem chunk_roundtrip:
  assumes "byteorder_writes vec_write bw" and "byteorder_reads cursor_read bo" and "chunk_type_conversion ct"
    and "chunk_reader_ok r" and "chunk_writable c" and "has_room r c" and "chunk_size cw = max_chunk_size r"
  shows "\<exists>bs r'. write_chunk cw vec_write bw c [] = Some (Inr (), bs) \<and>
    read_chunk ct bo r (bs @ rest) = Some (Inr (Some (chunk_received (chunk_size cw) c)), r', rest) \<and>
    chunk_reader_ok r' \<and> max_chunk_size r' = max_chunk_size r \<and>
    hm_get (previous_chunk_headers r') = (hm_get (previous_chunk_headers r))
      (chunk_stream_id (basic_header c) \<mapsto> received (message_header c)) \<and>
    hm_get (partial_chunks r') = hm_get (partial_chunks r)"
proof -
  have "length (payload c) < 2 ^ 24" "msg_length (message_header c) = of_nat (length (payload c))"
    using assms(5) by (auto simp: chunk_writable_def MAX_PARTIAL_CHUNK_SIZE_def)
  then have "unat (msg_length (message_header c)) < 2 ^ 24" by (simp add: unsigned_of_nat take_bit_nat_eq_self)
  with assms(1,7) chunk_reader_ok_max(1) [OF assms(4)]
  have "write_chunk cw vec_write bw c [] = Some (Inr (), [] @ chunk_bytes (chunk_size cw) c)"
    by (intro vec.write_chunk_ok) auto
  with read_chunk_bytes [OF assms(2-6), of rest] assms(7) show ?thesis by auto
qed

definition chunk_sample :: chunk where
  "chunk_sample = chunk_new 320 0xFFFFFF 9 1 (replicate 300 7)"

lemma chunk_sample_writable: "chunk_writable chunk_sample" "has_room chunk_reader_default chunk_sample"
  by (simp_all add: chunk_sample_def chunk_new_def chunk_writable_def has_room_def chunk_reader_default_def
      MAX_PARTIAL_CHUNK_SIZE_def MAX_PREVIOUS_CHUNK_HEADERS_def MAX_PARTIAL_CHUNK_COUNT_def word_le_nat_alt)

theorem chunk_roundtrip_witness:
  "\<exists>bs r'. write_chunk chunk_writer_default vec_write (be_writes vec_write) chunk_sample [] = Some (Inr (), bs) \<and>
    read_chunk chunk_type_from_u8 (be_reads cursor_read) chunk_reader_default (bs @ [3, 0]) =
      Some (Inr (Some (chunk_received (chunk_size chunk_writer_default) chunk_sample)), r', [3, 0])"
  using chunk_roundtrip [OF byteorder_writes_be_writes byteorder_reads_be_reads chunk_type_conversion_from_u8
      chunk_reader_default_ok chunk_sample_writable, of chunk_writer_default "[3, 0]"]
  by (auto simp: chunk_writer_default_def chunk_reader_default_def)

subsection \<open>Overflow\<close>

text \<open>
  \<open>write_chunk\<close> returns for every chunk size but zero: \<open>set_chunk_size\<close> accepts zero, and then
  writing a message with a payload never ends.
\<close>

theorem write_chunk_zero_size:
  assumes "byteorder_writes vec_write bw" and "unat (msg_length (message_header c)) < 2 ^ 24"
  shows "write_chunk (set_chunk_size n cw) vec_write bw c v = None \<longleftrightarrow> n = 0 \<and> payload c \<noteq> []"
proof -
  have loop: "write_payload cw vec_write bw c bs w = Some y \<Longrightarrow> chunk_size cw = 0 \<Longrightarrow> bs \<noteq> [] \<Longrightarrow> False" for cw bs w y
  proof -
    assume a: "write_payload cw vec_write bw c bs w = Some y" "chunk_size cw = 0" "bs \<noteq> []"
    have "chunk_size x1 = 0 \<longrightarrow> x5 \<noteq> [] \<longrightarrow> x2 = vec_write \<longrightarrow> x3 = bw \<longrightarrow> x4 = c \<longrightarrow> False"
      if "write_payload x1 x2 x3 x4 x5 x6 = Some y" for x1 x2 x3 x4 x5 x6 y
      using that
    proof (rule write_payload.raw_induct [rotated], goal_cases)
      case (1 f cw wr bw' c' bs w y)
      show ?case
      proof (intro impI)
        assume h: "chunk_size cw = 0" "bs \<noteq> []" "wr = vec_write" "bw' = bw" "c' = c"
        have "puts (@) (\<lambda>_. True) (write_continuation bw c) (continuation_bytes c)"
          using assms(1) by (rule vec.puts_continuation)
        then have "f cw vec_write bw c bs (w @ continuation_bytes c) = Some y"
          using 1(2) h by (simp add: puts_def bnd_def write_all.simps [of vec_write "[]"] run_simps)
        from 1(1) [OF this] h show False by simp
      qed
    qed
    from this [OF a(1)] a(2,3) show False by simp
  qed
  have head: "puts (@) (\<lambda>_. True) (bnd (write_basic_header bw Type0 (chunk_stream_id (basic_header c)))
      (\<lambda>_. write_message_header bw (message_header c)))
    (basic_bytes Type0 (chunk_stream_id (basic_header c)) @ message_bytes (message_header c))"
    using assms by (intro vec.puts_bnd vec.puts_basic_header vec.puts_message_header)
  show ?thesis
  proof (cases "n = 0 \<and> payload c \<noteq> []")
    case True
    with loop [of "set_chunk_size n cw"] head show ?thesis
      by (auto simp: write_chunk_def puts_def set_chunk_size_def not_Some_eq [symmetric] simp del: not_Some_eq)
  next
    case False
    then show ?thesis
      using vec.write_chunk_ok [OF assms(1), of "set_chunk_size n cw" c v] assms(2) head
      by (cases "n = 0") (auto simp: set_chunk_size_def write_chunk_def puts_def write_payload.simps)
  qed
qed

theorem write_chunk_zero_size_witness:
  "write_chunk (set_chunk_size 0 chunk_writer_default) vec_write (be_writes vec_write) chunk_sample [] = None"
proof -
  have "payload chunk_sample \<noteq> []" "unat (msg_length (message_header chunk_sample)) < 2 ^ 24"
    by (simp_all add: chunk_sample_def chunk_new_def flip: length_0_conv)
  with write_chunk_zero_size [OF byteorder_writes_be_writes this(2), of 0 chunk_writer_default "[]"] show ?thesis
    by simp
qed

lemma at_new [simp]: "cur_data (cursor_new bs) = bs" "cur_pos (cursor_new bs) = 0"
  by (simp_all add: cursor_new_def)

text \<open>Timestamp deltas: a type 1 chunk whose sum overflows keeps the old timestamp; in a type 2
  chunk the same addition panics.\<close>

lemma read_chunk_headers_panic:
  assumes bo: "byteorder_reads cursor_read bo" and ct: "chunk_type_conversion ct"
    and csid: "2 \<le> csid" "unat csid < 65600"
    and mh: "\<And>c. cur_data c = buf \<Longrightarrow> cur_pos c \<le> length buf \<Longrightarrow> cursor_rest c = bs \<Longrightarrow>
      fst (read_message_header r bo \<lparr>chunk_format = t, chunk_stream_id = csid\<rparr> c) = Inl (Some e)"
    and buf: "buf = basic_bytes t csid @ bs"
  shows "read_chunk ct bo r buf = Some (Inl e, r, buf)"
proof -
  have "at.sdec buf (map_err (map_option rtmp_io) (read_header ct bo)) (basic_bytes t csid)
      \<lparr>chunk_format = t, chunk_stream_id = csid\<rparr>"
    by (rule decodes_map_err [OF at.sdec_read_header [OF bo ct csid]])
  then obtain c where c: "map_err (map_option rtmp_io) (read_header ct bo) (cursor_new buf) =
      (Inr \<lparr>chunk_format = t, chunk_stream_id = csid\<rparr>, c)" "cursor_rest c = bs" "cur_data c = buf" "cur_pos c \<le> length buf"
    by (rule at.sdecE [where s = "cursor_new buf" and rest = bs]) (auto simp: buf)
  from mh [OF c(3,4,2)] have "fst (read_chunk_headers ct bo r (cursor_new buf)) = Inl (Some e)"
    by (cases "read_message_header r bo \<lparr>chunk_format = t, chunk_stream_id = csid\<rparr> c")
      (simp add: read_chunk_headers_def c(1) bnd_def)
  then show ?thesis
    by (cases "read_chunk_headers ct bo r (cursor_new buf)")
      (simp add: read_chunk.simps [of ct bo r buf] read_chunk_step_def)
qed

text \<open>
  A type 2 chunk whose delta overflows the previous timestamp makes the reader panic; nothing
  is consumed.
\<close>

theorem read_chunk_type2_overflow:
  assumes bo: "byteorder_reads cursor_read bo" and ct: "chunk_type_conversion ct"
    and csid: "2 \<le> csid" "unat csid < 65600"
    and prev: "hm_get (previous_chunk_headers r) csid = Some p"
    and d: "unat (d :: u32) < 0xFFFFFF" and over: "2 ^ 32 \<le> unat (timestamp p) + unat d"
  shows "read_chunk ct bo r (basic_bytes Type2 csid @ be_bytes 3 d @ rest) =
    Some (Inl (RtmpPanic ''add overflow''), r, basic_bytes Type2 csid @ be_bytes 3 d @ rest)"
proof (rule read_chunk_headers_panic [OF bo ct csid _ refl])
  let ?buf = "basic_bytes Type2 csid @ be_bytes 3 d @ rest"
  fix c
  assume c: "cur_data c = ?buf" "cur_pos c \<le> length ?buf" "cursor_rest c = be_bytes 3 d @ rest"
  have "unat d < 2 ^ 24" "d \<noteq> 0xFFFFFF" using d by auto
  obtain c' where "need (bo_u24 bo) c = (Inr d, c')"
    by (rule at.sdecE [OF at.sdec_need_bo(2) [OF bo \<open>unat d < 2 ^ 24\<close>, of ?buf] _ c(3)]) (use c in auto)
  with \<open>d \<noteq> 0xFFFFFF\<close> prev over
  show "fst (read_message_header r bo \<lparr>chunk_format = Type2, chunk_stream_id = csid\<rparr> c) =
      Inl (Some (RtmpPanic ''add overflow''))"
    by (simp add: read_message_header_def read_extended_def previous_header_def checked_add_def
        bnd_def run_simps map_err_def not_less)
qed

theorem read_chunk_type2_overflow_witness:
  "fst (the (read_chunk chunk_type_from_u8 (be_reads cursor_read)
     (chunk_reader_default\<lparr>previous_chunk_headers := [(3, message_header (chunk_new 3 0xFFFFFFFF 9 1 []))]\<rparr>)
     (basic_bytes Type2 3 @ be_bytes 3 (1 :: u32) @ []))) = Inl (RtmpPanic ''add overflow'')"
  by (subst read_chunk_type2_overflow [OF byteorder_reads_be_reads chunk_type_conversion_from_u8,
      where p = "message_header (chunk_new 3 0xFFFFFFFF 9 1 [])"])
    (simp_all add: chunk_new_def chunk_reader_default_def word_le_nat_alt)

text \<open>
  A full header for a stream with a partial message that is already longer than the new
  message length makes the reader panic on the subtraction.
\<close>

theorem read_chunk_shorter_length:
  assumes bo: "byteorder_reads cursor_read bo" and ct: "chunk_type_conversion ct"
    and csid: "2 \<le> csid" "unat csid < 65600"
    and part: "hm_get (partial_chunks r) (csid, msg_stream_id h) = Some p"
    and less: "unat (msg_length h) < length p" and small: "unat (msg_length h) \<le> MAX_PARTIAL_CHUNK_SIZE"
  shows "read_chunk ct bo r (basic_bytes Type0 csid @ message_bytes h @ rest) =
    Some (Inl (RtmpPanic ''sub overflow''), r, basic_bytes Type0 csid @ message_bytes h @ rest)"
proof -
  let ?buf = "basic_bytes Type0 csid @ message_bytes h @ rest"
  let ?h = "\<lparr>chunk_format = Type0, chunk_stream_id = csid\<rparr>"
  have "at.sdec ?buf (bnd (map_err (map_option rtmp_io) (read_header ct bo)) (\<lambda>h.
      bnd (read_message_header r bo h) (\<lambda>mh. ret (h, mh)))) (basic_bytes Type0 csid @ message_bytes h @ [])
      (?h, received h)"
    unfolding received_def
    by (intro at.sdec_bnd [OF decodes_map_err [OF at.sdec_read_header [OF bo ct csid]]]
        at.sdec_bnd [OF at.sdec_message_header0 [OF bo small]] at.sdec_ret)
  then obtain c where "bnd (map_err (map_option rtmp_io) (read_header ct bo)) (\<lambda>h.
      bnd (read_message_header r bo h) (\<lambda>mh. ret (h, mh))) (cursor_new ?buf) = (Inr (?h, received h), c)"
    by (rule at.sdecE [where s = "cursor_new ?buf" and rest = rest]) auto
  then have "fst (read_chunk_headers ct bo r (cursor_new ?buf)) = Inl (Some (RtmpPanic ''sub overflow''))"
    using part less
    by (auto simp: read_chunk_headers_def get_payload_range_def partial_len_def bnd_def run_simps
        split: prod.splits sum.splits)
  then show ?thesis
    by (cases "read_chunk_headers ct bo r (cursor_new ?buf)")
      (simp add: read_chunk.simps [of ct bo r ?buf] read_chunk_step_def)
qed

theorem read_chunk_shorter_length_witness:
  "fst (the (read_chunk chunk_type_from_u8 (be_reads cursor_read)
     (chunk_reader_default\<lparr>partial_chunks := [((3, 1), [7, 7])]\<rparr>)
     (basic_bytes Type0 3 @ message_bytes (message_header (chunk_new 3 0 9 1 [7])) @ []))) =
    Inl (RtmpPanic ''sub overflow'')"
  by (subst read_chunk_shorter_length [OF byteorder_reads_be_reads chunk_type_conversion_from_u8, where p = "[7, 7]"])
    (simp_all add: chunk_new_def chunk_reader_default_def word_le_nat_alt MAX_PARTIAL_CHUNK_SIZE_def)

end
