(* ===== verification/Rtmp_Handshake.thy ===== *)
theory Rtmp_Handshake
  imports Bytes_Cursor
begin

text \<open>
  \<open>crates/rtmp/src/handshake\<close>: the server side of the RTMP handshake. The complex handshake
  hides a digest in the random bytes of C1 and S1, in one of two places; when C1 has none the
  server falls back to the simple handshake, which echoes C1. The keyed hash
  (\<open>Hmac<Sha256>\<close>), the clock and the random numbers are parameters (\<open>hs_env\<close>).
\<close>

subsection \<open>Data\<close>

definition RTMP_HANDSHAKE_SIZE :: nat where "RTMP_HANDSHAKE_SIZE = 1536"
definition TIME_VERSION_LENGTH :: nat where "TIME_VERSION_LENGTH = 8"
definition CHUNK_LENGTH :: nat where "CHUNK_LENGTH = (RTMP_HANDSHAKE_SIZE - TIME_VERSION_LENGTH) div 2"
definition RTMP_SERVER_VERSION :: u32 where "RTMP_SERVER_VERSION = 0x04050001"
definition RTMP_DIGEST_LENGTH :: nat where "RTMP_DIGEST_LENGTH = 32"

lemmas handshake_sizes = RTMP_HANDSHAKE_SIZE_def TIME_VERSION_LENGTH_def CHUNK_LENGTH_def RTMP_DIGEST_LENGTH_def

definition RTMP_SERVER_KEY :: "u8 list" where
  "RTMP_SERVER_KEY = [
     0x47, 0x65, 0x6e, 0x75, 0x69, 0x6e, 0x65, 0x20, 0x41, 0x64, 0x6f, 0x62, 0x65, 0x20, 0x46, 0x6c, 0x61, 0x73, 0x68, 0x20,
     0x4d, 0x65, 0x64, 0x69, 0x61, 0x20, 0x53, 0x65, 0x72, 0x76, 0x65, 0x72, 0x20, 0x30, 0x30, 0x31, 0xf0, 0xee, 0xc2, 0x4a,
     0x80, 0x68, 0xbe, 0xe8, 0x2e, 0x00, 0xd0, 0xd1, 0x02, 0x9e, 0x7e, 0x57, 0x6e, 0xec, 0x5d, 0x2d, 0x29, 0x80, 0x6f, 0xab,
     0x93, 0xb8, 0xe6, 0x36, 0xcf, 0xeb, 0x31, 0xae]"

text \<open>The ASCII bytes of ''Genuine Adobe Flash Media Server 001'' and ''Genuine Adobe Flash Player 001''.\<close>

definition RTMP_SERVER_KEY_FIRST_HALF :: "u8 list" where
  "RTMP_SERVER_KEY_FIRST_HALF = map (of_nat \<circ> of_char) ''Genuine Adobe Flash Media Server 001''"

definition RTMP_CLIENT_KEY_FIRST_HALF :: "u8 list" where
  "RTMP_CLIENT_KEY_FIRST_HALF = map (of_nat \<circ> of_char) ''Genuine Adobe Flash Player 001''"

type_synonym rtmp_version = u8

definition Version3 :: rtmp_version where "Version3 = 3"

datatype server_handshake_state = ReadC0C1 | ReadC2 | Finish

datatype schema_version = Schema0 | Schema1

datatype complex_handshake_error = DigestLengthNotCorrect | CannotGenerate

text \<open>The variants of \<open>RtmpError\<close> the handshake produces.\<close>

datatype handshake_error = HsIo err | HsComplex complex_handshake_error

text \<open>
  What the handshake takes from outside: the keyed hash of a key and a message, the clock as
  it is read for S1 and S2, and the random bytes of either.
\<close>

record hs_env =
  hs_hmac :: "u8 list \<Rightarrow> u8 list \<Rightarrow> u8 list"
  hs_time1 :: u32
  hs_time2 :: u32
  hs_random1 :: "nat \<Rightarrow> u8"
  hs_random2 :: "nat \<Rightarrow> u8"

subsection \<open>The digest (complex/digest.rs)\<close>

record digest_result =
  digest_left :: "u8 list"
  digest_bytes :: "u8 list"
  digest_right :: "u8 list"

definition hs_res :: "err + 'a \<Rightarrow> handshake_error + 'a" where
  "hs_res r = (case r of Inl e \<Rightarrow> Inl (HsIo e) | Inr a \<Rightarrow> Inr a)"

text \<open>\<open>*data.get(i).unwrap() as usize\<close>\<close>

definition get_byte :: "u8 list \<Rightarrow> nat \<Rightarrow> err + nat" where
  "get_byte bs i = (if i < length bs then Inr (unat (bs ! i)) else Inl (Panic ''unwrap on None''))"

definition schema_offset :: "schema_version \<Rightarrow> nat" where
  "schema_offset v = (case v of Schema0 \<Rightarrow> CHUNK_LENGTH + TIME_VERSION_LENGTH | Schema1 \<Rightarrow> TIME_VERSION_LENGTH)"

definition find_digest_offset :: "u8 list \<Rightarrow> schema_version \<Rightarrow> handshake_error + nat" where
  "find_digest_offset bs v = hs_res (
     let off = schema_offset v in
     rbind (get_byte bs off) (\<lambda>a.
     rbind (get_byte bs (off + 1)) (\<lambda>b.
     rbind (get_byte bs (off + 2)) (\<lambda>c.
     rbind (get_byte bs (off + 3)) (\<lambda>d.
     Inr ((a + b + c + d) mod (CHUNK_LENGTH - RTMP_DIGEST_LENGTH - 4) + off + 4))))))"

definition split_message :: "u8 list \<Rightarrow> schema_version \<Rightarrow> handshake_error + u8 list \<times> u8 list \<times> u8 list" where
  "split_message bs v =
     rbind (find_digest_offset bs v) (\<lambda>off.
     rbind (hs_res (bytes_slice bs 0 off)) (\<lambda>left.
     rbind (hs_res (bytes_slice bs off (off + RTMP_DIGEST_LENGTH))) (\<lambda>digest.
     rbind (hs_res (bytes_slice bs (off + RTMP_DIGEST_LENGTH) (length bs))) (\<lambda>right.
     Inr (left, digest, right)))))"

definition make_digest :: "hs_env \<Rightarrow> u8 list \<Rightarrow> u8 list \<Rightarrow> u8 list \<Rightarrow> handshake_error + u8 list" where
  "make_digest env key left right =
     (let d = hs_hmac env key (left @ right) in
      if length d \<noteq> RTMP_DIGEST_LENGTH then Inl (HsComplex DigestLengthNotCorrect) else Inr d)"

definition generate_and_validate :: "hs_env \<Rightarrow> u8 list \<Rightarrow> u8 list \<Rightarrow> schema_version \<Rightarrow> handshake_error + u8 list" where
  "generate_and_validate env key bs v =
     rbind (split_message bs v) (\<lambda>(left, digest, right).
     rbind (make_digest env key left right) (\<lambda>d.
     if digest = d then Inr digest else Inl (HsComplex CannotGenerate)))"

text \<open>\<open>if let Ok(..)\<close>, which a panic goes through.\<close>

definition read_digest :: "hs_env \<Rightarrow> u8 list \<Rightarrow> u8 list \<Rightarrow> handshake_error + u8 list \<times> schema_version" where
  "read_digest env key bs =
     (case generate_and_validate env key bs Schema0 of
        Inr d \<Rightarrow> Inr (d, Schema0)
      | Inl (HsIo (Panic m)) \<Rightarrow> Inl (HsIo (Panic m))
      | Inl _ \<Rightarrow> rbind (generate_and_validate env key bs Schema1) (\<lambda>d. Inr (d, Schema1)))"

definition generate_and_fill_digest :: "hs_env \<Rightarrow> u8 list \<Rightarrow> u8 list \<Rightarrow> schema_version \<Rightarrow> handshake_error + digest_result" where
  "generate_and_fill_digest env key bs v =
     rbind (split_message bs v) (\<lambda>(left, _, right).
     rbind (make_digest env key left right) (\<lambda>d.
     Inr \<lparr>digest_left = left, digest_bytes = d, digest_right = right\<rparr>))"

definition digest_write_to :: "'w write_fn \<Rightarrow> digest_result \<Rightarrow> ('w, unit) io" where
  "digest_write_to wr r =
     bnd (write_all wr (digest_left r)) (\<lambda>_.
     bnd (write_all wr (digest_bytes r)) (\<lambda>_. write_all wr (digest_right r)))"

subsection \<open>The servers\<close>

text \<open>A handshake works on the server it is called on, the input and the output.\<close>

record 'v hs =
  hs_server :: 'v
  hs_in :: cursor
  hs_out :: "u8 list"

type_synonym ('v, 'a) hs_act = "('v hs, handshake_error, 'a) act"

definition hs_read :: "(cursor, 'a) io \<Rightarrow> ('v, 'a) hs_act" where
  "hs_read m h = (case m (hs_in h) of (r, c) \<Rightarrow> (hs_res r, h\<lparr>hs_in := c\<rparr>))"

definition hs_write :: "(u8 list, 'a) io \<Rightarrow> ('v, 'a) hs_act" where
  "hs_write m h = (case m (hs_out h) of (r, v) \<Rightarrow> (hs_res r, h\<lparr>hs_out := v\<rparr>))"

definition hs_get :: "('v hs \<Rightarrow> 'a) \<Rightarrow> ('v, 'a) hs_act" where
  "hs_get f h = (Inr (f h), h)"

definition hs_update :: "('v \<Rightarrow> 'v) \<Rightarrow> ('v, unit) hs_act" where
  "hs_update f h = (Inr (), h\<lparr>hs_server := f (hs_server h)\<rparr>)"

record simple_server =
  ss_version :: rtmp_version
  ss_requested_version :: rtmp_version
  ss_state :: server_handshake_state
  ss_c1_bytes :: "u8 list"
  ss_c1_timestamp :: u32

definition simple_server_default :: simple_server where
  "simple_server_default = \<lparr>ss_version = Version3, ss_requested_version = 0, ss_state = ReadC0C1,
     ss_c1_bytes = [], ss_c1_timestamp = 0\<rparr>"

definition simple_read_c0 :: "cursor byteorder \<Rightarrow> (simple_server, unit) hs_act" where
  "simple_read_c0 bo =
     bnd (hs_read (bo_u8 bo)) (\<lambda>v.
     hs_update (\<lambda>s. s\<lparr>ss_requested_version := v, ss_version := Version3\<rparr>))"

definition simple_read_c1 :: "cursor byteorder \<Rightarrow> (simple_server, unit) hs_act" where
  "simple_read_c1 bo =
     bnd (hs_read (bo_u32 bo)) (\<lambda>t.
     bnd (hs_update (\<lambda>s. s\<lparr>ss_c1_timestamp := t\<rparr>)) (\<lambda>_.
     bnd (hs_read (bo_u32 bo)) (\<lambda>_.
     bnd (hs_read (extract_bytes (RTMP_HANDSHAKE_SIZE - TIME_VERSION_LENGTH))) (\<lambda>bs.
     hs_update (\<lambda>s. s\<lparr>ss_c1_bytes := bs\<rparr>)))))"

definition read_c2 :: "('v, unit) hs_act" where
  "read_c2 = bnd (hs_read (cursor_seek (SeekCurrent (int RTMP_HANDSHAKE_SIZE)))) (\<lambda>_. ret ())"

definition write_random :: "u8 list byteorder_w \<Rightarrow> (nat \<Rightarrow> u8) \<Rightarrow> nat \<Rightarrow> (u8 list, unit) io" where
  "write_random bw rnd n = each_io (\<lambda>i. bw_u8 bw (rnd i)) [0..<n]"

definition simple_write_s0 :: "u8 list byteorder_w \<Rightarrow> (simple_server, unit) hs_act" where
  "simple_write_s0 bw = bnd (hs_get (ss_version \<circ> hs_server)) (\<lambda>v. hs_write (bw_u8 bw v))"

definition simple_write_s1 :: "hs_env \<Rightarrow> u8 list byteorder_w \<Rightarrow> (simple_server, unit) hs_act" where
  "simple_write_s1 env bw =
     hs_write (bnd (bw_u32 bw (hs_time1 env)) (\<lambda>_.
       bnd (bw_u32 bw 0) (\<lambda>_. write_random bw (hs_random1 env) 1528)))"

definition simple_write_s2 :: "hs_env \<Rightarrow> u8 list byteorder_w \<Rightarrow> (simple_server, unit) hs_act" where
  "simple_write_s2 env bw =
     bnd (hs_get hs_server) (\<lambda>s.
     hs_write (bnd (bw_u32 bw (ss_c1_timestamp s)) (\<lambda>_.
       bnd (bw_u32 bw (hs_time2 env)) (\<lambda>_. write_all vec_write (ss_c1_bytes s)))))"

definition simple_handshake :: "hs_env \<Rightarrow> cursor byteorder \<Rightarrow> u8 list byteorder_w \<Rightarrow> (simple_server, unit) hs_act" where
  "simple_handshake env bo bw =
     bnd (hs_get (ss_state \<circ> hs_server)) (\<lambda>state.
     case state of
       ReadC0C1 \<Rightarrow>
         bnd (simple_read_c0 bo) (\<lambda>_. bnd (simple_read_c1 bo) (\<lambda>_.
         bnd (simple_write_s0 bw) (\<lambda>_. bnd (simple_write_s1 env bw) (\<lambda>_. bnd (simple_write_s2 env bw) (\<lambda>_.
         hs_update (\<lambda>s. s\<lparr>ss_state := ReadC2\<rparr>))))))
     | ReadC2 \<Rightarrow> bnd read_c2 (\<lambda>_. hs_update (\<lambda>s. s\<lparr>ss_state := Finish\<rparr>))
     | Finish \<Rightarrow> ret ())"

record complex_server =
  cs_version :: rtmp_version
  cs_requested_version :: rtmp_version
  cs_state :: server_handshake_state
  cs_schema_version :: schema_version
  cs_c1_digest :: "u8 list"
  cs_c1_timestamp :: u32
  cs_c1_version :: u32

definition complex_server_default :: complex_server where
  "complex_server_default = \<lparr>cs_version = Version3, cs_requested_version = 0, cs_state = ReadC0C1,
     cs_schema_version = Schema0, cs_c1_digest = [], cs_c1_timestamp = 0, cs_c1_version = 0\<rparr>"

definition complex_read_c0 :: "cursor byteorder \<Rightarrow> (complex_server, unit) hs_act" where
  "complex_read_c0 bo =
     bnd (hs_read (bo_u8 bo)) (\<lambda>v.
     hs_update (\<lambda>s. s\<lparr>cs_requested_version := v, cs_version := Version3\<rparr>))"

text \<open>\<open>(&bytes[lo..hi]).read_u32()?\<close>\<close>

definition slice_u32 :: "cursor byteorder \<Rightarrow> u8 list \<Rightarrow> nat \<Rightarrow> nat \<Rightarrow> handshake_error + u32" where
  "slice_u32 bo bs lo hi =
     rbind (hs_res (bytes_slice bs lo hi)) (\<lambda>s. hs_res (fst (bo_u32 bo (cursor_new s))))"

definition complex_read_c1 :: "hs_env \<Rightarrow> cursor byteorder \<Rightarrow> (complex_server, unit) hs_act" where
  "complex_read_c1 env bo =
     bnd (hs_read (extract_bytes RTMP_HANDSHAKE_SIZE)) (\<lambda>c1.
     bnd (lift_res (slice_u32 bo c1 0 4)) (\<lambda>t.
     bnd (hs_update (\<lambda>s. s\<lparr>cs_c1_timestamp := t\<rparr>)) (\<lambda>_.
     bnd (lift_res (slice_u32 bo c1 4 8)) (\<lambda>v.
     bnd (hs_update (\<lambda>s. s\<lparr>cs_c1_version := v\<rparr>)) (\<lambda>_.
     bnd (lift_res (read_digest env RTMP_CLIENT_KEY_FIRST_HALF c1)) (\<lambda>(digest, schema).
     hs_update (\<lambda>s. s\<lparr>cs_c1_digest := digest, cs_schema_version := schema\<rparr>)))))))"

definition complex_write_s0 :: "u8 list byteorder_w \<Rightarrow> (complex_server, unit) hs_act" where
  "complex_write_s0 bw = bnd (hs_get (cs_version \<circ> hs_server)) (\<lambda>v. hs_write (bw_u8 bw v))"

text \<open>S1 is put together in a buffer of its own before its digest is filled in.\<close>

definition s1_buffer :: "hs_env \<Rightarrow> u8 list byteorder_w \<Rightarrow> (u8 list, unit) io" where
  "s1_buffer env bw =
     bnd (bw_u32 bw (hs_time1 env)) (\<lambda>_.
     bnd (bw_u32 bw RTMP_SERVER_VERSION) (\<lambda>_.
     write_random bw (hs_random1 env) (RTMP_HANDSHAKE_SIZE - TIME_VERSION_LENGTH)))"

definition complex_write_s1 :: "hs_env \<Rightarrow> u8 list byteorder_w \<Rightarrow> (complex_server, unit) hs_act" where
  "complex_write_s1 env bw =
     bnd (hs_get (cs_schema_version \<circ> hs_server)) (\<lambda>schema.
     case s1_buffer env bw [] of
       (Inl e, _) \<Rightarrow> fail (HsIo e)
     | (Inr _, buf) \<Rightarrow>
         bnd (lift_res (generate_and_fill_digest env RTMP_SERVER_KEY_FIRST_HALF buf schema)) (\<lambda>r.
         hs_write (digest_write_to vec_write r)))"

definition complex_write_s2 :: "hs_env \<Rightarrow> u8 list byteorder_w \<Rightarrow> (complex_server, unit) hs_act" where
  "complex_write_s2 env bw =
     bnd (hs_get (length \<circ> hs_out)) (\<lambda>start.
     bnd (hs_get hs_server) (\<lambda>s.
     bnd (hs_write (bw_u32 bw (hs_time2 env))) (\<lambda>_.
     bnd (hs_write (bw_u32 bw (cs_c1_timestamp s))) (\<lambda>_.
     bnd (hs_write (write_random bw (hs_random2 env) (RTMP_HANDSHAKE_SIZE - RTMP_DIGEST_LENGTH - TIME_VERSION_LENGTH))) (\<lambda>_.
     bnd (lift_res (make_digest env RTMP_SERVER_KEY (cs_c1_digest s) [])) (\<lambda>key.
     bnd (hs_get hs_out) (\<lambda>out.
     bnd (lift_res (hs_res (bytes_slice out start (start + RTMP_HANDSHAKE_SIZE - RTMP_DIGEST_LENGTH)))) (\<lambda>data.
     bnd (lift_res (make_digest env key data [])) (\<lambda>digest.
     hs_write (write_all vec_write digest))))))))))"

definition complex_handshake :: "hs_env \<Rightarrow> cursor byteorder \<Rightarrow> u8 list byteorder_w \<Rightarrow> (complex_server, unit) hs_act" where
  "complex_handshake env bo bw =
     bnd (hs_get (cs_state \<circ> hs_server)) (\<lambda>state.
     case state of
       ReadC0C1 \<Rightarrow>
         bnd (complex_read_c0 bo) (\<lambda>_. bnd (complex_read_c1 env bo) (\<lambda>_.
         bnd (complex_write_s0 bw) (\<lambda>_. bnd (complex_write_s1 env bw) (\<lambda>_. bnd (complex_write_s2 env bw) (\<lambda>_.
         hs_update (\<lambda>s. s\<lparr>cs_state := ReadC2\<rparr>))))))
     | ReadC2 \<Rightarrow> bnd read_c2 (\<lambda>_. hs_update (\<lambda>s. s\<lparr>cs_state := Finish\<rparr>))
     | Finish \<Rightarrow> ret ())"

datatype handshake_server = SimpleServer simple_server | ComplexServer complex_server

definition handshake_server_default :: handshake_server where
  "handshake_server_default = ComplexServer complex_server_default"

fun handshake_finished :: "handshake_server \<Rightarrow> bool" where
  "handshake_finished (SimpleServer s) \<longleftrightarrow> ss_state s = Finish"
| "handshake_finished (ComplexServer s) \<longleftrightarrow> cs_state s = Finish"

text \<open>
  A complex handshake that fails is done again as a simple one, from where the input was;
  what it has written stays. An error of the simple one leaves the server as it is.
\<close>

definition handshake :: "hs_env \<Rightarrow> cursor byteorder \<Rightarrow> u8 list byteorder_w \<Rightarrow> handshake_server \<Rightarrow> cursor \<Rightarrow> u8 list \<Rightarrow>
    (handshake_error + unit) \<times> handshake_server \<times> cursor \<times> u8 list" where
  "handshake env bo bw server inp out =
     (case server of
        ComplexServer s \<Rightarrow>
          (case complex_handshake env bo bw \<lparr>hs_server = s, hs_in = inp, hs_out = out\<rparr> of
             (Inr _, h) \<Rightarrow> (Inr (), ComplexServer (hs_server h), hs_in h, hs_out h)
           | (Inl (HsIo (Panic m)), h) \<Rightarrow> (Inl (HsIo (Panic m)), ComplexServer (hs_server h), hs_in h, hs_out h)
           | (Inl _, h) \<Rightarrow>
               (case simple_handshake env bo bw
                   \<lparr>hs_server = simple_server_default, hs_in = (hs_in h)\<lparr>cur_pos := cur_pos inp\<rparr>, hs_out = hs_out h\<rparr> of
                  (Inr _, h') \<Rightarrow> (Inr (), SimpleServer (hs_server h'), hs_in h', hs_out h')
                | (Inl e, h') \<Rightarrow> (Inl e, ComplexServer (hs_server h), hs_in h', hs_out h')))
      | SimpleServer s \<Rightarrow>
          (case simple_handshake env bo bw \<lparr>hs_server = s, hs_in = inp, hs_out = out\<rparr> of
             (r, h) \<Rightarrow> (r, SimpleServer (hs_server h), hs_in h, hs_out h)))"

subsection \<open>The digest of a message of the right length\<close>

definition digest_offset :: "u8 list \<Rightarrow> schema_version \<Rightarrow> nat" where
  "digest_offset bs v = (let off = schema_offset v in
     (unat (bs ! off) + unat (bs ! (off + 1)) + unat (bs ! (off + 2)) + unat (bs ! (off + 3))) mod 728 + off + 4)"

definition digest_message :: "u8 list \<Rightarrow> schema_version \<Rightarrow> u8 list" where
  "digest_message bs v = take (digest_offset bs v) bs @ drop (digest_offset bs v + 32) bs"

text \<open>The 32 bytes at the offset are the hash of the others.\<close>

definition digest_valid :: "hs_env \<Rightarrow> u8 list \<Rightarrow> schema_version \<Rightarrow> u8 list \<Rightarrow> bool" where
  "digest_valid env key v bs \<longleftrightarrow> take 32 (drop (digest_offset bs v) bs) = hs_hmac env key (digest_message bs v)"

definition fill_digest :: "hs_env \<Rightarrow> u8 list \<Rightarrow> schema_version \<Rightarrow> u8 list \<Rightarrow> u8 list" where
  "fill_digest env key v bs = take (digest_offset bs v) bs @ hs_hmac env key (digest_message bs v) @
     drop (digest_offset bs v + 32) bs"

lemma hs_res_simps [simp]: "hs_res (Inr a) = Inr a" "hs_res (Inl e) = Inl (HsIo e)"
  by (simp_all add: hs_res_def)

lemma digest_offset_bounds: "schema_offset v + 4 \<le> digest_offset bs v" "digest_offset bs v + 32 \<le> schema_offset v + 763"
  and schema_offset_bound: "schema_offset v + 763 < 1536"
proof -
  have "x mod 728 + 36 \<le> 763" for x :: nat
    using mod_less_divisor [of 728 x] by simp
  then show "digest_offset bs v + 32 \<le> schema_offset v + 763"
    unfolding digest_offset_def Let_def by (simp add: algebra_simps)
  show "schema_offset v + 4 \<le> digest_offset bs v" by (simp add: digest_offset_def Let_def)
  show "schema_offset v + 763 < 1536" by (cases v) (simp_all add: schema_offset_def handshake_sizes)
qed

lemma split_message_run:
  assumes "length bs = 1536"
  shows "split_message bs v = Inr (take (digest_offset bs v) bs, take 32 (drop (digest_offset bs v) bs), drop (digest_offset bs v + 32) bs)"
proof -
  have "schema_offset v + 4 < length bs" and off: "digest_offset bs v + 32 \<le> length bs"
    using digest_offset_bounds(2) [where v = v and bs = bs] schema_offset_bound [of v] assms by simp_all
  then have "find_digest_offset bs v = Inr (digest_offset bs v)"
    by (simp add: find_digest_offset_def digest_offset_def get_byte_def Let_def handshake_sizes ac_simps)
  with off show ?thesis
    by (simp add: split_message_def bytes_slice_def RTMP_DIGEST_LENGTH_def)
qed

lemma make_digest_run: "length (hs_hmac env key (l @ r)) = 32 \<Longrightarrow> make_digest env key l r = Inr (hs_hmac env key (l @ r))"
  by (simp add: make_digest_def RTMP_DIGEST_LENGTH_def)

lemma generate_and_validate_run:
  assumes "length bs = 1536" and "\<forall>k m. length (hs_hmac env k m) = 32"
  shows "generate_and_validate env key bs v =
    (if digest_valid env key v bs then Inr (hs_hmac env key (digest_message bs v)) else Inl (HsComplex CannotGenerate))"
  using assms by (simp add: generate_and_validate_def split_message_run make_digest_run digest_valid_def digest_message_def)

text \<open>Filling in the digest does not move it, so the message is valid after it.\<close>

lemma fill_digest:
  assumes "length bs = 1536" and "\<forall>k m. length (hs_hmac env k m) = 32"
  shows "length (fill_digest env key v bs) = 1536" and "digest_valid env key v (fill_digest env key v bs)"
    and "digest_message (fill_digest env key v bs) v = digest_message bs v"
proof -
  let ?off = "digest_offset bs v" and ?f = "fill_digest env key v bs"
  have off: "schema_offset v + 4 \<le> ?off" "?off + 32 \<le> length bs"
    using digest_offset_bounds [where v = v and bs = bs] schema_offset_bound [of v] assms(1) by simp_all
  then show "length ?f = 1536" using assms by (simp add: fill_digest_def)
  have "?f ! i = bs ! i" if "i < ?off" for i
    using that off by (simp add: fill_digest_def nth_append)
  then have same: "digest_offset ?f v = ?off"
    using off(1) by (simp add: digest_offset_def [of ?f] digest_offset_def [of bs] Let_def)
  show "digest_message ?f v = digest_message bs v"
    using off assms by (simp add: digest_message_def same) (simp add: fill_digest_def digest_message_def)
  with off assms show "digest_valid env key v ?f"
    by (simp add: digest_valid_def same) (simp add: fill_digest_def)
qed

lemma generate_and_fill_digest_run:
  assumes "length bs = 1536" and "\<forall>k m. length (hs_hmac env k m) = 32"
  shows "\<exists>r. generate_and_fill_digest env key bs v = Inr r \<and>
    digest_left r @ digest_bytes r @ digest_right r = fill_digest env key v bs"
  using assms
  by (simp add: generate_and_fill_digest_def split_message_run make_digest_run fill_digest_def digest_message_def)

subsection \<open>What the servers send\<close>

definition c1_schema :: "hs_env \<Rightarrow> u8 list \<Rightarrow> schema_version option" where
  "c1_schema env c1 = (if digest_valid env RTMP_CLIENT_KEY_FIRST_HALF Schema0 c1 then Some Schema0
     else if digest_valid env RTMP_CLIENT_KEY_FIRST_HALF Schema1 c1 then Some Schema1 else None)"

definition random_bytes :: "(nat \<Rightarrow> u8) \<Rightarrow> nat \<Rightarrow> u8 list" where
  "random_bytes rnd n = map rnd [0..<n]"

definition be_word :: "u8 list \<Rightarrow> u32" where
  "be_word bs = of_bits (byte_bits bs)"

definition simple_response :: "hs_env \<Rightarrow> u8 list \<Rightarrow> u8 list" where
  "simple_response env c1 = Version3 #
     be_bytes 4 (hs_time1 env) @ be_bytes 4 (0 :: u32) @ random_bytes (hs_random1 env) 1528 @
     be_bytes 4 (be_word (take 4 c1)) @ be_bytes 4 (hs_time2 env) @ drop 8 c1"

definition complex_s1 :: "hs_env \<Rightarrow> schema_version \<Rightarrow> u8 list" where
  "complex_s1 env v = fill_digest env RTMP_SERVER_KEY_FIRST_HALF v
     (be_bytes 4 (hs_time1 env) @ be_bytes 4 RTMP_SERVER_VERSION @ random_bytes (hs_random1 env) 1528)"

definition complex_s2 :: "hs_env \<Rightarrow> schema_version \<Rightarrow> u8 list \<Rightarrow> u8 list" where
  "complex_s2 env v c1 =
     (let body = be_bytes 4 (hs_time2 env) @ be_bytes 4 (be_word (take 4 c1)) @ random_bytes (hs_random2 env) 1496;
          key = hs_hmac env RTMP_SERVER_KEY (hs_hmac env RTMP_CLIENT_KEY_FIRST_HALF (digest_message c1 v))
      in body @ hs_hmac env key body)"

definition handshake_response :: "hs_env \<Rightarrow> u8 list \<Rightarrow> u8 list" where
  "handshake_response env c1 = (case c1_schema env c1 of
       Some v \<Rightarrow> Version3 # complex_s1 env v @ complex_s2 env v c1
     | None \<Rightarrow> simple_response env c1)"

fun awaits_c2 :: "handshake_server \<Rightarrow> bool" where
  "awaits_c2 (SimpleServer s) \<longleftrightarrow> ss_state s = ReadC2"
| "awaits_c2 (ComplexServer s) \<longleftrightarrow> cs_state s = ReadC2"

lemma length_random_bytes [simp]: "length (random_bytes rnd n) = n"
  by (simp add: random_bytes_def)

text \<open>Reading and writing through the state of the handshake.\<close>

lemma hs_runs [run_simps]:
  "hs_get f h = (Inr (f h), h)" "hs_update g h = (Inr (), h\<lparr>hs_server := g (hs_server h)\<rparr>)"
  by (simp_all add: hs_get_def hs_update_def)

lemma hs_read_run: "m (hs_in h) = (Inr a, c) \<Longrightarrow> hs_read m h = (Inr a, h\<lparr>hs_in := c\<rparr>)"
  by (simp add: hs_read_def)

lemma hs_write_run: "puts (@) (\<lambda>_. True) m bs \<Longrightarrow> hs_write m h = (Inr (), h\<lparr>hs_out := hs_out h @ bs\<rparr>)"
  by (simp add: hs_write_def puts_def)

lemma bo_cursor:
  assumes "byteorder_reads cursor_read bo"
  shows "cursor_rest c = b # bs \<Longrightarrow> bo_u8 bo c = (Inr b, c\<lparr>cur_pos := cur_pos c + 1\<rparr>)"
    and "4 \<le> remaining c \<Longrightarrow> bo_u32 bo c = (Inr (be_word (take 4 (cursor_rest c))), c\<lparr>cur_pos := cur_pos c + 4\<rparr>)"
proof -
  assume "cursor_rest c = b # bs"
  moreover from this have "1 \<le> remaining c" by (metis length_cursor_rest length_Cons le_add2 Suc_eq_plus1)
  ultimately show "bo_u8 bo c = (Inr b, c\<lparr>cur_pos := cur_pos c + 1\<rparr>)"
    using assms by (simp add: byteorder_reads_def be_read_def read_exact_cursor_ok run_simps of_bits_8_bits_of byte_bits_Cons take_bit_length_eq [of b, simplified])
next
  assume "4 \<le> remaining c"
  then show "bo_u32 bo c = (Inr (be_word (take 4 (cursor_rest c))), c\<lparr>cur_pos := cur_pos c + 4\<rparr>)"
    using assms by (simp add: byteorder_reads_def be_read_def read_exact_cursor_ok run_simps be_word_def)
qed

lemma puts_write_random:
  assumes "byteorder_writes vec_write bw"
  shows "puts (@) (\<lambda>_. True) (write_random bw rnd n) (random_bytes rnd n)"
proof -
  have "puts (@) (\<lambda>_. True) (each_io (\<lambda>i. bw_u8 bw (rnd i)) is) (map rnd is)" for "is"
  proof (induction "is")
    case (Cons i "is")
    then show ?case by (simp add: vec.puts_bnd_Cons [OF vec.puts_bo(1) [OF assms]])
  qed (simp add: vec.puts_ret)
  then show ?thesis by (simp add: write_random_def random_bytes_def)
qed

text \<open>The simple handshake.\<close>

lemma simple_handshake_run:
  assumes bo: "byteorder_reads cursor_read bo" and bw: "byteorder_writes vec_write bw"
    and c1: "length c1 = 1536" and c: "cursor_rest c = version # c1 @ rest"
  shows "\<exists>s. simple_handshake env bo bw \<lparr>hs_server = simple_server_default, hs_in = c, hs_out = out\<rparr> =
      (Inr (), \<lparr>hs_server = s, hs_in = c\<lparr>cur_pos := cur_pos c + 1537\<rparr>, hs_out = out @ simple_response env c1\<rparr>) \<and>
    ss_state s = ReadC2"
proof -
  let ?c1 = "c\<lparr>cur_pos := cur_pos c + 1\<rparr>" and ?c5 = "c\<lparr>cur_pos := cur_pos c + 5\<rparr>" and ?c9 = "c\<lparr>cur_pos := cur_pos c + 9\<rparr>"
  have r1: "cursor_rest ?c1 = c1 @ rest" and r5: "cursor_rest ?c5 = drop 4 c1 @ rest" and r9: "cursor_rest ?c9 = drop 8 c1 @ rest"
    using c c1 cursor_rest_advance [of c 1] cursor_rest_advance [of c 5] cursor_rest_advance [of c 9] by simp_all
  have rem: "remaining ?c1 = 1536 + length rest" "remaining ?c5 = 1532 + length rest" "remaining ?c9 = 1528 + length rest"
    using arg_cong [OF r1, of length] arg_cong [OF r5, of length] arg_cong [OF r9, of length] c1 by simp_all
  have "4 \<le> remaining ?c1" "4 \<le> remaining ?c5" "1528 \<le> remaining ?c9" using rem by linarith+
  note raw = bo_cursor(1) [OF bo c] bo_cursor(2) [OF bo this(1), unfolded r1] bo_cursor(2) [OF bo this(2), unfolded r5]
    extract_bytes_run [of 1528 ?c9, unfolded r9, unfolded if_P [OF this(3)]]
  have reads: "bo_u8 bo c = (Inr version, ?c1)" "bo_u32 bo ?c1 = (Inr (be_word (take 4 c1)), ?c5)"
    "bo_u32 bo ?c5 = (Inr (be_word (take 4 (drop 4 c1))), ?c9)"
    "extract_bytes 1528 ?c9 = (Inr (drop 8 c1), c\<lparr>cur_pos := cur_pos c + 1537\<rparr>)"
    unfolding raw using c1 by simp_all
  have s1: "puts (@) (\<lambda>_. True) (bnd (bw_u32 bw (hs_time1 env)) (\<lambda>_. bnd (bw_u32 bw 0) (\<lambda>_. write_random bw (hs_random1 env) 1528)))
      (be_bytes 4 (hs_time1 env) @ be_bytes 4 (0 :: u32) @ random_bytes (hs_random1 env) 1528)"
    by (intro vec.puts_bnd vec.puts_bo(4) [OF bw] puts_write_random [OF bw])
  have s2: "puts (@) (\<lambda>_. True) (bnd (bw_u32 bw t) (\<lambda>_. bnd (bw_u32 bw (hs_time2 env)) (\<lambda>_. write_all vec_write bs)))
      (be_bytes 4 t @ be_bytes 4 (hs_time2 env) @ bs)" for t :: u32 and bs
    by (intro vec.puts_bnd vec.puts_bo(4) [OF bw] vec.puts_write_all)
  show ?thesis
    unfolding simple_handshake_def simple_server_default_def
    by (simp add: run_simps simple_read_c0_def simple_read_c1_def simple_write_s0_def simple_write_s1_def simple_write_s2_def
        hs_read_run reads [simplified] handshake_sizes
        hs_write_run [OF vec.puts_bo(1) [OF bw]] hs_write_run [OF s1] hs_write_run [OF s2] simple_response_def)
qed

text \<open>The complex handshake: it answers a client it recognises, and otherwise writes nothing.\<close>

lemma read_digest_run:
  assumes "length c1 = 1536" and "\<forall>k m. length (hs_hmac env k m) = 32"
  shows "read_digest env RTMP_CLIENT_KEY_FIRST_HALF c1 = (case c1_schema env c1 of
      None \<Rightarrow> Inl (HsComplex CannotGenerate)
    | Some v \<Rightarrow> Inr (hs_hmac env RTMP_CLIENT_KEY_FIRST_HALF (digest_message c1 v), v))"
  by (simp add: read_digest_def c1_schema_def generate_and_validate_run [OF assms])

lemma slice_u32_run:
  assumes "byteorder_reads cursor_read bo" and "lo + 4 \<le> length bs"
  shows "slice_u32 bo bs lo (lo + 4) = Inr (be_word (take 4 (drop lo bs)))"
proof -
  let ?s = "take 4 (drop lo bs)"
  have "4 \<le> remaining (cursor_new ?s)" using assms(2) by (simp add: remaining_def cursor_new_def)
  from bo_cursor(2) [OF assms(1) this] show ?thesis
    using assms(2) by (simp add: slice_u32_def bytes_slice_def)
qed

definition complex_greeted :: "rtmp_version \<Rightarrow> u8 list \<Rightarrow> complex_server" where
  "complex_greeted version c1 = complex_server_default\<lparr>cs_requested_version := version,
     cs_c1_timestamp := be_word (take 4 c1), cs_c1_version := be_word (take 4 (drop 4 c1))\<rparr>"

lemma complex_read_run:
  assumes bo: "byteorder_reads cursor_read bo" and hmac: "\<forall>k m. length (hs_hmac env k m) = 32"
    and c1: "length c1 = 1536" and c: "cursor_rest c = version # c1 @ rest"
  shows "bnd (complex_read_c0 bo) (\<lambda>_. complex_read_c1 env bo) \<lparr>hs_server = complex_server_default, hs_in = c, hs_out = out\<rparr> =
    (case c1_schema env c1 of
       None \<Rightarrow> (Inl (HsComplex CannotGenerate), \<lparr>hs_server = complex_greeted version c1,
         hs_in = c\<lparr>cur_pos := cur_pos c + 1537\<rparr>, hs_out = out\<rparr>)
     | Some v \<Rightarrow> (Inr (), \<lparr>hs_server = (complex_greeted version c1)\<lparr>cs_schema_version := v,
           cs_c1_digest := hs_hmac env RTMP_CLIENT_KEY_FIRST_HALF (digest_message c1 v)\<rparr>,
         hs_in = c\<lparr>cur_pos := cur_pos c + 1537\<rparr>, hs_out = out\<rparr>))"
proof -
  let ?c1 = "c\<lparr>cur_pos := cur_pos c + 1\<rparr>"
  have r1: "cursor_rest ?c1 = c1 @ rest" using c cursor_rest_advance [of c 1] by simp
  have "1536 \<le> remaining ?c1" using arg_cong [OF r1, of length] c1 by (simp only: length_cursor_rest length_append)
  note raw = bo_cursor(1) [OF bo c] extract_bytes_run [of 1536 ?c1, unfolded r1, unfolded if_P [OF this]]
  have reads: "bo_u8 bo c = (Inr version, ?c1)" "extract_bytes 1536 ?c1 = (Inr c1, c\<lparr>cur_pos := cur_pos c + 1537\<rparr>)"
    unfolding raw using c1 by simp_all
  have slices: "slice_u32 bo c1 0 4 = Inr (be_word (take 4 c1))" "slice_u32 bo c1 4 8 = Inr (be_word (take 4 (drop 4 c1)))"
    using slice_u32_run [OF bo, of 0 c1] slice_u32_run [OF bo, of 4 c1] c1 by simp_all
  show ?thesis
    unfolding complex_server_default_def complex_greeted_def
    by (cases "c1_schema env c1")
      (simp_all add: run_simps complex_read_c0_def complex_read_c1_def hs_read_run reads [simplified] RTMP_HANDSHAKE_SIZE_def
        slices read_digest_run [OF c1 hmac])
qed

lemma s1_buffer_run:
  assumes bw: "byteorder_writes vec_write bw"
  shows "s1_buffer env bw [] = (Inr (), be_bytes 4 (hs_time1 env) @ be_bytes 4 RTMP_SERVER_VERSION @ random_bytes (hs_random1 env) 1528)"
proof -
  have "puts (@) (\<lambda>_. True) (s1_buffer env bw)
      (be_bytes 4 (hs_time1 env) @ be_bytes 4 RTMP_SERVER_VERSION @ random_bytes (hs_random1 env) (RTMP_HANDSHAKE_SIZE - TIME_VERSION_LENGTH))"
    unfolding s1_buffer_def by (intro vec.puts_bnd vec.puts_bo(4) [OF bw] puts_write_random [OF bw])
  then show ?thesis by (simp add: puts_def handshake_sizes)
qed

lemma complex_write_s1_run:
  assumes bw: "byteorder_writes vec_write bw" and hmac: "\<forall>k m. length (hs_hmac env k m) = 32"
  shows "complex_write_s1 env bw h = (Inr (), h\<lparr>hs_out := hs_out h @ complex_s1 env (cs_schema_version (hs_server h))\<rparr>)"
proof -
  let ?buf = "be_bytes 4 (hs_time1 env) @ be_bytes 4 RTMP_SERVER_VERSION @ random_bytes (hs_random1 env) 1528"
  have "length ?buf = 1536" by simp
  from generate_and_fill_digest_run [OF this hmac] obtain r where
    r: "generate_and_fill_digest env RTMP_SERVER_KEY_FIRST_HALF ?buf (cs_schema_version (hs_server h)) = Inr r"
    and bytes: "digest_left r @ digest_bytes r @ digest_right r = complex_s1 env (cs_schema_version (hs_server h))"
    unfolding complex_s1_def by blast
  have "puts (@) (\<lambda>_. True) (digest_write_to vec_write r) (digest_left r @ digest_bytes r @ digest_right r)"
    unfolding digest_write_to_def by (intro vec.puts_bnd vec.puts_write_all)
  from hs_write_run [OF this [unfolded bytes]] show ?thesis
    by (simp add: complex_write_s1_def run_simps s1_buffer_run [OF bw] r)
qed

lemma complex_write_s2_run:
  assumes bw: "byteorder_writes vec_write bw" and hmac: "\<forall>k m. length (hs_hmac env k m) = 32"
    and s: "cs_c1_timestamp (hs_server h) = be_word (take 4 c1)"
    "cs_c1_digest (hs_server h) = hs_hmac env RTMP_CLIENT_KEY_FIRST_HALF (digest_message c1 v)"
  shows "complex_write_s2 env bw h = (Inr (), h\<lparr>hs_out := hs_out h @ complex_s2 env v c1\<rparr>)"
proof -
  let ?body = "be_bytes 4 (hs_time2 env) @ be_bytes 4 (be_word (take 4 c1)) @ random_bytes (hs_random2 env) 1496"
  have slice: "bytes_slice (hs_out h @ ?body) (length (hs_out h)) (length (hs_out h) + 1536 - 32) = Inr ?body"
    by (simp add: bytes_slice_def)
  note key = make_digest_run [of env RTMP_SERVER_KEY _ "[]", OF hmac [rule_format]]
  note writes = hs_write_run [OF vec.puts_bo(4) [OF bw]] hs_write_run [OF puts_write_random [OF bw]] hs_write_run [OF vec.puts_write_all]
  show ?thesis
    using slice
    by (simp add: complex_write_s2_def run_simps writes s handshake_sizes make_digest_run hmac complex_s2_def Let_def)
qed

lemma complex_handshake_run:
  assumes bo: "byteorder_reads cursor_read bo" and bw: "byteorder_writes vec_write bw"
    and hmac: "\<forall>k m. length (hs_hmac env k m) = 32"
    and c1: "length c1 = 1536" and c: "cursor_rest c = version # c1 @ rest" and v: "c1_schema env c1 = Some v"
  shows "\<exists>s. complex_handshake env bo bw \<lparr>hs_server = complex_server_default, hs_in = c, hs_out = out\<rparr> =
      (Inr (), \<lparr>hs_server = s, hs_in = c\<lparr>cur_pos := cur_pos c + 1537\<rparr>,
        hs_out = out @ Version3 # complex_s1 env v @ complex_s2 env v c1\<rparr>) \<and>
    cs_state s = ReadC2"
proof -
  let ?h = "\<lparr>hs_server = (complex_greeted version c1)\<lparr>cs_schema_version := v,
        cs_c1_digest := hs_hmac env RTMP_CLIENT_KEY_FIRST_HALF (digest_message c1 v)\<rparr>,
      hs_in = c\<lparr>cur_pos := cur_pos c + 1537\<rparr>, hs_out = out\<rparr>"
  have read: "bnd (complex_read_c0 bo) (\<lambda>_. bnd (complex_read_c1 env bo) f) \<lparr>hs_server = complex_server_default, hs_in = c, hs_out = out\<rparr> =
      f () ?h" for f :: "unit \<Rightarrow> (complex_server, unit) hs_act"
    using complex_read_run [OF bo hmac c1 c] v by (subst bnd_assoc [symmetric]) (simp add: bnd_def)
  have "cs_version (complex_greeted version c1) = Version3" "cs_state complex_server_default = ReadC0C1"
    "cs_c1_timestamp (complex_greeted version c1) = be_word (take 4 c1)"
    by (simp_all add: complex_greeted_def complex_server_default_def)
  then show ?thesis
    by (simp add: complex_handshake_def run_simps read complex_write_s0_def hs_write_run [OF vec.puts_bo(1) [OF bw]]
        complex_write_s1_run [OF bw hmac] complex_write_s2_run [OF bw hmac, where v = v and ?c1.0 = c1])
qed

lemma complex_handshake_refused:
  assumes bo: "byteorder_reads cursor_read bo" and hmac: "\<forall>k m. length (hs_hmac env k m) = 32"
    and c1: "length c1 = 1536" and c: "cursor_rest c = version # c1 @ rest" and v: "c1_schema env c1 = None"
  shows "complex_handshake env bo bw \<lparr>hs_server = complex_server_default, hs_in = c, hs_out = out\<rparr> =
      (Inl (HsComplex CannotGenerate), \<lparr>hs_server = complex_greeted version c1, hs_in = c\<lparr>cur_pos := cur_pos c + 1537\<rparr>, hs_out = out\<rparr>)"
proof -
  have "bnd (complex_read_c0 bo) (\<lambda>_. bnd (complex_read_c1 env bo) f) \<lparr>hs_server = complex_server_default, hs_in = c, hs_out = out\<rparr> =
      (Inl (HsComplex CannotGenerate), \<lparr>hs_server = complex_greeted version c1, hs_in = c\<lparr>cur_pos := cur_pos c + 1537\<rparr>, hs_out = out\<rparr>)"
    for f :: "unit \<Rightarrow> (complex_server, unit) hs_act"
    using complex_read_run [OF bo hmac c1 c] v by (subst bnd_assoc [symmetric]) (simp add: bnd_def)
  then show ?thesis by (simp add: complex_handshake_def run_simps complex_server_default_def)
qed

lemma handshake_first:
  assumes "byteorder_reads cursor_read bo" and "byteorder_writes vec_write bw"
    and "\<forall>k m. length (hs_hmac env k m) = 32"
    and "length c1 = 1536" and "cursor_rest c = version # c1 @ rest"
  shows "\<exists>server. handshake env bo bw handshake_server_default c out =
      (Inr (), server, c\<lparr>cur_pos := cur_pos c + 1537\<rparr>, out @ handshake_response env c1) \<and> awaits_c2 server"
proof (cases "c1_schema env c1")
  case None
  from simple_handshake_run [OF assms(1,2,4,5)] obtain s where
    "simple_handshake env bo bw \<lparr>hs_server = simple_server_default, hs_in = c, hs_out = out\<rparr> =
      (Inr (), \<lparr>hs_server = s, hs_in = c\<lparr>cur_pos := cur_pos c + 1537\<rparr>, hs_out = out @ simple_response env c1\<rparr>)"
    "ss_state s = ReadC2" by blast
  with None show ?thesis
    by (simp add: handshake_def handshake_server_default_def complex_handshake_refused [OF assms(1,3-5)] handshake_response_def)
next
  case (Some v)
  from complex_handshake_run [OF assms(1-5) Some] obtain s where
    "complex_handshake env bo bw \<lparr>hs_server = complex_server_default, hs_in = c, hs_out = out\<rparr> =
      (Inr (), \<lparr>hs_server = s, hs_in = c\<lparr>cur_pos := cur_pos c + 1537\<rparr>,
        hs_out = out @ Version3 # complex_s1 env v @ complex_s2 env v c1\<rparr>)" "cs_state s = ReadC2" by blast
  with Some show ?thesis
    by (simp add: handshake_def handshake_server_default_def handshake_response_def)
qed

lemma handshake_second:
  assumes "awaits_c2 server" and "cur_pos c2 + 1536 < 2 ^ 64"
  shows "\<not> handshake_finished server" and "\<exists>server'. handshake env bo bw server c2 out =
      (Inr (), server', c2\<lparr>cur_pos := cur_pos c2 + 1536\<rparr>, out) \<and> handshake_finished server'"
  using assms
  by (cases server; simp add: handshake_def simple_handshake_def complex_handshake_def read_c2_def hs_read_def
      run_simps RTMP_HANDSHAKE_SIZE_def nat_add_distrib)+

lemma length_handshake_response:
  assumes "\<forall>k m. length (hs_hmac env k m) = 32" and "length c1 = 1536"
  shows "length (handshake_response env c1) = 3073"
  using assms fill_digest(1) [OF _ assms(1)]
  by (simp add: handshake_response_def simple_response_def complex_s1_def complex_s2_def Let_def split: option.splits)

text \<open>
  C17. The handshake: from the version byte and the 1536 bytes of C1, wherever they stand in
  the input, the server that has just been made answers with S0, S1 and S2, consumes exactly
  what it has read and waits for C2. A client whose C1 carries a digest gets a complex
  answer; any other gets the simple one, which repeats its C1, and no trace of the attempt
  at a complex one is left in the output. The next call skips the 1536 bytes of C2, writes
  nothing and ends the handshake. The answer has 3073 bytes.
\<close>

theorem handshake_spec:
  assumes "byteorder_reads cursor_read bo" and "byteorder_writes vec_write bw"
    and "\<forall>k m. length (hs_hmac env k m) = 32"
    and "length c1 = 1536" and "cursor_rest c = version # c1 @ rest" and "cur_pos c2 + 1536 < 2 ^ 64"
  shows "\<exists>server. handshake env bo bw handshake_server_default c out =
      (Inr (), server, c\<lparr>cur_pos := cur_pos c + 1537\<rparr>, out @ handshake_response env c1) \<and>
    \<not> handshake_finished server \<and> length (handshake_response env c1) = 3073 \<and>
    (\<exists>server'. handshake env' bo bw server c2 out2 = (Inr (), server', c2\<lparr>cur_pos := cur_pos c2 + 1536\<rparr>, out2) \<and>
       handshake_finished server')"
  using handshake_first [OF assms(1-5)] handshake_second [OF _ assms(6)] length_handshake_response [OF assms(3,4)] by blast

text \<open>
  C18. A message of the size of a handshake packet into which \<open>generate_and_fill_digest\<close> has
  put a digest is one that \<open>generate_and_validate\<close> accepts with the same key and schema,
  with that digest: filling in the digest does not move the place where it is looked for.
  So a client that checks S1 the way the server checks C1 accepts what the server sends.
\<close>

theorem digest_roundtrip:
  assumes "length bs = 1536" and "\<forall>k m. length (hs_hmac env k m) = 32"
  shows "\<exists>r. generate_and_fill_digest env key bs v = Inr r \<and>
    length (digest_left r @ digest_bytes r @ digest_right r) = 1536 \<and>
    generate_and_validate env key (digest_left r @ digest_bytes r @ digest_right r) v = Inr (digest_bytes r)"
proof -
  let ?f = "fill_digest env key v bs"
  obtain r where r: "generate_and_fill_digest env key bs v = Inr r" "digest_bytes r = hs_hmac env key (digest_message bs v)"
      "digest_left r @ digest_bytes r @ digest_right r = ?f"
    using assms by (simp add: generate_and_fill_digest_def split_message_run make_digest_run fill_digest_def digest_message_def)
  have "generate_and_validate env key ?f v = Inr (digest_bytes r)"
    by (simp add: generate_and_validate_run [OF fill_digest(1) [OF assms] assms(2)] fill_digest(2,3) [OF assms] r(2))
  with r(1) fill_digest(1) [OF assms] show ?thesis
    by (intro exI [of _ r] conjI) (simp_all only: r(3))
qed

definition hs_env_sample :: hs_env where
  "hs_env_sample = \<lparr>hs_hmac = (\<lambda>key msg. replicate 31 (of_nat (length msg)) @ [of_nat (length key)]),
     hs_time1 = 1, hs_time2 = 2, hs_random1 = of_nat, hs_random2 = of_nat\<rparr>"

lemma hs_env_sample_hmac: "\<forall>k m. length (hs_hmac hs_env_sample k m) = 32"
  by (simp add: hs_env_sample_def)

theorem handshake_spec_witness:
  "\<exists>server. handshake hs_env_sample (be_reads cursor_read) (be_writes vec_write) handshake_server_default
        (cursor_new (3 # replicate 1536 0)) [] =
      (Inr (), server, (cursor_new (3 # replicate 1536 0))\<lparr>cur_pos := 1537\<rparr>, handshake_response hs_env_sample (replicate 1536 0)) \<and>
    \<not> handshake_finished server \<and> length (handshake_response hs_env_sample (replicate 1536 0)) = 3073"
  using handshake_spec [OF byteorder_reads_be_reads byteorder_writes_be_writes hs_env_sample_hmac,
      of "replicate 1536 0" "cursor_new (3 # replicate 1536 0)" 3 "[]" "cursor_new []" "[]"]
  by (auto simp: cursor_new_def cursor_rest_def)

theorem digest_roundtrip_witness:
  "\<exists>r. generate_and_fill_digest hs_env_sample RTMP_SERVER_KEY_FIRST_HALF (replicate 1536 9) Schema1 = Inr r \<and>
    length (digest_left r @ digest_bytes r @ digest_right r) = 1536 \<and>
    generate_and_validate hs_env_sample RTMP_SERVER_KEY_FIRST_HALF (digest_left r @ digest_bytes r @ digest_right r) Schema1 =
      Inr (digest_bytes r)"
  by (rule digest_roundtrip [OF _ hs_env_sample_hmac]) simp

end
