(* ===== verification/Zero_Copy.thy ===== *)
theory Zero_Copy
  imports Bytes_Cursor
begin

text \<open>
  \<open>crates/bytes-util/src/zero_copy.rs\<close>: readers that hand out slices. Code that is generic
  over \<open>R: ZeroCopyReader\<close> takes \<open>try_read\<close> and the \<open>read\<close> of \<open>as_std\<close> as parameters. A
  \<open>BytesCow\<close> is modelled by its contents.
\<close>

record 's zero_copy =
  zc_try_read :: "nat \<Rightarrow> ('s, u8 list) io"
  zc_read :: "'s read_fn"

definition not_enough_data :: err where
  "not_enough_data = IoErr UnexpectedEof ''Not enough data''"

text \<open>\<open>Slice\<close>, a cursor over borrowed bytes.\<close>

definition slice_try_read :: "nat \<Rightarrow> (cursor, u8 list) io" where
  "slice_try_read sz c =
     (let start = cur_pos c; stop = start + sz in
      if stop > length (cur_data c) then (Inl not_enough_data, c)
      else case bytes_slice (cur_data c) start stop of
             Inl e \<Rightarrow> (Inl e, c)
           | Inr bs \<Rightarrow> (Inr bs, c\<lparr>cur_pos := stop\<rparr>))"

definition slice_reader :: "cursor zero_copy" where
  "slice_reader = \<lparr>zc_try_read = slice_try_read, zc_read = cursor_read\<rparr>"

text \<open>
  \<open>BytesBuf\<close> over a \<open>Bytes\<close>, whose state is the bytes that remain; \<open>copy_to_bytes\<close> and
  \<open>reader\<close> are \<open>bytes::Buf\<close>'s.
\<close>

definition bytes_try_read :: "nat \<Rightarrow> (u8 list, u8 list) io" where
  "bytes_try_read n bs = (if length bs < n then (Inl not_enough_data, bs) else (Inr (take n bs), drop n bs))"

definition bytes_read :: "nat \<Rightarrow> (u8 list, u8 list) io" where
  "bytes_read n bs = (Inr (take n bs), drop n bs)"

definition bytes_buf :: "u8 list zero_copy" where
  "bytes_buf = \<lparr>zc_try_read = bytes_try_read, zc_read = bytes_read\<rparr>"

text \<open>\<open>IoRead\<close>, any \<open>io::Read\<close>: \<open>try_read\<close> copies.\<close>

definition io_reader :: "'s read_fn \<Rightarrow> 's zero_copy" where
  "io_reader rd = \<lparr>zc_try_read = read_exact rd, zc_read = rd\<rparr>"

text \<open>What a zero-copy reader promises: \<open>try_read\<close> is a \<open>read_exact\<close>.\<close>

locale zero_copy_source = byte_source "zc_read z" unread ok
  for z :: "'s zero_copy" and unread :: "'s \<Rightarrow> u8 list" and ok :: "'s \<Rightarrow> bool" +
  assumes try_read_ok: "ok s \<Longrightarrow> n \<le> length (unread s) \<Longrightarrow>
      \<exists>s'. zc_try_read z n s = (Inr (take n (unread s)), s') \<and> unread s' = drop n (unread s) \<and> ok s'"
    and try_read_eof: "ok s \<Longrightarrow> length (unread s) < n \<Longrightarrow>
      \<exists>m s'. zc_try_read z n s = (Inl (IoErr UnexpectedEof m), s')"
begin

lemma sdec_try_read: "length bs = n \<Longrightarrow> sdec (zc_try_read z n) bs bs"
proof (rule sdecI)
  fix s rest
  assume "length bs = n" "ok s" "unread s = bs @ rest"
  with try_read_ok [of s n] show "\<exists>s'. zc_try_read z n s = (Inr bs, s') \<and> unread s' = rest \<and> ok s'"
    by auto
qed

end

interpretation slice: zero_copy_source slice_reader cursor_rest "\<lambda>c. cur_pos c \<le> length (cur_data c)"
proof (unfold_locales, goal_cases)
  case (1 s n)
  then show ?case
    by (intro exI [of _ "min n (length (cursor_rest s))"])
      (auto simp: slice_reader_def cursor_read_def cursor_rest_def remaining_def Let_def min_def add.commute)
next
  case (2 s n)
  then show ?case
    by (auto simp: slice_reader_def slice_try_read_def Let_def bytes_slice_def cursor_rest_def remaining_def
        add.commute)
next
  case (3 s n)
  then show ?case
    by (auto simp: slice_reader_def slice_try_read_def Let_def not_enough_data_def remaining_def)
qed

interpretation bytes: zero_copy_source bytes_buf "\<lambda>bs. bs" "\<lambda>_. True"
proof (unfold_locales, goal_cases)
  case (1 s n)
  show ?case by (intro exI [of _ "min n (length s)"]) (auto simp: bytes_buf_def bytes_read_def min_def)
qed (auto simp: bytes_buf_def bytes_try_read_def not_enough_data_def)

context byte_source
begin

text \<open>Every reader gives a zero-copy reader.\<close>

lemma io_reader_source: "zero_copy_source (io_reader rd) unread ok"
proof (unfold_locales, goal_cases)
  case (1 s n)
  with read_some [OF 1] show ?case by (simp add: io_reader_def)
next
  case (2 s n)
  with read_exact_ok [OF 2] show ?case by (simp add: io_reader_def)
next
  case (3 s n)
  with read_exact_eof [OF 3] show ?case by (auto simp: io_reader_def eof_error_def)
qed

end

interpretation io_cursor: zero_copy_source "io_reader cursor_read" cursor_rest "\<lambda>_. True"
  by (rule cur.io_reader_source)

end
