(* ===== verification/Amf0.thy ===== *)
theory Amf0
  imports Zero_Copy Hash_Map
begin

text \<open>
  \<open>crates/amf0/src\<close>: the AMF0 encoder and decoder, on a writer and a zero-copy reader.
  Numbers are kept as the 64 bits of the \<open>f64\<close>, strings as their UTF-8 bytes. An object is
  a \<open>HashMap\<close>; the order of its association list stands for the order in which an iteration
  visits it. The serde front ends (\<open>de\<close>, \<open>ser\<close>) are in \<open>Amf0_Serde\<close>.
\<close>

subsection \<open>Data (lib.rs, value.rs, error.rs)\<close>

datatype amf0_marker =
    NumberMarker | BooleanMarker | StringMarker | ObjectMarker | MovieClipMarker | NullMarker
  | UndefinedMarker | ReferenceMarker | EcmaArrayMarker | ObjectEndMarker | StrictArrayMarker
  | DateMarker | LongStringMarker | UnsupportedMarker | RecordsetMarker | XmlDocumentMarker
  | TypedObjectMarker | AVMPlusObjectMarker

definition amf0_markers :: "amf0_marker list" where
  "amf0_markers = [NumberMarker, BooleanMarker, StringMarker, ObjectMarker, MovieClipMarker, NullMarker,
     UndefinedMarker, ReferenceMarker, EcmaArrayMarker, ObjectEndMarker, StrictArrayMarker,
     DateMarker, LongStringMarker, UnsupportedMarker, RecordsetMarker, XmlDocumentMarker,
     TypedObjectMarker, AVMPlusObjectMarker]"

fun marker_value :: "amf0_marker \<Rightarrow> u8" where
  "marker_value NumberMarker = 0x00"
| "marker_value BooleanMarker = 0x01"
| "marker_value StringMarker = 0x02"
| "marker_value ObjectMarker = 0x03"
| "marker_value MovieClipMarker = 0x04"
| "marker_value NullMarker = 0x05"
| "marker_value UndefinedMarker = 0x06"
| "marker_value ReferenceMarker = 0x07"
| "marker_value EcmaArrayMarker = 0x08"
| "marker_value ObjectEndMarker = 0x09"
| "marker_value StrictArrayMarker = 0x0a"
| "marker_value DateMarker = 0x0b"
| "marker_value LongStringMarker = 0x0c"
| "marker_value UnsupportedMarker = 0x0d"
| "marker_value RecordsetMarker = 0x0e"
| "marker_value XmlDocumentMarker = 0x0f"
| "marker_value TypedObjectMarker = 0x10"
| "marker_value AVMPlusObjectMarker = 0x11"

text \<open>
  \<open>Amf0Marker::from_u8\<close> is generated by \<open>num_derive\<close>: the parameter \<open>mk\<close> of the decoder.
\<close>

definition marker_conversion :: "(u8 \<Rightarrow> amf0_marker option) \<Rightarrow> bool" where
  "marker_conversion mk \<longleftrightarrow> (\<forall>v m. mk v = Some m \<longleftrightarrow> marker_value m = v)"

definition marker_from_u8 :: "u8 \<Rightarrow> amf0_marker option" where
  "marker_from_u8 v = find (\<lambda>m. marker_value m = v) amf0_markers"

type_synonym utf8 = "u8 list"

datatype amf0_value =
    Amf0Number u64
  | Amf0Boolean bool
  | Amf0String utf8
  | Amf0Object "(utf8 \<times> amf0_value) list"
  | Amf0Null
  | Amf0Array "amf0_value list"

text \<open>
  The errors of the coder. \<open>Amf0Panic\<close> is a panic; \<open>Amf0Fuel\<close> is not in the code: it marks
  a run of the model whose fuel was too small.
\<close>

datatype amf0_error =
    Amf0Io err
  | Amf0TooLong
  | Amf0UnknownLength
  | Amf0MapKeyNotString
  | Amf0UnknownMarker u8
  | Amf0UnsupportedMarker amf0_marker
  | Amf0StringParseError
  | Amf0UnexpectedType "amf0_marker list" amf0_marker
  | Amf0WrongArrayLength nat nat
  | Amf0CharNotSupported
  | Amf0Custom string
  | Amf0Panic string
  | Amf0Fuel

fun amf0_io :: "err \<Rightarrow> amf0_error" where
  "amf0_io (Panic m) = Amf0Panic m"
| "amf0_io e = Amf0Io e"

text \<open>\<open>str::from_utf8\<close> of the standard library: the well-formed sequences of the Unicode
  standard (its table 3-7).\<close>

definition utf8_cont :: "u8 \<Rightarrow> bool" where
  "utf8_cont b \<longleftrightarrow> 0x80 \<le> b \<and> b \<le> 0xBF"

fun utf8_valid :: "u8 list \<Rightarrow> bool" where
  "utf8_valid [] = True"
| "utf8_valid (a # bs) =
     (if a \<le> 0x7F then utf8_valid bs
      else case bs of [] \<Rightarrow> False
      | b # cs \<Rightarrow>
          if 0xC2 \<le> a \<and> a \<le> 0xDF then utf8_cont b \<and> utf8_valid cs
          else case cs of [] \<Rightarrow> False
          | c # ds \<Rightarrow>
              if 0xE0 \<le> a \<and> a \<le> 0xEF then
                (if a = 0xE0 then 0xA0 \<le> b \<and> b \<le> 0xBF
                 else if a = 0xED then 0x80 \<le> b \<and> b \<le> 0x9F
                 else utf8_cont b) \<and> utf8_cont c \<and> utf8_valid ds
              else case ds of [] \<Rightarrow> False
              | d # es \<Rightarrow>
                  if 0xF0 \<le> a \<and> a \<le> 0xF4 then
                    (if a = 0xF0 then 0x90 \<le> b \<and> b \<le> 0xBF
                     else if a = 0xF4 then 0x80 \<le> b \<and> b \<le> 0x8F
                     else utf8_cont b) \<and> utf8_cont c \<and> utf8_cont d \<and> utf8_valid es
                  else False)"

subsection \<open>The decoder (decoder.rs)\<close>

record 's amf0_decoder =
  amf_reader :: 's
  next_marker :: "amf0_marker option"

definition amf0_decoder_new :: "'s \<Rightarrow> 's amf0_decoder" where
  "amf0_decoder_new s = \<lparr>amf_reader = s, next_marker = None\<rparr>"

type_synonym ('s, 'a) amf0 = "('s amf0_decoder, amf0_error, 'a) act"

text \<open>A call of the reader, with \<open>?\<close> converting its error.\<close>

definition rd_io :: "('s, 'a) io \<Rightarrow> ('s, 'a) amf0" where
  "rd_io m d = (case m (amf_reader d) of
      (Inr a, s) \<Rightarrow> (Inr a, d\<lparr>amf_reader := s\<rparr>)
    | (Inl e, s) \<Rightarrow> (Inl (amf0_io e), d\<lparr>amf_reader := s\<rparr>))"

definition set_marker :: "amf0_marker option \<Rightarrow> ('s, unit) amf0" where
  "set_marker m d = (Inr (), d\<lparr>next_marker := m\<rparr>)"

definition read_marker :: "(u8 \<Rightarrow> amf0_marker option) \<Rightarrow> 's byteorder \<Rightarrow> ('s, amf0_marker) amf0" where
  "read_marker mk bo d =
     (case next_marker d of
        Some m \<Rightarrow> (Inr m, d\<lparr>next_marker := None\<rparr>)
      | None \<Rightarrow>
          bnd (rd_io (bo_u8 bo)) (\<lambda>b.
          case mk b of None \<Rightarrow> fail (Amf0UnknownMarker b) | Some m \<Rightarrow> ret m) d)"

definition peek_marker :: "(u8 \<Rightarrow> amf0_marker option) \<Rightarrow> 's byteorder \<Rightarrow> ('s, amf0_marker) amf0" where
  "peek_marker mk bo = bnd (read_marker mk bo) (\<lambda>m. bnd (set_marker (Some m)) (\<lambda>_. ret m))"

definition has_remaining_value :: "(u8 \<Rightarrow> amf0_marker option) \<Rightarrow> 's byteorder \<Rightarrow> ('s, bool) amf0" where
  "has_remaining_value mk bo d =
     (case peek_marker mk bo d of
        (Inr _, d') \<Rightarrow> (Inr True, d')
      | (Inl (Amf0Io (IoErr UnexpectedEof _)), d') \<Rightarrow> (Inr False, d')
      | (Inl e, d') \<Rightarrow> (Inl e, d'))"

definition expect_marker :: "(u8 \<Rightarrow> amf0_marker option) \<Rightarrow> 's byteorder \<Rightarrow> amf0_marker list \<Rightarrow>
    ('s, amf0_marker) amf0" where
  "expect_marker mk bo expected =
     bnd (read_marker mk bo) (\<lambda>m.
     if m \<notin> set expected then fail (Amf0UnexpectedType expected m) else ret m)"

definition decode_number :: "(u8 \<Rightarrow> amf0_marker option) \<Rightarrow> 's byteorder \<Rightarrow> ('s, u64) amf0" where
  "decode_number mk bo =
     bnd (expect_marker mk bo [NumberMarker, DateMarker]) (\<lambda>m.
     bnd (rd_io (bo_u64 bo)) (\<lambda>number.
     bnd (if m = DateMarker then bnd (rd_io (bo_u16 bo)) (\<lambda>_. ret ()) else ret ()) (\<lambda>_.
     ret number)))"

definition decode_boolean :: "(u8 \<Rightarrow> amf0_marker option) \<Rightarrow> 's byteorder \<Rightarrow> ('s, bool) amf0" where
  "decode_boolean mk bo =
     bnd (expect_marker mk bo [BooleanMarker]) (\<lambda>_.
     bnd (rd_io (bo_u8 bo)) (\<lambda>v. ret (v \<noteq> 0)))"

text \<open>\<open>StringCow::from_bytes(bytes.into_bytes().try_into()?)\<close>.\<close>

definition read_string :: "'s zero_copy \<Rightarrow> nat \<Rightarrow> ('s, utf8) amf0" where
  "read_string z n =
     bnd (rd_io (zc_try_read z n)) (\<lambda>bs.
     if utf8_valid bs then ret bs else fail Amf0StringParseError)"

definition decode_normal_string :: "'s byteorder \<Rightarrow> 's zero_copy \<Rightarrow> ('s, utf8) amf0" where
  "decode_normal_string bo z =
     bnd (rd_io (bo_u16 bo)) (\<lambda>n. read_string z (unat n))"

definition decode_string :: "(u8 \<Rightarrow> amf0_marker option) \<Rightarrow> 's byteorder \<Rightarrow> 's zero_copy \<Rightarrow> ('s, utf8) amf0" where
  "decode_string mk bo z =
     bnd (expect_marker mk bo [StringMarker, LongStringMarker, XmlDocumentMarker]) (\<lambda>m.
     bnd (if m = StringMarker then bnd (rd_io (bo_u16 bo)) (\<lambda>n. ret (unat n))
          else bnd (rd_io (bo_u32 bo)) (\<lambda>n. ret (unat n))) (\<lambda>n.
     read_string z n))"

definition decode_null :: "(u8 \<Rightarrow> amf0_marker option) \<Rightarrow> 's byteorder \<Rightarrow> ('s, unit) amf0" where
  "decode_null mk bo =
     bnd (expect_marker mk bo [NullMarker, UndefinedMarker]) (\<lambda>_. ret ())"

datatype object_header = ObjectHeader | TypedObjectHeader utf8 | EcmaArrayHeader u32

definition decode_object_header :: "(u8 \<Rightarrow> amf0_marker option) \<Rightarrow> 's byteorder \<Rightarrow> 's zero_copy \<Rightarrow>
    ('s, object_header) amf0" where
  "decode_object_header mk bo z =
     bnd (expect_marker mk bo [ObjectMarker, TypedObjectMarker, EcmaArrayMarker]) (\<lambda>m.
     if m = ObjectMarker then ret ObjectHeader
     else if m = TypedObjectMarker then bnd (decode_normal_string bo z) (\<lambda>name. ret (TypedObjectHeader name))
     else bnd (rd_io (bo_u32 bo)) (\<lambda>sz. ret (EcmaArrayHeader sz)))"

definition decode_object_key :: "(u8 \<Rightarrow> amf0_marker option) \<Rightarrow> 's byteorder \<Rightarrow> 's zero_copy \<Rightarrow>
    ('s, utf8 option) amf0" where
  "decode_object_key mk bo z =
     bnd (decode_normal_string bo z) (\<lambda>key.
     if key = [] then
       bnd (peek_marker mk bo) (\<lambda>m.
       if m = ObjectEndMarker then bnd (set_marker None) (\<lambda>_. ret None) else ret (Some key))
     else ret (Some key))"

definition decode_strict_array_header :: "(u8 \<Rightarrow> amf0_marker option) \<Rightarrow> 's byteorder \<Rightarrow> ('s, u32) amf0" where
  "decode_strict_array_header mk bo =
     bnd (expect_marker mk bo [StrictArrayMarker]) (\<lambda>_. rd_io (bo_u32 bo))"

text \<open>What follows the last pair of an ECMA array.\<close>

definition decode_ecma_end :: "(u8 \<Rightarrow> amf0_marker option) \<Rightarrow> 's byteorder \<Rightarrow> ('s, unit) amf0" where
  "decode_ecma_end mk bo =
     bnd (has_remaining_value mk bo) (\<lambda>more.
     if more then
       bnd (peek_marker mk bo) (\<lambda>m. if m = ObjectEndMarker then set_marker None else ret ())
     else ret ())"

text \<open>
  The recursive part: \<open>decode_value\<close> calls \<open>decode_object\<close> and \<open>decode_strict_array\<close>, which
  call it for the values they hold; these take it as the parameter \<open>dv\<close>. The model spends
  one unit of fuel on each level of nesting and on each iteration of the \<open>while let\<close> loop
  over the members of an object.
\<close>

fun decode_members :: "nat \<Rightarrow> ('s, amf0_value) amf0 \<Rightarrow> (u8 \<Rightarrow> amf0_marker option) \<Rightarrow> 's byteorder \<Rightarrow>
    's zero_copy \<Rightarrow> (utf8 \<times> amf0_value) list \<Rightarrow> ('s, (utf8 \<times> amf0_value) list) amf0" where
  "decode_members 0 dv mk bo z acc = fail Amf0Fuel"
| "decode_members (Suc fuel) dv mk bo z acc =
     bnd (decode_object_key mk bo z) (\<lambda>k.
     case k of
       None \<Rightarrow> ret acc
     | Some key \<Rightarrow> bnd dv (\<lambda>v. decode_members fuel dv mk bo z (hm_insert key v acc)))"

fun decode_pairs :: "nat \<Rightarrow> ('s, amf0_value) amf0 \<Rightarrow> 's byteorder \<Rightarrow> 's zero_copy \<Rightarrow>
    (utf8 \<times> amf0_value) list \<Rightarrow> ('s, (utf8 \<times> amf0_value) list) amf0" where
  "decode_pairs 0 dv bo z acc = ret acc"
| "decode_pairs (Suc n) dv bo z acc =
     bnd (decode_normal_string bo z) (\<lambda>key.
     bnd dv (\<lambda>v. decode_pairs n dv bo z (hm_insert key v acc)))"

definition decode_object :: "nat \<Rightarrow> ('s, amf0_value) amf0 \<Rightarrow> (u8 \<Rightarrow> amf0_marker option) \<Rightarrow> 's byteorder \<Rightarrow>
    's zero_copy \<Rightarrow> ('s, (utf8 \<times> amf0_value) list) amf0" where
  "decode_object fuel dv mk bo z =
     bnd (decode_object_header mk bo z) (\<lambda>h.
     case h of
       EcmaArrayHeader sz \<Rightarrow>
         bnd (decode_pairs (unat sz) dv bo z []) (\<lambda>ps.
         bnd (decode_ecma_end mk bo) (\<lambda>_. ret ps))
     | _ \<Rightarrow> decode_members fuel dv mk bo z [])"

definition decode_strict_array :: "('s, amf0_value) amf0 \<Rightarrow> (u8 \<Rightarrow> amf0_marker option) \<Rightarrow> 's byteorder \<Rightarrow>
    ('s, amf0_value list) amf0" where
  "decode_strict_array dv mk bo =
     bnd (decode_strict_array_header mk bo) (\<lambda>sz. times_io (unat sz) dv)"

fun decode_value :: "nat \<Rightarrow> (u8 \<Rightarrow> amf0_marker option) \<Rightarrow> 's byteorder \<Rightarrow> 's zero_copy \<Rightarrow> ('s, amf0_value) amf0" where
  "decode_value 0 mk bo z = fail Amf0Fuel"
| "decode_value (Suc fuel) mk bo z =
     bnd (peek_marker mk bo) (\<lambda>m.
     if m = BooleanMarker then bnd (decode_boolean mk bo) (\<lambda>b. ret (Amf0Boolean b))
     else if m \<in> {NumberMarker, DateMarker} then bnd (decode_number mk bo) (\<lambda>n. ret (Amf0Number n))
     else if m \<in> {StringMarker, LongStringMarker, XmlDocumentMarker} then
       bnd (decode_string mk bo z) (\<lambda>s. ret (Amf0String s))
     else if m \<in> {NullMarker, UndefinedMarker} then bnd (decode_null mk bo) (\<lambda>_. ret Amf0Null)
     else if m \<in> {ObjectMarker, TypedObjectMarker, EcmaArrayMarker} then
       bnd (decode_object fuel (decode_value fuel mk bo z) mk bo z) (\<lambda>ps. ret (Amf0Object ps))
     else if m = StrictArrayMarker then
       bnd (decode_strict_array (decode_value fuel mk bo z) mk bo) (\<lambda>vs. ret (Amf0Array vs))
     else fail (Amf0UnsupportedMarker m))"

fun decode_all :: "nat \<Rightarrow> (u8 \<Rightarrow> amf0_marker option) \<Rightarrow> 's byteorder \<Rightarrow> 's zero_copy \<Rightarrow> ('s, amf0_value list) amf0" where
  "decode_all 0 mk bo z = fail Amf0Fuel"
| "decode_all (Suc fuel) mk bo z =
     bnd (has_remaining_value mk bo) (\<lambda>more.
     if more then
       bnd (decode_value fuel mk bo z) (\<lambda>v.
       bnd (decode_all fuel mk bo z) (\<lambda>vs. ret (v # vs)))
     else ret [])"

subsection \<open>The encoder (encoder.rs, value.rs)\<close>

text \<open>The encoder's only field is its writer.\<close>

type_synonym ('w, 'a) amf0_enc = "('w, amf0_error, 'a) act"

definition wr_io :: "('w, 'a) io \<Rightarrow> ('w, 'a) amf0_enc" where
  "wr_io m w = (case m w of (Inr a, w') \<Rightarrow> (Inr a, w') | (Inl e, w') \<Rightarrow> (Inl (amf0_io e), w'))"

definition encode_boolean :: "'w byteorder_w \<Rightarrow> bool \<Rightarrow> ('w, unit) amf0_enc" where
  "encode_boolean bw v =
     bnd (wr_io (bw_u8 bw (marker_value BooleanMarker))) (\<lambda>_. wr_io (bw_u8 bw (if v then 1 else 0)))"

definition encode_number :: "'w byteorder_w \<Rightarrow> u64 \<Rightarrow> ('w, unit) amf0_enc" where
  "encode_number bw v =
     bnd (wr_io (bw_u8 bw (marker_value NumberMarker))) (\<lambda>_. wr_io (bw_u64 bw v))"

definition encode_string :: "'w write_fn \<Rightarrow> 'w byteorder_w \<Rightarrow> utf8 \<Rightarrow> ('w, unit) amf0_enc" where
  "encode_string wr bw s =
     (let len = length s in
      if len \<le> 65535 then
        bnd (wr_io (bw_u8 bw (marker_value StringMarker))) (\<lambda>_.
        bnd (wr_io (bw_u16 bw (of_nat len))) (\<lambda>_.
        wr_io (write_all wr s)))
      else if len < 2 ^ 32 then
        bnd (wr_io (bw_u8 bw (marker_value LongStringMarker))) (\<lambda>_.
        bnd (wr_io (bw_u32 bw (of_nat len))) (\<lambda>_.
        wr_io (write_all wr s)))
      else fail Amf0TooLong)"

definition encode_null :: "'w byteorder_w \<Rightarrow> ('w, unit) amf0_enc" where
  "encode_null bw = wr_io (bw_u8 bw (marker_value NullMarker))"

definition encode_undefined :: "'w byteorder_w \<Rightarrow> ('w, unit) amf0_enc" where
  "encode_undefined bw = wr_io (bw_u8 bw (marker_value UndefinedMarker))"

definition encode_array_header :: "'w byteorder_w \<Rightarrow> u32 \<Rightarrow> ('w, unit) amf0_enc" where
  "encode_array_header bw n =
     bnd (wr_io (bw_u8 bw (marker_value StrictArrayMarker))) (\<lambda>_. wr_io (bw_u32 bw n))"

definition encode_object_header :: "'w byteorder_w \<Rightarrow> ('w, unit) amf0_enc" where
  "encode_object_header bw = wr_io (bw_u8 bw (marker_value ObjectMarker))"

definition encode_object_key :: "'w write_fn \<Rightarrow> 'w byteorder_w \<Rightarrow> utf8 \<Rightarrow> ('w, unit) amf0_enc" where
  "encode_object_key wr bw key =
     bnd (if length key < 2 ^ 16 then ret (of_nat (length key)) else fail Amf0TooLong) (\<lambda>n.
     bnd (wr_io (bw_u16 bw n)) (\<lambda>_.
     wr_io (write_all wr key)))"

definition encode_object_trailer :: "'w byteorder_w \<Rightarrow> ('w, unit) amf0_enc" where
  "encode_object_trailer bw = wr_io (bw_u24 bw (ucast (marker_value ObjectEndMarker)))"

text \<open>\<open>encode_array\<close> and \<open>encode_object\<close> encode the values they hold with \<open>ev\<close>.\<close>

definition encode_array :: "(amf0_value \<Rightarrow> ('w, unit) amf0_enc) \<Rightarrow> 'w byteorder_w \<Rightarrow> amf0_value list \<Rightarrow>
    ('w, unit) amf0_enc" where
  "encode_array ev bw vs =
     bnd (if length vs < 2 ^ 32 then ret (of_nat (length vs)) else fail Amf0TooLong) (\<lambda>n.
     bnd (encode_array_header bw n) (\<lambda>_.
     each_io ev vs))"

definition encode_object :: "(amf0_value \<Rightarrow> ('w, unit) amf0_enc) \<Rightarrow> 'w write_fn \<Rightarrow> 'w byteorder_w \<Rightarrow>
    (utf8 \<times> amf0_value) list \<Rightarrow> ('w, unit) amf0_enc" where
  "encode_object ev wr bw ps =
     bnd (encode_object_header bw) (\<lambda>_.
     bnd (each_io (\<lambda>(k, v). bnd (encode_object_key wr bw k) (\<lambda>_. ev v)) ps) (\<lambda>_.
     encode_object_trailer bw))"

lemma encode_array_cong [fundef_cong]:
  "vs = us \<Longrightarrow> (\<And>v. v \<in> set us \<Longrightarrow> f v = g v) \<Longrightarrow> encode_array f bw vs = encode_array g bw us"
  unfolding encode_array_def by (simp cong: each_io_cong)

lemma encode_object_cong [fundef_cong]:
  assumes "ps = qs" and "\<And>k v. (k, v) \<in> set qs \<Longrightarrow> f v = g v"
  shows "encode_object f wr bw ps = encode_object g wr bw qs"
proof -
  have "each_io (\<lambda>(k, v). bnd (encode_object_key wr bw k) (\<lambda>_. f v)) qs =
      each_io (\<lambda>(k, v). bnd (encode_object_key wr bw k) (\<lambda>_. g v)) qs"
    using assms(2) by (intro each_io_cong) auto
  with assms(1) show ?thesis by (simp add: encode_object_def)
qed

fun encode_value :: "'w write_fn \<Rightarrow> 'w byteorder_w \<Rightarrow> amf0_value \<Rightarrow> ('w, unit) amf0_enc" where
  "encode_value wr bw (Amf0Number v) = encode_number bw v"
| "encode_value wr bw (Amf0Boolean v) = encode_boolean bw v"
| "encode_value wr bw (Amf0String s) = encode_string wr bw s"
| "encode_value wr bw (Amf0Object ps) = encode_object (encode_value wr bw) wr bw ps"
| "encode_value wr bw Amf0Null = encode_null bw"
| "encode_value wr bw (Amf0Array vs) = encode_array (encode_value wr bw) bw vs"

end
