(* ===== verification/Amf0_Roundtrip.thy ===== *)
theory Amf0_Roundtrip
  imports Amf0
begin

text \<open>
  The AMF0 format as a function of the value, the proof that the encoder writes it, and the
  calculus \<open>adec\<close> by which the decoder reads it back, over any lawful zero-copy reader.
\<close>

subsection \<open>The format\<close>

definition string_bytes :: "utf8 \<Rightarrow> u8 list" where
  "string_bytes s =
     (if length s \<le> 65535 then marker_value StringMarker # be_bytes 2 (of_nat (length s) :: u16) @ s
      else marker_value LongStringMarker # be_bytes 4 (of_nat (length s) :: u32) @ s)"

definition key_bytes :: "utf8 \<Rightarrow> u8 list" where
  "key_bytes k = be_bytes 2 (of_nat (length k) :: u16) @ k"

fun amf0_bytes :: "amf0_value \<Rightarrow> u8 list" where
  "amf0_bytes (Amf0Number v) = marker_value NumberMarker # be_bytes 8 v"
| "amf0_bytes (Amf0Boolean b) = [marker_value BooleanMarker, if b then 1 else 0]"
| "amf0_bytes (Amf0String s) = string_bytes s"
| "amf0_bytes (Amf0Object ps) = marker_value ObjectMarker #
     concat (map (\<lambda>(k, v). key_bytes k @ amf0_bytes v) ps) @ [0, 0, marker_value ObjectEndMarker]"
| "amf0_bytes Amf0Null = [marker_value NullMarker]"
| "amf0_bytes (Amf0Array vs) = marker_value StrictArrayMarker #
     be_bytes 4 (of_nat (length vs) :: u32) @ concat (map amf0_bytes vs)"

text \<open>The values the encoder accepts, as the decoder returns them.\<close>

fun amf0_ok :: "amf0_value \<Rightarrow> bool" where
  "amf0_ok (Amf0String s) \<longleftrightarrow> utf8_valid s \<and> length s < 2 ^ 32"
| "amf0_ok (Amf0Object ps) \<longleftrightarrow> distinct (map fst ps) \<and>
     (\<forall>(k, v) \<in> set ps. utf8_valid k \<and> length k < 2 ^ 16 \<and> amf0_ok v)"
| "amf0_ok (Amf0Array vs) \<longleftrightarrow> length vs < 2 ^ 32 \<and> (\<forall>v \<in> set vs. amf0_ok v)"
| "amf0_ok _ \<longleftrightarrow> True"

text \<open>Fuel that is enough to decode a value.\<close>

fun amf0_fuel :: "amf0_value \<Rightarrow> nat" where
  "amf0_fuel (Amf0Object ps) = Suc (length ps + 1 + sum_list (map (\<lambda>(k, v). amf0_fuel v) ps))"
| "amf0_fuel (Amf0Array vs) = Suc (sum_list (map amf0_fuel vs))"
| "amf0_fuel _ = 1"

subsection \<open>Encoding\<close>

definition aputs :: "('w \<Rightarrow> u8 list \<Rightarrow> 'w) \<Rightarrow> ('w \<Rightarrow> bool) \<Rightarrow> ('w, unit) amf0_enc \<Rightarrow> u8 list \<Rightarrow> bool" where
  "aputs app ok m bs \<longleftrightarrow> (\<forall>w. ok w \<longrightarrow> m w = (Inr (), app w bs))"

context byte_sink
begin

lemma aputs_wr_io: "puts app ok m bs \<Longrightarrow> aputs app ok (wr_io m) bs"
  by (simp add: puts_def aputs_def wr_io_def)

lemma aputs_ret: "aputs app ok (ret ()) []"
  by (simp add: aputs_def run_simps app_Nil)

lemma aputs_bnd: "aputs app ok m as \<Longrightarrow> aputs app ok (f ()) bs \<Longrightarrow> aputs app ok (bnd m f) (as @ bs)"
  by (simp add: aputs_def app_app ok_app)

lemma aputs_bnd_Cons: "aputs app ok m [a] \<Longrightarrow> aputs app ok (f ()) bs \<Longrightarrow> aputs app ok (bnd m f) (a # bs)"
  using aputs_bnd [of m "[a]"] by simp

lemma aputs_each: "(\<And>x. x \<in> set xs \<Longrightarrow> aputs app ok (f x) (enc x)) \<Longrightarrow>
    aputs app ok (each_io f xs) (concat (map enc xs))"
  by (induction xs) (auto intro: aputs_bnd aputs_ret)

lemma aputs_encode_value:
  assumes bw: "byteorder_writes wr bw"
  shows "amf0_ok v \<Longrightarrow> aputs app ok (encode_value wr bw v) (amf0_bytes v)"
proof (induction v)
  case (Amf0String s)
  note w = aputs_wr_io [OF puts_bo(1) [OF bw]] aputs_wr_io [OF puts_bo(2) [OF bw]]
    aputs_wr_io [OF puts_bo(4) [OF bw]] aputs_wr_io [OF puts_write_all]
  from Amf0String show ?case
    by (auto simp: encode_string_def string_bytes_def Let_def simp del: marker_value.simps
        intro!: aputs_bnd_Cons aputs_bnd w)
next
  case (Amf0Object ps)
  note w = aputs_wr_io [OF puts_bo(1) [OF bw]] aputs_wr_io [OF puts_bo(2) [OF bw]]
    aputs_wr_io [OF puts_write_all]
  have "be_bytes 3 (ucast (marker_value ObjectEndMarker) :: u32) = [0, 0, marker_value ObjectEndMarker]"
    by code_simp
  then have trailer: "aputs app ok (encode_object_trailer bw) [0, 0, marker_value ObjectEndMarker]"
    using aputs_wr_io [OF puts_bo(3) [OF bw, of "ucast (marker_value ObjectEndMarker)"]]
    by (simp add: encode_object_trailer_def)
  have key: "aputs app ok (encode_object_key wr bw k) (key_bytes k)" if "length k < 2 ^ 16" for k
    using that by (auto simp: encode_object_key_def key_bytes_def intro!: aputs_bnd w)
  have "aputs app ok (each_io (\<lambda>(k, v). bnd (encode_object_key wr bw k) (\<lambda>_. encode_value wr bw v)) ps)
      (concat (map (\<lambda>(k, v). key_bytes k @ amf0_bytes v) ps))"
    using Amf0Object by (intro aputs_each) (auto intro!: aputs_bnd key)
  then show ?case
    unfolding encode_value.simps encode_object_def encode_object_header_def amf0_bytes.simps
    by (intro aputs_bnd_Cons aputs_bnd trailer w)
next
  case (Amf0Array vs)
  note w = aputs_wr_io [OF puts_bo(1) [OF bw]] aputs_wr_io [OF puts_bo(4) [OF bw]]
  have "aputs app ok (each_io (encode_value wr bw) vs) (concat (map amf0_bytes vs))"
    using Amf0Array by (intro aputs_each) auto
  moreover have "aputs app ok (encode_array_header bw n) (marker_value StrictArrayMarker # be_bytes 4 n)" for n
    unfolding encode_array_header_def by (intro aputs_bnd_Cons w)
  ultimately show ?case
    using Amf0Array aputs_bnd [where m = "encode_array_header bw (of_nat (length vs))"]
    by (simp add: encode_array_def del: marker_value.simps) fastforce
qed (auto simp: encode_number_def encode_boolean_def encode_null_def simp del: marker_value.simps
  intro!: aputs_bnd_Cons aputs_wr_io puts_bo [OF bw])

end

subsection \<open>Decoding\<close>

text \<open>
  A buffered marker counts as the next byte. \<open>adec P Q m bs x\<close>: in a state with \<open>P\<close> whose
  bytes start with \<open>bs\<close>, \<open>m\<close> returns \<open>x\<close>, consumes exactly \<open>bs\<close> and leaves a state with \<open>Q\<close>.
\<close>

definition pending :: "'s amf0_decoder \<Rightarrow> u8 list" where
  "pending d = (case next_marker d of None \<Rightarrow> [] | Some m \<Rightarrow> [marker_value m])"

context zero_copy_source
begin

definition view :: "'s amf0_decoder \<Rightarrow> u8 list" where
  "view d = pending d @ unread (amf_reader d)"

definition any_marker :: "'s amf0_decoder \<Rightarrow> bool" where
  "any_marker d \<longleftrightarrow> ok (amf_reader d)"

definition no_marker :: "'s amf0_decoder \<Rightarrow> bool" where
  "no_marker d \<longleftrightarrow> ok (amf_reader d) \<and> next_marker d = None"

definition buffered :: "amf0_marker \<Rightarrow> 's amf0_decoder \<Rightarrow> bool" where
  "buffered m d \<longleftrightarrow> ok (amf_reader d) \<and> next_marker d = Some m"

definition adec :: "('s amf0_decoder \<Rightarrow> bool) \<Rightarrow> ('s amf0_decoder \<Rightarrow> bool) \<Rightarrow> ('s, 'a) amf0 \<Rightarrow>
    u8 list \<Rightarrow> 'a \<Rightarrow> bool" where
  "adec P Q m bs x \<longleftrightarrow> (\<forall>d rest. P d \<longrightarrow> view d = bs @ rest \<longrightarrow>
     (\<exists>d'. m d = (Inr x, d') \<and> view d' = rest \<and> Q d'))"

lemma adecI:
  "(\<And>d rest. P d \<Longrightarrow> view d = bs @ rest \<Longrightarrow> \<exists>d'. m d = (Inr x, d') \<and> view d' = rest \<and> Q d') \<Longrightarrow> adec P Q m bs x"
  by (simp add: adec_def)

lemma adecE:
  assumes "adec P Q m bs x" and "P d" and "view d = bs @ rest"
  obtains d' where "m d = (Inr x, d')" "view d' = rest" "Q d'"
  using assms by (auto simp: adec_def)

lemma adec_bnd: "adec P Q m as x \<Longrightarrow> adec Q R (f x) bs y \<Longrightarrow> adec P R (bnd m f) (as @ bs) y"
proof (rule adecI)
  fix d rest
  assume m: "adec P Q m as x" and f: "adec Q R (f x) bs y" and "P d" "view d = (as @ bs) @ rest"
  from adecE [OF m, of d "bs @ rest"] this(3,4) obtain e where "m d = (Inr x, e)" "view e = bs @ rest" "Q e"
    by auto
  with adecE [OF f, of e rest] show "\<exists>d'. bnd m f d = (Inr y, d') \<and> view d' = rest \<and> R d'"
    by (metis bnd_Inr)
qed

lemma adec_ret: "adec P P (ret x) [] x"
  by (simp add: adec_def run_simps)

lemma adec_weaken:
  "adec P Q m bs x \<Longrightarrow> (\<And>d. P' d \<Longrightarrow> P d) \<Longrightarrow> (\<And>d. Q d \<Longrightarrow> Q' d) \<Longrightarrow> adec P' Q' m bs x"
  unfolding adec_def by meson

lemma adec_end: "adec P Q m bs x \<Longrightarrow> adec Q R (f x) [] y \<Longrightarrow> adec P R (bnd m f) bs y"
  using adec_bnd [where bs = "[]"] by fastforce

lemma adec_Cons: "adec P Q m [a] x \<Longrightarrow> adec Q R (f x) bs y \<Longrightarrow> adec P R (bnd m f) (a # bs) y"
  using adec_bnd [where as = "[a]"] by fastforce

lemma adec_last: "adec P Q m as x \<Longrightarrow> adec P Q (bnd m (\<lambda>x. ret (g x))) as (g x)"
  by (rule adec_end [OF _ adec_ret])

lemma adec_any: "adec any_marker Q m bs x \<Longrightarrow> adec no_marker Q m bs x"
  by (erule adec_weaken) (auto simp: any_marker_def no_marker_def)

lemma adec_buffered: "adec any_marker Q m bs x \<Longrightarrow> adec (buffered mm) Q m bs x"
  by (erule adec_weaken) (auto simp: any_marker_def buffered_def)

lemma adec_no: "adec P no_marker m bs x \<Longrightarrow> adec P any_marker m bs x"
  by (erule adec_weaken) (auto simp: any_marker_def no_marker_def)

lemma adec_rd_io: "sdec m bs x \<Longrightarrow> adec no_marker no_marker (rd_io m) bs x"
proof (rule adecI)
  fix d rest
  assume m: "sdec m bs x" and d: "no_marker d" "view d = bs @ rest"
  then have "ok (amf_reader d)" "unread (amf_reader d) = bs @ rest"
    by (auto simp: no_marker_def view_def pending_def)
  from sdecE [OF m this] obtain s' where "m (amf_reader d) = (Inr x, s')" "unread s' = rest" "ok s'" .
  with d show "\<exists>d'. rd_io m d = (Inr x, d') \<and> view d' = rest \<and> no_marker d'"
    by (simp add: rd_io_def no_marker_def view_def pending_def)
qed

lemma adec_read_marker:
  assumes bo: "byteorder_reads (zc_read z) bo" and mk: "marker_conversion mk"
  shows "adec any_marker no_marker (read_marker mk bo) [marker_value m] m"
proof (rule adecI)
  fix d rest
  assume d: "any_marker d" "view d = [marker_value m] @ rest"
  have mk': "mk (marker_value m) = Some m" for m using mk by (simp add: marker_conversion_def)
  show "\<exists>d'. read_marker mk bo d = (Inr m, d') \<and> view d' = rest \<and> no_marker d'"
  proof (cases "next_marker d")
    case None
    then have "no_marker d" using d by (simp add: any_marker_def no_marker_def)
    with adecE [OF adec_rd_io [OF sdec_bo(1) [OF bo, of "marker_value m"]], of d rest] d
    obtain d' where "rd_io (bo_u8 bo) d = (Inr (marker_value m), d')" "view d' = rest" "no_marker d'" by auto
    with None mk' show ?thesis by (simp add: read_marker_def run_simps)
  next
    case (Some m')
    with d have "marker_value m' = marker_value m" "unread (amf_reader d) = rest"
      by (auto simp: view_def pending_def)
    moreover from this mk' have "m' = m" by (metis option.inject)
    ultimately show ?thesis
      using Some d by (simp add: read_marker_def view_def pending_def any_marker_def no_marker_def)
  qed
qed

lemma adec_peek:
  assumes bo: "byteorder_reads (zc_read z) bo" and mk: "marker_conversion mk"
    and f: "adec (buffered m) Q (f m) (marker_value m # bs) x"
  shows "adec any_marker Q (bnd (peek_marker mk bo) f) (marker_value m # bs) x"
proof (rule adecI)
  fix d rest
  assume d: "any_marker d" "view d = (marker_value m # bs) @ rest"
  obtain d1 where d1: "read_marker mk bo d = (Inr m, d1)" "view d1 = bs @ rest" "no_marker d1"
    by (rule adecE [OF adec_read_marker [OF bo mk, of m] d(1), of "bs @ rest"]) (use d in auto)
  let ?d = "d1\<lparr>next_marker := Some m\<rparr>"
  have "buffered m ?d" "view ?d = (marker_value m # bs) @ rest"
    using d1 by (auto simp: buffered_def no_marker_def view_def pending_def)
  with f obtain d' where "f m ?d = (Inr x, d')" "view d' = rest" "Q d'" by (auto elim: adecE)
  with d1 show "\<exists>d'. bnd (peek_marker mk bo) f d = (Inr x, d') \<and> view d' = rest \<and> Q d'"
    by (simp add: peek_marker_def set_marker_def run_simps)
qed

lemma adec_expect:
  assumes "byteorder_reads (zc_read z) bo" and "marker_conversion mk" and "m \<in> set ms"
  shows "adec any_marker no_marker (expect_marker mk bo ms) [marker_value m] m"
  unfolding expect_marker_def
  by (rule adec_end [OF adec_read_marker [OF assms(1,2)]]) (simp add: assms(3) adec_ret)

lemma adec_read_string: "utf8_valid s \<Longrightarrow> n = length s \<Longrightarrow> adec no_marker no_marker (read_string z n) s s"
  unfolding read_string_def
  by (rule adec_end [OF adec_rd_io [OF sdec_try_read]]) (simp_all add: adec_ret)

lemma adec_bo:
  assumes "byteorder_reads (zc_read z) bo"
  shows "adec no_marker no_marker (rd_io (bo_u8 bo)) [b] b"
    and "adec no_marker no_marker (rd_io (bo_u16 bo)) (be_bytes 2 v) v"
    and "adec no_marker no_marker (rd_io (bo_u32 bo)) (be_bytes 4 w) w"
    and "adec no_marker no_marker (rd_io (bo_u64 bo)) (be_bytes 8 x) x"
proof -
  have "sdec (bo_u64 bo) (be_bytes 8 x) x"
    using assms sdec_be_read [of "be_bytes 8 x" 8, where 'a = 64]
    by (simp add: byteorder_reads_def be_bytes_def byte_bits_pack_whole length_pack_whole take_bit_word_eq_self)
  then show "adec no_marker no_marker (rd_io (bo_u64 bo)) (be_bytes 8 x) x" by (rule adec_rd_io)
  show "adec no_marker no_marker (rd_io (bo_u8 bo)) [b] b" by (rule adec_rd_io [OF sdec_bo(1) [OF assms]])
  show "adec no_marker no_marker (rd_io (bo_u16 bo)) (be_bytes 2 v) v"
    using adec_rd_io [OF sdec_bo(2) [OF assms]] by (simp add: be_bytes_def)
  show "adec no_marker no_marker (rd_io (bo_u32 bo)) (be_bytes 4 w) w"
    using adec_rd_io [OF sdec_bo(4) [OF assms]] by (simp add: be_bytes_def)
qed

lemma adec_normal_string:
  assumes "byteorder_reads (zc_read z) bo" and "utf8_valid s" and "length s < 2 ^ 16"
  shows "adec no_marker no_marker (decode_normal_string bo z) (key_bytes s) s"
  unfolding decode_normal_string_def key_bytes_def
  by (rule adec_bnd [OF adec_bo(2) [OF assms(1)] adec_read_string])
    (use assms in \<open>simp_all add: unsigned_of_nat take_bit_nat_eq_self\<close>)

lemma adec_string:
  assumes bo: "byteorder_reads (zc_read z) bo" and mk: "marker_conversion mk"
    and s: "utf8_valid s" "length s < 2 ^ 32"
  shows "adec any_marker no_marker (decode_string mk bo z) (string_bytes s) s"
proof (cases "length s \<le> 65535")
  case True
  have "adec no_marker no_marker (bnd (rd_io (bo_u16 bo)) (\<lambda>n. ret (unat n)))
      (be_bytes 2 (of_nat (length s) :: u16)) (unat (of_nat (length s) :: u16))"
    by (rule adec_last [OF adec_bo(2) [OF bo]])
  with True have n: "adec no_marker no_marker (bnd (rd_io (bo_u16 bo)) (\<lambda>n. ret (unat n)))
      (be_bytes 2 (of_nat (length s) :: u16)) (length s)"
    by (simp add: unsigned_of_nat take_bit_nat_eq_self)
  show ?thesis
    unfolding decode_string_def string_bytes_def if_P [OF True]
    by (rule adec_Cons [OF adec_expect [OF bo mk]], simp, simp)
      (rule adec_bnd [OF n adec_read_string], simp_all add: s)
next
  case False
  have "adec no_marker no_marker (bnd (rd_io (bo_u32 bo)) (\<lambda>n. ret (unat n)))
      (be_bytes 4 (of_nat (length s) :: u32)) (unat (of_nat (length s) :: u32))"
    by (rule adec_last [OF adec_bo(3) [OF bo]])
  with s have n: "adec no_marker no_marker (bnd (rd_io (bo_u32 bo)) (\<lambda>n. ret (unat n)))
      (be_bytes 4 (of_nat (length s) :: u32)) (length s)"
    by (simp add: unsigned_of_nat take_bit_nat_eq_self)
  show ?thesis
    unfolding decode_string_def string_bytes_def if_not_P [OF False]
    by (rule adec_Cons [OF adec_expect [OF bo mk]], simp, simp)
      (rule adec_bnd [OF n adec_read_string], simp_all add: s)
qed

text \<open>A key that is followed by a value, and the end of an object.\<close>

lemma marker_value_inj: "marker_value m = marker_value m' \<longleftrightarrow> m = m'"
  by (cases m; cases m'; simp)

lemma adec_key:
  assumes bo: "byteorder_reads (zc_read z) bo" and mk: "marker_conversion mk"
    and k: "utf8_valid k" "length k < 2 ^ 16" and m: "m \<noteq> ObjectEndMarker"
    and f: "adec any_marker Q (f (Some k)) (marker_value m # bs) y"
  shows "adec no_marker Q (bnd (decode_object_key mk bo z) f) (key_bytes k @ marker_value m # bs) y"
  unfolding decode_object_key_def bnd_assoc
proof (rule adec_bnd [OF adec_normal_string [OF bo k]], cases "k = []")
  case True
  have "adec any_marker Q (bnd (peek_marker mk bo) (\<lambda>m. bnd (if m = ObjectEndMarker
      then bnd (set_marker None) (\<lambda>_. ret None) else ret (Some k)) f)) (marker_value m # bs) y"
    by (rule adec_peek [OF bo mk]) (simp add: m f adec_buffered)
  from adec_any [OF this] True
  show "adec no_marker Q (bnd (if k = [] then bnd (peek_marker mk bo) (\<lambda>m. if m = ObjectEndMarker
      then bnd (set_marker None) (\<lambda>_. ret None) else ret (Some k)) else ret (Some k)) f) (marker_value m # bs) y"
    by (simp add: bnd_assoc)
next
  case False
  with adec_any [OF f] show "adec no_marker Q (bnd (if k = [] then bnd (peek_marker mk bo) (\<lambda>m. if m = ObjectEndMarker
      then bnd (set_marker None) (\<lambda>_. ret None) else ret (Some k)) else ret (Some k)) f) (marker_value m # bs) y"
    by simp
qed

lemma adec_object_end:
  assumes bo: "byteorder_reads (zc_read z) bo" and mk: "marker_conversion mk"
  shows "adec no_marker no_marker (decode_object_key mk bo z) [0, 0, marker_value ObjectEndMarker] None"
proof -
  have "key_bytes [] = [0, 0]" by code_simp
  moreover have "adec any_marker no_marker (bnd (peek_marker mk bo) (\<lambda>m. if m = ObjectEndMarker
      then bnd (set_marker None) (\<lambda>_. ret None) else ret (Some []))) [marker_value ObjectEndMarker] None"
    by (rule adec_peek [OF bo mk])
      (auto simp: adec_def buffered_def no_marker_def view_def pending_def set_marker_def run_simps)
  ultimately show ?thesis
    using adec_bnd [OF adec_normal_string [OF bo, of "[]"], where f = "\<lambda>key. if key = [] then bnd (peek_marker mk bo) (\<lambda>m. if m = ObjectEndMarker
      then bnd (set_marker None) (\<lambda>_. ret None) else ret (Some key)) else ret (Some key)"]
    by (auto simp: decode_object_key_def dest: adec_any)
qed

end

lemma update_new: "k \<notin> fst ` set m \<Longrightarrow> AList.update k v m = m @ [(k, v)]"
  by (induction m) auto

lemma amf0_bytes_marker: "\<exists>m bs. amf0_bytes v = marker_value m # bs \<and> m \<noteq> ObjectEndMarker"
proof (cases v)
  case (Amf0String s)
  then have "\<exists>bs. amf0_bytes v = marker_value StringMarker # bs \<or> amf0_bytes v = marker_value LongStringMarker # bs"
    by (simp add: string_bytes_def)
  then show ?thesis by blast
qed (auto simp del: marker_value.simps intro: exI [of _ NumberMarker] exI [of _ BooleanMarker]
    exI [of _ ObjectMarker] exI [of _ NullMarker] exI [of _ StrictArrayMarker])

context zero_copy_source
begin

lemma adec_members:
  assumes bo: "byteorder_reads (zc_read z) bo" and mk: "marker_conversion mk"
  shows "(\<forall>(k, v) \<in> set ps. utf8_valid k \<and> length k < 2 ^ 16 \<and> adec any_marker no_marker dv (amf0_bytes v) v) \<Longrightarrow>
    distinct (map fst (acc @ ps)) \<Longrightarrow> length ps < fuel \<Longrightarrow>
    adec no_marker no_marker (decode_members fuel dv mk bo z acc)
      (concat (map (\<lambda>(k, v). key_bytes k @ amf0_bytes v) ps) @ [0, 0, marker_value ObjectEndMarker]) (acc @ ps)"
proof (induction ps arbitrary: acc fuel)
  case Nil
  then obtain f where f: "fuel = Suc f" by (cases fuel) auto
  show ?case
    unfolding f decode_members.simps
    by (simp del: marker_value.simps) (rule adec_end [OF adec_object_end [OF bo mk]], simp add: adec_ret)
next
  case (Cons p ps)
  obtain k v where p: "p = (k, v)" by (cases p)
  obtain f where f: "fuel = Suc f" using Cons.prems(3) by (cases fuel) auto
  obtain m bs where m: "amf0_bytes v = marker_value m # bs" "m \<noteq> ObjectEndMarker"
    using amf0_bytes_marker by blast
  let ?tl = "concat (map (\<lambda>(k, v). key_bytes k @ amf0_bytes v) ps) @ [0, 0, marker_value ObjectEndMarker]"
  from Cons.prems p have k: "utf8_valid k" "length k < 2 ^ 16" and v: "adec any_marker no_marker dv (amf0_bytes v) v"
    and new: "k \<notin> fst ` set acc" by auto
  have "adec no_marker no_marker (decode_members f dv mk bo z (acc @ [(k, v)])) ?tl ((acc @ [(k, v)]) @ ps)"
    using Cons.prems p f by (intro Cons.IH) auto
  then have tl: "adec no_marker no_marker (decode_members f dv mk bo z (hm_insert k v acc)) ?tl (acc @ p # ps)"
    by (simp add: update_new [OF new] p)
  have "adec any_marker no_marker (bnd dv (\<lambda>v. decode_members f dv mk bo z (hm_insert k v acc)))
      (amf0_bytes v @ ?tl) (acc @ p # ps)"
    by (rule adec_bnd [OF v]) (rule tl)
  then have "adec any_marker no_marker (bnd dv (\<lambda>v. decode_members f dv mk bo z (hm_insert k v acc)))
      (marker_value m # bs @ ?tl) (acc @ p # ps)"
    by (simp only: m append_Cons)
  then have "adec no_marker no_marker (bnd (decode_object_key mk bo z) (\<lambda>k. case k of None \<Rightarrow> ret acc
      | Some key \<Rightarrow> bnd dv (\<lambda>v. decode_members f dv mk bo z (hm_insert key v acc))))
      (key_bytes k @ marker_value m # bs @ ?tl) (acc @ p # ps)"
    by (intro adec_key [OF bo mk k m(2)]) simp
  then show ?case by (simp add: f p m del: marker_value.simps)
qed

lemma adec_times:
  "(\<And>v. v \<in> set vs \<Longrightarrow> adec any_marker no_marker dv (amf0_bytes v) v) \<Longrightarrow>
    adec no_marker no_marker (times_io (length vs) dv) (concat (map amf0_bytes vs)) vs"
proof (induction vs)
  case Nil
  show ?case by (simp add: adec_ret)
next
  case (Cons v vs)
  then show ?case by (auto intro!: adec_bnd adec_any adec_last)
qed

lemma adec_number:
  assumes "byteorder_reads (zc_read z) bo" and "marker_conversion mk"
  shows "adec any_marker no_marker (decode_number mk bo) (marker_value NumberMarker # be_bytes 8 x) x"
  unfolding decode_number_def
  by (rule adec_Cons [OF adec_expect [OF assms]], simp, rule adec_end [OF adec_bo(4) [OF assms(1)]]) (simp add: adec_ret)

lemma adec_boolean:
  assumes "byteorder_reads (zc_read z) bo" and "marker_conversion mk"
  shows "adec any_marker no_marker (decode_boolean mk bo) [marker_value BooleanMarker, if b then 1 else 0] b"
proof -
  have "adec any_marker no_marker (decode_boolean mk bo) [marker_value BooleanMarker, if b then 1 else 0] ((if b then 1 else 0) \<noteq> (0 :: u8))"
    unfolding decode_boolean_def
    by (rule adec_Cons [OF adec_expect [OF assms]], simp, rule adec_last [OF adec_bo(1) [OF assms(1)]])
  then show ?thesis by (cases b) auto
qed

lemma adec_null:
  assumes "byteorder_reads (zc_read z) bo" and "marker_conversion mk"
  shows "adec any_marker no_marker (decode_null mk bo) [marker_value NullMarker] ()"
  unfolding decode_null_def by (rule adec_end [OF adec_expect [OF assms]]) (simp_all add: adec_ret)

lemma adec_object_pairs:
  assumes bo: "byteorder_reads (zc_read z) bo" and mk: "marker_conversion mk"
    and ps: "\<forall>(k, v) \<in> set ps. utf8_valid k \<and> length k < 2 ^ 16 \<and> adec any_marker no_marker dv (amf0_bytes v) v"
    and "distinct (map fst ps)" and "length ps < fuel"
  shows "adec any_marker no_marker (decode_object fuel dv mk bo z) (amf0_bytes (Amf0Object ps)) ps"
proof -
  have members: "adec no_marker no_marker (decode_members fuel dv mk bo z [])
      (concat (map (\<lambda>(k, v). key_bytes k @ amf0_bytes v) ps) @ [0, 0, marker_value ObjectEndMarker]) ps"
    using adec_members [OF bo mk ps, of "[]" fuel] assms(4,5) by simp
  have head: "adec any_marker no_marker (decode_object_header mk bo z) [marker_value ObjectMarker] ObjectHeader"
    unfolding decode_object_header_def
    by (rule adec_end [OF adec_expect [OF bo mk]]) (simp_all add: adec_ret)
  show ?thesis
    unfolding decode_object_def amf0_bytes.simps
    by (rule adec_Cons [OF head]) (simp only: object_header.case members)
qed

theorem adec_decode_value:
  assumes bo: "byteorder_reads (zc_read z) bo" and mk: "marker_conversion mk"
  shows "amf0_ok v \<Longrightarrow> amf0_fuel v \<le> fuel \<Longrightarrow>
    adec any_marker no_marker (decode_value fuel mk bo z) (amf0_bytes v) v"
proof (induction v arbitrary: fuel)
  case (Amf0Number x)
  then obtain f where f: "fuel = Suc f" by (cases fuel) auto
  have "adec any_marker no_marker (decode_number mk bo) (marker_value NumberMarker # be_bytes 8 x) x"
    by (rule adec_number [OF bo mk])
  then show ?case
    unfolding f decode_value.simps amf0_bytes.simps
    by (intro adec_peek [OF bo mk]) (auto intro!: adec_buffered adec_last)
next
  case (Amf0Boolean b)
  then obtain f where f: "fuel = Suc f" by (cases fuel) auto
  have "adec any_marker no_marker (decode_boolean mk bo) [marker_value BooleanMarker, if b then 1 else 0] b"
    by (rule adec_boolean [OF bo mk])
  then show ?case
    unfolding f decode_value.simps amf0_bytes.simps
    by (intro adec_peek [OF bo mk]) (auto intro!: adec_buffered adec_last)
next
  case (Amf0String s)
  then obtain f where f: "fuel = Suc f" by (cases fuel) auto
  obtain m bs where m: "string_bytes s = marker_value m # bs" "m \<in> {StringMarker, LongStringMarker}"
    by (cases "length s \<le> 65535") (auto simp: string_bytes_def simp del: marker_value.simps)
  have "adec any_marker no_marker (decode_string mk bo z) (string_bytes s) s"
    using Amf0String by (intro adec_string [OF bo mk]) auto
  then show ?case
    using m(2) unfolding f decode_value.simps amf0_bytes.simps m(1)
    by (intro adec_peek [OF bo mk]) (auto intro!: adec_buffered adec_last)
next
  case (Amf0Object ps)
  then obtain f where f: "fuel = Suc f" by (cases fuel) auto
  have le: "amf0_fuel v \<le> sum_list (map (\<lambda>(k, v). amf0_fuel v) ps)" if "(k, v) \<in> set ps" for k v
    using that by (induction ps) auto
  have "\<forall>(k, v) \<in> set ps. utf8_valid k \<and> length k < 2 ^ 16 \<and>
      adec any_marker no_marker (decode_value f mk bo z) (amf0_bytes v) v"
  proof (intro ballI, clarify)
    fix k v
    assume kv: "(k, v) \<in> set ps"
    then have "amf0_fuel v \<le> f" using le [OF kv] Amf0Object.prems(2) f by simp
    moreover have "amf0_ok v" "utf8_valid k \<and> length k < 2 ^ 16" using Amf0Object.prems(1) kv by auto
    ultimately show "utf8_valid k \<and> length k < 2 ^ 16 \<and>
        adec any_marker no_marker (decode_value f mk bo z) (amf0_bytes v) v"
      using Amf0Object.IH [OF kv] by simp
  qed
  then have "adec any_marker no_marker (decode_object f (decode_value f mk bo z) mk bo z) (amf0_bytes (Amf0Object ps)) ps"
    using Amf0Object.prems f by (intro adec_object_pairs [OF bo mk]) auto
  then show ?case
    unfolding f decode_value.simps amf0_bytes.simps
    by (intro adec_peek [OF bo mk]) (auto intro!: adec_buffered adec_last)
next
  case Amf0Null
  then obtain f where f: "fuel = Suc f" by (cases fuel) auto
  have "adec any_marker no_marker (decode_null mk bo) [marker_value NullMarker] ()"
    unfolding decode_null_def by (rule adec_end [OF adec_expect [OF bo mk]]) (simp_all add: adec_ret)
  then show ?case
    unfolding f decode_value.simps amf0_bytes.simps
    by (intro adec_peek [OF bo mk]) (auto intro!: adec_buffered adec_last)
next
  case (Amf0Array vs)
  then obtain f where f: "fuel = Suc f" by (cases fuel) auto
  have le: "amf0_fuel v \<le> sum_list (map amf0_fuel vs)" if "v \<in> set vs" for v
    using that by (induction vs) auto
  have items: "adec no_marker no_marker (times_io (length vs) (decode_value f mk bo z)) (concat (map amf0_bytes vs)) vs"
    using Amf0Array f le by (intro adec_times) (fastforce dest: le)
  have n: "unat (of_nat (length vs) :: u32) = length vs"
    using Amf0Array.prems(1) by (simp add: unsigned_of_nat take_bit_nat_eq_self)
  have "adec any_marker no_marker (decode_strict_array (decode_value f mk bo z) mk bo) (amf0_bytes (Amf0Array vs)) vs"
    unfolding decode_strict_array_def decode_strict_array_header_def amf0_bytes.simps bnd_assoc
    by (rule adec_Cons [OF adec_expect [OF bo mk]], simp, rule adec_bnd [OF adec_bo(3) [OF bo]])
      (simp only: n items)
  then show ?case
    unfolding f decode_value.simps amf0_bytes.simps
    by (intro adec_peek [OF bo mk]) (auto intro!: adec_buffered adec_last)
qed

lemma adec_object:
  assumes bo: "byteorder_reads (zc_read z) bo" and mk: "marker_conversion mk"
    and ok: "amf0_ok (Amf0Object ps)" and fuel: "amf0_fuel (Amf0Object ps) \<le> fuel"
  shows "adec any_marker no_marker (decode_object fuel (decode_value fuel mk bo z) mk bo z) (amf0_bytes (Amf0Object ps)) ps"
proof -
  have "amf0_fuel v \<le> sum_list (map (\<lambda>(k, v). amf0_fuel v) ps)" if "(k, v) \<in> set ps" for k v
    using that by (induction ps) auto
  then have "amf0_fuel v \<le> fuel" if "(k, v) \<in> set ps" for k v
    using that fuel by fastforce
  then show ?thesis
    using ok fuel by (intro adec_object_pairs [OF bo mk]) (auto intro!: adec_decode_value [OF bo mk])
qed

end

end
