(* ===== verification/Amf0_Props.thy ===== *)
theory Amf0_Props
  imports Amf0_Roundtrip
begin

text \<open>
  Every run of the AMF0 decoder ends, with fuel above the number of bytes that are left, and
  the properties of the coder over a slice and a vector.
\<close>

subsection \<open>Every run ends\<close>

text \<open>
  \<open>bounded_run N k m\<close>: on at most \<open>N\<close> bytes (a buffered marker counts), \<open>m\<close> does not run out of
  fuel, and when it succeeds it has consumed \<open>k\<close> bytes or more.
\<close>

context zero_copy_source
begin

definition bounded_run :: "nat \<Rightarrow> nat \<Rightarrow> ('s, 'a) amf0 \<Rightarrow> bool" where
  "bounded_run N k m \<longleftrightarrow> (\<forall>d. any_marker d \<longrightarrow> length (view d) \<le> N \<longrightarrow>
     (case m d of
        (Inr x, d') \<Rightarrow> any_marker d' \<and> length (view d') + k \<le> length (view d)
      | (Inl e, d') \<Rightarrow> e \<noteq> Amf0Fuel))"

lemma bounded_ret: "bounded_run N 0 (ret x)"
  by (simp add: bounded_run_def run_simps)

lemma bounded_fail: "e \<noteq> Amf0Fuel \<Longrightarrow> bounded_run N k (fail e)"
  by (simp add: bounded_run_def run_simps)

lemma bounded_mono: "bounded_run N k m \<Longrightarrow> M \<le> N \<Longrightarrow> j \<le> k \<Longrightarrow> bounded_run M j m"
  unfolding bounded_run_def by (fastforce split: prod.splits sum.splits)

lemma bounded_bnd:
  assumes m: "bounded_run N j m" and f: "\<And>x. j \<le> N \<Longrightarrow> bounded_run (N - j) k (f x)"
  shows "bounded_run N (j + k) (bnd m f)"
  unfolding bounded_run_def
proof (intro allI impI)
  fix d
  assume d: "any_marker d" "length (view d) \<le> N"
  show "case bnd m f d of (Inr x, d') \<Rightarrow> any_marker d' \<and> length (view d') + (j + k) \<le> length (view d)
    | (Inl e, d') \<Rightarrow> e \<noteq> Amf0Fuel"
  proof (cases "m d")
    case (Pair r d')
    show ?thesis
    proof (cases r)
      case (Inl e)
      with Pair m d show ?thesis by (fastforce simp: bounded_run_def)
    next
      case (Inr x)
      with Pair m d have d': "any_marker d'" "length (view d') + j \<le> length (view d)"
        by (fastforce simp: bounded_run_def)+
      with d have "bounded_run (N - j) k (f x)" "length (view d') \<le> N - j" by (auto intro: f)
      with d' Pair Inr show ?thesis
        by (fastforce simp: bounded_run_def split: prod.splits sum.splits)
    qed
  qed
qed

lemma bounded_bnd0: "bounded_run N j m \<Longrightarrow> (\<And>x. bounded_run N 0 (f x)) \<Longrightarrow> bounded_run N j (bnd m f)"
  using bounded_bnd [of N j m 0 f] bounded_mono [of N 0 _ "N - j" 0] by auto

lemma length_view: "length (view d) = length (pending d) + length (unread (amf_reader d))"
  by (simp add: view_def)

lemma bounded_read_exact: "bounded_run N n (rd_io (bnd (read_exact (zc_read z) n) (\<lambda>bs. ret (f bs))))"
  unfolding bounded_run_def
proof (intro allI impI)
  fix d
  assume "any_marker d"
  then have ok: "ok (amf_reader d)" by (simp add: any_marker_def)
  show "case rd_io (bnd (read_exact (zc_read z) n) (\<lambda>bs. ret (f bs))) d of
      (Inr x, d') \<Rightarrow> any_marker d' \<and> length (view d') + n \<le> length (view d) | (Inl e, d') \<Rightarrow> e \<noteq> Amf0Fuel"
    by (rule read_exact_cases [OF ok, of n])
      (auto simp: rd_io_def run_simps any_marker_def length_view pending_def eof_error_def)
qed

lemma bounded_try_read: "bounded_run N n (rd_io (zc_try_read z n))"
  unfolding bounded_run_def
proof (intro allI impI)
  fix d
  assume "any_marker d"
  then have ok: "ok (amf_reader d)" by (simp add: any_marker_def)
  show "case rd_io (zc_try_read z n) d of
      (Inr x, d') \<Rightarrow> any_marker d' \<and> length (view d') + n \<le> length (view d) | (Inl e, d') \<Rightarrow> e \<noteq> Amf0Fuel"
    using try_read_ok [OF ok, of n] try_read_eof [OF ok, of n]
    by (cases "n \<le> length (unread (amf_reader d))")
      (auto simp: rd_io_def any_marker_def length_view pending_def)
qed

lemma bounded_bo:
  assumes "byteorder_reads (zc_read z) bo"
  shows "bounded_run N 1 (rd_io (bo_u8 bo))" "bounded_run N 2 (rd_io (bo_u16 bo))"
    "bounded_run N 4 (rd_io (bo_u32 bo))" "bounded_run N 8 (rd_io (bo_u64 bo))"
  using assms by (simp_all add: byteorder_reads_def be_read_def bounded_read_exact)

lemma bounded_read_marker:
  assumes "byteorder_reads (zc_read z) bo"
  shows "bounded_run N 1 (read_marker mk bo)"
proof -
  have "bounded_run N 1 (bnd (rd_io (bo_u8 bo)) (\<lambda>b. case mk b of None \<Rightarrow> fail (Amf0UnknownMarker b) | Some m \<Rightarrow> ret m))"
    by (rule bounded_bnd0 [OF bounded_bo(1) [OF assms]]) (auto intro: bounded_ret bounded_fail split: option.splits)
  then show ?thesis
    by (auto simp: bounded_run_def read_marker_def any_marker_def length_view pending_def split: option.splits)
qed

lemma read_marker_clears: "read_marker mk bo d = (Inr m, d') \<Longrightarrow> next_marker d' = None"
  by (auto simp: read_marker_def rd_io_def run_simps split: option.splits prod.splits sum.splits elim!: bnd_InrE)

lemma bounded_peek:
  assumes "byteorder_reads (zc_read z) bo"
  shows "bounded_run N 0 (peek_marker mk bo)"
  unfolding bounded_run_def
proof (intro allI impI)
  fix d
  assume d: "any_marker d" "length (view d) \<le> N"
  show "case peek_marker mk bo d of (Inr x, d') \<Rightarrow> any_marker d' \<and> length (view d') + 0 \<le> length (view d)
    | (Inl e, d') \<Rightarrow> e \<noteq> Amf0Fuel"
    using bounded_read_marker [OF assms, of N mk] d read_marker_clears [of mk bo d]
    by (cases "read_marker mk bo d"; cases "fst (read_marker mk bo d)")
      (fastforce simp: bounded_run_def peek_marker_def set_marker_def run_simps any_marker_def length_view pending_def)+
qed

lemma peek_eof:
  assumes bo: "byteorder_reads (zc_read z) bo" and d: "any_marker d"
    and p: "peek_marker mk bo d = (Inl (Amf0Io (IoErr UnexpectedEof msg)), d')"
  shows "any_marker d' \<and> length (view d') \<le> length (view d)"
proof -
  have none: "next_marker d = None"
    using p by (cases "next_marker d") (auto simp: peek_marker_def read_marker_def set_marker_def run_simps)
  have ok: "ok (amf_reader d)" using d by (simp add: any_marker_def)
  from bo have u8: "bo_u8 bo = be_read (zc_read z) 1" by (simp add: byteorder_reads_def)
  show ?thesis
  proof (rule read_exact_cases [OF ok, of 1])
    fix s'
    assume "read_exact (zc_read z) 1 (amf_reader d) = (Inr (take 1 (unread (amf_reader d))), s')"
    then obtain b where "rd_io (bo_u8 bo) d = (Inr b, d\<lparr>amf_reader := s'\<rparr>)"
      by (simp add: rd_io_def u8 be_read_def run_simps)
    with p none show ?thesis
      by (cases "mk b") (simp_all add: peek_marker_def read_marker_def bnd_def run_simps set_marker_def)
  next
    fix s'
    assume s': "read_exact (zc_read z) 1 (amf_reader d) = (Inl eof_error, s')" "unread s' = []" "ok s'"
    then have "rd_io (bo_u8 bo) d = (Inl (amf0_io eof_error), d\<lparr>amf_reader := s'\<rparr>)"
      by (simp add: rd_io_def u8 be_read_def run_simps)
    with p none have "d' = d\<lparr>amf_reader := s'\<rparr>"
      by (simp add: peek_marker_def read_marker_def bnd_def run_simps)
    with s' show ?thesis by (simp add: any_marker_def length_view pending_def)
  qed
qed

lemma bounded_has_remaining:
  assumes bo: "byteorder_reads (zc_read z) bo"
  shows "bounded_run N 0 (has_remaining_value mk bo)"
  unfolding bounded_run_def
proof (intro allI impI)
  fix d
  assume d: "any_marker d" "length (view d) \<le> N"
  show "case has_remaining_value mk bo d of (Inr x, d') \<Rightarrow> any_marker d' \<and> length (view d') + 0 \<le> length (view d)
    | (Inl e, d') \<Rightarrow> e \<noteq> Amf0Fuel"
  proof (cases "peek_marker mk bo d")
    case (Pair r d')
    show ?thesis
    proof (cases r)
      case (Inr x)
      with Pair d bounded_peek [OF bo, of N mk] show ?thesis
        by (fastforce simp: bounded_run_def has_remaining_value_def)
    next
      case (Inl e)
      have ok: "ok (amf_reader d)" using d by (simp add: any_marker_def)
      have "any_marker d' \<and> length (view d') \<le> length (view d)" if "e = Amf0Io (IoErr UnexpectedEof msg)" for msg
        using peek_eof [OF bo d(1)] Pair Inl that by blast
      moreover have "e \<noteq> Amf0Fuel" using Pair Inl d bounded_peek [OF bo, of N mk] by (fastforce simp: bounded_run_def)
      ultimately show ?thesis
        using Pair Inl
        by (auto simp: has_remaining_value_def split: amf0_error.splits err.splits io_kind.splits)
    qed
  qed
qed

end

text \<open>The encoding of a value is longer than the fuel it takes.\<close>

lemma length_concat_bound:
  fixes g :: "'a \<Rightarrow> nat"
  shows "(\<And>x. x \<in> set xs \<Longrightarrow> g x + k \<le> length (f x)) \<Longrightarrow> sum_list (map g xs) + k * length xs \<le> length (concat (map f xs))"
proof (induction xs)
  case (Cons x xs)
  have "g x + k \<le> length (f x)" "sum_list (map g xs) + k * length xs \<le> length (concat (map f xs))"
    using Cons by simp_all
  then show ?case by simp
qed simp

lemma amf0_fuel_le: "amf0_fuel v \<le> length (amf0_bytes v)"
proof (induction v)
  case (Amf0Object ps)
  have "sum_list (map (\<lambda>(k, v). amf0_fuel v) ps) + 1 * length ps \<le> length (concat (map (\<lambda>(k, v). key_bytes k @ amf0_bytes v) ps))"
  proof (rule length_concat_bound)
    fix x
    assume "x \<in> set ps"
    moreover obtain k v where "x = (k, v)" by force
    ultimately have "amf0_fuel (snd x) \<le> length (amf0_bytes (snd x))" using Amf0Object [of x v] by simp
    then show "(case x of (k, v) \<Rightarrow> amf0_fuel v) + 1 \<le> length (case x of (k, v) \<Rightarrow> key_bytes k @ amf0_bytes v)"
      by (simp add: key_bytes_def case_prod_unfold)
  qed
  then show ?case by simp
next
  case (Amf0Array vs)
  have "sum_list (map amf0_fuel vs) + 0 * length vs \<le> length (concat (map amf0_bytes vs))"
    using Amf0Array by (intro length_concat_bound) simp
  then show ?case by simp
qed (simp_all add: string_bytes_def)

context zero_copy_source
begin

lemma bounded_expect:
  assumes "byteorder_reads (zc_read z) bo"
  shows "bounded_run N 1 (expect_marker mk bo ms)"
  unfolding expect_marker_def
  by (rule bounded_bnd0 [OF bounded_read_marker [OF assms]]) (simp add: bounded_ret bounded_fail)

lemma bounded_read_string: "bounded_run N n (read_string z n)"
  unfolding read_string_def
  by (rule bounded_bnd0 [OF bounded_try_read]) (simp add: bounded_ret bounded_fail)

lemma bounded_normal_string:
  assumes "byteorder_reads (zc_read z) bo"
  shows "bounded_run N 2 (decode_normal_string bo z)"
  unfolding decode_normal_string_def
  by (rule bounded_bnd0 [OF bounded_bo(2) [OF assms]]) (rule bounded_mono [OF bounded_read_string], auto)

lemma bounded_zero: "bounded_run N k m \<Longrightarrow> bounded_run N 0 m"
  by (erule bounded_mono) auto

lemma bounded_set_none: "bounded_run N 0 (set_marker None)"
  by (auto simp: bounded_run_def set_marker_def any_marker_def length_view pending_def)

text \<open>The calls that do not recurse consume their marker.\<close>

lemma bounded_leaves:
  assumes bo: "byteorder_reads (zc_read z) bo"
  shows "bounded_run N 1 (decode_boolean mk bo)" "bounded_run N 1 (decode_number mk bo)"
    "bounded_run N 1 (decode_string mk bo z)" "bounded_run N 1 (decode_null mk bo)"
    "bounded_run N 1 (decode_object_header mk bo z)" "bounded_run N 1 (decode_strict_array_header mk bo)"
proof -
  note intros = bounded_bnd0 bounded_expect [OF bo] bounded_ret bounded_fail bounded_zero [OF bounded_bo(1) [OF bo]]
    bounded_zero [OF bounded_bo(2) [OF bo]] bounded_zero [OF bounded_bo(3) [OF bo]] bounded_zero [OF bounded_bo(4) [OF bo]]
    bounded_zero [OF bounded_normal_string [OF bo]] bounded_zero [OF bounded_read_string]
  show "bounded_run N 1 (decode_boolean mk bo)" unfolding decode_boolean_def by (intro intros)
  show "bounded_run N 1 (decode_number mk bo)" unfolding decode_number_def by (auto simp del: One_nat_def intro!: intros)
  show "bounded_run N 1 (decode_string mk bo z)" unfolding decode_string_def by (auto simp del: One_nat_def intro!: intros)
  show "bounded_run N 1 (decode_null mk bo)" unfolding decode_null_def by (intro intros)
  show "bounded_run N 1 (decode_object_header mk bo z)" unfolding decode_object_header_def by (auto simp del: One_nat_def intro!: intros)
  show "bounded_run N 1 (decode_strict_array_header mk bo)"
    unfolding decode_strict_array_header_def by (intro intros)
qed

lemma bounded_key:
  assumes bo: "byteorder_reads (zc_read z) bo"
  shows "bounded_run N 2 (decode_object_key mk bo z)"
  unfolding decode_object_key_def
  by (rule bounded_bnd0 [OF bounded_normal_string [OF bo]])
    (auto intro!: bounded_bnd0 bounded_peek [OF bo] bounded_ret bounded_set_none)

lemma bounded_ecma_end:
  assumes bo: "byteorder_reads (zc_read z) bo"
  shows "bounded_run N 0 (decode_ecma_end mk bo)"
  unfolding decode_ecma_end_def
  by (auto intro!: bounded_bnd0 bounded_has_remaining [OF bo] bounded_peek [OF bo] bounded_ret bounded_set_none)

text \<open>A key and its value, and what follows them.\<close>

lemma bounded_member:
  assumes key: "bounded_run N 2 key" and dv: "bounded_run N 1 dv"
    and f: "\<And>x v. 3 \<le> N \<Longrightarrow> bounded_run (N - 3) 0 (f x v)"
  shows "bounded_run N 0 (bnd key (\<lambda>x. bnd dv (f x)))"
proof -
  have "bounded_run (N - 2) 0 (bnd dv (f x))" if "2 \<le> N" for x
  proof -
    have "bounded_run (N - 2) 1 dv" by (rule bounded_mono [OF dv]) auto
    moreover have "bounded_run (N - 2 - 1) 0 (f x v)" if "1 \<le> N - 2" for v
      using f [of x v] that by (simp add: numeral_eq_Suc)
    ultimately have "bounded_run (N - 2) (1 + 0) (bnd dv (f x))" by (rule bounded_bnd)
    then show ?thesis by (rule bounded_zero)
  qed
  with key have "bounded_run N (2 + 0) (bnd key (\<lambda>x. bnd dv (f x)))" by (rule bounded_bnd)
  then show ?thesis by (rule bounded_zero)
qed

lemma bounded_members:
  assumes bo: "byteorder_reads (zc_read z) bo"
  shows "bounded_run N 1 dv \<Longrightarrow> N < fuel \<Longrightarrow> bounded_run N 0 (decode_members fuel dv mk bo z acc)"
proof (induction fuel arbitrary: N acc)
  case (Suc f)
  have key: "bounded_run N 2 (decode_object_key mk bo z)" by (rule bounded_key [OF bo])
  have some: "bounded_run (N - 2) 0 (bnd dv (\<lambda>v. decode_members f dv mk bo z (hm_insert k v acc)))" if "2 \<le> N" for k
  proof -
    have "bounded_run (N - 2) 1 dv" by (rule bounded_mono [OF Suc.prems(1)]) auto
    moreover have "bounded_run (N - 2 - 1) 0 (decode_members f dv mk bo z (hm_insert k v acc))" if "1 \<le> N - 2" for v
      using Suc.prems that by (intro Suc.IH) (auto intro: bounded_mono)
    ultimately have "bounded_run (N - 2) (1 + 0) (bnd dv (\<lambda>v. decode_members f dv mk bo z (hm_insert k v acc)))"
      by (rule bounded_bnd)
    then show ?thesis by (rule bounded_zero)
  qed
  have "bounded_run N (2 + 0) (decode_members (Suc f) dv mk bo z acc)"
    unfolding decode_members.simps
    by (rule bounded_bnd [OF key]) (auto intro: some bounded_ret split: option.splits)
  then show ?case by (rule bounded_zero)
qed simp

lemma bounded_pairs:
  assumes bo: "byteorder_reads (zc_read z) bo"
  shows "bounded_run N 1 dv \<Longrightarrow> bounded_run N 0 (decode_pairs n dv bo z acc)"
proof (induction n arbitrary: N acc)
  case (Suc n)
  have "bounded_run (N - 3) 1 dv" by (rule bounded_mono [OF Suc.prems]) auto
  then have "bounded_run (N - 3) 0 (decode_pairs n dv bo z acc)" for acc by (rule Suc.IH)
  with Suc.prems show ?case
    unfolding decode_pairs.simps by (intro bounded_member bounded_normal_string [OF bo])
qed (simp add: bounded_ret)

lemma bounded_times: "bounded_run N 1 dv \<Longrightarrow> bounded_run N 0 (times_io n dv)"
proof (induction n)
  case (Suc n)
  then show ?case by (auto intro!: bounded_bnd0 bounded_ret intro: bounded_zero)
qed (simp add: bounded_ret)

lemma bounded_decode_value:
  assumes bo: "byteorder_reads (zc_read z) bo"
  shows "N < fuel \<Longrightarrow> bounded_run N 1 (decode_value fuel mk bo z)"
proof (induction fuel arbitrary: N)
  case (Suc f)
  let ?dv = "decode_value f mk bo z"
  have dv: "bounded_run (N - 1) 1 ?dv" if "1 \<le> N" using Suc that by simp
  have obj: "bounded_run N 1 (decode_object f ?dv mk bo z)"
  proof -
    have "bounded_run (N - 1) 0 (case h of EcmaArrayHeader sz \<Rightarrow>
        bnd (decode_pairs (unat sz) ?dv bo z []) (\<lambda>ps. bnd (decode_ecma_end mk bo) (\<lambda>_. ret ps))
      | _ \<Rightarrow> decode_members f ?dv mk bo z [])" if "1 \<le> N" for h
      using that Suc.prems dv [OF that]
      by (cases h) (auto intro!: bounded_bnd0 bounded_members [OF bo] bounded_pairs [OF bo] bounded_ecma_end [OF bo] bounded_ret)
    with bounded_leaves(5) [OF bo] have "bounded_run N (1 + 0) (decode_object f ?dv mk bo z)"
      unfolding decode_object_def by (rule bounded_bnd)
    then show ?thesis by simp
  qed
  have arr: "bounded_run N 1 (decode_strict_array ?dv mk bo)"
  proof -
    have "bounded_run N (1 + 0) (decode_strict_array ?dv mk bo)"
      unfolding decode_strict_array_def
      by (rule bounded_bnd [OF bounded_leaves(6) [OF bo]]) (rule bounded_times [OF dv])
    then show ?thesis by simp
  qed
  have "bounded_run N (0 + 1) (decode_value (Suc f) mk bo z)"
    unfolding decode_value.simps
    by (rule bounded_bnd [OF bounded_peek [OF bo]])
      (auto simp del: One_nat_def intro!: bounded_bnd0 [OF obj] bounded_bnd0 [OF arr] bounded_bnd0 bounded_leaves [OF bo] bounded_ret bounded_fail)
  then show ?case by simp
qed simp

lemma decode_value_ends:
  assumes "byteorder_reads (zc_read z) bo" and "ok s" and "length (unread s) < fuel"
  shows "fst (decode_value fuel mk bo z (amf0_decoder_new s)) \<noteq> Inl Amf0Fuel"
proof -
  have "any_marker (amf0_decoder_new s)" "length (view (amf0_decoder_new s)) \<le> length (unread s)"
    using assms(2) by (simp_all add: any_marker_def amf0_decoder_new_def view_def pending_def)
  with bounded_decode_value [OF assms(1,3), of mk] show ?thesis
    by (cases "decode_value fuel mk bo z (amf0_decoder_new s)")
      (fastforce simp: bounded_run_def split: sum.splits)
qed

lemma peek_first:
  assumes bo: "byteorder_reads (zc_read z) bo" and mk: "marker_conversion mk"
    and d: "any_marker d" "view d = marker_value m # bs"
  shows "\<exists>d'. peek_marker mk bo d = (Inr m, d') \<and> any_marker d' \<and> view d' = view d"
proof -
  obtain d1 where "read_marker mk bo d = (Inr m, d1)" "view d1 = bs" "no_marker d1"
    by (rule adecE [OF adec_read_marker [OF bo mk, of m] d(1), of bs]) (use d in auto)
  then show ?thesis
    using d(2) by (auto simp: peek_marker_def set_marker_def run_simps any_marker_def no_marker_def view_def pending_def)
qed

lemma peek_end:
  assumes bo: "byteorder_reads (zc_read z) bo" and d: "any_marker d" "view d = []"
  shows "\<exists>msg d'. peek_marker mk bo d = (Inl (Amf0Io (IoErr UnexpectedEof msg)), d')"
proof -
  have none: "next_marker d = None" "unread (amf_reader d) = []" "ok (amf_reader d)"
    using d by (auto simp: view_def pending_def any_marker_def split: option.splits)
  have "length (unread (amf_reader d)) < 1" using none by simp
  from read_exact_eof [OF none(3) this] obtain s where "read_exact (zc_read z) 1 (amf_reader d) = (Inl eof_error, s)" by blast
  with none bo show ?thesis
    by (simp add: peek_marker_def read_marker_def bnd_def rd_io_def byteorder_reads_def be_read_def run_simps eof_error_def)
qed

text \<open>\<open>decode_all\<close> on the encodings of values, up to the end of the input.\<close>

lemma decode_all_end:
  assumes bo: "byteorder_reads (zc_read z) bo" and mk: "marker_conversion mk"
  shows "\<forall>v \<in> set vs. amf0_ok v \<Longrightarrow> length (concat (map amf0_bytes vs)) < fuel \<Longrightarrow> any_marker d \<Longrightarrow>
    view d = concat (map amf0_bytes vs) \<Longrightarrow> \<exists>d'. decode_all fuel mk bo z d = (Inr vs, d')"
proof (induction vs arbitrary: fuel d)
  case Nil
  then obtain f where "fuel = Suc f" by (cases fuel) auto
  with peek_end [OF bo, of d mk] Nil show ?case
    by (auto simp: has_remaining_value_def bnd_def run_simps)
next
  case (Cons v vs)
  then obtain f where f: "fuel = Suc f" by (cases fuel) auto
  obtain m bs where m: "amf0_bytes v = marker_value m # bs" using amf0_bytes_marker by blast
  then obtain d1 where d1: "peek_marker mk bo d = (Inr m, d1)" "any_marker d1" "view d1 = view d"
    using peek_first [OF bo mk Cons.prems(3), of m "bs @ concat (map amf0_bytes vs)"] Cons.prems(4) by auto
  have "adec any_marker no_marker (decode_value f mk bo z) (amf0_bytes v) v"
    using Cons.prems amf0_fuel_le [of v] f by (intro adec_decode_value [OF bo mk]) auto
  from adecE [OF this d1(2), of "concat (map amf0_bytes vs)"] d1(3) Cons.prems(4)
  obtain d2 where d2: "decode_value f mk bo z d1 = (Inr v, d2)" "view d2 = concat (map amf0_bytes vs)" "no_marker d2" by auto
  then have "any_marker d2" by (simp add: no_marker_def any_marker_def)
  moreover have "length (concat (map amf0_bytes vs)) < f" using Cons.prems(2) f m by simp
  ultimately obtain d3 where "decode_all f mk bo z d2 = (Inr vs, d3)" using Cons.IH Cons.prems(1) d2(2) by force
  with d1 d2 f show ?case by (simp add: has_remaining_value_def bnd_def run_simps)
qed

end

section \<open>Properties\<close>

lemma aputs_vec_run:
  "aputs (@) (\<lambda>_. True) m bs \<Longrightarrow> m v = (Inr (), v @ bs)"
  by (simp add: aputs_def)

lemma marker_conversion_from_u8: "marker_conversion marker_from_u8"
proof -
  have "marker_from_u8 (marker_value m) = Some m" for m
    by (cases m) (simp_all add: marker_from_u8_def amf0_markers_def)
  moreover have "marker_value m = v" if "marker_from_u8 v = Some m" for v m
    using that unfolding marker_from_u8_def find_Some_iff by blast
  ultimately show ?thesis by (auto simp: marker_conversion_def)
qed

lemma slice_run:
  assumes "slice.adec slice.any_marker slice.no_marker m bs x"
  shows "\<exists>d. m (amf0_decoder_new (cursor_new (bs @ rest))) = (Inr x, d) \<and> next_marker d = None \<and> cursor_rest (amf_reader d) = rest"
proof -
  let ?d = "amf0_decoder_new (cursor_new (bs @ rest))"
  have "slice.any_marker ?d" "slice.view ?d = bs @ rest"
    by (simp_all add: slice.any_marker_def slice.view_def amf0_decoder_new_def pending_def cursor_new_def cursor_rest_def)
  from slice.adecE [OF assms this] obtain d where "m ?d = (Inr x, d)" "slice.view d = rest" "slice.no_marker d" .
  then show ?thesis by (auto simp: slice.view_def slice.no_marker_def pending_def)
qed

lemma slice_byteorder: "byteorder_reads cursor_read bo \<Longrightarrow> byteorder_reads (zc_read slice_reader) bo"
  by (simp add: slice_reader_def)

lemma slice_decode:
  assumes "byteorder_reads cursor_read bo" and "marker_conversion mk" and "amf0_ok v" and "amf0_fuel v \<le> fuel"
  shows "\<exists>d. decode_value fuel mk bo slice_reader (amf0_decoder_new (cursor_new (amf0_bytes v @ rest))) = (Inr v, d) \<and>
    next_marker d = None \<and> cursor_rest (amf_reader d) = rest"
  by (rule slice_run [OF slice.adec_decode_value [OF slice_byteorder [OF assms(1)] assms(2-4)]])

lemma vec_encode:
  assumes "byteorder_writes vec_write bw" and "amf0_ok v"
  shows "encode_value vec_write bw v [] = (Inr (), amf0_bytes v)"
  using aputs_vec_run [OF vec.aputs_encode_value [OF assms]] by simp

text \<open>
  C33. Every value the encoder accepts (strings below 4 GiB, keys below 64 KiB, distinct keys in
  each object) is decoded from its encoding, whatever follows it, by every decoder over a
  slice; the reader is left at what follows.
\<close>

theorem amf0_roundtrip:
  assumes "byteorder_writes vec_write bw" and "byteorder_reads cursor_read bo" and "marker_conversion mk"
    and "amf0_ok v" and "amf0_fuel v \<le> fuel"
  shows "\<exists>bs d. encode_value vec_write bw v [] = (Inr (), bs) \<and>
    decode_value fuel mk bo slice_reader (amf0_decoder_new (cursor_new (bs @ rest))) = (Inr v, d) \<and>
    next_marker d = None \<and> cursor_rest (amf_reader d) = rest"
  using slice_decode [OF assms(2-5)] vec_encode [OF assms(1,4)] by blast

definition amf0_sample :: amf0_value where
  "amf0_sample = Amf0Object [([0x61], Amf0Array [Amf0Number 0x3FF0000000000000, Amf0Null, Amf0Boolean True]),
     ([], Amf0String [0xC3, 0xA9])]"

theorem amf0_roundtrip_witness:
  "\<exists>bs d. encode_value vec_write (be_writes vec_write) amf0_sample [] = (Inr (), bs) \<and>
    decode_value 12 marker_from_u8 (be_reads cursor_read) slice_reader (amf0_decoder_new (cursor_new (bs @ [5]))) =
      (Inr amf0_sample, d) \<and> next_marker d = None \<and> cursor_rest (amf_reader d) = [5]"
  by (rule amf0_roundtrip [OF byteorder_writes_be_writes byteorder_reads_be_reads marker_conversion_from_u8])
    (simp_all add: amf0_sample_def utf8_cont_def)

text \<open>
  C34. Decoding ends on every input: with fuel above the number of bytes, the run of
  \<open>decode_value\<close> on a slice is not cut short.
\<close>

theorem amf0_decode_ends:
  assumes "byteorder_reads cursor_read bo" and "length bs < fuel"
  shows "fst (decode_value fuel mk bo slice_reader (amf0_decoder_new (cursor_new bs))) \<noteq> Inl Amf0Fuel"
  using assms
  by (intro slice.decode_value_ends) (simp_all add: slice_reader_def cursor_new_def cursor_rest_def)

theorem amf0_decode_ends_witness:
  "fst (decode_value 4 marker_from_u8 (be_reads cursor_read) slice_reader (amf0_decoder_new (cursor_new [3, 0, 0]))) \<noteq> Inl Amf0Fuel"
  by (rule amf0_decode_ends [OF byteorder_reads_be_reads]) simp


subsection \<open>ECMA arrays\<close>

text \<open>An ECMA array as the specification encodes it, less its end marker.\<close>

definition ecma_bytes :: "(utf8 \<times> amf0_value) list \<Rightarrow> u8 list" where
  "ecma_bytes ps = marker_value EcmaArrayMarker # be_bytes 4 (of_nat (length ps) :: u32) @
     concat (map (\<lambda>(k, v). key_bytes k @ amf0_bytes v) ps)"

context zero_copy_source
begin

lemma adec_pairs:
  assumes bo: "byteorder_reads (zc_read z) bo"
  shows "(\<forall>(k, v) \<in> set ps. utf8_valid k \<and> length k < 2 ^ 16 \<and> adec any_marker no_marker dv (amf0_bytes v) v) \<Longrightarrow>
    distinct (map fst (acc @ ps)) \<Longrightarrow>
    adec no_marker no_marker (decode_pairs (length ps) dv bo z acc)
      (concat (map (\<lambda>(k, v). key_bytes k @ amf0_bytes v) ps)) (acc @ ps)"
proof (induction ps arbitrary: acc)
  case Nil
  show ?case by (simp add: adec_ret)
next
  case (Cons p ps)
  obtain k v where p: "p = (k, v)" by (cases p)
  from Cons.prems p have k: "utf8_valid k" "length k < 2 ^ 16" and v: "adec any_marker no_marker dv (amf0_bytes v) v"
    and new: "k \<notin> fst ` set acc" by auto
  have "adec no_marker no_marker (decode_pairs (length ps) dv bo z (acc @ [(k, v)]))
      (concat (map (\<lambda>(k, v). key_bytes k @ amf0_bytes v) ps)) ((acc @ [(k, v)]) @ ps)"
    using Cons.prems p by (intro Cons.IH) auto
  then have tl: "adec no_marker no_marker (decode_pairs (length ps) dv bo z (hm_insert k v acc))
      (concat (map (\<lambda>(k, v). key_bytes k @ amf0_bytes v) ps)) (acc @ p # ps)"
    by (simp add: update_new [OF new] p)
  have "adec no_marker no_marker (decode_pairs (Suc (length ps)) dv bo z acc)
      (key_bytes k @ amf0_bytes v @ concat (map (\<lambda>(k, v). key_bytes k @ amf0_bytes v) ps)) (acc @ p # ps)"
    unfolding decode_pairs.simps
    by (rule adec_bnd [OF adec_normal_string [OF bo k]], rule adec_bnd [OF adec_any [OF v]], rule tl)
  then show ?case by (simp add: p)
qed

lemma decode_ecma_end_zero:
  assumes bo: "byteorder_reads (zc_read z) bo" and mk: "marker_conversion mk"
    and d: "no_marker d" "view d = marker_value m # rest" and m: "m \<noteq> ObjectEndMarker"
  shows "\<exists>d'. decode_ecma_end mk bo d = (Inr (), d') \<and> next_marker d' = Some m \<and>
    unread (amf_reader d') = rest"
proof -
  obtain d1 where d1: "read_marker mk bo d = (Inr m, d1)" "view d1 = rest" "no_marker d1"
    by (rule adecE [OF adec_any [OF adec_read_marker [OF bo mk, of m]] d(1), of rest]) (use d in auto)
  then have "peek_marker mk bo d = (Inr m, d1\<lparr>next_marker := Some m\<rparr>)"
    by (simp add: peek_marker_def set_marker_def run_simps)
  moreover have "peek_marker mk bo (d1\<lparr>next_marker := Some m\<rparr>) = (Inr m, d1\<lparr>next_marker := Some m\<rparr>)"
    by (simp add: peek_marker_def set_marker_def read_marker_def run_simps)
  ultimately show ?thesis
    using d1 m by (auto simp: decode_ecma_end_def has_remaining_value_def run_simps view_def pending_def no_marker_def)
qed

end

text \<open>
  The end marker the specification puts after an ECMA array (an empty key and the byte 9) is not
  recognised: its first byte is taken for the marker of a number, buffered, and the other two bytes are left
  in the input for whoever decodes next.
\<close>

theorem amf0_ecma_end_marker:
  assumes "byteorder_reads cursor_read bo" and mk: "marker_conversion mk"
    and ok: "amf0_ok (Amf0Object ps)" and len: "length ps < 2 ^ 32" and fuel: "amf0_fuel (Amf0Object ps) \<le> fuel"
  shows "\<exists>d. decode_value fuel mk bo slice_reader
      (amf0_decoder_new (cursor_new (ecma_bytes ps @ [0, 0, marker_value ObjectEndMarker] @ rest))) = (Inr (Amf0Object ps), d) \<and>
    next_marker d = Some NumberMarker \<and>
    cursor_rest (amf_reader d) = [0, marker_value ObjectEndMarker] @ rest"
proof -
  have bo: "byteorder_reads (zc_read slice_reader) bo" using assms(1) by (simp add: slice_reader_def)
  obtain f where f: "fuel = Suc f" using fuel by (cases fuel) auto
  let ?dv = "decode_value f mk bo slice_reader"
  let ?tl = "[0, 0, marker_value ObjectEndMarker] @ rest"
  let ?d = "amf0_decoder_new (cursor_new (ecma_bytes ps @ ?tl))"
  have le: "amf0_fuel v \<le> sum_list (map (\<lambda>(k, v). amf0_fuel v) ps)" if "(k, v) \<in> set ps" for k v
    using that by (induction ps) auto
  have vals: "\<forall>(k, v) \<in> set ps. utf8_valid k \<and> length k < 2 ^ 16 \<and>
      slice.adec slice.any_marker slice.no_marker ?dv (amf0_bytes v) v"
  proof (intro ballI, clarify)
    fix k v
    assume kv: "(k, v) \<in> set ps"
    with ok le [OF kv] fuel f have "amf0_ok v" "amf0_fuel v \<le> f" "utf8_valid k" "length k < 2 ^ 16" by auto
    then show "utf8_valid k \<and> length k < 2 ^ 16 \<and> slice.adec slice.any_marker slice.no_marker ?dv (amf0_bytes v) v"
      using slice.adec_decode_value [OF bo mk] by blast
  qed
  let ?hd = "decode_object_header mk bo slice_reader"
  let ?pairs = "bnd ?hd (\<lambda>h. case h of EcmaArrayHeader sz \<Rightarrow>
      decode_pairs (unat sz) ?dv bo slice_reader [] | _ \<Rightarrow> fail Amf0Fuel)"
  let ?run = "bnd (peek_marker mk bo) (\<lambda>m. if m = EcmaArrayMarker then ?pairs else fail Amf0Fuel)"
  have head: "slice.adec slice.any_marker slice.no_marker ?hd
      (marker_value EcmaArrayMarker # be_bytes 4 n) (EcmaArrayHeader n)" for n
    unfolding decode_object_header_def
    by (rule slice.adec_Cons [OF slice.adec_expect [OF bo mk]], simp)
      (simp add: slice.adec_last [OF slice.adec_bo(3) [OF bo]])
  have "slice.adec slice.any_marker slice.no_marker ?pairs
      ((marker_value EcmaArrayMarker # be_bytes 4 (of_nat (length ps) :: u32)) @
        concat (map (\<lambda>(k, v). key_bytes k @ amf0_bytes v) ps)) ps"
    by (rule slice.adec_bnd [OF head])
      (use slice.adec_pairs [OF bo vals, of "[]"] ok len in \<open>simp add: unsigned_of_nat take_bit_nat_eq_self\<close>)
  then have pairs: "slice.adec (slice.buffered EcmaArrayMarker) slice.no_marker ?pairs (ecma_bytes ps) ps"
    by (simp add: ecma_bytes_def slice.adec_buffered del: marker_value.simps)
  have "slice.adec slice.any_marker slice.no_marker ?run (ecma_bytes ps) ps"
    unfolding ecma_bytes_def append_Cons
    by (rule slice.adec_peek [OF bo mk]) (use pairs in \<open>simp add: ecma_bytes_def del: marker_value.simps\<close>)
  from slice.adecE [OF this, of ?d ?tl] obtain d1
    where d1: "?run ?d = (Inr ps, d1)" "slice.view d1 = ?tl" "slice.no_marker d1"
    by (auto simp: slice.any_marker_def slice.view_def amf0_decoder_new_def pending_def cursor_new_def cursor_rest_def)
  from d1(1) obtain d2 d3 sz where p: "peek_marker mk bo ?d = (Inr EcmaArrayMarker, d2)"
      "?hd d2 = (Inr (EcmaArrayHeader sz), d3)" "decode_pairs (unat sz) ?dv bo slice_reader [] d3 = (Inr ps, d1)"
    by (auto elim!: bnd_InrE simp: fail_def split: if_splits object_header.splits)
  have "slice.view d1 = marker_value NumberMarker # [0, marker_value ObjectEndMarker] @ rest"
    using d1(2) by simp
  from slice.decode_ecma_end_zero [OF bo mk d1(3) this] obtain d'
    where d': "decode_ecma_end mk bo d1 = (Inr (), d')" "next_marker d' = Some NumberMarker"
      "cursor_rest (amf_reader d') = [0, marker_value ObjectEndMarker] @ rest"
    by auto
  have "decode_value fuel mk bo slice_reader ?d = (Inr (Amf0Object ps), d')"
    using p d'(1) by (simp add: f decode_object_def run_simps)
  with d' show ?thesis by blast
qed

theorem amf0_ecma_end_marker_witness:
  "\<exists>d. decode_value 4 marker_from_u8 (be_reads cursor_read) slice_reader
      (amf0_decoder_new (cursor_new (ecma_bytes [([0x61], Amf0Null)] @ [0, 0, marker_value ObjectEndMarker] @ []))) =
        (Inr (Amf0Object [([0x61], Amf0Null)]), d) \<and>
    next_marker d = Some NumberMarker \<and>
    cursor_rest (amf_reader d) = [0, marker_value ObjectEndMarker] @ []"
  by (rule amf0_ecma_end_marker [OF byteorder_reads_be_reads marker_conversion_from_u8]) simp_all

end
