(* ===== verification/Amf0_Serde.thy ===== *)
theory Amf0_Serde
  imports Amf0_Props "HOL-Library.Log_Nat"
begin

text \<open>
  \<open>crates/amf0/src/ser.rs\<close>, \<open>de\<close> and the serde implementations of \<open>value.rs\<close>: AMF0 behind
  serde. A value to serialize is its term of serde's data model (\<open>serde_value\<close>), a type to
  deserialize is its visitor; \<open>serialize\<close> and the \<open>deserialize_\<close> functions are the
  \<open>Serializer\<close> and \<open>Deserializer\<close> of the crate.
\<close>

subsection \<open>Rust's conversions between integers and floats\<close>

text \<open>\<open>n as f64\<close>: the nearest representable number, ties to even, as its bits.\<close>

definition f64_of_nat :: "nat \<Rightarrow> u64" where
  "f64_of_nat n =
     (if n = 0 then 0 else
      let len = floorlog 2 n in
      if len \<le> 53 then of_nat ((len + 1021) * 2 ^ 52 + n * 2 ^ (53 - len))
      else
        let k = len - 53; q = n div 2 ^ k; r = n mod 2 ^ k in
        of_nat ((len + 1021) * 2 ^ 52 + (if 2 * r > 2 ^ k \<or> 2 * r = 2 ^ k \<and> odd q then q + 1 else q)))"

definition f64_of_int :: "int \<Rightarrow> u64" where
  "f64_of_int i = (if i < 0 then 2 ^ 63 + f64_of_nat (nat (- i)) else f64_of_nat (nat i))"

text \<open>
  \<open>v as f64\<close> of an \<open>f32\<close>: exact, subnormal numbers become normal. A NaN keeps its payload
  and is made quiet.
\<close>

definition f64_of_f32 :: "u32 \<Rightarrow> u64" where
  "f64_of_f32 v =
     (let sign = (if bit v 31 then 2 ^ 63 else 0); e = unat (drop_bit 23 v AND 0xFF); m = unat (v AND 0x7FFFFF) in
      sign + of_nat (
        if e = 255 then 2047 * 2 ^ 52 + (if m = 0 then 0 else (m * 2 ^ 29) OR 2 ^ 51)
        else if e = 0 then
          (if m = 0 then 0 else let len = floorlog 2 m in (len + 873) * 2 ^ 52 + m * 2 ^ (53 - len))
        else (e + 896) * 2 ^ 52 + m * 2 ^ 29))"

text \<open>\<open>x as T\<close> of an \<open>f64\<close>: truncated towards zero, saturated to the range of \<open>T\<close>, 0 for NaN.\<close>

definition f64_to_int :: "int \<Rightarrow> int \<Rightarrow> u64 \<Rightarrow> int" where
  "f64_to_int lo hi b =
     (let e = unat (drop_bit 52 b AND 0x7FF); m = unat (b AND 0xFFFFFFFFFFFFF); neg = bit b 63 in
      if e = 2047 then (if m \<noteq> 0 then 0 else if neg then lo else hi)
      else
        let v = (if e = 0 then 0
                 else if e \<ge> 1075 then (2 ^ 52 + int m) * 2 ^ (e - 1075)
                 else (2 ^ 52 + int m) div 2 ^ (1075 - e)) in
        max lo (min hi (if neg then - v else v)))"

definition f64_to_i64 :: "u64 \<Rightarrow> int" where
  "f64_to_i64 = f64_to_int (- (2 ^ 63)) (2 ^ 63 - 1)"

definition f64_to_u64 :: "u64 \<Rightarrow> u64" where
  "f64_to_u64 b = of_int (f64_to_int 0 (2 ^ 64 - 1) b)"

subsection \<open>The serializer (ser.rs)\<close>

text \<open>
  The data model of serde: one constructor for each method of \<open>Serializer\<close>, with the
  arguments the method's caller has for it. \<open>SerSeq\<close> has the length the caller announces,
  if it knows it; a map has its entries in the order in which they are serialized.
\<close>

datatype serde_value =
    SerBool bool
  | SerI8 "8 word" | SerI16 "16 word" | SerI32 "32 word" | SerI64 "64 word"
  | SerU8 u8 | SerU16 u16 | SerU32 u32 | SerU64 u64
  | SerF32 u32 | SerF64 u64
  | SerChar nat
  | SerStr utf8
  | SerBytes "u8 list"
  | SerNone
  | SerSome serde_value
  | SerUnit
  | SerUnitStruct
  | SerUnitVariant utf8
  | SerNewtypeStruct serde_value
  | SerNewtypeVariant utf8 serde_value
  | SerSeq "nat option" "serde_value list"
  | SerTuple "serde_value list"
  | SerTupleStruct "serde_value list"
  | SerTupleVariant utf8 "serde_value list"
  | SerMap "(serde_value \<times> serde_value) list"
  | SerStruct "(utf8 \<times> serde_value) list"
  | SerStructVariant utf8 "(utf8 \<times> serde_value) list"

definition serialize_int :: "'w byteorder_w \<Rightarrow> int \<Rightarrow> ('w, unit) amf0_enc" where
  "serialize_int bw i = encode_number bw (f64_of_int i)"

definition serialize_char :: "'w byteorder_w \<Rightarrow> nat \<Rightarrow> ('w, unit) amf0_enc" where
  "serialize_char bw c = serialize_int bw (int (unat (of_nat c :: u8)))"

definition serialize_seq_header :: "'w byteorder_w \<Rightarrow> nat option \<Rightarrow> ('w, unit) amf0_enc" where
  "serialize_seq_header bw len =
     (case len of
        None \<Rightarrow> fail Amf0UnknownLength
      | Some n \<Rightarrow> if n < 2 ^ 32 then encode_array_header bw (of_nat n) else fail Amf0TooLong)"

definition serialize_bytes :: "'w byteorder_w \<Rightarrow> u8 list \<Rightarrow> ('w, unit) amf0_enc" where
  "serialize_bytes bw bs =
     bnd (serialize_seq_header bw (Some (length bs))) (\<lambda>_.
     each_io (\<lambda>b. serialize_int bw (int (unat b))) bs)"

definition serialize_variant_header :: "'w write_fn \<Rightarrow> 'w byteorder_w \<Rightarrow> utf8 \<Rightarrow> nat \<Rightarrow> ('w, unit) amf0_enc" where
  "serialize_variant_header wr bw variant len =
     bnd (if len < 2 ^ 32 then ret (of_nat len) else fail Amf0TooLong) (\<lambda>n.
     bnd (encode_string wr bw variant) (\<lambda>_. encode_array_header bw n))"

text \<open>\<open>MapKeySerializer\<close>: only a string is a key.\<close>

definition serialize_key :: "'w write_fn \<Rightarrow> 'w byteorder_w \<Rightarrow> serde_value \<Rightarrow> ('w, unit) amf0_enc" where
  "serialize_key wr bw k = (case k of SerStr s \<Rightarrow> encode_object_key wr bw s | _ \<Rightarrow> fail Amf0MapKeyNotString)"

definition serialize_entries :: "('k \<Rightarrow> ('w, unit) amf0_enc) \<Rightarrow> ('v \<Rightarrow> ('w, unit) amf0_enc) \<Rightarrow> ('k \<times> 'v) list \<Rightarrow>
    ('w, unit) amf0_enc" where
  "serialize_entries sk sv ps = each_io (\<lambda>(k, v). bnd (sk k) (\<lambda>_. sv v)) ps"

lemma serialize_entries_cong [fundef_cong]:
  assumes "ps = qs" and "\<And>k v. (k, v) \<in> set qs \<Longrightarrow> f v = g v"
  shows "serialize_entries sk f ps = serialize_entries sk g qs"
  unfolding serialize_entries_def assms(1) by (rule each_io_cong) (auto simp: assms(2))

definition serialize_object :: "'w byteorder_w \<Rightarrow> ('w, unit) amf0_enc \<Rightarrow> ('w, unit) amf0_enc" where
  "serialize_object bw entries =
     bnd (encode_object_header bw) (\<lambda>_. bnd entries (\<lambda>_. encode_object_trailer bw))"

fun serialize :: "'w write_fn \<Rightarrow> 'w byteorder_w \<Rightarrow> serde_value \<Rightarrow> ('w, unit) amf0_enc" where
  "serialize wr bw (SerBool v) = encode_boolean bw v"
| "serialize wr bw (SerI8 v) = serialize_int bw (sint v)"
| "serialize wr bw (SerI16 v) = serialize_int bw (sint v)"
| "serialize wr bw (SerI32 v) = serialize_int bw (sint v)"
| "serialize wr bw (SerI64 v) = serialize_int bw (sint v)"
| "serialize wr bw (SerU8 v) = serialize_int bw (uint v)"
| "serialize wr bw (SerU16 v) = serialize_int bw (uint v)"
| "serialize wr bw (SerU32 v) = serialize_int bw (uint v)"
| "serialize wr bw (SerU64 v) = serialize_int bw (uint v)"
| "serialize wr bw (SerF32 v) = encode_number bw (f64_of_f32 v)"
| "serialize wr bw (SerF64 v) = encode_number bw v"
| "serialize wr bw (SerChar c) = serialize_char bw c"
| "serialize wr bw (SerStr s) = encode_string wr bw s"
| "serialize wr bw (SerBytes bs) = serialize_bytes bw bs"
| "serialize wr bw SerNone = encode_null bw"
| "serialize wr bw (SerSome v) = serialize wr bw v"
| "serialize wr bw SerUnit = encode_null bw"
| "serialize wr bw SerUnitStruct = encode_null bw"
| "serialize wr bw (SerUnitVariant name) = encode_string wr bw name"
| "serialize wr bw (SerNewtypeStruct v) = serialize wr bw v"
| "serialize wr bw (SerNewtypeVariant name v) = bnd (encode_string wr bw name) (\<lambda>_. serialize wr bw v)"
| "serialize wr bw (SerSeq len vs) = bnd (serialize_seq_header bw len) (\<lambda>_. each_io (serialize wr bw) vs)"
| "serialize wr bw (SerTuple vs) =
     bnd (serialize_seq_header bw (Some (length vs))) (\<lambda>_. each_io (serialize wr bw) vs)"
| "serialize wr bw (SerTupleStruct vs) =
     bnd (serialize_seq_header bw (Some (length vs))) (\<lambda>_. each_io (serialize wr bw) vs)"
| "serialize wr bw (SerTupleVariant name vs) =
     bnd (serialize_variant_header wr bw name (length vs)) (\<lambda>_. each_io (serialize wr bw) vs)"
| "serialize wr bw (SerMap es) =
     serialize_object bw (serialize_entries (serialize_key wr bw) (serialize wr bw) es)"
| "serialize wr bw (SerStruct fs) =
     serialize_object bw (serialize_entries (encode_object_key wr bw) (serialize wr bw) fs)"
| "serialize wr bw (SerStructVariant name fs) =
     bnd (encode_string wr bw name) (\<lambda>_.
     serialize_object bw (serialize_entries (encode_object_key wr bw) (serialize wr bw) fs))"

definition to_bytes :: "u8 list byteorder_w \<Rightarrow> serde_value \<Rightarrow> amf0_error + u8 list" where
  "to_bytes bw v = (case serialize vec_write bw v [] of (Inl e, _) \<Rightarrow> Inl e | (Inr _, out) \<Rightarrow> Inr out)"

text \<open>\<open>impl Serialize for Amf0Value\<close> (value.rs); a \<open>StringCow\<close> is a string.\<close>

fun amf0_value_serde :: "amf0_value \<Rightarrow> serde_value" where
  "amf0_value_serde (Amf0Number v) = SerF64 v"
| "amf0_value_serde (Amf0Boolean v) = SerBool v"
| "amf0_value_serde (Amf0String s) = SerStr s"
| "amf0_value_serde (Amf0Object ps) = SerMap (map (\<lambda>(k, v). (SerStr k, amf0_value_serde v)) ps)"
| "amf0_value_serde Amf0Null = SerNone"
| "amf0_value_serde (Amf0Array vs) = SerSeq (Some (length vs)) (map amf0_value_serde vs)"

subsection \<open>The deserializer (de/mod.rs, de/stream.rs)\<close>

text \<open>
  \<open>SeqAccess\<close> and \<open>MapAccess\<close> of the crate: the elements of a strict array, or of all that
  is left in the input (\<open>MultiValueDe\<close>); the entries of an object, or of an ECMA array.
\<close>

datatype seq_access = StrictArrayAccess nat | MultiValueAccess

datatype map_access = ObjectAccess | EcmaArrayAccess nat

text \<open>
  A visitor: what it does for each kind of value it is given. An access is passed to the
  visitor together with the decoder, which is the state of the result; so is the
  deserializer in \<open>visit_some\<close> and \<open>visit_newtype_struct\<close>. Borrowed and owned strings go to
  \<open>visit_str\<close>.
\<close>

record ('s, 'v) visitor =
  visit_bool :: "bool \<Rightarrow> ('s, 'v) amf0"
  visit_i64 :: "int \<Rightarrow> ('s, 'v) amf0"
  visit_u64 :: "u64 \<Rightarrow> ('s, 'v) amf0"
  visit_f64 :: "u64 \<Rightarrow> ('s, 'v) amf0"
  visit_str :: "utf8 \<Rightarrow> ('s, 'v) amf0"
  visit_none :: "('s, 'v) amf0"
  visit_some :: "('s, 'v) amf0"
  visit_unit :: "('s, 'v) amf0"
  visit_newtype_struct :: "('s, 'v) amf0"
  visit_seq :: "seq_access \<Rightarrow> ('s, 'v) amf0"
  visit_map :: "map_access \<Rightarrow> ('s, 'v) amf0"
  visit_enum :: "('s, 'v) amf0"

type_synonym marker_fn = "u8 \<Rightarrow> amf0_marker option"

definition deserialize_bool :: "marker_fn \<Rightarrow> 's byteorder \<Rightarrow> ('s, 'v) visitor \<Rightarrow> ('s, 'v) amf0" where
  "deserialize_bool mk bo vis = bnd (decode_boolean mk bo) (visit_bool vis)"

definition deserialize_i64 :: "marker_fn \<Rightarrow> 's byteorder \<Rightarrow> ('s, 'v) visitor \<Rightarrow> ('s, 'v) amf0" where
  "deserialize_i64 mk bo vis = bnd (decode_number mk bo) (\<lambda>v. visit_i64 vis (f64_to_i64 v))"

definition deserialize_u64 :: "marker_fn \<Rightarrow> 's byteorder \<Rightarrow> ('s, 'v) visitor \<Rightarrow> ('s, 'v) amf0" where
  "deserialize_u64 mk bo vis = bnd (decode_number mk bo) (\<lambda>v. visit_u64 vis (f64_to_u64 v))"

definition deserialize_f64 :: "marker_fn \<Rightarrow> 's byteorder \<Rightarrow> ('s, 'v) visitor \<Rightarrow> ('s, 'v) amf0" where
  "deserialize_f64 mk bo vis = bnd (decode_number mk bo) (visit_f64 vis)"

definition deserialize_char :: "('s, 'v) visitor \<Rightarrow> ('s, 'v) amf0" where
  "deserialize_char vis = fail Amf0CharNotSupported"

definition deserialize_str :: "marker_fn \<Rightarrow> 's byteorder \<Rightarrow> 's zero_copy \<Rightarrow> ('s, 'v) visitor \<Rightarrow> ('s, 'v) amf0" where
  "deserialize_str mk bo z vis = bnd (decode_string mk bo z) (visit_str vis)"

definition deserialize_option :: "marker_fn \<Rightarrow> 's byteorder \<Rightarrow> ('s, 'v) visitor \<Rightarrow> ('s, 'v) amf0" where
  "deserialize_option mk bo vis =
     bnd (peek_marker mk bo) (\<lambda>m.
     if m = NullMarker \<or> m = UndefinedMarker then bnd (set_marker None) (\<lambda>_. visit_none vis)
     else visit_some vis)"

definition deserialize_unit :: "marker_fn \<Rightarrow> 's byteorder \<Rightarrow> ('s, 'v) visitor \<Rightarrow> ('s, 'v) amf0" where
  "deserialize_unit mk bo vis = bnd (decode_null mk bo) (\<lambda>_. visit_unit vis)"

definition MULTI_VALUE_NEW_TYPE :: string where
  "MULTI_VALUE_NEW_TYPE = ''___AMF0_MULTI_VALUE__DO_NOT_USE__''"

definition deserialize_newtype_struct :: "string \<Rightarrow> ('s, 'v) visitor \<Rightarrow> ('s, 'v) amf0" where
  "deserialize_newtype_struct name vis =
     (if name = MULTI_VALUE_NEW_TYPE then visit_seq vis MultiValueAccess else visit_newtype_struct vis)"

definition deserialize_seq :: "marker_fn \<Rightarrow> 's byteorder \<Rightarrow> ('s, 'v) visitor \<Rightarrow> ('s, 'v) amf0" where
  "deserialize_seq mk bo vis =
     bnd (decode_strict_array_header mk bo) (\<lambda>sz. visit_seq vis (StrictArrayAccess (unat sz)))"

definition deserialize_tuple :: "marker_fn \<Rightarrow> 's byteorder \<Rightarrow> nat \<Rightarrow> ('s, 'v) visitor \<Rightarrow> ('s, 'v) amf0" where
  "deserialize_tuple mk bo len vis =
     bnd (decode_strict_array_header mk bo) (\<lambda>sz.
     if len \<noteq> unat sz then fail (Amf0WrongArrayLength len (unat sz))
     else visit_seq vis (StrictArrayAccess (unat sz)))"

definition deserialize_map :: "marker_fn \<Rightarrow> 's byteorder \<Rightarrow> 's zero_copy \<Rightarrow> ('s, 'v) visitor \<Rightarrow> ('s, 'v) amf0" where
  "deserialize_map mk bo z vis =
     bnd (decode_object_header mk bo z) (\<lambda>h.
     case h of
       EcmaArrayHeader sz \<Rightarrow> visit_map vis (EcmaArrayAccess (unat sz))
     | _ \<Rightarrow> visit_map vis ObjectAccess)"

definition deserialize_enum :: "('s, 'v) visitor \<Rightarrow> ('s, 'v) amf0" where
  "deserialize_enum vis = visit_enum vis"

definition deserialize_any :: "marker_fn \<Rightarrow> 's byteorder \<Rightarrow> 's zero_copy \<Rightarrow> ('s, 'v) visitor \<Rightarrow> ('s, 'v) amf0" where
  "deserialize_any mk bo z vis =
     bnd (peek_marker mk bo) (\<lambda>m.
     if m = BooleanMarker then deserialize_bool mk bo vis
     else if m \<in> {NumberMarker, DateMarker} then deserialize_f64 mk bo vis
     else if m \<in> {StringMarker, LongStringMarker, XmlDocumentMarker} then deserialize_str mk bo z vis
     else if m \<in> {NullMarker, UndefinedMarker} then deserialize_unit mk bo vis
     else if m \<in> {ObjectMarker, TypedObjectMarker, EcmaArrayMarker} then deserialize_map mk bo z vis
     else if m = StrictArrayMarker then deserialize_seq mk bo vis
     else fail (Amf0UnsupportedMarker m))"

text \<open>The accesses. A seed is the deserialization of the element, key or value it stands for.\<close>

definition seq_next_element :: "marker_fn \<Rightarrow> 's byteorder \<Rightarrow> ('s, 'a) amf0 \<Rightarrow> seq_access \<Rightarrow>
    ('s, ('a \<times> seq_access) option) amf0" where
  "seq_next_element mk bo seed a =
     (case a of
        StrictArrayAccess n \<Rightarrow>
          if n = 0 then ret None else bnd seed (\<lambda>v. ret (Some (v, StrictArrayAccess (n - 1))))
      | MultiValueAccess \<Rightarrow>
          bnd (has_remaining_value mk bo) (\<lambda>more.
          if more then bnd seed (\<lambda>v. ret (Some (v, MultiValueAccess))) else ret None))"

definition map_next_key :: "marker_fn \<Rightarrow> 's byteorder \<Rightarrow> 's zero_copy \<Rightarrow> (utf8 \<Rightarrow> ('s, 'k) amf0) \<Rightarrow> map_access \<Rightarrow>
    ('s, ('k \<times> map_access) option) amf0" where
  "map_next_key mk bo z seed a =
     (case a of
        ObjectAccess \<Rightarrow>
          bnd (decode_object_key mk bo z) (\<lambda>k.
          case k of None \<Rightarrow> ret None | Some key \<Rightarrow> bnd (seed key) (\<lambda>x. ret (Some (x, ObjectAccess))))
      | EcmaArrayAccess n \<Rightarrow>
          if n = 0 then bnd (decode_ecma_end mk bo) (\<lambda>_. ret None)
          else bnd (decode_normal_string bo z) (\<lambda>key.
            bnd (seed key) (\<lambda>x. ret (Some (x, EcmaArrayAccess (n - 1))))))"

definition enum_variant :: "marker_fn \<Rightarrow> 's byteorder \<Rightarrow> 's zero_copy \<Rightarrow> (utf8 \<Rightarrow> ('s, 'k) amf0) \<Rightarrow> ('s, 'k) amf0" where
  "enum_variant mk bo z seed = bnd (decode_string mk bo z) seed"

subsection \<open>\<open>impl Deserialize for Amf0Value\<close> (value.rs)\<close>

text \<open>
  The loops \<open>while let Some(..)\<close> of the visitor have fuel; that of an array, which is counted
  by the access, has as much as it needs.
\<close>

fun collect_seq :: "nat \<Rightarrow> marker_fn \<Rightarrow> 's byteorder \<Rightarrow> ('s, 'v) amf0 \<Rightarrow> seq_access \<Rightarrow> ('s, 'v list) amf0" where
  "collect_seq 0 mk bo dv a = fail Amf0Fuel"
| "collect_seq (Suc n) mk bo dv a =
     bnd (seq_next_element mk bo dv a) (\<lambda>r.
     case r of None \<Rightarrow> ret [] | Some (v, a') \<Rightarrow> bnd (collect_seq n mk bo dv a') (\<lambda>vs. ret (v # vs)))"

fun collect_map :: "nat \<Rightarrow> marker_fn \<Rightarrow> 's byteorder \<Rightarrow> 's zero_copy \<Rightarrow> ('s, 'v) amf0 \<Rightarrow> map_access \<Rightarrow>
    (utf8 \<times> 'v) list \<Rightarrow> ('s, (utf8 \<times> 'v) list) amf0" where
  "collect_map 0 mk bo z dv a acc = fail Amf0Fuel"
| "collect_map (Suc n) mk bo z dv a acc =
     bnd (map_next_key mk bo z ret a) (\<lambda>r.
     case r of None \<Rightarrow> ret acc
     | Some (key, a') \<Rightarrow> bnd dv (\<lambda>v. collect_map n mk bo z dv a' (hm_insert key v acc)))"

definition seq_fuel :: "nat \<Rightarrow> seq_access \<Rightarrow> nat" where
  "seq_fuel fuel a = (case a of StrictArrayAccess n \<Rightarrow> Suc n | MultiValueAccess \<Rightarrow> fuel)"

definition map_fuel :: "nat \<Rightarrow> map_access \<Rightarrow> nat" where
  "map_fuel fuel a = (case a of EcmaArrayAccess n \<Rightarrow> Suc n | ObjectAccess \<Rightarrow> fuel)"

definition amf0_value_visitor :: "nat \<Rightarrow> marker_fn \<Rightarrow> 's byteorder \<Rightarrow> 's zero_copy \<Rightarrow> ('s, amf0_value) amf0 \<Rightarrow>
    ('s, amf0_value) visitor" where
  "amf0_value_visitor fuel mk bo z dv = \<lparr>
     visit_bool = (\<lambda>v. ret (Amf0Boolean v)),
     visit_i64 = (\<lambda>v. ret (Amf0Number (f64_of_int v))),
     visit_u64 = (\<lambda>v. ret (Amf0Number (f64_of_int (uint v)))),
     visit_f64 = (\<lambda>v. ret (Amf0Number v)),
     visit_str = (\<lambda>v. ret (Amf0String v)),
     visit_none = ret Amf0Null,
     visit_some = dv,
     visit_unit = ret Amf0Null,
     visit_newtype_struct = fail (Amf0Custom ''invalid type''),
     visit_seq = (\<lambda>a. bnd (collect_seq (seq_fuel fuel a) mk bo dv a) (\<lambda>vs. ret (Amf0Array vs))),
     visit_map = (\<lambda>a. bnd (collect_map (map_fuel fuel a) mk bo z dv a []) (\<lambda>ps. ret (Amf0Object ps))),
     visit_enum = fail (Amf0Custom ''invalid type'')\<rparr>"

fun amf0_value_deserialize :: "nat \<Rightarrow> marker_fn \<Rightarrow> 's byteorder \<Rightarrow> 's zero_copy \<Rightarrow> ('s, amf0_value) amf0" where
  "amf0_value_deserialize 0 mk bo z = fail Amf0Fuel"
| "amf0_value_deserialize (Suc fuel) mk bo z =
     deserialize_any mk bo z (amf0_value_visitor fuel mk bo z (amf0_value_deserialize fuel mk bo z))"

text \<open>The iterators over the values of the input: \<open>Amf0DecoderStream\<close> and \<open>Amf0DeserializerStream\<close>.\<close>

definition stream_next :: "marker_fn \<Rightarrow> 's byteorder \<Rightarrow> ('s, 'v) amf0 \<Rightarrow> 's amf0_decoder \<Rightarrow>
    (amf0_error + 'v) option \<times> 's amf0_decoder" where
  "stream_next mk bo item d =
     (case has_remaining_value mk bo d of
        (Inr True, d') \<Rightarrow> (case item d' of (r, d'') \<Rightarrow> (Some r, d''))
      | (Inr False, d') \<Rightarrow> (None, d')
      | (Inl e, d') \<Rightarrow> (Some (Inl e), d'))"

definition decoder_stream_next :: "nat \<Rightarrow> marker_fn \<Rightarrow> 's byteorder \<Rightarrow> 's zero_copy \<Rightarrow> 's amf0_decoder \<Rightarrow>
    (amf0_error + amf0_value) option \<times> 's amf0_decoder" where
  "decoder_stream_next fuel mk bo z = stream_next mk bo (decode_value fuel mk bo z)"

subsection \<open>Serializing is encoding\<close>

text \<open>The AMF0 value a term of the data model stands for; variants with contents have none.\<close>

fun amf0_of_serde :: "serde_value \<Rightarrow> amf0_value" where
  "amf0_of_serde (SerBool v) = Amf0Boolean v"
| "amf0_of_serde (SerI8 v) = Amf0Number (f64_of_int (sint v))"
| "amf0_of_serde (SerI16 v) = Amf0Number (f64_of_int (sint v))"
| "amf0_of_serde (SerI32 v) = Amf0Number (f64_of_int (sint v))"
| "amf0_of_serde (SerI64 v) = Amf0Number (f64_of_int (sint v))"
| "amf0_of_serde (SerU8 v) = Amf0Number (f64_of_int (uint v))"
| "amf0_of_serde (SerU16 v) = Amf0Number (f64_of_int (uint v))"
| "amf0_of_serde (SerU32 v) = Amf0Number (f64_of_int (uint v))"
| "amf0_of_serde (SerU64 v) = Amf0Number (f64_of_int (uint v))"
| "amf0_of_serde (SerF32 v) = Amf0Number (f64_of_f32 v)"
| "amf0_of_serde (SerF64 v) = Amf0Number v"
| "amf0_of_serde (SerChar c) = Amf0Number (f64_of_int (int (c mod 256)))"
| "amf0_of_serde (SerStr s) = Amf0String s"
| "amf0_of_serde (SerBytes bs) = Amf0Array (map (\<lambda>b. Amf0Number (f64_of_int (uint b))) bs)"
| "amf0_of_serde (SerSome v) = amf0_of_serde v"
| "amf0_of_serde (SerUnitVariant name) = Amf0String name"
| "amf0_of_serde (SerNewtypeStruct v) = amf0_of_serde v"
| "amf0_of_serde (SerSeq _ vs) = Amf0Array (map amf0_of_serde vs)"
| "amf0_of_serde (SerTuple vs) = Amf0Array (map amf0_of_serde vs)"
| "amf0_of_serde (SerTupleStruct vs) = Amf0Array (map amf0_of_serde vs)"
| "amf0_of_serde (SerMap es) = Amf0Object (map (\<lambda>(k, v). (case k of SerStr s \<Rightarrow> s | _ \<Rightarrow> [], amf0_of_serde v)) es)"
| "amf0_of_serde (SerStruct fs) = Amf0Object (map (\<lambda>(k, v). (k, amf0_of_serde v)) fs)"
| "amf0_of_serde _ = Amf0Null"

fun serde_plain :: "serde_value \<Rightarrow> bool" where
  "serde_plain (SerSome v) \<longleftrightarrow> serde_plain v"
| "serde_plain (SerNewtypeStruct v) \<longleftrightarrow> serde_plain v"
| "serde_plain (SerNewtypeVariant _ _) \<longleftrightarrow> False"
| "serde_plain (SerTupleVariant _ _) \<longleftrightarrow> False"
| "serde_plain (SerStructVariant _ _) \<longleftrightarrow> False"
| "serde_plain (SerSeq len vs) \<longleftrightarrow> len = Some (length vs) \<and> (\<forall>v \<in> set vs. serde_plain v)"
| "serde_plain (SerTuple vs) \<longleftrightarrow> (\<forall>v \<in> set vs. serde_plain v)"
| "serde_plain (SerTupleStruct vs) \<longleftrightarrow> (\<forall>v \<in> set vs. serde_plain v)"
| "serde_plain (SerMap es) \<longleftrightarrow> (\<forall>(k, v) \<in> set es. (case k of SerStr _ \<Rightarrow> True | _ \<Rightarrow> False) \<and> serde_plain v)"
| "serde_plain (SerStruct fs) \<longleftrightarrow> (\<forall>(k, v) \<in> set fs. serde_plain v)"
| "serde_plain _ \<longleftrightarrow> True"

lemma each_io_map: "each_io f (map g xs) = each_io (\<lambda>x. f (g x)) xs"
  by (induction xs) simp_all

lemma seq_is_array:
  assumes "\<And>v. v \<in> set vs \<Longrightarrow> sv v = encode_value wr bw (g v)"
  shows "bnd (serialize_seq_header bw (Some (length vs))) (\<lambda>_. each_io sv vs) = encode_value wr bw (Amf0Array (map g vs))"
proof -
  have "each_io sv vs = each_io (encode_value wr bw) (map g vs)"
    unfolding each_io_map using assms by (intro each_io_cong) simp_all
  then show ?thesis by (simp add: serialize_seq_header_def encode_array_def)
qed

lemma entries_are_object:
  assumes "\<And>k v. (k, v) \<in> set es \<Longrightarrow> sk k = encode_object_key wr bw (f k)"
    and "\<And>k v. (k, v) \<in> set es \<Longrightarrow> sv v = encode_value wr bw (g v)"
  shows "serialize_object bw (serialize_entries sk sv es) = encode_value wr bw (Amf0Object (map (\<lambda>(k, v). (f k, g v)) es))"
proof -
  have "serialize_entries sk sv es =
      each_io (\<lambda>(k, v). bnd (encode_object_key wr bw k) (\<lambda>_. encode_value wr bw v)) (map (\<lambda>(k, v). (f k, g v)) es)"
    unfolding serialize_entries_def each_io_map using assms by (intro each_io_cong) auto
  then show ?thesis by (simp add: serialize_object_def encode_object_def)
qed

lemma serialize_plain: "serde_plain v \<Longrightarrow> serialize wr bw v = encode_value wr bw (amf0_of_serde v)"
proof (induction v)
  case (SerMap es)
  have "sk = encode_object_key wr bw (case k of SerStr s \<Rightarrow> s | _ \<Rightarrow> [])"
    if "(k, v) \<in> set es" "sk = serialize_key wr bw k" for k v sk
    using SerMap.prems that by (cases k) (auto simp: serialize_key_def)
  moreover have "serialize wr bw v = encode_value wr bw (amf0_of_serde v)" if "(k, v) \<in> set es" for k v
    using SerMap that by fastforce
  ultimately show ?case
    by (simp add: entries_are_object [where f = "\<lambda>k. case k of SerStr s \<Rightarrow> s | _ \<Rightarrow> []" and g = amf0_of_serde and wr = wr])
next
  case (SerStruct fs)
  have "serialize wr bw v = encode_value wr bw (amf0_of_serde v)" if "(k, v) \<in> set fs" for k v
    using SerStruct that by fastforce
  then show ?case
    by (simp add: entries_are_object [where f = "\<lambda>k. k" and g = amf0_of_serde and wr = wr])
next
  case (SerBytes bs)
  have "serialize_bytes bw bs = encode_value wr bw (Amf0Array (map (\<lambda>b. Amf0Number (f64_of_int (uint b))) bs))"
    unfolding serialize_bytes_def by (rule seq_is_array) (simp add: serialize_int_def)
  then show ?case by simp
qed (simp_all add: serialize_int_def serialize_char_def unsigned_of_nat take_bit_eq_mod seq_is_array)

lemma amf0_value_serde_plain: "serde_plain (amf0_value_serde v) \<and> amf0_of_serde (amf0_value_serde v) = v"
proof (induction v)
  case (Amf0Object ps)
  have "serde_plain (amf0_value_serde v) \<and> amf0_of_serde (amf0_value_serde v) = v" if "(k, v) \<in> set ps" for k v
    using Amf0Object that by fastforce
  then show ?case by (auto intro!: map_idI)
qed (auto intro!: map_idI)

lemma amf0_ok_strings: "amf0_ok (Amf0String s) \<longleftrightarrow> utf8_valid s \<and> length s < 2 ^ 32"
  by simp

subsection \<open>Deserializing is decoding\<close>

lemma collect_strict: "collect_seq (Suc n) mk bo dv (StrictArrayAccess n) = times_io n dv"
proof (induction n)
  case (Suc n)
  have "collect_seq (Suc (Suc n)) mk bo dv (StrictArrayAccess (Suc n)) =
      bnd (seq_next_element mk bo dv (StrictArrayAccess (Suc n))) (\<lambda>r.
       case r of None \<Rightarrow> ret [] | Some (v, a') \<Rightarrow> bnd (collect_seq (Suc n) mk bo dv a') (\<lambda>vs. ret (v # vs)))"
    by (rule collect_seq.simps)
  then show ?case by (simp add: seq_next_element_def bnd_assoc Suc del: collect_seq.simps)
qed (simp add: seq_next_element_def)

lemma collect_object: "collect_map n mk bo z dv ObjectAccess acc = decode_members n dv mk bo z acc"
proof (induction n arbitrary: acc)
  case (Suc n)
  have "(\<lambda>k. case k of None \<Rightarrow> ret acc | Some key \<Rightarrow> bnd dv (\<lambda>v. decode_members n dv mk bo z (hm_insert key v acc))) =
      (\<lambda>k. bnd (case k of None \<Rightarrow> ret None | Some key \<Rightarrow> ret (Some (key, ObjectAccess)))
        (\<lambda>r. case r of None \<Rightarrow> ret acc | Some (key, a') \<Rightarrow> bnd dv (\<lambda>v. collect_map n mk bo z dv a' (hm_insert key v acc))))"
    by (rule ext) (auto simp: Suc split: option.splits)
  then show ?case by (simp add: map_next_key_def bnd_assoc)
qed simp

lemma collect_ecma:
  "collect_map (Suc n) mk bo z dv (EcmaArrayAccess n) acc =
     bnd (decode_pairs n dv bo z acc) (\<lambda>ps. bnd (decode_ecma_end mk bo) (\<lambda>_. ret ps))"
proof (induction n arbitrary: acc)
  case (Suc n)
  have "collect_map (Suc (Suc n)) mk bo z dv (EcmaArrayAccess (Suc n)) acc =
      bnd (map_next_key mk bo z ret (EcmaArrayAccess (Suc n))) (\<lambda>r.
       case r of None \<Rightarrow> ret acc
       | Some (key, a') \<Rightarrow> bnd dv (\<lambda>v. collect_map (Suc n) mk bo z dv a' (hm_insert key v acc)))"
    by (rule collect_map.simps)
  then show ?case by (simp add: map_next_key_def bnd_assoc Suc del: collect_map.simps)
qed (simp add: map_next_key_def bnd_assoc)

lemma deserialize_map_visitor:
  "deserialize_map mk bo z (amf0_value_visitor fuel mk bo z dv) =
     bnd (decode_object fuel dv mk bo z) (\<lambda>ps. ret (Amf0Object ps))"
proof -
  let ?v = "amf0_value_visitor fuel mk bo z dv"
  have "visit_map ?v (EcmaArrayAccess n) =
      bnd (bnd (decode_pairs n dv bo z []) (\<lambda>ps. bnd (decode_ecma_end mk bo) (\<lambda>_. ret ps))) (\<lambda>ps. ret (Amf0Object ps))" for n
    by (simp add: amf0_value_visitor_def map_fuel_def collect_ecma del: collect_map.simps)
  moreover have "visit_map ?v ObjectAccess = bnd (decode_members fuel dv mk bo z []) (\<lambda>ps. ret (Amf0Object ps))"
    by (simp add: amf0_value_visitor_def map_fuel_def collect_object)
  ultimately show ?thesis
    unfolding deserialize_map_def decode_object_def bnd_assoc
    by (intro arg_cong [where f = "bnd (decode_object_header mk bo z)"] ext) (auto split: object_header.splits simp: bnd_assoc)
qed

lemma deserialize_seq_visitor:
  "deserialize_seq mk bo (amf0_value_visitor fuel mk bo z dv) =
     bnd (decode_strict_array dv mk bo) (\<lambda>vs. ret (Amf0Array vs))"
  by (simp add: deserialize_seq_def decode_strict_array_def amf0_value_visitor_def seq_fuel_def collect_strict bnd_assoc
      del: collect_seq.simps)

lemma deserialize_scalar_visitors:
  "deserialize_bool mk bo (amf0_value_visitor fuel mk bo z dv) = bnd (decode_boolean mk bo) (\<lambda>b. ret (Amf0Boolean b))"
  "deserialize_f64 mk bo (amf0_value_visitor fuel mk bo z dv) = bnd (decode_number mk bo) (\<lambda>n. ret (Amf0Number n))"
  "deserialize_str mk bo z (amf0_value_visitor fuel mk bo z dv) = bnd (decode_string mk bo z) (\<lambda>s. ret (Amf0String s))"
  "deserialize_unit mk bo (amf0_value_visitor fuel mk bo z dv) = bnd (decode_null mk bo) (\<lambda>_. ret Amf0Null)"
  by (simp_all add: deserialize_bool_def deserialize_f64_def deserialize_str_def deserialize_unit_def amf0_value_visitor_def)

lemma deserialize_is_decode: "amf0_value_deserialize fuel mk bo z = decode_value fuel mk bo z"
  by (induction fuel)
    (simp_all add: deserialize_any_def deserialize_scalar_visitors deserialize_map_visitor deserialize_seq_visitor cong: if_cong)

subsection \<open>Integers through a float\<close>

lemma floorlog_eqI: "2 ^ (l - 1) \<le> n \<Longrightarrow> n < 2 ^ l \<Longrightarrow> floorlog 2 n = l"
  using floorlog_geI [of 2 l n] floorlog_leI [of n 2 l] by simp

lemma floorlog_pos: "0 < n \<Longrightarrow> 0 < floorlog 2 n"
  by (rule ccontr) (simp add: floorlog_eq_zero_iff)

lemma f64_unat_fields:
  fixes w :: u64
  shows "unat (drop_bit 52 w AND 0x7FF) = unat w div 2 ^ 52 mod 2 ^ 11"
    and "unat (w AND 0xFFFFFFFFFFFFF) = unat w mod 2 ^ 52"
    and "bit w 63 \<longleftrightarrow> 2 ^ 63 \<le> unat w"
proof -
  have masks: "(0x7FF :: u64) = mask 11" "(0xFFFFFFFFFFFFF :: u64) = mask 52" by (simp_all add: mask_eq_exp_minus_1)
  show "unat (drop_bit 52 w AND 0x7FF) = unat w div 2 ^ 52 mod 2 ^ 11"
    unfolding masks by (simp only: take_bit_eq_mask [symmetric] unsigned_take_bit_eq unsigned_drop_bit_eq)
      (simp add: take_bit_eq_mod drop_bit_eq_div unsigned_less [where 'b = 64 and 'a = nat, simplified])
  show "unat (w AND 0xFFFFFFFFFFFFF) = unat w mod 2 ^ 52"
    unfolding masks by (simp only: take_bit_eq_mask [symmetric] unsigned_take_bit_eq) (simp add: take_bit_eq_mod)
  have "bit w 63 \<longleftrightarrow> bit (unat w) 63" by (simp add: bit_unsigned_iff)
  then have "bit w 63 \<longleftrightarrow> odd (unat w div 2 ^ 63)" by (simp only: bit_iff_odd)
  moreover have "unat w < 2 ^ 64" using unsigned_less [of w] by simp
  ultimately show "bit w 63 \<longleftrightarrow> 2 ^ 63 \<le> unat w" by (auto simp: div_if)
qed

text \<open>A float of exponent \<open>e\<close> and fraction \<open>m\<close>, and its negation.\<close>

lemma f64_fields:
  fixes e m :: nat and w :: u64
  assumes "e < 2048" and "m < 2 ^ 52" and w: "unat w = e * 2 ^ 52 + m + (if neg then 2 ^ 63 else 0)"
  shows "unat (drop_bit 52 w AND 0x7FF) = e" and "unat (w AND 0xFFFFFFFFFFFFF) = m" and "bit w 63 \<longleftrightarrow> neg"
proof -
  have w': "unat w = m + (e + (if neg then 2048 else 0)) * 2 ^ 52" using w by simp
  have "unat w mod 2 ^ 52 = m" unfolding w' mod_mult_self1 using assms(2) by (rule mod_less)
  moreover have "unat w div 2 ^ 52 = e + (if neg then 2048 else 0)" using assms(2) unfolding w' by simp
  ultimately show "unat (drop_bit 52 w AND 0x7FF) = e" "unat (w AND 0xFFFFFFFFFFFFF) = m"
    using assms(1) unfolding f64_unat_fields by simp_all
  show "bit w 63 \<longleftrightarrow> neg" using assms by (simp add: f64_unat_fields)
qed

lemma f64_to_int_fields:
  assumes "e < 2047" and "0 < e" and "m < 2 ^ 52" and "unat w = e * 2 ^ 52 + m + (if neg then 2 ^ 63 else 0)"
  shows "f64_to_int lo hi w =
    (let v = (if e \<ge> 1075 then (2 ^ 52 + int m) * 2 ^ (e - 1075) else (2 ^ 52 + int m) div 2 ^ (1075 - e)) in
     max lo (min hi (if neg then - v else v)))"
  using assms f64_fields [of e m w neg] by (simp add: f64_to_int_def Let_def)

text \<open>The bits of an integer of at most 53 bits, and of \<open>2 ^ 53\<close>.\<close>

lemma f64_of_nat_fields:
  assumes "0 < n" and "n \<le> 2 ^ 53"
  shows "\<exists>e m. unat (f64_of_nat n) = e * 2 ^ 52 + m \<and> 0 < e \<and> e \<le> 1076 \<and> m < 2 ^ 52 \<and>
    (if e \<ge> 1075 then (2 ^ 52 + int m) * 2 ^ (e - 1075) else (2 ^ 52 + int m) div 2 ^ (1075 - e)) = int n"
proof (cases "n = 2 ^ 53")
  case True
  have "f64_of_nat (2 ^ 53) = of_nat (1076 * 2 ^ 52)"
    by (simp add: f64_of_nat_def floorlog_eqI [of 54] Let_def)
  with True show ?thesis
    by (intro exI [of _ 1076] exI [of _ 0]) simp
next
  case False
  let ?l = "floorlog 2 n"
  have l: "2 ^ (?l - 1) \<le> n" "n < 2 ^ ?l" "0 < ?l" using floorlog_bounds [of n 2] assms(1) floorlog_pos by auto
  have "?l \<le> 53" using assms False by (intro floorlog_leI) auto
  then have w: "f64_of_nat n = of_nat ((?l + 1021) * 2 ^ 52 + n * 2 ^ (53 - ?l))"
    using assms(1) by (simp add: f64_of_nat_def Let_def)
  let ?x = "n * 2 ^ (53 - ?l)"
  have "(2::nat) ^ (?l - 1) * 2 ^ (53 - ?l) = 2 ^ 52" "(2::nat) ^ ?l * 2 ^ (53 - ?l) = 2 ^ 53"
    using l(3) \<open>?l \<le> 53\<close> by (simp_all add: power_add [symmetric])
  with l(1,2) have x: "2 ^ 52 \<le> ?x" "?x < 2 ^ 53"
    using mult_le_mono1 [OF l(1), of "2 ^ (53 - ?l)"] mult_less_mono1 [OF l(2), of "2 ^ (53 - ?l)"] by simp_all
  have "unat (f64_of_nat n) = (?l + 1021) * 2 ^ 52 + ?x"
    using x \<open>?l \<le> 53\<close> unfolding w by (simp only: unsigned_of_nat) (simp add: take_bit_nat_eq_self)
  then have "unat (f64_of_nat n) = (?l + 1022) * 2 ^ 52 + (?x - 2 ^ 52)" using x by simp
  moreover have "2 ^ 52 + int (?x - 2 ^ 52) = int ?x" using x by simp
  ultimately show ?thesis
    using x l \<open>?l \<le> 53\<close> assms(1)
    by (intro exI [of _ "?l + 1022"] exI [of _ "?x - 2 ^ 52"]) auto
qed

lemma f64_int_roundtrip:
  assumes "\<bar>i\<bar> \<le> 2 ^ 53" and "lo \<le> i" and "i \<le> hi" 
  shows "f64_to_int lo hi (f64_of_int i) = i"
proof (cases "i = 0")
  case True
  with assms show ?thesis by (simp add: f64_of_int_def f64_of_nat_def f64_to_int_def)
next
  case False
  then obtain e m where em: "unat (f64_of_nat (nat \<bar>i\<bar>)) = e * 2 ^ 52 + m" "0 < e" "e \<le> 1076" "m < 2 ^ 52"
      and v: "(if e \<ge> 1075 then (2 ^ 52 + int m) * 2 ^ (e - 1075) else (2 ^ 52 + int m) div 2 ^ (1075 - e)) = \<bar>i\<bar>"
    using f64_of_nat_fields [of "nat \<bar>i\<bar>"] assms(1) by (auto simp del: of_nat_nat simp: nat_le_iff)
  have "e * 2 ^ 52 + m < 2 ^ 63" using em by simp
  then have "unat (f64_of_int i) = e * 2 ^ 52 + m + (if i < 0 then 2 ^ 63 else 0)"
    using em(1) by (auto simp: f64_of_int_def unat_word_ariths)
  from f64_to_int_fields [OF _ em(2,4) this] em(3) assms v show ?thesis by (auto simp: Let_def)
qed

section \<open>Properties\<close>

text \<open>
  C35. For \<open>Amf0Value\<close> itself serde changes nothing: serializing a value is encoding it, on
  every writer and with every error, and deserializing is decoding, on every reader.
\<close>

theorem amf0_value_serde_agrees:
  "serialize wr bw (amf0_value_serde v) = encode_value wr bw v \<and>
   amf0_value_deserialize fuel mk bo z = decode_value fuel mk bo z"
  using amf0_value_serde_plain [of v] serialize_plain [of "amf0_value_serde v"] deserialize_is_decode by metis

text \<open>
  C36. What \<open>to_bytes\<close> makes of a value (without variants that carry data), the decoder reads
  back as the AMF0 value it stands for: integers and \<open>f32\<close> as numbers, byte strings, tuples
  and sequences as arrays, structs and maps as objects, \<open>None\<close> and unit as null. A \<open>char\<close>
  stands for the number of its low eight bits only, to which the serializer cuts it, a bug
  (\<open>serialize_char_truncated\<close>).
\<close>

theorem serde_roundtrip:
  assumes "byteorder_writes vec_write bw" and "byteorder_reads cursor_read bo" and "marker_conversion mk"
    and "serde_plain v" and "amf0_ok (amf0_of_serde v)" and "amf0_fuel (amf0_of_serde v) \<le> fuel"
  shows "\<exists>bs d. to_bytes bw v = Inr bs \<and>
    amf0_value_deserialize fuel mk bo slice_reader (amf0_decoder_new (cursor_new (bs @ rest))) = (Inr (amf0_of_serde v), d) \<and>
    next_marker d = None \<and> cursor_rest (amf_reader d) = rest"
  using slice_decode [OF assms(2,3,5,6)] vec_encode [OF assms(1,5)]
  by (auto simp: to_bytes_def serialize_plain [OF assms(4)] deserialize_is_decode)

text \<open>
  C37. An integer survives the way through a float when its absolute value is at most
  \<open>2 ^ 53\<close>: what is serialized as an \<open>i64\<close> is what the visitor of \<open>deserialize_i64\<close> is
  given. The bound is tight: \<open>2 ^ 53 + 1\<close> has the encoding of \<open>2 ^ 53\<close>.
\<close>

theorem serde_int_roundtrip:
  assumes "byteorder_writes vec_write bw" and "byteorder_reads cursor_read bo" and "marker_conversion mk"
    and "\<bar>sint v\<bar> \<le> 2 ^ 53"
  shows "\<exists>bs d. to_bytes bw (SerI64 v) = Inr bs \<and>
    deserialize_i64 mk bo vis (amf0_decoder_new (cursor_new (bs @ rest))) = visit_i64 vis (sint v) d \<and>
    next_marker d = None \<and> cursor_rest (amf_reader d) = rest \<and>
    to_bytes bw (SerI64 (2 ^ 53 + 1)) = to_bytes bw (SerI64 (2 ^ 53))"
proof -
  have "f64_to_i64 (f64_of_int (sint v)) = sint v"
    unfolding f64_to_i64_def using assms(4) by (intro f64_int_roundtrip) auto
  moreover have "f64_of_int (sint (2 ^ 53 + 1 :: 64 word)) = f64_of_int (sint (2 ^ 53 :: 64 word))"
    by (simp add: f64_of_int_def f64_of_nat_def floorlog_eqI [of 54] Let_def)
  moreover have "to_bytes bw (SerI64 w) = Inr (amf0_bytes (Amf0Number (f64_of_int (sint w))))" for w
    using vec_encode [OF assms(1), of "amf0_of_serde (SerI64 w)"] serialize_plain [of "SerI64 w" vec_write bw]
    by (simp add: to_bytes_def)
  ultimately show ?thesis
    using slice_run [OF slice.adec_number [OF slice_byteorder [OF assms(2)] assms(3), of "f64_of_int (sint v)"], of rest]
    by (auto simp: deserialize_i64_def)
qed

text \<open>A character is cut to its low eight bits: different characters have the same encoding.\<close>

lemma serialize_char_truncated: "serialize wr bw (SerChar (c + 256)) = serialize wr bw (SerChar c)"
proof -
  have "(of_nat (c + 256) :: u8) = of_nat c" by (rule unsigned_word_eqI [where 'a = nat]) (simp only: unsigned_of_nat take_bit_eq_mod, simp)
  then show ?thesis by (simp only: serialize.simps serialize_char_def)
qed

definition serde_sample :: serde_value where
  "serde_sample = SerStruct [([0x61], SerSome (SerSeq (Some 2) [SerU8 5, SerBool True])), ([0x62], SerBytes [1, 2]), ([0x63], SerNone)]"

theorem serde_roundtrip_witness:
  "\<exists>bs d. to_bytes (be_writes vec_write) serde_sample = Inr bs \<and>
    amf0_value_deserialize 20 marker_from_u8 (be_reads cursor_read) slice_reader (amf0_decoder_new (cursor_new (bs @ [7]))) =
      (Inr (amf0_of_serde serde_sample), d) \<and> next_marker d = None \<and> cursor_rest (amf_reader d) = [7]"
  by (rule serde_roundtrip [OF byteorder_writes_be_writes byteorder_reads_be_reads marker_conversion_from_u8])
    (simp_all add: serde_sample_def utf8_cont_def)

theorem serde_int_roundtrip_witness:
  "\<exists>bs d. to_bytes (be_writes vec_write) (SerI64 (- 3)) = Inr bs \<and>
    deserialize_i64 marker_from_u8 (be_reads cursor_read)
      (amf0_value_visitor 0 marker_from_u8 (be_reads cursor_read) slice_reader (ret Amf0Null)) (amf0_decoder_new (cursor_new (bs @ [7]))) =
      (Inr (Amf0Number (f64_of_int (- 3))), d) \<and> next_marker d = None \<and> cursor_rest (amf_reader d) = [7]"
  using serde_int_roundtrip [OF byteorder_writes_be_writes byteorder_reads_be_reads marker_conversion_from_u8,
      of "- 3" "amf0_value_visitor 0 marker_from_u8 (be_reads cursor_read) slice_reader (ret Amf0Null)" "[7]"]
  by (auto simp: amf0_value_visitor_def run_simps)

end
