(* ===== verification/Rtmp_Messages.thy ===== *)
theory Rtmp_Messages
  imports Rtmp_Chunk_Roundtrip Rtmp_Handshake Amf0_Serde
begin

text \<open>
  \<open>crates/rtmp/src\<close>: the messages of a session. Control messages (\<open>protocol_control_messages\<close>,
  \<open>user_control_messages\<close>) and commands (\<open>command_messages\<close>, AMF0 behind a name and a
  transaction id) with their readers and writers, and \<open>MessageData\<close> (\<open>messages\<close>), what the
  payload of a chunk is read as.
\<close>

subsection \<open>Errors (error.rs, command_messages/error.rs, session/server/error.rs)\<close>

datatype command_error = CommandAmf0 amf0_error | InvalidOnStatusInfoObject | NoClientImplementation

datatype server_session_error = Timeout | PublishBeforeConnect | PlayNotSupported | InvalidChunkSize nat

text \<open>\<open>RtmpError\<close> with all of its variants.\<close>

datatype session_error =
    SeIo err
  | SeChunkRead chunk_read_error
  | SeCommand command_error
  | SeComplexHandshake complex_handshake_error
  | SeSession server_session_error
  | SePanic string

fun session_of_io :: "err \<Rightarrow> session_error" where
  "session_of_io (Panic m) = SePanic m"
| "session_of_io (IoErr k m) = SeIo (IoErr k m)"

fun session_of_chunk :: "rtmp_error \<Rightarrow> session_error" where
  "session_of_chunk (RtmpIo e) = session_of_io e"
| "session_of_chunk (RtmpChunkRead e) = SeChunkRead e"
| "session_of_chunk (RtmpPanic m) = SePanic m"

fun session_of_handshake :: "handshake_error \<Rightarrow> session_error" where
  "session_of_handshake (HsIo e) = session_of_io e"
| "session_of_handshake (HsComplex e) = SeComplexHandshake e"

fun session_of_command :: "command_error \<Rightarrow> session_error" where
  "session_of_command (CommandAmf0 (Amf0Panic m)) = SePanic m"
| "session_of_command e = SeCommand e"

definition is_client_closed :: "session_error \<Rightarrow> bool" where
  "is_client_closed e = (case e of
      SeIo (IoErr k _) \<Rightarrow> k = ConnectionAborted \<or> k = ConnectionReset \<or> k = UnexpectedEof
    | SeSession Timeout \<Rightarrow> True
    | _ \<Rightarrow> False)"

subsection \<open>Message types (messages/mod.rs, chunk/mod.rs)\<close>

definition CHUNK_STREAM_ID_COMMAND :: u32 where "CHUNK_STREAM_ID_COMMAND = 3"

definition SetChunkSizeType :: message_type where "SetChunkSizeType = 1"
definition AbortType :: message_type where "AbortType = 2"
definition AcknowledgementType :: message_type where "AcknowledgementType = 3"
definition UserControlEventType :: message_type where "UserControlEventType = 4"
definition WindowAcknowledgementSizeType :: message_type where "WindowAcknowledgementSizeType = 5"
definition SetPeerBandwidthType :: message_type where "SetPeerBandwidthType = 6"
definition AudioType :: message_type where "AudioType = 8"
definition VideoType :: message_type where "VideoType = 9"
definition DataAMF3Type :: message_type where "DataAMF3Type = 15"
definition SharedObjAMF3Type :: message_type where "SharedObjAMF3Type = 16"
definition CommandAMF3Type :: message_type where "CommandAMF3Type = 17"
definition DataAMF0Type :: message_type where "DataAMF0Type = 18"
definition SharedObjAMF0Type :: message_type where "SharedObjAMF0Type = 19"
definition CommandAMF0Type :: message_type where "CommandAMF0Type = 20"
definition AggregateType :: message_type where "AggregateType = 22"

lemmas message_types = SetChunkSizeType_def AbortType_def AcknowledgementType_def UserControlEventType_def
  WindowAcknowledgementSizeType_def SetPeerBandwidthType_def AudioType_def VideoType_def DataAMF3Type_def
  SharedObjAMF3Type_def CommandAMF3Type_def DataAMF0Type_def SharedObjAMF0Type_def CommandAMF0Type_def AggregateType_def

definition EventStreamBegin :: u16 where "EventStreamBegin = 0"

datatype bandwidth_limit_type = LimitHard | LimitSoft | LimitDynamic

definition bandwidth_limit_value :: "bandwidth_limit_type \<Rightarrow> u8" where
  "bandwidth_limit_value t = (case t of LimitHard \<Rightarrow> 0 | LimitSoft \<Rightarrow> 1 | LimitDynamic \<Rightarrow> 2)"

subsection \<open>Commands (command_messages)\<close>

type_synonym amf0_object = "(utf8 \<times> amf0_value) list"

datatype command_result_level = LevelWarning | LevelStatus | LevelError | LevelUnknown utf8

definition level_str :: "command_result_level \<Rightarrow> utf8" where
  "level_str l = (case l of LevelWarning \<Rightarrow> utf8_of ''warning'' | LevelStatus \<Rightarrow> utf8_of ''status''
     | LevelError \<Rightarrow> utf8_of ''error'' | LevelUnknown s \<Rightarrow> s)"

definition level_from_str :: "utf8 \<Rightarrow> command_result_level" where
  "level_from_str s =
     (if s = utf8_of ''warning'' then LevelWarning
      else if s = utf8_of ''status'' then LevelStatus
      else if s = utf8_of ''error'' then LevelError
      else LevelUnknown s)"

record on_status =
  os_code :: utf8
  os_description :: "utf8 option"
  os_level :: command_result_level
  os_others :: "amf0_object option"

definition NET_CONNECTION_CONNECT_SUCCESS :: utf8 where
  "NET_CONNECTION_CONNECT_SUCCESS = utf8_of ''NetConnection.Connect.Success''"
definition NET_CONNECTION_CONNECT_RECONNECT_REQUEST :: utf8 where
  "NET_CONNECTION_CONNECT_RECONNECT_REQUEST = utf8_of ''NetConnection.Connect.ReconnectRequest''"
definition NET_STREAM_PUBLISH_START :: utf8 where
  "NET_STREAM_PUBLISH_START = utf8_of ''NetStream.Publish.Start''"
definition NET_STREAM_DELETE_STREAM_SUCCESS :: utf8 where
  "NET_STREAM_DELETE_STREAM_SUCCESS = utf8_of ''NetStream.DeleteStream.Suceess''"

text \<open>The capabilities are a bit mask; \<open>Reconnect\<close> is its lowest bit.\<close>

definition CapsExReconnect :: u8 where "CapsExReconnect = 0x01"

definition caps_intersects :: "u8 \<Rightarrow> u8 \<Rightarrow> bool" where
  "caps_intersects a b \<longleftrightarrow> a AND b \<noteq> 0"

record net_connect =
  nc_app :: utf8
  nc_caps_ex :: "u8 option"
  nc_others :: amf0_object

record connect_properties =
  cp_fms_ver :: utf8
  cp_capabilities :: u64

record connect_result =
  cr_properties :: connect_properties
  cr_information :: on_status

text \<open>The bits of 31.0 and of 1.0.\<close>

definition connect_properties_default :: connect_properties where
  "connect_properties_default = \<lparr>cp_fms_ver = utf8_of ''FMS/3,0,1,123'', cp_capabilities = 0x403F000000000000\<rparr>"

definition connect_result_default :: connect_result where
  "connect_result_default = \<lparr>cr_properties = connect_properties_default,
     cr_information = \<lparr>os_code = NET_CONNECTION_CONNECT_SUCCESS,
       os_description = Some (utf8_of ''Connection Succeeded.''), os_level = LevelStatus,
       os_others = Some [(utf8_of ''objectEncoding'', Amf0Number 0)]\<rparr>\<rparr>"

datatype net_connection_command =
    Connect net_connect
  | ConnectResult connect_result
  | CallCommand "amf0_object option" "amf0_object option"
  | CloseCommand
  | CreateStream
  | CreateStreamResult u64

datatype publishing_type = PublishLive | PublishRecord | PublishAppend | PublishUnknown utf8

datatype net_stream_command =
    Play "amf0_value list"
  | Play2 amf0_object
  | DeleteStream u64
  | CloseStream
  | ReceiveAudio bool
  | ReceiveVideo bool
  | Publish utf8 publishing_type
  | Seek u64
  | Pause bool u64

datatype command_type =
    NetConnection net_connection_command
  | NetStream net_stream_command
  | OnStatusCommand on_status
  | UnknownCommand utf8 "amf0_value list"

record command =
  transaction_id :: u64
  command_kind :: command_type

text \<open>
  What the messages take from outside: the conversions generated by \<open>num_derive\<close>, \<open>byteorder\<close>
  on cursors (\<open>re_bo\<close>), payloads (\<open>re_bb\<close>) and vectors (\<open>re_bw\<close>), and the serde
  implementations derived for the types of commands.
\<close>

record rtmp_env =
  re_chunk_type :: "u8 \<Rightarrow> chunk_type option"
  re_marker :: marker_fn
  re_bo :: "cursor byteorder"
  re_bb :: "u8 list byteorder"
  re_bw :: "u8 list byteorder_w"
  re_connect :: "(u8 list, net_connect) amf0"
  re_call_object :: "(u8 list, amf0_object option) amf0"
  re_publishing_type :: "(u8 list, publishing_type) amf0"
  re_on_status :: "on_status \<Rightarrow> serde_value"
  re_properties :: "connect_properties \<Rightarrow> serde_value"

type_synonym 'a cmd = "(u8 list amf0_decoder, command_error, 'a) act"

text \<open>A call of the decoder, with \<open>?\<close> converting its error.\<close>

definition dcd :: "(u8 list, 'a) amf0 \<Rightarrow> 'a cmd" where
  "dcd m = map_err CommandAmf0 m"

definition net_connection_read :: "rtmp_env \<Rightarrow> utf8 \<Rightarrow> net_connection_command option cmd" where
  "net_connection_read env name =
     (if name = utf8_of ''connect'' then
        bnd (dcd (re_connect env)) (\<lambda>c. ret (Some (Connect c)))
      else if name = utf8_of ''call'' then
        bnd (dcd (re_call_object env)) (\<lambda>obj.
        bnd (dcd (re_call_object env)) (\<lambda>args. ret (Some (CallCommand obj args))))
      else if name = utf8_of ''close'' then ret (Some CloseCommand)
      else if name = utf8_of ''createStream'' then ret (Some CreateStream)
      else ret None)"

text \<open>\<open>decoder.decode_null()?\<close>, which skips the command object, before the arguments.\<close>

definition after_null :: "rtmp_env \<Rightarrow> 'a cmd \<Rightarrow> 'a cmd" where
  "after_null env m = bnd (dcd (decode_null (re_marker env) (re_bb env))) (\<lambda>_. m)"

definition net_stream_read :: "rtmp_env \<Rightarrow> nat \<Rightarrow> utf8 \<Rightarrow> net_stream_command option cmd" where
  "net_stream_read env fuel name =
     (let mk = re_marker env; bo = re_bb env in
      if name = utf8_of ''play'' then
        after_null env (bnd (dcd (decode_all fuel mk bo bytes_buf)) (\<lambda>vs. ret (Some (Play vs))))
      else if name = utf8_of ''play2'' then
        after_null env (bnd (dcd (decode_object fuel (decode_value fuel mk bo bytes_buf) mk bo bytes_buf)) (\<lambda>ps.
          ret (Some (Play2 ps))))
      else if name = utf8_of ''deleteStream'' then
        after_null env (bnd (dcd (decode_number mk bo)) (\<lambda>n. ret (Some (DeleteStream n))))
      else if name = utf8_of ''closeStream'' then ret (Some CloseStream)
      else if name = utf8_of ''receiveAudio'' then
        after_null env (bnd (dcd (decode_boolean mk bo)) (\<lambda>b. ret (Some (ReceiveAudio b))))
      else if name = utf8_of ''receiveVideo'' then
        after_null env (bnd (dcd (decode_boolean mk bo)) (\<lambda>b. ret (Some (ReceiveVideo b))))
      else if name = utf8_of ''publish'' then
        after_null env (bnd (dcd (decode_string mk bo bytes_buf)) (\<lambda>stream.
          bnd (dcd (re_publishing_type env)) (\<lambda>t. ret (Some (Publish stream t)))))
      else if name = utf8_of ''seek'' then
        after_null env (bnd (dcd (decode_number mk bo)) (\<lambda>n. ret (Some (Seek n))))
      else if name = utf8_of ''pause'' then
        after_null env (bnd (dcd (decode_boolean mk bo)) (\<lambda>b.
          bnd (dcd (decode_number mk bo)) (\<lambda>n. ret (Some (Pause b n)))))
      else ret None)"

definition command_type_read :: "rtmp_env \<Rightarrow> nat \<Rightarrow> utf8 \<Rightarrow> command_type cmd" where
  "command_type_read env fuel name =
     bnd (net_connection_read env name) (\<lambda>c.
     case c of Some c \<Rightarrow> ret (NetConnection c)
     | None \<Rightarrow>
       bnd (net_stream_read env fuel name) (\<lambda>c.
       case c of Some c \<Rightarrow> ret (NetStream c)
       | None \<Rightarrow>
         bnd (dcd (decode_all fuel (re_marker env) (re_bb env) bytes_buf)) (\<lambda>vs. ret (UnknownCommand name vs))))"

definition command_fields_read :: "rtmp_env \<Rightarrow> nat \<Rightarrow> command cmd" where
  "command_fields_read env fuel =
     bnd (dcd (decode_string (re_marker env) (re_bb env) bytes_buf)) (\<lambda>name.
     bnd (dcd (decode_number (re_marker env) (re_bb env))) (\<lambda>tid.
     bnd (command_type_read env fuel name) (\<lambda>k.
     ret \<lparr>transaction_id = tid, command_kind = k\<rparr>)))"

text \<open>The decoder reads the payload only; its length is enough fuel.\<close>

definition command_read :: "rtmp_env \<Rightarrow> u8 list \<Rightarrow> command_error + command" where
  "command_read env bs = fst (command_fields_read env (length bs + 2) (amf0_decoder_new bs))"

text \<open>The writers.\<close>

definition enc :: "(u8 list, unit) amf0_enc \<Rightarrow> (u8 list, command_error, unit) act" where
  "enc m = map_err CommandAmf0 m"

definition on_status_write :: "rtmp_env \<Rightarrow> on_status \<Rightarrow> u64 \<Rightarrow> (u8 list, command_error, unit) act" where
  "on_status_write env s tid =
     bnd (enc (encode_string vec_write (re_bw env) (utf8_of ''onStatus''))) (\<lambda>_.
     bnd (enc (encode_number (re_bw env) tid)) (\<lambda>_.
     bnd (enc (encode_null (re_bw env))) (\<lambda>_.
     enc (serialize vec_write (re_bw env) (re_on_status env s)))))"

definition net_connection_write :: "rtmp_env \<Rightarrow> net_connection_command \<Rightarrow> u64 \<Rightarrow> (u8 list, command_error, unit) act" where
  "net_connection_write env c tid =
     (case c of
        ConnectResult r \<Rightarrow>
          bnd (enc (encode_string vec_write (re_bw env) (utf8_of ''_result''))) (\<lambda>_.
          bnd (enc (encode_number (re_bw env) tid)) (\<lambda>_.
          bnd (enc (serialize vec_write (re_bw env) (re_properties env (cr_properties r)))) (\<lambda>_.
          enc (serialize vec_write (re_bw env) (re_on_status env (cr_information r))))))
      | CreateStreamResult stream \<Rightarrow>
          bnd (enc (encode_string vec_write (re_bw env) (utf8_of ''_result''))) (\<lambda>_.
          bnd (enc (encode_number (re_bw env) tid)) (\<lambda>_.
          bnd (enc (encode_null (re_bw env))) (\<lambda>_.
          enc (encode_number (re_bw env) stream))))
      | _ \<Rightarrow> fail NoClientImplementation)"

definition command_payload :: "rtmp_env \<Rightarrow> command \<Rightarrow> command_error + u8 list" where
  "command_payload env c =
     (case (case command_kind c of
         NetConnection nc \<Rightarrow> net_connection_write env nc (transaction_id c)
       | NetStream _ \<Rightarrow> fail NoClientImplementation
       | OnStatusCommand s \<Rightarrow> on_status_write env s (transaction_id c)
       | UnknownCommand _ _ \<Rightarrow> ret ()) [] of
       (Inl e, _) \<Rightarrow> Inl e | (Inr _, bs) \<Rightarrow> Inr bs)"

text \<open>Writing a chunk to a vector; \<open>None\<close> is a loop that does not end.\<close>

type_synonym chunk_out = "u8 list \<Rightarrow> ((session_error + unit) \<times> u8 list) option"

definition write_message :: "rtmp_env \<Rightarrow> chunk_writer \<Rightarrow> chunk \<Rightarrow> chunk_out" where
  "write_message env cw c out =
     (case write_chunk cw vec_write (re_bw env) c out of
        None \<Rightarrow> None
      | Some (Inl e, out') \<Rightarrow> Some (Inl (session_of_io e), out')
      | Some (Inr _, out') \<Rightarrow> Some (Inr (), out'))"

definition command_write :: "rtmp_env \<Rightarrow> command \<Rightarrow> chunk_writer \<Rightarrow> chunk_out" where
  "command_write env c cw out =
     (case command_payload env c of
        Inl e \<Rightarrow> Some (Inl (session_of_command e), out)
      | Inr bs \<Rightarrow> write_message env cw (chunk_new CHUNK_STREAM_ID_COMMAND 0 CommandAMF0Type 0 bs) out)"

subsection \<open>Control messages (protocol_control_messages, user_control_messages)\<close>

definition set_chunk_size_read :: "rtmp_env \<Rightarrow> u8 list \<Rightarrow> err + u32" where
  "set_chunk_size_read env bs = fst (bo_u32 (re_bo env) (cursor_new bs))"

definition window_size_read :: "rtmp_env \<Rightarrow> u8 list \<Rightarrow> err + u32" where
  "window_size_read env bs = fst (bo_u32 (re_bo env) (cursor_new bs))"

definition control_chunk :: "message_type \<Rightarrow> u8 list \<Rightarrow> chunk" where
  "control_chunk ty bs = chunk_new 2 0 ty 0 bs"

definition set_chunk_size_write :: "rtmp_env \<Rightarrow> u32 \<Rightarrow> chunk_writer \<Rightarrow> chunk_out" where
  "set_chunk_size_write env n cw =
     write_message env cw (control_chunk SetChunkSizeType (be_bytes 4 (n AND 0x7FFFFFFF)))"

definition acknowledgement_write :: "rtmp_env \<Rightarrow> u32 \<Rightarrow> chunk_writer \<Rightarrow> chunk_out" where
  "acknowledgement_write env n cw = write_message env cw (control_chunk AcknowledgementType (be_bytes 4 n))"

definition window_size_write :: "rtmp_env \<Rightarrow> u32 \<Rightarrow> chunk_writer \<Rightarrow> chunk_out" where
  "window_size_write env n cw = write_message env cw (control_chunk WindowAcknowledgementSizeType (be_bytes 4 n))"

text \<open>A payload that is put together in a vector, with \<open>expect\<close>.\<close>

definition write_built :: "rtmp_env \<Rightarrow> chunk_writer \<Rightarrow> message_type \<Rightarrow> (u8 list, unit) io \<Rightarrow> chunk_out" where
  "write_built env cw ty m out =
     (case m [] of
        (Inl _, _) \<Rightarrow> Some (Inl (SePanic ''expect''), out)
      | (Inr _, bs) \<Rightarrow> write_message env cw (control_chunk ty bs) out)"

definition peer_bandwidth_write :: "rtmp_env \<Rightarrow> u32 \<Rightarrow> bandwidth_limit_type \<Rightarrow> chunk_writer \<Rightarrow> chunk_out" where
  "peer_bandwidth_write env n t cw =
     write_built env cw SetPeerBandwidthType
       (bnd (bw_u32 (re_bw env) n) (\<lambda>_. bw_u8 (re_bw env) (bandwidth_limit_value t)))"

definition stream_begin_write :: "rtmp_env \<Rightarrow> u32 \<Rightarrow> chunk_writer \<Rightarrow> chunk_out" where
  "stream_begin_write env stream cw =
     write_built env cw UserControlEventType
       (bnd (bw_u16 (re_bw env) EventStreamBegin) (\<lambda>_. bw_u32 (re_bw env) stream))"

subsection \<open>MessageData (messages/mod.rs, messages/reader.rs)\<close>

datatype message_data =
    SetChunkSizeMessage u32
  | AbortMessage
  | AcknowledgementMessage
  | UserControlEventMessage
  | SetAcknowledgementWindowSizeMessage u32
  | SetPeerBandwidthMessage
  | AudioData "u8 list"
  | VideoData "u8 list"
  | DataAmf3Message
  | SharedObjAmf3Message
  | CommandAmf3Message
  | DataAmf0 "u8 list"
  | SharedObjAmf0Message
  | Amf0Command command
  | AggregateMessage
  | UnknownMessage message_type "u8 list"

definition message_read :: "rtmp_env \<Rightarrow> chunk \<Rightarrow> session_error + message_data" where
  "message_read env c =
     (let ty = msg_type_id (message_header c); bs = payload c in
      if ty = SetChunkSizeType then
        (case set_chunk_size_read env bs of Inl e \<Rightarrow> Inl (session_of_io e) | Inr n \<Rightarrow> Inr (SetChunkSizeMessage n))
      else if ty = AbortType then Inr AbortMessage
      else if ty = AcknowledgementType then Inr AcknowledgementMessage
      else if ty = UserControlEventType then Inr UserControlEventMessage
      else if ty = WindowAcknowledgementSizeType then
        (case window_size_read env bs of Inl e \<Rightarrow> Inl (session_of_io e)
         | Inr n \<Rightarrow> Inr (SetAcknowledgementWindowSizeMessage n))
      else if ty = SetPeerBandwidthType then Inr SetPeerBandwidthMessage
      else if ty = AudioType then Inr (AudioData bs)
      else if ty = VideoType then Inr (VideoData bs)
      else if ty = DataAMF3Type then Inr DataAmf3Message
      else if ty = SharedObjAMF3Type then Inr SharedObjAmf3Message
      else if ty = CommandAMF3Type then Inr CommandAmf3Message
      else if ty = DataAMF0Type then Inr (DataAmf0 bs)
      else if ty = SharedObjAMF0Type then Inr SharedObjAmf0Message
      else if ty = CommandAMF0Type then
        (case command_read env bs of Inl e \<Rightarrow> Inl (session_of_command e) | Inr cmd \<Rightarrow> Inr (Amf0Command cmd))
      else if ty = AggregateType then Inr AggregateMessage
      else Inr (UnknownMessage ty bs))"

subsection \<open>What the messages rely on\<close>

definition lawful_env :: "rtmp_env \<Rightarrow> bool" where
  "lawful_env env \<longleftrightarrow> byteorder_reads cursor_read (re_bo env) \<and> byteorder_reads bytes_read (re_bb env) \<and>
     byteorder_writes vec_write (re_bw env) \<and> chunk_type_conversion (re_chunk_type env) \<and>
     marker_conversion (re_marker env)"

lemma write_chunk_returns:
  assumes "byteorder_writes vec_write bw" and "0 < chunk_size cw"
  shows "\<exists>r v'. write_chunk cw vec_write bw c v = Some (r, v')"
  using vec.write_payload_ok [OF assms]
  by (auto simp: write_chunk_def split: prod.splits sum.splits)

lemma write_message_returns:
  assumes "lawful_env env" and "0 < chunk_size cw"
  shows "\<exists>r v'. write_message env cw c v = Some (r, v')"
  using write_chunk_returns [of "re_bw env" cw c v] assms
  by (auto simp: write_message_def lawful_env_def split: sum.splits)

lemma message_writers_return:
  assumes "lawful_env env" and "0 < chunk_size cw"
  shows "\<exists>r v'. command_write env c cw v = Some (r, v')"
    and "\<exists>r v'. set_chunk_size_write env n cw v = Some (r, v')"
    and "\<exists>r v'. acknowledgement_write env n cw v = Some (r, v')"
    and "\<exists>r v'. window_size_write env n cw v = Some (r, v')"
    and "\<exists>r v'. peer_bandwidth_write env n t cw v = Some (r, v')"
    and "\<exists>r v'. stream_begin_write env n cw v = Some (r, v')"
  using write_message_returns [OF assms]
  by (auto simp: command_write_def set_chunk_size_write_def acknowledgement_write_def window_size_write_def
      peer_bandwidth_write_def stream_begin_write_def write_built_def split: sum.splits prod.splits)

text \<open>A message with a short payload is written as its chunks.\<close>

lemma write_message_ok:
  assumes "lawful_env env" and "0 < chunk_size cw" and "length bs < 2 ^ 24"
  shows "write_message env cw (control_chunk ty bs) v = Some (Inr (), v @ chunk_bytes (chunk_size cw) (control_chunk ty bs))"
proof -
  have "unat (of_nat (length bs) :: u32) < 2 ^ 24"
    using assms(3) by (simp add: unsigned_of_nat take_bit_nat_eq_self)
  then show ?thesis
    using vec.write_chunk_ok [of "re_bw env" cw "control_chunk ty bs" v] assms
    by (simp add: write_message_def control_chunk_def chunk_new_def lawful_env_def)
qed

subsection \<open>The format of commands\<close>

text \<open>
  \<open>command_format env name bs k\<close>: behind the name and the transaction id, the bytes \<open>bs\<close> are
  the arguments of the command \<open>k\<close>. The types whose reader is derived are the arguments that
  this reader accepts.
\<close>

definition null_bytes :: "u8 list" where "null_bytes = amf0_bytes Amf0Null"

definition command_names :: "utf8 set" where
  "command_names = utf8_of ` {''connect'', ''call'', ''close'', ''createStream'', ''play'', ''play2'', ''deleteStream'',
     ''closeStream'', ''receiveAudio'', ''receiveVideo'', ''publish'', ''seek'', ''pause''}"

inductive command_format :: "rtmp_env \<Rightarrow> utf8 \<Rightarrow> u8 list \<Rightarrow> command_type \<Rightarrow> bool" for env where
  connect: "bytes.adec bytes.no_marker bytes.no_marker (re_connect env) bs c \<Longrightarrow>
    command_format env (utf8_of ''connect'') bs (NetConnection (Connect c))"
| call: "bytes.adec bytes.no_marker bytes.no_marker (re_call_object env) bs obj \<Longrightarrow>
    bytes.adec bytes.no_marker bytes.no_marker (re_call_object env) bs' args \<Longrightarrow>
    command_format env (utf8_of ''call'') (bs @ bs') (NetConnection (CallCommand obj args))"
| close: "command_format env (utf8_of ''close'') [] (NetConnection CloseCommand)"
| create_stream: "command_format env (utf8_of ''createStream'') bs (NetConnection CreateStream)"
| play: "\<forall>v \<in> set vs. amf0_ok v \<Longrightarrow>
    command_format env (utf8_of ''play'') (null_bytes @ concat (map amf0_bytes vs)) (NetStream (Play vs))"
| play2: "amf0_ok (Amf0Object ps) \<Longrightarrow>
    command_format env (utf8_of ''play2'') (null_bytes @ amf0_bytes (Amf0Object ps)) (NetStream (Play2 ps))"
| delete_stream: "command_format env (utf8_of ''deleteStream'') (null_bytes @ amf0_bytes (Amf0Number n)) (NetStream (DeleteStream n))"
| close_stream: "command_format env (utf8_of ''closeStream'') bs (NetStream CloseStream)"
| receive_audio: "command_format env (utf8_of ''receiveAudio'') (null_bytes @ amf0_bytes (Amf0Boolean b)) (NetStream (ReceiveAudio b))"
| receive_video: "command_format env (utf8_of ''receiveVideo'') (null_bytes @ amf0_bytes (Amf0Boolean b)) (NetStream (ReceiveVideo b))"
| publish: "utf8_valid s \<Longrightarrow> length s < 2 ^ 32 \<Longrightarrow>
    bytes.adec bytes.no_marker bytes.no_marker (re_publishing_type env) bs t \<Longrightarrow>
    command_format env (utf8_of ''publish'') (null_bytes @ amf0_bytes (Amf0String s) @ bs) (NetStream (Publish s t))"
| seek: "command_format env (utf8_of ''seek'') (null_bytes @ amf0_bytes (Amf0Number n)) (NetStream (Seek n))"
| pause: "command_format env (utf8_of ''pause'') (null_bytes @ amf0_bytes (Amf0Boolean b) @ amf0_bytes (Amf0Number n)) (NetStream (Pause b n))"
| unknown: "name \<notin> command_names \<Longrightarrow> \<forall>v \<in> set vs. amf0_ok v \<Longrightarrow>
    command_format env name (concat (map amf0_bytes vs)) (UnknownCommand name vs)"

text \<open>\<open>reads m bs x\<close>: on the bytes \<open>bs\<close>, up to the end of the input, \<open>m\<close> returns \<open>x\<close>.\<close>

definition reads :: "'a cmd \<Rightarrow> u8 list \<Rightarrow> 'a \<Rightarrow> bool" where
  "reads m bs x \<longleftrightarrow> (\<forall>d. bytes.no_marker d \<longrightarrow> bytes.view d = bs \<longrightarrow> (\<exists>d'. m d = (Inr x, d')))"

lemma reads_ret: "reads (ret x) bs x"
  by (simp add: reads_def run_simps)

lemma reads_dcd:
  assumes "bytes.adec bytes.no_marker bytes.no_marker m as x" and "reads (f x) bs y"
  shows "reads (bnd (dcd m) f) (as @ bs) y"
  unfolding reads_def
proof (intro allI impI)
  fix d
  assume "bytes.no_marker d" "bytes.view d = as @ bs"
  from bytes.adecE [OF assms(1) this] obtain e where "m d = (Inr x, e)" "bytes.view e = bs" "bytes.no_marker e" .
  with assms(2) show "\<exists>d'. bnd (dcd m) f d = (Inr y, d')"
    by (simp add: reads_def dcd_def bnd_def map_err_def)
qed

lemma reads_dcd_last: "bytes.adec bytes.no_marker bytes.no_marker m as x \<Longrightarrow> reads (f x) [] y \<Longrightarrow> reads (bnd (dcd m) f) as y"
  using reads_dcd [of m as x f "[]"] by simp

lemma lawful_bytes:
  assumes "lawful_env env"
  shows "byteorder_reads (zc_read bytes_buf) (re_bb env)" and "marker_conversion (re_marker env)"
  using assms by (simp_all add: lawful_env_def bytes_buf_def)

lemma reads_values:
  assumes env: "lawful_env env" and vs: "\<forall>v \<in> set vs. amf0_ok v" "length (concat (map amf0_bytes vs)) < fuel"
  shows "reads (bnd (dcd (decode_all fuel (re_marker env) (re_bb env) bytes_buf)) (\<lambda>vs. ret (g vs)))
    (concat (map amf0_bytes vs)) (g vs)"
  unfolding reads_def
proof (intro allI impI)
  fix d
  assume "bytes.no_marker d" and view: "bytes.view d = concat (map amf0_bytes vs)"
  then have "bytes.any_marker d" by (simp add: bytes.no_marker_def bytes.any_marker_def)
  from bytes.decode_all_end [OF lawful_bytes [OF env] vs this view]
  show "\<exists>d'. bnd (dcd (decode_all fuel (re_marker env) (re_bb env) bytes_buf)) (\<lambda>vs. ret (g vs)) d = (Inr (g vs), d')"
    by (auto simp: dcd_def bnd_def map_err_def run_simps)
qed

lemma adec_args:
  assumes "lawful_env env"
  shows "bytes.adec bytes.no_marker bytes.no_marker (decode_null (re_marker env) (re_bb env)) null_bytes ()"
    and "bytes.adec bytes.no_marker bytes.no_marker (decode_number (re_marker env) (re_bb env)) (amf0_bytes (Amf0Number n)) n"
    and "bytes.adec bytes.no_marker bytes.no_marker (decode_boolean (re_marker env) (re_bb env)) (amf0_bytes (Amf0Boolean b)) b"
    and "utf8_valid s \<Longrightarrow> length s < 2 ^ 32 \<Longrightarrow>
      bytes.adec bytes.no_marker bytes.no_marker (decode_string (re_marker env) (re_bb env) bytes_buf) (amf0_bytes (Amf0String s)) s"
  unfolding null_bytes_def amf0_bytes.simps
  by (rule bytes.adec_any, rule bytes.adec_null bytes.adec_number bytes.adec_boolean bytes.adec_string; use lawful_bytes [OF assms] in simp)+

lemma adec_play2:
  assumes "lawful_env env" and "amf0_ok (Amf0Object ps)" and "amf0_fuel (Amf0Object ps) \<le> fuel"
  shows "bytes.adec bytes.no_marker bytes.no_marker (decode_object fuel (decode_value fuel (re_marker env) (re_bb env) bytes_buf)
    (re_marker env) (re_bb env) bytes_buf) (amf0_bytes (Amf0Object ps)) ps"
  by (rule bytes.adec_any, rule bytes.adec_object) (use lawful_bytes [OF assms(1)] assms(2,3) in simp_all)

lemma reads_after_null:
  assumes "lawful_env env" and "reads m bs x"
  shows "reads (after_null env m) (null_bytes @ bs) x"
  unfolding after_null_def by (rule reads_dcd [OF adec_args(1) [OF assms(1)]]) (rule assms(2))

text \<open>The command of a connection, of a stream, or neither.\<close>

lemma reads_bnd: "reads m bs x \<Longrightarrow> (\<And>d. fst (f x d) = Inr y) \<Longrightarrow> reads (bnd m f) bs y"
  unfolding reads_def bnd_def by (metis (no_types, lifting) old.prod.case prod.collapse sum.case(2))

lemma reads_net_connection:
  "reads (net_connection_read env name) bs (Some c) \<Longrightarrow> reads (command_type_read env fuel name) bs (NetConnection c)"
  unfolding command_type_read_def by (erule reads_bnd) (simp add: ret_def)

lemma reads_net_stream:
  "name \<notin> utf8_of ` {''connect'', ''call'', ''close'', ''createStream''} \<Longrightarrow>
     reads (net_stream_read env fuel name) bs (Some c) \<Longrightarrow> reads (command_type_read env fuel name) bs (NetStream c)"
  by (simp add: command_type_read_def net_connection_read_def bnd_ret) (erule reads_bnd, simp add: ret_def)

lemmas command_readers = net_connection_read_def net_stream_read_def Let_def

lemma command_type_format:
  assumes env: "lawful_env env" and "command_format env name bs k" and "length bs < fuel"
  shows "reads (command_type_read env fuel name) bs k"
  using assms(2,3)
proof (cases rule: command_format.cases)
  case (connect c)
  show ?thesis unfolding connect
    by (rule reads_net_connection) (simp add: command_readers reads_dcd_last [OF connect(3)] reads_ret)
next
  case (call as obj as' args)
  show ?thesis unfolding call
    by (rule reads_net_connection) (simp add: command_readers reads_dcd [OF call(4)] reads_dcd_last [OF call(5)] reads_ret)
next
  case close
  show ?thesis unfolding close by (rule reads_net_connection) (simp add: command_readers reads_ret)
next
  case create_stream
  show ?thesis unfolding create_stream by (rule reads_net_connection) (simp add: command_readers reads_ret)
next
  case (play vs)
  have "length (concat (map amf0_bytes vs)) < fuel" using assms(3) play(2) by simp
  with play(4) show ?thesis unfolding play
    by (intro reads_net_stream) (simp_all add: command_readers
      reads_after_null [OF env reads_values [OF env, where g = "\<lambda>vs. Some (Play vs)"]])
next
  case (play2 ps)
  have "amf0_fuel (Amf0Object ps) \<le> fuel"
    using assms(3) amf0_fuel_le [of "Amf0Object ps"] play2(2) by simp
  note object = adec_play2 [OF env play2(4) this]
  show ?thesis unfolding play2
    by (intro reads_net_stream) (simp_all add: command_readers reads_after_null [OF env] reads_dcd_last [OF object] reads_ret
      del: amf0_bytes.simps)
next
  case (publish s ts t)
  show ?thesis unfolding publish
    by (intro reads_net_stream) (simp_all add: command_readers reads_after_null [OF env] reads_dcd [OF adec_args(4) [OF env publish(4,5)]]
      reads_dcd_last [OF publish(6)] reads_ret del: amf0_bytes.simps)
next
  case (unknown vs)
  have "length (concat (map amf0_bytes vs)) < fuel" using assms(3) unknown(1) by simp
  with unknown show ?thesis
    by (simp add: command_type_read_def command_readers command_names_def bnd_ret reads_values [OF env])
qed (auto intro!: reads_net_stream simp: command_readers reads_ret reads_after_null [OF env] reads_dcd [OF adec_args(3) [OF env]]
    reads_dcd_last [OF adec_args(2) [OF env]] reads_dcd_last [OF adec_args(3) [OF env]] simp del: amf0_bytes.simps)

text \<open>The payload of a control message is read back.\<close>

lemma control_message_read:
  assumes env: "lawful_env env"
  shows "set_chunk_size_read env (be_bytes 4 n) = Inr n" and "window_size_read env (be_bytes 4 n) = Inr n"
proof -
  have "byteorder_reads cursor_read (re_bo env)" using env by (simp add: lawful_env_def)
  then have "cur.sdec (bo_u32 (re_bo env)) (be_bytes 4 n) n"
    using cur.sdec_bo(4) [of "re_bo env" n] by (simp add: be_bytes_def)
  moreover have "cursor_rest (cursor_new (be_bytes 4 n)) = be_bytes 4 n @ []"
    by (simp add: cursor_new_def cursor_rest_def)
  ultimately obtain c where "bo_u32 (re_bo env) (cursor_new (be_bytes 4 n)) = (Inr n, c)"
    by (rule cur.sdecE [OF _ TrueI])
  then show "set_chunk_size_read env (be_bytes 4 n) = Inr n" "window_size_read env (be_bytes 4 n) = Inr n"
    by (simp_all add: set_chunk_size_read_def window_size_read_def)
qed

subsection \<open>A concrete environment\<close>

text \<open>
  The environment of the witnesses: byte orders and conversions as documented, and a reader of
  \<open>connect\<close> that takes the application from the command object.
\<close>

definition sample_connect :: "(u8 list, net_connect) amf0" where
  "sample_connect =
     (let bo = be_reads bytes_read in
      bnd (decode_object 50 (decode_value 50 marker_from_u8 bo bytes_buf) marker_from_u8 bo bytes_buf) (\<lambda>ps.
      case map_of ps (utf8_of ''app'') of
        Some (Amf0String app) \<Rightarrow> ret \<lparr>nc_app = app, nc_caps_ex = None, nc_others = ps\<rparr>
      | _ \<Rightarrow> fail (Amf0Custom ''missing field'')))"

definition sample_env :: rtmp_env where
  "sample_env = \<lparr>re_chunk_type = chunk_type_from_u8, re_marker = marker_from_u8,
     re_bo = be_reads cursor_read, re_bb = be_reads bytes_read, re_bw = be_writes vec_write,
     re_connect = sample_connect,
     re_call_object = fail (Amf0Custom ''no call''),
     re_publishing_type = bnd (decode_string marker_from_u8 (be_reads bytes_read) bytes_buf) (\<lambda>s. ret (PublishUnknown s)),
     re_on_status = (\<lambda>s. SerUnit), re_properties = (\<lambda>p. SerUnit)\<rparr>"

lemma sample_env_lawful: "lawful_env sample_env"
  by (simp add: lawful_env_def sample_env_def byteorder_reads_be_reads byteorder_writes_be_writes
      chunk_type_conversion_from_u8 marker_conversion_from_u8)

section \<open>Properties\<close>

text \<open>
  C27. A command is read as it was sent: behind its name and transaction id, the arguments of
  every command that a server understands are decoded to that command, and anything else to
  an unknown command with its values; the fuel that the length of the payload gives is
  enough.
\<close>

theorem command_read_format:
  assumes env: "lawful_env env" and name: "utf8_valid name" "length name < 2 ^ 32" and k: "command_format env name bs k"
  shows "command_read env (amf0_bytes (Amf0String name) @ amf0_bytes (Amf0Number tid) @ bs) =
    Inr \<lparr>transaction_id = tid, command_kind = k\<rparr>"
proof -
  let ?bs = "amf0_bytes (Amf0String name) @ amf0_bytes (Amf0Number tid) @ bs"
  have "reads (command_fields_read env (length ?bs + 2)) ?bs \<lparr>transaction_id = tid, command_kind = k\<rparr>"
    unfolding command_fields_read_def
    by (intro reads_dcd [OF adec_args(4) [OF env name]] reads_dcd [OF adec_args(2) [OF env]]
        reads_bnd [OF command_type_format [OF env k]]) (simp_all add: ret_def)
  moreover have "bytes.no_marker (amf0_decoder_new ?bs)" "bytes.view (amf0_decoder_new ?bs) = ?bs"
    by (simp_all add: bytes.no_marker_def bytes.view_def pending_def amf0_decoder_new_def)
  ultimately show ?thesis
    unfolding reads_def command_read_def by (metis fst_conv)
qed


text \<open>
  C28. The two control messages that both sides read survive the way through a chunk: what
  the writer of \<open>SetChunkSize\<close> and of \<open>WindowAcknowledgementSize\<close> appends is read by a chunk
  reader with the same chunk size, without a byte left over, and is the same message; a chunk
  size keeps its 31 low bits.
\<close>

theorem control_message_roundtrip:
  assumes env: "lawful_env env" and size: "0 < chunk_size cw" "max_chunk_size r = chunk_size cw" and r: "chunk_reader_ok r"
    and room: "\<And>ty bs. has_room r (control_chunk ty bs)"
  shows "(\<exists>bs c r'. set_chunk_size_write env n cw out = Some (Inr (), out @ bs) \<and>
      read_chunk (re_chunk_type env) (re_bo env) r (bs @ rest) = Some (Inr (Some c), r', rest) \<and>
      message_read env c = Inr (SetChunkSizeMessage (take_bit 31 n))) \<and>
    (\<exists>bs c r'. window_size_write env n cw out = Some (Inr (), out @ bs) \<and>
      read_chunk (re_chunk_type env) (re_bo env) r (bs @ rest) = Some (Inr (Some c), r', rest) \<and>
      message_read env c = Inr (SetAcknowledgementWindowSizeMessage n))"
proof -
  have laws: "byteorder_reads cursor_read (re_bo env)" "chunk_type_conversion (re_chunk_type env)"
    using env by (simp_all add: lawful_env_def)
  have rd: "\<exists>r'. read_chunk (re_chunk_type env) (re_bo env) r (chunk_bytes (chunk_size cw) (control_chunk ty (be_bytes 4 m)) @ rest) =
      Some (Inr (Some (chunk_received (chunk_size cw) (control_chunk ty (be_bytes 4 m)))), r', rest)" for ty and m :: u32
  proof -
    have "chunk_writable (control_chunk ty (be_bytes 4 m))"
      by (simp add: chunk_writable_def control_chunk_def chunk_new_def MAX_PARTIAL_CHUNK_SIZE_def)
    from read_chunk_bytes [OF laws r this room, of rest] size(2) show ?thesis by auto
  qed
  have mask: "n AND 0x7FFFFFFF = take_bit 31 n"
    by (simp add: take_bit_eq_mask mask_eq_exp_minus_1)
  have "message_read env (chunk_received (chunk_size cw) (control_chunk SetChunkSizeType (be_bytes 4 m))) = Inr (SetChunkSizeMessage m)"
    "message_read env (chunk_received (chunk_size cw) (control_chunk WindowAcknowledgementSizeType (be_bytes 4 m))) =
      Inr (SetAcknowledgementWindowSizeMessage m)" for m
    using control_message_read [OF env, of m]
    by (simp_all add: message_read_def chunk_received_def control_chunk_def chunk_new_def message_types Let_def)
  then show ?thesis
    using rd write_message_ok [OF env size(1), where v = out]
    by (simp add: set_chunk_size_write_def window_size_write_def mask) blast
qed

theorem command_read_format_witness:
  "command_read sample_env (amf0_bytes (Amf0String (utf8_of ''pause'')) @ amf0_bytes (Amf0Number 7) @
      null_bytes @ amf0_bytes (Amf0Boolean True) @ amf0_bytes (Amf0Number 9)) =
    Inr \<lparr>transaction_id = 7, command_kind = NetStream (Pause True 9)\<rparr>"
proof (rule command_read_format [OF sample_env_lawful])
  show "utf8_valid (utf8_of ''pause'')" by code_simp
  show "length (utf8_of ''pause'') < 2 ^ 32" by (simp add: utf8_of_def)
qed (rule command_format.pause)

theorem control_message_roundtrip_witness:
  "(\<exists>bs c r'. set_chunk_size_write sample_env 4096 chunk_writer_default [7] = Some (Inr (), [7] @ bs) \<and>
      read_chunk (re_chunk_type sample_env) (re_bo sample_env) chunk_reader_default (bs @ [9]) = Some (Inr (Some c), r', [9]) \<and>
      message_read sample_env c = Inr (SetChunkSizeMessage (take_bit 31 4096))) \<and>
    (\<exists>bs c r'. window_size_write sample_env 4096 chunk_writer_default [7] = Some (Inr (), [7] @ bs) \<and>
      read_chunk (re_chunk_type sample_env) (re_bo sample_env) chunk_reader_default (bs @ [9]) = Some (Inr (Some c), r', [9]) \<and>
      message_read sample_env c = Inr (SetAcknowledgementWindowSizeMessage 4096))"
  by (rule control_message_roundtrip [OF sample_env_lawful])
    (simp_all add: chunk_writer_default_def chunk_reader_default_def INIT_CHUNK_SIZE_def chunk_reader_default_ok [unfolded chunk_reader_default_def INIT_CHUNK_SIZE_def]
      has_room_def MAX_PARTIAL_CHUNK_COUNT_def MAX_PREVIOUS_CHUNK_HEADERS_def)

end
