(* ===== verification/Rtmp_Session.thy ===== *)
theory Rtmp_Session
  imports Rtmp_Messages
begin

text \<open>
  \<open>crates/rtmp/src/session/server\<close>: a server session, which runs the handshake, then reads
  chunks, answers commands and tells its handler of published streams and their data.
  Asynchronous functions are their sequence of effects: the session awaits one thing at a
  time.
\<close>

subsection \<open>The world of a session\<close>

text \<open>
  The stream \<open>S\<close> with its deadlines, and the contexts. A read ends with a timeout, an error
  or bytes (none at the end of the input); \<open>tr_cancelled\<close> holds where a read would go on
  waiting while the context of the session is cancelled, which ends the handshake;
  \<open>tr_done\<close> is \<open>is_done\<close> of the context.
\<close>

datatype 'a timed = Elapsed | Ready "err + 'a"

record 't transport =
  tr_read :: "'t \<Rightarrow> u8 list timed \<times> 't"
  tr_write_all :: "u8 list \<Rightarrow> 't \<Rightarrow> unit timed \<times> 't"
  tr_cancelled :: "'t \<Rightarrow> bool"
  tr_done :: "'t \<Rightarrow> bool"

datatype session_data = SessionVideo u32 "u8 list" | SessionAudio u32 "u8 list" | SessionAmf0 u32 "u8 list"

text \<open>\<open>SessionHandler\<close>.\<close>

type_synonym ('h, 'a) callback = "'h \<Rightarrow> (server_session_error + 'a) \<times> 'h"

record 'h session_handler =
  on_publish :: "u32 \<Rightarrow> utf8 \<Rightarrow> utf8 \<Rightarrow> ('h, unit) callback"
  on_unpublish :: "u32 \<Rightarrow> ('h, unit) callback"
  on_unknown_message :: "u32 \<Rightarrow> message_type \<Rightarrow> u8 list \<Rightarrow> ('h, unit) callback"
  on_unknown_command :: "u32 \<Rightarrow> utf8 \<Rightarrow> amf0_value list \<Rightarrow> ('h, unit) callback"
  on_data :: "u32 \<Rightarrow> session_data \<Rightarrow> ('h, unit) callback"

record ('t, 'h) session =
  ses_has_ctx :: bool
  ses_reconnect_request_sent :: bool
  ses_app_name :: "utf8 option"
  ses_caps_ex :: "u8 option"
  ses_io :: 't
  ses_handler :: 'h
  ses_window_size :: u32
  ses_sequence_number :: u32
  ses_read_buf :: "u8 list"
  ses_write_buf :: "u8 list"
  ses_skip_read :: bool
  ses_chunk_reader :: chunk_reader
  ses_chunk_writer :: chunk_writer
  ses_publishing :: "u32 list"

definition DEFAULT_ACKNOWLEDGEMENT_WINDOW_SIZE :: u32 where
  "DEFAULT_ACKNOWLEDGEMENT_WINDOW_SIZE = 2500000"

definition session_new :: "'t \<Rightarrow> 'h \<Rightarrow> ('t, 'h) session" where
  "session_new io h = \<lparr>ses_has_ctx = False, ses_reconnect_request_sent = False, ses_app_name = None,
     ses_caps_ex = None, ses_io = io, ses_handler = h, ses_window_size = DEFAULT_ACKNOWLEDGEMENT_WINDOW_SIZE,
     ses_sequence_number = 0, ses_read_buf = [], ses_write_buf = [], ses_skip_read = False,
     ses_chunk_reader = chunk_reader_default, ses_chunk_writer = chunk_writer_default, ses_publishing = []\<rparr>"

definition with_context :: "('t, 'h) session \<Rightarrow> ('t, 'h) session" where
  "with_context s = s\<lparr>ses_has_ctx := True\<rparr>"

subsection \<open>Operations that may not return\<close>

type_synonym ('s, 'a) pact = "'s \<Rightarrow> ((session_error + 'a) \<times> 's) option"

definition pret :: "'a \<Rightarrow> ('s, 'a) pact" where
  "pret a s = Some (Inr a, s)"

definition pfail :: "session_error \<Rightarrow> ('s, 'a) pact" where
  "pfail e s = Some (Inl e, s)"

definition pbnd :: "('s, 'a) pact \<Rightarrow> ('a \<Rightarrow> ('s, 'b) pact) \<Rightarrow> ('s, 'b) pact" where
  "pbnd m f s = (case m s of None \<Rightarrow> None | Some (Inl e, s') \<Rightarrow> Some (Inl e, s') | Some (Inr a, s') \<Rightarrow> f a s')"

definition pget :: "('s \<Rightarrow> 'a) \<Rightarrow> ('s, 'a) pact" where
  "pget f s = Some (Inr (f s), s)"

definition pset :: "('s \<Rightarrow> 's) \<Rightarrow> ('s, unit) pact" where
  "pset f s = Some (Inr (), f s)"

text \<open>A write to \<open>write_buf\<close> with the chunk writer, and a call of the handler, with \<open>?\<close>.\<close>

definition swrite :: "(chunk_writer \<Rightarrow> chunk_out) \<Rightarrow> (('t, 'h) session, unit) pact" where
  "swrite m s = (case m (ses_chunk_writer s) (ses_write_buf s) of
      None \<Rightarrow> None | Some (r, out) \<Rightarrow> Some (r, s\<lparr>ses_write_buf := out\<rparr>))"

definition scall :: "('h, unit) callback \<Rightarrow> (('t, 'h) session, unit) pact" where
  "scall m s = (case m (ses_handler s) of
      (Inl e, h) \<Rightarrow> Some (Inl (SeSession e), s\<lparr>ses_handler := h\<rparr>)
    | (Inr _, h) \<Rightarrow> Some (Inr (), s\<lparr>ses_handler := h\<rparr>))"

type_synonym ('t, 'h, 'a) sact = "(('t, 'h) session, 'a) pact"

subsection \<open>The handshake\<close>

definition HANDSHAKE_READ_SIZE :: nat where
  "HANDSHAKE_READ_SIZE = RTMP_HANDSHAKE_SIZE + 1"

definition usize_to_u32 :: "nat \<Rightarrow> u32" where
  "usize_to_u32 n = (if n < 2 ^ 32 then of_nat n else 0xFFFFFFFF)"

text \<open>The read loop. \<open>Some None\<close> is a cancelled context.\<close>

partial_function (option) handshake_read :: "'t transport \<Rightarrow> nat \<Rightarrow> ('t, 'h) session \<Rightarrow>
    ((session_error + unit) option \<times> ('t, 'h) session) option" where
  "handshake_read tr n s =
     (if n < HANDSHAKE_READ_SIZE then
        if tr_cancelled tr (ses_io s) then Some (None, s)
        else (case tr_read tr (ses_io s) of
            (Elapsed, io) \<Rightarrow> Some (Some (Inl (SeSession Timeout)), s\<lparr>ses_io := io\<rparr>)
          | (Ready (Inl e), io) \<Rightarrow> Some (Some (Inl (session_of_io e)), s\<lparr>ses_io := io\<rparr>)
          | (Ready (Inr bs), io) \<Rightarrow> handshake_read tr (n + length bs)
              (s\<lparr>ses_io := io, ses_read_buf := ses_read_buf s @ bs,
                 ses_sequence_number := ses_sequence_number s + usize_to_u32 (length bs)\<rparr>))
      else Some (Some (Inr ()), s))"

definition send_set_chunk_size :: "rtmp_env \<Rightarrow> ('t, 'h, unit) sact" where
  "send_set_chunk_size env =
     pbnd (swrite (set_chunk_size_write env (of_nat CHUNK_SIZE))) (\<lambda>_.
     pset (\<lambda>s. s\<lparr>ses_chunk_writer := set_chunk_size CHUNK_SIZE (ses_chunk_writer s)\<rparr>))"

text \<open>What follows the read loop; the result is whether the handshake is complete.\<close>

definition handshake_step :: "rtmp_env \<Rightarrow> hs_env \<Rightarrow> handshake_server \<Rightarrow> ('t, 'h) session \<Rightarrow>
    ((session_error + bool) \<times> handshake_server \<times> ('t, 'h) session) option" where
  "handshake_step env hs server s =
     (case handshake hs (re_bo env) (re_bw env) server (cursor_new (ses_read_buf s)) (ses_write_buf s) of
        (r, server', c, out) \<Rightarrow>
          let s = s\<lparr>ses_read_buf := [], ses_write_buf := out\<rparr> in
          (case r of
             Inl e \<Rightarrow> Some (Inl (session_of_handshake e), server', s)
           | Inr _ \<Rightarrow>
               if handshake_finished server' then
                 (case extract_remaining c of
                    (Inl e, _) \<Rightarrow> Some (Inl (session_of_io e), server', s)
                  | (Inr over_read, _) \<Rightarrow>
                      let s = (if over_read \<noteq> []
                               then s\<lparr>ses_skip_read := True, ses_read_buf := over_read\<rparr> else s) in
                      (case send_set_chunk_size env s of
                         None \<Rightarrow> None
                       | Some (Inl e, s') \<Rightarrow> Some (Inl e, server', s')
                       | Some (Inr _, s') \<Rightarrow> Some (Inr True, server', s')))
               else Some (Inr False, server', s)))"

text \<open>\<open>drive_handshake\<close>; its result is \<open>None\<close> when the context is cancelled.\<close>

definition drive_handshake :: "rtmp_env \<Rightarrow> hs_env \<Rightarrow> 't transport \<Rightarrow> handshake_server \<Rightarrow> ('t, 'h) session \<Rightarrow>
    ((session_error + bool) option \<times> handshake_server \<times> ('t, 'h) session) option" where
  "drive_handshake env hs tr server s =
     (case handshake_read tr 0 s of
        None \<Rightarrow> None
      | Some (None, s') \<Rightarrow> Some (None, server, s')
      | Some (Some (Inl e), s') \<Rightarrow> Some (Some (Inl e), server, s')
      | Some (Some (Inr _), s') \<Rightarrow>
          (case handshake_step env hs server s' of
             None \<Rightarrow> None
           | Some (r, server', s'') \<Rightarrow> Some (Some r, server', s'')))"

definition flush :: "'t transport \<Rightarrow> ('t, 'h, unit) sact" where
  "flush tr s =
     (if ses_write_buf s = [] then Some (Inr (), s)
      else case tr_write_all tr (ses_write_buf s) (ses_io s) of
          (Elapsed, io) \<Rightarrow> Some (Inl (SeSession Timeout), s\<lparr>ses_io := io\<rparr>)
        | (Ready (Inl e), io) \<Rightarrow> Some (Inl (session_of_io e), s\<lparr>ses_io := io\<rparr>)
        | (Ready (Inr _), io) \<Rightarrow> Some (Inr (), s\<lparr>ses_io := io, ses_write_buf := []\<rparr>))"

subsection \<open>Commands\<close>

definition status_command :: "utf8 \<Rightarrow> u64 \<Rightarrow> command" where
  "status_command code tid = \<lparr>transaction_id = tid,
     command_kind = OnStatusCommand \<lparr>os_code = code, os_description = None, os_level = LevelStatus, os_others = None\<rparr>\<rparr>"

definition on_command_connect :: "rtmp_env \<Rightarrow> u64 \<Rightarrow> net_connect \<Rightarrow> ('t, 'h, unit) sact" where
  "on_command_connect env tid connect =
     pbnd (swrite (window_size_write env (of_nat CHUNK_SIZE))) (\<lambda>_.
     pbnd (swrite (peer_bandwidth_write env (of_nat CHUNK_SIZE) LimitDynamic)) (\<lambda>_.
     pbnd (pset (\<lambda>s. s\<lparr>ses_app_name := Some (nc_app connect), ses_caps_ex := nc_caps_ex connect\<rparr>)) (\<lambda>_.
     swrite (command_write env \<lparr>transaction_id = tid,
       command_kind = NetConnection (ConnectResult connect_result_default)\<rparr>))))"

definition on_command_create_stream :: "rtmp_env \<Rightarrow> u64 \<Rightarrow> ('t, 'h, unit) sact" where
  "on_command_create_stream env tid =
     swrite (command_write env \<lparr>transaction_id = tid,
       command_kind = NetConnection (CreateStreamResult 0x3FF0000000000000)\<rparr>)"

definition on_command_delete_stream :: "rtmp_env \<Rightarrow> 'h session_handler \<Rightarrow> u64 \<Rightarrow> u64 \<Rightarrow> ('t, 'h, unit) sact" where
  "on_command_delete_stream env hdl tid del =
     (let stream = of_int (f64_to_int 0 (2 ^ 32 - 1) del) in
      pbnd (scall (on_unpublish hdl stream)) (\<lambda>_.
      pbnd (pset (\<lambda>s. s\<lparr>ses_publishing := filter (\<lambda>i. i \<noteq> stream) (ses_publishing s)\<rparr>)) (\<lambda>_.
      swrite (command_write env (status_command NET_STREAM_DELETE_STREAM_SUCCESS tid)))))"

definition on_command_publish :: "rtmp_env \<Rightarrow> 'h session_handler \<Rightarrow> u32 \<Rightarrow> u64 \<Rightarrow> utf8 \<Rightarrow> ('t, 'h, unit) sact" where
  "on_command_publish env hdl stream tid name =
     pbnd (pget ses_app_name) (\<lambda>app.
     case app of
       None \<Rightarrow> pfail (SeSession PublishBeforeConnect)
     | Some app \<Rightarrow>
         pbnd (scall (on_publish hdl stream app name)) (\<lambda>_.
         pbnd (pset (\<lambda>s. s\<lparr>ses_publishing := ses_publishing s @ [stream]\<rparr>)) (\<lambda>_.
         pbnd (swrite (stream_begin_write env stream)) (\<lambda>_.
         swrite (command_write env (status_command NET_STREAM_PUBLISH_START tid))))))"

definition on_command_message :: "rtmp_env \<Rightarrow> 'h session_handler \<Rightarrow> u32 \<Rightarrow> command \<Rightarrow> ('t, 'h, unit) sact" where
  "on_command_message env hdl stream c =
     (case command_kind c of
        NetConnection (Connect connect) \<Rightarrow> on_command_connect env (transaction_id c) connect
      | NetConnection CreateStream \<Rightarrow> on_command_create_stream env (transaction_id c)
      | NetStream (Play _) \<Rightarrow> pfail (SeSession PlayNotSupported)
      | NetStream (Play2 _) \<Rightarrow> pfail (SeSession PlayNotSupported)
      | NetStream (DeleteStream del) \<Rightarrow> on_command_delete_stream env hdl (transaction_id c) del
      | NetStream CloseStream \<Rightarrow> pret ()
      | NetStream (Publish name _) \<Rightarrow> on_command_publish env hdl stream (transaction_id c) name
      | UnknownCommand name values \<Rightarrow> scall (on_unknown_command hdl stream name values)
      | _ \<Rightarrow> pret ())"

subsection \<open>Messages\<close>

definition on_set_chunk_size :: "nat \<Rightarrow> ('t, 'h, unit) sact" where
  "on_set_chunk_size n s =
     (case update_max_chunk_size n (ses_chunk_reader s) of
        (True, r) \<Rightarrow> Some (Inr (), s\<lparr>ses_chunk_reader := r\<rparr>)
      | (False, r) \<Rightarrow> Some (Inl (SeSession (InvalidChunkSize n)), s\<lparr>ses_chunk_reader := r\<rparr>))"

definition on_acknowledgement_window_size :: "u32 \<Rightarrow> ('t, 'h, unit) sact" where
  "on_acknowledgement_window_size n = pset (\<lambda>s. s\<lparr>ses_window_size := n\<rparr>)"

definition process_message :: "rtmp_env \<Rightarrow> 'h session_handler \<Rightarrow> message_data \<Rightarrow> u32 \<Rightarrow> u32 \<Rightarrow> ('t, 'h, unit) sact" where
  "process_message env hdl msg stream ts =
     (case msg of
        Amf0Command c \<Rightarrow> on_command_message env hdl stream c
      | SetChunkSizeMessage n \<Rightarrow> on_set_chunk_size (unat n)
      | SetAcknowledgementWindowSizeMessage n \<Rightarrow> on_acknowledgement_window_size n
      | AudioData bs \<Rightarrow> scall (on_data hdl stream (SessionAudio ts bs))
      | VideoData bs \<Rightarrow> scall (on_data hdl stream (SessionVideo ts bs))
      | DataAmf0 bs \<Rightarrow> scall (on_data hdl stream (SessionAmf0 ts bs))
      | UnknownMessage ty bs \<Rightarrow> scall (on_unknown_message hdl stream ty bs)
      | _ \<Rightarrow> pret ())"

definition process_chunk :: "rtmp_env \<Rightarrow> 'h session_handler \<Rightarrow> chunk \<Rightarrow> ('t, 'h, unit) sact" where
  "process_chunk env hdl c s =
     (case message_read env c of
        Inl e \<Rightarrow> Some (Inl e, s)
      | Inr msg \<Rightarrow> process_message env hdl msg (msg_stream_id (message_header c)) (timestamp (message_header c)) s)"

partial_function (option) process_chunks :: "rtmp_env \<Rightarrow> 'h session_handler \<Rightarrow> ('t, 'h, unit) sact" where
  "process_chunks env hdl s =
     (case read_chunk (re_chunk_type env) (re_bo env) (ses_chunk_reader s) (ses_read_buf s) of
        None \<Rightarrow> None
      | Some (r, cr, buf) \<Rightarrow>
          let s = s\<lparr>ses_chunk_reader := cr, ses_read_buf := buf\<rparr> in
          (case r of
             Inl e \<Rightarrow> Some (Inl (session_of_chunk e), s)
           | Inr None \<Rightarrow> Some (Inr (), s)
           | Inr (Some c) \<Rightarrow>
               (case process_chunk env hdl c s of
                  None \<Rightarrow> None
                | Some (Inl e, s') \<Rightarrow> Some (Inl e, s')
                | Some (Inr _, s') \<Rightarrow> process_chunks env hdl s')))"

subsection \<open>The session\<close>

definition reconnect_request :: "rtmp_env \<Rightarrow> 't transport \<Rightarrow> ('t, 'h, unit) sact" where
  "reconnect_request env tr s =
     (if \<not> ses_reconnect_request_sent s \<and>
         (case ses_caps_ex s of None \<Rightarrow> False | Some c \<Rightarrow> caps_intersects c CapsExReconnect) \<and>
         ses_has_ctx s \<and> tr_done tr (ses_io s)
      then (case on_status_write env \<lparr>os_code = NET_CONNECTION_CONNECT_RECONNECT_REQUEST, os_description = None,
                os_level = LevelStatus, os_others = None\<rparr> 0 (ses_write_buf s) of
          (Inl e, out) \<Rightarrow> Some (Inl (session_of_command e), s\<lparr>ses_write_buf := out\<rparr>)
        | (Inr _, out) \<Rightarrow> Some (Inr (), s\<lparr>ses_write_buf := out, ses_reconnect_request_sent := True\<rparr>))
      else Some (Inr (), s))"

text \<open>Whether \<open>n\<close> more bytes reach the next acknowledgement.\<close>

definition ack_due :: "u32 \<Rightarrow> u32 \<Rightarrow> u32 \<Rightarrow> err + bool" where
  "ack_due seq window n =
     (if window = 0 then Inl (Panic ''remainder with a divisor of zero'')
      else rbind (checked_add (seq mod window) n) (\<lambda>m. Inr (m \<ge> window)))"

definition account_read :: "rtmp_env \<Rightarrow> u32 \<Rightarrow> ('t, 'h, unit) sact" where
  "account_read env n s =
     (case ack_due (ses_sequence_number s) (ses_window_size s) n of
        Inl e \<Rightarrow> Some (Inl (session_of_io e), s)
      | Inr due \<Rightarrow>
          pbnd (if due then swrite (acknowledgement_write env (ses_sequence_number s)) else pret ()) (\<lambda>_.
          pset (\<lambda>s. s\<lparr>ses_sequence_number := ses_sequence_number s + n\<rparr>)) s)"

text \<open>The read of \<open>drive\<close>; \<open>False\<close> is the end of the input.\<close>

definition drive_read :: "rtmp_env \<Rightarrow> 't transport \<Rightarrow> ('t, 'h, bool) sact" where
  "drive_read env tr s =
     (if ses_skip_read s then Some (Inr True, s\<lparr>ses_skip_read := False\<rparr>)
      else case tr_read tr (ses_io s) of
          (Elapsed, io) \<Rightarrow> Some (Inl (SeSession Timeout), s\<lparr>ses_io := io\<rparr>)
        | (Ready (Inl e), io) \<Rightarrow> Some (Inl (session_of_io e), s\<lparr>ses_io := io\<rparr>)
        | (Ready (Inr bs), io) \<Rightarrow>
            let s = s\<lparr>ses_io := io, ses_read_buf := ses_read_buf s @ bs\<rparr>; n = of_nat (length bs) in
            if n = 0 then Some (Inr False, s)
            else pbnd (account_read env n) (\<lambda>_. pret True) s)"

definition drive :: "rtmp_env \<Rightarrow> 'h session_handler \<Rightarrow> 't transport \<Rightarrow> ('t, 'h, bool) sact" where
  "drive env hdl tr =
     pbnd (reconnect_request env tr) (\<lambda>_.
     pbnd (drive_read env tr) (\<lambda>active.
     if active then pbnd (process_chunks env hdl) (\<lambda>_. pret True) else pret False))"

partial_function (option) run_handshake :: "rtmp_env \<Rightarrow> hs_env \<Rightarrow> 't transport \<Rightarrow> handshake_server \<Rightarrow> ('t, 'h) session \<Rightarrow>
    ((session_error + bool) \<times> ('t, 'h) session) option" where
  "run_handshake env hs tr server s =
     (case drive_handshake env hs tr server s of
        None \<Rightarrow> None
      | Some (None, server', s') \<Rightarrow> Some (Inr False, s')
      | Some (Some (Inl e), server', s') \<Rightarrow> Some (Inl e, s')
      | Some (Some (Inr finished), server', s') \<Rightarrow>
          if finished then Some (Inr True, s')
          else (case flush tr s' of
             None \<Rightarrow> None
           | Some (Inl e, s'') \<Rightarrow> Some (Inl e, s'')
           | Some (Inr _, s'') \<Rightarrow> run_handshake env hs tr server' s''))"

partial_function (option) run_session :: "rtmp_env \<Rightarrow> 'h session_handler \<Rightarrow> 't transport \<Rightarrow> ('t, 'h, bool) sact" where
  "run_session env hdl tr s =
     (case drive env hdl tr s of
        None \<Rightarrow> None
      | Some (Inl e, s') \<Rightarrow>
          if is_client_closed e then Some (Inr (ses_publishing s' = []), s') else Some (Inl e, s')
      | Some (Inr active, s') \<Rightarrow>
          if \<not> active then Some (Inr (ses_publishing s' = []), s')
          else (case flush tr s' of
             None \<Rightarrow> None
           | Some (Inl e, s'') \<Rightarrow> Some (Inl e, s'')
           | Some (Inr _, s'') \<Rightarrow> run_session env hdl tr s''))"

definition run :: "rtmp_env \<Rightarrow> hs_env \<Rightarrow> 'h session_handler \<Rightarrow> 't transport \<Rightarrow> ('t, 'h, bool) sact" where
  "run env hs hdl tr s =
     (case run_handshake env hs tr handshake_server_default s of
        None \<Rightarrow> None
      | Some (Inl e, s') \<Rightarrow> Some (Inl e, s')
      | Some (Inr finished, s') \<Rightarrow>
          if finished then run_session env hdl tr s' else Some (Inr False, s'))"

end
