(* ===== verification/Rtmp_Session_Props.thy ===== *)
theory Rtmp_Session_Props
  imports Rtmp_Session
begin

text \<open>
  The session never hangs on what it does itself, keeps its invariant, refines the abstract
  state machine of an RTMP publisher, and acknowledges what it reads.
\<close>

subsection \<open>The invariant\<close>

definition session_ok :: "('t, 'h) session \<Rightarrow> bool" where
  "session_ok s \<longleftrightarrow> chunk_reader_ok (ses_chunk_reader s) \<and> 0 < chunk_size (ses_chunk_writer s) \<and>
     (ses_publishing s \<noteq> [] \<longrightarrow> ses_app_name s \<noteq> None)"

text \<open>An operation that returns, keeps the invariant and leaves the input alone.\<close>

definition safe :: "('t, 'h, 'a) sact \<Rightarrow> bool" where
  "safe m \<longleftrightarrow> (\<forall>s. session_ok s \<longrightarrow>
     (\<exists>r s'. m s = Some (r, s') \<and> session_ok s' \<and> ses_read_buf s' = ses_read_buf s))"

named_theorems safety

lemma safeE:
  assumes "safe m" and "session_ok s"
  obtains r s' where "m s = Some (r, s')" "session_ok s'" "ses_read_buf s' = ses_read_buf s"
  using assms by (auto simp: safe_def)

lemma safe_pret [safety]: "safe (pret a)" and safe_pfail [safety]: "safe (pfail e)" and safe_pget [safety]: "safe (pget f)"
  by (simp_all add: safe_def pret_def pfail_def pget_def)

lemma safe_pset: "(\<And>s. session_ok s \<Longrightarrow> session_ok (f s) \<and> ses_read_buf (f s) = ses_read_buf s) \<Longrightarrow> safe (pset f)"
  by (simp add: safe_def pset_def)

lemma safe_pbnd [safety]:
  assumes "safe m" and "\<And>a. safe (f a)"
  shows "safe (pbnd m f)"
  unfolding safe_def
proof (intro allI impI)
  fix s :: "('a, 'b) session"
  assume "session_ok s"
  from safeE [OF assms(1) this] obtain r s1
    where s1: "m s = Some (r, s1)" "session_ok s1" "ses_read_buf s1 = ses_read_buf s" .
  show "\<exists>r s'. pbnd m f s = Some (r, s') \<and> session_ok s' \<and> ses_read_buf s' = ses_read_buf s"
  proof (cases r)
    case (Inr a)
    from safeE [OF assms(2) s1(2), of a] obtain q s2
      where "f a s1 = Some (q, s2)" "session_ok s2" "ses_read_buf s2 = ses_read_buf s1" .
    with s1 Inr show ?thesis by (simp add: pbnd_def)
  qed (use s1 in \<open>simp add: pbnd_def\<close>)
qed

lemma safe_swrite:
  assumes "\<And>cw v. 0 < chunk_size cw \<Longrightarrow> \<exists>r v'. m cw v = Some (r, v')"
  shows "safe (swrite m)"
  unfolding safe_def
proof (intro allI impI)
  fix s :: "('a, 'b) session"
  assume s: "session_ok s"
  then obtain r v' where "m (ses_chunk_writer s) (ses_write_buf s) = Some (r, v')"
    using assms [of "ses_chunk_writer s" "ses_write_buf s"] by (auto simp: session_ok_def)
  with s show "\<exists>r s'. swrite m s = Some (r, s') \<and> session_ok s' \<and> ses_read_buf s' = ses_read_buf s"
    by (simp add: swrite_def session_ok_def)
qed

lemma safe_scall [safety]: "safe (scall m)"
  by (auto simp: safe_def scall_def session_ok_def split: prod.splits sum.splits)

lemma safe_writes [safety]:
  assumes "lawful_env env"
  shows "safe (swrite (command_write env c))" and "safe (swrite (set_chunk_size_write env n))"
    and "safe (swrite (acknowledgement_write env n))" and "safe (swrite (window_size_write env n))"
    and "safe (swrite (peer_bandwidth_write env n t))" and "safe (swrite (stream_begin_write env n))"
  using message_writers_return [OF assms] by (simp_all add: safe_swrite)

text \<open>The publishing list changes in two places, with the application name known.\<close>

lemma safe_publish:
  assumes "lawful_env env"
  shows "safe (on_command_publish env hdl stream tid name)"
  unfolding safe_def
proof (intro allI impI)
  fix s :: "('a, 'b) session"
  assume s: "session_ok s"
  show "\<exists>r s'. on_command_publish env hdl stream tid name s = Some (r, s') \<and> session_ok s' \<and> ses_read_buf s' = ses_read_buf s"
  proof (cases "ses_app_name s")
    case None
    with s show ?thesis by (simp add: on_command_publish_def pbnd_def pget_def pfail_def)
  next
    case (Some app)
    obtain r h where call: "on_publish hdl stream app name (ses_handler s) = (r, h)" by force
    let ?s = "s\<lparr>ses_handler := h, ses_publishing := ses_publishing s @ [stream]\<rparr>"
    let ?m = "pbnd (swrite (stream_begin_write env stream)) (\<lambda>_. swrite (command_write env (status_command NET_STREAM_PUBLISH_START tid))) :: ('a, 'b, unit) sact"
    have "safe ?m" by (intro safety assms)
    moreover have "session_ok ?s" using s Some by (simp add: session_ok_def)
    ultimately obtain q s' where run: "?m ?s = Some (q, s')" "session_ok s'" "ses_read_buf s' = ses_read_buf s"
      by (auto elim: safeE)
    have "on_command_publish env hdl stream tid name s =
        (case r of Inl e \<Rightarrow> Some (Inl (SeSession e), s\<lparr>ses_handler := h\<rparr>) | Inr _ \<Rightarrow> ?m ?s)"
      using Some call
      by (simp add: on_command_publish_def pbnd_def [of "pget ses_app_name"] pbnd_def [of "scall _"] pbnd_def [of "pset _"]
          pget_def pset_def scall_def split: sum.splits)
    with run s show ?thesis by (auto simp: session_ok_def split: sum.splits)
  qed
qed

lemma safe_delete_stream:
  assumes "lawful_env env"
  shows "safe (on_command_delete_stream env hdl tid del)"
  unfolding on_command_delete_stream_def Let_def
  by (intro safety assms safe_pset) (auto simp: session_ok_def)

lemma safe_connect:
  assumes "lawful_env env"
  shows "safe (on_command_connect env tid c)"
  unfolding on_command_connect_def
  by (intro safety assms safe_pset) (auto simp: session_ok_def)

lemma safe_set_chunk_size: "safe (on_set_chunk_size n)"
  by (auto simp: safe_def on_set_chunk_size_def update_max_chunk_size_def session_ok_def chunk_reader_ok_def
      split: prod.splits bool.splits if_splits)

lemma safe_process_message:
  assumes "lawful_env env"
  shows "safe (process_message env hdl msg stream ts)"
proof -
  have command: "safe (on_command_message env hdl stream c)" for c
    unfolding on_command_message_def on_command_create_stream_def
    by (auto split: command_type.splits net_connection_command.splits net_stream_command.splits
        intro!: safety assms safe_connect safe_delete_stream safe_publish)
  have "safe (on_acknowledgement_window_size n)" for n
    unfolding on_acknowledgement_window_size_def by (rule safe_pset) (simp add: session_ok_def)
  with command show ?thesis
    unfolding process_message_def by (auto split: message_data.splits intro!: safety safe_set_chunk_size)
qed

lemma safe_process_chunk: "lawful_env env \<Longrightarrow> safe (process_chunk env hdl c)"
  using safe_process_message [of env hdl] unfolding safe_def process_chunk_def by (fastforce split: sum.splits)

subsection \<open>The session returns\<close>

lemma read_chunk_step_consumes:
  assumes bo: "byteorder_reads cursor_read bo" and step: "read_chunk_step ct bo r buf = (res, r', buf')"
    and res: "res = None \<or> (\<exists>c. res = Some (Inr (Some c)))"
  shows "length buf' < length buf"
proof -
  have fw: "forward 1 (read_chunk_headers ct bo r)"
    unfolding read_chunk_headers_def
    by (intro forward_bnd forward_map_err forward_read_header forward_read_message_header
        forward_get_payload_range forward_split forward_ret bo)
  from step res obtain x c where x: "read_chunk_headers ct bo r (cursor_new buf) = (Inr x, c)"
    and c: "cur_pos c \<le> length buf" "buf' = drop (cur_pos c) buf"
    by (auto simp: read_chunk_step_def split: prod.splits sum.splits option.splits if_splits)
  have "1 \<le> cur_pos c"
    using fw [unfolded forward_def, rule_format, OF x] by (simp add: cursor_new_def)
  with c show ?thesis by simp
qed

lemma read_chunk_consumes:
  assumes bo: "byteorder_reads cursor_read bo"
  shows "read_chunk ct bo r buf = Some (Inr (Some c), r', buf') \<Longrightarrow> length buf' < length buf"
proof (induction r buf "Inr (Some c) :: rtmp_error + chunk option" r' buf' rule: read_chunk_induct)
  case (return r buf r' buf')
  then show ?case using read_chunk_step_consumes [OF bo return] by simp
next
  case (loop r buf r1 buf1 r' buf')
  then show ?case using read_chunk_step_consumes [OF bo loop(1)] by simp
qed

lemma process_chunks_returns:
  assumes env: "lawful_env env"
  shows "session_ok s \<Longrightarrow> \<exists>r s'. process_chunks env hdl s = Some (r, s') \<and> session_ok s'"
proof (induction "length (ses_read_buf s)" arbitrary: s rule: less_induct)
  case less
  have bo: "byteorder_reads cursor_read (re_bo env)" using env by (simp add: lawful_env_def)
  obtain r cr buf where rd: "read_chunk (re_chunk_type env) (re_bo env) (ses_chunk_reader s) (ses_read_buf s) = Some (r, cr, buf)"
    using read_chunk_total' [OF bo] by blast
  let ?s = "s\<lparr>ses_chunk_reader := cr, ses_read_buf := buf\<rparr>"
  have ok: "session_ok ?s" using less.prems read_chunk_ok [OF rd] by (simp add: session_ok_def)
  show ?case
  proof (cases "\<exists>c. r = Inr (Some c)")
    case True
    then obtain c where r: "r = Inr (Some c)" by blast
    from safeE [OF safe_process_chunk [OF env] ok, of hdl c] obtain q s1
      where s1: "process_chunk env hdl c ?s = Some (q, s1)" "session_ok s1" "ses_read_buf s1 = buf" by auto
    have "length (ses_read_buf s1) < length (ses_read_buf s)"
      using read_chunk_consumes [OF bo rd [unfolded r]] s1(3) by simp
    with less.hyps s1(2) have "\<exists>r s'. process_chunks env hdl s1 = Some (r, s') \<and> session_ok s'" by blast
    with rd r s1 show ?thesis
      by (cases q) (simp_all add: process_chunks.simps [of env hdl s] Let_def)
  next
    case False
    with rd ok show ?thesis
      by (auto simp: process_chunks.simps [of env hdl s] Let_def split: sum.splits option.splits)
  qed
qed

text \<open>\<open>ends m\<close>: from a good session, \<open>m\<close> returns and leaves a good session.\<close>

definition ends :: "('t, 'h, 'a) sact \<Rightarrow> bool" where
  "ends m \<longleftrightarrow> (\<forall>s. session_ok s \<longrightarrow> (\<exists>r s'. m s = Some (r, s') \<and> session_ok s'))"

named_theorems ending

lemma ends_safe: "safe m \<Longrightarrow> ends m"
  by (fastforce simp: safe_def ends_def)

lemma ends_pbnd [ending]:
  assumes "ends m" and "\<And>a. ends (f a)"
  shows "ends (pbnd m f)"
  unfolding ends_def
proof (intro allI impI)
  fix s :: "('a, 'b) session"
  assume "session_ok s"
  with assms(1) obtain r s1 where s1: "m s = Some (r, s1)" "session_ok s1" by (auto simp: ends_def)
  show "\<exists>r s'. pbnd m f s = Some (r, s') \<and> session_ok s'"
    using s1 assms(2) by (cases r) (auto simp: pbnd_def ends_def)
qed

lemma ends_process_chunks [ending]: "lawful_env env \<Longrightarrow> ends (process_chunks env hdl)"
  using process_chunks_returns by (auto simp: ends_def)

lemma ends_pret [ending]: "ends (pret a)" and ends_if [ending]: "ends m \<Longrightarrow> ends n \<Longrightarrow> ends (if b then m else n)"
  by (simp_all add: ends_safe safety)

lemma session_ok_update [simp]:
  "session_ok (s\<lparr>ses_io := io\<rparr>) = session_ok s" "session_ok (s\<lparr>ses_read_buf := bs\<rparr>) = session_ok s"
  "session_ok (s\<lparr>ses_write_buf := out\<rparr>) = session_ok s" "session_ok (s\<lparr>ses_sequence_number := n\<rparr>) = session_ok s"
  "session_ok (s\<lparr>ses_skip_read := b\<rparr>) = session_ok s" "session_ok (s\<lparr>ses_reconnect_request_sent := b\<rparr>) = session_ok s"
  "session_ok (s\<lparr>ses_has_ctx := b\<rparr>) = session_ok s"
  by (simp_all add: session_ok_def)

lemma ends_account_read:
  assumes "lawful_env env"
  shows "ends (account_read env n)"
proof -
  have "ends (pbnd (if due then swrite (acknowledgement_write env q) else pret ()) (\<lambda>_.
      pset (\<lambda>s. s\<lparr>ses_sequence_number := ses_sequence_number s + n\<rparr>)) :: ('a, 'b, unit) sact)" for due q
    by (auto intro!: ending ends_safe safety safe_pset assms)
  then show ?thesis unfolding ends_def account_read_def by (fastforce split: sum.splits)
qed

lemma ends_drive_read [ending]:
  assumes "lawful_env env"
  shows "ends (drive_read env tr)"
  unfolding ends_def
proof (intro allI impI)
  fix s :: "('a, 'b) session"
  assume s: "session_ok s"
  show "\<exists>r s'. drive_read env tr s = Some (r, s') \<and> session_ok s'"
  proof (cases "ses_skip_read s")
    case False
    obtain t io where tr: "tr_read tr (ses_io s) = (t, io)" by force
    have "ends (pbnd (account_read env n) (\<lambda>_. pret True) :: ('a, 'b, bool) sact)" for n
      by (intro ending ends_account_read assms)
    then have "\<exists>r s'. pbnd (account_read env n) (\<lambda>_. pret True) (s\<lparr>ses_io := io, ses_read_buf := buf\<rparr>) = Some (r, s') \<and> session_ok s'" for n buf
      using s by (simp add: ends_def)
    with False tr s show ?thesis
      by (auto simp: drive_read_def Let_def split: timed.splits sum.splits)
  qed (use s in \<open>simp add: drive_read_def\<close>)
qed

lemma ends_reconnect_request [ending]: "ends (reconnect_request env tr)"
  by (auto simp: ends_def reconnect_request_def split: prod.splits sum.splits)

lemma ends_drive: "lawful_env env \<Longrightarrow> ends (drive env hdl tr)"
  unfolding drive_def by (intro ending)

lemma ends_flush: "ends (flush tr)"
  by (auto simp: ends_def flush_def split: prod.splits timed.splits sum.splits)

lemma session_new_ok: "session_ok (session_new io h)"
  by (simp add: session_ok_def session_new_def chunk_reader_default_ok chunk_writer_default_def INIT_CHUNK_SIZE_def)

lemma ends_send_set_chunk_size: "lawful_env env \<Longrightarrow> ends (send_set_chunk_size env)"
  unfolding send_set_chunk_size_def
  by (intro ending ends_safe safety safe_pset) (simp_all add: session_ok_def set_chunk_size_def CHUNK_SIZE_def)

lemma handshake_step_ends:
  assumes "lawful_env env" and s: "session_ok s"
  shows "\<exists>r server' s'. handshake_step env hs server s = Some (r, server', s') \<and> session_ok s'"
proof -
  obtain r server' c out where h: "handshake hs (re_bo env) (re_bw env) server (cursor_new (ses_read_buf s)) (ses_write_buf s) = (r, server', c, out)"
    by (metis prod.exhaust)
  let ?s = "s\<lparr>ses_read_buf := [], ses_write_buf := out\<rparr>"
  let ?t = "if cursor_rest c \<noteq> [] then ?s\<lparr>ses_skip_read := True, ses_read_buf := cursor_rest c\<rparr> else ?s"
  have "session_ok ?t" using s by simp
  then obtain q s' where q: "send_set_chunk_size env ?t = Some (q, s')" "session_ok s'"
    using ends_send_set_chunk_size [OF assms(1)] unfolding ends_def by blast
  have "handshake_step env hs server s =
      (case r of Inl e \<Rightarrow> Some (Inl (session_of_handshake e), server', ?s)
       | Inr _ \<Rightarrow> if handshake_finished server' then
           (case q of Inl e \<Rightarrow> Some (Inl e, server', s') | Inr _ \<Rightarrow> Some (Inr True, server', s'))
         else Some (Inr False, server', ?s))"
    using q(1) unfolding handshake_step_def Let_def h prod.case extract_remaining_run sum.case
    by (cases r; cases q; cases "cursor_rest c = []") simp_all
  with s q(2) show ?thesis by (auto split: sum.splits)
qed

lemma handshake_read_keeps:
  assumes "handshake_read tr n s = Some (r, s')" and "P s"
    and io: "\<And>s io. P s \<Longrightarrow> P (s\<lparr>ses_io := io\<rparr>)"
    and read: "\<And>s io buf q. P s \<Longrightarrow> P (s\<lparr>ses_io := io, ses_read_buf := buf, ses_sequence_number := q\<rparr>)"
  shows "P s'"
proof -
  have "case y of (r, s') \<Rightarrow> P s \<longrightarrow> P s'" if "handshake_read tr n s = Some y" for tr n s y
    using that
  proof (rule handshake_read.raw_induct [rotated], goal_cases)
    case (1 f tr n s y)
    from 1(2) show ?case
      using io read
      by (auto simp: case_prod_unfold split: if_splits prod.splits timed.splits sum.splits dest!: 1(1))
  qed
  from this [OF assms(1)] assms(2) show ?thesis by simp
qed

text \<open>
  The states a session goes through: between its awaits it has been created, has driven the
  handshake or a round of messages, or has flushed its output.
\<close>

inductive session_reach :: "rtmp_env \<Rightarrow> hs_env \<Rightarrow> 'h session_handler \<Rightarrow> 't transport \<Rightarrow> ('t, 'h) session \<Rightarrow> bool"
  for env hs hdl tr where
  new: "session_reach env hs hdl tr (session_new io h)"
| context_set: "session_reach env hs hdl tr s \<Longrightarrow> session_reach env hs hdl tr (with_context s)"
| driven_handshake: "session_reach env hs hdl tr s \<Longrightarrow>
    drive_handshake env hs tr server s = Some (r, server', s') \<Longrightarrow> session_reach env hs hdl tr s'"
| driven: "session_reach env hs hdl tr s \<Longrightarrow> drive env hdl tr s = Some (q, s') \<Longrightarrow> session_reach env hs hdl tr s'"
| flushed: "session_reach env hs hdl tr s \<Longrightarrow> flush tr s = Some (u, s') \<Longrightarrow> session_reach env hs hdl tr s'"

lemma endsD: "ends m \<Longrightarrow> session_ok s \<Longrightarrow> m s = Some (r, s') \<Longrightarrow> session_ok s'"
  by (auto simp: ends_def)

lemma session_reach_ok:
  assumes env: "lawful_env env"
  shows "session_reach env hs hdl tr s \<Longrightarrow> session_ok s"
proof (induction rule: session_reach.induct)
  case (driven_handshake s server r server' s')
  obtain q s1 where s1: "handshake_read tr 0 s = Some (q, s1)"
    using driven_handshake(2) by (cases "handshake_read tr 0 s") (auto simp: drive_handshake_def)
  have "session_ok s1" using s1 driven_handshake.IH by (rule handshake_read_keeps) simp_all
  with handshake_step_ends [OF env this, of hs server] driven_handshake(2) s1 show ?case
    by (auto simp: drive_handshake_def split: option.splits sum.splits)
qed (auto simp: session_new_ok with_context_def dest: endsD [OF ends_drive [OF env]] endsD [OF ends_flush])

section \<open>Properties\<close>

text \<open>
  C21. In every state a session can be in: only a client that has connected publishes, the
  tables of the chunk reader are within their bounds (100 headers, four partial messages of
  at most 10 MiB), and the chunk size it writes with is not zero.
\<close>

theorem session_invariant:
  assumes "lawful_env env" and "session_reach env hs hdl tr s"
  shows "(ses_publishing s \<noteq> [] \<longrightarrow> ses_app_name s \<noteq> None) \<and>
    length (previous_chunk_headers (ses_chunk_reader s)) \<le> 100 \<and>
    length (partial_chunks (ses_chunk_reader s)) \<le> 4 \<and>
    (\<forall>(key, bs) \<in> set (partial_chunks (ses_chunk_reader s)). length bs \<le> 10 * 1024 * 1024) \<and>
    0 < chunk_size (ses_chunk_writer s)"
  using session_reach_ok [OF assms]
  by (auto simp: session_ok_def chunk_reader_ok_def hm.bounded_def MAX_PREVIOUS_CHUNK_HEADERS_def
      MAX_PARTIAL_CHUNK_COUNT_def MAX_PARTIAL_CHUNK_SIZE_def)

text \<open>
  C22. A round of the session, from any state it can be in, returns: the loop over the chunks
  of the read buffer, the answers to its messages and the request to reconnect end, whatever
  the peer has sent.
\<close>

theorem drive_returns:
  assumes "lawful_env env" and "session_reach env hs hdl tr s"
  shows "\<exists>r s'. drive env hdl tr s = Some (r, s')"
  using ends_drive [OF assms(1)] session_reach_ok [OF assms] by (fastforce simp: ends_def)

subsection \<open>The abstract session\<close>

type_synonym publisher = "utf8 option \<times> u32 set"

definition publisher_of :: "('t, 'h) session \<Rightarrow> publisher" where
  "publisher_of s = (ses_app_name s, set (ses_publishing s))"

text \<open>What a message on a stream does to the connected application and the published streams.\<close>

definition publisher_step :: "message_data \<Rightarrow> u32 \<Rightarrow> publisher \<Rightarrow> server_session_error + publisher" where
  "publisher_step msg stream p =
     (case msg of
        Amf0Command c \<Rightarrow>
          (case command_kind c of
             NetConnection (Connect connect) \<Rightarrow> Inr (Some (nc_app connect), snd p)
           | NetStream (Publish name t) \<Rightarrow>
               if fst p = None then Inl PublishBeforeConnect else Inr (fst p, insert stream (snd p))
           | NetStream (DeleteStream n) \<Rightarrow> Inr (fst p, snd p - {of_int (f64_to_int 0 (2 ^ 32 - 1) n)})
           | NetStream (Play vs) \<Rightarrow> Inl PlayNotSupported
           | NetStream (Play2 ps) \<Rightarrow> Inl PlayNotSupported
           | _ \<Rightarrow> Inr p)
      | SetChunkSizeMessage n \<Rightarrow> if 128 \<le> n \<and> n \<le> 65536 then Inr p else Inl (InvalidChunkSize (unat n))
      | _ \<Rightarrow> Inr p)"

text \<open>Operations that touch neither.\<close>

definition frame :: "('t, 'h, 'a) sact \<Rightarrow> bool" where
  "frame m \<longleftrightarrow> (\<forall>s r s'. m s = Some (r, s') \<longrightarrow> publisher_of s' = publisher_of s)"

lemma frame_pbnd: "frame m \<Longrightarrow> (\<And>a. frame (f a)) \<Longrightarrow> frame (pbnd m f)"
  unfolding frame_def pbnd_def by (fastforce split: option.splits prod.splits sum.splits)

lemma frame_swrite: "frame (swrite m)" and frame_scall: "frame (scall c)" and frame_pret: "frame (pret a)"
  by (auto simp: frame_def swrite_def scall_def pret_def publisher_of_def split: option.splits prod.splits sum.splits)

lemma frame_create_stream: "frame (on_command_create_stream env tid)"
  unfolding on_command_create_stream_def by (rule frame_swrite)

lemmas frame_rules = frame_create_stream frame_pbnd frame_swrite frame_scall frame_pret

lemma frameD: "frame m \<Longrightarrow> m s = Some (r, s') \<Longrightarrow> publisher_of s' = publisher_of s"
  by (auto simp: frame_def)

lemma pbnd_Inr:
  assumes "pbnd m f s = Some (Inr b, s')"
  obtains a t where "m s = Some (Inr a, t)" and "f a t = Some (Inr b, s')"
  using assms by (auto simp: pbnd_def split: option.splits prod.splits sum.splits)

lemma pset_Some: "pset f s = Some (r, s') \<longleftrightarrow> r = Inr () \<and> s' = f s"
  by (auto simp: pset_def)

lemma publisher_of_connect:
  assumes "on_command_connect env tid c s = Some (Inr u, s')"
  shows "publisher_of s' = (Some (nc_app c), snd (publisher_of s))"
  using assms unfolding on_command_connect_def
  by (auto elim!: pbnd_Inr simp: pset_Some publisher_of_def dest!: frameD [OF frame_swrite])

lemma publisher_of_delete:
  assumes "on_command_delete_stream env hdl tid n s = Some (Inr u, s')"
  shows "publisher_of s' = (fst (publisher_of s), snd (publisher_of s) - {of_int (f64_to_int 0 (2 ^ 32 - 1) n)})"
  using assms unfolding on_command_delete_stream_def Let_def
  by (auto elim!: pbnd_Inr simp: pset_Some publisher_of_def dest!: frameD [OF frame_swrite] frameD [OF frame_scall])

lemma publisher_of_publish:
  assumes "on_command_publish env hdl stream tid name s = Some (Inr u, s')"
  shows "publisher_of s' = (fst (publisher_of s), insert stream (snd (publisher_of s)))"
  using assms unfolding on_command_publish_def
  by (auto elim!: pbnd_Inr simp: pset_Some pget_def pfail_def publisher_of_def split: option.splits
      dest!: frameD [OF frame_swrite] frameD [OF frame_scall])

lemma publish_unconnected:
  "fst (publisher_of s) = None \<Longrightarrow>
     on_command_publish env hdl stream tid name s = Some (Inl (SeSession PublishBeforeConnect), s)"
  by (simp add: on_command_publish_def pbnd_def pget_def pfail_def publisher_of_def)

text \<open>
  C19. A message does to a session what it does to the abstract publisher: \<open>connect\<close> sets the
  application, \<open>publish\<close> and \<open>deleteStream\<close> add and remove a stream, all other messages leave
  both alone. Publishing before connecting, playing, and a chunk size out of range are
  refused with the error of the specification, without any effect: the handler is not
  called and nothing is written.
\<close>

theorem process_message_refines:
  "case publisher_step msg stream (publisher_of s) of
     Inl e \<Rightarrow> process_message env hdl msg stream ts s = Some (Inl (SeSession e), s)
   | Inr p \<Rightarrow> (\<forall>s'. process_message env hdl msg stream ts s = Some (Inr (), s') \<longrightarrow> publisher_of s' = p)"
proof (cases msg)
  case (SetChunkSizeMessage n)
  then show ?thesis
    by (auto simp: publisher_step_def process_message_def on_set_chunk_size_def update_max_chunk_size_def INIT_CHUNK_SIZE_def
        MAX_CHUNK_SIZE_def word_le_nat_alt publisher_of_def)
next
  case (Amf0Command c)
  show ?thesis
  proof (cases "command_kind c")
    case (NetConnection nc)
    with Amf0Command show ?thesis
      by (cases nc) (auto simp: publisher_step_def process_message_def on_command_message_def pret_def
          dest: publisher_of_connect frameD [OF frame_create_stream])
  next
    case (NetStream ns)
    with Amf0Command show ?thesis
      by (cases ns) (auto simp: publisher_step_def process_message_def on_command_message_def pret_def pfail_def
          publish_unconnected dest: publisher_of_delete publisher_of_publish)
  qed (use Amf0Command in \<open>auto simp: publisher_step_def process_message_def on_command_message_def pret_def
      dest: frameD [OF frame_scall]\<close>)
qed (auto simp: publisher_step_def process_message_def on_acknowledgement_window_size_def pset_Some pret_def publisher_of_def
    scall_def split: prod.splits sum.splits)

subsection \<open>The handshake loop\<close>

lemma usize_to_u32_0 [simp]: "usize_to_u32 0 = 0"
  by (simp add: usize_to_u32_def)

text \<open>
  C23. The read loop of the handshake is live: when every read brings at least one byte, fails
  or times out, it ends, however the bytes are split into reads.
\<close>

theorem handshake_read_live:
  assumes "\<And>io bs io'. tr_read tr io = (Ready (Inr bs), io') \<Longrightarrow> bs \<noteq> []"
  shows "\<exists>r s'. handshake_read tr n s = Some (r, s')"
proof (induction "HANDSHAKE_READ_SIZE - n" arbitrary: n s rule: less_induct)
  case less
  show ?case
  proof (cases "n < HANDSHAKE_READ_SIZE \<and> \<not> tr_cancelled tr (ses_io s)")
    case True
    obtain t io where rd: "tr_read tr (ses_io s) = (t, io)" by force
    show ?thesis
    proof (cases "\<exists>bs. t = Ready (Inr bs)")
      case loop: True
      then obtain bs where t: "t = Ready (Inr bs)" by blast
      with rd assms have "bs \<noteq> []" by blast
      with True have "HANDSHAKE_READ_SIZE - (n + length bs) < HANDSHAKE_READ_SIZE - n" by (cases bs) auto
      from less [OF this, of "s\<lparr>ses_io := io, ses_read_buf := ses_read_buf s @ bs,
          ses_sequence_number := ses_sequence_number s + usize_to_u32 (length bs)\<rparr>"]
      show ?thesis using True rd t by (simp add: handshake_read.simps [of tr n s])
    next
      case False
      with True rd show ?thesis
        by (auto simp: handshake_read.simps [of tr n s] split: timed.splits sum.splits)
    qed
  next
    case False
    then show ?thesis by (auto simp: handshake_read.simps [of tr n s])
  qed
qed

text \<open>
  At the end of the input a read brings no bytes, and the loop, which does not look for that,
  goes on for ever.
\<close>

lemma handshake_read_eof:
  assumes eof: "tr_read tr io = (Ready (Inr []), io)" and "\<not> tr_cancelled tr io"
    and "n < HANDSHAKE_READ_SIZE" and "ses_io s = io"
  shows "handshake_read tr n s = None"
proof (rule ccontr)
  assume "handshake_read tr n s \<noteq> None"
  then obtain y where "handshake_read tr n s = Some y" by blast
  moreover have "t = tr \<longrightarrow> n < HANDSHAKE_READ_SIZE \<longrightarrow> ses_io s = io \<longrightarrow> False" if "handshake_read t n s = Some y" for t n s y
    using that
  proof (rule handshake_read.raw_induct [rotated], goal_cases)
    case (1 f t n s y)
    show ?case
    proof (intro impI)
      assume h: "t = tr" "n < HANDSHAKE_READ_SIZE" "ses_io s = io"
      with 1(2) eof assms(2) have "f t n (s\<lparr>ses_io := io, ses_read_buf := ses_read_buf s,
          ses_sequence_number := ses_sequence_number s\<rparr>) = Some y" by simp
      from 1(1) [OF this] h show False by simp
    qed
  qed
  ultimately show False using assms(3,4) by blast
qed

subsection \<open>Acknowledgements\<close>

lemma ack_due_spec:
  assumes "window \<noteq> 0" and "unat (seq mod window) + unat n < 2 ^ 32"
  shows "ack_due seq window n = Inr (unat seq div unat window < (unat seq + unat n) div unat window)"
proof -
  have w: "0 < unat window" using assms(1) by (simp add: unat_gt_0)
  let ?m = "unat (seq mod window)"
  have m: "?m = unat seq mod unat window" by (rule unat_mod)
  have "unat seq + unat n = (unat seq div unat window) * unat window + (?m + unat n)"
    unfolding m by simp
  then have "(unat seq + unat n) div unat window = unat seq div unat window + (?m + unat n) div unat window"
    using w by (metis div_mult_self3 less_numeral_extra(3))
  moreover have "0 < (?m + unat n) div unat window \<longleftrightarrow> unat window \<le> ?m + unat n"
    using w by (simp add: div_greater_zero_iff)
  moreover have "checked_add (seq mod window) n = Inr (seq mod window + n)" "unat (seq mod window + n) = ?m + unat n"
    using assms(2) by (simp_all add: checked_add_def unat_add_lem [THEN iffD1])
  ultimately show ?thesis
    using assms(1) by (auto simp: ack_due_def word_le_nat_alt)
qed

text \<open>
  C25. What \<open>drive\<close> does with the \<open>n\<close> bytes of a read, for every window and every count. Both
  come from the peer and nothing bounds them: a window of 0 panics, and so does a window so
  large that the bytes since its last multiple, together with \<open>n\<close>, do not fit 32 bits. In
  every other case the session writes one acknowledgement, with its chunk writer, exactly
  when the count of bytes crosses a multiple of the window, and then adds \<open>n\<close> to the count
  (modulo \<open>2 ^ 32\<close>). The acknowledgement carries the count from before the read, \<open>n\<close> bytes
  fewer than have been received; the comment on the message says it is the number received
  so far, so this is a bug of the code, and the theorem pins it. The chunk size of the writer
  is positive in every reachable session (\<open>session_ok\<close>).
\<close>

theorem account_read_spec:
  assumes "lawful_env env" and "0 < chunk_size (ses_chunk_writer s)"
  shows "let window = unat (ses_window_size s); count = unat (ses_sequence_number s) in
    if window = 0 \<or> 2 ^ 32 \<le> count mod window + unat n
    then \<exists>m. account_read env n s = Some (Inl (SePanic m), s)
    else account_read env n s = Some (Inr (), s\<lparr>
      ses_write_buf := ses_write_buf s @
        (if count div window < (count + unat n) div window
         then chunk_bytes (chunk_size (ses_chunk_writer s)) (control_chunk AcknowledgementType (be_bytes 4 (ses_sequence_number s)))
         else []),
      ses_sequence_number := ses_sequence_number s + n\<rparr>)"
proof -
  have bw: "byteorder_writes vec_write (re_bw env)" using assms(1) by (simp add: lawful_env_def)
  have ack: "acknowledgement_write env q (ses_chunk_writer s) v =
      Some (Inr (), v @ chunk_bytes (chunk_size (ses_chunk_writer s)) (control_chunk AcknowledgementType (be_bytes 4 q)))" for q v
    using vec.write_chunk_ok [OF bw assms(2), of "control_chunk AcknowledgementType (be_bytes 4 q)" v]
    by (simp add: acknowledgement_write_def write_message_def control_chunk_def chunk_new_def)
  consider (zero) "ses_window_size s = 0"
    | (overflow) "ses_window_size s \<noteq> 0" "2 ^ 32 \<le> unat (ses_sequence_number s mod ses_window_size s) + unat n"
    | (due) "ses_window_size s \<noteq> 0" "unat (ses_sequence_number s mod ses_window_size s) + unat n < 2 ^ 32"
    by linarith
  then show ?thesis
  proof cases
    case zero
    then show ?thesis by (simp add: account_read_def ack_due_def)
  next
    case overflow
    then show ?thesis by (simp add: account_read_def ack_due_def checked_add_def unat_mod Let_def)
  next
    case due
    then show ?thesis
      using ack_due_spec [OF due] ack
      by (simp add: account_read_def pbnd_def swrite_def pset_def pret_def unat_mod unat_gt_0 Let_def)
  qed
qed

text \<open>A window size of zero, which the peer can set, makes the next read panic.\<close>

lemma account_read_zero_window:
  "ses_window_size s = 0 \<Longrightarrow> \<exists>m. account_read env n s = Some (Inl (SePanic m), s)"
  by (simp add: account_read_def ack_due_def)

subsection \<open>The handshake of a session\<close>

lemma send_set_chunk_size_run:
  assumes "lawful_env env" and "0 < chunk_size (ses_chunk_writer s)"
  shows "send_set_chunk_size env s = Some (Inr (), s\<lparr>
    ses_write_buf := ses_write_buf s @ chunk_bytes (chunk_size (ses_chunk_writer s)) (control_chunk SetChunkSizeType (be_bytes 4 (4096 :: u32))),
    ses_chunk_writer := set_chunk_size 4096 (ses_chunk_writer s)\<rparr>)"
  using write_message_ok [OF assms, of "be_bytes 4 (4096 :: u32)"]
  by (simp add: send_set_chunk_size_def pbnd_def swrite_def pset_def set_chunk_size_write_def CHUNK_SIZE_def)

definition session_started :: "u8 list \<Rightarrow> ('t, 'h) session \<Rightarrow> ('t, 'h) session" where
  "session_started over s = s\<lparr>
     ses_read_buf := over, ses_skip_read := (over \<noteq> [] \<or> ses_skip_read s),
     ses_write_buf := ses_write_buf s @
       chunk_bytes (chunk_size (ses_chunk_writer s)) (control_chunk SetChunkSizeType (be_bytes 4 (4096 :: u32))),
     ses_chunk_writer := set_chunk_size 4096 (ses_chunk_writer s)\<rparr>"

lemma handshake_step_first:
  assumes env: "lawful_env env" and hmac: "\<forall>k m. length (hs_hmac hs k m) = 32"
    and c1: "length c1 = 1536" "ses_read_buf s = version # c1 @ extra"
  obtains server where "awaits_c2 server" and "handshake_step env hs handshake_server_default s = Some (Inr False, server,
      s\<lparr>ses_read_buf := [], ses_write_buf := ses_write_buf s @ handshake_response hs c1\<rparr>)"
proof -
  have laws: "byteorder_reads cursor_read (re_bo env)" "byteorder_writes vec_write (re_bw env)"
    using env by (simp_all add: lawful_env_def)
  have "cursor_rest (cursor_new (ses_read_buf s)) = version # c1 @ extra"
    using c1(2) by (simp add: cursor_new_def cursor_rest_def)
  from handshake_first [OF laws hmac c1(1) this, of "ses_write_buf s"] obtain server where
    first: "handshake hs (re_bo env) (re_bw env) handshake_server_default (cursor_new (ses_read_buf s)) (ses_write_buf s) =
      (Inr (), server, (cursor_new (ses_read_buf s))\<lparr>cur_pos := 1537\<rparr>, ses_write_buf s @ handshake_response hs c1)"
    and c2: "awaits_c2 server" by (auto simp: cursor_new_def)
  then have "\<not> handshake_finished server" by (intro handshake_second(1) [of _ "cursor_new []"]) (simp_all add: cursor_new_def)
  with first that c2 show ?thesis by (simp add: handshake_step_def Let_def)
qed

lemma handshake_step_second:
  assumes env: "lawful_env env" and "awaits_c2 server"
    and c2: "length c2 = 1536" "ses_read_buf s = c2 @ over" and size: "0 < chunk_size (ses_chunk_writer s)"
  shows "\<exists>server'. handshake_step env hs server s = Some (Inr True, server', session_started over s)"
proof -
  from handshake_second(2) [OF assms(2), of "cursor_new (ses_read_buf s)" hs "re_bo env" "re_bw env" "ses_write_buf s"]
  obtain server' where second: "handshake hs (re_bo env) (re_bw env) server (cursor_new (ses_read_buf s)) (ses_write_buf s) =
      (Inr (), server', (cursor_new (ses_read_buf s))\<lparr>cur_pos := 1536\<rparr>, ses_write_buf s)" "handshake_finished server'"
    by (auto simp: cursor_new_def)
  have rest: "cursor_rest ((cursor_new (ses_read_buf s))\<lparr>cur_pos := 1536\<rparr>) = over"
    using c2 by (simp add: cursor_rest_def cursor_new_def)
  show ?thesis
    using second size
    by (cases "over = []") (simp_all add: session_started_def handshake_step_def Let_def extract_remaining_run rest send_set_chunk_size_run [OF env])
qed

text \<open>
  C24. The two steps of a session's handshake. From C0 and C1 the session writes the answer of
  the handshake; whatever stands after C1 in the buffer is dropped. From C2 it goes on to
  messages: it announces its chunk size of 4096 and writes with it from then on, and
  the bytes after C2 stay in the buffer, to be parsed without another read.
\<close>

theorem session_handshake:
  assumes "lawful_env env" and "\<forall>k m. length (hs_hmac hs k m) = 32"
    and "length c1 = 1536" and "ses_read_buf s = version # c1 @ extra"
    and "length c2 = 1536" and "ses_read_buf t = c2 @ over" and "0 < chunk_size (ses_chunk_writer t)"
  shows "\<exists>server. handshake_step env hs handshake_server_default s = Some (Inr False, server,
      s\<lparr>ses_read_buf := [], ses_write_buf := ses_write_buf s @ handshake_response hs c1\<rparr>) \<and>
    (\<exists>server'. handshake_step env hs' server t = Some (Inr True, server', t\<lparr>
      ses_read_buf := over, ses_skip_read := (over \<noteq> [] \<or> ses_skip_read t),
      ses_write_buf := ses_write_buf t @
        chunk_bytes (chunk_size (ses_chunk_writer t)) (control_chunk SetChunkSizeType (be_bytes 4 (4096 :: u32))),
      ses_chunk_writer := set_chunk_size 4096 (ses_chunk_writer t)\<rparr>))"
proof -
  from handshake_step_first [OF assms(1-4)] obtain server where "awaits_c2 server"
    and "handshake_step env hs handshake_server_default s = Some (Inr False, server,
      s\<lparr>ses_read_buf := [], ses_write_buf := ses_write_buf s @ handshake_response hs c1\<rparr>)" .
  with handshake_step_second [OF assms(1) _ assms(5-7), of server hs'] show ?thesis
    unfolding session_started_def by blast
qed

subsection \<open>Malformed control messages\<close>

text \<open>The messages of a round up to some point: each one a chunk that was read and accepted.\<close>

inductive chunks_processed :: "rtmp_env \<Rightarrow> 'h session_handler \<Rightarrow> ('t, 'h) session \<Rightarrow> ('t, 'h) session \<Rightarrow> bool"
  for env hdl where
  none: "chunks_processed env hdl s s"
| next_one: "read_chunk (re_chunk_type env) (re_bo env) (ses_chunk_reader s) (ses_read_buf s) = Some (Inr (Some c), cr, buf) \<Longrightarrow>
    process_chunk env hdl c (s\<lparr>ses_chunk_reader := cr, ses_read_buf := buf\<rparr>) = Some (Inr (), s') \<Longrightarrow>
    chunks_processed env hdl s' t \<Longrightarrow> chunks_processed env hdl s t"

lemma process_chunks_after:
  "chunks_processed env hdl s t \<Longrightarrow> process_chunks env hdl s = process_chunks env hdl t"
proof (induction rule: chunks_processed.induct)
  case (next_one s c cr buf s' t)
  then show ?case by (simp add: process_chunks.simps [of env hdl s] Let_def)
qed simp

text \<open>Four bytes of a payload that has fewer.\<close>

lemma control_payload_short:
  assumes "lawful_env env" and "length bs < 4"
  obtains m where "set_chunk_size_read env bs = Inl (IoErr UnexpectedEof m)" and "window_size_read env bs = Inl (IoErr UnexpectedEof m)"
proof -
  have bo: "byteorder_reads cursor_read (re_bo env)" using assms(1) by (simp add: lawful_env_def)
  have "length (cursor_rest (cursor_new bs)) < 4" using assms(2) by (simp add: cursor_new_def cursor_rest_def)
  from cur.read_exact_eof [OF TrueI this] obtain c where "read_exact cursor_read 4 (cursor_new bs) = (Inl eof_error, c)" by blast
  then have "\<exists>m c. bo_u32 (re_bo env) (cursor_new bs) = (Inl (IoErr UnexpectedEof m), c)"
    using bo by (simp add: byteorder_reads_def be_read_def eof_error_def)
  with that show thesis by (auto simp: set_chunk_size_read_def window_size_read_def)
qed

text \<open>
  C26. A control message that is too short is taken for a disconnect. In any round of any
  session, after the request to reconnect, if there is one, after the read or without one,
  and after any messages of the round that were accepted: when the next chunk is a
  \<open>SetChunkSize\<close> or a \<open>WindowAcknowledgementSize\<close> with less than four bytes, then reading its
  payload fails with \<open>UnexpectedEof\<close>, which \<open>is_client_closed\<close> does not tell from the end of
  the connection. So the session ends there without an error, its result is whether anything
  is still published, the handler hears nothing more, and what was still to be written to
  the client is not.
\<close>

theorem short_control_message_disconnects:
  assumes "lawful_env env"
    and "reconnect_request env tr s = Some (Inr (), s0)" and "drive_read env tr s0 = Some (Inr True, s1)"
    and "chunks_processed env hdl s1 t"
    and "read_chunk (re_chunk_type env) (re_bo env) (ses_chunk_reader t) (ses_read_buf t) = Some (Inr (Some c), cr, buf)"
    and "msg_type_id (message_header c) \<in> {SetChunkSizeType, WindowAcknowledgementSizeType}" and "length (payload c) < 4"
  shows "run_session env hdl tr s =
    Some (Inr (ses_publishing t = []), t\<lparr>ses_chunk_reader := cr, ses_read_buf := buf\<rparr>)"
proof -
  let ?t = "t\<lparr>ses_chunk_reader := cr, ses_read_buf := buf\<rparr>"
  from control_payload_short [OF assms(1,7)] obtain m where
    "set_chunk_size_read env (payload c) = Inl (IoErr UnexpectedEof m)" "window_size_read env (payload c) = Inl (IoErr UnexpectedEof m)" .
  then have "message_read env c = Inl (SeIo (IoErr UnexpectedEof m))"
    using assms(6) by (auto simp: message_read_def message_types Let_def)
  then have "process_chunks env hdl t = Some (Inl (SeIo (IoErr UnexpectedEof m)), ?t)"
    using assms(5) by (simp add: process_chunks.simps process_chunk_def Let_def)
  then have "drive env hdl tr s = Some (Inl (SeIo (IoErr UnexpectedEof m)), ?t)"
    using assms(2,3) process_chunks_after [OF assms(4)] by (simp add: drive_def pbnd_def)
  then show ?thesis by (simp add: run_session.simps is_client_closed_def)
qed

subsection \<open>The result of a session\<close>

text \<open>What a handler has been told: the calls that it has accepted, in order.\<close>

datatype session_event = Published u32 utf8 utf8 | Unpublished u32

definition pass :: "('h, 'a) callback \<Rightarrow> ('h \<times> session_event list, 'a) callback" where
  "pass m h = (case m (fst h) of (r, h') \<Rightarrow> (r, (h', snd h)))"

definition note_event :: "session_event \<Rightarrow> ('h, 'a) callback \<Rightarrow> ('h \<times> session_event list, 'a) callback" where
  "note_event e m h = (case m (fst h) of (Inl x, h') \<Rightarrow> (Inl x, (h', snd h)) | (Inr a, h') \<Rightarrow> (Inr a, (h', snd h @ [e])))"

definition logged :: "'h session_handler \<Rightarrow> ('h \<times> session_event list) session_handler" where
  "logged hdl = \<lparr>
     on_publish = (\<lambda>stream app name. note_event (Published stream app name) (on_publish hdl stream app name)),
     on_unpublish = (\<lambda>stream. note_event (Unpublished stream) (on_unpublish hdl stream)),
     on_unknown_message = (\<lambda>stream ty bs. pass (on_unknown_message hdl stream ty bs)),
     on_unknown_command = (\<lambda>stream name vs. pass (on_unknown_command hdl stream name vs)),
     on_data = (\<lambda>stream d. pass (on_data hdl stream d))\<rparr>"

definition open_streams :: "session_event list \<Rightarrow> u32 set" where
  "open_streams es = foldl (\<lambda>S e. case e of Published s _ _ \<Rightarrow> insert s S | Unpublished s \<Rightarrow> S - {s}) {} es"

definition log_ok :: "('t, 'h \<times> session_event list) session \<Rightarrow> bool" where
  "log_ok s \<longleftrightarrow> set (ses_publishing s) = open_streams (snd (ses_handler s))"

definition keeps_log :: "('t, 'h \<times> session_event list, 'a) sact \<Rightarrow> bool" where
  "keeps_log m \<longleftrightarrow> (\<forall>s r s'. log_ok s \<longrightarrow> m s = Some (r, s') \<longrightarrow> log_ok s')"

named_theorems logging

lemma keeps_logI: "(\<And>s r s'. log_ok s \<Longrightarrow> m s = Some (r, s') \<Longrightarrow> log_ok s') \<Longrightarrow> keeps_log m"
  by (auto simp: keeps_log_def)

lemma keeps_logD: "keeps_log m \<Longrightarrow> m s = Some (r, s') \<Longrightarrow> log_ok s \<Longrightarrow> log_ok s'"
  by (auto simp: keeps_log_def)

lemma pbnd_Some:
  assumes "pbnd m f s = Some (r, s')"
  obtains e where "m s = Some (Inl e, s')" | a t where "m s = Some (Inr a, t)" and "f a t = Some (r, s')"
  using assms by (auto simp: pbnd_def split: option.splits prod.splits sum.splits)

lemma keeps_log_pbnd [logging]:
  assumes "keeps_log m" and "\<And>a. keeps_log (f a)"
  shows "keeps_log (pbnd m f)"
  by (rule keeps_logI) (auto elim!: pbnd_Some intro: keeps_logD [OF assms(1)] keeps_logD [OF assms(2)])

lemma keeps_log_basic [logging]:
  "keeps_log (pret a)" "keeps_log (pfail e)" "keeps_log (swrite w)" "keeps_log (scall (pass c))"
  "(\<And>s. ses_publishing (f s) = ses_publishing s \<and> ses_handler (f s) = ses_handler s) \<Longrightarrow> keeps_log (pset f)"
  by (auto simp: keeps_log_def log_ok_def pret_def pfail_def swrite_def scall_def pass_def pset_def
      split: option.splits prod.splits sum.splits)

lemma keeps_log_if [logging]: "keeps_log m \<Longrightarrow> keeps_log n \<Longrightarrow> keeps_log (if b then m else n)"
  by simp

lemma open_streams_snoc [simp]:
  "open_streams (es @ [Published s app name]) = insert s (open_streams es)"
  "open_streams (es @ [Unpublished s]) = open_streams es - {s}"
  by (simp_all add: open_streams_def)

lemma keeps_log_publish: "keeps_log (on_command_publish env (logged hdl) stream tid name)"
proof (rule keeps_logI)
  fix s :: "('a, 'b \<times> session_event list) session" and r s'
  assume s: "log_ok s" and run: "on_command_publish env (logged hdl) stream tid name s = Some (r, s')"
  let ?m = "pbnd (swrite (stream_begin_write env stream)) (\<lambda>_. swrite (command_write env (status_command NET_STREAM_PUBLISH_START tid))) :: ('a, 'b \<times> session_event list, unit) sact"
  have m: "keeps_log ?m" by (intro logging)
  show "log_ok s'"
  proof (cases "ses_app_name s")
    case None
    with run s show ?thesis by (simp add: on_command_publish_def pbnd_def pget_def pfail_def)
  next
    case (Some app)
    obtain q h where call: "on_publish hdl stream app name (fst (ses_handler s)) = (q, h)" by force
    with run Some have "(case q of Inl e \<Rightarrow> Some (Inl (SeSession e), s\<lparr>ses_handler := (h, snd (ses_handler s))\<rparr>)
        | Inr _ \<Rightarrow> ?m (s\<lparr>ses_handler := (h, snd (ses_handler s) @ [Published stream app name]),
            ses_publishing := ses_publishing s @ [stream]\<rparr>)) = Some (r, s')"
      by (cases q) (simp_all add: on_command_publish_def pbnd_def [of "pget ses_app_name"] pbnd_def [of "scall _"]
          pbnd_def [of "pset _"] pget_def pset_def scall_def logged_def note_event_def)
    then show ?thesis
      using s by (cases q) (auto simp: log_ok_def dest!: keeps_logD [OF m])
  qed
qed

lemma keeps_log_delete: "keeps_log (on_command_delete_stream env (logged hdl) tid n)"
proof (rule keeps_logI)
  fix s :: "('a, 'b \<times> session_event list) session" and r s'
  assume s: "log_ok s" and run: "on_command_delete_stream env (logged hdl) tid n s = Some (r, s')"
  let ?stream = "of_int (f64_to_int 0 (2 ^ 32 - 1) n) :: u32"
  obtain q h where call: "on_unpublish hdl ?stream (fst (ses_handler s)) = (q, h)" by force
  with run have "(case q of Inl e \<Rightarrow> Some (Inl (SeSession e), s\<lparr>ses_handler := (h, snd (ses_handler s))\<rparr>)
      | Inr _ \<Rightarrow> swrite (command_write env (status_command NET_STREAM_DELETE_STREAM_SUCCESS tid))
          (s\<lparr>ses_handler := (h, snd (ses_handler s) @ [Unpublished ?stream]),
            ses_publishing := filter (\<lambda>i. i \<noteq> ?stream) (ses_publishing s)\<rparr>)) = Some (r, s')"
    by (cases q) (simp_all add: on_command_delete_stream_def Let_def pbnd_def [of "scall _"]
        pbnd_def [of "pset _"] pset_def scall_def logged_def note_event_def)
  then show "log_ok s'"
    using s by (cases q) (auto simp: log_ok_def dest!: keeps_logD [OF keeps_log_basic(3)])
qed

lemma keeps_log_message: "keeps_log (process_message env (logged hdl) msg stream ts)"
proof -
  have passes: "on_unknown_message (logged hdl) st ty bs = pass (on_unknown_message hdl st ty bs)"
    "on_unknown_command (logged hdl) st nm vs = pass (on_unknown_command hdl st nm vs)"
    "on_data (logged hdl) st d = pass (on_data hdl st d)" for st ty bs nm vs d
    by (simp_all add: logged_def)
  have "keeps_log (on_command_message env (logged hdl) stream c)" for c
    unfolding on_command_message_def on_command_create_stream_def on_command_connect_def passes
    by (auto split: command_type.splits net_connection_command.splits net_stream_command.splits
        intro!: logging keeps_log_publish keeps_log_delete)
  moreover have "keeps_log (on_set_chunk_size n)" for n
    by (auto simp: keeps_log_def on_set_chunk_size_def log_ok_def split: prod.splits bool.splits)
  ultimately show ?thesis
    unfolding process_message_def on_acknowledgement_window_size_def passes
    by (auto split: message_data.splits intro!: logging)
qed

lemma keeps_log_chunks: "keeps_log (process_chunks env (logged hdl))"
proof (rule keeps_logI)
  fix s :: "('a, 'b \<times> session_event list) session" and r s'
  assume s: "log_ok s" and run: "process_chunks env (logged hdl) s = Some (r, s')"
  have "l = logged hdl \<longrightarrow> log_ok s \<longrightarrow> log_ok (snd y)" if "process_chunks e l s = Some y" for e l s y
    using that
  proof (rule process_chunks.raw_induct [rotated], goal_cases)
    case (1 f e l s y)
    show ?case
    proof (intro impI)
      assume l: "l = logged hdl" and s: "log_ok s"
      from 1(2) obtain q cr buf where rd: "read_chunk (re_chunk_type e) (re_bo e) (ses_chunk_reader s) (ses_read_buf s) = Some (q, cr, buf)"
        by (cases "read_chunk (re_chunk_type e) (re_bo e) (ses_chunk_reader s) (ses_read_buf s)") auto
      let ?s = "s\<lparr>ses_chunk_reader := cr, ses_read_buf := buf\<rparr>"
      have s1: "log_ok ?s" using s by (simp add: log_ok_def)
      have keep: "log_ok t" if "process_chunk e l c ?s = Some (u, t)" for c u t
        using that s1 l
        by (auto simp: process_chunk_def split: sum.splits dest: keeps_logD [OF keeps_log_message])
      show "log_ok (snd y)"
      proof (cases "\<exists>c. q = Inr (Some c)")
        case True
        then obtain c where q: "q = Inr (Some c)" by blast
        show ?thesis
        proof (cases "process_chunk e l c ?s")
          case None
          with 1(2) rd q show ?thesis by (simp add: Let_def)
        next
          case (Some p)
          obtain u t where p: "p = (u, t)" by force
          show ?thesis
          proof (cases u)
            case (Inl x)
            with 1(2) rd q Some p keep show ?thesis by (auto simp: Let_def)
          next
            case (Inr x)
            with 1(2) rd q Some p have "f e l t = Some y" by (simp add: Let_def)
            from 1(1) [OF this] l keep Some p show ?thesis by blast
          qed
        qed
      next
        case False
        with 1(2) rd s1 show ?thesis by (auto simp: Let_def split: sum.splits option.splits)
      qed
    qed
  qed
  from this [OF run] s show "log_ok s'" by simp
qed

lemma keeps_log_drive: "keeps_log (drive env (logged hdl) tr)"
proof -
  have "keeps_log (reconnect_request env tr :: ('a, 'b \<times> session_event list, unit) sact)"
    by (auto simp: keeps_log_def reconnect_request_def log_ok_def split: prod.splits sum.splits if_splits)
  moreover have account: "keeps_log (account_read env n :: ('a, 'b \<times> session_event list, unit) sact)" for n
  proof -
    have "keeps_log (pbnd (if due then swrite (acknowledgement_write env q) else pret ()) (\<lambda>_.
        pset (\<lambda>s. s\<lparr>ses_sequence_number := ses_sequence_number s + n\<rparr>)) :: ('a, 'b \<times> session_event list, unit) sact)" for due q
      by (intro logging) simp
    then show ?thesis by (auto simp: keeps_log_def account_read_def split: sum.splits)
  qed
  moreover have "keeps_log (drive_read env tr :: ('a, 'b \<times> session_event list, bool) sact)"
  proof -
    have "keeps_log (pbnd (account_read env n) (\<lambda>_. pret True) :: ('a, 'b \<times> session_event list, bool) sact)" for n
      by (intro logging account)
    note keep = keeps_logD [OF this]
    show ?thesis
      by (rule keeps_logI)
        (auto simp: drive_read_def Let_def split: if_splits prod.splits timed.splits sum.splits
          dest!: keep, auto simp: log_ok_def)
  qed
  ultimately show ?thesis
    unfolding drive_def by (intro logging keeps_log_chunks)
qed

lemma keeps_log_flush: "keeps_log (flush tr)"
  by (auto simp: keeps_log_def flush_def log_ok_def split: if_splits prod.splits timed.splits sum.splits)

lemma run_session_log:
  assumes "run_session env (logged hdl) tr s = Some (r, s')" and "log_ok s"
  shows "log_ok s' \<and> (case r of Inr b \<Rightarrow> b = (ses_publishing s' = []) | Inl _ \<Rightarrow> True)"
proof -
  have "l = logged hdl \<longrightarrow> log_ok s \<longrightarrow> log_ok (snd y) \<and> (case fst y of Inr b \<Rightarrow> b = (ses_publishing (snd y) = []) | Inl _ \<Rightarrow> True)"
    if "run_session e l t s = Some y" for e l t s y
    using that
  proof (rule run_session.raw_induct [rotated], goal_cases)
    case (1 f e l t s y)
    show ?case
    proof (intro impI)
      assume l: "l = logged hdl" and s: "log_ok s"
      from 1(2) obtain q s1 where q: "drive e l t s = Some (q, s1)" by (cases "drive e l t s") auto
      with l s have s1: "log_ok s1" by (auto dest: keeps_logD [OF keeps_log_drive])
      show "log_ok (snd y) \<and> (case fst y of Inr b \<Rightarrow> b = (ses_publishing (snd y) = []) | Inl _ \<Rightarrow> True)"
      proof (cases "q = Inr True")
        case True
        with 1(2) q obtain u s2 where u: "flush t s1 = Some (u, s2)" by (cases "flush t s1") auto
        then have s2: "log_ok s2" using s1 by (auto dest: keeps_logD [OF keeps_log_flush])
        show ?thesis
        proof (cases u)
          case (Inl x)
          with 1(2) q True u s2 show ?thesis by auto
        next
          case (Inr x)
          with 1(2) q True u have "f e l t s2 = Some y" by simp
          from 1(1) [OF this] l s2 show ?thesis by simp
        qed
      next
        case False
        with 1(2) q s1 show ?thesis by (auto split: sum.splits if_splits)
      qed
    qed
  qed
  from this [OF assms(1)] assms(2) show ?thesis by (cases r) auto
qed

lemma log_ok_handshake:
  assumes "drive_handshake env hs tr server s = Some (r, server', s')" and "log_ok s"
  shows "log_ok s'"
proof -
  obtain q s1 where q: "handshake_read tr 0 s = Some (q, s1)"
    using assms(1) by (cases "handshake_read tr 0 s") (auto simp: drive_handshake_def)
  have s1: "log_ok s1" using q assms(2) by (rule handshake_read_keeps) (simp_all add: log_ok_def)
  have "keeps_log (send_set_chunk_size env :: ('a, 'b \<times> session_event list, unit) sact)"
    unfolding send_set_chunk_size_def by (intro logging) simp
  note send = keeps_logD [OF this]
  obtain w server1 c out where h: "handshake hs (re_bo env) (re_bw env) server (cursor_new (ses_read_buf s1)) (ses_write_buf s1) = (w, server1, c, out)"
    by (metis prod.exhaust)
  have "log_ok t" if "handshake_step env hs server s1 = Some (u, server2, t)" for u server2 t
    using that s1 unfolding handshake_step_def Let_def h prod.case extract_remaining_run
    by (auto simp: log_ok_def split: sum.splits if_splits option.splits prod.splits dest!: send)
  with assms(1) q s1 show ?thesis
    by (auto simp: drive_handshake_def split: option.splits sum.splits)
qed

lemma run_handshake_log:
  assumes "run_handshake env hs tr server s = Some (r, s')" and "log_ok s"
  shows "log_ok s'"
proof -
  have "log_ok s \<longrightarrow> log_ok (snd y)" if "run_handshake e hs t server s = Some y"
    for e hs t server y and s :: "('a, 'b \<times> session_event list) session"
    using that
  proof (rule run_handshake.raw_induct [rotated], goal_cases)
    case (1 f e hs t server s y)
    show ?case
    proof
      assume s: "log_ok s"
      from 1(2) obtain q server' s1 where q: "drive_handshake e hs t server s = Some (q, server', s1)"
        by (cases "drive_handshake e hs t server s") auto
      then have s1: "log_ok s1" using s by (rule log_ok_handshake)
      show "log_ok (snd y)"
      proof (cases "q = Some (Inr False)")
        case True
        with 1(2) q obtain u s2 where u: "flush t s1 = Some (u, s2)" by (cases "flush t s1") auto
        then have s2: "log_ok s2" using s1 by (auto dest: keeps_logD [OF keeps_log_flush])
        show ?thesis
        proof (cases u)
          case (Inl x)
          with 1(2) q True u s2 show ?thesis by auto
        next
          case (Inr x)
          with 1(2) q True u have "f e hs t server' s2 = Some y" by simp
          from 1(1) [OF this] s2 show ?thesis by simp
        qed
      next
        case False
        with 1(2) q s1 show ?thesis by (auto split: option.splits sum.splits if_splits)
      qed
    qed
  qed
  from this [OF assms(1)] assms(2) show ?thesis by simp
qed

text \<open>
  C20. What \<open>run\<close> returns is what its comment says: true when every stream whose publication
  the handler has accepted has been unpublished, in the order of the handler's calls, and
  false when one is still open. The one exception is a context that is cancelled during the
  handshake, for which the result is false though nothing has been published.
\<close>

theorem run_result:
  assumes "run env hs (logged hdl) tr (session_new io (h, [])) = Some (Inr b, s')"
  shows "b \<longleftrightarrow> open_streams (snd (ses_handler s')) = {} \<and>
    run_handshake env hs tr handshake_server_default (session_new io (h, [])) \<noteq> Some (Inr False, s')"
proof -
  have start: "log_ok (session_new io (h, []))"
    by (simp add: log_ok_def session_new_def open_streams_def)
  obtain q s1 where q: "run_handshake env hs tr handshake_server_default (session_new io (h, [] :: session_event list)) = Some (q, s1)"
    using assms by (cases "run_handshake env hs tr handshake_server_default (session_new io (h, [] :: session_event list))") (auto simp: run_def)
  with start have s1: "log_ok s1" by (rule run_handshake_log [rotated])
  show ?thesis
  proof (cases "q = Inr True")
    case True
    with assms q have "run_session env (logged hdl) tr s1 = Some (Inr b, s')" by (simp add: run_def)
    from run_session_log [OF this s1] True q show ?thesis by (auto simp: log_ok_def)
  next
    case False
    with assms q show ?thesis by (auto simp: run_def split: sum.splits if_splits)
  qed
qed

subsection \<open>Witnesses\<close>

text \<open>A peer that sends some packets and then nothing more, and a handler that accepts everything.\<close>

type_synonym packets = "u8 list list \<times> u8 list"

definition packet_transport :: "packets transport" where
  "packet_transport = \<lparr>
     tr_read = (\<lambda>(ps, out). case ps of [] \<Rightarrow> (Elapsed, ([], out))
       | p # ps \<Rightarrow> if p = [] then (Elapsed, (ps, out)) else (Ready (Inr p), (ps, out))),
     tr_write_all = (\<lambda>bs (ps, out). (Ready (Inr ()), (ps, out @ bs))),
     tr_cancelled = (\<lambda>_. False), tr_done = (\<lambda>_. False)\<rparr>"

definition accept_all :: "unit session_handler" where
  "accept_all = \<lparr>on_publish = (\<lambda>_ _ _ h. (Inr (), h)), on_unpublish = (\<lambda>_ h. (Inr (), h)),
     on_unknown_message = (\<lambda>_ _ _ h. (Inr (), h)), on_unknown_command = (\<lambda>_ _ _ h. (Inr (), h)),
     on_data = (\<lambda>_ _ h. (Inr (), h))\<rparr>"

abbreviation idle_session :: "(packets, unit) session" where
  "idle_session \<equiv> session_new ([], []) ()"

lemma session_new_simps [simp]:
  "ses_chunk_writer (session_new io h) = chunk_writer_default" "ses_chunk_reader (session_new io h) = chunk_reader_default"
  "ses_window_size (session_new io h) = 2500000" "ses_sequence_number (session_new io h) = 0"
  "ses_write_buf (session_new io h) = []" "ses_read_buf (session_new io h) = []" "ses_app_name (session_new io h) = None"
  "ses_publishing (session_new io h) = []" "ses_caps_ex (session_new io h) = None" "ses_io (session_new io h) = io"
  "ses_handler (session_new io h) = h" "\<not> ses_skip_read (session_new io h)"
  by (simp_all add: session_new_def DEFAULT_ACKNOWLEDGEMENT_WINDOW_SIZE_def)

text \<open>The state after a round in which the client has sent the beginning of a chunk.\<close>

theorem session_invariant_witness:
  "\<exists>q s. drive sample_env accept_all packet_transport (session_new ([[3, 0, 0]], []) ()) = Some (q, s) \<and>
    length (previous_chunk_headers (ses_chunk_reader s)) \<le> 100 \<and>
    length (partial_chunks (ses_chunk_reader s)) \<le> 4 \<and> 0 < chunk_size (ses_chunk_writer s)"
proof -
  note start = session_reach.new [of sample_env hs_env_sample accept_all packet_transport "([[3, 0, 0]], [])" "()"]
  have "ends (drive sample_env accept_all packet_transport)" by (rule ends_drive [OF sample_env_lawful])
  then obtain q s where run: "drive sample_env accept_all packet_transport (session_new ([[3, 0, 0]], []) ()) = Some (q, s)"
    using session_reach_ok [OF sample_env_lawful start] by (fastforce simp: ends_def)
  from session_invariant [OF sample_env_lawful session_reach.driven [OF start run]] run show ?thesis by blast
qed

theorem drive_returns_witness:
  "\<exists>r s'. drive sample_env accept_all packet_transport (session_new ([[3, 0, 0], []], []) ()) = Some (r, s')"
  by (rule drive_returns [OF sample_env_lawful session_reach.new [of _ hs_env_sample]])

theorem process_message_refines_witness:
  "process_message sample_env accept_all (Amf0Command \<lparr>transaction_id = 1, command_kind = NetStream (Publish [] PublishLive)\<rparr>) 1 0
     idle_session = Some (Inl (SeSession PublishBeforeConnect), idle_session)"
  using process_message_refines [where msg = "Amf0Command \<lparr>transaction_id = 1, command_kind = NetStream (Publish [] PublishLive)\<rparr>"
      and stream = 1 and ts = 0 and s = idle_session and env = sample_env and hdl = accept_all]
  by (simp add: publisher_step_def publisher_of_def)

theorem handshake_read_live_witness:
  "\<exists>r s'. handshake_read packet_transport 0 (session_new ([[3, 0], [1]], []) ()) = Some (r, s')"
  by (rule handshake_read_live) (auto simp: packet_transport_def split: list.splits if_splits)

theorem account_read_spec_witness:
  "account_read sample_env 2500000 idle_session = Some (Inr (), idle_session\<lparr>
    ses_write_buf := [] @ chunk_bytes 128 (control_chunk AcknowledgementType (be_bytes 4 (0 :: u32))),
    ses_sequence_number := 2500000\<rparr>)"
  using account_read_spec [OF sample_env_lawful, of idle_session 2500000]
  by (simp add: chunk_writer_default_def INIT_CHUNK_SIZE_def Let_def)

theorem session_handshake_witness:
  "\<exists>server. handshake_step sample_env hs_env_sample handshake_server_default (idle_session\<lparr>ses_read_buf := 3 # replicate 1536 0 @ [8]\<rparr>) =
      Some (Inr False, server, idle_session\<lparr>ses_read_buf := [], ses_write_buf := handshake_response hs_env_sample (replicate 1536 0)\<rparr>) \<and>
    (\<exists>server'. handshake_step sample_env hs_env_sample server (idle_session\<lparr>ses_read_buf := replicate 1536 1 @ [9]\<rparr>) =
      Some (Inr True, server', idle_session\<lparr>ses_read_buf := [9], ses_skip_read := True,
        ses_write_buf := chunk_bytes 128 (control_chunk SetChunkSizeType (be_bytes 4 (4096 :: u32))),
        ses_chunk_writer := set_chunk_size 4096 chunk_writer_default\<rparr>))"
  using session_handshake [OF sample_env_lawful hs_env_sample_hmac, of "replicate 1536 0" "idle_session\<lparr>ses_read_buf := 3 # replicate 1536 0 @ [8]\<rparr>" 3 "[8]"
      "replicate 1536 1" "idle_session\<lparr>ses_read_buf := replicate 1536 1 @ [9]\<rparr>" "[9]" hs_env_sample]
  by (simp add: chunk_writer_default_def INIT_CHUNK_SIZE_def)

text \<open>A client whose packet is a \<open>SetChunkSize\<close> of one byte.\<close>

theorem short_control_message_disconnects_witness:
  "\<exists>s'. run_session sample_env accept_all packet_transport
      (session_new ([chunk_bytes 128 (control_chunk SetChunkSizeType [1])], []) ()) = Some (Inr True, s')"
proof -
  let ?c = "control_chunk SetChunkSizeType [1]"
  let ?p = "chunk_bytes 128 ?c"
  let ?s = "session_new ([?p], []) () :: (packets, unit) session"
  let ?s1 = "?s\<lparr>ses_io := ([], []), ses_read_buf := ?p, ses_write_buf := [], ses_sequence_number := of_nat (length ?p)\<rparr>"
  have laws: "byteorder_reads cursor_read (re_bo sample_env)" "chunk_type_conversion (re_chunk_type sample_env)"
    using sample_env_lawful by (simp_all add: lawful_env_def)
  have "chunk_writable ?c" "has_room chunk_reader_default ?c" "chunk_reader_ok chunk_reader_default"
    using session_new_ok [of "()" "()"]
    by (simp_all add: chunk_writable_def control_chunk_def chunk_new_def MAX_PARTIAL_CHUNK_SIZE_def session_ok_def
        chunk_reader_default_def has_room_def MAX_PARTIAL_CHUNK_COUNT_def MAX_PREVIOUS_CHUNK_HEADERS_def)
  from read_chunk_bytes [OF laws this(3,1,2), of "[]"] obtain cr where
    read: "read_chunk (re_chunk_type sample_env) (re_bo sample_env) chunk_reader_default ?p =
      Some (Inr (Some (chunk_received 128 ?c)), cr, [])"
    by (auto simp: chunk_reader_default_def INIT_CHUNK_SIZE_def)
  have len: "length ?p = 13"
    by (simp add: chunk_bytes_def control_chunk_def chunk_new_def basic_bytes_def message_bytes_def
        extended_bytes_def is_extended_timestamp_def payload_bytes.simps Let_def)
  then have p: "?p \<noteq> []" by force
  have first: "reconnect_request sample_env packet_transport ?s = Some (Inr (), ?s)"
    by (simp add: reconnect_request_def)
  have "account_read sample_env 13 (?s\<lparr>ses_io := ([], []), ses_read_buf := ?p\<rparr>) = Some (Inr (), ?s1)"
    using account_read_spec [OF sample_env_lawful, of "?s\<lparr>ses_io := ([], []), ses_read_buf := ?p\<rparr>" 13]
    by (simp add: chunk_writer_default_def INIT_CHUNK_SIZE_def Let_def len)
  then have "drive_read sample_env packet_transport ?s = Some (Inr True, ?s1)"
    using p by (simp add: drive_read_def packet_transport_def Let_def len pbnd_def pret_def)
  from short_control_message_disconnects [OF sample_env_lawful first this chunks_processed.none,
      where hdl = accept_all and c = "chunk_received 128 ?c" and cr = cr and buf = "[]"] read
  show ?thesis by (simp add: chunk_received_def control_chunk_def chunk_new_def)
qed

text \<open>A whole run: a client that shakes hands, sends the first byte of a chunk and falls silent.\<close>

abbreviation silent_client :: "(packets, unit \<times> session_event list) session" where
  "silent_client \<equiv> session_new ([3 # replicate 1536 0, replicate 1536 1 @ [3]], []) ((), [])"

lemma handshake_read_packet:
  "ses_io s = (p # ps, out) \<Longrightarrow> HANDSHAKE_READ_SIZE \<le> length p \<Longrightarrow>
     handshake_read packet_transport 0 s = Some (Some (Inr ()), s\<lparr>ses_io := (ps, out),
       ses_read_buf := ses_read_buf s @ p, ses_sequence_number := ses_sequence_number s + usize_to_u32 (length p)\<rparr>)"
  by (simp add: handshake_read.simps [of packet_transport 0 s] handshake_read.simps [of packet_transport "length p"]
      packet_transport_def HANDSHAKE_READ_SIZE_def)
    (auto simp: handshake_read.simps HANDSHAKE_READ_SIZE_def)

lemma flush_packets:
  "\<exists>io. flush packet_transport s = Some (Inr (), s\<lparr>ses_io := io, ses_write_buf := []\<rparr>) \<and> fst io = fst (ses_io s)"
  by (cases s; cases "ses_io s") (auto simp: flush_def packet_transport_def)

lemma silent_client_handshake:
  obtains t where "run_handshake sample_env hs_env_sample packet_transport handshake_server_default silent_client = Some (Inr True, t)"
    and "ses_read_buf t = [3]" and "ses_skip_read t" and "ses_caps_ex t = None" and "fst (ses_io t) = []"
    and "ses_publishing t = []" and "ses_chunk_reader t = chunk_reader_default"
proof -
  let ?run = "drive_handshake sample_env hs_env_sample packet_transport"
  let ?s1 = "silent_client\<lparr>ses_io := ([replicate 1536 1 @ [3]], []), ses_read_buf := 3 # replicate 1536 0 @ [], ses_sequence_number := 1537\<rparr>"
  have r1: "handshake_read packet_transport 0 silent_client = Some (Some (Inr ()), ?s1)"
    using handshake_read_packet [of silent_client "3 # replicate 1536 0" "[replicate 1536 1 @ [3]]" "[]"]
    by (simp add: HANDSHAKE_READ_SIZE_def RTMP_HANDSHAKE_SIZE_def usize_to_u32_def)
  from handshake_step_first [OF sample_env_lawful hs_env_sample_hmac, of "replicate 1536 0" ?s1 3 "[]"] obtain server
    where c2: "awaits_c2 server" and h1: "handshake_step sample_env hs_env_sample handshake_server_default ?s1 = Some (Inr False, server,
      ?s1\<lparr>ses_read_buf := [], ses_write_buf := ses_write_buf ?s1 @ handshake_response hs_env_sample (replicate 1536 0)\<rparr>)"
    by auto
  let ?s2 = "?s1\<lparr>ses_read_buf := [], ses_write_buf := ses_write_buf ?s1 @ handshake_response hs_env_sample (replicate 1536 0)\<rparr>"
  from flush_packets [of ?s2] obtain io where f: "flush packet_transport ?s2 = Some (Inr (), ?s2\<lparr>ses_io := io, ses_write_buf := []\<rparr>)"
    and io: "fst io = [replicate 1536 1 @ [3]]" by auto
  let ?s3 = "?s2\<lparr>ses_io := io, ses_write_buf := []\<rparr>"
  let ?s4 = "?s3\<lparr>ses_io := ([], snd io), ses_read_buf := replicate 1536 1 @ [3], ses_sequence_number := 3074\<rparr>"
  have "ses_io ?s3 = ((replicate 1536 1 @ [3]) # [], snd io)" using io by (cases io) simp
  from handshake_read_packet [OF this]
  have r2: "handshake_read packet_transport 0 ?s3 = Some (Some (Inr ()), ?s4)"
    by (simp add: HANDSHAKE_READ_SIZE_def RTMP_HANDSHAKE_SIZE_def usize_to_u32_def)
  from handshake_step_second [OF sample_env_lawful c2, of "replicate 1536 1" ?s4 "[3]" hs_env_sample]
  obtain server' where h2: "handshake_step sample_env hs_env_sample server ?s4 = Some (Inr True, server', session_started [3] ?s4)"
    by (auto simp: chunk_writer_default_def INIT_CHUNK_SIZE_def)
  have "run_handshake sample_env hs_env_sample packet_transport server ?s3 = Some (Inr True, session_started [3] ?s4)"
    using r2 h2 by (simp only: run_handshake.simps [of _ _ _ server] drive_handshake_def option.case prod.case sum.case if_True)
  then have "run_handshake sample_env hs_env_sample packet_transport handshake_server_default silent_client =
      Some (Inr True, session_started [3] ?s4)"
    using r1 h1 f by (simp only: run_handshake.simps [of _ _ _ handshake_server_default] drive_handshake_def option.case
        prod.case sum.case if_False simp_thms)
  then show ?thesis by (rule that) (simp_all add: session_started_def)
qed

lemma eof24: "\<exists>s. bo_u24 (be_reads cursor_read) \<lparr>cur_data = [3], cur_pos = 1\<rparr> = (Inl eof_error, s)"
proof -
  have "length (cursor_rest \<lparr>cur_data = [3], cur_pos = 1\<rparr>) < 3" by (simp add: cursor_rest_def)
  from cur.read_exact_eof [OF TrueI this] show ?thesis by (auto simp: be_reads_def be_read_def)
qed
lemma read_chunk_step_3: "read_chunk_step chunk_type_from_u8 (be_reads cursor_read) chunk_reader_default [3] =
      (Some (Inr None), chunk_reader_default, [3])"
proof -
  have "read_header chunk_type_from_u8 (be_reads cursor_read) (cursor_new [3]) =
    (Inr \<lparr>chunk_format = Type0, chunk_stream_id = 3\<rparr>, \<lparr>cur_data = [3], cur_pos = 1\<rparr>)" by code_simp
  then have "fst (read_chunk_headers chunk_type_from_u8 (be_reads cursor_read) chunk_reader_default (cursor_new [3])) = Inl None"
    using eof24 by (auto simp: read_chunk_headers_def bnd_def map_err_def read_message_header_def need_def eof_error_def eof_to_none_def)
  then show ?thesis by (cases "read_chunk_headers chunk_type_from_u8 (be_reads cursor_read) chunk_reader_default (cursor_new [3])")
    (simp add: read_chunk_step_def)
qed
theorem run_result_witness:
  "\<exists>s'. run sample_env hs_env_sample (logged accept_all) packet_transport silent_client = Some (Inr True, s') \<and>
    open_streams (snd (ses_handler s')) = {}"
proof -
  obtain t where hs: "run_handshake sample_env hs_env_sample packet_transport handshake_server_default silent_client = Some (Inr True, t)"
    and t: "ses_read_buf t = [3]" "ses_skip_read t" "ses_caps_ex t = None" "fst (ses_io t) = []"
      "ses_publishing t = []" "ses_chunk_reader t = chunk_reader_default"
    by (rule silent_client_handshake)
  have "read_chunk (re_chunk_type sample_env) (re_bo sample_env) chunk_reader_default [3] =
      Some (Inr None, chunk_reader_default, [3])"
    by (simp add: sample_env_def read_chunk.simps read_chunk_step_3)
  then have "process_chunks sample_env (logged accept_all) (t\<lparr>ses_skip_read := False\<rparr>) = Some (Inr (), t\<lparr>ses_skip_read := False\<rparr>)"
    using t by (simp add: process_chunks.simps Let_def)
  then have d1: "drive sample_env (logged accept_all) packet_transport t = Some (Inr True, t\<lparr>ses_skip_read := False\<rparr>)"
    using t by (simp add: drive_def pbnd_def pret_def reconnect_request_def drive_read_def)
  let ?t = "t\<lparr>ses_skip_read := False\<rparr>"
  from flush_packets [of ?t] obtain io where f: "flush packet_transport ?t = Some (Inr (), ?t\<lparr>ses_io := io, ses_write_buf := []\<rparr>)"
    and "fst io = []" using t by auto
  then have "tr_read packet_transport io = (Elapsed, io)" by (cases io) (simp add: packet_transport_def)
  then have "drive sample_env (logged accept_all) packet_transport (?t\<lparr>ses_io := io, ses_write_buf := []\<rparr>) =
      Some (Inl (SeSession Timeout), ?t\<lparr>ses_io := io, ses_write_buf := []\<rparr>)"
    using t by (simp add: drive_def pbnd_def reconnect_request_def drive_read_def)
  then have "run_session sample_env (logged accept_all) packet_transport t = Some (Inr True, ?t\<lparr>ses_io := io, ses_write_buf := []\<rparr>)"
    using d1 f t by (simp add: run_session.simps is_client_closed_def)
  with hs have "run sample_env hs_env_sample (logged accept_all) packet_transport silent_client =
      Some (Inr True, ?t\<lparr>ses_io := io, ses_write_buf := []\<rparr>)"
    by (simp add: run_def)
  with run_result [OF this] show ?thesis by auto
qed

end
