(* ===== verification/Flv.thy ===== *)
theory Flv
  imports Amf0_Serde H264_Config H265_Config Av1_Config
begin

text \<open>
  \<open>crates/flv/src\<close>: demuxing FLV files and tags. A tag holds audio or video, in the legacy or
  the enhanced format, or script data in AMF0; the configuration records of the codecs are
  read by their crates. Types made by \<open>nutype_enum\<close> are integers with names for some of
  their values; a FourCC is its four bytes.
\<close>

subsection \<open>Errors (error.rs)\<close>

datatype flv_error =
    FlvIo err
  | InvalidSignature u32
  | InvalidDataOffset u32
  | NestedMultitracks
  | InvalidModExData nat
  | FlvAmf0 amf0_error
  | FlvFuel

text \<open>
  \<open>FlvFuel\<close> is not in the code: it is what a loop returns when its fuel runs out, which
  never happens. Functions of the code that return \<open>io::Result\<close> have this error type too,
  since their loops need it.
\<close>

type_synonym 'a flv = "(cursor, flv_error, 'a) act"

definition fio :: "(cursor, 'a) io \<Rightarrow> 'a flv" where
  "fio m = map_err FlvIo m"

type_synonym four_cc = "u8 list"

subsection \<open>Script data (script.rs)\<close>

datatype audio_codec_id = LegacyAudioCodec u8 | EnhancedAudioCodec four_cc

datatype video_codec_id = LegacyVideoCodec u8 | EnhancedVideoCodec four_cc

text \<open>What the two implementations of \<open>Deserialize\<close> make of the \<open>u32\<close> they read.\<close>

definition audio_codec_id_of :: "u32 \<Rightarrow> audio_codec_id" where
  "audio_codec_id_of n = (if n > 255 then EnhancedAudioCodec (be_bytes 4 n) else LegacyAudioCodec (ucast n))"

definition video_codec_id_of :: "u32 \<Rightarrow> video_codec_id" where
  "video_codec_id_of n = (if n > 255 then EnhancedVideoCodec (be_bytes 4 n) else LegacyVideoCodec (ucast n))"

record on_meta_data =
  md_audiocodecid :: "audio_codec_id option"
  md_audiodatarate :: "u64 option"
  md_audiodelay :: "u64 option"
  md_audiosamplerate :: "u64 option"
  md_audiosamplesize :: "u64 option"
  md_can_seek_to_end :: "bool option"
  md_creationdate :: "utf8 option"
  md_duration :: "u64 option"
  md_filesize :: "u64 option"
  md_framerate :: "u64 option"
  md_height :: "u64 option"
  md_stereo :: "bool option"
  md_videocodecid :: "video_codec_id option"
  md_videodatarate :: "u64 option"
  md_width :: "u64 option"
  md_audio_track_id_info_map :: "(utf8 \<times> amf0_value) list option"
  md_video_track_id_info_map :: "(utf8 \<times> amf0_value) list option"
  md_other :: "(utf8 \<times> amf0_value) list"

record on_xmp_data =
  live_xml :: "utf8 option"
  xmp_other :: "(utf8 \<times> amf0_value) list"

datatype script_data =
    OnMetaData on_meta_data
  | OnXmpData on_xmp_data
  | OtherScript utf8 "amf0_value list"

text \<open>The metadata of a video packet (metadata.rs).\<close>

record color_info_config =
  ci_bit_depth :: "u64 option"
  ci_color_primaries :: "u64 option"
  ci_transfer_characteristics :: "u64 option"
  ci_matrix_coefficients :: "u64 option"

record hdr_cll =
  max_fall :: "u64 option"
  max_cll :: "u64 option"

record hdr_mdcv =
  red_x :: "u64 option"
  red_y :: "u64 option"
  green_x :: "u64 option"
  green_y :: "u64 option"
  blue_x :: "u64 option"
  blue_y :: "u64 option"
  white_point_x :: "u64 option"
  white_point_y :: "u64 option"
  max_luminance :: "u64 option"
  min_luminance :: "u64 option"

record metadata_color_info =
  ci_color_config :: "color_info_config option"
  ci_hdr_cll :: "hdr_cll option"
  ci_hdr_mdcv :: "hdr_mdcv option"

datatype video_metadata_entry =
    ColorInfo metadata_color_info
  | OtherMetadata utf8 "(utf8 \<times> amf0_value) list"

text \<open>
  The environment: \<open>byteorder\<close> on cursors, on the bit reader over a cursor and on payloads,
  \<open>bytes::Buf\<close>, the conversion of AMF0 markers, and the derived implementations of
  \<open>Deserialize\<close> for the types of metadata.
\<close>

record flv_env =
  fe_bo :: "cursor byteorder"
  fe_bits :: "cursor bit_reader byteorder"
  fe_bb :: "u8 list byteorder"
  fe_remaining :: "cursor \<Rightarrow> nat"
  fe_has_remaining :: "cursor \<Rightarrow> bool"
  fe_marker :: marker_fn
  fe_meta_data :: "(u8 list, on_meta_data) amf0"
  fe_xmp_data :: "(u8 list, on_xmp_data) amf0"
  fe_color_info :: "(u8 list, metadata_color_info) amf0"

definition lawful_flv :: "flv_env \<Rightarrow> bool" where
  "lawful_flv env \<longleftrightarrow> byteorder_reads cursor_read (fe_bo env) \<and>
     byteorder_reads (bit_reader_read cursor_read) (fe_bits env) \<and>
     byteorder_reads bytes_read (fe_bb env) \<and>
     fe_remaining env = remaining \<and> (\<forall>c. fe_has_remaining env c \<longleftrightarrow> cursor_rest c \<noteq> []) \<and>
     marker_conversion (fe_marker env)"

text \<open>
  \<open>Deserialize for ScriptData\<close>: the name of the variant, then its content, which for other
  names is all that is left (\<open>MultiValue\<close>). The decoder has fuel for the length of its input.
\<close>

definition script_data_deserialize :: "flv_env \<Rightarrow> nat \<Rightarrow> (u8 list, script_data) amf0" where
  "script_data_deserialize env fuel =
     enum_variant (fe_marker env) (fe_bb env) bytes_buf (\<lambda>name.
       if name = utf8_of ''onMetaData'' then bnd (fe_meta_data env) (\<lambda>m. ret (OnMetaData m))
       else if name = utf8_of ''onXMPData'' then bnd (fe_xmp_data env) (\<lambda>x. ret (OnXmpData x))
       else bnd (collect_seq fuel (fe_marker env) (fe_bb env)
           (amf0_value_deserialize fuel (fe_marker env) (fe_bb env) bytes_buf) MultiValueAccess) (\<lambda>vs.
         ret (OtherScript name vs)))"

definition decode_payload :: "(u8 list, 'a) amf0 \<Rightarrow> u8 list \<Rightarrow> 'a flv" where
  "decode_payload m buf = map_err FlvAmf0 (lift_res (fst (m (amf0_decoder_new buf))))"

definition script_data_demux :: "flv_env \<Rightarrow> script_data flv" where
  "script_data_demux env =
     bnd (fio extract_remaining) (\<lambda>buf. decode_payload (script_data_deserialize env (length buf + 2)) buf)"

subsection \<open>Audio headers (audio/header)\<close>

definition AvOneTrack :: u8 where "AvOneTrack = 0"
definition AvManyTracks :: u8 where "AvManyTracks = 1"
definition AvManyTracksManyCodecs :: u8 where "AvManyTracksManyCodecs = 2"

definition SoundExHeader :: u8 where "SoundExHeader = 9"
definition SoundAac :: u8 where "SoundAac = 10"

record legacy_audio_header =
  sound_format :: u8
  sound_rate :: u8
  sound_size :: u8
  sound_type :: u8

definition legacy_audio_header_demux :: "flv_env \<Rightarrow> legacy_audio_header flv" where
  "legacy_audio_header_demux env =
     bnd (fio (bo_u8 (fe_bo env))) (\<lambda>byte.
     ret \<lparr>sound_format = drop_bit 4 byte, sound_rate = drop_bit 2 (byte AND 0x0C),
       sound_size = drop_bit 1 (byte AND 2), sound_type = byte AND 1\<rparr>)"

definition AudioSequenceStart :: u8 where "AudioSequenceStart = 0"
definition AudioCodedFrames :: u8 where "AudioCodedFrames = 1"
definition AudioSequenceEnd :: u8 where "AudioSequenceEnd = 2"
definition AudioMultichannelConfig :: u8 where "AudioMultichannelConfig = 4"
definition AudioMultitrack :: u8 where "AudioMultitrack = 5"
definition AudioModEx :: u8 where "AudioModEx = 7"

definition AudioTimestampOffsetNano :: u8 where "AudioTimestampOffsetNano = 0"

datatype audio_mod_ex = AudioTimestampOffset u32 | OtherAudioModEx u8 "u8 list"

text \<open>
  The size of the data of a modifier: a byte, or, when that is 255, a \<open>u16\<close> behind it. The
  byte that follows the data has the type of the modifier and the type of the packet.
\<close>

definition mod_ex_data_read :: "flv_env \<Rightarrow> u8 list flv" where
  "mod_ex_data_read env =
     bnd (fio (bo_u8 (fe_bo env))) (\<lambda>n.
     bnd (if unat n + 1 = 256 then bnd (fio (bo_u16 (fe_bo env))) (\<lambda>n. ret (unat n + 1)) else ret (unat n + 1)) (\<lambda>sz.
     fio (extract_bytes sz)))"

definition mod_ex_offset :: "flv_env \<Rightarrow> u8 list \<Rightarrow> u32 flv" where
  "mod_ex_offset env bs =
     (if length bs < 3 then fail (InvalidModExData 3)
      else fio (lift_res (fst (bo_u24 (fe_bo env) (cursor_new bs)))))"

definition audio_mod_ex_demux :: "flv_env \<Rightarrow> (audio_mod_ex \<times> u8) flv" where
  "audio_mod_ex_demux env =
     bnd (mod_ex_data_read env) (\<lambda>bs.
     bnd (fio (bo_u8 (fe_bo env))) (\<lambda>next.
     if drop_bit 4 next = AudioTimestampOffsetNano then
       bnd (mod_ex_offset env bs) (\<lambda>off. ret (AudioTimestampOffset off, next AND 0x0F))
     else ret (OtherAudioModEx (drop_bit 4 next) bs, next AND 0x0F)))"

fun audio_mod_exs_demux :: "nat \<Rightarrow> flv_env \<Rightarrow> u8 \<Rightarrow> (audio_mod_ex list \<times> u8) flv" where
  "audio_mod_exs_demux 0 env ty = fail FlvFuel"
| "audio_mod_exs_demux (Suc n) env ty =
     (if ty = AudioModEx then
        bnd (audio_mod_ex_demux env) (\<lambda>(m, ty).
        bnd (audio_mod_exs_demux n env ty) (\<lambda>(ms, ty). ret (m # ms, ty)))
      else ret ([], ty))"

datatype ex_audio_content =
    AudioNoMultiTrack four_cc
  | AudioOneTrack four_cc
  | AudioManyTracks four_cc
  | AudioManyTracksManyCodecs
  | AudioUnknownTracks u8 four_cc

record ex_audio_header =
  audio_mod_exs :: "audio_mod_ex list"
  audio_packet_type :: u8
  audio_content :: ex_audio_content

definition four_cc_read :: "four_cc flv" where
  "four_cc_read = fio (read_exact cursor_read 4)"

text \<open>The fuel of a loop is the number of bytes that are left, and one.\<close>

definition with_fuel :: "(nat \<Rightarrow> 'a flv) \<Rightarrow> 'a flv" where
  "with_fuel m c = m (length (cursor_rest c) + 1) c"

definition ex_audio_header_demux :: "flv_env \<Rightarrow> ex_audio_header flv" where
  "ex_audio_header_demux env =
     bnd (fio (bo_u8 (fe_bo env))) (\<lambda>byte.
     bnd (with_fuel (\<lambda>n. audio_mod_exs_demux n env (byte AND 0x0F))) (\<lambda>(ms, ty).
     if ty = AudioMultitrack then
       bnd (fio (bo_u8 (fe_bo env))) (\<lambda>byte.
       let multi = drop_bit 4 byte; ty = byte AND 0x0F in
       if ty = AudioMultitrack then fail NestedMultitracks
       else
         bnd (if multi \<noteq> AvManyTracksManyCodecs then four_cc_read else ret [0, 0, 0, 0]) (\<lambda>cc.
         ret \<lparr>audio_mod_exs = ms, audio_packet_type = ty, audio_content =
           (if multi = AvOneTrack then AudioOneTrack cc
            else if multi = AvManyTracks then AudioManyTracks cc
            else if multi = AvManyTracksManyCodecs then AudioManyTracksManyCodecs
            else AudioUnknownTracks multi cc)\<rparr>))
     else bnd four_cc_read (\<lambda>cc.
       ret \<lparr>audio_mod_exs = ms, audio_packet_type = ty, audio_content = AudioNoMultiTrack cc\<rparr>)))"

datatype audio_header = LegacyAudioHeader legacy_audio_header | EnhancedAudioHeader ex_audio_header

definition audio_header_demux :: "flv_env \<Rightarrow> audio_header flv" where
  "audio_header_demux env =
     bnd (fio (bo_u8 (fe_bo env))) (\<lambda>byte.
     bnd (fio (cursor_seek (SeekCurrent (-1)))) (\<lambda>_.
     if drop_bit 4 (byte AND 0xF0) = SoundExHeader
     then bnd (ex_audio_header_demux env) (\<lambda>h. ret (EnhancedAudioHeader h))
     else bnd (legacy_audio_header_demux env) (\<lambda>h. ret (LegacyAudioHeader h))))"

subsection \<open>Audio bodies (audio/body)\<close>

definition AacSequenceHeader :: u8 where "AacSequenceHeader = 0"
definition AacRaw :: u8 where "AacRaw = 1"

datatype aac_audio_data = AacSequenceHeaderData "u8 list" | AacRawData "u8 list" | UnknownAacData u8 "u8 list"

definition aac_audio_data_new :: "u8 \<Rightarrow> u8 list \<Rightarrow> aac_audio_data" where
  "aac_audio_data_new ty bs =
     (if ty = AacRaw then AacRawData bs
      else if ty = AacSequenceHeader then AacSequenceHeaderData bs
      else UnknownAacData ty bs)"

datatype legacy_audio_body = LegacyAac aac_audio_data | OtherLegacyAudio "u8 list"

definition legacy_audio_body_demux :: "flv_env \<Rightarrow> legacy_audio_header \<Rightarrow> legacy_audio_body flv" where
  "legacy_audio_body_demux env h =
     (if sound_format h = SoundAac then
        bnd (fio (bo_u8 (fe_bo env))) (\<lambda>ty.
        bnd (fio extract_remaining) (\<lambda>bs. ret (LegacyAac (aac_audio_data_new ty bs))))
      else bnd (fio extract_remaining) (\<lambda>bs. ret (OtherLegacyAudio bs)))"

definition ChannelOrderUnspecified :: u8 where "ChannelOrderUnspecified = 0"
definition ChannelOrderNative :: u8 where "ChannelOrderNative = 1"
definition ChannelOrderCustom :: u8 where "ChannelOrderCustom = 2"

datatype multichannel_order =
    CustomOrder "u8 list"
  | NativeOrder u32
  | UnspecifiedOrder
  | UnknownOrder u8

datatype audio_packet =
    MultichannelConfig u8 multichannel_order
  | AudioPacketSequenceEnd
  | AudioPacketSequenceStart "u8 list"
  | AudioPacketCodedFrames "u8 list"
  | UnknownAudioPacket u8 "u8 list"

text \<open>\<open>reader.extract_bytes(size.unwrap_or(reader.remaining()))?\<close>\<close>

definition extract_track :: "flv_env \<Rightarrow> nat option \<Rightarrow> u8 list flv" where
  "extract_track env sz c =
     fio (extract_bytes (case sz of None \<Rightarrow> fe_remaining env c | Some n \<Rightarrow> n)) c"

definition track_size :: "flv_env \<Rightarrow> bool \<Rightarrow> nat option flv" where
  "track_size env multi =
     (if multi then bnd (fio (bo_u24 (fe_bo env))) (\<lambda>n. ret (Some (unat n))) else ret None)"

definition multichannel_demux :: "flv_env \<Rightarrow> audio_packet flv" where
  "multichannel_demux env =
     bnd (fio (bo_u8 (fe_bo env))) (\<lambda>order.
     bnd (fio (bo_u8 (fe_bo env))) (\<lambda>count.
     bnd (if order = ChannelOrderCustom then
            bnd (fio (extract_bytes (unat count))) (\<lambda>bs. ret (CustomOrder bs))
          else if order = ChannelOrderNative then
            bnd (fio (bo_u32 (fe_bo env))) (\<lambda>mask. ret (NativeOrder mask))
          else if order = ChannelOrderUnspecified then ret UnspecifiedOrder
          else ret (UnknownOrder order)) (\<lambda>config.
     ret (MultichannelConfig count config))))"

definition audio_packet_demux :: "flv_env \<Rightarrow> ex_audio_header \<Rightarrow> audio_packet flv" where
  "audio_packet_demux env h =
     bnd (track_size env (case audio_content h of
         AudioNoMultiTrack _ \<Rightarrow> False | AudioOneTrack _ \<Rightarrow> False | _ \<Rightarrow> True)) (\<lambda>sz.
     let ty = audio_packet_type h in
     if ty = AudioMultichannelConfig then multichannel_demux env
     else if ty = AudioSequenceEnd then ret AudioPacketSequenceEnd
     else if ty = AudioSequenceStart then bnd (extract_track env sz) (\<lambda>bs. ret (AudioPacketSequenceStart bs))
     else if ty = AudioCodedFrames then bnd (extract_track env sz) (\<lambda>bs. ret (AudioPacketCodedFrames bs))
     else bnd (extract_track env sz) (\<lambda>bs. ret (UnknownAudioPacket ty bs)))"

record audio_track =
  track_audio_four_cc :: four_cc
  audio_track_id :: u8
  audio_track_packet :: audio_packet

datatype ex_audio_body =
    AudioNoMultitrack four_cc audio_packet
  | AudioTracks "audio_track list"

definition audio_four_cc_read :: "ex_audio_content \<Rightarrow> four_cc flv" where
  "audio_four_cc_read content =
     (case content of
        AudioManyTracksManyCodecs \<Rightarrow> four_cc_read
      | AudioOneTrack cc \<Rightarrow> ret cc
      | AudioManyTracks cc \<Rightarrow> ret cc
      | AudioNoMultiTrack cc \<Rightarrow> ret cc
      | AudioUnknownTracks _ cc \<Rightarrow> ret cc)"

definition audio_track_demux :: "flv_env \<Rightarrow> ex_audio_header \<Rightarrow> audio_track flv" where
  "audio_track_demux env h =
     bnd (audio_four_cc_read (audio_content h)) (\<lambda>cc.
     bnd (fio (bo_u8 (fe_bo env))) (\<lambda>track.
     bnd (audio_packet_demux env h) (\<lambda>p.
     ret \<lparr>track_audio_four_cc = cc, audio_track_id = track, audio_track_packet = p\<rparr>)))"

fun audio_tracks_demux :: "nat \<Rightarrow> flv_env \<Rightarrow> ex_audio_header \<Rightarrow> audio_track list flv" where
  "audio_tracks_demux 0 env h = fail FlvFuel"
| "audio_tracks_demux (Suc n) env h =
     bnd (audio_track_demux env h) (\<lambda>t.
     (\<lambda>c. if \<not> (case audio_content h of AudioOneTrack _ \<Rightarrow> True | _ \<Rightarrow> False) \<and> fe_has_remaining env c
           then bnd (audio_tracks_demux n env h) (\<lambda>ts. ret (t # ts)) c
           else ret [t] c))"

definition ex_audio_body_demux :: "flv_env \<Rightarrow> ex_audio_header \<Rightarrow> ex_audio_body flv" where
  "ex_audio_body_demux env h =
     (case audio_content h of
        AudioNoMultiTrack cc \<Rightarrow> bnd (audio_packet_demux env h) (\<lambda>p. ret (AudioNoMultitrack cc p))
      | _ \<Rightarrow> bnd (with_fuel (\<lambda>n. audio_tracks_demux n env h)) (\<lambda>ts. ret (AudioTracks ts)))"

datatype audio_body = LegacyAudioBody legacy_audio_body | EnhancedAudioBody ex_audio_body

definition audio_body_demux :: "flv_env \<Rightarrow> audio_header \<Rightarrow> audio_body flv" where
  "audio_body_demux env h =
     (case h of
        LegacyAudioHeader h \<Rightarrow> bnd (legacy_audio_body_demux env h) (\<lambda>b. ret (LegacyAudioBody b))
      | EnhancedAudioHeader h \<Rightarrow> bnd (ex_audio_body_demux env h) (\<lambda>b. ret (EnhancedAudioBody b)))"

record audio_data =
  audio_header :: audio_header
  audio_body :: audio_body

definition audio_data_demux :: "flv_env \<Rightarrow> audio_data flv" where
  "audio_data_demux env =
     bnd (audio_header_demux env) (\<lambda>h.
     bnd (audio_body_demux env h) (\<lambda>b. ret \<lparr>audio_header = h, audio_body = b\<rparr>))"

subsection \<open>Video headers (video/header)\<close>

definition VideoFrameCommand :: u8 where "VideoFrameCommand = 5"

definition VideoCodecAvc :: u8 where "VideoCodecAvc = 7"

definition AvcSeqHdr :: u8 where "AvcSeqHdr = 0"
definition AvcNalu :: u8 where "AvcNalu = 1"
definition AvcEndOfSequence :: u8 where "AvcEndOfSequence = 2"

datatype legacy_avc_packet =
    LegacyAvcSequenceHeader
  | LegacyAvcNalu u32
  | LegacyAvcEndOfSequence
  | UnknownLegacyAvc u8 u32

definition legacy_avc_packet_demux :: "flv_env \<Rightarrow> legacy_avc_packet flv" where
  "legacy_avc_packet_demux env =
     bnd (fio (bo_u8 (fe_bo env))) (\<lambda>ty.
     bnd (fio (bo_u24 (fe_bo env))) (\<lambda>offset.
     ret (if ty = AvcSeqHdr then LegacyAvcSequenceHeader
          else if ty = AvcNalu then LegacyAvcNalu offset
          else if ty = AvcEndOfSequence then LegacyAvcEndOfSequence
          else UnknownLegacyAvc ty offset)))"

datatype legacy_video_header =
    LegacyVideoCommand u8
  | LegacyAvcPacket legacy_avc_packet
  | OtherLegacyVideo u8

definition legacy_video_header_demux :: "flv_env \<Rightarrow> legacy_video_header flv" where
  "legacy_video_header_demux env =
     bnd (fio (bo_u8 (fe_bo env))) (\<lambda>byte.
     let frame_type = drop_bit 4 byte; codec = byte AND 0x0F in
     if codec = VideoCodecAvc then bnd (legacy_avc_packet_demux env) (\<lambda>p. ret (LegacyAvcPacket p))
     else if frame_type = VideoFrameCommand then
       bnd (fio (bo_u8 (fe_bo env))) (\<lambda>command. ret (LegacyVideoCommand command))
     else ret (OtherLegacyVideo codec))"

definition VideoSequenceStart :: u8 where "VideoSequenceStart = 0"
definition VideoCodedFrames :: u8 where "VideoCodedFrames = 1"
definition VideoSequenceEnd :: u8 where "VideoSequenceEnd = 2"
definition VideoCodedFramesX :: u8 where "VideoCodedFramesX = 3"
definition VideoMetadata :: u8 where "VideoMetadata = 4"
definition VideoMpeg2TsSequenceStart :: u8 where "VideoMpeg2TsSequenceStart = 5"
definition VideoMultitrack :: u8 where "VideoMultitrack = 6"
definition VideoModEx :: u8 where "VideoModEx = 7"

definition VideoTimestampOffsetNano :: u8 where "VideoTimestampOffsetNano = 0"

datatype video_mod_ex = VideoTimestampOffset u32 | OtherVideoModEx u8 "u8 list"

definition video_mod_ex_demux :: "flv_env \<Rightarrow> (video_mod_ex \<times> u8) flv" where
  "video_mod_ex_demux env =
     bnd (mod_ex_data_read env) (\<lambda>bs.
     bnd (fio (bo_u8 (fe_bo env))) (\<lambda>next.
     if drop_bit 4 next = VideoTimestampOffsetNano then
       bnd (mod_ex_offset env bs) (\<lambda>off. ret (VideoTimestampOffset off, next AND 0x0F))
     else ret (OtherVideoModEx (drop_bit 4 next) bs, next AND 0x0F)))"

fun video_mod_exs_demux :: "nat \<Rightarrow> flv_env \<Rightarrow> u8 \<Rightarrow> (video_mod_ex list \<times> u8) flv" where
  "video_mod_exs_demux 0 env ty = fail FlvFuel"
| "video_mod_exs_demux (Suc n) env ty =
     (if ty = VideoModEx then
        bnd (video_mod_ex_demux env) (\<lambda>(m, ty).
        bnd (video_mod_exs_demux n env ty) (\<lambda>(ms, ty). ret (m # ms, ty)))
      else ret ([], ty))"

definition VideoFourCcAv1 :: four_cc where "VideoFourCcAv1 = utf8_of ''av01''"
definition VideoFourCcAvc :: four_cc where "VideoFourCcAvc = utf8_of ''avc1''"
definition VideoFourCcHevc :: four_cc where "VideoFourCcHevc = utf8_of ''hvc1''"

datatype ex_video_content =
    VideoCommandContent u8
  | VideoNoMultiTrack four_cc
  | VideoOneTrack four_cc
  | VideoManyTracks four_cc
  | VideoManyTracksManyCodecs
  | VideoUnknownTracks u8 four_cc

record ex_video_header =
  video_mod_exs :: "video_mod_ex list"
  video_packet_type :: u8
  video_content :: ex_video_content

definition ex_video_header_demux :: "flv_env \<Rightarrow> ex_video_header flv" where
  "ex_video_header_demux env =
     bnd (fio (bo_u8 (fe_bo env))) (\<lambda>byte.
     let frame_type = drop_bit 4 (byte AND 0x70) in
     bnd (with_fuel (\<lambda>n. video_mod_exs_demux n env (byte AND 0x0F))) (\<lambda>(ms, ty).
     if ty \<noteq> VideoMetadata \<and> frame_type = VideoFrameCommand then
       bnd (fio (bo_u8 (fe_bo env))) (\<lambda>command.
       ret \<lparr>video_mod_exs = ms, video_packet_type = ty, video_content = VideoCommandContent command\<rparr>)
     else if ty = VideoMultitrack then
       bnd (fio (bo_u8 (fe_bo env))) (\<lambda>byte.
       let multi = drop_bit 4 byte; ty = byte AND 0x0F in
       if ty = VideoMultitrack then fail NestedMultitracks
       else
         bnd (if multi \<noteq> AvManyTracksManyCodecs then four_cc_read else ret [0, 0, 0, 0]) (\<lambda>cc.
         ret \<lparr>video_mod_exs = ms, video_packet_type = ty, video_content =
           (if multi = AvOneTrack then VideoOneTrack cc
            else if multi = AvManyTracks then VideoManyTracks cc
            else if multi = AvManyTracksManyCodecs then VideoManyTracksManyCodecs
            else VideoUnknownTracks multi cc)\<rparr>))
     else bnd four_cc_read (\<lambda>cc.
       ret \<lparr>video_mod_exs = ms, video_packet_type = ty, video_content = VideoNoMultiTrack cc\<rparr>)))"

datatype video_header_data = LegacyVideoHeader legacy_video_header | EnhancedVideoHeader ex_video_header

record video_header =
  video_frame_type :: u8
  video_header_data :: video_header_data

definition video_header_demux :: "flv_env \<Rightarrow> video_header flv" where
  "video_header_demux env =
     bnd (fio (bo_u8 (fe_bo env))) (\<lambda>byte.
     bnd (fio (cursor_seek (SeekCurrent (-1)))) (\<lambda>_.
     bnd (if byte AND 0x80 = 0
          then bnd (legacy_video_header_demux env) (\<lambda>h. ret (LegacyVideoHeader h))
          else bnd (ex_video_header_demux env) (\<lambda>h. ret (EnhancedVideoHeader h))) (\<lambda>h.
     ret \<lparr>video_frame_type = drop_bit 4 (byte AND 0x70), video_header_data = h\<rparr>)))"

subsection \<open>Video bodies (video/body)\<close>

datatype legacy_video_body =
    LegacyVideoCommandBody
  | LegacyAvcSequence avc_decoder_configuration_record
  | OtherLegacyVideoData "u8 list"

definition legacy_video_body_demux :: "flv_env \<Rightarrow> legacy_video_header \<Rightarrow> legacy_video_body flv" where
  "legacy_video_body_demux env h =
     (case h of
        LegacyVideoCommand _ \<Rightarrow> ret LegacyVideoCommandBody
      | LegacyAvcPacket LegacyAvcSequenceHeader \<Rightarrow>
          bnd (fio (avcc_parse (fe_bo env) (fe_has_remaining env))) (\<lambda>c. ret (LegacyAvcSequence c))
      | _ \<Rightarrow> bnd (fio extract_remaining) (\<lambda>bs. ret (OtherLegacyVideoData bs)))"

datatype video_sequence_start =
    SequenceStartAv1 av1_codec_configuration_record
  | SequenceStartAvc avc_decoder_configuration_record
  | SequenceStartHevc hevc_decoder_configuration_record
  | OtherSequenceStart "u8 list"

datatype video_mpeg2ts_sequence_start = Mpeg2TsAv1 av1_video_descriptor | OtherMpeg2Ts "u8 list"

datatype video_coded_frames =
    CodedFramesAvc "32 word" "u8 list"
  | CodedFramesHevc "32 word" "u8 list"
  | OtherCodedFrames "u8 list"

datatype video_packet =
    VideoPacketMetadata "video_metadata_entry list"
  | VideoPacketSequenceEnd
  | VideoPacketSequenceStart video_sequence_start
  | VideoPacketMpeg2Ts video_mpeg2ts_sequence_start
  | VideoPacketCodedFrames video_coded_frames
  | VideoPacketCodedFramesX "u8 list"
  | UnknownVideoPacket u8 "u8 list"

text \<open>\<open>Deserialize for VideoPacketMetadataEntry\<close>, and the collection of its stream.\<close>

definition metadata_entry_deserialize :: "flv_env \<Rightarrow> nat \<Rightarrow> (u8 list, video_metadata_entry) amf0" where
  "metadata_entry_deserialize env fuel =
     enum_variant (fe_marker env) (fe_bb env) bytes_buf (\<lambda>key.
       if key = utf8_of ''colorInfo'' then bnd (fe_color_info env) (\<lambda>c. ret (ColorInfo c))
       else bnd (amf0_value_deserialize fuel (fe_marker env) (fe_bb env) bytes_buf) (\<lambda>v.
         case v of Amf0Object ps \<Rightarrow> ret (OtherMetadata key ps)
         | _ \<Rightarrow> fail (Amf0Custom ''expected VideoPacketMetadataEntry object'')))"

fun metadata_stream :: "nat \<Rightarrow> flv_env \<Rightarrow> nat \<Rightarrow> (u8 list, video_metadata_entry list) amf0" where
  "metadata_stream 0 env fuel d = (Inl Amf0Fuel, d)"
| "metadata_stream (Suc n) env fuel d =
     (case stream_next (fe_marker env) (fe_bb env) (metadata_entry_deserialize env fuel) d of
        (None, d') \<Rightarrow> (Inr [], d')
      | (Some (Inl e), d') \<Rightarrow> (Inl e, d')
      | (Some (Inr v), d') \<Rightarrow> bnd (metadata_stream n env fuel) (\<lambda>vs. ret (v # vs)) d')"

text \<open>\<open>demux(&mut Cursor::new(data))\<close>: the bytes that are left over are dropped.\<close>

definition demux_in :: "(cursor, 'a) io \<Rightarrow> u8 list \<Rightarrow> 'a flv" where
  "demux_in m bs = fio (lift_res (fst (m (cursor_new bs))))"

definition video_sequence_start_demux :: "flv_env \<Rightarrow> four_cc \<Rightarrow> u8 list \<Rightarrow> video_sequence_start flv" where
  "video_sequence_start_demux env cc bs =
     (if cc = VideoFourCcAv1 then bnd (demux_in av1_config_demux bs) (\<lambda>c. ret (SequenceStartAv1 c))
      else if cc = VideoFourCcAvc then
        bnd (demux_in (avcc_parse (fe_bo env) (fe_has_remaining env)) bs) (\<lambda>c. ret (SequenceStartAvc c))
      else if cc = VideoFourCcHevc then
        bnd (demux_in (hevc_config_demux cursor_read (fe_bits env)) bs) (\<lambda>c. ret (SequenceStartHevc c))
      else ret (OtherSequenceStart bs))"

text \<open>\<open>byteorder\<close>'s \<open>read_i24\<close>: a signed number in three bytes.\<close>

definition read_i24 :: "flv_env \<Rightarrow> 32 word flv" where
  "read_i24 env = bnd (fio (bo_u24 (fe_bo env))) (\<lambda>v. ret (signed_take_bit 23 v))"

definition video_coded_frames_demux :: "flv_env \<Rightarrow> four_cc \<Rightarrow> nat option \<Rightarrow> video_coded_frames flv" where
  "video_coded_frames_demux env cc sz =
     (if cc = VideoFourCcAvc then
        bnd (read_i24 env) (\<lambda>off.
        bnd (extract_track env (map_option (\<lambda>s. s - 3) sz)) (\<lambda>bs. ret (CodedFramesAvc off bs)))
      else if cc = VideoFourCcHevc then
        bnd (read_i24 env) (\<lambda>off.
        bnd (extract_track env (map_option (\<lambda>s. s - 3) sz)) (\<lambda>bs. ret (CodedFramesHevc off bs)))
      else bnd (extract_track env sz) (\<lambda>bs. ret (OtherCodedFrames bs)))"

definition video_packet_demux :: "flv_env \<Rightarrow> ex_video_header \<Rightarrow> four_cc \<Rightarrow> video_packet flv" where
  "video_packet_demux env h cc =
     bnd (track_size env (case video_content h of
         VideoNoMultiTrack _ \<Rightarrow> False | VideoOneTrack _ \<Rightarrow> False | _ \<Rightarrow> True)) (\<lambda>sz.
     let ty = video_packet_type h in
     if ty = VideoMetadata then
       bnd (extract_track env sz) (\<lambda>bs.
       bnd (decode_payload (metadata_stream (length bs + 2) env (length bs + 2)) bs) (\<lambda>es.
       ret (VideoPacketMetadata es)))
     else if ty = VideoSequenceEnd then ret VideoPacketSequenceEnd
     else if ty = VideoSequenceStart then
       bnd (extract_track env sz) (\<lambda>bs.
       bnd (video_sequence_start_demux env cc bs) (\<lambda>s. ret (VideoPacketSequenceStart s)))
     else if ty = VideoMpeg2TsSequenceStart then
       bnd (extract_track env sz) (\<lambda>bs.
       bnd (if cc = VideoFourCcAv1
            then bnd (demux_in (av1_descriptor_demux (fe_bo env)) bs) (\<lambda>d. ret (Mpeg2TsAv1 d))
            else ret (OtherMpeg2Ts bs)) (\<lambda>s. ret (VideoPacketMpeg2Ts s)))
     else if ty = VideoCodedFrames then
       bnd (video_coded_frames_demux env cc sz) (\<lambda>f. ret (VideoPacketCodedFrames f))
     else if ty = VideoCodedFramesX then
       bnd (extract_track env sz) (\<lambda>bs. ret (VideoPacketCodedFramesX bs))
     else bnd (extract_track env sz) (\<lambda>bs. ret (UnknownVideoPacket ty bs)))"

record video_track =
  track_video_four_cc :: four_cc
  video_track_id :: u8
  video_track_packet :: video_packet

datatype ex_video_body =
    VideoCommandBody
  | VideoNoMultitrack four_cc video_packet
  | VideoTracks "video_track list"

definition video_four_cc_read :: "ex_video_content \<Rightarrow> four_cc flv" where
  "video_four_cc_read content =
     (case content of
        VideoManyTracksManyCodecs \<Rightarrow> four_cc_read
      | VideoOneTrack cc \<Rightarrow> ret cc
      | VideoManyTracks cc \<Rightarrow> ret cc
      | VideoNoMultiTrack cc \<Rightarrow> ret cc
      | VideoUnknownTracks _ cc \<Rightarrow> ret cc
      | VideoCommandContent _ \<Rightarrow> ret [])"

definition video_track_demux :: "flv_env \<Rightarrow> ex_video_header \<Rightarrow> video_track flv" where
  "video_track_demux env h =
     bnd (video_four_cc_read (video_content h)) (\<lambda>cc.
     bnd (fio (bo_u8 (fe_bo env))) (\<lambda>track.
     bnd (video_packet_demux env h cc) (\<lambda>p.
     ret \<lparr>track_video_four_cc = cc, video_track_id = track, video_track_packet = p\<rparr>)))"

fun video_tracks_demux :: "nat \<Rightarrow> flv_env \<Rightarrow> ex_video_header \<Rightarrow> video_track list flv" where
  "video_tracks_demux 0 env h = fail FlvFuel"
| "video_tracks_demux (Suc n) env h =
     bnd (video_track_demux env h) (\<lambda>t.
     (\<lambda>c. if \<not> (case video_content h of VideoOneTrack _ \<Rightarrow> True | _ \<Rightarrow> False) \<and> fe_has_remaining env c
           then bnd (video_tracks_demux n env h) (\<lambda>ts. ret (t # ts)) c
           else ret [t] c))"

definition ex_video_body_demux :: "flv_env \<Rightarrow> ex_video_header \<Rightarrow> ex_video_body flv" where
  "ex_video_body_demux env h =
     (case video_content h of
        VideoCommandContent _ \<Rightarrow> ret VideoCommandBody
      | VideoNoMultiTrack cc \<Rightarrow> bnd (video_packet_demux env h cc) (\<lambda>p. ret (VideoNoMultitrack cc p))
      | _ \<Rightarrow> bnd (with_fuel (\<lambda>n. video_tracks_demux n env h)) (\<lambda>ts. ret (VideoTracks ts)))"

datatype video_body = LegacyVideoBody legacy_video_body | EnhancedVideoBody ex_video_body

definition video_body_demux :: "flv_env \<Rightarrow> video_header \<Rightarrow> video_body flv" where
  "video_body_demux env h =
     (case video_header_data h of
        LegacyVideoHeader h \<Rightarrow> bnd (legacy_video_body_demux env h) (\<lambda>b. ret (LegacyVideoBody b))
      | EnhancedVideoHeader h \<Rightarrow> bnd (ex_video_body_demux env h) (\<lambda>b. ret (EnhancedVideoBody b)))"

record video_data =
  video_header :: video_header
  video_body :: video_body

definition video_data_demux :: "flv_env \<Rightarrow> video_data flv" where
  "video_data_demux env =
     bnd (video_header_demux env) (\<lambda>h.
     bnd (video_body_demux env h) (\<lambda>b. ret \<lparr>video_header = h, video_body = b\<rparr>))"

subsection \<open>Tags and files (tag.rs, header.rs, file.rs)\<close>

definition TagAudio :: u8 where "TagAudio = 8"
definition TagVideo :: u8 where "TagVideo = 9"
definition TagScriptData :: u8 where "TagScriptData = 18"

datatype flv_tag_data =
    AudioTag audio_data
  | VideoTag video_data
  | ScriptTag script_data
  | EncryptedTag "u8 list"
  | UnknownTag u8 "u8 list"

definition flv_tag_data_demux :: "flv_env \<Rightarrow> u8 \<Rightarrow> flv_tag_data flv" where
  "flv_tag_data_demux env ty =
     (if ty = TagAudio then bnd (audio_data_demux env) (\<lambda>d. ret (AudioTag d))
      else if ty = TagVideo then bnd (video_data_demux env) (\<lambda>d. ret (VideoTag d))
      else if ty = TagScriptData then bnd (script_data_demux env) (\<lambda>d. ret (ScriptTag d))
      else bnd (fio extract_remaining) (\<lambda>bs. ret (UnknownTag ty bs)))"

record flv_tag =
  tag_timestamp_ms :: u32
  tag_stream_id :: u32
  tag_data :: flv_tag_data

definition flv_tag_demux :: "flv_env \<Rightarrow> flv_tag flv" where
  "flv_tag_demux env =
     bnd (fio (bo_u8 (fe_bo env))) (\<lambda>first.
     bnd (fio (bo_u24 (fe_bo env))) (\<lambda>data_size.
     bnd (fio (bo_u24 (fe_bo env))) (\<lambda>low.
     bnd (fio (bo_u8 (fe_bo env))) (\<lambda>high.
     bnd (fio (bo_u24 (fe_bo env))) (\<lambda>stream.
     bnd (fio (extract_bytes (unat data_size))) (\<lambda>bs.
     bnd (if first AND 0x20 = 0
          then lift_res (fst (flv_tag_data_demux env (first AND 0x1F) (cursor_new bs)))
          else ret (EncryptedTag bs)) (\<lambda>d.
     ret \<lparr>tag_timestamp_ms = low OR push_bit 24 (ucast high), tag_stream_id = stream, tag_data = d\<rparr>)))))))"

record flv_header =
  flv_version :: u8
  is_audio_present :: bool
  is_video_present :: bool
  flv_extra :: "u8 list"

definition FLV_SIGNATURE :: u32 where "FLV_SIGNATURE = 0x464C56"

definition flv_header_demux :: "flv_env \<Rightarrow> flv_header flv" where
  "flv_header_demux env start =
     bnd (fio (bo_u24 (fe_bo env))) (\<lambda>signature.
     if signature \<noteq> FLV_SIGNATURE then fail (InvalidSignature signature)
     else
       bnd (fio (bo_u8 (fe_bo env))) (\<lambda>version.
       bnd (fio (bo_u8 (fe_bo env))) (\<lambda>flags.
       bnd (fio (bo_u32 (fe_bo env))) (\<lambda>data_offset.
       (\<lambda>c. let size = cur_pos c - cur_pos start in
         (if unat data_offset < size then fail (InvalidDataOffset data_offset) c
          else bnd (fio (extract_bytes (unat data_offset - size))) (\<lambda>extra.
            ret \<lparr>flv_version = version, is_audio_present = (flags AND 4 \<noteq> 0),
              is_video_present = (flags AND 1 \<noteq> 0), flv_extra = extra\<rparr>) c)))))) start"

record flv_file =
  file_header :: flv_header
  file_tags :: "flv_tag list"

fun flv_tags_demux :: "nat \<Rightarrow> flv_env \<Rightarrow> flv_tag list flv" where
  "flv_tags_demux 0 env c = (Inl FlvFuel, c)"
| "flv_tags_demux (Suc n) env c =
     (if \<not> fe_has_remaining env c then ret [] c
      else bnd (fio (bo_u32 (fe_bo env))) (\<lambda>_.
        (\<lambda>c. if \<not> fe_has_remaining env c then ret [] c
             else bnd (flv_tag_demux env) (\<lambda>t.
               bnd (flv_tags_demux n env) (\<lambda>ts. ret (t # ts))) c)) c)"

definition flv_file_demux :: "flv_env \<Rightarrow> flv_file flv" where
  "flv_file_demux env =
     bnd (flv_header_demux env) (\<lambda>h.
     bnd (with_fuel (\<lambda>n. flv_tags_demux n env)) (\<lambda>ts. ret \<lparr>file_header = h, file_tags = ts\<rparr>))"

end
