(* ===== verification/Flv_Props.thy ===== *)
theory Flv_Props
  imports Flv
begin

text \<open>
  The FLV demuxer ends on every input: each loop consumes bytes, and the fuel it is given
  is never used up. \<open>flv_run\<close> is the calculus for it.
\<close>

subsection \<open>Every run ends\<close>

definition fuelless :: "(flv_error + 'a) \<Rightarrow> bool" where
  "fuelless r \<longleftrightarrow> r \<noteq> Inl FlvFuel \<and> r \<noteq> Inl (FlvAmf0 Amf0Fuel)"

text \<open>
  \<open>flv_run N k m\<close>: with at most \<open>N\<close> bytes left, \<open>m\<close> does not run out of fuel, and consumes \<open>k\<close>
  bytes or more when it succeeds. \<open>fuel_free m\<close> asks for the first part only.
\<close>

definition flv_run :: "nat \<Rightarrow> nat \<Rightarrow> 'a flv \<Rightarrow> bool" where
  "flv_run N k m \<longleftrightarrow> (\<forall>c. length (cursor_rest c) \<le> N \<longrightarrow> fuelless (fst (m c)) \<and>
     (\<forall>x c'. m c = (Inr x, c') \<longrightarrow> length (cursor_rest c') + k \<le> length (cursor_rest c)))"

definition fuel_free :: "'a flv \<Rightarrow> bool" where
  "fuel_free m \<longleftrightarrow> (\<forall>c. fuelless (fst (m c)))"

named_theorems flv_ends

lemma fuelless_simps [simp]: "fuelless (Inr x)" "fuelless (Inl e) \<longleftrightarrow> e \<noteq> FlvFuel \<and> e \<noteq> FlvAmf0 Amf0Fuel"
  by (simp_all add: fuelless_def)

lemma flv_run_ret [flv_ends]: "flv_run N 0 (ret x)"
  by (simp add: flv_run_def run_simps)

lemma flv_run_fail [flv_ends]: "e \<noteq> FlvFuel \<Longrightarrow> e \<noteq> FlvAmf0 Amf0Fuel \<Longrightarrow> flv_run N k (fail e)"
  by (simp add: flv_run_def run_simps)

lemma flv_run_mono:
  assumes "flv_run N k m" and "M \<le> N" and "j \<le> k"
  shows "flv_run M j m"
  unfolding flv_run_def
proof (intro allI impI)
  fix c
  assume "length (cursor_rest c) \<le> M"
  with assms(1,2) have "fuelless (fst (m c))" "\<forall>x c'. m c = (Inr x, c') \<longrightarrow> length (cursor_rest c') + k \<le> length (cursor_rest c)"
    by (simp_all add: flv_run_def)
  with assms(3) show "fuelless (fst (m c)) \<and> (\<forall>x c'. m c = (Inr x, c') \<longrightarrow> length (cursor_rest c') + j \<le> length (cursor_rest c))"
    by fastforce
qed

lemma flv_run_bnd:
  assumes m: "flv_run N j m" and f: "\<And>x. j \<le> N \<Longrightarrow> flv_run (N - j) k (f x)"
  shows "flv_run N (j + k) (bnd m f)"
  unfolding flv_run_def
proof (intro allI impI)
  fix c
  assume c: "length (cursor_rest c) \<le> N"
  obtain r c1 where r: "m c = (r, c1)" by force
  show "fuelless (fst (bnd m f c)) \<and>
    (\<forall>x c'. bnd m f c = (Inr x, c') \<longrightarrow> length (cursor_rest c') + (j + k) \<le> length (cursor_rest c))"
  proof (cases r)
    case (Inl e)
    with m c r have "fuelless (Inl e :: flv_error + 'b)" unfolding flv_run_def by (metis fst_conv fuelless_simps(2))
    with r Inl show ?thesis by (simp add: run_simps)
  next
    case (Inr x)
    with m c r have 1: "length (cursor_rest c1) + j \<le> length (cursor_rest c)" by (auto simp: flv_run_def)
    with c have "flv_run (N - j) k (f x)" "length (cursor_rest c1) \<le> N - j" by (auto intro: f)
    with 1 r Inr show ?thesis by (fastforce simp: flv_run_def run_simps)
  qed
qed

lemma flv_run_bnd0 [flv_ends]: "flv_run N j m \<Longrightarrow> (\<And>x. flv_run N 0 (f x)) \<Longrightarrow> flv_run N j (bnd m f)"
  using flv_run_bnd [of N j m 0 f] flv_run_mono [of N 0 _ "N - j" 0] by auto

lemma flv_run_bnd_after: "flv_run N 0 m \<Longrightarrow> (\<And>x. flv_run N k (f x)) \<Longrightarrow> flv_run N k (bnd m f)"
  using flv_run_bnd [of N 0 m k f] by simp

lemma flv_run_zero: "flv_run N k m \<Longrightarrow> flv_run N 0 m"
  by (erule flv_run_mono) auto

lemma flv_run_if [flv_ends]: "(b \<Longrightarrow> flv_run N k m) \<Longrightarrow> (\<not> b \<Longrightarrow> flv_run N k n) \<Longrightarrow> flv_run N k (if b then m else n)"
  by simp

lemma fuelless_fio [simp]: "fuelless (fst (fio m c))"
  by (auto simp: fio_def map_err_def split: prod.splits sum.splits)

lemma fio_Inr: "fio m c = (Inr x, c') \<longleftrightarrow> m c = (Inr x, c')"
  by (auto simp: fio_def map_err_def split: prod.splits sum.splits)

lemma flv_run_fio:
  "(\<And>c x c'. m c = (Inr x, c') \<Longrightarrow> length (cursor_rest c') + k \<le> length (cursor_rest c)) \<Longrightarrow> flv_run N k (fio m)"
  by (simp add: flv_run_def fio_Inr)

lemma read_exact_cursor_Inr:
  "read_exact cursor_read n c = (Inr bs, c') \<Longrightarrow> length (cursor_rest c') + n \<le> length (cursor_rest c)"
  using cur.read_exact_eof [of c n] read_exact_cursor_ok [of n c]
  by (cases "n \<le> remaining c") (auto simp: cursor_rest_def remaining_def)

lemma flv_run_read [flv_ends]:
  assumes "byteorder_reads cursor_read bo"
  shows "flv_run N 1 (fio (bo_u8 bo))" and "flv_run N 2 (fio (bo_u16 bo))" and "flv_run N 3 (fio (bo_u24 bo))"
    and "flv_run N 4 (fio (bo_u32 bo))"
  using assms
  by (auto simp: byteorder_reads_def be_read_def intro!: flv_run_fio elim!: bnd_InrE dest!: read_exact_cursor_Inr
      simp: run_simps)

lemma flv_run_read0 [flv_ends]:
  assumes "byteorder_reads cursor_read bo"
  shows "flv_run N 0 (fio (bo_u8 bo))" and "flv_run N 0 (fio (bo_u16 bo))" and "flv_run N 0 (fio (bo_u24 bo))"
    and "flv_run N 0 (fio (bo_u32 bo))"
  using flv_run_read [OF assms] by (blast intro: flv_run_zero)+

lemma flv_run_pure [flv_ends]: "flv_run N 0 (fio (lift_res r))"
  by (rule flv_run_fio) (simp add: run_simps)

lemma flv_run_extract [flv_ends]: "flv_run N 0 (fio (extract_bytes n))" and "flv_run N 0 (fio extract_remaining)"
  by (auto intro!: flv_run_fio simp: extract_bytes_run extract_remaining_run cursor_rest_def remaining_def split: if_splits)

lemma flv_run_four_cc [flv_ends]: "flv_run N 0 four_cc_read"
  unfolding four_cc_read_def by (rule flv_run_fio) (auto dest: read_exact_cursor_Inr)

lemma flv_run_track [flv_ends]: "flv_run N 0 (extract_track env sz)"
  using flv_run_extract(1) by (auto simp: flv_run_def extract_track_def)

lemma flv_run_with_fuel [flv_ends]: "(\<And>M. M \<le> N \<Longrightarrow> flv_run M k (m (M + 1))) \<Longrightarrow> flv_run N k (with_fuel m)"
  by (auto simp: flv_run_def with_fuel_def)

lemma flv_run_demux_in [flv_ends]: "flv_run N 0 (demux_in m bs)"
  unfolding demux_in_def by (rule flv_run_pure)

lemma flv_bo: "lawful_flv env \<Longrightarrow> byteorder_reads cursor_read (fe_bo env)"
  by (simp add: lawful_flv_def)

text \<open>A look at the first byte.\<close>

lemma fuel_free_run: "(\<And>N. flv_run N k m) \<Longrightarrow> fuel_free m"
  unfolding flv_run_def fuel_free_def by blast

lemma fuel_free_ret [flv_ends]: "fuel_free (ret x)" and fuel_free_fio [flv_ends]: "fuel_free (fio m)"
  by (simp_all add: fuel_free_def run_simps)

lemma fuel_free_bnd [flv_ends]: "fuel_free m \<Longrightarrow> (\<And>x. fuel_free (f x)) \<Longrightarrow> fuel_free (bnd m f)"
  unfolding fuel_free_def
proof
  fix c
  assume m: "\<forall>c. fuelless (fst (m c))" and f: "\<And>x. \<forall>c. fuelless (fst (f x c))"
  show "fuelless (fst (bnd m f c))"
    using m [THEN spec, of c] f by (cases "m c"; cases "fst (m c)") (auto simp: bnd_def)
qed

lemma fuel_free_if [flv_ends]: "(b \<Longrightarrow> fuel_free m) \<Longrightarrow> (\<not> b \<Longrightarrow> fuel_free n) \<Longrightarrow> fuel_free (if b then m else n)"
  by simp

subsubsection \<open>AMF0 payloads\<close>

definition derived_end :: "flv_env \<Rightarrow> bool" where
  "derived_end env \<longleftrightarrow> (\<forall>N. bytes.bounded_run N 0 (fe_meta_data env) \<and> bytes.bounded_run N 0 (fe_xmp_data env) \<and>
     bytes.bounded_run N 0 (fe_color_info env))"

lemma flv_bb: "lawful_flv env \<Longrightarrow> byteorder_reads (zc_read bytes_buf) (fe_bb env)"
  by (simp add: lawful_flv_def bytes_buf_def)

lemma fuel_free_decode_payload:
  assumes "bytes.bounded_run (length bs) 0 m"
  shows "flv_run N 0 (decode_payload m bs)"
proof -
  have "bytes.any_marker (amf0_decoder_new bs)" "length (bytes.view (amf0_decoder_new bs)) \<le> length bs"
    by (simp_all add: bytes.any_marker_def amf0_decoder_new_def bytes.view_def pending_def)
  with assms have "fst (m (amf0_decoder_new bs)) \<noteq> Inl Amf0Fuel"
    unfolding bytes.bounded_run_def by (cases "m (amf0_decoder_new bs)") (fastforce split: sum.splits)
  then show ?thesis
    by (cases "fst (m (amf0_decoder_new bs))")
      (auto simp: flv_run_def decode_payload_def map_err_def run_simps)
qed

lemma bounded_collect_seq:
  assumes bo: "byteorder_reads (zc_read bytes_buf) bo" and dv: "\<And>M. M \<le> N \<Longrightarrow> bytes.bounded_run M 1 dv"
  shows "N < n \<Longrightarrow> bytes.bounded_run N 0 (collect_seq n mk bo dv MultiValueAccess)"
  using dv
proof (induction n arbitrary: N)
  case (Suc n)
  have "bytes.bounded_run N 0 (bnd (bnd dv (\<lambda>v. ret (Some (v, MultiValueAccess)))) (\<lambda>r.
     case r of None \<Rightarrow> ret [] | Some (v, a') \<Rightarrow> bnd (collect_seq n mk bo dv a') (\<lambda>vs. ret (v # vs))))"
  proof -
    have "bytes.bounded_run (N - 1) 0 (bnd (collect_seq n mk bo dv MultiValueAccess) (\<lambda>vs. ret (v # vs)))" if "1 \<le> N" for v
      using that Suc by (intro bytes.bounded_bnd0 Suc.IH bytes.bounded_ret) auto
    then have "bytes.bounded_run N (1 + 0) (bnd dv (\<lambda>v. bnd (collect_seq n mk bo dv MultiValueAccess) (\<lambda>vs. ret (v # vs))))"
      using Suc.prems by (intro bytes.bounded_bnd) auto
    then show ?thesis by (simp add: bnd_assoc) (erule bytes.bounded_zero)
  qed
  note element = this
  show ?case
    unfolding collect_seq.simps seq_next_element_def seq_access.case bnd_assoc
    by (rule bytes.bounded_bnd0 [OF bytes.bounded_has_remaining [OF bo]])
      (use element in \<open>simp add: bnd_assoc bytes.bounded_ret\<close>)
qed simp

lemma bounded_variant:
  assumes "byteorder_reads (zc_read bytes_buf) bo" and "\<And>key. bytes.bounded_run N 0 (seed key)"
  shows "bytes.bounded_run N 1 (enum_variant mk bo bytes_buf seed)"
  unfolding enum_variant_def using assms(2) by (rule bytes.bounded_bnd0 [OF bytes.bounded_leaves(3) [OF assms(1)]])

lemma bounded_script_data:
  assumes "lawful_flv env" and "derived_end env" and "N < fuel"
  shows "bytes.bounded_run N 1 (script_data_deserialize env fuel)"
  unfolding script_data_deserialize_def deserialize_is_decode
proof (rule bounded_variant [OF flv_bb [OF assms(1)]])
  fix name
  have "bytes.bounded_run M 1 (decode_value fuel (fe_marker env) (fe_bb env) bytes_buf)" if "M \<le> N" for M
    using that assms(3) by (intro bytes.bounded_decode_value flv_bb assms(1)) simp
  then have "bytes.bounded_run N 0 (collect_seq fuel (fe_marker env) (fe_bb env)
      (decode_value fuel (fe_marker env) (fe_bb env) bytes_buf) MultiValueAccess)"
    using assms(3) by (intro bounded_collect_seq flv_bb assms(1))
  with assms(2) show "bytes.bounded_run N 0 (if name = utf8_of ''onMetaData'' then bnd (fe_meta_data env) (\<lambda>m. ret (OnMetaData m))
       else if name = utf8_of ''onXMPData'' then bnd (fe_xmp_data env) (\<lambda>x. ret (OnXmpData x))
       else bnd (collect_seq fuel (fe_marker env) (fe_bb env)
           (decode_value fuel (fe_marker env) (fe_bb env) bytes_buf) MultiValueAccess) (\<lambda>vs. ret (OtherScript name vs)))"
    by (auto simp: derived_end_def intro!: bytes.bounded_bnd0 bytes.bounded_ret)
qed

lemma bounded_metadata_entry:
  assumes "lawful_flv env" and "derived_end env" and "N < fuel"
  shows "bytes.bounded_run N 1 (metadata_entry_deserialize env fuel)"
  unfolding metadata_entry_deserialize_def deserialize_is_decode
proof (rule bounded_variant [OF flv_bb [OF assms(1)]])
  fix key
  have "bytes.bounded_run N 0 (decode_value fuel (fe_marker env) (fe_bb env) bytes_buf)"
    using bytes.bounded_decode_value [OF flv_bb [OF assms(1)] assms(3)] by (rule bytes.bounded_zero)
  then show "bytes.bounded_run N 0 (if key = utf8_of ''colorInfo'' then bnd (fe_color_info env) (\<lambda>c. ret (ColorInfo c))
       else bnd (decode_value fuel (fe_marker env) (fe_bb env) bytes_buf) (\<lambda>v.
         case v of Amf0Object ps \<Rightarrow> ret (OtherMetadata key ps)
         | _ \<Rightarrow> fail (Amf0Custom ''expected VideoPacketMetadataEntry object'')))"
    using assms(2) by (auto simp: derived_end_def intro!: bytes.bounded_bnd0 bytes.bounded_ret bytes.bounded_fail split: amf0_value.split)
qed

lemma bounded_stream_next:
  assumes bo: "byteorder_reads (zc_read bytes_buf) bo" and item: "bytes.bounded_run N 1 item"
    and d: "bytes.any_marker d" "length (bytes.view d) \<le> N"
  shows "case stream_next mk bo item d of
      (Some (Inr v), d') \<Rightarrow> bytes.any_marker d' \<and> length (bytes.view d') < length (bytes.view d)
    | (Some (Inl e), d') \<Rightarrow> e \<noteq> Amf0Fuel
    | (None, d') \<Rightarrow> True"
proof -
  obtain r d1 where r: "has_remaining_value mk bo d = (r, d1)" by force
  from bytes.bounded_has_remaining [OF bo, of N mk] d r
  have 1: "case r of Inr x \<Rightarrow> bytes.any_marker d1 \<and> length (bytes.view d1) \<le> length (bytes.view d) | Inl e \<Rightarrow> e \<noteq> Amf0Fuel"
    by (fastforce simp: bytes.bounded_run_def split: sum.splits)
  show ?thesis
  proof (cases "r = Inr True")
    case True
    obtain q d2 where q: "item d1 = (q, d2)" by force
    from 1 True d(2) have "bytes.any_marker d1" "length (bytes.view d1) \<le> N" by auto
    with item q have "case q of Inr x \<Rightarrow> bytes.any_marker d2 \<and> length (bytes.view d2) + 1 \<le> length (bytes.view d1) | Inl e \<Rightarrow> e \<noteq> Amf0Fuel"
      unfolding bytes.bounded_run_def by (fastforce split: sum.splits)
    with 1 True r q show ?thesis by (auto simp: stream_next_def split: sum.splits)
  qed (use 1 r in \<open>auto simp: stream_next_def split: sum.splits bool.splits\<close>)
qed

lemma bounded_metadata_stream:
  assumes env: "lawful_flv env" "derived_end env" and fuel: "N < fuel"
  shows "M < n \<Longrightarrow> M \<le> N \<Longrightarrow> bytes.any_marker d \<Longrightarrow> length (bytes.view d) \<le> M \<Longrightarrow>
    fst (metadata_stream n env fuel d) \<noteq> Inl Amf0Fuel"
proof (induction n arbitrary: M d)
  case (Suc n)
  have item: "bytes.bounded_run M 1 (metadata_entry_deserialize env fuel)"
    using bounded_metadata_entry [OF env, of M fuel] Suc.prems(2) fuel by simp
  obtain r d1 where r: "stream_next (fe_marker env) (fe_bb env) (metadata_entry_deserialize env fuel) d = (r, d1)" by force
  note next_ = bounded_stream_next [OF flv_bb [OF env(1)] item Suc.prems(3,4), of "fe_marker env", unfolded r]
  show ?case
  proof (cases "\<exists>v. r = Some (Inr v)")
    case True
    then obtain v where v: "r = Some (Inr v)" by blast
    with next_ have "bytes.any_marker d1" "length (bytes.view d1) < length (bytes.view d)" by simp_all
    with Suc have "fst (metadata_stream n env fuel d1) \<noteq> Inl Amf0Fuel" by (intro Suc.IH [of "M - 1"]) auto
    with r v show ?thesis
      by (cases "metadata_stream n env fuel d1"; cases "fst (metadata_stream n env fuel d1)") (auto simp: bnd_def ret_def)
  qed (use r next_ in \<open>auto split: option.splits sum.splits\<close>)
qed simp

lemma flv_run_payload:
  assumes "\<And>d. bytes.any_marker d \<Longrightarrow> length (bytes.view d) \<le> length bs \<Longrightarrow> fst (m d) \<noteq> Inl Amf0Fuel"
  shows "flv_run N 0 (decode_payload m bs)"
proof -
  have "fst (m (amf0_decoder_new bs)) \<noteq> Inl Amf0Fuel"
    by (rule assms) (simp_all add: bytes.any_marker_def amf0_decoder_new_def bytes.view_def pending_def)
  then show ?thesis
    by (cases "fst (m (amf0_decoder_new bs))") (auto simp: flv_run_def decode_payload_def map_err_def run_simps)
qed

lemma flv_run_metadata:
  assumes "lawful_flv env" "derived_end env"
  shows "flv_run N 0 (decode_payload (metadata_stream (length bs + 2) env (length bs + 2)) bs)"
  by (rule flv_run_payload, rule bounded_metadata_stream [OF assms, of "length bs + 1" _ "length bs"]) auto

lemma fuel_free_script:
  assumes "lawful_flv env" "derived_end env"
  shows "fuel_free (script_data_demux env)"
  unfolding script_data_demux_def
proof (rule fuel_free_bnd [OF fuel_free_fio])
  fix buf :: "u8 list"
  have "bytes.bounded_run (length buf) 0 (script_data_deserialize env (length buf + 2))"
    using bounded_script_data [OF assms, of "length buf" "length buf + 2"] by (intro bytes.bounded_zero) simp
  from fuel_free_decode_payload [OF this] show "fuel_free (decode_payload (script_data_deserialize env (length buf + 2)) buf)"
    by (rule fuel_free_run)
qed

subsubsection \<open>Audio and video\<close>

lemma flv_run_case [flv_ends]:
  "(\<And>a b. p = (a, b) \<Longrightarrow> flv_run N k (f a b)) \<Longrightarrow> flv_run N k (case p of (a, b) \<Rightarrow> f a b)"
  by (cases p) simp

lemma flv_run_let [flv_ends]: "(\<And>x. flv_run N k (f x)) \<Longrightarrow> flv_run N k (let x = v in f x)"
  by simp

lemma flv_run_mod_ex [flv_ends]:
  assumes "lawful_flv env"
  shows "flv_run N 1 (mod_ex_data_read env)" and "flv_run N 0 (mod_ex_offset env bs)"
  unfolding mod_ex_data_read_def mod_ex_offset_def by (intro flv_ends flv_bo assms; simp)+

lemma flv_run_audio_mod_ex: "lawful_flv env \<Longrightarrow> flv_run N 1 (audio_mod_ex_demux env)"
  unfolding audio_mod_ex_demux_def by (intro flv_ends flv_bo)

lemma flv_run_video_mod_ex: "lawful_flv env \<Longrightarrow> flv_run N 1 (video_mod_ex_demux env)"
  unfolding video_mod_ex_demux_def by (intro flv_ends flv_bo)

lemma flv_run_audio_mod_exs: "lawful_flv env \<Longrightarrow> N < n \<Longrightarrow> flv_run N 0 (audio_mod_exs_demux n env ty)"
proof (induction n arbitrary: N ty)
  case (Suc n)
  have "flv_run N (1 + 0) (bnd (audio_mod_ex_demux env) (\<lambda>(m, ty). bnd (audio_mod_exs_demux n env ty) (\<lambda>(ms, ty). ret (m # ms, ty))))"
    using Suc by (intro flv_run_bnd flv_run_audio_mod_ex flv_run_case flv_run_bnd0 flv_run_ret Suc.IH) auto
  then show ?case by (auto intro: flv_run_zero flv_run_ret)
qed simp

lemma flv_run_video_mod_exs: "lawful_flv env \<Longrightarrow> N < n \<Longrightarrow> flv_run N 0 (video_mod_exs_demux n env ty)"
proof (induction n arbitrary: N ty)
  case (Suc n)
  have "flv_run N (1 + 0) (bnd (video_mod_ex_demux env) (\<lambda>(m, ty). bnd (video_mod_exs_demux n env ty) (\<lambda>(ms, ty). ret (m # ms, ty))))"
    using Suc by (intro flv_run_bnd flv_run_video_mod_ex flv_run_case flv_run_bnd0 flv_run_ret Suc.IH) auto
  then show ?case by (auto intro: flv_run_zero flv_run_ret)
qed simp

lemma flv_run_audio_header: "lawful_flv env \<Longrightarrow> flv_run N 0 (ex_audio_header_demux env)"
  unfolding ex_audio_header_demux_def
  by (intro flv_ends flv_bo flv_run_audio_mod_exs) simp_all

lemma flv_run_video_header: "lawful_flv env \<Longrightarrow> flv_run N 0 (ex_video_header_demux env)"
  unfolding ex_video_header_demux_def
  by (intro flv_ends flv_bo flv_run_video_mod_exs) simp_all

lemma flv_run_track_size: "lawful_flv env \<Longrightarrow> flv_run N 0 (track_size env multi)"
  unfolding track_size_def by (intro flv_ends flv_bo)

lemma flv_run_audio_packet: "lawful_flv env \<Longrightarrow> flv_run N 0 (audio_packet_demux env h)"
  unfolding audio_packet_demux_def multichannel_demux_def
  by (intro flv_ends flv_bo flv_run_track_size)

lemma flv_run_video_packet: "lawful_flv env \<Longrightarrow> derived_end env \<Longrightarrow> flv_run N 0 (video_packet_demux env h cc)"
  unfolding video_packet_demux_def video_sequence_start_demux_def video_coded_frames_demux_def read_i24_def
  by (intro flv_ends flv_bo flv_run_track_size flv_run_metadata)

lemma flv_run_four_cc_reads:
  "flv_run N 0 (audio_four_cc_read content)" "flv_run N 0 (video_four_cc_read content')"
  unfolding audio_four_cc_read_def video_four_cc_read_def
  by (auto split: ex_audio_content.split ex_video_content.split intro: flv_ends)

lemma flv_run_state: "(\<And>c. flv_run N k (m c)) \<Longrightarrow> flv_run N k (\<lambda>c. m c c)"
  by (simp add: flv_run_def)

lemma flv_run_audio_tracks: "lawful_flv env \<Longrightarrow> N < n \<Longrightarrow> flv_run N 0 (audio_tracks_demux n env h)"
proof (induction n arbitrary: N)
  case (Suc n)
  let ?m = "\<lambda>t c. if \<not> (case audio_content h of AudioOneTrack _ \<Rightarrow> True | _ \<Rightarrow> False) \<and> fe_has_remaining env c
      then bnd (audio_tracks_demux n env h) (\<lambda>ts. ret (t # ts)) else ret [t]"
  have track: "flv_run N 1 (audio_track_demux env h)"
  proof -
    have "flv_run N 1 (bnd (fio (bo_u8 (fe_bo env))) (\<lambda>track. bnd (audio_packet_demux env h) (\<lambda>p.
        ret \<lparr>track_audio_four_cc = cc, audio_track_id = track, audio_track_packet = p\<rparr>)))" for cc
      using Suc.prems(1) by (intro flv_ends flv_bo flv_run_audio_packet)
    then show ?thesis
      unfolding audio_track_demux_def by (rule flv_run_bnd_after [OF flv_run_four_cc_reads(1)])
  qed
  have "flv_run (N - 1) 0 (\<lambda>c. ?m t c c)" if "1 \<le> N" for t
    by (rule flv_run_state) (use Suc that in \<open>auto intro!: flv_run_bnd0 flv_run_ret Suc.IH\<close>)
  then have "flv_run N (1 + 0) (bnd (audio_track_demux env h) (\<lambda>t c. ?m t c c))"
    by (intro flv_run_bnd track)
  then show ?case
    by (simp add: if_distrib [where f = "\<lambda>m. m _"] if_distribR cong: if_cong) (erule flv_run_zero)
qed simp

lemma flv_run_video_tracks: "lawful_flv env \<Longrightarrow> derived_end env \<Longrightarrow> N < n \<Longrightarrow> flv_run N 0 (video_tracks_demux n env h)"
proof (induction n arbitrary: N)
  case (Suc n)
  let ?m = "\<lambda>t c. if \<not> (case video_content h of VideoOneTrack _ \<Rightarrow> True | _ \<Rightarrow> False) \<and> fe_has_remaining env c
      then bnd (video_tracks_demux n env h) (\<lambda>ts. ret (t # ts)) else ret [t]"
  have track: "flv_run N 1 (video_track_demux env h)"
  proof -
    have "flv_run N 1 (bnd (fio (bo_u8 (fe_bo env))) (\<lambda>track. bnd (video_packet_demux env h cc) (\<lambda>p.
        ret \<lparr>track_video_four_cc = cc, video_track_id = track, video_track_packet = p\<rparr>)))" for cc
      using Suc.prems(1,2) by (intro flv_ends flv_bo flv_run_video_packet)
    then show ?thesis
      unfolding video_track_demux_def by (rule flv_run_bnd_after [OF flv_run_four_cc_reads(2)])
  qed
  have "flv_run (N - 1) 0 (\<lambda>c. ?m t c c)" if "1 \<le> N" for t
    by (rule flv_run_state) (use Suc that in \<open>auto intro!: flv_run_bnd0 flv_run_ret Suc.IH\<close>)
  then have "flv_run N (1 + 0) (bnd (video_track_demux env h) (\<lambda>t c. ?m t c c))"
    by (intro flv_run_bnd track)
  then show ?case
    by (simp add: if_distrib [where f = "\<lambda>m. m _"] if_distribR cong: if_cong) (erule flv_run_zero)
qed simp

lemma fuel_free_audio:
  assumes env: "lawful_flv env"
  shows "fuel_free (audio_data_demux env)"
proof -
  have header: "fuel_free (audio_header_demux env)"
    unfolding audio_header_demux_def legacy_audio_header_demux_def
    by (intro flv_ends fuel_free_run [OF flv_run_audio_header [OF env]])
  have tracks: "flv_run N 0 (with_fuel (\<lambda>n. audio_tracks_demux n env h))" for N h
    by (intro flv_ends flv_run_audio_tracks env) simp
  have "fuel_free (ex_audio_body_demux env h)" for h
    unfolding ex_audio_body_demux_def
    by (auto split: ex_audio_content.split intro!: fuel_free_bnd fuel_free_ret fuel_free_run [OF tracks] fuel_free_run [OF flv_run_audio_packet [OF env]])
  then have "fuel_free (audio_body_demux env h)" for h
    unfolding audio_body_demux_def legacy_audio_body_demux_def
    by (auto split: audio_header.split intro!: fuel_free_bnd fuel_free_ret fuel_free_fio)
  with header show ?thesis unfolding audio_data_demux_def by (intro fuel_free_bnd fuel_free_ret)
qed

lemma fuel_free_video:
  assumes env: "lawful_flv env" "derived_end env"
  shows "fuel_free (video_data_demux env)"
proof -
  have header: "fuel_free (video_header_demux env)"
    unfolding video_header_demux_def legacy_video_header_demux_def legacy_avc_packet_demux_def Let_def
    by (intro flv_ends fuel_free_run [OF flv_run_video_header [OF env(1)]])
  have tracks: "flv_run N 0 (with_fuel (\<lambda>n. video_tracks_demux n env h))" for N h
    by (intro flv_ends flv_run_video_tracks env) simp
  have "fuel_free (ex_video_body_demux env h)" for h
    unfolding ex_video_body_demux_def
    by (auto split: ex_video_content.split intro!: fuel_free_bnd fuel_free_ret fuel_free_run [OF tracks] fuel_free_run [OF flv_run_video_packet [OF env]])
  then have "fuel_free (video_body_demux env h)" for h
    unfolding video_body_demux_def legacy_video_body_demux_def
    by (auto split: video_header_data.split legacy_video_header.split legacy_avc_packet.split
        intro!: fuel_free_bnd fuel_free_ret fuel_free_fio)
  with header show ?thesis unfolding video_data_demux_def by (intro fuel_free_bnd fuel_free_ret)
qed

lemma fuel_free_tag_data:
  assumes env: "lawful_flv env" "derived_end env"
  shows "fuel_free (flv_tag_data_demux env ty)"
  unfolding flv_tag_data_demux_def
  by (intro flv_ends fuel_free_audio fuel_free_video fuel_free_script env)

lemma flv_run_tag:
  assumes env: "lawful_flv env" "derived_end env"
  shows "flv_run N 1 (flv_tag_demux env)"
proof -
  have "flv_run N 0 (lift_res (fst (flv_tag_data_demux env ty c)))" for N ty c
    using fuel_free_tag_data [OF env] by (auto simp: flv_run_def fuel_free_def run_simps)
  then show ?thesis
    unfolding flv_tag_demux_def by (intro flv_ends flv_bo env)
qed

lemma flv_run_tags:
  assumes env: "lawful_flv env" "derived_end env"
  shows "N < n \<Longrightarrow> flv_run N 0 (flv_tags_demux n env)"
proof (induction n arbitrary: N)
  case (Suc n)
  let ?tag = "\<lambda>c. if \<not> fe_has_remaining env c then ret [] else
    bnd (flv_tag_demux env) (\<lambda>t. bnd (flv_tags_demux n env) (\<lambda>ts. ret (t # ts)))"
  let ?step = "\<lambda>c. if \<not> fe_has_remaining env c then ret [] else bnd (fio (bo_u32 (fe_bo env))) (\<lambda>_ c. ?tag c c)"
  have tag: "flv_run M 0 (\<lambda>c. ?tag c c)" if "M \<le> N" for M
  proof -
    have "flv_run (M - 1) 0 (bnd (flv_tags_demux n env) (\<lambda>ts. ret (t # ts)))" if "1 \<le> M" for t
      using that \<open>M \<le> N\<close> Suc.prems by (intro flv_run_bnd0 flv_run_ret Suc.IH) auto
    then have "flv_run M (1 + 0) (bnd (flv_tag_demux env) (\<lambda>t. bnd (flv_tags_demux n env) (\<lambda>ts. ret (t # ts))))"
      by (intro flv_run_bnd flv_run_tag env)
    then have "flv_run M 0 (bnd (flv_tag_demux env) (\<lambda>t. bnd (flv_tags_demux n env) (\<lambda>ts. ret (t # ts))))"
      by (rule flv_run_zero)
    then show ?thesis by (rule flv_run_state [OF flv_run_if, OF flv_run_ret])
  qed
  have "flv_run N 0 (bnd (fio (bo_u32 (fe_bo env))) (\<lambda>_ c. ?tag c c))"
    by (rule flv_run_bnd0) (use flv_run_read0 flv_bo env tag in blast)+
  then have "flv_run N 0 (\<lambda>c. ?step c c)"
    by (rule flv_run_state [OF flv_run_if, OF flv_run_ret])
  moreover have "flv_tags_demux (Suc n) env c = ?step c c" for c
    by (simp only: flv_tags_demux.simps if_distribR)
  ultimately show ?case by (simp only: flv_run_def)
qed (simp add: flv_run_def)

lemma fuel_free_state: "(\<And>c. fuel_free (m c)) \<Longrightarrow> fuel_free (\<lambda>c. m c c)"
  by (simp add: fuel_free_def)

lemma fuel_free_fail: "e \<noteq> FlvFuel \<Longrightarrow> e \<noteq> FlvAmf0 Amf0Fuel \<Longrightarrow> fuel_free (fail e)"
  by (simp add: fuel_free_def run_simps)

lemma fuel_free_if_at:
  "(\<And>c. fuelless (fst (m c))) \<Longrightarrow> (\<And>c. fuelless (fst (n c))) \<Longrightarrow> fuel_free (\<lambda>c. if b c then m c else n c)"
  by (simp add: fuel_free_def)

lemma fuel_free_header: "fuel_free (flv_header_demux env)"
proof -
  have "fuel_free (bnd (fio (extract_bytes n)) (\<lambda>x. ret (h x)))" for n and h :: "u8 list \<Rightarrow> flv_header"
    by (intro fuel_free_bnd fuel_free_fio fuel_free_ret)
  then have size: "fuelless (fst (if b then fail (InvalidDataOffset d) c else bnd (fio (extract_bytes n)) (\<lambda>x. ret (h x)) c))"
    for b d n c and h :: "u8 list \<Rightarrow> flv_header"
    by (cases b) (simp_all add: fuel_free_def run_simps)
  show ?thesis
    unfolding flv_header_demux_def Let_def
    by (rule fuel_free_state)
      (intro fuel_free_bnd [OF fuel_free_fio] fuel_free_if fuel_free_fail; use size in \<open>simp add: fuel_free_def\<close>)
qed

section \<open>Properties\<close>

text \<open>
  C29. Demuxing a file ends on every input: the loops over tags, tracks, modifiers, AMF0
  values and metadata consume at least one byte in every iteration, so the number of
  bytes bounds their iterations. The readers that serde derives for the metadata types are
  parameters of the model, and \<open>derived_end\<close> assumes that they end, too: they never run out
  of fuel, and leave no more of the input than they were given.
\<close>

theorem flv_file_demux_ends:
  assumes "lawful_flv env" and "derived_end env"
  shows "fst (flv_file_demux env c) \<noteq> Inl FlvFuel \<and> fst (flv_file_demux env c) \<noteq> Inl (FlvAmf0 Amf0Fuel)"
proof -
  note fuel_free_header [of env]
  moreover have "fuel_free (with_fuel (\<lambda>n. flv_tags_demux n env))"
    by (rule fuel_free_run [where k = 0]) (intro flv_ends flv_run_tags assms, simp)
  ultimately have "fuel_free (flv_file_demux env)"
    unfolding flv_file_demux_def by (intro fuel_free_bnd fuel_free_ret)
  then show ?thesis by (simp add: fuel_free_def fuelless_def)
qed

text \<open>
  An environment for concrete runs: the operations of the libraries, and readers of derived
  types that fail.
\<close>

definition flv_sample_env :: flv_env where
  "flv_sample_env = \<lparr>fe_bo = be_reads cursor_read, fe_bits = be_reads (bit_reader_read cursor_read),
     fe_bb = be_reads bytes_read, fe_remaining = remaining, fe_has_remaining = (\<lambda>c. cursor_rest c \<noteq> []),
     fe_marker = marker_from_u8, fe_meta_data = fail (Amf0Custom ''missing''),
     fe_xmp_data = fail (Amf0Custom ''missing''), fe_color_info = fail (Amf0Custom ''missing'')\<rparr>"

lemma flv_sample_lawful: "lawful_flv flv_sample_env"
  unfolding lawful_flv_def flv_sample_env_def flv_env.select_convs
  by (intro conjI byteorder_reads_be_reads marker_conversion_from_u8 refl allI)

lemma flv_sample_derived: "derived_end flv_sample_env"
  unfolding derived_end_def flv_sample_env_def flv_env.select_convs
  by (simp add: bytes.bounded_fail)

theorem flv_file_demux_ends_witness:
  "fst (flv_file_demux flv_sample_env (cursor_new [0x46, 0x4C, 0x56])) \<noteq> Inl FlvFuel \<and>
   fst (flv_file_demux flv_sample_env (cursor_new [0x46, 0x4C, 0x56])) \<noteq> Inl (FlvAmf0 Amf0Fuel)"
  by (rule flv_file_demux_ends [OF flv_sample_lawful flv_sample_derived])

end
