(* ===== verification/Flv_Format.thy ===== *)
theory Flv_Format
  imports Flv_Props
begin

text \<open>
  What the demuxer of FLV makes of files, enhanced audio tags and video sequence headers
  that are written as their formats say.
\<close>

subsection \<open>Runs on known bytes\<close>

text \<open>
  \<open>runs m bs r rest\<close>: on a cursor with \<open>bs\<close> to come, \<open>m\<close> returns \<open>r\<close> and leaves \<open>rest\<close>.
\<close>

definition runs :: "'a flv \<Rightarrow> u8 list \<Rightarrow> (flv_error + 'a) \<Rightarrow> u8 list \<Rightarrow> bool" where
  "runs m bs r rest \<longleftrightarrow> (\<forall>c. cursor_rest c = bs \<longrightarrow> (\<exists>c'. m c = (r, c') \<and> cursor_rest c' = rest))"

named_theorems flv_runs

lemma runsE:
  assumes "runs m (cursor_rest c) r rest"
  obtains c' where "m c = (r, c')" "cursor_rest c' = rest"
  using assms unfolding runs_def by blast

lemma runs_at:
  assumes "cursor_rest c = bs" and "runs m bs r rest"
  obtains c' where "m c = (r, c')" "cursor_rest c' = rest"
  using assms unfolding runs_def by blast

lemma bnd_at: "m c = (Inr x, c') \<Longrightarrow> bnd m f c = f x c'"
  by (simp add: bnd_def)

lemma fst_bnd_ret: "fst (bnd m (\<lambda>x. ret (g x)) c) = rbind (fst (m c)) (\<lambda>x. Inr (g x))"
  by (cases "m c"; cases "fst (m c)") (auto simp: bnd_def ret_def)

lemma runs_fst: "runs m (cursor_rest c) r rest \<Longrightarrow> fst (m c) = r"
  by (auto elim: runsE)

lemma runs_bnd [flv_runs]: "runs m bs (Inr x) cs \<Longrightarrow> runs (f x) cs r rest \<Longrightarrow> runs (bnd m f) bs r rest"
  unfolding runs_def by (fastforce simp: bnd_def)

lemma runs_ret [flv_runs]: "runs (ret x) bs (Inr x) bs"
  by (simp add: runs_def ret_def)

lemma runs_ret_eq: "x = y \<Longrightarrow> runs (ret x) bs (Inr y) bs"
  by (simp add: runs_ret)

lemma runs_lift [flv_runs]: "runs (lift_res r) bs r bs"
  by (simp add: runs_def lift_res_def)

lemma runs_case [flv_runs]: "runs (f a b) bs r rest \<Longrightarrow> runs (case (a, b) of (x, y) \<Rightarrow> f x y) bs r rest"
  by simp

lemma runs_sdec: "cur.sdec m as x \<Longrightarrow> runs (fio m) (as @ bs) (Inr x) bs"
  unfolding runs_def by (auto simp: fio_Inr elim!: cur.sdecE)

lemma runs_read:
  assumes "lawful_flv env"
  shows "runs (fio (bo_u8 (fe_bo env))) (b # bs) (Inr b) bs"
    and "runs (fio (bo_u16 (fe_bo env))) (be_bytes 2 v @ bs) (Inr v) bs"
    and "runs (fio (bo_u24 (fe_bo env))) (be_bytes 3 w @ bs) (Inr (take_bit 24 w)) bs"
    and "runs (fio (bo_u32 (fe_bo env))) (be_bytes 4 u @ bs) (Inr u) bs"
  using runs_sdec [OF cur.sdec_bo(1) [OF flv_bo [OF assms]], of b bs]
    runs_sdec [OF cur.sdec_bo(2) [OF flv_bo [OF assms]], of v bs]
    runs_sdec [OF cur.sdec_bo(3) [OF flv_bo [OF assms]], of w bs]
    runs_sdec [OF cur.sdec_bo(4) [OF flv_bo [OF assms]], of u bs]
  by (simp_all add: be_bytes_def)

lemma runs_u24:
  "lawful_flv env \<Longrightarrow> unat u < 2 ^ 24 \<Longrightarrow> runs (fio (bo_u24 (fe_bo env))) (be_bytes 3 u @ bs) (Inr u) bs"
  using runs_read(3) [of env u bs] take_bit_ucast_id [of u 24, where 'a = 32] by simp

lemma runs_extract: "length as = n \<Longrightarrow> runs (fio (extract_bytes n)) (as @ bs) (Inr as) bs"
  by (rule runs_sdec [OF sdec_extract_bytes])

lemma runs_extract_remaining: "runs (fio extract_remaining) bs (Inr bs) []"
  by (auto simp: runs_def fio_Inr extract_remaining_run cursor_rest_def remaining_def)

lemma runs_four_cc: "length cc = 4 \<Longrightarrow> runs four_cc_read (cc @ bs) (Inr cc) bs"
  unfolding four_cc_read_def by (rule runs_sdec [OF cur.sdec_read_exact])

lemma runs_with_fuel: "runs (m (length bs + 1)) bs r rest \<Longrightarrow> runs (with_fuel m) bs r rest"
  by (auto simp: runs_def with_fuel_def)

text \<open>The headers look at their first byte and seek back.\<close>

lemma peek_new:
  assumes "lawful_flv env"
  shows "bnd (fio (bo_u8 (fe_bo env))) (\<lambda>b. bnd (fio (cursor_seek (SeekCurrent (-1)))) (\<lambda>_. f b)) (cursor_new (b # bs)) =
    f b (cursor_new (b # bs))"
proof -
  have "bo_u8 (fe_bo env) = be_read cursor_read 1"
    using flv_bo [OF assms] by (simp add: byteorder_reads_def)
  moreover have "be_read cursor_read 1 (cursor_new (b # bs)) = (Inr b, \<lparr>cur_data = b # bs, cur_pos = 1\<rparr>)"
    using be_read_1_cursor [of "cursor_new (b # bs)" b bs] by (simp add: cursor_new_def cursor_rest_def)
  ultimately show ?thesis
    by (simp add: fio_def map_err_def bnd_def cursor_new_def Let_def)
qed

subsection \<open>Frames\<close>

text \<open>
  A tag as it stands in a file: the first byte with the type and the encryption bit, the
  length of the data, the timestamp with its upper byte behind the lower three, the stream
  and the data.
\<close>

record flv_frame =
  frame_first :: u8
  frame_timestamp :: u32
  frame_stream :: u32
  frame_data :: "u8 list"

definition frame_ok :: "flv_frame \<Rightarrow> bool" where
  "frame_ok f \<longleftrightarrow> unat (frame_stream f) < 2 ^ 24 \<and> length (frame_data f) < 2 ^ 24"

definition frame_bytes :: "flv_frame \<Rightarrow> u8 list" where
  "frame_bytes f = frame_first f # be_bytes 3 (of_nat (length (frame_data f)) :: u32) @
     be_bytes 3 (frame_timestamp f) @ ucast (drop_bit 24 (frame_timestamp f)) #
     be_bytes 3 (frame_stream f) @ frame_data f"

definition frame_tag :: "flv_env \<Rightarrow> flv_frame \<Rightarrow> flv_error + flv_tag" where
  "frame_tag env f = rbind
     (if frame_first f AND 0x20 = 0
      then fst (flv_tag_data_demux env (frame_first f AND 0x1F) (cursor_new (frame_data f)))
      else Inr (EncryptedTag (frame_data f)))
     (\<lambda>d. Inr \<lparr>tag_timestamp_ms = frame_timestamp f, tag_stream_id = frame_stream f, tag_data = d\<rparr>)"

fun frames_tags :: "flv_env \<Rightarrow> flv_frame list \<Rightarrow> flv_error + flv_tag list" where
  "frames_tags env [] = Inr []"
| "frames_tags env (f # fs) = rbind (frame_tag env f) (\<lambda>t. rbind (frames_tags env fs) (\<lambda>ts. Inr (t # ts)))"

lemma timestamp_join: "take_bit 24 w OR push_bit 24 (ucast (ucast (drop_bit 24 w) :: u8)) = (w :: u32)"
proof (rule bit_word_eqI)
  fix n
  assume "n < LENGTH(32)"
  then show "bit (take_bit 24 w OR push_bit 24 (ucast (ucast (drop_bit 24 w) :: u8))) n = bit w n"
    by (cases "n < 24") (auto simp: bit_simps)
qed

lemma runs_tag:
  assumes env: "lawful_flv env" and f: "frame_ok f"
  shows "runs (flv_tag_demux env) (frame_bytes f @ bs) (frame_tag env f) bs"
proof -
  let ?data = "if frame_first f AND 0x20 = 0
      then fst (flv_tag_data_demux env (frame_first f AND 0x1F) (cursor_new (frame_data f)))
      else Inr (EncryptedTag (frame_data f))"
  have m: "(if frame_first f AND 0x20 = 0
      then lift_res (fst (flv_tag_data_demux env (frame_first f AND 0x1F) (cursor_new (frame_data f))))
      else ret (EncryptedTag (frame_data f))) = (lift_res ?data :: flv_tag_data flv)"
    by (simp add: lift_res_def ret_def fun_eq_iff)
  have size: "unat (of_nat (length (frame_data f)) :: u32) = length (frame_data f)"
    using f by (simp add: frame_ok_def unat_of_nat)
  have last: "runs (bnd (lift_res ?data) (\<lambda>d. ret \<lparr>tag_timestamp_ms = take_bit 24 (frame_timestamp f) OR
      push_bit 24 (ucast (ucast (drop_bit 24 (frame_timestamp f)) :: u8)), tag_stream_id = frame_stream f, tag_data = d\<rparr>))
      bs (frame_tag env f) bs"
    unfolding timestamp_join frame_tag_def by (cases ?data) (simp_all add: runs_def run_simps del: if_split_asm split del: if_split)
  have "runs (flv_tag_demux env) (frame_first f # be_bytes 3 (of_nat (length (frame_data f)) :: u32) @
     be_bytes 3 (frame_timestamp f) @ ucast (drop_bit 24 (frame_timestamp f)) #
     be_bytes 3 (frame_stream f) @ frame_data f @ bs) (frame_tag env f) bs"
    unfolding flv_tag_demux_def
    apply (rule runs_bnd [OF runs_read(1) [OF env]])
    apply (rule runs_bnd [OF runs_u24 [OF env]])
     apply (use f size in \<open>simp add: frame_ok_def\<close>)
    apply (rule runs_bnd [OF runs_read(3) [OF env]])
    apply (rule runs_bnd [OF runs_read(1) [OF env]])
    apply (rule runs_bnd [OF runs_u24 [OF env]])
     apply (use f in \<open>simp add: frame_ok_def\<close>)
    apply (rule runs_bnd [OF runs_extract])
     apply (simp add: size)
    apply (subst m)
    apply (rule last)
    done
  then show ?thesis by (simp add: frame_bytes_def)
qed

text \<open>In a file, the size of the tag before, which is not looked at, stands before each tag and at the end.\<close>

definition frames_bytes :: "(u32 \<times> flv_frame) list \<Rightarrow> u8 list" where
  "frames_bytes fs = concat (map (\<lambda>(prev, f). be_bytes 4 prev @ frame_bytes f) fs)"

definition trailer_bytes :: "u32 option \<Rightarrow> u8 list" where
  "trailer_bytes trailer = (case trailer of None \<Rightarrow> [] | Some prev \<Rightarrow> be_bytes 4 prev)"

lemma frames_bytes_simps: "frames_bytes [] = []" "frames_bytes ((prev, f) # fs) = be_bytes 4 prev @ frame_bytes f @ frames_bytes fs"
  by (simp_all add: frames_bytes_def)

lemma frames_length: "length fs \<le> length (frames_bytes fs)"
  by (induction fs) (auto simp: frames_bytes_simps)

lemma fst_bnd_runs: "runs m (cursor_rest c) (Inr x) cs \<Longrightarrow> (\<And>c'. cursor_rest c' = cs \<Longrightarrow> fst (f x c') = r) \<Longrightarrow> fst (bnd m f c) = r"
  by (auto elim!: runsE simp: bnd_def)

lemma tags_result:
  assumes env: "lawful_flv env"
  shows "length fs < n \<Longrightarrow> list_all (frame_ok \<circ> snd) fs \<Longrightarrow>
    cursor_rest c = frames_bytes fs @ trailer_bytes trailer \<Longrightarrow>
    fst (flv_tags_demux n env c) = frames_tags env (map snd fs)"
proof (induction n arbitrary: fs c)
  case (Suc n)
  have more: "fe_has_remaining env c \<longleftrightarrow> cursor_rest c \<noteq> []" for c using env by (simp add: lawful_flv_def)
  have nz: "be_bytes 4 prev \<noteq> []" for prev :: u32 by (simp flip: length_0_conv)
  show ?case
  proof (cases fs)
    case Nil
    show ?thesis
    proof (cases trailer)
      case None
      with Nil Suc.prems(3) show ?thesis by (simp add: frames_bytes_simps trailer_bytes_def more run_simps)
    next
      case (Some prev)
      with Nil Suc.prems(3) have rest: "cursor_rest c = be_bytes 4 prev @ []" by (simp add: frames_bytes_simps trailer_bytes_def)
      with nz have "fe_has_remaining env c" by (simp add: more)
      moreover have "runs (fio (bo_u32 (fe_bo env))) (cursor_rest c) (Inr prev) []"
        unfolding rest by (rule runs_read(4) [OF env])
      then obtain c1 where "fio (bo_u32 (fe_bo env)) c = (Inr prev, c1)" "cursor_rest c1 = []" by (rule runsE)
      ultimately show ?thesis using Nil by (simp add: more run_simps)
    qed
  next
    case (Cons a fs')
    obtain prev f where a: "a = (prev, f)" by (cases a)
    let ?rest = "frames_bytes fs' @ trailer_bytes trailer"
    have rest: "cursor_rest c = be_bytes 4 prev @ frame_bytes f @ ?rest"
      using Suc.prems(3) by (simp add: Cons a frames_bytes_simps)
    with nz have "fe_has_remaining env c" by (simp add: more)
    moreover have "runs (fio (bo_u32 (fe_bo env))) (cursor_rest c) (Inr prev) (frame_bytes f @ ?rest)"
      unfolding rest by (rule runs_read(4) [OF env])
    then obtain c1 where c1: "fio (bo_u32 (fe_bo env)) c = (Inr prev, c1)" "cursor_rest c1 = frame_bytes f @ ?rest" by (rule runsE)
    moreover have "fe_has_remaining env c1" by (simp add: more c1 frame_bytes_def)
    moreover have "runs (flv_tag_demux env) (cursor_rest c1) (frame_tag env f) ?rest"
      unfolding c1(2) by (rule runs_tag [OF env]) (use Suc.prems(2) in \<open>simp add: Cons a\<close>)
    then obtain c2 where c2: "flv_tag_demux env c1 = (frame_tag env f, c2)" "cursor_rest c2 = ?rest" by (rule runsE)
    moreover have "fst (flv_tags_demux n env c2) = frames_tags env (map snd fs')"
      using Suc.prems(1,2) by (intro Suc.IH c2(2)) (simp_all add: Cons)
    ultimately show ?thesis
      by (cases "frame_tag env f"; cases "flv_tags_demux n env c2"; cases "frames_tags env (map snd fs')")
        (auto simp: Cons a run_simps)
  qed
qed simp

definition flv_header_bytes :: "flv_header \<Rightarrow> u8 list" where
  "flv_header_bytes h = be_bytes 3 FLV_SIGNATURE @
     [flv_version h, (if is_audio_present h then 4 else 0) OR (if is_video_present h then 1 else 0)] @
     be_bytes 4 (of_nat (9 + length (flv_extra h)) :: u32) @ flv_extra h"

lemma bo_pos:
  assumes "lawful_flv env"
  shows "fio (bo_u8 (fe_bo env)) c = (Inr b, c') \<Longrightarrow> cur_pos c' = cur_pos c + 1"
    and "fio (bo_u24 (fe_bo env)) c = (Inr w, c') \<Longrightarrow> cur_pos c' = cur_pos c + 3"
    and "fio (bo_u32 (fe_bo env)) c = (Inr w, c') \<Longrightarrow> cur_pos c' = cur_pos c + 4"
proof -
  have pos: "cur_pos c' = cur_pos c + n" if "read_exact cursor_read n c = (Inr bs, c')" for n bs
    using that cur.read_exact_eof [of c n] read_exact_cursor_ok [of n c] by (cases "n \<le> remaining c") auto
  show "fio (bo_u8 (fe_bo env)) c = (Inr b, c') \<Longrightarrow> cur_pos c' = cur_pos c + 1"
    "fio (bo_u24 (fe_bo env)) c = (Inr w, c') \<Longrightarrow> cur_pos c' = cur_pos c + 3"
    "fio (bo_u32 (fe_bo env)) c = (Inr w, c') \<Longrightarrow> cur_pos c' = cur_pos c + 4"
    using flv_bo [OF assms]
    by (auto simp: fio_Inr byteorder_reads_def be_read_def run_simps elim!: bnd_InrE dest!: pos)
qed

lemma header_result:
  assumes env: "lawful_flv env" and len: "length (flv_extra h) < 2 ^ 31"
  shows "runs (flv_header_demux env) (flv_header_bytes h @ bs) (Inr h) bs"
  unfolding runs_def
proof (intro allI impI)
  fix c
  assume "cursor_rest c = flv_header_bytes h @ bs"
  let ?flags = "(if is_audio_present h then 4 else 0) OR (if is_video_present h then 1 else 0) :: u8"
  obtain off :: u32 where off_eq: "off = of_nat (9 + length (flv_extra h))" by blast
  have 0: "cursor_rest c = be_bytes 3 FLV_SIGNATURE @ flv_version h # ?flags # be_bytes 4 off @ flv_extra h @ bs"
    using \<open>cursor_rest c = _\<close> by (simp add: flv_header_bytes_def off_eq)
  have "runs (fio (bo_u24 (fe_bo env))) (cursor_rest c) (Inr FLV_SIGNATURE) (flv_version h # ?flags # be_bytes 4 off @ flv_extra h @ bs)"
    unfolding 0 by (rule runs_u24 [OF env]) (simp add: FLV_SIGNATURE_def)
  then obtain c1 where 1: "fio (bo_u24 (fe_bo env)) c = (Inr FLV_SIGNATURE, c1)"
    "cursor_rest c1 = flv_version h # ?flags # be_bytes 4 off @ flv_extra h @ bs" by (rule runsE)
  obtain c2 where 2: "fio (bo_u8 (fe_bo env)) c1 = (Inr (flv_version h), c2)"
    "cursor_rest c2 = ?flags # be_bytes 4 off @ flv_extra h @ bs"
    by (rule runs_at [OF 1(2) runs_read(1) [OF env]])
  obtain c3 where 3: "fio (bo_u8 (fe_bo env)) c2 = (Inr ?flags, c3)" "cursor_rest c3 = be_bytes 4 off @ flv_extra h @ bs"
    by (rule runs_at [OF 2(2) runs_read(1) [OF env]])
  obtain c4 where 4: "fio (bo_u32 (fe_bo env)) c3 = (Inr off, c4)" "cursor_rest c4 = flv_extra h @ bs"
    by (rule runs_at [OF 3(2) runs_read(4) [OF env]])
  obtain c5 where 5: "fio (extract_bytes (length (flv_extra h))) c4 = (Inr (flv_extra h), c5)" "cursor_rest c5 = bs"
    by (rule runs_at [OF 4(2) runs_extract [OF refl]])
  have size: "cur_pos c4 - cur_pos c = 9"
    using bo_pos(2) [OF env 1(1)] bo_pos(1) [OF env 2(1)] bo_pos(1) [OF env 3(1)] bo_pos(3) [OF env 4(1)] by simp
  have off: "unat off = 9 + length (flv_extra h)"
  proof -
    have "unat (of_nat n :: u32) = n" if "n < 2 ^ 32" for n using that by (simp add: unat_of_nat)
    from this [of "9 + length (flv_extra h)"] len show ?thesis by (simp add: off_eq)
  qed
  have flags: "?flags AND 4 \<noteq> 0 \<longleftrightarrow> is_audio_present h" "?flags AND 1 \<noteq> 0 \<longleftrightarrow> is_video_present h"
    by (cases "is_audio_present h"; cases "is_video_present h"; simp)+
  show "\<exists>c'. flv_header_demux env c = (Inr h, c') \<and> cursor_rest c' = bs"
        unfolding flv_header_demux_def
    by (simp add: bnd_at 1(1) 2(1) 3(1) 4(1) 5 size off flags ret_def Let_def)
qed


section \<open>Properties\<close>

text \<open>
  C30. A file is demuxed frame by frame: the result is the header and, for each tag in order,
  what its type, its data and nothing else say; the timestamp is put together from its
  four bytes; the sizes between the tags are not looked at, with or without one at the end,
  and the first tag that fails decides the error.
\<close>

theorem flv_file_demux_frames:
  assumes "lawful_flv env" and "length (flv_extra h) < 2 ^ 31" and "list_all (frame_ok \<circ> snd) fs"
  shows "fst (flv_file_demux env (cursor_new (flv_header_bytes h @ frames_bytes fs @ trailer_bytes trailer))) =
    rbind (frames_tags env (map snd fs)) (\<lambda>ts. Inr \<lparr>file_header = h, file_tags = ts\<rparr>)"
proof -
  let ?bs = "frames_bytes fs @ trailer_bytes trailer"
  obtain c where c: "flv_header_demux env (cursor_new (flv_header_bytes h @ ?bs)) = (Inr h, c)" "cursor_rest c = ?bs"
    by (rule runs_at [OF cursor_rest_new header_result [OF assms(1,2)]])
  have "length fs < length (cursor_rest c) + 1"
    using frames_length [of fs] unfolding c(2) by simp
  from tags_result [OF assms(1) this assms(3) c(2)]
  have "fst (with_fuel (\<lambda>n. flv_tags_demux n env) c) = frames_tags env (map snd fs)"
    by (simp add: with_fuel_def)
  then show ?thesis
    using c(1) by (simp add: flv_file_demux_def bnd_at fst_bnd_ret)
qed

theorem flv_file_demux_frames_witness:
  "fst (flv_file_demux flv_sample_env (cursor_new (flv_header_bytes \<lparr>flv_version = 1, is_audio_present = True,
      is_video_present = False, flv_extra = [7]\<rparr> @
      frames_bytes [(0, \<lparr>frame_first = 0x28, frame_timestamp = 0x01000002, frame_stream = 0, frame_data = [5, 6]\<rparr>)] @
      trailer_bytes (Some 13)))) =
    Inr \<lparr>file_header = \<lparr>flv_version = 1, is_audio_present = True, is_video_present = False, flv_extra = [7]\<rparr>,
      file_tags = [\<lparr>tag_timestamp_ms = 0x01000002, tag_stream_id = 0, tag_data = EncryptedTag [5, 6]\<rparr>]\<rparr>"
  by (subst flv_file_demux_frames [OF flv_sample_lawful]) (simp_all add: frame_ok_def frame_tag_def)

end
