(* ===== verification/Flv_Audio.thy ===== *)
theory Flv_Audio
  imports Flv_Format
begin

text \<open>
  The enhanced audio format: the bytes of a header with its modifiers and of a body with its
  tracks, and the demuxer on them.
\<close>

text \<open>
  The bytes of a header and a body of the enhanced format. A modifier announces the type of
  what follows it; tracks have their size, but for a single one.
\<close>

definition nibble_pair :: "u8 \<Rightarrow> u8 \<Rightarrow> u8" where
  "nibble_pair a b = push_bit 4 a OR b"

definition mod_size_bytes :: "nat \<Rightarrow> u8 list" where
  "mod_size_bytes n = (if n \<le> 255 then [of_nat (n - 1)] else 255 # be_bytes 2 (of_nat (n - 1) :: u16))"

fun audio_mod_ok :: "audio_mod_ex \<Rightarrow> bool" where
  "audio_mod_ok (AudioTimestampOffset off) \<longleftrightarrow> unat off < 2 ^ 24"
| "audio_mod_ok (OtherAudioModEx ty bs) \<longleftrightarrow> 0 < unat ty \<and> unat ty < 16 \<and> 0 < length bs \<and> length bs \<le> 65536"

fun audio_mod_bytes :: "audio_mod_ex \<Rightarrow> u8 \<Rightarrow> u8 list" where
  "audio_mod_bytes (AudioTimestampOffset off) next = 2 # be_bytes 3 off @ [next]"
| "audio_mod_bytes (OtherAudioModEx ty bs) next = mod_size_bytes (length bs) @ bs @ [nibble_pair ty next]"

definition mods_type :: "'m list \<Rightarrow> u8 \<Rightarrow> u8" where
  "mods_type ms ty = (if ms = [] then ty else AudioModEx)"

fun audio_mods_bytes :: "audio_mod_ex list \<Rightarrow> u8 \<Rightarrow> u8 list" where
  "audio_mods_bytes [] ty = []"
| "audio_mods_bytes (m # ms) ty = audio_mod_bytes m (mods_type ms ty) @ audio_mods_bytes ms ty"

fun audio_content_bytes :: "ex_audio_content \<Rightarrow> u8 \<Rightarrow> u8 list" where
  "audio_content_bytes (AudioNoMultiTrack cc) ty = cc"
| "audio_content_bytes (AudioOneTrack cc) ty = (nibble_pair AvOneTrack ty) # cc"
| "audio_content_bytes (AudioManyTracks cc) ty = (nibble_pair AvManyTracks ty) # cc"
| "audio_content_bytes AudioManyTracksManyCodecs ty = [nibble_pair AvManyTracksManyCodecs ty]"
| "audio_content_bytes (AudioUnknownTracks multi cc) ty = (nibble_pair multi ty) # cc"

fun audio_content_ok :: "ex_audio_content \<Rightarrow> bool" where
  "audio_content_ok (AudioNoMultiTrack cc) \<longleftrightarrow> length cc = 4"
| "audio_content_ok (AudioOneTrack cc) \<longleftrightarrow> length cc = 4"
| "audio_content_ok (AudioManyTracks cc) \<longleftrightarrow> length cc = 4"
| "audio_content_ok AudioManyTracksManyCodecs \<longleftrightarrow> True"
| "audio_content_ok (AudioUnknownTracks multi cc) \<longleftrightarrow> 2 < unat multi \<and> unat multi < 16 \<and> length cc = 4"

definition outer_type :: "ex_audio_header \<Rightarrow> u8" where
  "outer_type h = (case audio_content h of AudioNoMultiTrack _ \<Rightarrow> audio_packet_type h | _ \<Rightarrow> AudioMultitrack)"

definition ex_audio_header_ok :: "ex_audio_header \<Rightarrow> bool" where
  "ex_audio_header_ok h \<longleftrightarrow> list_all audio_mod_ok (audio_mod_exs h) \<and> unat (audio_packet_type h) < 16 \<and>
     audio_packet_type h \<noteq> AudioModEx \<and> audio_packet_type h \<noteq> AudioMultitrack \<and> audio_content_ok (audio_content h)"

definition ex_audio_header_bytes :: "ex_audio_header \<Rightarrow> u8 list" where
  "ex_audio_header_bytes h = nibble_pair 9 (mods_type (audio_mod_exs h) (outer_type h)) #
     audio_mods_bytes (audio_mod_exs h) (outer_type h) @ audio_content_bytes (audio_content h) (audio_packet_type h)"

lemma nibbles:
  assumes "unat (a :: u8) < 16" and "unat b < 16"
  shows "drop_bit 4 (nibble_pair a b) = a" and "nibble_pair a b AND 0x0F = b"
proof -
  have a: "take_bit 4 a = a" and b: "take_bit 4 b = b"
    using assms take_bit_ucast_id [of a 4, where 'a = 8] take_bit_ucast_id [of b 4, where 'a = 8] by simp_all
  have mask: "(0x0F :: u8) = mask 4" by (simp add: mask_eq_exp_minus_1)
  have hi: "n < 4" if "bit a n" for n using that a by (metis bit_take_bit_iff)
  have lo: "n < 4" if "bit b n" for n using that b by (metis bit_take_bit_iff)
  show "drop_bit 4 (nibble_pair a b) = a"
    unfolding nibble_pair_def by (rule bit_word_eqI) (auto simp: bit_simps dest: hi lo)
  show "nibble_pair a b AND 0x0F = b"
    unfolding mask nibble_pair_def by (rule bit_word_eqI) (auto simp: bit_simps dest: hi lo)
qed

lemma nibble0: "unat (b :: u8) < 16 \<Longrightarrow> drop_bit 4 b = 0" and nibble_self: "unat (b :: u8) < 16 \<Longrightarrow> b AND 0x0F = b"
  using nibbles [of 0 b] by (simp_all add: nibble_pair_def)

lemma audio_types [simp]:
  "unat AudioModEx = 7" "unat AudioMultitrack = 5" "AudioMultitrack \<noteq> AudioModEx"
  "unat AvOneTrack = 0" "unat AvManyTracks = 1" "unat AvManyTracksManyCodecs = 2" "AvOneTrack \<noteq> AvManyTracksManyCodecs"
  "AvManyTracks \<noteq> AvManyTracksManyCodecs" "AvManyTracks \<noteq> AvOneTrack" "AvManyTracksManyCodecs \<noteq> AvOneTrack"
  "AvManyTracksManyCodecs \<noteq> AvManyTracks"
  by (simp_all add: AudioModEx_def AudioMultitrack_def AvOneTrack_def AvManyTracks_def AvManyTracksManyCodecs_def)

lemma runs_mod_data:
  assumes env: "lawful_flv env" and bs: "0 < length bs" "length bs \<le> 65536"
  shows "runs (mod_ex_data_read env) (mod_size_bytes (length bs) @ bs @ rest) (Inr bs) rest"
proof (cases "length bs \<le> 255")
  case True
  have n: "unat (of_nat (length bs - 1) :: u8) + 1 = length bs" using True bs by (simp add: unat_of_nat)
  have "runs (mod_ex_data_read env) (of_nat (length bs - 1) # bs @ rest) (Inr bs) rest"
    unfolding mod_ex_data_read_def
    by (rule runs_bnd [OF runs_read(1) [OF env]], unfold n) (use True in \<open>auto intro!: runs_bnd runs_ret runs_extract\<close>)
  with True show ?thesis by (simp add: mod_size_bytes_def)
next
  case False
  obtain k where k: "length bs = Suc k" using bs(1) by (cases "length bs") simp_all
  with bs(2) have n: "unat (of_nat (length bs - 1) :: u16) + 1 = length bs" by (simp add: unat_of_nat)
  have "runs (mod_ex_data_read env) (255 # be_bytes 2 (of_nat (length bs - 1) :: u16) @ bs @ rest) (Inr bs) rest"
    unfolding mod_ex_data_read_def
    by (rule runs_bnd [OF runs_read(1) [OF env]])
      (use n in \<open>auto intro!: runs_bnd [OF runs_bnd [OF runs_read(2) [OF env] runs_ret]] runs_extract simp: k\<close>)
  with False show ?thesis by (simp add: mod_size_bytes_def)
qed

lemma mod_ex_offset_value:
  assumes env: "lawful_flv env" and "unat off < 2 ^ 24"
  shows "runs (mod_ex_offset env (be_bytes 3 off)) rest (Inr off) rest"
proof -
  have "runs (fio (bo_u24 (fe_bo env))) (be_bytes 3 off @ []) (Inr off) []"
    by (rule runs_u24 [OF assms])
  then obtain c where "fio (bo_u24 (fe_bo env)) (cursor_new (be_bytes 3 off)) = (Inr off, c)"
    by (auto intro: runs_at [OF cursor_rest_new])
  then show ?thesis
    by (cases "bo_u24 (fe_bo env) (cursor_new (be_bytes 3 off))")
      (simp add: mod_ex_offset_def runs_def lift_res_def fio_def map_err_def split: sum.splits)
qed

lemma runs_audio_mod:
  assumes env: "lawful_flv env" and m: "audio_mod_ok m" and ty: "unat ty < 16"
  shows "runs (audio_mod_ex_demux env) (audio_mod_bytes m ty @ rest) (Inr (m, ty)) rest"
proof (cases m)
  case (AudioTimestampOffset off)
  with m have off: "unat off < 2 ^ 24" by simp
  have "runs (mod_ex_data_read env) (2 # be_bytes 3 off @ ty # rest) (Inr (be_bytes 3 off)) (ty # rest)"
    using runs_mod_data [OF env, of "be_bytes 3 off" "ty # rest"] by (simp add: mod_size_bytes_def)
  moreover have "drop_bit 4 ty = AudioTimestampOffsetNano" "ty AND 0x0F = ty"
    using ty by (simp_all add: nibble0 nibble_self AudioTimestampOffsetNano_def)
  ultimately have "runs (audio_mod_ex_demux env) (2 # be_bytes 3 off @ ty # rest) (Inr (m, ty)) rest"
    unfolding audio_mod_ex_demux_def AudioTimestampOffset
    by (auto intro!: runs_bnd runs_read(1) [OF env] mod_ex_offset_value [OF env off] runs_ret)
  then show ?thesis by (simp add: AudioTimestampOffset)
next
  case (OtherAudioModEx k bs)
  with m have ok: "0 < unat k" "unat k < 16" "0 < length bs" "length bs \<le> 65536" by simp_all
  have "runs (mod_ex_data_read env) (mod_size_bytes (length bs) @ bs @ (nibble_pair k ty) # rest) (Inr bs) ((nibble_pair k ty) # rest)"
    by (rule runs_mod_data [OF env ok(3,4)])
  moreover have "k \<noteq> AudioTimestampOffsetNano" using ok(1) by (auto simp: AudioTimestampOffsetNano_def)
  ultimately have "runs (audio_mod_ex_demux env) (mod_size_bytes (length bs) @ bs @ (nibble_pair k ty) # rest) (Inr (m, ty)) rest"
    unfolding audio_mod_ex_demux_def OtherAudioModEx
    by (auto intro!: runs_bnd runs_read(1) [OF env] runs_ret simp: nibbles ok ty)
  then show ?thesis by (simp add: OtherAudioModEx)
qed

lemma runs_audio_mods:
  assumes env: "lawful_flv env" and ty: "unat ty < 16" "ty \<noteq> AudioModEx"
  shows "list_all audio_mod_ok ms \<Longrightarrow> length ms < n \<Longrightarrow>
    runs (audio_mod_exs_demux n env (mods_type ms ty)) (audio_mods_bytes ms ty @ rest) (Inr (ms, ty)) rest"
proof (induction ms arbitrary: n)
  case Nil
  then show ?case using ty by (cases n) (simp_all add: mods_type_def runs_ret)
next
  case (Cons m ms)
  then obtain k where n: "n = Suc k" by (cases n) auto
  have "unat (mods_type ms ty) < 16" using ty by (simp add: mods_type_def)
  then have "runs (audio_mod_ex_demux env) (audio_mod_bytes m (mods_type ms ty) @ audio_mods_bytes ms ty @ rest)
      (Inr (m, mods_type ms ty)) (audio_mods_bytes ms ty @ rest)"
    using Cons.prems by (intro runs_audio_mod [OF env]) simp_all
  moreover have "runs (audio_mod_exs_demux k env (mods_type ms ty)) (audio_mods_bytes ms ty @ rest) (Inr (ms, ty)) rest"
    using Cons.prems by (intro Cons.IH) (simp_all add: n)
  ultimately show ?case
    by (auto simp: n mods_type_def [of "m # ms"] intro!: runs_bnd runs_ret)
qed

lemma audio_mods_length: "length ms \<le> length (audio_mods_bytes ms ty)"
proof (induction ms)
  case (Cons m ms)
  then show ?case by (cases m) auto
qed simp

lemma runs_audio_header:
  assumes env: "lawful_flv env" and h: "ex_audio_header_ok h"
  shows "runs (ex_audio_header_demux env) (ex_audio_header_bytes h @ rest) (Inr h) rest"
proof -
  have ty: "unat (outer_type h) < 16" "outer_type h \<noteq> AudioModEx"
    using h by (auto simp: ex_audio_header_ok_def outer_type_def split: ex_audio_content.split)
  then have "unat (mods_type (audio_mod_exs h) (outer_type h)) < 16" by (simp add: mods_type_def)
  with nibbles(2) [of 9] have first: "nibble_pair 9 (mods_type (audio_mod_exs h) (outer_type h)) AND 0x0F = mods_type (audio_mod_exs h) (outer_type h)"
    by simp
  let ?content = "audio_content_bytes (audio_content h) (audio_packet_type h) @ rest"
  have mods: "runs (with_fuel (\<lambda>n. audio_mod_exs_demux n env (mods_type (audio_mod_exs h) (outer_type h))))
      (audio_mods_bytes (audio_mod_exs h) (outer_type h) @ ?content) (Inr (audio_mod_exs h, outer_type h)) ?content"
    by (rule runs_with_fuel, rule runs_audio_mods [OF env ty])
      (use h audio_mods_length [of "audio_mod_exs h" "outer_type h"] in \<open>simp_all add: ex_audio_header_ok_def\<close>)
  have p: "unat (audio_packet_type h) < 16" "audio_packet_type h \<noteq> AudioMultitrack" using h by (simp_all add: ex_audio_header_ok_def)
  have h_eq: "h = \<lparr>audio_mod_exs = audio_mod_exs h, audio_packet_type = audio_packet_type h, audio_content = audio_content h\<rparr>"
    by simp
  show ?thesis
    unfolding ex_audio_header_demux_def ex_audio_header_bytes_def append_Cons append_assoc
    apply (rule runs_bnd [OF runs_read(1) [OF env]])
    apply (subst first)
    apply (rule runs_bnd [OF mods])
    apply (rule runs_case)
    apply (use h p in \<open>cases "audio_content h"\<close>)
        apply (auto simp: outer_type_def ex_audio_header_ok_def nibbles Let_def
          intro!: runs_bnd [OF runs_read(1) [OF env]] runs_bnd [OF runs_four_cc])
    apply (auto intro!: runs_ret_eq ex_audio_header.equality)
    done
qed


text \<open>
  A packet, and a track: the FourCC where each track has its own, the track's number, the size
  of the packet where there are several tracks, and the packet.
\<close>

fun order_bytes :: "multichannel_order \<Rightarrow> u8 \<Rightarrow> u8 list" where
  "order_bytes (CustomOrder bs) n = ChannelOrderCustom # n # bs"
| "order_bytes (NativeOrder channels) n = ChannelOrderNative # n # be_bytes 4 channels"
| "order_bytes UnspecifiedOrder n = [ChannelOrderUnspecified, n]"
| "order_bytes (UnknownOrder k) n = [k, n]"

fun order_ok :: "multichannel_order \<Rightarrow> u8 \<Rightarrow> bool" where
  "order_ok (CustomOrder bs) n \<longleftrightarrow> length bs = unat n"
| "order_ok (NativeOrder channels) n \<longleftrightarrow> True"
| "order_ok UnspecifiedOrder n \<longleftrightarrow> True"
| "order_ok (UnknownOrder k) n \<longleftrightarrow> 2 < unat k"

fun audio_packet_bytes :: "audio_packet \<Rightarrow> u8 list" where
  "audio_packet_bytes (MultichannelConfig n order) = order_bytes order n"
| "audio_packet_bytes AudioPacketSequenceEnd = []"
| "audio_packet_bytes (AudioPacketSequenceStart bs) = bs"
| "audio_packet_bytes (AudioPacketCodedFrames bs) = bs"
| "audio_packet_bytes (UnknownAudioPacket ty bs) = bs"

fun audio_packet_ok :: "u8 \<Rightarrow> audio_packet \<Rightarrow> bool" where
  "audio_packet_ok k (MultichannelConfig n order) \<longleftrightarrow> k = AudioMultichannelConfig \<and> order_ok order n"
| "audio_packet_ok k AudioPacketSequenceEnd \<longleftrightarrow> k = AudioSequenceEnd"
| "audio_packet_ok k (AudioPacketSequenceStart bs) \<longleftrightarrow> k = AudioSequenceStart"
| "audio_packet_ok k (AudioPacketCodedFrames bs) \<longleftrightarrow> k = AudioCodedFrames"
| "audio_packet_ok k (UnknownAudioPacket ty bs) \<longleftrightarrow> k = ty \<and>
     ty \<notin> {AudioMultichannelConfig, AudioSequenceEnd, AudioSequenceStart, AudioCodedFrames}"

definition sized :: "ex_audio_content \<Rightarrow> bool" where
  "sized content \<longleftrightarrow> (case content of AudioNoMultiTrack _ \<Rightarrow> False | AudioOneTrack _ \<Rightarrow> False | _ \<Rightarrow> True)"

definition sized_bytes :: "ex_audio_header \<Rightarrow> audio_packet \<Rightarrow> u8 list" where
  "sized_bytes h p = (if sized (audio_content h) then be_bytes 3 (of_nat (length (audio_packet_bytes p)) :: u32) else []) @
     audio_packet_bytes p"

definition audio_track_bytes :: "ex_audio_header \<Rightarrow> audio_track \<Rightarrow> u8 list" where
  "audio_track_bytes h t = (if audio_content h = AudioManyTracksManyCodecs then track_audio_four_cc t else []) @
     audio_track_id t # sized_bytes h (audio_track_packet t)"

text \<open>What a header and a body must have in common.\<close>

fun four_cc_fits :: "ex_audio_content \<Rightarrow> four_cc \<Rightarrow> bool" where
  "four_cc_fits (AudioNoMultiTrack cc) x \<longleftrightarrow> x = cc"
| "four_cc_fits (AudioOneTrack cc) x \<longleftrightarrow> x = cc"
| "four_cc_fits (AudioManyTracks cc) x \<longleftrightarrow> x = cc"
| "four_cc_fits AudioManyTracksManyCodecs x \<longleftrightarrow> length x = 4"
| "four_cc_fits (AudioUnknownTracks multi cc) x \<longleftrightarrow> x = cc"

definition audio_track_ok :: "ex_audio_header \<Rightarrow> audio_track \<Rightarrow> bool" where
  "audio_track_ok h t \<longleftrightarrow> four_cc_fits (audio_content h) (track_audio_four_cc t) \<and>
     audio_packet_ok (audio_packet_type h) (audio_track_packet t) \<and>
     length (audio_packet_bytes (audio_track_packet t)) < 2 ^ 24"

fun ex_audio_body_ok :: "ex_audio_header \<Rightarrow> ex_audio_body \<Rightarrow> bool" where
  "ex_audio_body_ok h (AudioNoMultitrack cc p) \<longleftrightarrow> audio_content h = AudioNoMultiTrack cc \<and> audio_packet_ok (audio_packet_type h) p"
| "ex_audio_body_ok h (AudioTracks ts) \<longleftrightarrow> ts \<noteq> [] \<and> list_all (audio_track_ok h) ts \<and>
     (case audio_content h of AudioNoMultiTrack _ \<Rightarrow> False | AudioOneTrack _ \<Rightarrow> length ts = 1 | _ \<Rightarrow> True)"

fun ex_audio_body_bytes :: "ex_audio_header \<Rightarrow> ex_audio_body \<Rightarrow> u8 list" where
  "ex_audio_body_bytes h (AudioNoMultitrack cc p) = sized_bytes h p"
| "ex_audio_body_bytes h (AudioTracks ts) = concat (map (audio_track_bytes h) ts)"

lemma audio_packet_types [simp]:
  "AudioSequenceEnd \<noteq> AudioMultichannelConfig" "AudioSequenceStart \<noteq> AudioMultichannelConfig"
  "AudioCodedFrames \<noteq> AudioMultichannelConfig" "AudioSequenceStart \<noteq> AudioSequenceEnd" "AudioCodedFrames \<noteq> AudioSequenceEnd"
  "AudioCodedFrames \<noteq> AudioSequenceStart" "ChannelOrderNative \<noteq> ChannelOrderCustom"
  "ChannelOrderUnspecified \<noteq> ChannelOrderCustom" "ChannelOrderUnspecified \<noteq> ChannelOrderNative"
  "unat ChannelOrderCustom = 2" "unat ChannelOrderNative = 1" "unat ChannelOrderUnspecified = 0"
  by (simp_all add: AudioSequenceEnd_def AudioMultichannelConfig_def AudioSequenceStart_def AudioCodedFrames_def
      ChannelOrderCustom_def ChannelOrderNative_def ChannelOrderUnspecified_def)

lemma runs_track_rest:
  assumes "lawful_flv env"
  shows "runs (extract_track env None) bs (Inr bs) []" and "length as = n \<Longrightarrow> runs (extract_track env (Some n)) (as @ bs) (Inr as) bs"
proof -
  have "runs (fio (extract_bytes (length bs))) (bs @ []) (Inr bs) []" by (rule runs_extract) simp
  then show "runs (extract_track env None) bs (Inr bs) []"
    using assms by (auto simp: runs_def extract_track_def lawful_flv_def simp flip: length_cursor_rest)
  show "length as = n \<Longrightarrow> runs (extract_track env (Some n)) (as @ bs) (Inr as) bs"
    using runs_extract [of as n bs] by (simp add: runs_def extract_track_def)
qed

lemma runs_multichannel:
  assumes env: "lawful_flv env" and "order_ok order n"
  shows "runs (multichannel_demux env) (order_bytes order n @ rest) (Inr (MultichannelConfig n order)) rest"
proof -
  have "runs (if k = ChannelOrderCustom then bnd (fio (extract_bytes (unat n))) (\<lambda>bs. ret (CustomOrder bs))
      else if k = ChannelOrderNative then bnd (fio (bo_u32 (fe_bo env))) (\<lambda>channels. ret (NativeOrder channels))
      else if k = ChannelOrderUnspecified then ret UnspecifiedOrder else ret (UnknownOrder k)) (bs @ rest) (Inr order) rest"
    if "order_bytes order n = k # n # bs" for k bs
    using assms(2) that
    by (cases order) (auto intro!: runs_bnd [OF runs_extract] runs_bnd [OF runs_read(4) [OF env]] runs_ret)
  moreover obtain k bs where "order_bytes order n = k # n # bs" by (cases order) auto
  ultimately show ?thesis
    unfolding multichannel_demux_def
    by (auto intro!: runs_bnd [OF runs_read(1) [OF env]] runs_bnd runs_ret)
qed

lemma runs_audio_packet:
  assumes env: "lawful_flv env" and p: "audio_packet_ok (audio_packet_type h) p"
    and len: "sized (audio_content h) \<Longrightarrow> length (audio_packet_bytes p) < 2 ^ 24"
    and rest: "\<not> sized (audio_content h) \<Longrightarrow> rest = []"
  shows "runs (audio_packet_demux env h) (sized_bytes h p @ rest) (Inr p) rest"
proof -
  obtain sz where size: "runs (track_size env (sized (audio_content h))) (sized_bytes h p @ rest) (Inr sz) (audio_packet_bytes p @ rest)"
    and track: "runs (extract_track env sz) (audio_packet_bytes p @ rest) (Inr (audio_packet_bytes p)) rest"
  proof (cases "sized (audio_content h)")
    case True
    have n: "unat (of_nat (length (audio_packet_bytes p)) :: u32) = length (audio_packet_bytes p)"
      using len [OF True] by (simp add: unat_of_nat)
    have "runs (track_size env True) (sized_bytes h p @ rest) (Inr (Some (length (audio_packet_bytes p)))) (audio_packet_bytes p @ rest)"
      using True len [OF True] n
      by (auto simp: sized_bytes_def track_size_def intro!: runs_bnd [OF runs_u24 [OF env]] runs_ret_eq)
    with True show ?thesis using runs_track_rest(2) [OF env refl] that by force
  next
    case False
    with rest have "rest = []" by simp
    with False show ?thesis
      using that [of None] runs_track_rest(1) [OF env] runs_ret [of None "audio_packet_bytes p"] by (simp add: sized_bytes_def track_size_def)
  qed
  have "runs (let ty = audio_packet_type h in
     if ty = AudioMultichannelConfig then multichannel_demux env
     else if ty = AudioSequenceEnd then ret AudioPacketSequenceEnd
     else if ty = AudioSequenceStart then bnd (extract_track env sz) (\<lambda>bs. ret (AudioPacketSequenceStart bs))
     else if ty = AudioCodedFrames then bnd (extract_track env sz) (\<lambda>bs. ret (AudioPacketCodedFrames bs))
     else bnd (extract_track env sz) (\<lambda>bs. ret (UnknownAudioPacket ty bs))) (audio_packet_bytes p @ rest) (Inr p) rest"
    using p track runs_multichannel [OF env]
    by (cases p) (auto simp: Let_def intro!: runs_bnd runs_ret)
  with size show ?thesis
    unfolding audio_packet_demux_def sized_def [symmetric] by (rule runs_bnd)
qed

lemma runs_audio_track:
  assumes env: "lawful_flv env" and h: "ex_audio_header_ok h" and t: "audio_track_ok h t"
    and rest: "\<not> sized (audio_content h) \<Longrightarrow> rest = []"
  shows "runs (audio_track_demux env h) (audio_track_bytes h t @ rest) (Inr t) rest"
proof -
  let ?cc = "if audio_content h = AudioManyTracksManyCodecs then track_audio_four_cc t else []"
  have cc: "runs (audio_four_cc_read (audio_content h)) (?cc @ bs) (Inr (track_audio_four_cc t)) bs" for bs
    using t by (cases "audio_content h") (auto simp: audio_track_ok_def audio_four_cc_read_def intro: runs_four_cc runs_ret)
  have "runs (audio_packet_demux env h) (sized_bytes h (audio_track_packet t) @ rest) (Inr (audio_track_packet t)) rest"
    using t by (intro runs_audio_packet [OF env] rest) (simp_all add: audio_track_ok_def)
  note packet = this
  show ?thesis
    unfolding audio_track_demux_def audio_track_bytes_def append_assoc append_Cons
    by (rule runs_bnd [OF cc], rule runs_bnd [OF runs_read(1) [OF env]], rule runs_bnd [OF packet]) (simp add: runs_ret_eq)
qed

lemma runs_audio_tracks:
  assumes env: "lawful_flv env" and h: "ex_audio_header_ok h"
  shows "ts \<noteq> [] \<Longrightarrow> list_all (audio_track_ok h) ts \<Longrightarrow> length ts < n \<Longrightarrow>
    (case audio_content h of AudioNoMultiTrack _ \<Rightarrow> False | AudioOneTrack _ \<Rightarrow> length ts = 1 | _ \<Rightarrow> True) \<Longrightarrow>
    runs (audio_tracks_demux n env h) (concat (map (audio_track_bytes h) ts)) (Inr ts) []"
proof (induction ts arbitrary: n)
  case (Cons t ts)
  then obtain k where n: "n = Suc k" by (cases n) auto
  let ?rest = "concat (map (audio_track_bytes h) ts)"
  have "\<not> sized (audio_content h) \<Longrightarrow> ?rest = []"
    using Cons.prems(4) by (auto simp: sized_def split: ex_audio_content.splits)
  then have track: "runs (audio_track_demux env h) (audio_track_bytes h t @ ?rest) (Inr t) ?rest"
    using Cons.prems by (intro runs_audio_track [OF env h]) simp_all
  let ?go = "\<lambda>c. \<not> (case audio_content h of AudioOneTrack _ \<Rightarrow> True | _ \<Rightarrow> False) \<and> fe_has_remaining env c"
  have go: "?go c \<longleftrightarrow> ts \<noteq> []" if "cursor_rest c = ?rest" for c
  proof -
    have "?rest \<noteq> [] \<longleftrightarrow> ts \<noteq> []" by (cases ts) (simp_all add: audio_track_bytes_def)
    with that env Cons.prems(4) show ?thesis by (auto simp: lawful_flv_def split: ex_audio_content.splits)
  qed
  have "runs (\<lambda>c. if ?go c then bnd (audio_tracks_demux k env h) (\<lambda>ts. ret (t # ts)) c else ret [t] c) ?rest (Inr (t # ts)) []"
  proof (cases "ts = []")
    case False
    have "runs (audio_tracks_demux k env h) ?rest (Inr ts) []"
      using Cons.prems False by (intro Cons.IH) (auto simp: n split: ex_audio_content.splits)
    then have "runs (bnd (audio_tracks_demux k env h) (\<lambda>ts. ret (t # ts))) ?rest (Inr (t # ts)) []"
      by (rule runs_bnd [OF _ runs_ret])
    with False go show ?thesis by (simp add: runs_def)
  qed (use go in \<open>auto simp: runs_def ret_def\<close>)
  with track show ?case
    unfolding n audio_tracks_demux.simps list.map concat.simps by (rule runs_bnd)
qed simp

lemma audio_tracks_length: "length ts \<le> length (concat (map (audio_track_bytes h) ts))"
  by (induction ts) (auto simp: audio_track_bytes_def)

lemma runs_audio_body:
  assumes env: "lawful_flv env" and h: "ex_audio_header_ok h" and b: "ex_audio_body_ok h b"
  shows "runs (ex_audio_body_demux env h) (ex_audio_body_bytes h b) (Inr b) []"
proof (cases b)
  case (AudioNoMultitrack cc p)
  with b have c: "audio_content h = AudioNoMultiTrack cc" and p: "audio_packet_ok (audio_packet_type h) p" by simp_all
  have "runs (audio_packet_demux env h) (sized_bytes h p @ []) (Inr p) []"
    by (rule runs_audio_packet [OF env p]) (simp_all add: c sized_def)
  then show ?thesis
    unfolding ex_audio_body_demux_def by (auto simp: AudioNoMultitrack c intro!: runs_bnd runs_ret)
next
  case (AudioTracks ts)
  have "runs (with_fuel (\<lambda>n. audio_tracks_demux n env h)) (concat (map (audio_track_bytes h) ts)) (Inr ts) []"
    using b audio_tracks_length [of ts h] by (intro runs_with_fuel runs_audio_tracks [OF env h]) (simp_all add: AudioTracks)
  then have "runs (bnd (with_fuel (\<lambda>n. audio_tracks_demux n env h)) (\<lambda>ts. ret (AudioTracks ts)))
      (concat (map (audio_track_bytes h) ts)) (Inr (AudioTracks ts)) []"
    by (rule runs_bnd [OF _ runs_ret])
  with b show ?thesis
    unfolding ex_audio_body_demux_def by (auto simp: AudioTracks split: ex_audio_content.splits)
qed

text \<open>
  C31. Audio in the enhanced format is read back from what the format says of it: every
  modifier with its data in order, the packet type behind them, the FourCC of the codec, and one
  packet or all tracks in order, each with its number, codec and content.
\<close>

theorem enhanced_audio_parse_encoded:
  assumes "lawful_flv env" and "ex_audio_header_ok h" and "ex_audio_body_ok h b"
  shows "fst (audio_data_demux env (cursor_new (ex_audio_header_bytes h @ ex_audio_body_bytes h b))) =
    Inr \<lparr>audio_header = EnhancedAudioHeader h, audio_body = EnhancedAudioBody b\<rparr>"
proof -
  let ?bs = "ex_audio_header_bytes h @ ex_audio_body_bytes h b"
  have ty: "unat (mods_type (audio_mod_exs h) (outer_type h)) < 16"
    using assms(2) by (auto simp: ex_audio_header_ok_def outer_type_def mods_type_def split: ex_audio_content.split)
  obtain bs where bs: "?bs = nibble_pair 9 (mods_type (audio_mod_exs h) (outer_type h)) # bs"
    by (simp add: ex_audio_header_bytes_def)
  have enhanced: "drop_bit 4 (nibble_pair 9 (mods_type (audio_mod_exs h) (outer_type h)) AND 0xF0) = SoundExHeader"
    using nibbles(1) [of 9 "mods_type (audio_mod_exs h) (outer_type h)"] ty by (simp add: drop_bit_and SoundExHeader_def)
  obtain c where c: "ex_audio_header_demux env (cursor_new ?bs) = (Inr h, c)" "cursor_rest c = ex_audio_body_bytes h b"
    by (rule runs_at [OF cursor_rest_new runs_audio_header [OF assms(1,2)]])
  have "audio_header_demux env (cursor_new ?bs) = (Inr (EnhancedAudioHeader h), c)"
    unfolding audio_header_demux_def bs by (subst peek_new [OF assms(1)]) (use c(1) enhanced bs in \<open>simp add: bnd_at ret_def\<close>)
  moreover obtain c' where "ex_audio_body_demux env h c = (Inr b, c')"
    by (rule runs_at [OF c(2) runs_audio_body [OF assms]])
  ultimately show ?thesis
    by (simp add: audio_data_demux_def audio_body_demux_def bnd_at ret_def)
qed

definition ex_audio_sample :: ex_audio_header where
  "ex_audio_sample = \<lparr>audio_mod_exs = [AudioTimestampOffset 500, OtherAudioModEx 3 [1, 2]],
     audio_packet_type = AudioCodedFrames, audio_content = AudioManyTracksManyCodecs\<rparr>"

definition ex_audio_body_sample :: ex_audio_body where
  "ex_audio_body_sample = AudioTracks
     [\<lparr>track_audio_four_cc = utf8_of ''Opus'', audio_track_id = 1, audio_track_packet = AudioPacketCodedFrames [9, 8, 7]\<rparr>,
      \<lparr>track_audio_four_cc = utf8_of ''mp4a'', audio_track_id = 2, audio_track_packet = AudioPacketCodedFrames []\<rparr>]"

theorem enhanced_audio_parse_encoded_witness:
  "fst (audio_data_demux flv_sample_env (cursor_new (ex_audio_header_bytes ex_audio_sample @
      ex_audio_body_bytes ex_audio_sample ex_audio_body_sample))) =
    Inr \<lparr>audio_header = EnhancedAudioHeader ex_audio_sample, audio_body = EnhancedAudioBody ex_audio_body_sample\<rparr>"
proof (rule enhanced_audio_parse_encoded [OF flv_sample_lawful])
  show "ex_audio_header_ok ex_audio_sample"
    by (simp add: ex_audio_header_ok_def ex_audio_sample_def AudioCodedFrames_def AudioModEx_def AudioMultitrack_def)
  have "length (utf8_of ''Opus'') = 4" "length (utf8_of ''mp4a'') = 4" by code_simp+
  then show "ex_audio_body_ok ex_audio_sample ex_audio_body_sample"
    by (simp add: ex_audio_sample_def ex_audio_body_sample_def audio_track_ok_def)
qed

end
