(* ===== verification/Flv_Video.thy ===== *)
theory Flv_Video
  imports Flv_Audio
begin

text \<open>
  Video sequence headers: the FLV demuxer composed with the configuration records of AVC,
  HEVC and AV1.
\<close>

subsection \<open>Video sequence headers\<close>

fun sequence_start_four_cc :: "four_cc \<Rightarrow> video_sequence_start \<Rightarrow> four_cc" where
  "sequence_start_four_cc other (SequenceStartAv1 c) = VideoFourCcAv1"
| "sequence_start_four_cc other (SequenceStartAvc c) = VideoFourCcAvc"
| "sequence_start_four_cc other (SequenceStartHevc c) = VideoFourCcHevc"
| "sequence_start_four_cc other (OtherSequenceStart bs) = other"

text \<open>What the crates of the codecs write for a record.\<close>

fun sequence_start_written :: "u8 list bit_writer byteorder_w \<Rightarrow> video_sequence_start \<Rightarrow> u8 list" where
  "sequence_start_written bw (SequenceStartAv1 c) = snd (av1_config_mux vec_write c [])"
| "sequence_start_written bw (SequenceStartAvc c) = snd (avcc_build vec_write bw c [])"
| "sequence_start_written bw (SequenceStartHevc c) = snd (hevc_config_mux vec_write bw c [])"
| "sequence_start_written bw (OtherSequenceStart bs) = bs"

fun sequence_start_ok :: "video_sequence_start \<Rightarrow> bool" where
  "sequence_start_ok (SequenceStartAv1 c) \<longleftrightarrow> av1_config_ok c \<and> hdr_wcg_idc c = 0 \<and> length (config_obu c) < 2 ^ 59"
| "sequence_start_ok (SequenceStartAvc c) \<longleftrightarrow> avcc_ok c"
| "sequence_start_ok (SequenceStartHevc c) \<longleftrightarrow> hevc_config_ok c"
| "sequence_start_ok (OtherSequenceStart bs) \<longleftrightarrow> True"

lemma video_four_ccs [simp]:
  "length VideoFourCcAv1 = 4" "length VideoFourCcAvc = 4" "length VideoFourCcHevc = 4"
  "VideoFourCcAvc \<noteq> VideoFourCcAv1" "VideoFourCcHevc \<noteq> VideoFourCcAv1" "VideoFourCcHevc \<noteq> VideoFourCcAvc"
  by code_simp+

lemma demux_in_run: "m (cursor_new bs) = (Inr x, c) \<Longrightarrow> demux_in m bs c' = (Inr x, c')"
  by (simp add: demux_in_def lift_res_def fio_def map_err_def)

lemma sequence_start_run:
  assumes env: "lawful_flv env" and bw: "byteorder_writes (bit_writer_write vec_write) bw" and ok: "sequence_start_ok s"
    and other: "other \<notin> {VideoFourCcAv1, VideoFourCcAvc, VideoFourCcHevc}"
  shows "video_sequence_start_demux env (sequence_start_four_cc other s) (sequence_start_written bw s) c = (Inr s, c)"
proof (cases s)
  case (SequenceStartAv1 r)
  with ok have r: "av1_config_ok r" "r\<lparr>hdr_wcg_idc := 0\<rparr> = r" "length (config_obu r) < 2 ^ 59" by simp_all
  let ?v = "pack_bits (av1_config_bits r) @ config_obu r"
  have v: "sequence_start_written bw s = ?v"
    using av1_config_mux_run [OF r(1), of "[]"] by (simp add: SequenceStartAv1 r(2))
  have "cursor_ok (cursor_new ?v)" using r(3) by (simp add: length_pack_whole cursor_ok_new)
  then obtain c where "av1_config_demux (cursor_new ?v) = (Inr r, c)"
    using av1_config_demux_run [OF r(1), of "cursor_new ?v"] by auto
  from demux_in_run [of av1_config_demux, OF this] show ?thesis
    unfolding v by (simp add: SequenceStartAv1 video_sequence_start_demux_def bnd_at ret_def)
next
  case (SequenceStartAvc r)
  with ok have r: "avcc_ok r" by simp
  have v: "sequence_start_written bw s = avcc_bytes r"
    using vec.avcc_build_run [OF bw r, of "[]"] by (simp add: SequenceStartAvc)
  have "\<And>c. fe_has_remaining env c \<longleftrightarrow> cursor_rest c \<noteq> []" using env by (simp add: lawful_flv_def)
  from decodes_avcc [OF flv_bo [OF env] r this]
  obtain c where "avcc_parse (fe_bo env) (fe_has_remaining env) (cursor_new (avcc_bytes r)) = (Inr r, c)"
    unfolding cur.decodes_all_def by (metis cursor_rest_new)
  from demux_in_run [of "avcc_parse (fe_bo env) (fe_has_remaining env)", OF this] show ?thesis
    unfolding v by (simp add: SequenceStartAvc video_sequence_start_demux_def bnd_at ret_def)
next
  case (SequenceStartHevc r)
  with ok have r: "hevc_config_ok r" by simp
  have v: "sequence_start_written bw s = pack_bits (hevc_config_bits r)"
    using hevc_config_mux_run [OF bw r, of "[]"] by (simp add: SequenceStartHevc)
  have "byteorder_reads (bit_reader_read cursor_read) (fe_bits env)" using env by (simp add: lawful_flv_def)
  from hevc_config_demux_run [OF this r, of "[]"]
  obtain c where "hevc_config_demux cursor_read (fe_bits env) (cursor_new (pack_bits (hevc_config_bits r))) = (Inr r, c)" by auto
  from demux_in_run [of "hevc_config_demux cursor_read (fe_bits env)", OF this] show ?thesis
    unfolding v by (simp add: SequenceStartHevc video_sequence_start_demux_def bnd_at ret_def)
next
  case (OtherSequenceStart bs)
  with other show ?thesis by (simp add: video_sequence_start_demux_def ret_def)
qed

text \<open>The first byte of an enhanced video header.\<close>

definition video_first_byte :: "u8 \<Rightarrow> u8 \<Rightarrow> u8" where
  "video_first_byte frame_type ty = nibble_pair (8 OR frame_type) ty"

lemma video_first_byte_parts:
  assumes "unat frame_type < 8" and "unat ty < 16"
  shows "video_first_byte frame_type ty AND 0x80 \<noteq> 0" and "drop_bit 4 (video_first_byte frame_type ty AND 0x70) = frame_type"
    and "video_first_byte frame_type ty AND 0x0F = ty"
proof -
  have "frame_type = of_nat (unat frame_type)" "unat frame_type \<in> {0, 1, 2, 3, 4, 5, 6, 7}" using assms(1) by auto
  then have "frame_type \<in> {0, 1, 2, 3, 4, 5, 6, 7}" by (elim insertE) simp_all
  then have small: "unat (8 OR frame_type) < 16" and low: "(8 OR frame_type) AND 7 = frame_type" "(8 OR frame_type) AND 8 = 8"
    by (auto elim!: insertE)
  show "video_first_byte frame_type ty AND 0x0F = ty"
    unfolding video_first_byte_def by (rule nibbles(2) [OF small assms(2)])
  have hi: "drop_bit 4 (video_first_byte frame_type ty) = 8 OR frame_type"
    unfolding video_first_byte_def by (rule nibbles(1) [OF small assms(2)])
  from hi low(1) show "drop_bit 4 (video_first_byte frame_type ty AND 0x70) = frame_type" by (simp add: drop_bit_and)
  have "drop_bit 4 (video_first_byte frame_type ty AND 0x80) = 8"
    using hi low(2) by (simp add: drop_bit_and)
  moreover have "(8 :: u8) \<noteq> 0" by simp
  ultimately show "video_first_byte frame_type ty AND 0x80 \<noteq> 0" by (metis drop_bit_of_0)
qed

text \<open>
  C32. A video tag that starts a sequence returns the configuration record of its codec: for
  AVC, HEVC and AV1, what the crate of the codec writes for a record, behind the FourCC of
  the codec, demuxes to that record; for other codecs the bytes are kept. The record of AV1
  is one with \<open>hdr_wcg_idc = 0\<close> (\<open>sequence_start_ok\<close>): another value is lost, since \<open>mux\<close> writes
  zeros for it (C40).
\<close>

theorem video_sequence_start_roundtrip:
  assumes "lawful_flv env" and "byteorder_writes (bit_writer_write vec_write) bw" and "sequence_start_ok s"
    and "length other = 4" and "other \<notin> {VideoFourCcAv1, VideoFourCcAvc, VideoFourCcHevc}"
    and "unat frame_type < 8" and "frame_type \<noteq> VideoFrameCommand"
  shows "fst (video_data_demux env (cursor_new (video_first_byte frame_type VideoSequenceStart #
      sequence_start_four_cc other s @ sequence_start_written bw s))) =
    Inr \<lparr>video_header = \<lparr>video_frame_type = frame_type, video_header_data = EnhancedVideoHeader
        \<lparr>video_mod_exs = [], video_packet_type = VideoSequenceStart, video_content = VideoNoMultiTrack (sequence_start_four_cc other s)\<rparr>\<rparr>,
      video_body = EnhancedVideoBody (VideoNoMultitrack (sequence_start_four_cc other s) (VideoPacketSequenceStart s))\<rparr>"
proof -
  note env = assms(1)
  let ?b = "video_first_byte frame_type VideoSequenceStart" and ?cc = "sequence_start_four_cc other s"
    and ?v = "sequence_start_written bw s"
  let ?h = "\<lparr>video_mod_exs = [], video_packet_type = VideoSequenceStart, video_content = VideoNoMultiTrack ?cc\<rparr>"
  have ty: "unat VideoSequenceStart < 16" by (simp add: VideoSequenceStart_def)
  note byte = video_first_byte_parts [OF assms(6) this]
  have cc: "length ?cc = 4" using assms(4) by (cases s) simp_all
  have no_mods: "runs (with_fuel (\<lambda>n. video_mod_exs_demux n env VideoSequenceStart)) bs (Inr ([], VideoSequenceStart)) bs" for bs
    by (rule runs_with_fuel) (simp add: VideoSequenceStart_def VideoModEx_def runs_ret)
  have header: "runs (ex_video_header_demux env) (?b # ?cc @ ?v) (Inr ?h) ?v"
    unfolding ex_video_header_demux_def Let_def
    by (rule runs_bnd [OF runs_read(1) [OF env]], unfold byte, rule runs_bnd [OF no_mods], rule runs_case)
      (use assms(7) in \<open>auto simp: VideoSequenceStart_def VideoMultitrack_def intro!: runs_bnd [OF runs_four_cc [OF cc]] runs_ret\<close>)
  have "runs (video_sequence_start_demux env ?cc ?v) [] (Inr s) []"
    using sequence_start_run [OF assms(1-3,5)] by (simp add: runs_def)
  then have packet: "runs (video_packet_demux env ?h ?cc) ?v (Inr (VideoPacketSequenceStart s)) []"
    unfolding video_packet_demux_def track_size_def
    by (auto simp: VideoSequenceStart_def VideoMetadata_def VideoSequenceEnd_def
        intro!: runs_bnd runs_ret runs_track_rest(1) [OF env])
  obtain c where c: "ex_video_header_demux env (cursor_new (?b # ?cc @ ?v)) = (Inr ?h, c)" "cursor_rest c = ?v"
    by (rule runs_at [OF cursor_rest_new header])
  have "video_header_demux env (cursor_new (?b # ?cc @ ?v)) =
      (Inr \<lparr>video_frame_type = frame_type, video_header_data = EnhancedVideoHeader ?h\<rparr>, c)"
    unfolding video_header_demux_def by (subst peek_new [OF env]) (use c(1) byte in \<open>simp add: bnd_at ret_def\<close>)
  moreover obtain c' where "video_packet_demux env ?h ?cc c = (Inr (VideoPacketSequenceStart s), c')"
    by (rule runs_at [OF c(2) packet])
  ultimately show ?thesis
    by (simp add: video_data_demux_def video_body_demux_def ex_video_body_demux_def bnd_at ret_def)
qed


theorem video_sequence_start_roundtrip_witness:
  "fst (video_data_demux flv_sample_env (cursor_new (video_first_byte 1 VideoSequenceStart # VideoFourCcAvc @
      snd (avcc_build vec_write (be_writes (bit_writer_write vec_write)) avcc_sample [])))) =
    Inr \<lparr>video_header = \<lparr>video_frame_type = 1, video_header_data = EnhancedVideoHeader
        \<lparr>video_mod_exs = [], video_packet_type = VideoSequenceStart, video_content = VideoNoMultiTrack VideoFourCcAvc\<rparr>\<rparr>,
      video_body = EnhancedVideoBody (VideoNoMultitrack VideoFourCcAvc (VideoPacketSequenceStart (SequenceStartAvc avcc_sample)))\<rparr>"
proof -
  have "utf8_of ''vp09'' \<notin> {VideoFourCcAv1, VideoFourCcAvc, VideoFourCcHevc}" "length (utf8_of ''vp09'') = 4"
    by code_simp+
  with video_sequence_start_roundtrip [OF flv_sample_lawful byteorder_writes_be_writes, of "SequenceStartAvc avcc_sample" "utf8_of ''vp09''" 1]
  show ?thesis by (simp add: avcc_sample_ok VideoFrameCommand_def)
qed

end
